(* ===== verification/Prelude.thy ===== *)
theory Prelude
  imports Main Complex_Main "HOL-Library.Word" "HOL-Library.Monad_Syntax"
begin

text \<open>
  Shared vocabulary of the development: machine integers and the checked and saturating operations
  of the Rust standard library, the result type, blank strings, and the interface to the decimal
  number package.

  \<^item> A fallible function returns \<open>'e + 'a\<close>, with \<open>Err\<close> for \<open>Inl\<close> and \<open>Ok\<close> for \<open>Inr\<close>;
    \<open>and_then\<close> is the \<open>?\<close> operator.
  \<^item> A function that may panic returns an option: \<open>None\<close> is the panic, which ends the process
    (the release profile of the workspace sets \<open>panic = "abort"\<close>).
  \<^item> Fixed-width integers are words: the release profile does not enable overflow checks, so \<open>+\<close>
    and \<open>-\<close> wrap around.
  \<^item> \<open>rust_decimal\<close> is not part of the repository. A decimal value denotes a rational number and
    is compared by that value; the arithmetic is a parameter (record \<open>dec_ops\<close>) of every definition
    that computes with decimals. \<open>None\<close> is the overflow on which the operators panic and the
    \<open>checked_\<close> functions return \<open>None\<close>.
\<close>

subsection \<open>Machine integers\<close>

type_synonym u16 = "16 word"
type_synonym u32 = "32 word"
type_synonym u64 = "64 word"
type_synonym i64 = "64 word"
type_synonym usize = "64 word"
type_synonym i32 = "32 word"
type_synonym timestamp = u64

definition saturating_add :: "'a::len word \<Rightarrow> 'a word \<Rightarrow> 'a word" where
  "saturating_add a b = (if unat a + unat b < 2 ^ LENGTH('a) then a + b else - 1)"

definition saturating_sub :: "'a::len word \<Rightarrow> 'a word \<Rightarrow> 'a word" where
  "saturating_sub a b = (if b \<le> a then a - b else 0)"

definition checked_add :: "'a::len word \<Rightarrow> 'a word \<Rightarrow> 'a word option" where
  "checked_add a b = (if unat a + unat b < 2 ^ LENGTH('a) then Some (a + b) else None)"

definition checked_sub :: "'a::len word \<Rightarrow> 'a word \<Rightarrow> 'a word option" where
  "checked_sub a b = (if b \<le> a then Some (a - b) else None)"

text \<open>The number of binary digits of a natural number.\<close>

fun bit_length :: "nat \<Rightarrow> nat" where
  "bit_length n = (if n = 0 then 0 else bit_length (n div 2) + 1)"

declare bit_length.simps [simp del]

subsection \<open>Results\<close>

abbreviation Ok :: "'a \<Rightarrow> 'e + 'a" where
  "Ok \<equiv> Inr"

abbreviation Err :: "'e \<Rightarrow> 'e + 'a" where
  "Err \<equiv> Inl"

definition and_then :: "('e + 'a) \<Rightarrow> ('a \<Rightarrow> 'e + 'b) \<Rightarrow> 'e + 'b" where
  "and_then r f = (case r of Inl e \<Rightarrow> Inl e | Inr x \<Rightarrow> f x)"

definition ok_or :: "'e \<Rightarrow> 'a option \<Rightarrow> 'e + 'a" where
  "ok_or e m = (case m of None \<Rightarrow> Inl e | Some x \<Rightarrow> Inr x)"

text \<open>The \<open>?\<close> operator in a function that may also panic.\<close>

definition try_then :: "('e + 'a) option \<Rightarrow> ('a \<Rightarrow> ('e + 'b) option) \<Rightarrow> ('e + 'b) option" where
  "try_then r f = (case r of None \<Rightarrow> None | Some (Inl e) \<Rightarrow> Some (Inl e) | Some (Inr x) \<Rightarrow> f x)"

fun is_ok :: "'e + 'a \<Rightarrow> bool" where
  "is_ok (Inl _) = False"
| "is_ok (Inr _) = True"

definition is_some_and :: "('a \<Rightarrow> bool) \<Rightarrow> 'a option \<Rightarrow> bool" where
  "is_some_and P m = (case m of None \<Rightarrow> False | Some x \<Rightarrow> P x)"

definition is_none_or :: "('a \<Rightarrow> bool) \<Rightarrow> 'a option \<Rightarrow> bool" where
  "is_none_or P m = (case m of None \<Rightarrow> True | Some x \<Rightarrow> P x)"

definition opt_or :: "'a option \<Rightarrow> 'a option \<Rightarrow> 'a option" where
  "opt_or m n = (case m of None \<Rightarrow> n | Some x \<Rightarrow> Some x)"

definition unwrap_or :: "'a \<Rightarrow> 'a option \<Rightarrow> 'a" where
  "unwrap_or d m = (case m of None \<Rightarrow> d | Some x \<Rightarrow> x)"

subsection \<open>Blank strings\<close>

text \<open>
  \<open>s.trim().is_empty()\<close>: every character of the string is Unicode white space. A string is its
  UTF-8 bytes, so the white space beyond ASCII is matched by its two- and three-byte encodings.
\<close>

fun three_byte_space :: "nat \<Rightarrow> nat \<Rightarrow> nat \<Rightarrow> bool" where
  "three_byte_space a b c =
     (a = 225 \<and> b = 154 \<and> c = 128
      \<or> a = 226 \<and> b = 128 \<and> (128 \<le> c \<and> c \<le> 138 \<or> c = 168 \<or> c = 169 \<or> c = 175)
      \<or> a = 226 \<and> b = 129 \<and> c = 159
      \<or> a = 227 \<and> b = 128 \<and> c = 128)"

fun blank_bytes :: "nat list \<Rightarrow> bool" where
  "blank_bytes [] = True"
| "blank_bytes [a] = (9 \<le> a \<and> a \<le> 13 \<or> a = 32)"
| "blank_bytes [a, b] =
     (if 9 \<le> a \<and> a \<le> 13 \<or> a = 32 then blank_bytes [b]
      else a = 194 \<and> (b = 133 \<or> b = 160))"
| "blank_bytes (a # b # c # r) =
     (if 9 \<le> a \<and> a \<le> 13 \<or> a = 32 then blank_bytes (b # c # r)
      else if a = 194 \<and> (b = 133 \<or> b = 160) then blank_bytes (c # r)
      else three_byte_space a b c \<and> blank_bytes r)"

definition blank :: "string \<Rightarrow> bool" where
  "blank s = blank_bytes (map of_char s)"

text \<open>An unsigned integer as \<open>format!\<close> prints it.\<close>

fun decimal_digits :: "nat \<Rightarrow> string" where
  "decimal_digits n = (if n < 10 then [''0123456789'' ! n] else decimal_digits (n div 10) @ [''0123456789'' ! (n mod 10)])"

declare decimal_digits.simps [simp del]

subsection \<open>Decimal numbers\<close>

type_synonym decimal = rat

record dec_ops =
  d_add :: "decimal \<Rightarrow> decimal \<Rightarrow> decimal option"
  d_sub :: "decimal \<Rightarrow> decimal \<Rightarrow> decimal option"
  d_mul :: "decimal \<Rightarrow> decimal \<Rightarrow> decimal option"
  d_div :: "decimal \<Rightarrow> decimal \<Rightarrow> decimal option"

text \<open>
  What the package documents of its arithmetic and the code relies on, as far as it holds under
  rounding to 28 digits: zero is neutral, adding an amount that is not negative does not decrease,
  subtracting one does not increase, and a product of amounts that are not negative is not negative.
\<close>

definition dec_ordered :: "dec_ops \<Rightarrow> bool" where
  "dec_ordered D \<longleftrightarrow>
     (\<forall>a. d_add D 0 a = Some a) \<and> (\<forall>a. d_sub D a 0 = Some a) \<and>
     (\<forall>a b c. d_add D a b = Some c \<longrightarrow> 0 \<le> b \<longrightarrow> a \<le> c) \<and>
     (\<forall>a b c. d_sub D a b = Some c \<longrightarrow> 0 \<le> b \<longrightarrow> c \<le> a) \<and>
     (\<forall>a b c. d_mul D a b = Some c \<longrightarrow> 0 \<le> a \<longrightarrow> 0 \<le> b \<longrightarrow> 0 \<le> c)"

text \<open>
  Arithmetic in which an operation that returns has not rounded: the case of results of at most 28
  digits. The division of the package is exact when the quotient is such a number.
\<close>

definition dec_exact :: "dec_ops \<Rightarrow> bool" where
  "dec_exact D \<longleftrightarrow>
     (\<forall>a b c. d_add D a b = Some c \<longrightarrow> c = a + b) \<and>
     (\<forall>a b c. d_sub D a b = Some c \<longrightarrow> c = a - b) \<and>
     (\<forall>a b c. d_mul D a b = Some c \<longrightarrow> c = a * b) \<and>
     (\<forall>a b c. d_div D a b = Some c \<longrightarrow> b \<noteq> 0 \<and> c = a / b)"

text \<open>Unbounded decimal arithmetic, the instance at which witnesses are evaluated.\<close>

definition exact_dec :: dec_ops where
  "exact_dec = \<lparr>
     d_add = (\<lambda>a b. Some (a + b)),
     d_sub = (\<lambda>a b. Some (a - b)),
     d_mul = (\<lambda>a b. Some (a * b)),
     d_div = (\<lambda>a b. if b = 0 then None else Some (a / b))\<rparr>"

subsection \<open>Collections\<close>

named_theorems res_simps \<open>evaluation of the result and option combinators\<close>
named_theorems dec_dest \<open>facts about the result of a decimal operation that returned\<close>

subsection \<open>Lemmas\<close>

lemma and_then_simps [simp, res_simps]:
  "and_then (Inl e) f = Inl e"
  "and_then (Inr x) f = f x"
  by (simp_all add: and_then_def)

lemma and_then_Ok_iff [res_simps]:
  "and_then r f = Inr y \<longleftrightarrow> (\<exists>x. r = Inr x \<and> f x = Inr y)"
  by (cases r) (auto simp: and_then_def)

lemma try_then_simps [simp, res_simps]:
  "try_then None f = None"
  "try_then (Some (Inl e)) f = Some (Inl e)"
  "try_then (Some (Inr x)) f = f x"
  by (simp_all add: try_then_def)

lemma try_then_Ok_iff [res_simps]:
  "try_then r f = Some (Inr y) \<longleftrightarrow> (\<exists>x. r = Some (Inr x) \<and> f x = Some (Inr y))"
  by (auto simp: try_then_def split: option.splits sum.splits)

lemma ok_or_simps [simp, res_simps]:
  "ok_or e None = Inl e"
  "ok_or e (Some x) = Inr x"
  by (simp_all add: ok_or_def)

lemma ok_or_Ok_iff [simp]: "ok_or e m = Inr x \<longleftrightarrow> m = Some x"
  by (cases m) auto

lemma is_some_and_simps [simp, res_simps]:
  "is_some_and P None = False"
  "is_some_and P (Some x) = P x"
  by (simp_all add: is_some_and_def)

lemma is_none_or_simps [simp, res_simps]:
  "is_none_or P None = True"
  "is_none_or P (Some x) = P x"
  by (simp_all add: is_none_or_def)

lemma opt_or_simps [simp, res_simps]:
  "opt_or None n = n"
  "opt_or (Some x) n = Some x"
  by (simp_all add: opt_or_def)

lemma unwrap_or_simps [simp, res_simps]:
  "unwrap_or d None = d"
  "unwrap_or d (Some x) = x"
  by (simp_all add: unwrap_or_def)

lemma is_ok_iff: "is_ok r \<longleftrightarrow> (\<exists>x. r = Inr x)"
  by (cases r) auto

lemma dec_ordered_addD [dec_dest]:
  "dec_ordered D \<Longrightarrow> d_add D a b = Some c \<Longrightarrow> 0 \<le> b \<Longrightarrow> a \<le> c"
  unfolding dec_ordered_def by blast

lemma dec_ordered_subD [dec_dest]:
  "dec_ordered D \<Longrightarrow> d_sub D a b = Some c \<Longrightarrow> 0 \<le> b \<Longrightarrow> c \<le> a"
  unfolding dec_ordered_def by blast

lemma dec_ordered_mulD [dec_dest]:
  "dec_ordered D \<Longrightarrow> d_mul D a b = Some c \<Longrightarrow> 0 \<le> a \<Longrightarrow> 0 \<le> b \<Longrightarrow> 0 \<le> c"
  unfolding dec_ordered_def by blast

lemma dec_ordered_zero:
  "dec_ordered D \<Longrightarrow> d_add D 0 a = Some a"
  "dec_ordered D \<Longrightarrow> d_sub D a 0 = Some a"
  by (simp_all add: dec_ordered_def)

lemma dec_exactD:
  "dec_exact D \<Longrightarrow> d_add D a b = Some c \<Longrightarrow> c = a + b"
  "dec_exact D \<Longrightarrow> d_sub D a b = Some c \<Longrightarrow> c = a - b"
  "dec_exact D \<Longrightarrow> d_mul D a b = Some c \<Longrightarrow> c = a * b"
  "dec_exact D \<Longrightarrow> d_div D a b = Some c \<Longrightarrow> c = a / b"
  "dec_exact D \<Longrightarrow> d_div D a b = Some c \<Longrightarrow> b \<noteq> 0"
  by (auto simp: dec_exact_def)

lemma exact_dec_simps [simp]:
  "d_add exact_dec a b = Some (a + b)"
  "d_sub exact_dec a b = Some (a - b)"
  "d_mul exact_dec a b = Some (a * b)"
  "d_div exact_dec a b = (if b = 0 then None else Some (a / b))"
  by (simp_all add: exact_dec_def)

lemma dec_ordered_exact_dec [simp]: "dec_ordered exact_dec"
  by (simp add: dec_ordered_def)

lemma dec_exact_exact_dec [simp]: "dec_exact exact_dec"
  by (auto simp: dec_exact_def split: if_splits)

lemma unat_saturating_add:
  fixes a b :: "'a::len word"
  shows "unat (saturating_add a b) = min (unat a + unat b) (2 ^ LENGTH('a) - 1)"
proof (cases "unat a + unat b < 2 ^ LENGTH('a)")
  case True
  then have "unat (a + b) = unat a + unat b" by (simp add: unat_word_ariths)
  with True show ?thesis by (simp add: saturating_add_def)
next
  case False
  then show ?thesis by (simp add: saturating_add_def unsigned_minus_1_eq_mask mask_eq_exp_minus_1)
qed

lemma checked_sub_Some:
  "checked_sub a b = Some c \<Longrightarrow> b \<le> a \<and> unat c = unat a - unat b"
  by (auto simp: checked_sub_def unat_sub split: if_splits)

lemma checked_add_Some:
  fixes a b c :: "'a::len word"
  shows "checked_add a b = Some c \<Longrightarrow> unat c = unat a + unat b"
  by (auto simp: checked_add_def unat_word_ariths split: if_splits)

text \<open>A signed result equals its integer when that fits.\<close>

lemma sint_fits:
  assumes "- (2 ^ 63) \<le> x" and "x < 2 ^ 63"
  shows "sint (word_of_int x :: 64 word) = x"
  using assms by (simp add: signed_take_bit_int_eq_self sint_uint unsigned_of_int signed_take_bit_take_bit)

lemma bit_length_bound: "n < 2 ^ bit_length n"
proof (induction n rule: bit_length.induct)
  case (1 n)
  show ?case
  proof (cases "n = 0")
    case False
    with 1 have "n div 2 < 2 ^ bit_length (n div 2)" by simp
    then have "n < 2 * 2 ^ bit_length (n div 2)" by linarith
    with False show ?thesis by (subst bit_length.simps) simp
  qed (simp add: bit_length.simps)
qed

lemma bit_length_least: "n < 2 ^ k \<Longrightarrow> bit_length n \<le> k"
proof (induction n arbitrary: k rule: bit_length.induct)
  case (1 n)
  show ?case
  proof (cases "n = 0")
    case False
    with 1(2) obtain j where j: "k = Suc j" by (cases k) auto
    with 1(2) have "n div 2 < 2 ^ j" by (simp add: less_mult_imp_div_less mult.commute)
    with 1(1) [OF False] j False show ?thesis by (subst bit_length.simps) simp
  qed (simp add: bit_length.simps)
qed

lemma blank_Nil [simp]: "blank []"
  by (simp add: blank_def)

lemma map_le_dom_upd [simp]: "k \<in> dom m \<Longrightarrow> dom (m(k \<mapsto> v)) = dom m"
  by auto

end
