(* ===== verification/Core_Types.thy ===== *)
theory Core_Types
  imports Prelude
begin

text \<open>
  The identities and enumerations of the core crate (\<open>market-core/core/src/types.rs\<close>): venues,
  symbols, products, orders and accounts, with the textual forms under which they are stored and
  looked up. Prices and quantities wrap a decimal; symbols and identifiers wrap a string.
\<close>

subsection \<open>Identities\<close>

datatype venue_id = VenueId u16

datatype account_id = AccountId string

datatype order_id = OrderId string

datatype symbol = Symbol string

datatype base_symbol = BaseSymbol string

type_synonym price = decimal
type_synonym quantity = decimal

record venue_symbol =
  vs_venue :: venue_id
  vs_symbol :: symbol

datatype side = Buy | Sell

datatype order_type = Market | Limit

datatype time_in_force = GTC | IOC | FOK

datatype asset_class =
    Crypto | TokenizedSecurity | Equity | Etf | PreIpo | Rwa | AC_PredictionMarket

datatype product_type =
    Spot | Futures | Perp | TokenizedSecuritySpot | BrokerageEquity | PT_PredictionMarket

datatype regulatory_profile = RP_None | AdgmTokenizedSecurity | RestrictedJurisdiction

record compliance_context =
  cc_regulatory_profile :: regulatory_profile
  cc_jurisdiction :: "string option"
  cc_eligibility_confirmed :: bool
  cc_allow_tokenized_securities :: bool
  cc_top_depth_usd :: "decimal option"
  cc_spread_bps :: "decimal option"
  cc_corporate_action_active :: "bool option"
  cc_evidence_source :: "string option"
  cc_evidence_venue :: "venue_id option"
  cc_evidence_observed_at :: "timestamp option"

definition default_compliance_context :: compliance_context where
  "default_compliance_context = \<lparr>
     cc_regulatory_profile = RP_None, cc_jurisdiction = None,
     cc_eligibility_confirmed = False, cc_allow_tokenized_securities = False,
     cc_top_depth_usd = None, cc_spread_bps = None, cc_corporate_action_active = None,
     cc_evidence_source = None, cc_evidence_venue = None, cc_evidence_observed_at = None\<rparr>"

record account_capability =
  can_trade_crypto_spot :: bool
  can_trade_tokenized_securities :: bool
  can_trade_brokerage_equities :: bool
  ac_jurisdiction :: "string option"
  ac_kyc_level :: "string option"

definition default_account_capability :: account_capability where
  "default_account_capability = \<lparr>
     can_trade_crypto_spot = True, can_trade_tokenized_securities = False,
     can_trade_brokerage_equities = False, ac_jurisdiction = None, ac_kyc_level = None\<rparr>"

subsection \<open>Venues\<close>

text \<open>The named venue constants, in the order of their declaration.\<close>

definition BINANCE :: venue_id where "BINANCE = VenueId 1"
definition BITGET :: venue_id where "BITGET = VenueId 2"
definition BYBIT :: venue_id where "BYBIT = VenueId 3"
definition OKX :: venue_id where "OKX = VenueId 4"
definition HYPERLIQUID :: venue_id where "HYPERLIQUID = VenueId 5"
definition ASTERDEX :: venue_id where "ASTERDEX = VenueId 6"
definition LIGHTER :: venue_id where "LIGHTER = VenueId 7"
definition BACKPACK :: venue_id where "BACKPACK = VenueId 8"
definition GRVT :: venue_id where "GRVT = VenueId 9"
definition ONDO_PERPS :: venue_id where "ONDO_PERPS = VenueId 10"
definition POLYMARKET :: venue_id where "POLYMARKET = VenueId 11"
definition BINANCE_SPOT :: venue_id where "BINANCE_SPOT = VenueId 101"
definition BINANCE_TOKENIZED_SECURITIES :: venue_id where
  "BINANCE_TOKENIZED_SECURITIES = VenueId 102"
definition BINANCE_FUTURES :: venue_id where "BINANCE_FUTURES = VenueId 103"
definition BINANCE_BROKERAGE_EQUITIES :: venue_id where
  "BINANCE_BROKERAGE_EQUITIES = VenueId 104"
definition BINANCE_PREDICTION :: venue_id where "BINANCE_PREDICTION = VenueId 105"
definition PREDICT_FUN :: venue_id where "PREDICT_FUN = VenueId 106"
definition MOCK :: venue_id where "MOCK = VenueId 99"

definition venue_as_str :: "venue_id \<Rightarrow> string" where
  "venue_as_str v =
     (if v = BINANCE then ''BINANCE''
      else if v = BITGET then ''BITGET''
      else if v = BYBIT then ''BYBIT''
      else if v = OKX then ''OKX''
      else if v = HYPERLIQUID then ''HYPERLIQUID''
      else if v = ASTERDEX then ''ASTERDEX''
      else if v = LIGHTER then ''LIGHTER''
      else if v = BACKPACK then ''BACKPACK''
      else if v = GRVT then ''GRVT''
      else if v = ONDO_PERPS then ''ONDO_PERPS''
      else if v = POLYMARKET then ''POLYMARKET''
      else if v = BINANCE_SPOT then ''BINANCE_SPOT''
      else if v = BINANCE_TOKENIZED_SECURITIES then ''BINANCE_TOKENIZED_SECURITIES''
      else if v = BINANCE_FUTURES then ''BINANCE_FUTURES''
      else if v = BINANCE_BROKERAGE_EQUITIES then ''BINANCE_BROKERAGE_EQUITIES''
      else if v = BINANCE_PREDICTION then ''BINANCE_PREDICTION''
      else if v = PREDICT_FUN then ''PREDICT_FUN''
      else if v = MOCK then ''MOCK''
      else ''UNKNOWN'')"

definition ascii_upper :: "char \<Rightarrow> char" where
  "ascii_upper c =
     (let n = of_char c :: nat in if 97 \<le> n \<and> n \<le> 122 then char_of (n - 32) else c)"

definition to_ascii_uppercase :: "string \<Rightarrow> string" where
  "to_ascii_uppercase s = map ascii_upper s"

definition venue_from_str :: "string \<Rightarrow> venue_id option" where
  "venue_from_str s =
     (let u = to_ascii_uppercase s in
      if u = ''BINANCE'' then Some BINANCE
      else if u = ''BITGET'' then Some BITGET
      else if u = ''BYBIT'' then Some BYBIT
      else if u = ''OKX'' then Some OKX
      else if u = ''HYPERLIQUID'' then Some HYPERLIQUID
      else if u = ''ASTERDEX'' then Some ASTERDEX
      else if u = ''LIGHTER'' then Some LIGHTER
      else if u = ''BACKPACK'' then Some BACKPACK
      else if u = ''GRVT'' then Some GRVT
      else if u = ''ONDO_PERPS'' \<or> u = ''ONDO-PERPS'' then Some ONDO_PERPS
      else if u = ''POLYMARKET'' \<or> u = ''POLY_MARKET'' \<or> u = ''POLY-MARKET'' then Some POLYMARKET
      else if u = ''BINANCE_SPOT'' \<or> u = ''BINANCE-SPOT'' then Some BINANCE_SPOT
      else if u = ''BINANCE_TOKENIZED_SECURITIES'' \<or> u = ''BINANCE-TOKENIZED-SECURITIES''
              \<or> u = ''BINANCE_BSTOCKS'' then Some BINANCE_TOKENIZED_SECURITIES
      else if u = ''BINANCE_FUTURES'' \<or> u = ''BINANCE-FUTURES'' then Some BINANCE_FUTURES
      else if u = ''BINANCE_BROKERAGE_EQUITIES'' \<or> u = ''BINANCE-BROKERAGE-EQUITIES''
        then Some BINANCE_BROKERAGE_EQUITIES
      else if u = ''BINANCE_PREDICTION'' \<or> u = ''BINANCE-PREDICTION'' \<or> u = ''W3W_PREDICTION''
        then Some BINANCE_PREDICTION
      else if u = ''PREDICT_FUN'' \<or> u = ''PREDICT-FUN'' then Some PREDICT_FUN
      else if u = ''MOCK'' then Some MOCK
      else None)"

subsection \<open>Products, instruments and symbols\<close>

fun product_as_str :: "product_type \<Rightarrow> string" where
  "product_as_str Spot = ''SPOT''"
| "product_as_str Futures = ''FUTURES''"
| "product_as_str Perp = ''PERP''"
| "product_as_str TokenizedSecuritySpot = ''TOKENIZED_SECURITY_SPOT''"
| "product_as_str BrokerageEquity = ''BROKERAGE_EQUITY''"
| "product_as_str PT_PredictionMarket = ''PREDICTION_MARKET''"

record instrument_key =
  ik_venue :: venue_id
  ik_product_type :: product_type
  ik_symbol :: symbol

fun symbol_str :: "symbol \<Rightarrow> string" where
  "symbol_str (Symbol s) = s"

definition storage_key :: "instrument_key \<Rightarrow> string" where
  "storage_key k =
     venue_as_str (ik_venue k) @ '':'' @ product_as_str (ik_product_type k) @ '':''
     @ symbol_str (ik_symbol k)"

definition legacy_venue_symbol_key :: "instrument_key \<Rightarrow> string" where
  "legacy_venue_symbol_key k = venue_as_str (ik_venue k) @ '':'' @ symbol_str (ik_symbol k)"

record instrument_spec =
  is_symbol :: symbol
  is_venue :: venue_id
  is_asset_class :: asset_class
  is_product_type :: product_type
  is_regulatory_profile :: regulatory_profile
  is_underlying_symbol :: "string option"
  is_issuer :: "string option"
  is_quote_currency :: "string option"

definition instrument_key_from_spec :: "instrument_spec \<Rightarrow> instrument_key" where
  "instrument_key_from_spec s =
     \<lparr>ik_venue = is_venue s, ik_product_type = is_product_type s, ik_symbol = is_symbol s\<rparr>"

definition spec_crypto_spot :: "symbol \<Rightarrow> venue_id \<Rightarrow> instrument_spec" where
  "spec_crypto_spot sm v = \<lparr>
     is_symbol = sm, is_venue = v, is_asset_class = Crypto, is_product_type = Spot,
     is_regulatory_profile = RP_None, is_underlying_symbol = None, is_issuer = None,
     is_quote_currency = None\<rparr>"

definition spec_ondo_perp :: "symbol \<Rightarrow> instrument_spec" where
  "spec_ondo_perp sm = \<lparr>
     is_symbol = sm, is_venue = ONDO_PERPS, is_asset_class = TokenizedSecurity,
     is_product_type = Perp, is_regulatory_profile = RestrictedJurisdiction,
     is_underlying_symbol = None, is_issuer = Some ''Ondo'', is_quote_currency = Some ''USD''\<rparr>"

definition spec_tokenized_security_spot :: "symbol \<Rightarrow> venue_id \<Rightarrow> instrument_spec" where
  "spec_tokenized_security_spot sm v = \<lparr>
     is_symbol = sm, is_venue = v, is_asset_class = TokenizedSecurity,
     is_product_type = TokenizedSecuritySpot, is_regulatory_profile = AdgmTokenizedSecurity,
     is_underlying_symbol = None, is_issuer = None, is_quote_currency = Some ''USDT''\<rparr>"

definition spec_prediction_market_outcome :: "symbol \<Rightarrow> instrument_spec" where
  "spec_prediction_market_outcome tok = \<lparr>
     is_symbol = tok, is_venue = BINANCE_PREDICTION, is_asset_class = AC_PredictionMarket,
     is_product_type = PT_PredictionMarket, is_regulatory_profile = RestrictedJurisdiction,
     is_underlying_symbol = None, is_issuer = Some ''Binance W3W Prediction'',
     is_quote_currency = Some ''USDT''\<rparr>"

definition spec_polymarket_outcome :: "symbol \<Rightarrow> instrument_spec" where
  "spec_polymarket_outcome tok = \<lparr>
     is_symbol = tok, is_venue = POLYMARKET, is_asset_class = AC_PredictionMarket,
     is_product_type = PT_PredictionMarket, is_regulatory_profile = RestrictedJurisdiction,
     is_underlying_symbol = None, is_issuer = Some ''Polymarket'',
     is_quote_currency = Some ''USDC''\<rparr>"

definition spec_predict_fun_outcome :: "symbol \<Rightarrow> instrument_spec" where
  "spec_predict_fun_outcome tok = \<lparr>
     is_symbol = tok, is_venue = PREDICT_FUN, is_asset_class = AC_PredictionMarket,
     is_product_type = PT_PredictionMarket, is_regulatory_profile = RestrictedJurisdiction,
     is_underlying_symbol = None, is_issuer = Some ''Predict.fun'',
     is_quote_currency = Some ''USDT''\<rparr>"

text \<open>The part after the first colon, or the whole string when it has none.\<close>

definition from_venue_symbol :: "string \<Rightarrow> base_symbol" where
  "from_venue_symbol s =
     (case dropWhile (\<lambda>c. c \<noteq> CHR '':'') s of [] \<Rightarrow> BaseSymbol s | _ # r \<Rightarrow> BaseSymbol r)"

fun to_venue_symbol :: "base_symbol \<Rightarrow> venue_id \<Rightarrow> string" where
  "to_venue_symbol (BaseSymbol b) v = venue_as_str v @ '':'' @ b"

subsection \<open>Lemmas\<close>

definition known_venues :: "venue_id list" where
  "known_venues =
     [BINANCE, BITGET, BYBIT, OKX, HYPERLIQUID, ASTERDEX, LIGHTER, BACKPACK, GRVT, ONDO_PERPS,
      POLYMARKET, BINANCE_SPOT, BINANCE_TOKENIZED_SECURITIES, BINANCE_FUTURES,
      BINANCE_BROKERAGE_EQUITIES, BINANCE_PREDICTION, PREDICT_FUN, MOCK]"

lemmas venue_defs =
  BINANCE_def BITGET_def BYBIT_def OKX_def HYPERLIQUID_def ASTERDEX_def LIGHTER_def BACKPACK_def
  GRVT_def ONDO_PERPS_def POLYMARKET_def BINANCE_SPOT_def BINANCE_TOKENIZED_SECURITIES_def
  BINANCE_FUTURES_def BINANCE_BROKERAGE_EQUITIES_def BINANCE_PREDICTION_def PREDICT_FUN_def MOCK_def

lemma venue_strings:
  "map venue_as_str known_venues =
     [''BINANCE'', ''BITGET'', ''BYBIT'', ''OKX'', ''HYPERLIQUID'', ''ASTERDEX'', ''LIGHTER'',
      ''BACKPACK'', ''GRVT'', ''ONDO_PERPS'', ''POLYMARKET'', ''BINANCE_SPOT'',
      ''BINANCE_TOKENIZED_SECURITIES'', ''BINANCE_FUTURES'', ''BINANCE_BROKERAGE_EQUITIES'',
      ''BINANCE_PREDICTION'', ''PREDICT_FUN'', ''MOCK'']"
  by code_simp

lemma venue_roundtrip_list: "map (venue_from_str \<circ> venue_as_str) known_venues = map Some known_venues"
  by code_simp

lemma venue_as_str_unknown: "v \<notin> set known_venues \<Longrightarrow> venue_as_str v = ''UNKNOWN''"
  by (simp add: known_venues_def venue_as_str_def)

lemma venue_str_no_colon: "CHR '':'' \<notin> set (venue_as_str v)"
proof (cases "v \<in> set known_venues")
  case True
  have "list_all (\<lambda>s. CHR '':'' \<notin> set s) (map venue_as_str known_venues)"
    unfolding venue_strings by simp
  with True show ?thesis by (simp add: list_all_iff)
next
  case False
  then show ?thesis by (simp add: venue_as_str_unknown)
qed

lemma product_str_no_colon: "CHR '':'' \<notin> set (product_as_str p)"
  by (cases p) simp_all

lemma product_as_str_inj: "product_as_str p = product_as_str q \<Longrightarrow> p = q"
  by (cases p; cases q) simp_all

lemma split_at_colon:
  assumes "xs @ c # ys = xs' @ c # ys'" and "c \<notin> set xs" and "c \<notin> set xs'"
  shows "xs = xs' \<and> ys = ys'"
  using assms by (induction xs arbitrary: xs') (auto simp: Cons_eq_append_conv)

lemma map_eq_Some_nth: "map f xs = map Some xs \<Longrightarrow> x \<in> set xs \<Longrightarrow> f x = Some x"
  by (induction xs) auto

subsection \<open>Properties\<close>

text \<open>
  The printed name of every declared venue parses back to that venue: \<open>from_str\<close> after
  \<open>as_str\<close> is the identity on the venue constants.
\<close>

theorem venue_roundtrip: "v \<in> set known_venues \<Longrightarrow> venue_from_str (venue_as_str v) = Some v"
  using map_eq_Some_nth [OF venue_roundtrip_list, of v] by simp

theorem venue_roundtrip_witness: "venue_from_str (venue_as_str POLYMARKET) = Some POLYMARKET"
  by (rule venue_roundtrip) (simp add: known_venues_def)

text \<open>
  The storage key identifies the instrument among the declared venues: two keys with the same
  text agree in venue, product and symbol, whatever characters the symbol contains.
\<close>

theorem storage_key_injective:
  assumes "ik_venue k \<in> set known_venues" and "ik_venue k' \<in> set known_venues"
    and "storage_key k = storage_key k'"
  shows "ik_venue k = ik_venue k' \<and> ik_product_type k = ik_product_type k' \<and> ik_symbol k = ik_symbol k'"
proof -
  have eq: "venue_as_str (ik_venue k) @ CHR '':'' # (product_as_str (ik_product_type k) @ CHR '':'' # symbol_str (ik_symbol k))
      = venue_as_str (ik_venue k') @ CHR '':'' # (product_as_str (ik_product_type k') @ CHR '':'' # symbol_str (ik_symbol k'))"
    using assms(3) by (simp add: storage_key_def)
  note v = split_at_colon [OF eq venue_str_no_colon venue_str_no_colon]
  note p = split_at_colon [OF conjunct2 [OF v] product_str_no_colon product_str_no_colon]
  have "Some (ik_venue k) = Some (ik_venue k')"
    using v map_eq_Some_nth [OF venue_roundtrip_list assms(1)]
      map_eq_Some_nth [OF venue_roundtrip_list assms(2)] by simp
  moreover have "ik_symbol k = ik_symbol k'"
    using p by (cases "ik_symbol k"; cases "ik_symbol k'") simp
  ultimately show ?thesis using p product_as_str_inj by simp
qed

theorem storage_key_injective_witness:
  "ik_symbol (instrument_key_from_spec (spec_crypto_spot (Symbol ''A:B'') MOCK)) = Symbol ''A:B''"
proof -
  let ?k = "instrument_key_from_spec (spec_crypto_spot (Symbol ''A:B'') MOCK)"
  let ?k' = "\<lparr>ik_venue = VenueId 99, ik_product_type = Spot, ik_symbol = Symbol ''A:B''\<rparr>"
  have "ik_venue ?k \<in> set known_venues" and "ik_venue ?k' \<in> set known_venues"
    and "storage_key ?k = storage_key ?k'"
    by (simp_all add: known_venues_def instrument_key_from_spec_def spec_crypto_spot_def MOCK_def)
  from storage_key_injective [OF this] show ?thesis by simp
qed

text \<open>
  Prefixing a base symbol with a venue and stripping the prefix again gives the symbol back,
  also when the symbol itself contains colons.
\<close>

theorem base_symbol_roundtrip: "from_venue_symbol (to_venue_symbol b v) = b"
proof (cases b)
  case (BaseSymbol x)
  have "dropWhile (\<lambda>c. c \<noteq> CHR '':'') (venue_as_str v @ CHR '':'' # x) = CHR '':'' # x"
    using venue_str_no_colon [of v] by (subst dropWhile_append2) auto
  then show ?thesis by (simp add: BaseSymbol from_venue_symbol_def)
qed

end
