(* ===== verification/Order_Intents.thy ===== *)
theory Order_Intents
  imports Core_Types
begin

text \<open>
  The order intent and its lifecycle envelope (\<open>market-core/ports/src/events.rs\<close>): what a strategy
  asks for, the limits the runtime signs, the executable quote it is checked against, and the gates
  an envelope passes before risk review and before execution.
\<close>

record order_intent =
  in_symbol :: symbol
  in_asset_class :: asset_class
  in_product_type :: product_type
  in_compliance_context :: compliance_context
  in_side :: side
  in_quantity :: quantity
  in_order_type :: order_type
  in_price :: "price option"
  in_time_in_force :: time_in_force
  in_strategy_id :: string
  in_target_venue :: "venue_id option"

datatype latency_capture_boundary =
    Unspecified | UserspaceWebSocketMessageDelivery | AdapterPublish | SnapshotCompletion

record execution_timing =
  intent_emitted_mono_us :: "u64 option"
  risk_completed_mono_us :: "u64 option"
  source_market_receive_wall_us :: "timestamp option"
  source_market_capture_boundary :: latency_capture_boundary

record order_intent_lifecycle =
  created_ts :: timestamp
  valid_until :: timestamp
  source_book_seq :: "u64 option"
  source_feature_ts :: "timestamp option"
  max_latency_us :: "u64 option"
  max_slippage_bps :: "i32 option"
  max_order_notional :: "decimal option"
  max_order_quantity :: "decimal option"
  lc_reduce_only :: bool
  lc_timing :: execution_timing
  arrival_price :: "price option"

definition default_timing :: execution_timing where
  "default_timing = \<lparr>intent_emitted_mono_us = None, risk_completed_mono_us = None,
     source_market_receive_wall_us = None, source_market_capture_boundary = Unspecified\<rparr>"

definition default_lifecycle :: order_intent_lifecycle where
  "default_lifecycle = \<lparr>
     created_ts = 0, valid_until = - 1, source_book_seq = None, source_feature_ts = None,
     max_latency_us = None, max_slippage_bps = None, max_order_notional = None,
     max_order_quantity = None, lc_reduce_only = False, lc_timing = default_timing,
     arrival_price = None\<rparr>"

definition lifecycle_new :: "timestamp \<Rightarrow> timestamp \<Rightarrow> order_intent_lifecycle" where
  "lifecycle_new created until = default_lifecycle\<lparr>created_ts := created, valid_until := until\<rparr>"

record execution_price_reference =
  ref_venue :: venue_id
  ref_symbol :: symbol
  ref_side :: side
  ref_price :: price
  ref_book_sequence :: u64
  ref_received_at :: timestamp

datatype execution_price_protection = CanonicalBook | VenueQuote

record order_intent_envelope =
  env_intent :: order_intent
  env_lifecycle :: order_intent_lifecycle
  env_client_order_id :: string
  env_account_id :: "account_id option"
  env_price_reference :: "execution_price_reference option"
  env_source_book_identity :: "venue_symbol option"

datatype reject_reason =
    InvalidMaxSlippage i32
  | MissingMaxSlippage
  | MissingSlippageReference
  | SourceBookUnavailable
  | SlippageReferenceMismatch
  | MissingSlippageReferenceLifetime
  | SlippageReferenceExpired timestamp timestamp u64
  | SlippageUnprotectedOrder
  | MaxSlippageExceeded i32 price price
  | Expired timestamp timestamp
  | SourceBookStale u64 u64
  | MaxLatencyExceeded timestamp timestamp u64 u64
  | InvalidMaxOrderNotional decimal
  | MissingMaxOrderNotional
  | OrderNotionalUnpriceable decimal
  | MaxOrderNotionalExceeded decimal decimal
  | InvalidMaxOrderQuantity decimal
  | MissingMaxOrderQuantity
  | MaxOrderQuantityExceeded decimal decimal

subsection \<open>Constructors of intents\<close>

definition intent_crypto_spot ::
  "symbol \<Rightarrow> side \<Rightarrow> quantity \<Rightarrow> order_type \<Rightarrow> price option \<Rightarrow> time_in_force \<Rightarrow> string
   \<Rightarrow> venue_id option \<Rightarrow> order_intent" where
  "intent_crypto_spot sm sd q ot p tif sid v = \<lparr>
     in_symbol = sm, in_asset_class = Crypto, in_product_type = Spot,
     in_compliance_context = default_compliance_context, in_side = sd, in_quantity = q,
     in_order_type = ot, in_price = p, in_time_in_force = tif, in_strategy_id = sid,
     in_target_venue = v\<rparr>"

definition intent_tokenized_security_spot :: "order_intent \<Rightarrow> compliance_context \<Rightarrow> order_intent" where
  "intent_tokenized_security_spot i cc =
     i\<lparr>in_asset_class := TokenizedSecurity, in_product_type := TokenizedSecuritySpot,
       in_compliance_context := cc\<rparr>"

definition intent_prediction_market ::
  "symbol \<Rightarrow> side \<Rightarrow> quantity \<Rightarrow> order_type \<Rightarrow> price option \<Rightarrow> time_in_force \<Rightarrow> string
   \<Rightarrow> venue_id \<Rightarrow> order_intent" where
  "intent_prediction_market sm sd q ot p tif sid v = \<lparr>
     in_symbol = sm, in_asset_class = AC_PredictionMarket, in_product_type = PT_PredictionMarket,
     in_compliance_context = default_compliance_context, in_side = sd, in_quantity = q,
     in_order_type = ot, in_price = p, in_time_in_force = tif, in_strategy_id = sid,
     in_target_venue = Some v\<rparr>"

subsection \<open>Lifecycle gate\<close>

definition is_expired_at :: "order_intent_lifecycle \<Rightarrow> timestamp \<Rightarrow> bool" where
  "is_expired_at l now \<longleftrightarrow> valid_until l \<le> now"

definition is_stale_for_book_seq :: "order_intent_lifecycle \<Rightarrow> u64 \<Rightarrow> bool" where
  "is_stale_for_book_seq l latest = is_some_and (\<lambda>s. latest \<noteq> s) (source_book_seq l)"

definition latency_us_at :: "order_intent_lifecycle \<Rightarrow> timestamp \<Rightarrow> u64" where
  "latency_us_at l now = saturating_sub now (created_ts l)"

definition lifecycle_validate ::
  "order_intent_lifecycle \<Rightarrow> timestamp \<Rightarrow> u64 option \<Rightarrow> reject_reason + unit" where
  "lifecycle_validate l now latest =
     (if is_expired_at l now then Err (Expired now (valid_until l))
      else case (source_book_seq l, latest) of
        (Some s, Some b) \<Rightarrow>
          if b \<noteq> s then Err (SourceBookStale s b)
          else (case max_latency_us l of
                  None \<Rightarrow> Ok ()
                | Some m \<Rightarrow>
                    if m < latency_us_at l now
                    then Err (MaxLatencyExceeded now (created_ts l) (latency_us_at l now) m)
                    else Ok ())
      | _ \<Rightarrow>
          (case max_latency_us l of
             None \<Rightarrow> Ok ()
           | Some m \<Rightarrow>
               if m < latency_us_at l now
               then Err (MaxLatencyExceeded now (created_ts l) (latency_us_at l now) m)
               else Ok ()))"

subsection \<open>Order limits and slippage\<close>

definition validate_order_limits :: "dec_ops \<Rightarrow> order_intent_envelope \<Rightarrow> reject_reason + unit" where
  "validate_order_limits D e =
     (let l = env_lifecycle e; i = env_intent e;
          notional =
            (case max_order_notional l of
               None \<Rightarrow> Ok ()
             | Some mn \<Rightarrow>
                 if mn \<le> 0 then Err (InvalidMaxOrderNotional mn)
                 else (case in_price i of
                         None \<Rightarrow> Err (OrderNotionalUnpriceable mn)
                       | Some p \<Rightarrow>
                           (case d_mul D (in_quantity i) p of
                              None \<Rightarrow> Err (OrderNotionalUnpriceable mn)
                            | Some n \<Rightarrow>
                                if mn < n then Err (MaxOrderNotionalExceeded n mn) else Ok ())))
      in case max_order_quantity l of
           None \<Rightarrow> notional
         | Some mq \<Rightarrow>
             if mq \<le> 0 then Err (InvalidMaxOrderQuantity mq)
             else if mq < in_quantity i then Err (MaxOrderQuantityExceeded (in_quantity i) mq)
             else notional)"

definition reference_lifetime :: "order_intent_lifecycle \<Rightarrow> u64 option" where
  "reference_lifetime l =
     (case max_latency_us l of
        Some m \<Rightarrow> Some m
      | None \<Rightarrow> if valid_until l \<noteq> - 1 then checked_sub (valid_until l) (created_ts l) else None)"

definition validate_slippage_reference ::
  "dec_ops \<Rightarrow> order_intent_envelope \<Rightarrow> timestamp \<Rightarrow> execution_price_reference option
   \<Rightarrow> reject_reason + unit" where
  "validate_slippage_reference D e now reference =
     (let l = env_lifecycle e; i = env_intent e in
      case max_slippage_bps l of
        None \<Rightarrow> Ok ()
      | Some bps \<Rightarrow>
          if \<not> (1 \<le> sint bps \<and> sint bps \<le> 10000) then Err (InvalidMaxSlippage bps)
          else and_then (ok_or MissingSlippageReference reference) (\<lambda>r.
            if in_target_venue i \<noteq> Some (ref_venue r) \<or> in_symbol i \<noteq> ref_symbol r
               \<or> in_side i \<noteq> ref_side r \<or> ref_price r \<le> 0
            then Err SlippageReferenceMismatch
            else and_then
              (ok_or MissingSlippageReferenceLifetime
                 (case reference_lifetime l of
                    None \<Rightarrow> None | Some age \<Rightarrow> if 0 < age then Some age else None)) (\<lambda>max_age.
              if ref_received_at r = 0
                 \<or> is_none_or (\<lambda>age. max_age < age) (checked_sub now (ref_received_at r))
              then Err (SlippageReferenceExpired now (ref_received_at r) max_age)
              else and_then
                (ok_or SlippageUnprotectedOrder
                   (case in_price i of
                      None \<Rightarrow> None
                    | Some p \<Rightarrow> if in_order_type i = Limit \<and> 0 < p then Some p else None)) (\<lambda>lp.
                and_then
                  (ok_or SlippageUnprotectedOrder
                     (Option.bind
                        (case in_side i of
                           Buy \<Rightarrow> d_sub D lp (ref_price r)
                         | Sell \<Rightarrow> d_sub D (ref_price r) lp)
                        (\<lambda>diff. d_mul D diff 10000))) (\<lambda>adverse.
                  and_then
                    (ok_or SlippageUnprotectedOrder
                       (d_mul D (ref_price r) (of_int (sint bps)))) (\<lambda>allowed.
                    if allowed < adverse then Err (MaxSlippageExceeded bps (ref_price r) lp)
                    else Ok ()))))))"

definition validate_pre_risk ::
  "dec_ops \<Rightarrow> order_intent_envelope \<Rightarrow> timestamp \<Rightarrow> u64 option \<Rightarrow> reject_reason + unit" where
  "validate_pre_risk D e now latest =
     and_then (lifecycle_validate (env_lifecycle e) now latest) (\<lambda>_. validate_order_limits D e)"

definition validate_pre_execution ::
  "dec_ops \<Rightarrow> order_intent_envelope \<Rightarrow> timestamp \<Rightarrow> u64 option \<Rightarrow> reject_reason + unit" where
  "validate_pre_execution D e now latest =
     and_then (lifecycle_validate (env_lifecycle e) now latest) (\<lambda>_. validate_order_limits D e)"

definition validate_cex_pre_execution ::
  "dec_ops \<Rightarrow> order_intent_envelope \<Rightarrow> timestamp \<Rightarrow> u64 option \<Rightarrow> reject_reason + unit" where
  "validate_cex_pre_execution D e now latest =
     and_then (validate_pre_execution D e now latest) (\<lambda>_.
       if max_slippage_bps (env_lifecycle e) = None then Err MissingMaxSlippage
       else if max_order_notional (env_lifecycle e) = None then Err MissingMaxOrderNotional
       else if max_order_quantity (env_lifecycle e) = None then Err MissingMaxOrderQuantity
       else validate_slippage_reference D e now (env_price_reference e))"

definition validate_canonical_book_pre_execution ::
  "dec_ops \<Rightarrow> order_intent_envelope \<Rightarrow> timestamp \<Rightarrow> u64 option \<Rightarrow> reject_reason + unit" where
  "validate_canonical_book_pre_execution D e now latest =
     (if in_target_venue (env_intent e) \<in> {Some POLYMARKET, Some BINANCE_PREDICTION, Some PREDICT_FUN}
      then and_then (validate_pre_execution D e now latest)
             (\<lambda>_. validate_slippage_reference D e now (env_price_reference e))
      else validate_cex_pre_execution D e now latest)"

subsection \<open>Lemmas\<close>

lemma lifecycle_validate_Ok:
  "lifecycle_validate l now latest = Ok () \<longleftrightarrow>
     now < valid_until l \<and>
     (\<forall>s b. source_book_seq l = Some s \<longrightarrow> latest = Some b \<longrightarrow> s = b) \<and>
     (\<forall>m. max_latency_us l = Some m \<longrightarrow> latency_us_at l now \<le> m)"
  by (auto simp: lifecycle_validate_def is_expired_at_def not_le not_less split: option.splits)

lemma validate_order_limits_Ok:
  "validate_order_limits D e = Ok () \<longleftrightarrow>
     (\<forall>mq. max_order_quantity (env_lifecycle e) = Some mq \<longrightarrow> 0 < mq \<and> in_quantity (env_intent e) \<le> mq) \<and>
     (\<forall>mn. max_order_notional (env_lifecycle e) = Some mn \<longrightarrow>
        0 < mn \<and> (\<exists>p n. in_price (env_intent e) = Some p \<and>
                        d_mul D (in_quantity (env_intent e)) p = Some n \<and> n \<le> mn))"
  by (auto simp: validate_order_limits_def Let_def not_le not_less split: option.splits)

lemma validate_slippage_Ok:
  assumes "validate_slippage_reference D e now reference = Ok ()"
    and "max_slippage_bps (env_lifecycle e) = Some bps"
  obtains r lp age diff adverse allowed where
    "1 \<le> sint bps" "sint bps \<le> 10000" "reference = Some r"
    "in_target_venue (env_intent e) = Some (ref_venue r)" "in_symbol (env_intent e) = ref_symbol r"
    "in_side (env_intent e) = ref_side r" "0 < ref_price r"
    "in_order_type (env_intent e) = Limit" "in_price (env_intent e) = Some lp" "0 < lp"
    "reference_lifetime (env_lifecycle e) = Some age" "ref_received_at r \<le> now"
    "now - ref_received_at r \<le> age"
    "(case in_side (env_intent e) of Buy \<Rightarrow> d_sub D lp (ref_price r)
      | Sell \<Rightarrow> d_sub D (ref_price r) lp) = Some diff"
    "d_mul D diff 10000 = Some adverse" "d_mul D (ref_price r) (of_int (sint bps)) = Some allowed"
    "adverse \<le> allowed"
  using assms
  by (auto simp: validate_slippage_reference_def Let_def and_then_Ok_iff checked_sub_def not_le
        not_less bind_eq_Some_conv is_none_or_def
      split: if_splits option.splits side.splits)

lemma slippage_bound:
  assumes "dec_exact D"
    and "(case sd of Buy \<Rightarrow> d_sub D lp p | Sell \<Rightarrow> d_sub D p lp) = Some diff"
    and "d_mul D diff 10000 = Some adverse" and "d_mul D p (of_int b) = Some allowed"
    and "adverse \<le> allowed"
  shows "case sd of Buy \<Rightarrow> lp \<le> p * (1 + of_int b / 10000) | Sell \<Rightarrow> p * (1 - of_int b / 10000) \<le> lp"
proof -
  have "diff * 10000 \<le> p * of_int b"
    using assms(3,4,5) dec_exactD(3) [OF assms(1)] by metis
  moreover have "diff = (case sd of Buy \<Rightarrow> lp - p | Sell \<Rightarrow> p - lp)"
    using assms(2) dec_exactD(2) [OF assms(1)] by (cases sd) auto
  ultimately show ?thesis by (cases sd) (auto simp: field_simps)
qed

subsection \<open>Properties\<close>

text \<open>
  An envelope that passes the exchange execution gate is inside every signed limit at that
  moment: it has not expired, its source book is the latest one, it has not waited longer than
  allowed, quantity and notional are within their ceilings, it is a limit order with a positive
  price, and that price is worse than the fresh quote for the same venue, symbol and side by at most
  the allowed number of basis points.
\<close>

theorem cex_gate_sound:
  assumes "dec_exact D" and ok: "validate_cex_pre_execution D e now latest = Ok ()"
  shows "now < valid_until (env_lifecycle e) \<and>
    (\<forall>m. max_latency_us (env_lifecycle e) = Some m \<longrightarrow> latency_us_at (env_lifecycle e) now \<le> m) \<and>
    (\<forall>s b. source_book_seq (env_lifecycle e) = Some s \<longrightarrow> latest = Some b \<longrightarrow> s = b) \<and>
    (\<exists>mq mn bps lp r.
       max_order_quantity (env_lifecycle e) = Some mq \<and> in_quantity (env_intent e) \<le> mq \<and>
       in_order_type (env_intent e) = Limit \<and> in_price (env_intent e) = Some lp \<and> 0 < lp \<and>
       max_order_notional (env_lifecycle e) = Some mn \<and> in_quantity (env_intent e) * lp \<le> mn \<and>
       max_slippage_bps (env_lifecycle e) = Some bps \<and> env_price_reference e = Some r \<and>
       in_target_venue (env_intent e) = Some (ref_venue r) \<and>
       in_symbol (env_intent e) = ref_symbol r \<and> in_side (env_intent e) = ref_side r \<and>
       ref_received_at r \<le> now \<and>
       (case in_side (env_intent e) of
          Buy \<Rightarrow> lp \<le> ref_price r * (1 + of_int (sint bps) / 10000)
        | Sell \<Rightarrow> ref_price r * (1 - of_int (sint bps) / 10000) \<le> lp))"
proof -
  from ok have life: "lifecycle_validate (env_lifecycle e) now latest = Ok ()"
    and lims: "validate_order_limits D e = Ok ()"
    and slip: "validate_slippage_reference D e now (env_price_reference e) = Ok ()"
    by (auto simp: validate_cex_pre_execution_def validate_pre_execution_def and_then_Ok_iff
        split: if_splits)
  from ok obtain mq mn bps where mq: "max_order_quantity (env_lifecycle e) = Some mq"
    and mn: "max_order_notional (env_lifecycle e) = Some mn"
    and bps: "max_slippage_bps (env_lifecycle e) = Some bps"
    by (auto simp: validate_cex_pre_execution_def and_then_Ok_iff split: if_splits)
  obtain r lp diff adverse allowed where r: "env_price_reference e = Some r"
    "in_target_venue (env_intent e) = Some (ref_venue r)" "in_symbol (env_intent e) = ref_symbol r"
    "in_side (env_intent e) = ref_side r" "in_order_type (env_intent e) = Limit"
    "in_price (env_intent e) = Some lp" "0 < lp" "ref_received_at r \<le> now"
    and arith: "(case in_side (env_intent e) of Buy \<Rightarrow> d_sub D lp (ref_price r)
      | Sell \<Rightarrow> d_sub D (ref_price r) lp) = Some diff" "d_mul D diff 10000 = Some adverse"
      "d_mul D (ref_price r) (of_int (sint bps)) = Some allowed" "adverse \<le> allowed"
    by (rule validate_slippage_Ok [OF slip bps]) blast
  note slippage_bound [OF assms(1) arith]
  moreover have "in_quantity (env_intent e) * lp \<le> mn" and "in_quantity (env_intent e) \<le> mq"
    using lims mq mn r dec_exactD(3) [OF assms(1)] by (auto simp: validate_order_limits_Ok)
  ultimately show ?thesis using life r mq mn bps by (auto simp: lifecycle_validate_Ok)
qed

definition sample_envelope :: order_intent_envelope where
  "sample_envelope = \<lparr>
     env_intent = intent_crypto_spot (Symbol ''BTCUSDT'') Buy 2 Limit (Some 101) GTC ''s1'' (Some BINANCE),
     env_lifecycle = (lifecycle_new 100 2000)\<lparr>max_latency_us := Some 500,
       max_slippage_bps := Some 200, max_order_notional := Some 1000, max_order_quantity := Some 5\<rparr>,
     env_client_order_id = ''c1'', env_account_id = Some (AccountId ''a''),
     env_price_reference = Some \<lparr>ref_venue = BINANCE, ref_symbol = Symbol ''BTCUSDT'', ref_side = Buy,
       ref_price = 100, ref_book_sequence = 7, ref_received_at = 150\<rparr>,
     env_source_book_identity = None\<rparr>"

lemma sample_envelope_passes:
  "validate_cex_pre_execution exact_dec sample_envelope 300 None = Ok ()"
  by (simp add: sample_envelope_def validate_cex_pre_execution_def validate_pre_execution_def
      lifecycle_validate_def is_expired_at_def validate_order_limits_def validate_slippage_reference_def
      reference_lifetime_def intent_crypto_spot_def lifecycle_new_def default_lifecycle_def
      latency_us_at_def saturating_sub_def checked_sub_def)

theorem cex_gate_sound_witness: "(300 :: timestamp) < valid_until (env_lifecycle sample_envelope)"
  using cex_gate_sound [OF dec_exact_exact_dec sample_envelope_passes] by (rule conjunct1)

subsection \<open>Envelopes and their client order ids\<close>

text \<open>
  The client order id of a new envelope is the letter h, the creation time and the value of a process-wide
  counter, both in lower-case hexadecimal and without a separator. The counter is an argument of the model:
  \<open>CLIENT_ORDER_SEQUENCE.fetch_add(1)\<close> returns its value and leaves it one higher.
\<close>

definition hex_digit :: "nat \<Rightarrow> char" where
  "hex_digit n = ''0123456789abcdef'' ! n"

fun lower_hex :: "nat \<Rightarrow> string" where
  "lower_hex n = (if n < 16 then [hex_digit n] else lower_hex (n div 16) @ [hex_digit (n mod 16)])"

declare lower_hex.simps [simp del]

definition client_order_id :: "timestamp \<Rightarrow> u64 \<Rightarrow> string" where
  "client_order_id created sequence = ''h'' @ lower_hex (unat created) @ lower_hex (unat sequence)"

definition envelope_new :: "order_intent \<Rightarrow> order_intent_lifecycle \<Rightarrow> u64 \<Rightarrow> order_intent_envelope \<times> u64" where
  "envelope_new i l sequence =
     (\<lparr>env_intent = i, env_lifecycle = l, env_client_order_id = client_order_id (created_ts l) sequence,
       env_account_id = None, env_price_reference = None, env_source_book_identity = None\<rparr>, sequence + 1)"

definition with_account_id :: "order_intent_envelope \<Rightarrow> account_id \<Rightarrow> order_intent_envelope" where
  "with_account_id e acc = e\<lparr>env_account_id := Some acc\<rparr>"

lemma hex_digit_inj:
  assumes "m < 16" and "n < 16" and "hex_digit m = hex_digit n"
  shows "m = n"
proof -
  have "distinct ''0123456789abcdef''" by code_simp
  moreover have "length ''0123456789abcdef'' = 16" by simp
  ultimately show ?thesis using assms unfolding hex_digit_def by (simp only: nth_eq_iff_index_eq)
qed

lemma lower_hex_inj: "lower_hex m = lower_hex n \<Longrightarrow> m = n"
proof (induction m arbitrary: n rule: lower_hex.induct)
  case (1 m)
  have ne: "lower_hex k \<noteq> []" for k by (simp add: lower_hex.simps [of k])
  show ?case
  proof (cases "m < 16")
    case True
    with 1(2) ne [of "n div 16"] have "n < 16"
      by (auto simp: lower_hex.simps [of m] lower_hex.simps [of n] split: if_splits)
    with True 1(2) show ?thesis
      using hex_digit_inj by (simp add: lower_hex.simps [of m] lower_hex.simps [of n])
  next
    case False
    with 1(2) ne have n: "\<not> n < 16" by (auto simp: lower_hex.simps [of m] lower_hex.simps [of n] split: if_splits)
    with False 1(2) have "lower_hex (m div 16) = lower_hex (n div 16)" "hex_digit (m mod 16) = hex_digit (n mod 16)"
      by (simp_all add: lower_hex.simps [of m] lower_hex.simps [of n])
    with 1(1) [OF False] have "m div 16 = n div 16" "m mod 16 = n mod 16"
      using hex_digit_inj [of "m mod 16" "n mod 16"] by simp_all
    then show ?thesis by (metis div_mult_mod_eq)
  qed
qed

lemma length_lower_hex: "16 ^ k \<le> n \<Longrightarrow> n < 16 ^ Suc k \<Longrightarrow> length (lower_hex n) = Suc k"
proof (induction k arbitrary: n)
  case 0
  then show ?case by (simp add: lower_hex.simps [of n])
next
  case (Suc k)
  have "16 * 1 \<le> 16 * (16 :: nat) ^ k" by (intro mult_le_mono2 one_le_power) simp
  then have "16 \<le> n" using Suc.prems(1) unfolding power_Suc by linarith
  moreover have "length (lower_hex (n div 16)) = Suc k"
    using Suc.prems by (intro Suc.IH) (simp_all add: less_eq_div_iff_mult_less_eq div_less_iff_less_mult mult.commute)
  ultimately show ?case by (simp add: lower_hex.simps [of n])
qed

lemma client_order_id_inj:
  assumes "2 ^ 48 \<le> unat a" "unat a < 2 ^ 52" "2 ^ 48 \<le> unat b" "unat b < 2 ^ 52"
    and "client_order_id a m = client_order_id b n"
  shows "a = b \<and> m = n"
proof -
  have "length (lower_hex (unat a)) = 13" "length (lower_hex (unat b)) = 13"
    using length_lower_hex [of 12 "unat a"] length_lower_hex [of 12 "unat b"] assms(1-4) by simp_all
  with assms(5) have "lower_hex (unat a) = lower_hex (unat b)" "lower_hex (unat m) = lower_hex (unat n)"
    by (auto simp: client_order_id_def)
  then show ?thesis by (auto dest!: lower_hex_inj simp: word_unat_eq_iff)
qed

text \<open>
  Client order ids are unique: two envelopes made at times that are thirteen hexadecimal digits of
  microseconds, which covers every clock reading from 1979 to 2112, have the same id only if they were made
  at the same time with the same value of the counter.
\<close>

theorem client_order_ids_unique:
  assumes "2 ^ 48 \<le> unat (created_ts l)" and "unat (created_ts l) < 2 ^ 52"
    and "2 ^ 48 \<le> unat (created_ts l')" and "unat (created_ts l') < 2 ^ 52"
    and "env_client_order_id (fst (envelope_new i l m)) = env_client_order_id (fst (envelope_new i' l' n))"
  shows "created_ts l = created_ts l' \<and> m = n"
  using client_order_id_inj [OF assms(1-4)] assms(5) by (simp add: envelope_new_def)

text \<open>Two orders of one microsecond get two ids.\<close>

theorem client_order_ids_unique_witness:
  "env_client_order_id (fst (envelope_new (intent_crypto_spot (Symbol ''BTCUSDT'') Buy 1 Market None GTC ''s'' None)
     (lifecycle_new 1700000000000000 (- 1)) 1)) \<noteq>
   env_client_order_id (fst (envelope_new (intent_crypto_spot (Symbol ''BTCUSDT'') Buy 1 Market None GTC ''s'' None)
     (lifecycle_new 1700000000000000 (- 1)) 2))"
  using client_order_ids_unique
    [of "lifecycle_new 1700000000000000 (- 1)" "lifecycle_new 1700000000000000 (- 1)" _ 1 _ 2]
  by (auto simp: lifecycle_new_def)

end
