(* ===== verification/Ports.thy ===== *)
theory Ports
  imports Order_Intents
begin

text \<open>
  The contracts between the engine, the order manager, the portfolio and the risk layer
  (\<open>market-core/ports/src/events.rs\<close> and \<open>traits.rs\<close>): order status, execution events, order
  records and risk views, account view, positions and asset inventory.

  A hash map is a partial function; the order in which code iterates over one is an explicit list of
  its keys. A message built with \<open>format!\<close> from a text and an identifier is kept as that pair; the prefixes under
  which errors are displayed are given in English.
\<close>

subsection \<open>Messages and errors\<close>

datatype message =
    Msg string
  | MsgOrder string order_id
  | MsgAsset string string
  | MsgCause string message

datatype hft_error =
    Network message | Parse message | Serialization message | Exchange message | Execution message
  | SubmissionNotAttempted message | Config message | Risk message | Authentication message
  | RateLimit message | InsufficientBalance message | OrderNotFound message | InvalidOrder message
  | Timeout message | Io message | Generic message

fun error_message :: "hft_error \<Rightarrow> message" where
  "error_message (Network m) = MsgCause ''network'' m"
| "error_message (Parse m) = MsgCause ''parse'' m"
| "error_message (Serialization m) = MsgCause ''serialization'' m"
| "error_message (Exchange m) = MsgCause ''exchange'' m"
| "error_message (Execution m) = MsgCause ''execution'' m"
| "error_message (SubmissionNotAttempted m) = MsgCause ''submission not attempted'' m"
| "error_message (Config m) = MsgCause ''config'' m"
| "error_message (Risk m) = MsgCause ''risk'' m"
| "error_message (Authentication m) = MsgCause ''authentication'' m"
| "error_message (RateLimit m) = MsgCause ''rate limit'' m"
| "error_message (InsufficientBalance m) = MsgCause ''insufficient balance'' m"
| "error_message (OrderNotFound m) = MsgCause ''order not found'' m"
| "error_message (InvalidOrder m) = MsgCause ''invalid order'' m"
| "error_message (Timeout m) = MsgCause ''timeout'' m"
| "error_message (Io m) = MsgCause ''io'' m"
| "error_message (Generic m) = m"

subsection \<open>Orders\<close>

datatype ports_order_status =
    P_Unknown | P_New | P_Acknowledged | P_Accepted | P_PartiallyFilled | P_Filled | P_Canceled
  | P_Rejected | P_Expired | P_Replaced

record open_order =
  oo_order_id :: order_id
  oo_client_order_id :: "string option"
  oo_symbol :: symbol
  oo_side :: side
  oo_order_type :: order_type
  oo_original_quantity :: quantity
  oo_remaining_quantity :: quantity
  oo_filled_quantity :: quantity
  oo_price :: "price option"
  oo_status :: ports_order_status
  oo_created_at :: timestamp
  oo_updated_at :: timestamp

text \<open>
  The order record of the order manager and the one of the ports crate differ only in the type of
  their status field, which is the parameter.
\<close>

record 's order_record =
  o_order_id :: order_id
  o_client_order_id :: "string option"
  o_account_id :: "account_id option"
  o_symbol :: symbol
  o_side :: side
  o_qty :: quantity
  o_limit_price :: "price option"
  o_cum_qty :: quantity
  o_avg_price :: "price option"
  o_status :: 's
  o_venue :: "venue_id option"
  o_strategy_id :: "string option"
  o_revision :: u32
  o_venue_order_id :: "string option"
  o_venue_order_history :: "string list"
  o_rejection_reason :: "string option"
  o_last_error :: "string option"
  o_state_changed_at :: "timestamp option"
  o_processed_fill_ids :: "string set"

type_synonym ports_order_record = "ports_order_status order_record"

record order_risk_view =
  rv_revision :: u32
  rv_order_id :: order_id
  rv_strategy_id :: "string option"
  rv_client_order_id :: "string option"
  rv_account_id :: "account_id option"
  rv_venue :: "venue_id option"
  rv_symbol :: symbol
  rv_side :: side
  rv_qty :: quantity
  rv_cum_qty :: quantity
  rv_limit_price :: "price option"
  rv_status :: ports_order_status

definition order_risk_view_of :: "ports_order_record \<Rightarrow> order_risk_view" where
  "order_risk_view_of r = \<lparr>
     rv_revision = o_revision r, rv_order_id = o_order_id r, rv_strategy_id = o_strategy_id r,
     rv_client_order_id = o_client_order_id r, rv_account_id = o_account_id r,
     rv_venue = o_venue r, rv_symbol = o_symbol r, rv_side = o_side r, rv_qty = o_qty r,
     rv_cum_qty = o_cum_qty r, rv_limit_price = o_limit_price r, rv_status = o_status r\<rparr>"

record 's order_update =
  u_order_id :: order_id
  u_status :: 's
  u_cum_qty :: quantity
  u_avg_price :: "price option"
  u_previous_status :: 's

record register_order_params =
  rp_order_id :: order_id
  rp_client_order_id :: "string option"
  rp_account_id :: "account_id option"
  rp_symbol :: symbol
  rp_side :: side
  rp_qty :: quantity
  rp_venue :: "venue_id option"
  rp_strategy_id :: "string option"

subsection \<open>Execution events\<close>

datatype private_order_event_kind = Ack | Report

datatype execution_event =
    OrderNew order_id "string option" "account_id option" symbol side quantity "price option"
      "price option" timestamp "venue_id option" string
  | OrderAck order_id timestamp
  | Fill order_id price quantity timestamp string
  | FeeCharged order_id decimal timestamp string
  | OrderReject order_id string timestamp
  | OrderCompleted order_id price quantity timestamp
  | OrderCanceled order_id timestamp
  | OrderModified order_id "quantity option" "price option" timestamp
  | BalanceUpdate string quantity timestamp
  | PrivateOrderTiming order_id private_order_event_kind u64
  | OrderLifecycleTiming order_id timestamp "u64 option" "u64 option" "u64 option"
  | ConnectionStatus bool timestamp
  | ExecutionStreamBarrier u64 timestamp
  | ExecutionStreamSynchronized u64 bool timestamp
  | ReconciliationRequired string timestamp

record reconciliation_exception =
  x_order_id :: "order_id option"
  x_reason :: message
  x_event :: "execution_event option"

subsection \<open>Reconciliation reports\<close>

record local_only_order =
  lo_order_id :: order_id
  lo_symbol :: symbol
  lo_status :: ports_order_status

record quantity_mismatch =
  qm_order_id :: order_id
  qm_symbol :: symbol
  qm_exchange_filled :: quantity
  qm_local_filled :: quantity

record reconciliation_report =
  exchange_only :: "order_id list"
  local_only :: "local_only_order list"
  qty_mismatch :: "quantity_mismatch list"

definition has_discrepancies :: "reconciliation_report \<Rightarrow> bool" where
  "has_discrepancies r \<longleftrightarrow> exchange_only r \<noteq> [] \<or> local_only r \<noteq> [] \<or> qty_mismatch r \<noteq> []"

definition total_discrepancies :: "reconciliation_report \<Rightarrow> nat" where
  "total_discrepancies r = length (exchange_only r) + length (local_only r) + length (qty_mismatch r)"

subsection \<open>Accounts\<close>

record position =
  pos_symbol :: symbol
  pos_quantity :: quantity
  pos_avg_price :: price
  pos_unrealized_pnl :: decimal
  pos_realized_pnl :: decimal

record asset_inventory_record =
  inv_asset :: string
  inv_available :: decimal
  inv_locked :: decimal
  inv_total :: decimal
  inv_usd_value :: "decimal option"

record account_balance =
  bal_asset :: string
  bal_available :: decimal
  bal_frozen :: decimal
  bal_total :: decimal
  bal_usd_value :: "decimal option"

text \<open>The addition \<open>available + locked\<close> panics on overflow: the outer option.\<close>

definition inventory_validate :: "dec_ops \<Rightarrow> asset_inventory_record \<Rightarrow> (hft_error + unit) option" where
  "inventory_validate D r =
     (if blank (inv_asset r) then Some (Err (Parse (Msg ''asset inventory has an empty asset'')))
      else if inv_available r < 0 \<or> inv_locked r < 0 \<or> inv_total r < 0
        then Some (Err (Parse (MsgAsset ''asset inventory contains a negative amount'' (inv_asset r))))
      else do {
        total \<leftarrow> d_add D (inv_available r) (inv_locked r);
        Some (if total \<noteq> inv_total r
          then Err (Parse (MsgAsset ''asset inventory does not balance available + locked = total''
                             (inv_asset r)))
          else if inv_total r \<noteq> 0 \<and> is_none_or (\<lambda>v. v < 0) (inv_usd_value r)
          then Err (Parse (MsgAsset ''asset inventory is missing a non-negative valuation''
                             (inv_asset r)))
          else Ok ())
      })"

definition inventory_try_from :: "dec_ops \<Rightarrow> account_balance \<Rightarrow> (hft_error + asset_inventory_record) option" where
  "inventory_try_from D b =
     (let r = \<lparr>inv_asset = bal_asset b, inv_available = bal_available b, inv_locked = bal_frozen b,
               inv_total = bal_total b, inv_usd_value = bal_usd_value b\<rparr>
      in do { v \<leftarrow> inventory_validate D r; Some (and_then v (\<lambda>_. Ok r)) })"

record tokenized_securities_attestation =
  at_account_id :: account_id
  at_venue :: venue_id
  at_product_type :: product_type
  at_symbol :: symbol
  at_source_id :: string
  at_observed_at :: timestamp
  at_jurisdiction :: "string option"
  at_account_eligible :: bool
  at_account_capability :: account_capability
  at_account_symbol_notional :: decimal
  at_account_asset_class_notional :: decimal
  at_corporate_action_active :: bool
  at_top_depth_usd :: decimal
  at_spread_bps :: decimal

text \<open>The two percentages are finite doubles, so each denotes a rational number.\<close>

type_synonym f64 = rat

record account_view =
  av_account_id :: "account_id option"
  av_tokenized_securities_attestations :: "instrument_key \<rightharpoonup> tokenized_securities_attestation"
  av_asset_inventory :: "string \<rightharpoonup> asset_inventory_record"
  av_cash_balance :: decimal
  av_positions :: "symbol \<rightharpoonup> position"
  av_unrealized_pnl :: decimal
  av_realized_pnl :: decimal
  av_high_water_mark :: decimal
  av_drawdown_pct :: f64
  av_max_drawdown_pct :: f64
  av_session_start_us :: u64

definition default_account_view :: account_view where
  "default_account_view = \<lparr>
     av_account_id = None, av_tokenized_securities_attestations = Map.empty,
     av_asset_inventory = Map.empty, av_cash_balance = 0, av_positions = Map.empty,
     av_unrealized_pnl = 0, av_realized_pnl = 0, av_high_water_mark = 0, av_drawdown_pct = 0,
     av_max_drawdown_pct = 0, av_session_start_us = 0\<rparr>"

definition total_pnl :: "dec_ops \<Rightarrow> account_view \<Rightarrow> decimal option" where
  "total_pnl D v = d_add D (av_realized_pnl v) (av_unrealized_pnl v)"

text \<open>
  \<open>equity\<close> folds \<open>avg_price * quantity + unrealized_pnl\<close> over the positions in the order \<open>ks\<close> in
  which the map is iterated.
\<close>

fun sum_position_values :: "dec_ops \<Rightarrow> (symbol \<rightharpoonup> position) \<Rightarrow> symbol list \<Rightarrow> decimal \<Rightarrow> decimal option" where
  "sum_position_values D m [] acc = Some acc"
| "sum_position_values D m (k # ks) acc =
     (case m k of
        None \<Rightarrow> sum_position_values D m ks acc
      | Some p \<Rightarrow> do {
          cost \<leftarrow> d_mul D (pos_avg_price p) (pos_quantity p);
          v \<leftarrow> d_add D cost (pos_unrealized_pnl p);
          acc' \<leftarrow> d_add D acc v;
          sum_position_values D m ks acc' })"

definition equity :: "dec_ops \<Rightarrow> symbol list \<Rightarrow> account_view \<Rightarrow> decimal option" where
  "equity D ks v = do {
     s \<leftarrow> sum_position_values D (av_positions v) ks 0;
     d_add D (av_cash_balance v) s }"

record pending_risk_exposure =
  pe_strategy_id :: string
  pe_symbol :: symbol
  pe_quantity :: quantity
  pe_asset_class :: asset_class
  pe_product_type :: product_type
  pe_notional :: decimal

end
