(* ===== verification/OMS.thy ===== *)
theory OMS
  imports Ports
begin

text \<open>
  The order management core (\<open>risk-control/oms-core/src/lib.rs\<close>): the order records, the opt-in
  notional fill contracts and the list of reconciliation exceptions, with every operation that
  changes them. An operation takes the state and returns the new one with the value the source
  function returns; \<open>None\<close> around the pair is a decimal overflow, on which the source panics.
\<close>

subsection \<open>State\<close>

datatype order_status =
    Unknown | New | Acknowledged | PartiallyFilled | Filled | Canceled | Rejected | OExpired | Replaced

type_synonym oms_order_record = "order_status order_record"

record notional_fill_contract =
  requested_notional :: decimal
  nc_limit_price :: price
  filled_notional :: decimal
  nc_reduce_only :: bool
  approved_quantity :: quantity
  approved_limit_price :: price
  approved_filled_quantity :: quantity
  approved_filled_notional :: decimal

record oms_core =
  orders :: "order_id \<rightharpoonup> oms_order_record"
  notional_contracts :: "order_id \<rightharpoonup> notional_fill_contract"
  reconciliation_exceptions :: "reconciliation_exception list"

definition oms_new :: oms_core where
  "oms_new = \<lparr>orders = Map.empty, notional_contracts = Map.empty, reconciliation_exceptions = []\<rparr>"

definition order_record_new :: "register_order_params \<Rightarrow> oms_order_record" where
  "order_record_new p = \<lparr>
     o_order_id = rp_order_id p, o_client_order_id = rp_client_order_id p,
     o_account_id = rp_account_id p, o_symbol = rp_symbol p, o_side = rp_side p,
     o_qty = rp_qty p, o_limit_price = None, o_cum_qty = 0, o_avg_price = None, o_status = New,
     o_venue = rp_venue p, o_strategy_id = rp_strategy_id p, o_revision = 0,
     o_venue_order_id = None, o_venue_order_history = [], o_rejection_reason = None,
     o_last_error = None, o_state_changed_at = None, o_processed_fill_ids = {}\<rparr>"

fun status_open :: "order_status \<Rightarrow> bool" where
  "status_open Unknown = True"
| "status_open New = True"
| "status_open Acknowledged = True"
| "status_open PartiallyFilled = True"
| "status_open _ = False"

text \<open>The statuses matched where the source lists \<open>Filled | Canceled | Rejected | Expired | Replaced\<close>.\<close>

fun status_final :: "order_status \<Rightarrow> bool" where
  "status_final Filled = True"
| "status_final Canceled = True"
| "status_final Rejected = True"
| "status_final OExpired = True"
| "status_final Replaced = True"
| "status_final _ = False"

definition record_exception ::
  "oms_core \<Rightarrow> order_id option \<Rightarrow> message \<Rightarrow> execution_event option \<Rightarrow> oms_core" where
  "record_exception s oid reason ev =
     s\<lparr>reconciliation_exceptions := reconciliation_exceptions s @
         [\<lparr>x_order_id = oid, x_reason = reason, x_event = ev\<rparr>]\<rparr>"

definition put_order :: "oms_core \<Rightarrow> order_id \<Rightarrow> oms_order_record \<Rightarrow> oms_core" where
  "put_order s oid r = s\<lparr>orders := (orders s)(oid \<mapsto> r)\<rparr>"

definition order_update_of :: "order_id \<Rightarrow> oms_order_record \<Rightarrow> order_status \<Rightarrow> order_status order_update" where
  "order_update_of oid r prev = \<lparr>
     u_order_id = oid, u_status = o_status r, u_cum_qty = o_cum_qty r,
     u_avg_price = o_avg_price r, u_previous_status = prev\<rparr>"

subsection \<open>Registration\<close>

definition register_notional_fill_contract ::
  "dec_ops \<Rightarrow> oms_core \<Rightarrow> order_id \<Rightarrow> price \<Rightarrow> bool \<Rightarrow> (oms_core \<times> bool) option" where
  "register_notional_fill_contract D s oid lp reduce_only =
     (case orders s oid of
        None \<Rightarrow> Some (record_exception s (Some oid)
                  (Msg ''notional fill contract references an unknown order'') None, False)
      | Some ord \<Rightarrow>
          if o_side ord \<noteq> Buy \<or> reduce_only \<or> lp \<le> 0
          then Some (record_exception s (Some oid)
                 (Msg ''notional fill contract is only valid for non-reduce BUY orders'') None, False)
          else (case o_limit_price ord of
                  Some existing \<Rightarrow>
                    if existing \<noteq> lp
                    then Some (record_exception s (Some oid)
                      (Msg ''notional fill contract price disagrees with current order price'') None, False)
                    else do {
                      n \<leftarrow> d_mul D (o_qty ord) lp;
                      Some (s\<lparr>notional_contracts := (notional_contracts s)(oid \<mapsto> \<lparr>
                        requested_notional = n, nc_limit_price = lp, filled_notional = 0,
                        nc_reduce_only = reduce_only, approved_quantity = o_qty ord,
                        approved_limit_price = lp, approved_filled_quantity = 0,
                        approved_filled_notional = 0\<rparr>)\<rparr>, True) }
                | None \<Rightarrow> do {
                    n \<leftarrow> d_mul D (o_qty ord) lp;
                    Some ((put_order s oid (ord\<lparr>o_limit_price := Some lp\<rparr>))\<lparr>
                      notional_contracts := (notional_contracts s)(oid \<mapsto> \<lparr>
                        requested_notional = n, nc_limit_price = lp, filled_notional = 0,
                        nc_reduce_only = reduce_only, approved_quantity = o_qty ord,
                        approved_limit_price = lp, approved_filled_quantity = 0,
                        approved_filled_notional = 0\<rparr>)\<rparr>, True) }))"

definition same_payload :: "oms_order_record \<Rightarrow> register_order_params \<Rightarrow> bool" where
  "same_payload r p \<longleftrightarrow>
     o_client_order_id r = rp_client_order_id p \<and> o_account_id r = rp_account_id p \<and>
     o_symbol r = rp_symbol p \<and> o_side r = rp_side p \<and> o_qty r = rp_qty p \<and>
     o_venue r = rp_venue p \<and> o_strategy_id r = rp_strategy_id p"

definition register_order :: "oms_core \<Rightarrow> register_order_params \<Rightarrow> oms_core \<times> bool" where
  "register_order s p =
     (case orders s (rp_order_id p) of
        Some existing \<Rightarrow>
          if same_payload existing p then (s, True)
          else (record_exception s (Some (rp_order_id p)) (Msg ''conflicting order registration'') None,
                False)
      | None \<Rightarrow>
          if rp_qty p \<le> 0
          then (record_exception s (Some (rp_order_id p))
                  (Msg ''order registration has non-positive quantity'') None, False)
          else (put_order s (rp_order_id p) (order_record_new p), True))"

definition set_limit_price :: "oms_core \<Rightarrow> order_id \<Rightarrow> price \<Rightarrow> oms_core \<times> bool" where
  "set_limit_price s oid p =
     (if p \<le> 0
      then (record_exception s (Some oid) (Msg ''order limit price must be positive'') None, False)
      else if notional_contracts s oid \<noteq> None
      then (record_exception s (Some oid)
              (Msg ''notional order price must change through a canonical replace'') None, False)
      else case orders s oid of
             None \<Rightarrow> (record_exception s (Some oid)
                       (Msg ''order limit price references an unknown order'') None, False)
           | Some ord \<Rightarrow> (put_order s oid (ord\<lparr>o_limit_price := Some p\<rparr>), True))"

subsection \<open>Modification\<close>

definition modified_status :: "oms_order_record \<Rightarrow> order_status \<Rightarrow> order_status" where
  "modified_status ord prev =
     (if o_qty ord \<le> o_cum_qty ord then Filled
      else if 0 < o_cum_qty ord then PartiallyFilled
      else prev)"

text \<open>
  The writes of \<open>apply_order_modification\<close> to the order record once the request is accepted:
  quantity, limit price, revision, change time, and the status derived from the cumulative fill.
\<close>

definition modify_record ::
  "oms_order_record \<Rightarrow> quantity \<Rightarrow> price option \<Rightarrow> timestamp \<Rightarrow> oms_order_record" where
  "modify_record ord next_qty new_price ts =
     (let prev = o_status ord;
          r1 = ord\<lparr>o_qty := next_qty\<rparr>;
          r2 = (case new_price of None \<Rightarrow> r1 | Some p \<Rightarrow> r1\<lparr>o_limit_price := Some p\<rparr>);
          r3 = r2\<lparr>o_revision := saturating_add (o_revision r2) 1\<rparr>;
          r4 = (if status_final prev then r3 else r3\<lparr>o_state_changed_at := Some ts\<rparr>)
      in if status_final prev \<or> prev = Unknown then r4
         else r4\<lparr>o_status := modified_status r4 prev\<rparr>)"

definition apply_order_modification ::
  "dec_ops \<Rightarrow> oms_core \<Rightarrow> order_id \<Rightarrow> quantity option \<Rightarrow> price option \<Rightarrow> timestamp
   \<Rightarrow> (oms_core \<times> order_status order_update option) option" where
  "apply_order_modification D s oid new_quantity new_price ts =
     (case orders s oid of
        None \<Rightarrow> Some (s, None)
      | Some ord \<Rightarrow>
          let next_qty = unwrap_or (o_qty ord) new_quantity;
              next_price = opt_or new_price (o_limit_price ord);
              r = modify_record ord next_qty new_price ts;
              done = (\<lambda>st. Some (put_order st oid r, Some (order_update_of oid r (o_status ord))))
          in if next_qty \<le> 0 \<or> next_qty < o_cum_qty ord
             then Some (record_exception s (Some oid)
               (Msg ''order modification quantity is below cumulative fill or non-positive'') None, None)
             else if is_some_and (\<lambda>p. p \<le> 0) new_price
             then Some (record_exception s (Some oid)
               (Msg ''order modification price is non-positive'') None, None)
             else (case notional_contracts s oid of
                     None \<Rightarrow> done s
                   | Some c \<Rightarrow>
                       (case next_price of
                          None \<Rightarrow> Some (record_exception s (Some oid)
                            (Msg ''notional order modification removed its limit price'') None, None)
                        | Some lp \<Rightarrow> do {
                            diff \<leftarrow> d_sub D next_qty (o_cum_qty ord);
                            rest \<leftarrow> d_mul D (max diff 0) lp;
                            requested \<leftarrow> d_add D (filled_notional c) rest;
                            (if o_side ord \<noteq> Buy \<or> nc_reduce_only c \<or> requested < filled_notional c
                             then Some (record_exception s (Some oid)
                               (Msg ''order modification invalidates the canonical notional contract'') None,
                               None)
                             else done (s\<lparr>notional_contracts := (notional_contracts s)(oid \<mapsto>
                               c\<lparr>nc_limit_price := lp, requested_notional := requested,
                                 approved_quantity := next_qty, approved_limit_price := lp,
                                 approved_filled_quantity := o_cum_qty ord,
                                 approved_filled_notional := filled_notional c\<rparr>)\<rparr>)) })))"

subsection \<open>Execution events\<close>

fun referenced_order :: "execution_event \<Rightarrow> order_id option" where
  "referenced_order (OrderAck oid _) = Some oid"
| "referenced_order (Fill oid _ _ _ _) = Some oid"
| "referenced_order (FeeCharged oid _ _ _) = Some oid"
| "referenced_order (OrderReject oid _ _) = Some oid"
| "referenced_order (OrderCompleted oid _ _ _) = Some oid"
| "referenced_order (OrderCanceled oid _) = Some oid"
| "referenced_order (OrderModified oid _ _ _) = Some oid"
| "referenced_order _ = None"

definition on_order_new ::
  "oms_core \<Rightarrow> register_order_params \<Rightarrow> price option \<Rightarrow> timestamp \<Rightarrow> oms_core" where
  "on_order_new s p requested_price ts =
     (let s1 = fst (register_order s p);
          s2 = (case orders s1 (rp_order_id p) of
                  None \<Rightarrow> s1
                | Some ord \<Rightarrow> put_order s1 (rp_order_id p) (ord\<lparr>o_state_changed_at := Some ts\<rparr>))
      in case requested_price of
           None \<Rightarrow> s2
         | Some lp \<Rightarrow> fst (set_limit_price s2 (rp_order_id p) lp))"

definition fill_status :: "oms_order_record \<Rightarrow> quantity \<Rightarrow> order_status" where
  "fill_status ord new_cum =
     (let prev = o_status ord;
          derived = (if o_qty ord \<le> new_cum then Filled
                     else if prev = Canceled then Canceled
                     else if prev = Unknown then Unknown
                     else PartiallyFilled)
      in if prev \<in> {Canceled, Rejected, OExpired, Replaced} then prev else derived)"

definition weighted_avg_price ::
  "dec_ops \<Rightarrow> oms_order_record \<Rightarrow> price \<Rightarrow> quantity \<Rightarrow> quantity \<Rightarrow> price option" where
  "weighted_avg_price D ord p fill_qty new_cum =
     (case o_avg_price ord of
        None \<Rightarrow> Some p
      | Some prev_avg \<Rightarrow>
          if 0 < new_cum then do {
            wp \<leftarrow> d_mul D prev_avg (o_cum_qty ord);
            wf \<leftarrow> d_mul D p fill_qty;
            w \<leftarrow> d_add D wp wf;
            d_div D w new_cum }
          else Some p)"

text \<open>The part of the \<open>Fill\<close> arm after its checks: contract, record and returned update.\<close>

definition commit_fill ::
  "dec_ops \<Rightarrow> oms_core \<Rightarrow> order_id \<Rightarrow> oms_order_record \<Rightarrow> price \<Rightarrow> quantity \<Rightarrow> timestamp \<Rightarrow> string
   \<Rightarrow> quantity \<Rightarrow> (oms_core \<times> order_status order_update option) option" where
  "commit_fill D s oid ord p fill_qty ts fill_id new_cum = do {
     contracts \<leftarrow> (case notional_contracts s oid of
                      None \<Rightarrow> Some (notional_contracts s)
                    | Some c \<Rightarrow> do {
                        n \<leftarrow> d_mul D fill_qty p;
                        filled \<leftarrow> d_add D (filled_notional c) n;
                        Some ((notional_contracts s)(oid \<mapsto> c\<lparr>filled_notional := filled\<rparr>)) });
     avg \<leftarrow> weighted_avg_price D ord p fill_qty new_cum;
     let r = ord\<lparr>o_processed_fill_ids := insert fill_id (o_processed_fill_ids ord),
                 o_cum_qty := new_cum, o_status := fill_status ord new_cum,
                 o_avg_price := Some avg, o_state_changed_at := Some ts\<rparr>
     in Some ((put_order s oid r)\<lparr>notional_contracts := contracts\<rparr>,
              Some (order_update_of oid r (o_status ord))) }"

definition on_fill ::
  "dec_ops \<Rightarrow> oms_core \<Rightarrow> order_id \<Rightarrow> price \<Rightarrow> quantity \<Rightarrow> timestamp \<Rightarrow> string
   \<Rightarrow> (oms_core \<times> order_status order_update option) option" where
  "on_fill D s oid p q ts fill_id =
     (let ev = Fill oid p q ts fill_id;
          refuse = (\<lambda>reason. Some (record_exception s (Some oid) (Msg reason) (Some ev), None))
      in if fill_id = [] then refuse ''fill is missing the venue execution identity''
         else if q \<le> 0 then refuse ''fill has non-positive quantity''
         else if p \<le> 0 then refuse ''fill has non-positive price''
         else case orders s oid of
           None \<Rightarrow> None
         | Some ord \<Rightarrow>
             if fill_id \<in> o_processed_fill_ids ord then Some (s, None)
             else do {
               new_cum \<leftarrow> d_add D (o_cum_qty ord) q;
               (case notional_contracts s oid of
                  Some c \<Rightarrow> do {
                    n \<leftarrow> d_mul D q p;
                    next_notional \<leftarrow> d_add D (filled_notional c) n;
                    (if \<not> p \<le> nc_limit_price c
                        \<or> \<not> (new_cum \<le> o_qty ord \<or> \<not> nc_reduce_only c \<and> p < nc_limit_price c)
                        \<or> requested_notional c < next_notional
                     then refuse ''fill exceeds the canonical order quantity/notional contract''
                     else commit_fill D s oid ord p q ts fill_id new_cum) }
                | None \<Rightarrow>
                    if o_qty ord < new_cum
                    then refuse ''fill exceeds the canonical order quantity contract''
                    else commit_fill D s oid ord p q ts fill_id new_cum) })"

definition on_order_ack ::
  "oms_core \<Rightarrow> order_id \<Rightarrow> timestamp \<Rightarrow> oms_core \<times> order_status order_update option" where
  "on_order_ack s oid ts =
     (case orders s oid of
        None \<Rightarrow> (s, None)
      | Some ord \<Rightarrow>
          let r = (if o_status ord = New \<or> o_status ord = Unknown
                   then ord\<lparr>o_status := Acknowledged, o_state_changed_at := Some ts\<rparr> else ord)
          in (put_order s oid r, Some (order_update_of oid r (o_status ord))))"

definition on_order_reject ::
  "oms_core \<Rightarrow> order_id \<Rightarrow> string \<Rightarrow> timestamp \<Rightarrow> oms_core \<times> order_status order_update option" where
  "on_order_reject s oid reason ts =
     (case orders s oid of
        None \<Rightarrow> (s, None)
      | Some ord \<Rightarrow>
          let r1 = (if status_final (o_status ord) then ord
                    else ord\<lparr>o_status := Rejected, o_state_changed_at := Some ts\<rparr>);
              r = r1\<lparr>o_rejection_reason := Some reason\<rparr>
          in (put_order s oid r, Some (order_update_of oid r (o_status ord))))"

definition on_order_canceled ::
  "oms_core \<Rightarrow> order_id \<Rightarrow> timestamp \<Rightarrow> oms_core \<times> order_status order_update option" where
  "on_order_canceled s oid ts =
     (case orders s oid of
        None \<Rightarrow> (s, None)
      | Some ord \<Rightarrow>
          let r = (if status_final (o_status ord) then ord
                   else ord\<lparr>o_status := Canceled, o_state_changed_at := Some ts\<rparr>)
          in (put_order s oid r, Some (order_update_of oid r (o_status ord))))"

fun handle_event ::
  "dec_ops \<Rightarrow> oms_core \<Rightarrow> execution_event \<Rightarrow> (oms_core \<times> order_status order_update option) option" where
  "handle_event D s (OrderNew oid cid acc sm sd q rprice aprice ts v sid) =
     Some (on_order_new s \<lparr>rp_order_id = oid, rp_client_order_id = cid, rp_account_id = acc,
             rp_symbol = sm, rp_side = sd, rp_qty = q, rp_venue = v,
             rp_strategy_id = (if sid = [] then None else Some sid)\<rparr> rprice ts, None)"
| "handle_event D s (OrderAck oid ts) = Some (on_order_ack s oid ts)"
| "handle_event D s (Fill oid p q ts fid) = on_fill D s oid p q ts fid"
| "handle_event D s (OrderReject oid reason ts) = Some (on_order_reject s oid reason ts)"
| "handle_event D s (OrderCanceled oid ts) = Some (on_order_canceled s oid ts)"
| "handle_event D s (OrderModified oid nq np ts) = apply_order_modification D s oid nq np ts"
| "handle_event D s _ = Some (s, None)"

definition on_execution_event ::
  "dec_ops \<Rightarrow> oms_core \<Rightarrow> execution_event \<Rightarrow> (oms_core \<times> order_status order_update option) option" where
  "on_execution_event D s ev =
     (case referenced_order ev of
        Some oid \<Rightarrow>
          if orders s oid = None
          then Some (record_exception s (Some oid)
                 (Msg ''execution event references an unknown order'') (Some ev), None)
          else handle_event D s ev
      | None \<Rightarrow> handle_event D s ev)"

subsection \<open>Identity and diagnostics\<close>

definition set_venue_order_id :: "oms_core \<Rightarrow> order_id \<Rightarrow> string \<Rightarrow> oms_core \<times> bool" where
  "set_venue_order_id s oid void =
     (if blank void
      then (record_exception s (Some oid) (Msg ''venue order identity must not be empty'') None, False)
      else case orders s oid of
             None \<Rightarrow> (record_exception s (Some oid)
                       (Msg ''venue order identity references an unknown order'') None, False)
           | Some ord \<Rightarrow>
               (if o_venue_order_id ord \<noteq> Some void
                then put_order s oid (ord\<lparr>o_venue_order_id := Some void,
                       o_venue_order_history := o_venue_order_history ord @
                         (case o_venue_order_id ord of None \<Rightarrow> [] | Some prev \<Rightarrow> [prev])\<rparr>)
                else s, True))"

definition replace_venue_order_id :: "oms_core \<Rightarrow> order_id \<Rightarrow> string \<Rightarrow> oms_core \<times> bool" where
  "replace_venue_order_id s oid void =
     (if blank void
      then (record_exception s (Some oid) (Msg ''venue order identity must not be empty'') None, False)
      else case orders s oid of
             None \<Rightarrow> (record_exception s (Some oid)
                       (Msg ''venue order replacement references an unknown order'') None, False)
           | Some ord \<Rightarrow>
               (put_order s oid (ord\<lparr>o_venue_order_id := Some void,
                  o_venue_order_history := o_venue_order_history ord @
                    (case o_venue_order_id ord of None \<Rightarrow> [] | Some prev \<Rightarrow> [prev])\<rparr>), True))"

definition set_rejection_reason :: "oms_core \<Rightarrow> order_id \<Rightarrow> string \<Rightarrow> oms_core \<times> bool" where
  "set_rejection_reason s oid reason =
     (case orders s oid of
        None \<Rightarrow> (s, False)
      | Some ord \<Rightarrow> (put_order s oid (ord\<lparr>o_rejection_reason := Some reason\<rparr>), True))"

definition set_last_error :: "oms_core \<Rightarrow> order_id \<Rightarrow> string \<Rightarrow> oms_core \<times> bool" where
  "set_last_error s oid e =
     (case orders s oid of
        None \<Rightarrow> (s, False)
      | Some ord \<Rightarrow> (put_order s oid (ord\<lparr>o_last_error := Some e\<rparr>), True))"

subsection \<open>Recovery overrides\<close>

definition update_filled_quantity ::
  "oms_core \<Rightarrow> order_id \<Rightarrow> quantity \<Rightarrow> price option \<Rightarrow> oms_core \<times> order_status order_update option" where
  "update_filled_quantity s oid new_cum new_avg =
     (case orders s oid of
        None \<Rightarrow> (s, None)
      | Some ord \<Rightarrow>
          let r1 = ord\<lparr>o_cum_qty := new_cum\<rparr>;
              r2 = (case new_avg of None \<Rightarrow> r1 | Some p \<Rightarrow> r1\<lparr>o_avg_price := Some p\<rparr>);
              r = r2\<lparr>o_status := (if o_status ord = Unknown then Unknown
                                  else if o_qty r2 \<le> o_cum_qty r2 then Filled
                                  else if 0 < o_cum_qty r2 then PartiallyFilled
                                  else o_status r2)\<rparr>
          in (put_order s oid r, Some (order_update_of oid r (o_status ord))))"

definition update_status ::
  "oms_core \<Rightarrow> order_id \<Rightarrow> order_status \<Rightarrow> oms_core \<times> order_status order_update option" where
  "update_status s oid new_status =
     (case orders s oid of
        None \<Rightarrow> (s, None)
      | Some ord \<Rightarrow>
          let r = ord\<lparr>o_status := new_status\<rparr>
          in (put_order s oid r, Some (order_update_of oid r (o_status ord))))"

end
