(* ===== verification/OMS_Invariant.thy ===== *)
theory OMS_Invariant
  imports OMS
begin

text \<open>
  What the order manager guarantees: its state invariant and that every operation keeps it, the
  behaviour of the status machine, fills counted once and only within the order's contract, and the
  evidence list that only grows.
\<close>

subsection \<open>Well-formed states\<close>

definition order_wf :: "order_id \<Rightarrow> oms_order_record \<Rightarrow> bool" where
  "order_wf oid r \<longleftrightarrow>
     o_order_id r = oid \<and> 0 < o_qty r \<and> 0 \<le> o_cum_qty r \<and>
     (\<forall>p. o_limit_price r = Some p \<longrightarrow> 0 < p) \<and>
     (\<forall>v. o_venue_order_id r = Some v \<longrightarrow> \<not> blank v) \<and>
     (\<forall>v. v \<in> set (o_venue_order_history r) \<longrightarrow> \<not> blank v)"

definition expected_notional :: "dec_ops \<Rightarrow> notional_fill_contract \<Rightarrow> decimal option" where
  "expected_notional D c = do {
     diff \<leftarrow> d_sub D (approved_quantity c) (approved_filled_quantity c);
     rest \<leftarrow> d_mul D (max diff 0) (approved_limit_price c);
     d_add D (approved_filled_notional c) rest }"

definition contract_wf :: "dec_ops \<Rightarrow> oms_order_record \<Rightarrow> notional_fill_contract \<Rightarrow> bool" where
  "contract_wf D r c \<longleftrightarrow>
     o_side r = Buy \<and> \<not> nc_reduce_only c \<and> o_limit_price r = Some (nc_limit_price c) \<and>
     0 < nc_limit_price c \<and> 0 < approved_limit_price c \<and> 0 < approved_quantity c \<and>
     0 \<le> approved_filled_quantity c \<and> approved_filled_quantity c \<le> approved_quantity c \<and>
     0 \<le> approved_filled_notional c \<and> approved_filled_notional c \<le> requested_notional c \<and>
     0 \<le> filled_notional c \<and> filled_notional c \<le> requested_notional c \<and>
     expected_notional D c = Some (requested_notional c)"

definition oms_inv :: "dec_ops \<Rightarrow> oms_core \<Rightarrow> bool" where
  "oms_inv D s \<longleftrightarrow>
     (\<forall>oid r. orders s oid = Some r \<longrightarrow>
        order_wf oid r \<and> (notional_contracts s oid = None \<longrightarrow> o_cum_qty r \<le> o_qty r)) \<and>
     (\<forall>oid c. notional_contracts s oid = Some c \<longrightarrow>
        (\<exists>r. orders s oid = Some r \<and> contract_wf D r c))"

text \<open>
  The steps of the order manager in live operation: every public operation except the explicit
  recovery overrides \<open>update_filled_quantity\<close>, \<open>update_status\<close> and \<open>import_state\<close>, which write
  whatever the caller passes.
\<close>

inductive oms_step :: "dec_ops \<Rightarrow> oms_core \<Rightarrow> oms_core \<Rightarrow> bool" for D where
  step_register: "oms_step D s (fst (register_order s p))"
| step_contract: "register_notional_fill_contract D s oid lp ro = Some (s', b) \<Longrightarrow> oms_step D s s'"
| step_event: "on_execution_event D s ev = Some (s', u) \<Longrightarrow> oms_step D s s'"
| step_modify: "apply_order_modification D s oid nq np ts = Some (s', u) \<Longrightarrow> oms_step D s s'"
| step_limit: "oms_step D s (fst (set_limit_price s oid p))"
| step_venue_id: "oms_step D s (fst (set_venue_order_id s oid v))"
| step_replace_venue_id: "oms_step D s (fst (replace_venue_order_id s oid v))"
| step_rejection: "oms_step D s (fst (set_rejection_reason s oid m))"
| step_last_error: "oms_step D s (fst (set_last_error s oid m))"

inductive oms_reachable :: "dec_ops \<Rightarrow> oms_core \<Rightarrow> bool" for D where
  reach_new: "oms_reachable D oms_new"
| reach_step: "oms_reachable D s \<Longrightarrow> oms_step D s s' \<Longrightarrow> oms_reachable D s'"

subsection \<open>Basic facts\<close>

lemma record_exception_sel [simp]:
  "orders (record_exception s oid m ev) = orders s"
  "notional_contracts (record_exception s oid m ev) = notional_contracts s"
  "reconciliation_exceptions (record_exception s oid m ev) =
     reconciliation_exceptions s @ [\<lparr>x_order_id = oid, x_reason = m, x_event = ev\<rparr>]"
  by (simp_all add: record_exception_def)

lemma put_order_sel [simp]:
  "orders (put_order s oid r) = (orders s)(oid \<mapsto> r)"
  "notional_contracts (put_order s oid r) = notional_contracts s"
  "reconciliation_exceptions (put_order s oid r) = reconciliation_exceptions s"
  by (simp_all add: put_order_def)

lemma oms_inv_orderD:
  assumes "oms_inv D s" and "orders s oid = Some r"
  shows "order_wf oid r"
    and "notional_contracts s oid = None \<Longrightarrow> o_cum_qty r \<le> o_qty r"
    and "notional_contracts s oid = Some c \<Longrightarrow> contract_wf D r c"
  using assms unfolding oms_inv_def by fastforce+

lemma oms_inv_contractD:
  "oms_inv D s \<Longrightarrow> notional_contracts s oid = Some c \<Longrightarrow>
     \<exists>r. orders s oid = Some r \<and> order_wf oid r \<and> contract_wf D r c"
  unfolding oms_inv_def by blast

lemma oms_inv_record_exception [simp]: "oms_inv D (record_exception s oid m ev) = oms_inv D s"
  by (simp add: oms_inv_def)

lemma oms_inv_new [simp]: "oms_inv D oms_new"
  by (simp add: oms_inv_def oms_new_def)

lemma oms_inv_put:
  assumes "oms_inv D s" and "order_wf oid r"
    and "notional_contracts s oid = None \<Longrightarrow> o_cum_qty r \<le> o_qty r"
    and "\<And>c. notional_contracts s oid = Some c \<Longrightarrow> contract_wf D r c"
  shows "oms_inv D (put_order s oid r)"
  using assms unfolding oms_inv_def by auto

lemma oms_inv_put_contract:
  assumes "oms_inv D s" and "order_wf oid r" and "contract_wf D r c"
  shows "oms_inv D ((put_order s oid r)\<lparr>notional_contracts := (notional_contracts s)(oid \<mapsto> c)\<rparr>)"
  using assms unfolding oms_inv_def by auto

text \<open>A record update outside the fields the invariant reads.\<close>

lemma oms_inv_put_same:
  assumes "oms_inv D s" and "orders s oid = Some ord"
    and "o_order_id r = o_order_id ord" "o_qty r = o_qty ord" "o_cum_qty r = o_cum_qty ord"
    "o_limit_price r = o_limit_price ord" "o_side r = o_side ord"
    "o_venue_order_id r = o_venue_order_id ord" "o_venue_order_history r = o_venue_order_history ord"
  shows "oms_inv D (put_order s oid r)"
  using assms(3-) oms_inv_orderD [OF assms(1,2)]
  by (intro oms_inv_put [OF assms(1)]) (auto simp: order_wf_def contract_wf_def)

subsection \<open>Every operation keeps the invariant\<close>

lemma register_order_inv: "oms_inv D s \<Longrightarrow> oms_inv D (fst (register_order s p))"
proof -
  assume inv: "oms_inv D s"
  have "notional_contracts s (rp_order_id p) = None" if "orders s (rp_order_id p) = None"
    using oms_inv_contractD [OF inv, of "rp_order_id p"] that
    by (cases "notional_contracts s (rp_order_id p)") auto
  then show ?thesis
    using inv
    by (auto simp: register_order_def order_record_new_def order_wf_def
        intro!: oms_inv_put split: option.splits)
qed

lemma set_limit_price_inv: "oms_inv D s \<Longrightarrow> oms_inv D (fst (set_limit_price s oid p))"
  using oms_inv_orderD
  by (auto simp: set_limit_price_def order_wf_def intro!: oms_inv_put split: option.splits)

lemma on_order_new_inv: "oms_inv D s \<Longrightarrow> oms_inv D (on_order_new s p rp ts)"
proof -
  assume "oms_inv D s"
  then have 1: "oms_inv D (fst (register_order s p))" by (rule register_order_inv)
  define s2 where "s2 = (case orders (fst (register_order s p)) (rp_order_id p) of
      None \<Rightarrow> fst (register_order s p)
    | Some ord \<Rightarrow> put_order (fst (register_order s p)) (rp_order_id p) (ord\<lparr>o_state_changed_at := Some ts\<rparr>))"
  from 1 have "oms_inv D s2"
    by (auto simp: s2_def intro: oms_inv_put_same split: option.splits)
  then show ?thesis
    by (auto simp: on_order_new_def Let_def s2_def [symmetric] set_limit_price_inv split: option.splits)
qed

lemma contract_new_wf:
  assumes "dec_ordered D" and "order_wf oid r" and "o_side r = Buy" and "0 < lp"
    and "o_limit_price r = Some lp" and "d_mul D (o_qty r) lp = Some n"
  shows "contract_wf D r \<lparr>
     requested_notional = n, nc_limit_price = lp, filled_notional = 0,
     nc_reduce_only = False, approved_quantity = o_qty r, approved_limit_price = lp,
     approved_filled_quantity = 0, approved_filled_notional = 0\<rparr>"
  using assms dec_ordered_mulD [OF assms(1,6)]
  by (auto simp: contract_wf_def order_wf_def expected_notional_def dec_ordered_zero max_def)

lemma register_contract_inv:
  assumes "dec_ordered D" and "oms_inv D s"
    and "register_notional_fill_contract D s oid lp ro = Some (s', b)"
  shows "oms_inv D s'"
proof -
  consider (refused) "\<exists>m. s' = record_exception s (Some oid) m None"
    | (made) ord n where "orders s oid = Some ord" "o_side ord = Buy" "\<not> ro" "0 < lp"
      "o_limit_price ord = None \<or> o_limit_price ord = Some lp" "d_mul D (o_qty ord) lp = Some n"
      "s' = (put_order s oid (ord\<lparr>o_limit_price := Some lp\<rparr>))\<lparr>
        notional_contracts := (notional_contracts s)(oid \<mapsto> \<lparr>
          requested_notional = n, nc_limit_price = lp, filled_notional = 0,
          nc_reduce_only = False, approved_quantity = o_qty ord, approved_limit_price = lp,
          approved_filled_quantity = 0, approved_filled_notional = 0\<rparr>)\<rparr>"
    using assms(3)
    by (auto simp: register_notional_fill_contract_def bind_eq_Some_conv not_le put_order_def
        fun_upd_idem intro!: oms_core.equality split: option.splits if_splits)
  then show ?thesis
  proof cases
    case refused
    with assms(2) show ?thesis by auto
  next
    case made
    let ?r = "ord\<lparr>o_limit_price := Some lp\<rparr>"
    have wf: "order_wf oid ?r"
      using oms_inv_orderD(1) [OF assms(2) made(1)] made(4) by (auto simp: order_wf_def)
    have "contract_wf D ?r \<lparr>
          requested_notional = n, nc_limit_price = lp, filled_notional = 0,
          nc_reduce_only = False, approved_quantity = o_qty ord, approved_limit_price = lp,
          approved_filled_quantity = 0, approved_filled_notional = 0\<rparr>"
      using contract_new_wf [OF assms(1) wf, of lp n] made by simp
    from oms_inv_put_contract [OF assms(2) wf this] show ?thesis by (simp add: made(7))
  qed
qed


lemma oms_inv_put_venue_id:
  assumes "oms_inv D s" and "orders s oid = Some ord" and "\<not> blank v"
  shows "oms_inv D (put_order s oid (ord\<lparr>o_venue_order_id := Some v,
     o_venue_order_history := o_venue_order_history ord @
       (case o_venue_order_id ord of None \<Rightarrow> [] | Some prev \<Rightarrow> [prev])\<rparr>))"
  using assms(3) oms_inv_orderD [OF assms(1,2)]
  by (intro oms_inv_put [OF assms(1)]) (auto simp: order_wf_def contract_wf_def split: option.splits)

lemma set_venue_order_id_inv: "oms_inv D s \<Longrightarrow> oms_inv D (fst (set_venue_order_id s oid v))"
  using oms_inv_put_venue_id [of D s oid _ v]
  by (cases "orders s oid") (auto simp: set_venue_order_id_def)

lemma replace_venue_order_id_inv: "oms_inv D s \<Longrightarrow> oms_inv D (fst (replace_venue_order_id s oid v))"
  using oms_inv_put_venue_id [of D s oid _ v]
  by (cases "orders s oid") (auto simp: replace_venue_order_id_def)

lemma set_rejection_reason_inv: "oms_inv D s \<Longrightarrow> oms_inv D (fst (set_rejection_reason s oid m))"
  by (auto simp: set_rejection_reason_def intro: oms_inv_put_same split: option.splits)

lemma set_last_error_inv: "oms_inv D s \<Longrightarrow> oms_inv D (fst (set_last_error s oid m))"
  by (auto simp: set_last_error_def intro: oms_inv_put_same split: option.splits)

lemma on_order_ack_inv: "oms_inv D s \<Longrightarrow> oms_inv D (fst (on_order_ack s oid ts))"
  by (auto simp: on_order_ack_def Let_def intro: oms_inv_put_same split: option.splits)

lemma on_order_reject_inv: "oms_inv D s \<Longrightarrow> oms_inv D (fst (on_order_reject s oid m ts))"
  by (auto simp: on_order_reject_def Let_def intro: oms_inv_put_same split: option.splits)

lemma on_order_canceled_inv: "oms_inv D s \<Longrightarrow> oms_inv D (fst (on_order_canceled s oid ts))"
  by (auto simp: on_order_canceled_def Let_def intro: oms_inv_put_same split: option.splits)

subsubsection \<open>Modifications\<close>

lemma modify_record_sel [simp]:
  "o_order_id (modify_record ord q np ts) = o_order_id ord"
  "o_qty (modify_record ord q np ts) = q"
  "o_cum_qty (modify_record ord q np ts) = o_cum_qty ord"
  "o_side (modify_record ord q np ts) = o_side ord"
  "o_limit_price (modify_record ord q np ts) = opt_or np (o_limit_price ord)"
  "o_venue_order_id (modify_record ord q np ts) = o_venue_order_id ord"
  "o_venue_order_history (modify_record ord q np ts) = o_venue_order_history ord"
  "o_avg_price (modify_record ord q np ts) = o_avg_price ord"
  "o_processed_fill_ids (modify_record ord q np ts) = o_processed_fill_ids ord"
  "o_client_order_id (modify_record ord q np ts) = o_client_order_id ord"
  "o_revision (modify_record ord q np ts) = saturating_add (o_revision ord) 1"
  by (simp_all add: modify_record_def Let_def split: option.splits)

lemma modify_record_status:
  "o_status (modify_record ord q np ts) =
     (if status_final (o_status ord) \<or> o_status ord = Unknown then o_status ord
      else if q \<le> o_cum_qty ord then Filled
      else if 0 < o_cum_qty ord then PartiallyFilled
      else o_status ord)"
  by (simp add: modify_record_def modified_status_def Let_def split: option.splits)

text \<open>The outcomes of a modification request: refused, applied, or applied with a new contract.\<close>

lemma modification_cases:
  assumes "apply_order_modification D s oid nq np ts = Some (s', u)"
  obtains (absent) "orders s oid = None" "s' = s" "u = None"
  | (refused) m where "s' = record_exception s (Some oid) m None" "u = None"
  | (plain) ord where "orders s oid = Some ord" "notional_contracts s oid = None"
      "0 < unwrap_or (o_qty ord) nq" "o_cum_qty ord \<le> unwrap_or (o_qty ord) nq"
      "\<And>p. np = Some p \<Longrightarrow> 0 < p"
      "s' = put_order s oid (modify_record ord (unwrap_or (o_qty ord) nq) np ts)"
      "u = Some (order_update_of oid (modify_record ord (unwrap_or (o_qty ord) nq) np ts) (o_status ord))"
  | (contract) ord c lp diff rest requested where "orders s oid = Some ord"
      "notional_contracts s oid = Some c"
      "0 < unwrap_or (o_qty ord) nq" "o_cum_qty ord \<le> unwrap_or (o_qty ord) nq"
      "\<And>p. np = Some p \<Longrightarrow> 0 < p"
      "opt_or np (o_limit_price ord) = Some lp" "o_side ord = Buy" "\<not> nc_reduce_only c"
      "d_sub D (unwrap_or (o_qty ord) nq) (o_cum_qty ord) = Some diff"
      "d_mul D (max diff 0) lp = Some rest" "d_add D (filled_notional c) rest = Some requested"
      "filled_notional c \<le> requested"
      "s' = (put_order s oid (modify_record ord (unwrap_or (o_qty ord) nq) np ts))\<lparr>
         notional_contracts := (notional_contracts s)(oid \<mapsto>
           c\<lparr>nc_limit_price := lp, requested_notional := requested,
             approved_quantity := unwrap_or (o_qty ord) nq, approved_limit_price := lp,
             approved_filled_quantity := o_cum_qty ord,
             approved_filled_notional := filled_notional c\<rparr>)\<rparr>"
      "u = Some (order_update_of oid (modify_record ord (unwrap_or (o_qty ord) nq) np ts) (o_status ord))"
proof (cases "orders s oid")
  case None
  with assms show ?thesis by (intro absent) (auto simp: apply_order_modification_def)
next
  case (Some ord)
  show ?thesis
  proof (cases "notional_contracts s oid")
    case None
    with Some assms show ?thesis
      by (auto simp: apply_order_modification_def Let_def not_le not_less
          split: if_splits intro: refused plain)
  next
    case (Some c)
    with \<open>orders s oid = Some ord\<close> assms show ?thesis
      by (auto simp: apply_order_modification_def Let_def not_le not_less put_order_def bind_eq_Some_conv
          split: if_splits option.splits intro: refused contract)
  qed
qed

lemma modification_inv:
  assumes "dec_ordered D" and inv: "oms_inv D s"
    and "apply_order_modification D s oid nq np ts = Some (s', u)"
  shows "oms_inv D s'"
  using assms(3)
proof (cases rule: modification_cases)
  case (plain ord)
  with oms_inv_orderD(1) [OF inv plain(1)] show ?thesis
    by (auto intro!: oms_inv_put [OF inv] simp: order_wf_def opt_or_def split: option.splits)
next
  case (contract ord c lp diff rest requested)
  note wf = oms_inv_orderD(1) [OF inv contract(1)]
  let ?r = "modify_record ord (unwrap_or (o_qty ord) nq) np ts"
  have "order_wf oid ?r"
    using wf contract(3,5) by (auto simp: order_wf_def opt_or_def split: option.splits)
  moreover have "0 < lp" using contract(5,6) wf by (cases np) (auto simp: order_wf_def)
  moreover have "0 \<le> filled_notional c" "0 \<le> o_cum_qty ord"
    using oms_inv_orderD(3) [OF inv contract(1,2)] wf by (auto simp: contract_wf_def order_wf_def)
  ultimately show ?thesis
    using contract
    by (auto intro!: oms_inv_put_contract [OF inv] simp: contract_wf_def expected_notional_def)
qed (use inv in auto)


subsubsection \<open>Fills\<close>

text \<open>The outcomes of a fill report: refused with evidence, a duplicate, or committed.\<close>

lemma fill_cases:
  assumes "on_fill D s oid p q ts fid = Some (s', u)"
  obtains (refused) m where "s' = record_exception s (Some oid) (Msg m) (Some (Fill oid p q ts fid))" "u = None"
  | (duplicate) ord where "orders s oid = Some ord" "fid \<in> o_processed_fill_ids ord" "s' = s" "u = None"
  | (committed) ord new_cum where "orders s oid = Some ord" "fid \<notin> o_processed_fill_ids ord"
      "fid \<noteq> []" "0 < q" "0 < p" "d_add D (o_cum_qty ord) q = Some new_cum"
      "notional_contracts s oid = None \<Longrightarrow> new_cum \<le> o_qty ord"
      "\<And>c. notional_contracts s oid = Some c \<Longrightarrow>
         p \<le> nc_limit_price c \<and> (new_cum \<le> o_qty ord \<or> \<not> nc_reduce_only c \<and> p < nc_limit_price c) \<and>
         (\<exists>n next. d_mul D q p = Some n \<and> d_add D (filled_notional c) n = Some next \<and>
                    next \<le> requested_notional c)"
      "commit_fill D s oid ord p q ts fid new_cum = Some (s', u)"
proof (cases "fid = [] \<or> q \<le> 0 \<or> p \<le> 0")
  case True
  with assms show ?thesis by (auto simp: on_fill_def Let_def split: if_splits intro: refused)
next
  case False
  with assms obtain ord where ord: "orders s oid = Some ord"
    by (auto simp: on_fill_def Let_def split: option.splits if_splits)
  show ?thesis
  proof (cases "fid \<in> o_processed_fill_ids ord")
    case True
    with False ord assms show ?thesis by (auto simp: on_fill_def Let_def intro: duplicate)
  next
    case new: False
    with False ord assms obtain nc where nc: "d_add D (o_cum_qty ord) q = Some nc"
      by (auto simp: on_fill_def Let_def bind_eq_Some_conv split: if_splits)
    show ?thesis
    proof (cases "notional_contracts s oid")
      case None
      with False ord nc new assms show ?thesis
        by (auto simp: on_fill_def Let_def not_le not_less split: if_splits
            intro: refused committed [OF ord new])
    next
      case (Some c)
      with False ord nc new assms show ?thesis
        by (auto simp: on_fill_def Let_def not_le not_less bind_eq_Some_conv split: if_splits
            intro: refused committed [OF ord new])
    qed
  qed
qed

lemma commit_fill_cases:
  assumes "commit_fill D s oid ord p q ts fid new_cum = Some (s', u)"
  obtains avg contracts where
    "weighted_avg_price D ord p q new_cum = Some avg"
    "s' = (put_order s oid (ord\<lparr>o_processed_fill_ids := insert fid (o_processed_fill_ids ord),
                 o_cum_qty := new_cum, o_status := fill_status ord new_cum,
                 o_avg_price := Some avg, o_state_changed_at := Some ts\<rparr>))\<lparr>notional_contracts := contracts\<rparr>"
    "notional_contracts s oid = None \<Longrightarrow> contracts = notional_contracts s"
    "\<And>c. notional_contracts s oid = Some c \<Longrightarrow> \<exists>n filled. d_mul D q p = Some n \<and>
       d_add D (filled_notional c) n = Some filled \<and>
       contracts = (notional_contracts s)(oid \<mapsto> c\<lparr>filled_notional := filled\<rparr>)"
    "u \<noteq> None"
  using assms
  by (cases "notional_contracts s oid")
    (auto simp: commit_fill_def bind_eq_Some_conv Let_def)

lemma fill_inv:
  assumes "dec_ordered D" and inv: "oms_inv D s" and "on_fill D s oid p q ts fid = Some (s', u)"
  shows "oms_inv D s'"
  using assms(3)
proof (cases rule: fill_cases)
  case (committed ord new_cum)
  note wf = oms_inv_orderD [OF inv committed(1)]
  from committed(9) show ?thesis
  proof (cases rule: commit_fill_cases)
    case (1 avg contracts)
    let ?r = "ord\<lparr>o_processed_fill_ids := insert fid (o_processed_fill_ids ord),
                 o_cum_qty := new_cum, o_status := fill_status ord new_cum,
                 o_avg_price := Some avg, o_state_changed_at := Some ts\<rparr>"
    have "o_cum_qty ord \<le> new_cum"
      using dec_ordered_addD [OF assms(1) committed(6)] committed(4) by simp
    with wf(1) have r: "order_wf oid ?r" by (auto simp: order_wf_def)
    show ?thesis
    proof (cases "notional_contracts s oid")
      case None
      with r committed(7) have "oms_inv D (put_order s oid ?r)"
        by (intro oms_inv_put [OF inv]) auto
      with 1(2,3) None show ?thesis by (simp add: put_order_def)
    next
      case (Some c)
      from 1(4) [OF Some] obtain n filled where n: "d_mul D q p = Some n"
        "d_add D (filled_notional c) n = Some filled"
        "contracts = (notional_contracts s)(oid \<mapsto> c\<lparr>filled_notional := filled\<rparr>)" by blast
      have "filled \<le> requested_notional c" using committed(8) [OF Some] n by auto
      moreover have "filled_notional c \<le> filled"
        using dec_ordered_addD [OF assms(1) n(2)] dec_ordered_mulD [OF assms(1) n(1)] committed(4,5)
        by simp
      ultimately have "contract_wf D ?r (c\<lparr>filled_notional := filled\<rparr>)"
        using wf(3) [OF Some] by (auto simp: contract_wf_def expected_notional_def)
      from oms_inv_put_contract [OF inv r this] show ?thesis by (simp add: 1(2) n(3))
    qed
  qed
qed (use inv in auto)

subsubsection \<open>Events and steps\<close>

lemma handle_event_inv:
  assumes "dec_ordered D" and "oms_inv D s" and "handle_event D s ev = Some (s', u)"
  shows "oms_inv D s'"
proof (cases ev)
  case (OrderAck oid ts)
  then show ?thesis using assms on_order_ack_inv [of D s oid ts] by simp
next
  case (OrderReject oid m ts)
  then show ?thesis using assms on_order_reject_inv [of D s oid m ts] by simp
next
  case (OrderCanceled oid ts)
  then show ?thesis using assms on_order_canceled_inv [of D s oid ts] by simp
next
  case Fill
  with assms fill_inv show ?thesis by auto
next
  case OrderModified
  with assms modification_inv show ?thesis by auto
next
  case OrderNew
  with assms on_order_new_inv show ?thesis by auto
qed (use assms in auto)

lemma event_inv:
  assumes "dec_ordered D" and "oms_inv D s" and "on_execution_event D s ev = Some (s', u)"
  shows "oms_inv D s'"
  using assms handle_event_inv [OF assms(1,2)]
  by (auto simp: on_execution_event_def split: option.splits if_splits)

lemma oms_step_inv: "oms_step D s s' \<Longrightarrow> dec_ordered D \<Longrightarrow> oms_inv D s \<Longrightarrow> oms_inv D s'"
  by (induction rule: oms_step.induct)
    (auto intro: register_order_inv register_contract_inv event_inv modification_inv
      set_limit_price_inv set_venue_order_id_inv replace_venue_order_id_inv
      set_rejection_reason_inv set_last_error_inv)

lemma oms_reachable_inv_raw: "oms_reachable D s \<Longrightarrow> dec_ordered D \<Longrightarrow> oms_inv D s"
  by (induction rule: oms_reachable.induct) (auto intro: oms_step_inv)

end
