(* ===== verification/Event_Interface.thy ===== *)
theory Event_Interface
  imports Ports
begin

text \<open>
  What the engine relies on in a component that consumes execution events (the order manager and the
  portfolio), in the states \<open>inv\<close> it can be in: the fill identities it has processed are never forgotten, a fill whose identity it has
  processed changes nothing, and the evidence it keeps for reconciliation is never dropped. The
  consequences for a whole stream of events are proved once, inside the locale.
\<close>

text \<open>Feeding a list of events to a consumer; \<open>None\<close> is a panic in one of them.\<close>

fun run_events :: "('s \<Rightarrow> execution_event \<Rightarrow> 's option) \<Rightarrow> 's \<Rightarrow> execution_event list \<Rightarrow> 's option" where
  "run_events step s [] = Some s"
| "run_events step s (e # es) = (case step s e of None \<Rightarrow> None | Some s' \<Rightarrow> run_events step s' es)"

text \<open>A fill report that is complete and whose identity the consumer in state \<open>s\<close> has processed.\<close>

fun known_fill :: "('s \<Rightarrow> order_id \<Rightarrow> string set) \<Rightarrow> 's \<Rightarrow> execution_event \<Rightarrow> bool" where
  "known_fill seen s (Fill oid p q ts fid) \<longleftrightarrow> 0 < p \<and> 0 < q \<and> fid \<noteq> [] \<and> fid \<in> seen s oid"
| "known_fill seen s _ \<longleftrightarrow> False"

lemma run_events_append:
  "run_events step s (xs @ ys) =
     (case run_events step s xs of None \<Rightarrow> None | Some s' \<Rightarrow> run_events step s' ys)"
  by (induction xs arbitrary: s) (auto split: option.splits)

locale event_consumer =
  fixes inv :: "'s \<Rightarrow> bool"
    and step :: "'s \<Rightarrow> execution_event \<Rightarrow> 's option"
    and seen :: "'s \<Rightarrow> order_id \<Rightarrow> string set"
    and evidence :: "'s \<Rightarrow> reconciliation_exception list"
  assumes inv_step: "inv s \<Longrightarrow> step s e = Some s' \<Longrightarrow> inv s'"
    and seen_mono: "step s e = Some s' \<Longrightarrow> seen s oid \<subseteq> seen s' oid"
    and evidence_grows: "step s e = Some s' \<Longrightarrow> \<exists>xs. evidence s' = evidence s @ xs"
    and replay: "inv s \<Longrightarrow> known_fill seen s e \<Longrightarrow> step s e = Some s"
begin

lemma run_inv: "inv s \<Longrightarrow> run_events step s es = Some s' \<Longrightarrow> inv s'"
  by (induction es arbitrary: s) (auto dest: inv_step split: option.splits)

lemma run_seen_mono: "run_events step s es = Some s' \<Longrightarrow> seen s oid \<subseteq> seen s' oid"
proof (induction es arbitrary: s)
  case (Cons e es)
  then obtain t where "step s e = Some t" "run_events step t es = Some s'"
    by (auto split: option.splits)
  with Cons.IH seen_mono show ?case by blast
qed simp

lemma run_evidence: "run_events step s es = Some s' \<Longrightarrow> \<exists>xs. evidence s' = evidence s @ xs"
proof (induction es arbitrary: s)
  case (Cons e es)
  then obtain t where t: "step s e = Some t" "run_events step t es = Some s'"
    by (auto split: option.splits)
  from Cons.IH [OF t(2)] evidence_grows [OF t(1)] show ?case by auto
qed simp

lemma run_replay: "inv s \<Longrightarrow> list_all (known_fill seen s) es \<Longrightarrow> run_events step s es = Some s"
  by (induction es) (auto simp: replay)

lemma known_fill_mono: "run_events step s es = Some s' \<Longrightarrow> known_fill seen s e \<Longrightarrow> known_fill seen s' e"
  using run_seen_mono by (cases e) fastforce+

lemma run_then_replay:
  assumes "inv s" and "list_all (known_fill seen s) fs" and "run_events step s es = Some s'"
  shows "run_events step s' fs = Some s'"
  using assms(2) known_fill_mono [OF assms(3)]
  by (intro run_replay [OF run_inv [OF assms(1,3)]]) (auto simp: list_all_iff)

end

end
