(* ===== verification/OMS_Properties.thy ===== *)
theory OMS_Properties
  imports OMS_Invariant Event_Interface
begin

text \<open>
  The order manager as a consumer of execution events, and the properties of the status machine and
  of the fill ledger.
\<close>

subsection \<open>The event interface\<close>

definition oms_consume :: "dec_ops \<Rightarrow> oms_core \<Rightarrow> execution_event \<Rightarrow> oms_core option" where
  "oms_consume D s ev = map_option fst (on_execution_event D s ev)"

definition oms_seen :: "oms_core \<Rightarrow> order_id \<Rightarrow> string set" where
  "oms_seen s oid = (case orders s oid of None \<Rightarrow> {} | Some r \<Rightarrow> o_processed_fill_ids r)"

text \<open>
  How one event may change an order record: cumulative quantity and processed fills grow, a final
  status other than \<open>Filled\<close> stays, and identity, symbol, side and registration data never change.
\<close>

definition record_le :: "oms_order_record \<Rightarrow> oms_order_record \<Rightarrow> bool" where
  "record_le r r' \<longleftrightarrow>
     o_order_id r' = o_order_id r \<and> o_client_order_id r' = o_client_order_id r \<and>
     o_symbol r' = o_symbol r \<and> o_side r' = o_side r \<and>
     o_processed_fill_ids r \<subseteq> o_processed_fill_ids r' \<and>
     (o_status r \<in> {Canceled, Rejected, OExpired, Replaced} \<longrightarrow> o_status r' = o_status r)"

definition oms_le :: "oms_core \<Rightarrow> oms_core \<Rightarrow> bool" where
  "oms_le s s' \<longleftrightarrow>
     (\<forall>oid r. orders s oid = Some r \<longrightarrow> (\<exists>r'. orders s' oid = Some r' \<and> record_le r r')) \<and>
     (\<exists>xs. reconciliation_exceptions s' = reconciliation_exceptions s @ xs)"

lemma record_le_refl [simp]: "record_le r r"
  by (simp add: record_le_def)

lemma record_le_trans: "record_le a b \<Longrightarrow> record_le b c \<Longrightarrow> record_le a c"
  by (auto simp: record_le_def)

lemma oms_le_refl [simp]: "oms_le s s"
  by (auto simp: oms_le_def)

lemma oms_le_orderD: "oms_le s s' \<Longrightarrow> orders s oid = Some r \<Longrightarrow> \<exists>r'. orders s' oid = Some r' \<and> record_le r r'"
  by (simp add: oms_le_def)

lemma oms_le_trans:
  assumes "oms_le a b" and "oms_le b c"
  shows "oms_le a c"
proof -
  have "\<exists>r'. orders c oid = Some r' \<and> record_le r r'" if "orders a oid = Some r" for oid r
    using oms_le_orderD [OF assms(1) that] oms_le_orderD [OF assms(2)] record_le_trans by blast
  moreover have "\<exists>xs. reconciliation_exceptions c = reconciliation_exceptions a @ xs"
    using assms by (auto simp: oms_le_def)
  ultimately show ?thesis by (simp add: oms_le_def)
qed

lemma oms_le_record_exception [simp]: "oms_le s (record_exception s oid m ev)"
  by (auto simp: oms_le_def)

lemma oms_le_put:
  assumes "\<And>ord. orders s oid = Some ord \<Longrightarrow> record_le ord r"
  shows "oms_le s (put_order s oid r)"
  using assms by (auto simp: oms_le_def)

lemma oms_le_contracts [simp]: "oms_le s (t\<lparr>notional_contracts := cs\<rparr>) = oms_le s t"
  by (simp add: oms_le_def)

lemma register_order_le: "oms_le s (fst (register_order s p))"
  by (auto simp: register_order_def intro: oms_le_put split: option.splits)

lemma set_limit_price_le: "oms_le s (fst (set_limit_price s oid p))"
  by (auto simp: set_limit_price_def record_le_def intro!: oms_le_put split: option.splits)

lemma on_order_new_le: "oms_le s (on_order_new s p rp ts)"
proof -
  define s1 where "s1 = fst (register_order s p)"
  define s2 where "s2 = (case orders s1 (rp_order_id p) of None \<Rightarrow> s1
    | Some ord \<Rightarrow> put_order s1 (rp_order_id p) (ord\<lparr>o_state_changed_at := Some ts\<rparr>))"
  have "oms_le s s1" by (simp add: s1_def register_order_le)
  moreover have "oms_le s1 s2"
    by (auto simp: s2_def record_le_def intro!: oms_le_put split: option.splits)
  moreover have "oms_le s2 (on_order_new s p rp ts)"
    by (auto simp: on_order_new_def Let_def s1_def [symmetric] s2_def [symmetric] set_limit_price_le
        split: option.splits)
  ultimately show ?thesis by (blast intro: oms_le_trans)
qed

lemma modification_le:
  assumes "apply_order_modification D s oid nq np ts = Some (s', u)"
  shows "oms_le s s'"
  using assms
proof (cases rule: modification_cases)
  case (plain ord)
  then show ?thesis by (auto simp: record_le_def modify_record_status modify_record_def Let_def
        intro!: oms_le_put split: option.splits)
next
  case (contract ord c lp diff rest requested)
  then show ?thesis by (auto simp: record_le_def modify_record_status modify_record_def Let_def
        intro!: oms_le_put split: option.splits)
qed auto

lemma fill_le:
  assumes "on_fill D s oid p q ts fid = Some (s', u)"
  shows "oms_le s s'"
  using assms
proof (cases rule: fill_cases)
  case (committed ord new_cum)
  from committed(9) show ?thesis
  proof (cases rule: commit_fill_cases)
    case 1
    with committed(1) show ?thesis
      by (auto simp: record_le_def fill_status_def Let_def intro!: oms_le_put)
  qed
qed auto

lemma handle_event_le: "handle_event D s ev = Some (s', u) \<Longrightarrow> oms_le s s'"
  by (cases ev)
    (auto simp: on_order_ack_def on_order_reject_def on_order_canceled_def Let_def record_le_def
      intro: fill_le modification_le on_order_new_le intro!: oms_le_put split: option.splits if_splits)

lemma event_le: "on_execution_event D s ev = Some (s', u) \<Longrightarrow> oms_le s s'"
  using handle_event_le by (auto simp: on_execution_event_def split: option.splits if_splits)

lemma fill_replay:
  assumes "0 < p" "0 < q" "fid \<noteq> []" "fid \<in> oms_seen s oid"
  shows "on_execution_event D s (Fill oid p q ts fid) = Some (s, None)"
  using assms
  by (auto simp: oms_seen_def on_execution_event_def on_fill_def Let_def split: option.splits)

interpretation oms: event_consumer "\<lambda>_. True" "oms_consume D" oms_seen reconciliation_exceptions for D
proof unfold_locales
  fix s e s' oid
  assume "oms_consume D s e = Some s'"
  then obtain u where "on_execution_event D s e = Some (s', u)" by (auto simp: oms_consume_def)
  then have le: "oms_le s s'" by (rule event_le)
  then show "oms_seen s oid \<subseteq> oms_seen s' oid"
    by (cases "orders s oid") (auto simp: oms_le_def oms_seen_def record_le_def dest!: spec)
  from le show "\<exists>xs. reconciliation_exceptions s' = reconciliation_exceptions s @ xs"
    by (simp add: oms_le_def)
next
  fix s e
  assume "known_fill oms_seen s e"
  then show "oms_consume D s e = Some s"
    by (cases e) (auto simp: oms_consume_def fill_replay)
qed simp

subsection \<open>The fill ledger\<close>

text \<open>The fills of one order that the manager accepted while consuming a stream, as (price, quantity).\<close>

fun accepted_fill :: "execution_event \<Rightarrow> order_status order_update option \<Rightarrow> order_id \<Rightarrow> (price \<times> quantity) list" where
  "accepted_fill (Fill oid' p q ts fid) (Some u) oid = (if oid' = oid then [(p, q)] else [])"
| "accepted_fill _ _ oid = []"

fun accepted_fills :: "dec_ops \<Rightarrow> oms_core \<Rightarrow> execution_event list \<Rightarrow> order_id \<Rightarrow> (price \<times> quantity) list" where
  "accepted_fills D s [] oid = []"
| "accepted_fills D s (ev # evs) oid =
     (case on_execution_event D s ev of
        None \<Rightarrow> []
      | Some (s', u) \<Rightarrow> accepted_fill ev u oid @ accepted_fills D s' evs oid)"

definition ledger_ok :: "oms_order_record \<Rightarrow> (price \<times> quantity) list \<Rightarrow> bool" where
  "ledger_ok r fs \<longleftrightarrow>
     list_all (\<lambda>(p, q). 0 < p \<and> 0 < q) fs \<and> o_cum_qty r = sum_list (map snd fs) \<and>
     (case o_avg_price r of
        None \<Rightarrow> fs = []
      | Some a \<Rightarrow> fs \<noteq> [] \<and> a * o_cum_qty r = sum_list (map (\<lambda>(p, q). p * q) fs))"

lemma ledger_ok_cong:
  "o_cum_qty r' = o_cum_qty r \<Longrightarrow> o_avg_price r' = o_avg_price r \<Longrightarrow> ledger_ok r' fs = ledger_ok r fs"
  by (cases "o_avg_price r") (simp_all add: ledger_ok_def)

text \<open>Events other than an accepted fill of the order leave its quantity and average price alone.\<close>

definition same_ledger :: "oms_core \<Rightarrow> oms_core \<Rightarrow> order_id \<Rightarrow> bool" where
  "same_ledger s s' oid \<longleftrightarrow>
     (\<forall>r. orders s oid = Some r \<longrightarrow>
        (\<exists>r'. orders s' oid = Some r' \<and> o_cum_qty r' = o_cum_qty r \<and> o_avg_price r' = o_avg_price r))"

lemma same_ledger_orders [simp]: "orders s' = orders s \<Longrightarrow> same_ledger s s' oid"
  by (simp add: same_ledger_def)

lemma same_ledger_trans: "same_ledger a b oid \<Longrightarrow> same_ledger b c oid \<Longrightarrow> same_ledger a c oid"
  by (force simp: same_ledger_def)

lemma same_ledger_put:
  "(\<And>ord. orders s oid' = Some ord \<Longrightarrow> o_cum_qty r = o_cum_qty ord \<and> o_avg_price r = o_avg_price ord)
   \<Longrightarrow> same_ledger s (put_order s oid' r) oid"
  by (auto simp: same_ledger_def)

lemma same_ledger_contracts [simp]: "same_ledger s (t\<lparr>notional_contracts := cs\<rparr>) oid = same_ledger s t oid"
  by (simp add: same_ledger_def)

lemma set_limit_price_ledger: "same_ledger s (fst (set_limit_price s oid' p)) oid"
  by (auto simp: set_limit_price_def intro: same_ledger_put split: option.splits)

lemma on_order_new_ledger: "same_ledger s (on_order_new s p rp ts) oid"
proof -
  define s1 where "s1 = fst (register_order s p)"
  define s2 where "s2 = (case orders s1 (rp_order_id p) of None \<Rightarrow> s1
    | Some ord \<Rightarrow> put_order s1 (rp_order_id p) (ord\<lparr>o_state_changed_at := Some ts\<rparr>))"
  have "same_ledger s s1 oid"
    by (auto simp: s1_def register_order_def intro: same_ledger_put split: option.splits)
  moreover have "same_ledger s1 s2 oid"
    by (auto simp: s2_def intro: same_ledger_put split: option.splits)
  moreover have "same_ledger s2 (on_order_new s p rp ts) oid"
    by (auto simp: on_order_new_def Let_def s1_def [symmetric] s2_def [symmetric]
        set_limit_price_ledger split: option.splits)
  ultimately show ?thesis by (blast intro: same_ledger_trans)
qed

lemma modification_ledger:
  assumes "apply_order_modification D s oid' nq np ts = Some (s', u)"
  shows "same_ledger s s' oid"
  using assms by (cases rule: modification_cases) (auto intro!: same_ledger_put)

lemma fill_ledger_step:
  assumes "dec_exact D" and "on_fill D s oid' p q ts fid = Some (s', u)"
    and "orders s oid = Some r" and "ledger_ok r fs"
  shows "\<exists>r'. orders s' oid = Some r' \<and> ledger_ok r' (fs @ accepted_fill (Fill oid' p q ts fid) u oid)"
  using assms(2)
proof (cases rule: fill_cases)
  case (committed ord new_cum)
  from committed(9) show ?thesis
  proof (cases rule: commit_fill_cases)
    case (1 avg contracts)
    obtain v where u: "u = Some v" using 1(5) by blast
    show ?thesis
    proof (cases "oid' = oid")
      case False
      with 1(2) assms(3,4) u show ?thesis by simp
    next
      case True
      with committed(1) assms(3) have ord: "ord = r" by simp
      have cum: "new_cum = o_cum_qty r + q"
        using dec_exactD(1) [OF assms(1) committed(6)] ord by simp
      have nonneg: "0 \<le> o_cum_qty r"
        using assms(4) by (fastforce simp: ledger_ok_def list_all_iff intro: sum_list_nonneg less_imp_le)
      have "avg * new_cum = (case o_avg_price r of None \<Rightarrow> 0 | Some a \<Rightarrow> a * o_cum_qty r) + p * q"
      proof (cases "o_avg_price r")
        case None
        with assms(4) have "o_cum_qty r = 0" by (simp add: ledger_ok_def)
        with None 1(1) ord cum show ?thesis by (simp add: weighted_avg_price_def)
      next
        case (Some a)
        with 1(1) ord cum nonneg committed(4) obtain wp wf w where
          "d_mul D a (o_cum_qty r) = Some wp" "d_mul D p q = Some wf" "d_add D wp wf = Some w"
          "d_div D w new_cum = Some avg"
          by (auto simp: weighted_avg_price_def bind_eq_Some_conv)
        note this(1,2) [THEN dec_exactD(3) [OF assms(1)]] this(3) [THEN dec_exactD(1) [OF assms(1)]]
          this(4) [THEN dec_exactD(4) [OF assms(1)]] this(4) [THEN dec_exactD(5) [OF assms(1)]]
        with Some show ?thesis by simp
      qed
      then have "ledger_ok (ord\<lparr>o_processed_fill_ids := insert fid (o_processed_fill_ids ord),
                 o_cum_qty := new_cum, o_status := fill_status ord new_cum,
                 o_avg_price := Some avg, o_state_changed_at := Some ts\<rparr>) (fs @ [(p, q)])"
        using assms(4) cum committed(4,5) by (auto simp: ledger_ok_def split: option.splits)
      with True 1(2) u show ?thesis by simp
    qed
  qed
qed (use assms in auto)

lemma event_ledger_step:
  assumes "dec_exact D" and "on_execution_event D s ev = Some (s', u)"
    and "orders s oid = Some r" and "ledger_ok r fs"
  shows "\<exists>r'. orders s' oid = Some r' \<and> ledger_ok r' (fs @ accepted_fill ev u oid)"
proof (cases "handle_event D s ev = Some (s', u)")
  case False
  with assms show ?thesis
    by (cases ev) (auto simp: on_execution_event_def split: if_splits)
next
  case True
  show ?thesis
  proof (cases "\<exists>o' p q ts f. ev = Fill o' p q ts f")
    case True
    with \<open>handle_event D s ev = Some (s', u)\<close> fill_ledger_step [OF assms(1) _ assms(3,4)]
    show ?thesis by auto
  next
    case no_fill: False
    with True have "same_ledger s s' oid"
      by (cases ev)
        (auto simp: on_order_ack_def on_order_reject_def on_order_canceled_def Let_def
          intro: on_order_new_ledger modification_ledger intro!: same_ledger_put
          split: option.splits if_splits)
    moreover have "accepted_fill ev u oid = []" using no_fill by (cases ev) auto
    moreover obtain r' where "orders s' oid = Some r'" "o_cum_qty r' = o_cum_qty r"
      "o_avg_price r' = o_avg_price r"
      using assms(3) calculation(1) by (auto simp: same_ledger_def)
    ultimately show ?thesis using assms(4) ledger_ok_cong [of r' r fs] by simp
  qed
qed

lemma run_ledger:
  assumes "dec_exact D" and "run_events (oms_consume D) s evs = Some s'"
    and "orders s oid = Some r" and "ledger_ok r fs"
  shows "\<exists>r'. orders s' oid = Some r' \<and> ledger_ok r' (fs @ accepted_fills D s evs oid)"
  using assms(2-)
proof (induction evs arbitrary: s r fs)
  case (Cons ev evs)
  then obtain t where "oms_consume D s ev = Some t" and run: "run_events (oms_consume D) t evs = Some s'"
    by (auto split: option.splits)
  then obtain u where t: "on_execution_event D s ev = Some (t, u)" by (auto simp: oms_consume_def)
  from event_ledger_step [OF assms(1) t Cons.prems(2,3)]
  obtain r1 where r1: "orders t oid = Some r1" "ledger_ok r1 (fs @ accepted_fill ev u oid)" by blast
  from Cons.IH [OF run r1] t show ?case by simp
qed auto

subsection \<open>Refusals\<close>

lemma event_refused_frame:
  assumes "on_execution_event D s ev = Some (s', u)"
    and "reconciliation_exceptions s' \<noteq> reconciliation_exceptions s"
    and "\<And>oid cid acc sm sd q rp ap ts v sid. ev \<noteq> OrderNew oid cid acc sm sd q rp ap ts v sid"
  shows "orders s' = orders s \<and> notional_contracts s' = notional_contracts s \<and> u = None"
proof (cases "handle_event D s ev = Some (s', u)")
  case False
  with assms(1) show ?thesis by (auto simp: on_execution_event_def split: option.splits if_splits)
next
  case True
  show ?thesis
  proof (cases ev)
    case (Fill oid p q ts fid)
    with True have "on_fill D s oid p q ts fid = Some (s', u)" by simp
    then show ?thesis
    proof (cases rule: fill_cases)
      case (committed ord new_cum)
      from committed(9) show ?thesis by (cases rule: commit_fill_cases) (use assms(2) in auto)
    qed auto
  next
    case (OrderModified oid nq np ts)
    with True have "apply_order_modification D s oid nq np ts = Some (s', u)" by simp
    then show ?thesis by (cases rule: modification_cases) (use assms(2) in auto)
  qed (use True assms(2,3) in \<open>auto simp: on_order_ack_def on_order_reject_def on_order_canceled_def
      Let_def split: option.splits if_splits\<close>)
qed

lemma run_le: "run_events (oms_consume D) s evs = Some s' \<Longrightarrow> oms_le s s'"
proof (induction evs arbitrary: s)
  case (Cons ev evs)
  then obtain t where t: "oms_consume D s ev = Some t" "run_events (oms_consume D) t evs = Some s'"
    by (auto split: option.splits)
  then obtain u where "on_execution_event D s ev = Some (t, u)" by (auto simp: oms_consume_def)
  from event_le [OF this] Cons.IH [OF t(2)] show ?case by (rule oms_le_trans)
qed auto

subsection \<open>A sample order\<close>

definition sample_params :: register_order_params where
  "sample_params = \<lparr>rp_order_id = OrderId ''o1'', rp_client_order_id = Some ''c1'', rp_account_id = None,
     rp_symbol = Symbol ''BTCUSDT'', rp_side = Buy, rp_qty = 10, rp_venue = Some BINANCE,
     rp_strategy_id = Some ''s1''\<rparr>"

definition sample_oms :: oms_core where
  "sample_oms = fst (register_order oms_new sample_params)"

lemma sample_oms_orders:
  "orders sample_oms = [OrderId ''o1'' \<mapsto> order_record_new sample_params]"
  "notional_contracts sample_oms = Map.empty"
  by (simp_all add: sample_oms_def register_order_def oms_new_def sample_params_def)

lemma sample_oms_reachable: "oms_reachable exact_dec sample_oms"
  unfolding sample_oms_def by (rule reach_step [OF reach_new]) (rule step_register)

definition sample_filled :: oms_core where
  "sample_filled = put_order sample_oms (OrderId ''o1'')
     ((order_record_new sample_params)\<lparr>o_processed_fill_ids := {''f1''}, o_cum_qty := 4,
        o_status := PartiallyFilled, o_avg_price := Some 100, o_state_changed_at := Some 7\<rparr>)"

lemma sample_fill:
  "on_execution_event exact_dec sample_oms (Fill (OrderId ''o1'') 100 4 7 ''f1'') =
     Some (sample_filled,
       Some \<lparr>u_order_id = OrderId ''o1'', u_status = PartiallyFilled, u_cum_qty = 4,
         u_avg_price = Some 100, u_previous_status = New\<rparr>)"
  by (simp add: on_execution_event_def on_fill_def sample_oms_orders order_record_new_def
      sample_params_def commit_fill_def weighted_avg_price_def fill_status_def order_update_of_def
      Let_def put_order_def sample_filled_def)

lemma sample_fill_consume:
  "oms_consume exact_dec sample_oms (Fill (OrderId ''o1'') 100 4 7 ''f1'') = Some sample_filled"
  by (simp add: oms_consume_def sample_fill)

lemma sample_filled_seen: "''f1'' \<in> oms_seen sample_filled (OrderId ''o1'')"
  by (simp add: sample_filled_def oms_seen_def)

lemma sample_accepted_fills:
  "accepted_fills exact_dec sample_oms [Fill (OrderId ''o1'') 100 4 7 ''f1''] (OrderId ''o1'') = [(100, 4)]"
  by (simp add: sample_fill)

subsection \<open>Behaviour at the edges\<close>

text \<open>
  A new-order notice that conflicts with the registered order is refused as a registration, yet its
  price and time stamp are still written into the registered order.
\<close>

lemma order_new_conflict_overwrites:
  assumes "orders s (rp_order_id p) = Some r" and "\<not> same_payload r p"
    and "notional_contracts s (rp_order_id p) = None" and "0 < lp"
  shows "orders (on_order_new s p (Some lp) ts) (rp_order_id p) =
    Some (r\<lparr>o_state_changed_at := Some ts, o_limit_price := Some lp\<rparr>)"
  using assms by (simp add: on_order_new_def register_order_def set_limit_price_def)

text \<open>
  A filled order can be enlarged by a modification: its status stays \<open>Filled\<close>, and the next fill moves
  it back to \<open>PartiallyFilled\<close>.
\<close>

lemma filled_order_reopens:
  assumes "o_status r = Filled" and "o_cum_qty r < q"
  shows "o_status (modify_record r q np ts) = Filled"
    and "new_cum < q \<Longrightarrow> fill_status (modify_record r q np ts) new_cum = PartiallyFilled"
  using assms by (simp_all add: modify_record_status fill_status_def Let_def)

text \<open>
  Registering the notional contract of an order again, at the same price, forgets the notional its
  fills have already used.
\<close>

lemma contract_reregistration_resets:
  assumes "orders s oid = Some r" and "o_side r = Buy" and "0 < lp" and "o_limit_price r = Some lp"
    and "d_mul D (o_qty r) lp = Some n"
  shows "\<exists>s' c. register_notional_fill_contract D s oid lp False = Some (s', True) \<and>
    notional_contracts s' oid = Some c \<and> filled_notional c = 0 \<and> requested_notional c = n"
  using assms by (simp add: register_notional_fill_contract_def)

subsection \<open>Properties\<close>





text \<open>
  C3. Replaying fills is harmless: fills the manager had already processed can be delivered again at
  any later point of the stream, in any number and order, without changing its state.
\<close>

theorem oms_replay_idempotent:
  assumes "list_all (known_fill oms_seen s) fs" and "run_events (oms_consume D) s evs = Some s'"
  shows "run_events (oms_consume D) s' fs = Some s'"
  using oms.run_then_replay [OF TrueI assms] .

theorem oms_replay_idempotent_witness:
  "oms_consume exact_dec sample_oms (Fill (OrderId ''o1'') 100 4 7 ''f1'') = Some sample_filled \<and>
   run_events (oms_consume exact_dec) sample_filled
     [Fill (OrderId ''o1'') 100 4 9 ''f1'', Fill (OrderId ''o1'') 100 4 7 ''f1''] = Some sample_filled"
proof (rule conjI [OF sample_fill_consume])
  show "run_events (oms_consume exact_dec) sample_filled
     [Fill (OrderId ''o1'') 100 4 9 ''f1'', Fill (OrderId ''o1'') 100 4 7 ''f1''] = Some sample_filled"
    by (rule oms_replay_idempotent [of sample_filled _ _ "[]"]) (simp_all add: sample_filled_seen)
qed

text \<open>
  C24. A canceled, rejected, expired or replaced order keeps that status through any stream of
  execution events, late fills included; no order disappears, no processed fill identity is
  forgotten and no reconciliation evidence is dropped.
\<close>

theorem terminal_status_absorbing:
  assumes "run_events (oms_consume D) s evs = Some s'" and "orders s oid = Some r"
  shows "(\<exists>xs. reconciliation_exceptions s' = reconciliation_exceptions s @ xs) \<and>
    (\<exists>r'. orders s' oid = Some r' \<and> o_processed_fill_ids r \<subseteq> o_processed_fill_ids r' \<and>
       (o_status r \<in> {Canceled, Rejected, OExpired, Replaced} \<longrightarrow> o_status r' = o_status r))"
  using run_le [OF assms(1)] assms(2) by (auto simp: oms_le_def record_le_def dest!: spec)

theorem terminal_status_absorbing_witness:
  "\<exists>s s' r'. orders s (OrderId ''o1'') \<noteq> None \<and>
     oms_consume exact_dec s (Fill (OrderId ''o1'') 100 4 7 ''f1'') = Some s' \<and>
     orders s' (OrderId ''o1'') = Some r' \<and> o_status r' = Canceled \<and> o_cum_qty r' = 4"
proof -
  let ?s = "fst (on_order_canceled sample_oms (OrderId ''o1'') 5)"
  let ?r = "(order_record_new sample_params)\<lparr>o_status := Canceled, o_state_changed_at := Some 5\<rparr>"
  have s: "orders ?s (OrderId ''o1'') = Some ?r" "notional_contracts ?s = Map.empty"
    by (simp_all add: on_order_canceled_def sample_oms_orders order_record_new_def Let_def)
  obtain s' where s': "oms_consume exact_dec ?s (Fill (OrderId ''o1'') 100 4 7 ''f1'') = Some s'"
    and cum: "\<forall>r'. orders s' (OrderId ''o1'') = Some r' \<longrightarrow> o_cum_qty r' = 4"
    using s by (simp add: oms_consume_def on_execution_event_def on_fill_def order_record_new_def
      sample_params_def commit_fill_def weighted_avg_price_def Let_def)
  have "run_events (oms_consume exact_dec) ?s [Fill (OrderId ''o1'') 100 4 7 ''f1''] = Some s'"
    using s' by simp
  from terminal_status_absorbing [OF this s(1)] obtain r' where
    "orders s' (OrderId ''o1'') = Some r'" "o_status r' = Canceled" by auto
  with s' cum s(1) show ?thesis by (metis option.distinct(1))
qed

text \<open>
  C25. A report the manager cannot apply is kept as evidence and applied to nothing: when an event
  other than a new-order notice adds a reconciliation exception, every order and every contract is
  as before and no update is published.
\<close>

theorem refused_event_changes_nothing:
  assumes "on_execution_event D s ev = Some (s', u)"
    and "reconciliation_exceptions s' \<noteq> reconciliation_exceptions s"
    and "\<And>oid cid acc sm sd q rp ap ts v sid. ev \<noteq> OrderNew oid cid acc sm sd q rp ap ts v sid"
  shows "orders s' = orders s \<and> notional_contracts s' = notional_contracts s \<and> u = None"
  using assms by (rule event_refused_frame)

theorem refused_event_changes_nothing_witness:
  "\<exists>s'. on_execution_event exact_dec sample_oms (Fill (OrderId ''o1'') 100 11 7 ''f1'') = Some (s', None) \<and>
     orders s' = orders sample_oms \<and> length (reconciliation_exceptions s') = 1"
proof -
  let ?ev = "Fill (OrderId ''o1'') 100 11 7 ''f1''"
  obtain s' where s': "on_execution_event exact_dec sample_oms ?ev = Some (s', None)"
    and ex: "reconciliation_exceptions s' \<noteq> reconciliation_exceptions sample_oms"
      "length (reconciliation_exceptions s') = 1"
    by (simp add: on_execution_event_def on_fill_def sample_oms_orders order_record_new_def
        sample_params_def Let_def) (simp add: sample_oms_def register_order_def oms_new_def sample_params_def)
  from refused_event_changes_nothing [OF s' ex(1)] s' ex(2) show ?thesis by auto
qed

end
