(* ===== verification/OMS_Recovery.thy ===== *)
theory OMS_Recovery
  imports OMS_Invariant
begin

text \<open>
  The part of the order manager that leaves and enters the process
  (\<open>risk-control/oms-core/src/lib.rs\<close>): queries, checkpoints, reconciliation against the orders a
  venue reports open, and the \<open>ports::OrderManager\<close> implementation with its status conversions.

  Functions that iterate over a hash map take the list of its keys in iteration order
  (\<open>keys_of\<close> says that a list is one).
\<close>

definition keys_of :: "('k \<rightharpoonup> 'v) \<Rightarrow> 'k list \<Rightarrow> bool" where
  "keys_of m ks \<longleftrightarrow> distinct ks \<and> set ks = dom m"

subsection \<open>Queries\<close>

definition get_open_orders_by_strategy :: "oms_core \<Rightarrow> order_id list \<Rightarrow> string \<Rightarrow> oms_order_record list" where
  "get_open_orders_by_strategy s ks sid =
     filter (\<lambda>r. status_open (o_status r) \<and> o_strategy_id r = Some sid) (List.map_filter (orders s) ks)"

definition open_order_pairs_by_strategy :: "oms_core \<Rightarrow> order_id list \<Rightarrow> string \<Rightarrow> (order_id \<times> symbol) list" where
  "open_order_pairs_by_strategy s ks sid =
     List.map_filter (\<lambda>oid. case orders s oid of
         None \<Rightarrow> None
       | Some r \<Rightarrow> if status_open (o_status r) \<and> o_strategy_id r = Some sid
                   then Some (oid, o_symbol r) else None) ks"

definition count_open :: "oms_order_record \<Rightarrow> (string \<rightharpoonup> nat) \<Rightarrow> (string \<rightharpoonup> nat)" where
  "count_open r counts =
     (if status_open (o_status r) then
        (case o_strategy_id r of
           None \<Rightarrow> counts
         | Some sid \<Rightarrow> counts(sid \<mapsto> unwrap_or 0 (counts sid) + 1))
      else counts)"

definition open_counts_by_strategy :: "oms_core \<Rightarrow> order_id list \<Rightarrow> (string \<rightharpoonup> nat)" where
  "open_counts_by_strategy s ks = fold count_open (List.map_filter (orders s) ks) Map.empty"

definition get_open_orders :: "oms_core \<Rightarrow> order_id list \<Rightarrow> oms_order_record list" where
  "get_open_orders s ks = filter (\<lambda>r. status_open (o_status r)) (List.map_filter (orders s) ks)"

definition order_count :: "oms_core \<Rightarrow> nat" where
  "order_count s = card (dom (orders s))"

subsection \<open>Checkpoints\<close>

record 's oms_state =
  st_orders :: "order_id \<rightharpoonup> 's order_record"
  st_notional_contracts :: "order_id \<rightharpoonup> notional_fill_contract"
  st_reconciliation_exceptions :: "reconciliation_exception list"

definition export_checkpoint :: "oms_core \<Rightarrow> order_status oms_state" where
  "export_checkpoint s = \<lparr>
     st_orders = orders s, st_notional_contracts = notional_contracts s,
     st_reconciliation_exceptions = reconciliation_exceptions s\<rparr>"

definition legal_notional_overfill :: "oms_order_record \<Rightarrow> notional_fill_contract \<Rightarrow> bool" where
  "legal_notional_overfill r c \<longleftrightarrow>
     o_side r = Buy \<and> \<not> nc_reduce_only c \<and> 0 < nc_limit_price c \<and>
     filled_notional c \<le> requested_notional c"

text \<open>The first loop over the orders: the evidence to record and the error to return, if any.\<close>

definition check_order ::
  "order_status oms_state \<Rightarrow> order_id \<Rightarrow> oms_order_record \<Rightarrow> (order_id option \<times> message) + unit" where
  "check_order st key r =
     (if key \<noteq> o_order_id r
      then Err (None, MsgOrder ''OMS checkpoint key does not match order record'' (o_order_id r))
      else if o_qty r \<le> 0 \<or> o_cum_qty r < 0 \<or>
        o_qty r < o_cum_qty r \<and>
          \<not> is_some_and (legal_notional_overfill r) (st_notional_contracts st key)
      then Err (Some key, MsgOrder ''OMS checkpoint has invalid quantities for'' key)
      else if is_some_and blank (o_venue_order_id r) \<or> list_ex blank (o_venue_order_history r)
      then Err (Some key, MsgOrder ''OMS checkpoint has invalid venue identity for'' key)
      else if is_some_and (\<lambda>p. p \<le> 0) (o_limit_price r)
      then Err (Some key, MsgOrder ''OMS checkpoint has invalid limit price for'' key)
      else Ok ())"

fun check_orders ::
  "order_status oms_state \<Rightarrow> order_id list \<Rightarrow> (order_id option \<times> message) + unit" where
  "check_orders st [] = Ok ()"
| "check_orders st (k # ks) =
     (case st_orders st k of
        None \<Rightarrow> check_orders st ks
      | Some r \<Rightarrow> and_then (check_order st k r) (\<lambda>_. check_orders st ks))"

text \<open>The second loop, over the contracts; the expected notional may overflow and panic.\<close>

definition check_contract ::
  "dec_ops \<Rightarrow> order_status oms_state \<Rightarrow> order_id \<Rightarrow> notional_fill_contract
   \<Rightarrow> ((order_id option \<times> message) + unit) option" where
  "check_contract D st oid c =
     (case st_orders st oid of
        None \<Rightarrow> Some (Err (Some oid,
          MsgOrder ''OMS checkpoint notional contract references unknown order'' oid))
      | Some ord \<Rightarrow> do {
          diff \<leftarrow> d_sub D (approved_quantity c) (approved_filled_quantity c);
          rest \<leftarrow> d_mul D (max diff 0) (approved_limit_price c);
          expected \<leftarrow> d_add D (approved_filled_notional c) rest;
          Some (if o_side ord \<noteq> Buy \<or> nc_reduce_only c \<or> requested_notional c \<le> 0
                  \<or> filled_notional c < 0 \<or> requested_notional c < filled_notional c
                  \<or> approved_quantity c \<le> 0 \<or> approved_filled_quantity c < 0
                  \<or> approved_quantity c < approved_filled_quantity c
                  \<or> approved_filled_notional c < 0
                  \<or> requested_notional c < approved_filled_notional c
                  \<or> nc_limit_price c \<le> 0 \<or> approved_limit_price c \<le> 0
                  \<or> o_limit_price ord \<noteq> Some (nc_limit_price c)
                  \<or> requested_notional c \<noteq> expected
                then Err (Some oid, MsgOrder ''OMS checkpoint has invalid notional contract for'' oid)
                else Ok ()) })"

fun check_contracts ::
  "dec_ops \<Rightarrow> order_status oms_state \<Rightarrow> order_id list \<Rightarrow> ((order_id option \<times> message) + unit) option" where
  "check_contracts D st [] = Some (Ok ())"
| "check_contracts D st (k # ks) =
     (case st_notional_contracts st k of
        None \<Rightarrow> check_contracts D st ks
      | Some c \<Rightarrow> do {
          r \<leftarrow> check_contract D st k c;
          (case r of Inl e \<Rightarrow> Some (Err e) | Inr _ \<Rightarrow> check_contracts D st ks) })"

text \<open>\<open>oks\<close> and \<open>cks\<close> are the iteration orders of the checkpoint's two maps.\<close>

definition import_checkpoint ::
  "dec_ops \<Rightarrow> order_id list \<Rightarrow> order_id list \<Rightarrow> oms_core \<Rightarrow> order_status oms_state
   \<Rightarrow> (oms_core \<times> (message + unit)) option" where
  "import_checkpoint D oks cks s st =
     (let refuse = (\<lambda>(oid, reason). (record_exception s oid reason None, Err reason))
      in case check_orders st oks of
           Inl e \<Rightarrow> Some (refuse e)
         | Inr _ \<Rightarrow> do {
             r \<leftarrow> check_contracts D st cks;
             Some (case r of
                 Inl e \<Rightarrow> refuse e
               | Inr _ \<Rightarrow> (s\<lparr>orders := st_orders st, notional_contracts := st_notional_contracts st,
                            reconciliation_exceptions := st_reconciliation_exceptions st\<rparr>, Ok ())) })"

definition import_state :: "oms_core \<Rightarrow> (order_id \<rightharpoonup> oms_order_record) \<Rightarrow> oms_core" where
  "import_state s m = s\<lparr>orders := m\<rparr>"

subsection \<open>Reconciliation\<close>

text \<open>
  The local order of a venue order: by order id, else the first one iterated with its client order
  id. \<open>ks\<close> is the iteration order of the local orders.
\<close>

definition local_match :: "oms_core \<Rightarrow> order_id list \<Rightarrow> open_order \<Rightarrow> (order_id \<times> oms_order_record) option" where
  "local_match s ks ex =
     (case orders s (oo_order_id ex) of
        Some r \<Rightarrow> Some (oo_order_id ex, r)
      | None \<Rightarrow>
          (case oo_client_order_id ex of
             None \<Rightarrow> None
           | Some cid \<Rightarrow>
               List.find (\<lambda>(oid, r). o_client_order_id r = Some cid)
                 (List.map_filter (\<lambda>oid. map_option (Pair oid) (orders s oid)) ks)))"

fun to_ports_status :: "order_status \<Rightarrow> ports_order_status" where
  "to_ports_status Unknown = P_Unknown"
| "to_ports_status New = P_New"
| "to_ports_status Acknowledged = P_Acknowledged"
| "to_ports_status PartiallyFilled = P_PartiallyFilled"
| "to_ports_status Filled = P_Filled"
| "to_ports_status Canceled = P_Canceled"
| "to_ports_status Rejected = P_Rejected"
| "to_ports_status OExpired = P_Expired"
| "to_ports_status Replaced = P_Replaced"

text \<open>One turn of the loop over the venue's orders; the second component is \<open>matched_local_ids\<close>.\<close>

definition reconcile_one ::
  "oms_core \<Rightarrow> order_id list \<Rightarrow> open_order \<Rightarrow> reconciliation_report \<times> order_id set
   \<Rightarrow> reconciliation_report \<times> order_id set" where
  "reconcile_one s ks ex acc =
     (let (rep, matched) = acc;
          unknown = (rep\<lparr>exchange_only := exchange_only rep @ [oo_order_id ex]\<rparr>, matched)
      in case local_match s ks ex of
           None \<Rightarrow> unknown
         | Some (lid, r) \<Rightarrow>
             if \<not> status_open (o_status r) then unknown
             else (if oo_filled_quantity ex \<noteq> o_cum_qty r
                   then rep\<lparr>qty_mismatch := qty_mismatch rep @ [\<lparr>
                          qm_order_id = oo_order_id ex, qm_symbol = oo_symbol ex,
                          qm_exchange_filled = oo_filled_quantity ex, qm_local_filled = o_cum_qty r\<rparr>]\<rparr>
                   else rep, insert lid matched))"

definition local_only_orders :: "oms_core \<Rightarrow> order_id list \<Rightarrow> order_id set \<Rightarrow> local_only_order list" where
  "local_only_orders s ks matched =
     List.map_filter (\<lambda>oid. case orders s oid of
         None \<Rightarrow> None
       | Some r \<Rightarrow> if status_open (o_status r) \<and> oid \<notin> matched
                   then Some \<lparr>lo_order_id = oid, lo_symbol = o_symbol r,
                              lo_status = to_ports_status (o_status r)\<rparr>
                   else None) ks"

definition reconcile_with_exchange :: "oms_core \<Rightarrow> order_id list \<Rightarrow> open_order list \<Rightarrow> reconciliation_report" where
  "reconcile_with_exchange s ks exs =
     (let (rep, matched) = fold (reconcile_one s ks) exs
            (\<lparr>exchange_only = [], local_only = [], qty_mismatch = []\<rparr>, {})
      in rep\<lparr>local_only := local_only_orders s ks matched\<rparr>)"

subsection \<open>The order manager interface of the ports crate\<close>

fun from_ports_status :: "ports_order_status \<Rightarrow> order_status" where
  "from_ports_status P_Unknown = Unknown"
| "from_ports_status P_New = New"
| "from_ports_status P_Acknowledged = Acknowledged"
| "from_ports_status P_Accepted = Acknowledged"
| "from_ports_status P_PartiallyFilled = PartiallyFilled"
| "from_ports_status P_Filled = Filled"
| "from_ports_status P_Canceled = Canceled"
| "from_ports_status P_Rejected = Rejected"
| "from_ports_status P_Expired = OExpired"
| "from_ports_status P_Replaced = Replaced"

definition convert_record :: "('s \<Rightarrow> 't) \<Rightarrow> 's order_record \<Rightarrow> 't order_record" where
  "convert_record f r = \<lparr>
     o_order_id = o_order_id r, o_client_order_id = o_client_order_id r,
     o_account_id = o_account_id r, o_symbol = o_symbol r, o_side = o_side r, o_qty = o_qty r,
     o_limit_price = o_limit_price r, o_cum_qty = o_cum_qty r, o_avg_price = o_avg_price r,
     o_status = f (o_status r), o_venue = o_venue r, o_strategy_id = o_strategy_id r,
     o_revision = o_revision r, o_venue_order_id = o_venue_order_id r,
     o_venue_order_history = o_venue_order_history r, o_rejection_reason = o_rejection_reason r,
     o_last_error = o_last_error r, o_state_changed_at = o_state_changed_at r,
     o_processed_fill_ids = o_processed_fill_ids r\<rparr>"

definition om_order_risk_view :: "oms_core \<Rightarrow> order_id \<Rightarrow> order_risk_view option" where
  "om_order_risk_view s oid =
     (case orders s oid of
        None \<Rightarrow> None
      | Some r \<Rightarrow> Some \<lparr>
          rv_revision = o_revision r, rv_order_id = o_order_id r, rv_strategy_id = o_strategy_id r,
          rv_client_order_id = o_client_order_id r, rv_account_id = o_account_id r,
          rv_venue = o_venue r, rv_symbol = o_symbol r, rv_side = o_side r, rv_qty = o_qty r,
          rv_cum_qty = o_cum_qty r, rv_limit_price = o_limit_price r,
          rv_status = to_ports_status (o_status r)\<rparr>)"

definition om_on_execution_event ::
  "dec_ops \<Rightarrow> oms_core \<Rightarrow> execution_event \<Rightarrow> (oms_core \<times> ports_order_status order_update option) option" where
  "om_on_execution_event D s ev = do {
     (s', u) \<leftarrow> on_execution_event D s ev;
     Some (s', map_option (\<lambda>u. \<lparr>u_order_id = u_order_id u, u_status = to_ports_status (u_status u),
       u_cum_qty = u_cum_qty u, u_avg_price = u_avg_price u,
       u_previous_status = to_ports_status (u_previous_status u)\<rparr>) u) }"

definition om_export_state :: "oms_core \<Rightarrow> (order_id \<rightharpoonup> ports_order_record)" where
  "om_export_state s = map_option (convert_record to_ports_status) \<circ> orders s"

definition om_import_state :: "oms_core \<Rightarrow> (order_id \<rightharpoonup> ports_order_record) \<Rightarrow> oms_core" where
  "om_import_state s m = import_state s (map_option (convert_record from_ports_status) \<circ> m)"

definition om_export_checkpoint :: "oms_core \<Rightarrow> ports_order_status oms_state" where
  "om_export_checkpoint s =
     (let cp = export_checkpoint s
      in \<lparr>st_orders = map_option (convert_record to_ports_status) \<circ> st_orders cp,
          st_notional_contracts = st_notional_contracts cp,
          st_reconciliation_exceptions = st_reconciliation_exceptions cp\<rparr>)"

definition om_import_checkpoint ::
  "dec_ops \<Rightarrow> order_id list \<Rightarrow> order_id list \<Rightarrow> oms_core \<Rightarrow> ports_order_status oms_state
   \<Rightarrow> (oms_core \<times> (message + unit)) option" where
  "om_import_checkpoint D oks cks s cp =
     import_checkpoint D oks cks s
       \<lparr>st_orders = map_option (convert_record from_ports_status) \<circ> st_orders cp,
        st_notional_contracts = st_notional_contracts cp,
        st_reconciliation_exceptions = st_reconciliation_exceptions cp\<rparr>"

subsection \<open>Lemmas\<close>

lemma status_roundtrip [simp]: "from_ports_status (to_ports_status st) = st"
  by (cases st) simp_all

lemma convert_roundtrip [simp]:
  "convert_record from_ports_status (convert_record to_ports_status r) = r"
  by (simp add: convert_record_def)

lemma option_convert_roundtrip [simp]:
  "map_option (convert_record from_ports_status) (map_option (convert_record to_ports_status) x) = x"
  by (cases x) simp_all

lemma check_order_Ok_iff:
  "check_order st k r = Ok () \<longleftrightarrow>
     order_wf k r \<and>
     (o_cum_qty r \<le> o_qty r \<or> is_some_and (legal_notional_overfill r) (st_notional_contracts st k))"
  by (cases "o_limit_price r"; cases "o_venue_order_id r")
    (auto simp: check_order_def order_wf_def list_ex_iff)

lemma check_orders_Ok_iff:
  "check_orders st ks = Ok () \<longleftrightarrow>
     (\<forall>k r. k \<in> set ks \<longrightarrow> st_orders st k = Some r \<longrightarrow> check_order st k r = Ok ())"
  by (induction ks) (auto simp: and_then_Ok_iff split: option.splits)

lemma check_contract_Ok_iff:
  "check_contract D st k c = Some (Ok ()) \<longleftrightarrow>
     (\<exists>r. st_orders st k = Some r \<and> contract_wf D r c \<and> 0 < requested_notional c)"
proof (cases "st_orders st k")
  case (Some r)
  then show ?thesis
    by (auto simp: check_contract_def contract_wf_def expected_notional_def bind_eq_Some_conv not_le not_less)
qed (simp add: check_contract_def)

lemma not_Ok_unit: "r \<noteq> Ok () \<longleftrightarrow> (\<exists>e. r = Err e)"
  by (cases r) auto

lemma check_contracts_Ok_iff:
  "check_contracts D st ks = Some (Ok ()) \<longleftrightarrow>
     (\<forall>k c. k \<in> set ks \<longrightarrow> st_notional_contracts st k = Some c \<longrightarrow> check_contract D st k c = Some (Ok ()))"
proof (induction ks)
  case (Cons k ks)
  show ?case
  proof (cases "st_notional_contracts st k")
    case (Some c)
    with Cons.IH show ?thesis
      by (cases "check_contract D st k c = Some (Ok ())")
        (auto simp: bind_eq_Some_conv not_Ok_unit)
  qed (use Cons.IH in simp)
qed simp

text \<open>The two outcomes of an import.\<close>

lemma import_checkpoint_cases:
  assumes "import_checkpoint D oks cks s st = Some (s', res)"
  obtains (accepted) "res = Ok ()" "check_orders st oks = Ok ()" "check_contracts D st cks = Some (Ok ())"
      "s' = s\<lparr>orders := st_orders st, notional_contracts := st_notional_contracts st,
              reconciliation_exceptions := st_reconciliation_exceptions st\<rparr>"
  | (refused) oid m where "res = Err m" "s' = record_exception s oid m None"
proof (cases "check_orders st oks")
  case (Inl e)
  with assms refused show thesis by (auto simp: import_checkpoint_def split: prod.splits)
next
  case (Inr x)
  with assms obtain r where r: "check_contracts D st cks = Some r"
    by (auto simp: import_checkpoint_def bind_eq_Some_conv)
  show thesis
  proof (cases r)
    case (Inl e)
    with assms r Inr refused show thesis by (auto simp: import_checkpoint_def split: prod.splits)
  next
    case Inr': (Inr y)
    with assms r Inr accepted show thesis by (auto simp: import_checkpoint_def)
  qed
qed

lemma import_accepted_inv:
  assumes "keys_of (st_orders st) oks" and "keys_of (st_notional_contracts st) cks"
    and "check_orders st oks = Ok ()" and "check_contracts D st cks = Some (Ok ())"
  shows "oms_inv D \<lparr>orders = st_orders st, notional_contracts = st_notional_contracts st,
                    reconciliation_exceptions = xs\<rparr>"
  using assms
  by (fastforce simp: oms_inv_def keys_of_def check_orders_Ok_iff check_contracts_Ok_iff
      check_order_Ok_iff check_contract_Ok_iff dom_def)

lemma export_checks:
  assumes "oms_inv D s" and "\<And>oid c. notional_contracts s oid = Some c \<Longrightarrow> 0 < requested_notional c"
  shows "check_orders (export_checkpoint s) oks = Ok ()"
    and "check_contracts D (export_checkpoint s) cks = Some (Ok ())"
proof -
  have "order_wf k r \<and> (o_cum_qty r \<le> o_qty r \<or>
      is_some_and (legal_notional_overfill r) (notional_contracts s k))" if "orders s k = Some r" for k r
    using oms_inv_orderD [OF assms(1) that]
    by (cases "notional_contracts s k") (auto simp: legal_notional_overfill_def contract_wf_def)
  then show "check_orders (export_checkpoint s) oks = Ok ()"
    by (auto simp: check_orders_Ok_iff check_order_Ok_iff export_checkpoint_def)
  show "check_contracts D (export_checkpoint s) cks = Some (Ok ())"
    using oms_inv_contractD [OF assms(1)] assms(2)
    by (fastforce simp: check_contracts_Ok_iff check_contract_Ok_iff export_checkpoint_def)
qed

lemma import_export:
  assumes "oms_inv D s" and "\<And>oid c. notional_contracts s oid = Some c \<Longrightarrow> 0 < requested_notional c"
  shows "import_checkpoint D oks cks t (export_checkpoint s) = Some (s, Ok ())"
  using export_checks [OF assms]
  by (simp add: import_checkpoint_def export_checkpoint_def)

subsubsection \<open>Reconciliation\<close>

text \<open>The open local order that explains a venue order.\<close>

definition open_match :: "oms_core \<Rightarrow> order_id list \<Rightarrow> open_order \<Rightarrow> (order_id \<times> oms_order_record) option" where
  "open_match s ks ex =
     (case local_match s ks ex of
        None \<Rightarrow> None
      | Some (lid, r) \<Rightarrow> if status_open (o_status r) then Some (lid, r) else None)"

definition mismatch_of :: "oms_core \<Rightarrow> order_id list \<Rightarrow> open_order \<Rightarrow> quantity_mismatch option" where
  "mismatch_of s ks ex =
     (case open_match s ks ex of
        None \<Rightarrow> None
      | Some (lid, r) \<Rightarrow>
          if oo_filled_quantity ex = o_cum_qty r then None
          else Some \<lparr>qm_order_id = oo_order_id ex, qm_symbol = oo_symbol ex,
                     qm_exchange_filled = oo_filled_quantity ex, qm_local_filled = o_cum_qty r\<rparr>)"

lemma reconcile_fold:
  "fold (reconcile_one s ks) exs (rep, m) =
     (rep\<lparr>exchange_only := exchange_only rep @ map oo_order_id (filter (\<lambda>e. open_match s ks e = None) exs),
          qty_mismatch := qty_mismatch rep @ List.map_filter (mismatch_of s ks) exs\<rparr>,
      m \<union> fst ` set (List.map_filter (open_match s ks) exs))"
  by (induction exs arbitrary: rep m)
    (auto simp: reconcile_one_def open_match_def mismatch_of_def Let_def List.map_filter_simps
      split: option.splits)

lemma local_only_Nil_iff:
  "local_only_orders s ks matched = [] \<longleftrightarrow>
     (\<forall>oid r. oid \<in> set ks \<longrightarrow> orders s oid = Some r \<longrightarrow> status_open (o_status r) \<longrightarrow> oid \<in> matched)"
  by (fastforce simp: local_only_orders_def List.map_filter_def filter_empty_conv split: option.splits if_splits)

lemma set_map_filter_iff: "y \<in> set (List.map_filter f xs) \<longleftrightarrow> (\<exists>x. x \<in> set xs \<and> f x = Some y)"
  by (force simp: List.map_filter_def)

lemma map_filter_Nil_iff: "List.map_filter f xs = [] \<longleftrightarrow> (\<forall>x\<in>set xs. f x = None)"
  by (auto simp: List.map_filter_def filter_empty_conv)

lemma explained_iff:
  "open_match s ks e \<noteq> None \<and> mismatch_of s ks e = None \<longleftrightarrow>
     (\<exists>lid r. open_match s ks e = Some (lid, r) \<and> oo_filled_quantity e = o_cum_qty r)"
  by (cases "open_match s ks e") (auto simp: mismatch_of_def split: if_splits)

lemma reconcile_report:
  "exchange_only (reconcile_with_exchange s ks exs) =
     map oo_order_id (filter (\<lambda>e. open_match s ks e = None) exs)"
  "qty_mismatch (reconcile_with_exchange s ks exs) = List.map_filter (mismatch_of s ks) exs"
  "local_only (reconcile_with_exchange s ks exs) =
     local_only_orders s ks (fst ` set (List.map_filter (open_match s ks) exs))"
  by (simp_all add: reconcile_with_exchange_def reconcile_fold)

subsection \<open>Sample checkpoint\<close>

definition recovery_params :: register_order_params where
  "recovery_params = \<lparr>rp_order_id = OrderId ''o1'', rp_client_order_id = Some ''c1'', rp_account_id = None,
     rp_symbol = Symbol ''BTCUSDT'', rp_side = Buy, rp_qty = 10, rp_venue = Some BINANCE,
     rp_strategy_id = Some ''s1''\<rparr>"

definition recovery_oms :: oms_core where
  "recovery_oms = fst (register_order oms_new recovery_params)"

definition recovery_open_order :: open_order where
  "recovery_open_order = \<lparr>oo_order_id = OrderId ''v7'', oo_client_order_id = Some ''c1'',
     oo_symbol = Symbol ''BTCUSDT'', oo_side = Buy, oo_order_type = Limit,
     oo_original_quantity = 10, oo_remaining_quantity = 10, oo_filled_quantity = 0,
     oo_price = Some 100, oo_status = P_New, oo_created_at = 1, oo_updated_at = 1\<rparr>"

lemma recovery_oms_sel:
  "orders recovery_oms = [OrderId ''o1'' \<mapsto> order_record_new recovery_params]"
  "notional_contracts recovery_oms = Map.empty"
  by (simp_all add: recovery_oms_def register_order_def oms_new_def recovery_params_def)

lemma recovery_oms_reachable: "oms_reachable exact_dec recovery_oms"
  unfolding recovery_oms_def by (rule reach_step [OF reach_new]) (rule step_register)

subsection \<open>Properties\<close>



text \<open>
  A restore is all or nothing: whatever the checkpoint, either it is accepted and the manager
  holds exactly its content, which satisfies the state invariant, or it is refused with a reason that
  is also kept as evidence, and every order and contract is as before.
\<close>

theorem import_checkpoint_all_or_nothing:
  assumes "keys_of (st_orders st) oks" and "keys_of (st_notional_contracts st) cks"
    and "import_checkpoint D oks cks s st = Some (s', res)"
  shows "(res = Ok () \<and> oms_inv D s' \<and> export_checkpoint s' = st) \<or>
    (\<exists>m oid. res = Err m \<and> orders s' = orders s \<and> notional_contracts s' = notional_contracts s \<and>
       reconciliation_exceptions s' = reconciliation_exceptions s @
         [\<lparr>x_order_id = oid, x_reason = m, x_event = None\<rparr>])"
  using assms(3)
proof (cases rule: import_checkpoint_cases)
  case accepted
  from import_accepted_inv [OF assms(1,2) accepted(2,3)] accepted(1,4) show ?thesis
    by (cases s; cases st) (simp add: export_checkpoint_def)
next
  case (refused oid m)
  then show ?thesis by auto
qed

theorem import_checkpoint_all_or_nothing_witness:
  "oms_inv exact_dec recovery_oms \<and> (\<exists>m. import_checkpoint exact_dec [OrderId ''o2''] [] recovery_oms
     \<lparr>st_orders = [OrderId ''o2'' \<mapsto> order_record_new recovery_params], st_notional_contracts = Map.empty,
      st_reconciliation_exceptions = []\<rparr> = Some (record_exception recovery_oms None m None, Err m))"
proof
  let ?cp = "export_checkpoint recovery_oms"
  have imp: "import_checkpoint exact_dec [OrderId ''o1''] [] oms_new ?cp = Some (recovery_oms, Ok ())"
    by (rule import_export [OF oms_reachable_inv_raw [OF recovery_oms_reachable dec_ordered_exact_dec]])
      (simp add: recovery_oms_sel)
  have "keys_of (st_orders ?cp) [OrderId ''o1'']" "keys_of (st_notional_contracts ?cp) []"
    by (simp_all add: keys_of_def export_checkpoint_def recovery_oms_sel)
  from import_checkpoint_all_or_nothing [OF this imp] show "oms_inv exact_dec recovery_oms" by simp
qed (simp add: import_checkpoint_def check_order_def order_record_new_def recovery_params_def)

text \<open>
  C27. Reconciliation against the venue is exact: its report is empty precisely when every order the
  venue reports open is explained by an open local order with the same filled quantity, and every open
  local order explains some order the venue reports.
\<close>

theorem reconcile_exact:
  assumes "keys_of (orders s) ks"
  shows "\<not> has_discrepancies (reconcile_with_exchange s ks exs) \<longleftrightarrow>
    (\<forall>e\<in>set exs. \<exists>lid r. open_match s ks e = Some (lid, r) \<and> oo_filled_quantity e = o_cum_qty r) \<and>
    (\<forall>oid r. orders s oid = Some r \<longrightarrow> status_open (o_status r) \<longrightarrow>
       (\<exists>e r'. e \<in> set exs \<and> open_match s ks e = Some (oid, r')))"
proof -
  have ks: "oid \<in> set ks" if "orders s oid = Some r" for oid r
    using assms that by (auto simp: keys_of_def)
  have matched: "oid \<in> fst ` set (List.map_filter (open_match s ks) exs) \<longleftrightarrow>
    (\<exists>e r'. e \<in> set exs \<and> open_match s ks e = Some (oid, r'))" for oid
    by (force simp: set_map_filter_iff)
  have "filter (\<lambda>e. open_match s ks e = None) exs = [] \<and> List.map_filter (mismatch_of s ks) exs = [] \<longleftrightarrow>
    (\<forall>e\<in>set exs. \<exists>lid r. open_match s ks e = Some (lid, r) \<and> oo_filled_quantity e = o_cum_qty r)"
    unfolding map_filter_Nil_iff filter_empty_conv explained_iff [symmetric] by blast
  moreover have "local_only_orders s ks (fst ` set (List.map_filter (open_match s ks) exs)) = [] \<longleftrightarrow>
    (\<forall>oid r. orders s oid = Some r \<longrightarrow> status_open (o_status r) \<longrightarrow>
       (\<exists>e r'. e \<in> set exs \<and> open_match s ks e = Some (oid, r')))"
    unfolding local_only_Nil_iff using ks matched by blast
  ultimately show ?thesis
    by (simp add: has_discrepancies_def reconcile_report) blast
qed

theorem reconcile_exact_witness:
  "\<not> has_discrepancies (reconcile_with_exchange recovery_oms [OrderId ''o1''] [recovery_open_order])"
proof -
  have "open_match recovery_oms [OrderId ''o1''] recovery_open_order =
      Some (OrderId ''o1'', order_record_new recovery_params)"
    by (simp add: open_match_def local_match_def recovery_oms_sel recovery_open_order_def
        List.map_filter_simps order_record_new_def recovery_params_def)
  moreover have "keys_of (orders recovery_oms) [OrderId ''o1'']"
    by (simp add: keys_of_def recovery_oms_sel)
  ultimately show ?thesis
    using reconcile_exact [of recovery_oms "[OrderId ''o1'']" "[recovery_open_order]"]
    by (auto simp: recovery_open_order_def order_record_new_def recovery_oms_sel split: if_splits)
qed

end
