(* ===== verification/Risk_Reservations.thy ===== *)
theory Risk_Reservations
  imports OMS_Recovery
begin

text \<open>
  Admission metadata of the engine (\<open>market-core/engine/src/risk_reservations.rs\<close>): the valuation
  under which an intent was admitted is held from the queue until there is evidence that no further
  fill can arrive, and every admission decision sees the exposure of all held valuations.

  \<open>None\<close> outside a result is the panic of the one unchecked decimal subtraction
  (\<open>order.qty.0 - order.cum_qty.0\<close>); the other operations are the \<open>checked_\<close> ones. Iteration orders
  of hash maps are explicit key lists.
\<close>

subsection \<open>State\<close>

record valuation =
  v_client_order_id :: string
  v_strategy_id :: string
  v_account_id :: "account_id option"
  v_venue :: "venue_id option"
  v_symbol :: symbol
  v_side :: side
  v_asset_class :: asset_class
  v_product_type :: product_type
  v_quantity :: quantity
  v_unit_price :: price
  v_execution_price_bound :: price
  v_observed_unit_price :: price
  v_observed_revision :: "u32 option"

record reservation_checkpoint =
  rc_schema :: u32
  rc_queued :: "string \<rightharpoonup> valuation"
  rc_orders :: "order_id \<rightharpoonup> valuation"
  rc_awaiting_final_readback :: "order_id set"

definition default_checkpoint :: reservation_checkpoint where
  "default_checkpoint = \<lparr>rc_schema = 3, rc_queued = Map.empty, rc_orders = Map.empty,
     rc_awaiting_final_readback = {}\<rparr>"

record risk_reservations =
  rr_checkpoint :: reservation_checkpoint
  recovery_required :: bool
  checkpoint_supplied :: bool

definition reservations_default :: risk_reservations where
  "reservations_default = \<lparr>rr_checkpoint = default_checkpoint, recovery_required = False,
     checkpoint_supplied = False\<rparr>"

record admission_exposure =
  ae_account :: account_view
  ae_pending :: "pending_risk_exposure list"

definition risk_error :: "string \<Rightarrow> hft_error" where
  "risk_error m = Risk (Msg m)"

fun status_may_fill :: "ports_order_status \<Rightarrow> bool" where
  "status_may_fill P_New = True"
| "status_may_fill P_Acknowledged = True"
| "status_may_fill P_Accepted = True"
| "status_may_fill P_PartiallyFilled = True"
| "status_may_fill P_Unknown = True"
| "status_may_fill _ = False"

subsection \<open>Valuations\<close>

definition valuation_validate :: "dec_ops \<Rightarrow> valuation \<Rightarrow> hft_error + unit" where
  "valuation_validate D v =
     (if blank (v_client_order_id v) \<or> blank (v_strategy_id v) \<or> v_quantity v \<le> 0
        \<or> v_unit_price v \<le> 0 \<or> v_execution_price_bound v < 0
        \<or> v_unit_price v < v_execution_price_bound v
        \<or> v_side v = Buy \<and> v_execution_price_bound v \<noteq> v_unit_price v
        \<or> v_observed_unit_price v < v_unit_price v
        \<or> d_mul D (v_quantity v) (v_observed_unit_price v) = None
      then Err (risk_error ''invalid pending risk identity or valuation'') else Ok ())"

definition scaled_price :: "dec_ops \<Rightarrow> price \<Rightarrow> int \<Rightarrow> price option" where
  "scaled_price D p bps = do { x \<leftarrow> d_mul D p (of_int bps); d_div D x 10000 }"

text \<open>The unit price and the execution bound of an envelope; \<open>Ok None\<close> cannot be valued.\<close>

definition envelope_prices ::
  "dec_ops \<Rightarrow> order_intent_envelope \<Rightarrow> hft_error + (price \<times> price) option" where
  "envelope_prices D env =
     (let intent = env_intent env in
      case in_order_type intent of
        Limit \<Rightarrow> Ok (map_option (\<lambda>p. (p, p)) (in_price intent))
      | Market \<Rightarrow>
          and_then (ok_or (risk_error ''market reservation requires the admitted price reference'')
                      (env_price_reference env)) (\<lambda>reference.
          and_then (ok_or (risk_error ''market reservation requires an admitted slippage bound'')
                      (case max_slippage_bps (env_lifecycle env) of
                         None \<Rightarrow> None
                       | Some b \<Rightarrow> if 1 \<le> sint b \<and> sint b \<le> 10000 then Some b else None)) (\<lambda>slippage.
          if ref_symbol reference \<noteq> in_symbol intent \<or> ref_side reference \<noteq> in_side intent
            \<or> is_some_and (\<lambda>ven. ref_venue reference \<noteq> ven) (in_target_venue intent)
          then Err (risk_error ''market reservation reference identity changed'')
          else Ok (do {
            gross \<leftarrow> scaled_price D (ref_price reference) (10000 + sint slippage);
            bound \<leftarrow> (case in_side intent of
                        Buy \<Rightarrow> Some gross
                      | Sell \<Rightarrow> scaled_price D (ref_price reference) (10000 - sint slippage));
            Some (gross, bound) }))))"

definition from_envelope :: "dec_ops \<Rightarrow> order_intent_envelope \<Rightarrow> hft_error + valuation" where
  "from_envelope D env =
     and_then (envelope_prices D env) (\<lambda>prices.
     and_then (ok_or (risk_error ''pending order risk cannot be valued'') prices) (\<lambda>(p, bound).
     let intent = env_intent env;
         v = \<lparr>v_client_order_id = env_client_order_id env, v_strategy_id = in_strategy_id intent,
              v_account_id = env_account_id env, v_venue = in_target_venue intent,
              v_symbol = in_symbol intent, v_side = in_side intent,
              v_asset_class = in_asset_class intent, v_product_type = in_product_type intent,
              v_quantity = in_quantity intent, v_unit_price = p, v_execution_price_bound = bound,
              v_observed_unit_price = p, v_observed_revision = None\<rparr>
     in and_then (valuation_validate D v) (\<lambda>_. Ok v)))"

definition permits_execution_price :: "valuation \<Rightarrow> price \<Rightarrow> bool" where
  "permits_execution_price v p \<longleftrightarrow>
     0 < p \<and> (case v_side v of Buy \<Rightarrow> p \<le> v_execution_price_bound v
                             | Sell \<Rightarrow> v_execution_price_bound v \<le> p)"

text \<open>
  \<open>add_gross\<close>: the position of the symbol, created empty when missing, takes the gross quantity and a
  mark that makes its value the old gross value plus the new notional.
\<close>

definition add_gross ::
  "dec_ops \<Rightarrow> account_view \<Rightarrow> symbol \<Rightarrow> quantity \<Rightarrow> price \<Rightarrow> hft_error + account_view" where
  "add_gross D view sm q p =
     (if q = 0 then Ok view
      else
        let pos = unwrap_or \<lparr>pos_symbol = sm, pos_quantity = 0, pos_avg_price = p,
                     pos_unrealized_pnl = 0, pos_realized_pnl = 0\<rparr> (av_positions view sm)
        in and_then (ok_or (risk_error ''existing risk exposure overflow'') (do {
             x \<leftarrow> d_mul D (pos_avg_price pos) (pos_quantity pos);
             y \<leftarrow> d_add D x (pos_unrealized_pnl pos);
             Some \<bar>y\<bar> })) (\<lambda>old_notional.
           and_then (ok_or (risk_error ''pending risk exposure overflow'') (do {
             x \<leftarrow> d_mul D q p;
             d_add D old_notional x })) (\<lambda>notional.
           and_then (ok_or (risk_error ''pending risk quantity overflow'')
             (d_add D \<bar>pos_quantity pos\<bar> q)) (\<lambda>gross.
           and_then (ok_or (risk_error ''pending risk basis overflow'')
             (d_mul D (pos_avg_price pos) gross)) (\<lambda>basis.
           and_then (ok_or (risk_error ''pending risk mark overflow'')
             (d_sub D notional basis)) (\<lambda>mark.
           Ok (view\<lparr>av_positions := (av_positions view)(sm \<mapsto>
             pos\<lparr>pos_quantity := gross, pos_unrealized_pnl := mark\<rparr>)\<rparr>)))))))"

definition add_remaining_to_view ::
  "dec_ops \<Rightarrow> valuation \<Rightarrow> admission_exposure \<Rightarrow> quantity \<Rightarrow> price \<Rightarrow> hft_error + admission_exposure" where
  "add_remaining_to_view D v view q p =
     and_then (add_gross D (ae_account view) (v_symbol v) q p) (\<lambda>acc.
     if 0 < q
     then and_then (ok_or (risk_error ''pending exposure overflow'') (d_mul D q p)) (\<lambda>n.
       Ok (view\<lparr>ae_account := acc, ae_pending := ae_pending view @ [\<lparr>
         pe_strategy_id = v_strategy_id v, pe_symbol = v_symbol v, pe_quantity = q,
         pe_asset_class = v_asset_class v, pe_product_type = v_product_type v,
         pe_notional = n\<rparr>]\<rparr>))
     else Ok (view\<lparr>ae_account := acc\<rparr>))"

definition add_to_view :: "dec_ops \<Rightarrow> valuation \<Rightarrow> admission_exposure \<Rightarrow> hft_error + admission_exposure" where
  "add_to_view D v view = add_remaining_to_view D v view (v_quantity v) (v_unit_price v)"

definition matches_record :: "valuation \<Rightarrow> order_risk_view \<Rightarrow> bool" where
  "matches_record v r \<longleftrightarrow>
     rv_revision r < - 1 \<and> v_observed_revision v = Some (rv_revision r) \<and>
     rv_client_order_id r = Some (v_client_order_id v) \<and>
     rv_strategy_id r = Some (v_strategy_id v) \<and>
     is_none_or (\<lambda>i. rv_account_id r = Some i) (v_account_id v) \<and>
     is_none_or (\<lambda>ven. rv_venue r = Some ven) (v_venue v) \<and>
     rv_symbol r = v_symbol v \<and> rv_side r = v_side v \<and>
     0 < rv_qty r \<and> rv_qty r \<le> v_quantity v \<and> 0 \<le> rv_cum_qty r \<and>
     is_none_or (permits_execution_price v) (rv_limit_price r)"

definition order_exposure ::
  "dec_ops \<Rightarrow> valuation \<Rightarrow> order_risk_view \<Rightarrow> (hft_error + (quantity \<times> price)) option" where
  "order_exposure D v r =
     (if \<not> matches_record v r
      then Some (Err (risk_error ''OMS identity differs from admitted risk valuation''))
      else do {
        rest \<leftarrow> d_sub D (rv_qty r) (rv_cum_qty r);
        Some (Ok (max rest 0,
          (case rv_limit_price r of
             None \<Rightarrow> v_observed_unit_price v
           | Some p \<Rightarrow> max p (v_observed_unit_price v)))) })"

subsection \<open>Recovery of the reservations\<close>

abbreviation queued_of :: "risk_reservations \<Rightarrow> (string \<rightharpoonup> valuation)" where
  "queued_of s \<equiv> rc_queued (rr_checkpoint s)"

abbreviation orders_of :: "risk_reservations \<Rightarrow> (order_id \<rightharpoonup> valuation)" where
  "orders_of s \<equiv> rc_orders (rr_checkpoint s)"

abbreviation awaiting_of :: "risk_reservations \<Rightarrow> order_id set" where
  "awaiting_of s \<equiv> rc_awaiting_final_readback (rr_checkpoint s)"

definition rr_export :: "risk_reservations \<Rightarrow> reservation_checkpoint" where
  "rr_export s = rr_checkpoint s"

fun check_queued :: "dec_ops \<Rightarrow> reservation_checkpoint \<Rightarrow> string list \<Rightarrow> hft_error + unit" where
  "check_queued D cp [] = Ok ()"
| "check_queued D cp (k # ks) =
     (case rc_queued cp k of
        None \<Rightarrow> check_queued D cp ks
      | Some v \<Rightarrow>
          and_then (valuation_validate D v) (\<lambda>_.
          if k \<noteq> v_client_order_id v \<or> v_observed_revision v \<noteq> None
          then Err (risk_error ''queued risk identity changed'')
          else check_queued D cp ks))"

fun check_bound ::
  "dec_ops \<Rightarrow> reservation_checkpoint \<Rightarrow> order_id list \<Rightarrow> string set \<Rightarrow> hft_error + unit" where
  "check_bound D cp [] clients = Ok ()"
| "check_bound D cp (k # ks) clients =
     (case rc_orders cp k of
        None \<Rightarrow> check_bound D cp ks clients
      | Some v \<Rightarrow>
          and_then (valuation_validate D v) (\<lambda>_.
          if k = OrderId [] \<or> v_observed_revision v = None \<or> v_client_order_id v \<in> clients
          then Err (risk_error ''duplicate restored risk identity'')
          else check_bound D cp ks (insert (v_client_order_id v) clients)))"

text \<open>\<open>qks\<close> and \<open>oks\<close> are the iteration orders of the two maps of the checkpoint.\<close>

definition rr_restore ::
  "dec_ops \<Rightarrow> string list \<Rightarrow> order_id list \<Rightarrow> risk_reservations \<Rightarrow> reservation_checkpoint
   \<Rightarrow> risk_reservations \<times> (hft_error + unit)" where
  "rr_restore D qks oks s cp =
     (let s1 = s\<lparr>recovery_required := True\<rparr> in
      if (queued_of s \<noteq> Map.empty \<or> orders_of s \<noteq> Map.empty) \<and> rr_checkpoint s \<noteq> cp
      then (s1, Err (risk_error ''restore cannot discard current unresolved risk reservations''))
      else if rc_schema cp \<noteq> 3
      then (s1, Err (risk_error ''unsupported risk reservation checkpoint''))
      else case check_queued D cp qks of
        Inl e \<Rightarrow> (s1, Err e)
      | Inr _ \<Rightarrow>
          (case check_bound D cp oks (set qks) of
             Inl e \<Rightarrow> (s1, Err e)
           | Inr _ \<Rightarrow>
               if \<not> rc_awaiting_final_readback cp \<subseteq> dom (rc_orders cp)
               then (s1, Err (risk_error ''terminal risk hold lacks its admitted valuation''))
               else (s1\<lparr>rr_checkpoint := cp, checkpoint_supplied := True\<rparr>, Ok ())))"

definition owners_restored :: "risk_reservations \<Rightarrow> risk_reservations" where
  "owners_restored s = s\<lparr>recovery_required := True, checkpoint_supplied := False\<rparr>"

definition has_queued_client :: "risk_reservations \<Rightarrow> string \<Rightarrow> bool" where
  "has_queued_client s c \<longleftrightarrow> queued_of s c \<noteq> None"

definition require_recovery :: "risk_reservations \<Rightarrow> risk_reservations" where
  "require_recovery s = s\<lparr>recovery_required := True\<rparr>"

definition is_pristine :: "risk_reservations \<Rightarrow> bool" where
  "is_pristine s \<longleftrightarrow> \<not> recovery_required s \<and> \<not> checkpoint_supplied s \<and>
     queued_of s = Map.empty \<and> orders_of s = Map.empty \<and> awaiting_of s = {}"

definition is_ready :: "risk_reservations \<Rightarrow> bool" where
  "is_ready s \<longleftrightarrow> \<not> recovery_required s"

definition has_queued :: "risk_reservations \<Rightarrow> bool" where
  "has_queued s \<longleftrightarrow> queued_of s \<noteq> Map.empty"

subsection \<open>Admission and observation\<close>

definition put_queued :: "risk_reservations \<Rightarrow> (string \<rightharpoonup> valuation) \<Rightarrow> risk_reservations" where
  "put_queued s q = s\<lparr>rr_checkpoint := (rr_checkpoint s)\<lparr>rc_queued := q\<rparr>\<rparr>"

definition put_orders :: "risk_reservations \<Rightarrow> (order_id \<rightharpoonup> valuation) \<Rightarrow> risk_reservations" where
  "put_orders s os = s\<lparr>rr_checkpoint := (rr_checkpoint s)\<lparr>rc_orders := os\<rparr>\<rparr>"

definition put_awaiting :: "risk_reservations \<Rightarrow> order_id set \<Rightarrow> risk_reservations" where
  "put_awaiting s a = s\<lparr>rr_checkpoint := (rr_checkpoint s)\<lparr>rc_awaiting_final_readback := a\<rparr>\<rparr>"

definition reserve :: "risk_reservations \<Rightarrow> valuation \<Rightarrow> risk_reservations \<times> (hft_error + unit)" where
  "reserve s v =
     (if queued_of s (v_client_order_id v) \<noteq> None \<or>
         v_client_order_id v \<in> v_client_order_id ` ran (orders_of s)
      then (s, Err (risk_error ''risk reservation already exists for this client order''))
      else (put_queued s ((queued_of s)(v_client_order_id v \<mapsto> v)), Ok ()))"

definition remove_unsent :: "risk_reservations \<Rightarrow> string \<Rightarrow> risk_reservations" where
  "remove_unsent s c = put_queued s ((queued_of s)(c := None))"

fun validate_new :: "risk_reservations \<Rightarrow> execution_event \<Rightarrow> hft_error + unit" where
  "validate_new s (OrderNew oid (Some c) acc sm sd q rprice aprice ts ven sid) =
     (if is_some_and (\<lambda>v. v_client_order_id v \<noteq> c) (orders_of s oid)
      then Err (risk_error ''OrderNew reused another admitted order identity'')
      else case queued_of s c of
        None \<Rightarrow> Ok ()
      | Some v \<Rightarrow>
          if is_some_and (\<lambda>e. acc \<noteq> Some e) (v_account_id v)
            \<or> is_some_and (\<lambda>e. ven \<noteq> Some e) (v_venue v)
            \<or> v_strategy_id v \<noteq> sid \<or> v_symbol v \<noteq> sm \<or> v_side v \<noteq> sd \<or> v_quantity v \<noteq> q
            \<or> is_some_and (\<lambda>p. \<not> permits_execution_price v p \<or> v_unit_price v < p) rprice
          then Err (risk_error ''OrderNew changed its queued risk reservation'')
          else Ok ())"
| "validate_new s _ = Ok ()"

definition release_order :: "risk_reservations \<Rightarrow> order_id \<Rightarrow> risk_reservations" where
  "release_order s oid = put_awaiting (put_orders s ((orders_of s)(oid := None))) (awaiting_of s - {oid})"

fun observe ::
  "risk_reservations \<Rightarrow> execution_event \<Rightarrow> order_risk_view option \<Rightarrow> venue_id set \<Rightarrow> bool
   \<Rightarrow> risk_reservations" where
  "observe s (OrderNew oid (Some c) acc sm sd q rprice aprice ts ven sid) order fcv queued_rejection =
     (case queued_of s c of
        Some v \<Rightarrow>
          (case order of
             Some r \<Rightarrow>
               if rv_revision r = 0
               then put_orders (put_queued s ((queued_of s)(c := None)))
                      ((orders_of s)(oid \<mapsto> v\<lparr>v_observed_revision := Some (rv_revision r)\<rparr>))
               else require_recovery s
           | None \<Rightarrow> require_recovery s)
      | None \<Rightarrow>
          if orders_of s oid = None \<and> is_none_or (\<lambda>r. status_may_fill (rv_status r)) order
          then require_recovery s else s)"
| "observe s (OrderNew oid None acc sm sd q rprice aprice ts ven sid) order fcv queued_rejection =
     require_recovery s"
| "observe s (OrderModified oid nq np ts) order fcv queued_rejection =
     (case (orders_of s oid, order) of
        (Some v, Some r) \<Rightarrow>
          let v1 = (case rv_limit_price r of
                      None \<Rightarrow> v
                    | Some p \<Rightarrow> v\<lparr>v_observed_unit_price := max (v_observed_unit_price v) p\<rparr>)
          in if rv_revision r < - 1 \<and>
                Option.bind (v_observed_revision v1) (\<lambda>n. checked_add n 1) = Some (rv_revision r)
             then put_orders s ((orders_of s)(oid \<mapsto> v1\<lparr>v_observed_revision := Some (rv_revision r)\<rparr>))
             else require_recovery (put_orders s ((orders_of s)(oid \<mapsto> v1)))
      | _ \<Rightarrow> require_recovery s)"
| "observe s (OrderReject oid reason ts) order fcv queued_rejection =
     (if queued_rejection
      then put_queued s ((queued_of s)(case oid of OrderId c \<Rightarrow> c := None))
      else if is_some_and (\<lambda>r. rv_status r = P_Filled) order then release_order s oid
      else if orders_of s oid \<noteq> None \<and> is_some_and (\<lambda>r. rv_status r = P_Rejected) order
      then put_awaiting s (insert oid (awaiting_of s))
      else if order = None then require_recovery s
      else s)"
| "observe s (OrderCanceled oid ts) order fcv queued_rejection =
     (if orders_of s oid \<noteq> None
      then if is_some_and (\<lambda>ven. ven \<in> fcv) (Option.bind order rv_venue)
           then release_order s oid
           else put_awaiting s (insert oid (awaiting_of s))
      else s)"
| "observe s (Fill oid p q ts fid) order fcv queued_rejection =
     (if is_some_and (\<lambda>r. rv_qty r \<le> rv_cum_qty r) order then release_order s oid else s)"
| "observe s _ order fcv queued_rejection = s"

subsection \<open>Exposure\<close>

fun add_queued ::
  "dec_ops \<Rightarrow> valuation list \<Rightarrow> admission_exposure \<Rightarrow> hft_error + admission_exposure" where
  "add_queued D [] view = Ok view"
| "add_queued D (v # vs) view = and_then (add_to_view D v view) (add_queued D vs)"

fun add_orders ::
  "dec_ops \<Rightarrow> risk_reservations \<Rightarrow> (hft_error + order_risk_view) list \<Rightarrow> admission_exposure \<times> order_id set
   \<Rightarrow> (hft_error + (admission_exposure \<times> order_id set)) option" where
  "add_orders D s [] acc = Some (Ok acc)"
| "add_orders D s (x # xs) acc =
     (case x of
        Inl e \<Rightarrow> Some (Err e)
      | Inr r \<Rightarrow>
          let (view, observed) = acc;
              observed' = insert (rv_order_id r) observed
          in case orders_of s (rv_order_id r) of
               Some v \<Rightarrow>
                 if \<not> matches_record v r
                 then Some (Err (risk_error ''OMS identity differs from admitted risk valuation''))
                 else try_then (order_exposure D v r) (\<lambda>(q, p).
                      try_then (Some (add_remaining_to_view D v view q p)) (\<lambda>view'.
                      add_orders D s xs (view', observed')))
             | None \<Rightarrow>
                 if status_may_fill (rv_status r)
                 then Some (Err (risk_error ''OMS order lacks approval-time risk valuation''))
                 else add_orders D s xs (view, observed'))"

definition project ::
  "dec_ops \<Rightarrow> string list \<Rightarrow> risk_reservations \<Rightarrow> account_view \<Rightarrow> (hft_error + order_risk_view) list
   \<Rightarrow> (hft_error + admission_exposure) option" where
  "project D qks s account rs =
     try_then (Some (add_queued D (List.map_filter (queued_of s) qks)
                       \<lparr>ae_account = account, ae_pending = []\<rparr>)) (\<lambda>view.
     try_then (add_orders D s rs (view, {})) (\<lambda>(view', observed).
     Some (if \<not> dom (orders_of s) \<subseteq> observed
           then Err (risk_error ''admitted order disappeared from canonical OMS'')
           else Ok view')))"

definition rr_view ::
  "dec_ops \<Rightarrow> string list \<Rightarrow> order_id list \<Rightarrow> risk_reservations \<Rightarrow> account_view
   \<Rightarrow> (order_id \<Rightarrow> order_risk_view option) option \<Rightarrow> (hft_error + admission_exposure) option" where
  "rr_view D qks oks s account manager =
     (if recovery_required s
      then Some (Err (risk_error ''risk reservations require independent reconciliation''))
      else project D qks s account
        (map (\<lambda>oid. ok_or (risk_error ''admitted order lacks canonical OMS risk readback'')
                      (Option.bind manager (\<lambda>m. m oid))) oks))"

definition still_open_at_venue :: "order_id set \<Rightarrow> string set \<Rightarrow> ports_order_record \<Rightarrow> bool" where
  "still_open_at_venue ids clients r \<longleftrightarrow>
     o_order_id r \<in> ids \<or> is_some_and (\<lambda>c. c \<in> clients) (o_client_order_id r)"

definition confirm_readback ::
  "dec_ops \<Rightarrow> string list \<Rightarrow> order_id list \<Rightarrow> risk_reservations \<Rightarrow> account_view
   \<Rightarrow> (order_id \<rightharpoonup> ports_order_record) \<Rightarrow> order_id set \<Rightarrow> string set
   \<Rightarrow> (risk_reservations \<times> (hft_error + unit)) option" where
  "confirm_readback D qks ks s account os ids clients =
     (if recovery_required s \<and> \<not> checkpoint_supplied s
      then Some (s, Err (risk_error ''restored owners require an explicit risk reservation checkpoint''))
      else if queued_of s \<noteq> Map.empty
      then Some (s, Err (risk_error ''queued or unknown submission still lacks an OMS binding''))
      else do {
        pr \<leftarrow> project D qks s account (map (\<lambda>r. Ok (order_risk_view_of r)) (List.map_filter os ks));
        Some (case pr of
          Inl e \<Rightarrow> (s, Err e)
        | Inr _ \<Rightarrow>
            if list_ex (\<lambda>r. \<not> status_may_fill (o_status r) \<and> still_open_at_venue ids clients r)
                 (List.map_filter os ks)
            then (s, Err (risk_error ''terminal order is still open in authoritative readback''))
            else ((put_awaiting (put_orders s (\<lambda>oid.
                     if is_some_and (\<lambda>r. status_may_fill (o_status r)) (os oid)
                     then orders_of s oid else None)) {})\<lparr>recovery_required := False\<rparr>, Ok ())) })"

definition validate_replace ::
  "dec_ops \<Rightarrow> risk_reservations \<Rightarrow> order_risk_view \<Rightarrow> quantity option \<Rightarrow> price option
   \<Rightarrow> (hft_error + unit) option" where
  "validate_replace D s r nq np =
     (case orders_of s (rv_order_id r) of
        None \<Rightarrow> Some (Err (risk_error ''replacement lacks approval-time risk valuation''))
      | Some v \<Rightarrow>
          try_then (order_exposure D v r) (\<lambda>(old_q, old_p).
          if is_some_and (\<lambda>q. q \<le> 0 \<or> q < rv_cum_qty r) nq \<or> is_some_and (\<lambda>p. p \<le> 0) np
          then Some (Err (risk_error ''replacement has invalid quantity or price''))
          else if is_some_and (\<lambda>p. \<not> permits_execution_price v p) np
          then Some (Err (risk_error ''replacement violates the approved execution price bound''))
          else do {
            q \<leftarrow> (case nq of None \<Rightarrow> Some old_q | Some whole \<Rightarrow> d_sub D whole (rv_cum_qty r));
            let p = (case np of None \<Rightarrow> old_p | Some x \<Rightarrow> max x old_p);
            Some (and_then (ok_or (risk_error ''risk valuation overflow'') (d_mul D old_q old_p)) (\<lambda>previous.
                  and_then (ok_or (risk_error ''replacement risk overflow'') (d_mul D q p)) (\<lambda>next.
                  if previous < next
                  then Err (risk_error
                    ''replacement increases reserved notional; a new reviewed intent is required'')
                  else Ok ()))) }))"

end
