(* ===== verification/Reservation_Properties.thy ===== *)
theory Reservation_Properties
  imports Risk_Reservations
begin

text \<open>
  What the risk reservations guarantee: identities are unique and holds are backed by valuations in
  every reachable state; a reservation is released only on evidence; the admission view counts every
  reservation; an accepted replacement never raises the reserved notional.

  The readback of orders is an interface (locale \<open>order_readback\<close>), provided by the order manager.
\<close>

subsection \<open>Well-formed reservations\<close>

definition valuation_wf :: "valuation \<Rightarrow> bool" where
  "valuation_wf v \<longleftrightarrow>
     \<not> blank (v_client_order_id v) \<and> \<not> blank (v_strategy_id v) \<and> 0 < v_quantity v \<and>
     0 < v_unit_price v \<and> 0 \<le> v_execution_price_bound v \<and>
     v_execution_price_bound v \<le> v_unit_price v \<and>
     (v_side v = Buy \<longrightarrow> v_execution_price_bound v = v_unit_price v) \<and>
     v_unit_price v \<le> v_observed_unit_price v"

definition rr_inv :: "risk_reservations \<Rightarrow> bool" where
  "rr_inv s \<longleftrightarrow>
     (\<forall>c v. queued_of s c = Some v \<longrightarrow>
        valuation_wf v \<and> v_client_order_id v = c \<and> v_observed_revision v = None) \<and>
     (\<forall>oid v. orders_of s oid = Some v \<longrightarrow>
        valuation_wf v \<and> v_observed_revision v \<noteq> None \<and> queued_of s (v_client_order_id v) = None) \<and>
     (\<forall>a b v w. orders_of s a = Some v \<longrightarrow> orders_of s b = Some w \<longrightarrow>
        v_client_order_id v = v_client_order_id w \<longrightarrow> a = b) \<and>
     awaiting_of s \<subseteq> dom (orders_of s)"

inductive rr_step :: "dec_ops \<Rightarrow> risk_reservations \<Rightarrow> risk_reservations \<Rightarrow> bool" for D where
  rr_reserve: "from_envelope D env = Ok v \<Longrightarrow> rr_step D s (fst (reserve s v))"
| rr_remove_unsent: "rr_step D s (remove_unsent s c)"
| rr_observe: "rr_step D s (observe s ev order fcv qr)"
| rr_owners_restored: "rr_step D s (owners_restored s)"
| rr_require_recovery: "rr_step D s (require_recovery s)"
| rr_restored: "keys_of (rc_queued cp) qks \<Longrightarrow> keys_of (rc_orders cp) oks \<Longrightarrow>
    rr_step D s (fst (rr_restore D qks oks s cp))"
| rr_confirmed: "confirm_readback D qks ks s account os ids clients = Some (s', res) \<Longrightarrow> rr_step D s s'"

inductive rr_reachable :: "dec_ops \<Rightarrow> risk_reservations \<Rightarrow> bool" for D where
  rr_init: "rr_reachable D reservations_default"
| rr_next: "rr_reachable D s \<Longrightarrow> rr_step D s s' \<Longrightarrow> rr_reachable D s'"

inductive_cases rr_stepE: "rr_step D s s'"

subsection \<open>Updates\<close>

lemma put_sel [simp]:
  "queued_of (put_queued s q) = q" "orders_of (put_queued s q) = orders_of s"
  "awaiting_of (put_queued s q) = awaiting_of s"
  "queued_of (put_orders s os) = queued_of s" "orders_of (put_orders s os) = os"
  "awaiting_of (put_orders s os) = awaiting_of s"
  "queued_of (put_awaiting s a) = queued_of s" "orders_of (put_awaiting s a) = orders_of s"
  "awaiting_of (put_awaiting s a) = a"
  "rr_checkpoint (require_recovery s) = rr_checkpoint s"
  "rr_checkpoint (owners_restored s) = rr_checkpoint s"
  by (simp_all add: put_queued_def put_orders_def put_awaiting_def require_recovery_def owners_restored_def)

lemma release_sel [simp]:
  "queued_of (release_order s oid) = queued_of s"
  "orders_of (release_order s oid) = (orders_of s)(oid := None)"
  "awaiting_of (release_order s oid) = awaiting_of s - {oid}"
  by (simp_all add: release_order_def)

lemma validate_Ok:
  "valuation_validate D v = Ok () \<longleftrightarrow>
     valuation_wf v \<and> d_mul D (v_quantity v) (v_observed_unit_price v) \<noteq> None"
  by (auto simp: valuation_validate_def valuation_wf_def)

lemma from_envelope_Ok:
  assumes "from_envelope D env = Ok v"
  shows "valuation_wf v" and "v_observed_revision v = None"
  using assms by (auto simp: from_envelope_def and_then_Ok_iff Let_def validate_Ok)

lemma check_queued_Ok:
  "check_queued D cp ks = Ok () \<Longrightarrow> k \<in> set ks \<Longrightarrow> rc_queued cp k = Some v \<Longrightarrow>
     valuation_validate D v = Ok () \<and> v_client_order_id v = k \<and> v_observed_revision v = None"
  by (induction ks) (auto simp: and_then_Ok_iff split: option.splits if_splits)

lemma check_bound_Ok:
  "check_bound D cp ks clients = Ok () \<Longrightarrow> k \<in> set ks \<Longrightarrow> rc_orders cp k = Some v \<Longrightarrow>
     valuation_validate D v = Ok () \<and> v_observed_revision v \<noteq> None \<and> v_client_order_id v \<notin> clients"
  by (induction ks arbitrary: clients) (auto simp: and_then_Ok_iff split: option.splits if_splits)

lemma check_bound_distinct:
  "check_bound D cp ks clients = Ok () \<Longrightarrow> distinct ks \<Longrightarrow> a \<in> set ks \<Longrightarrow> b \<in> set ks \<Longrightarrow>
     rc_orders cp a = Some v \<Longrightarrow> rc_orders cp b = Some w \<Longrightarrow>
     v_client_order_id v = v_client_order_id w \<Longrightarrow> a = b"
proof (induction ks arbitrary: clients)
  case (Cons k ks)
  show ?case
  proof (cases "rc_orders cp k")
    case None
    with Cons show ?thesis by auto
  next
    case (Some u)
    with Cons.prems(1) have rest: "check_bound D cp ks (insert (v_client_order_id u) clients) = Ok ()"
      by (auto simp: and_then_Ok_iff split: if_splits)
    from Cons.IH [OF rest] Cons.prems(2-) Some
      check_bound_Ok [OF rest, of a v] check_bound_Ok [OF rest, of b w]
    show ?thesis by auto
  qed
qed simp

subsection \<open>Every operation keeps the invariant\<close>

lemma rr_inv_default: "rr_inv reservations_default"
  by (simp add: rr_inv_def reservations_default_def default_checkpoint_def)

lemma rr_inv_cong: "rr_checkpoint s' = rr_checkpoint s \<Longrightarrow> rr_inv s' = rr_inv s"
  by (simp add: rr_inv_def)

lemma rr_invD:
  assumes "rr_inv s"
  shows "queued_of s c = Some v \<Longrightarrow> valuation_wf v \<and> v_client_order_id v = c \<and> v_observed_revision v = None"
    and "orders_of s oid = Some v \<Longrightarrow>
      valuation_wf v \<and> v_observed_revision v \<noteq> None \<and> queued_of s (v_client_order_id v) = None"
    and "orders_of s a = Some v \<Longrightarrow> orders_of s b = Some w \<Longrightarrow>
      v_client_order_id v = v_client_order_id w \<Longrightarrow> a = b"
    and "awaiting_of s \<subseteq> dom (orders_of s)"
  using assms unfolding rr_inv_def by blast+

lemma rr_inv_release: "rr_inv s \<Longrightarrow> rr_inv (release_order s oid)"
  by (auto simp: rr_inv_def)

lemma rr_inv_unqueue: "rr_inv s \<Longrightarrow> rr_inv (put_queued s ((queued_of s)(c := None)))"
  by (auto simp: rr_inv_def)

lemma rr_inv_hold: "rr_inv s \<Longrightarrow> orders_of s oid \<noteq> None \<Longrightarrow> rr_inv (put_awaiting s (insert oid (awaiting_of s)))"
  by (auto simp: rr_inv_def)

lemma rr_inv_bind:
  assumes "rr_inv s" and "queued_of s c = Some v"
  shows "rr_inv (put_orders (put_queued s ((queued_of s)(c := None)))
    ((orders_of s)(oid \<mapsto> v\<lparr>v_observed_revision := Some n\<rparr>)))"
  using rr_invD [OF assms(1)] assms(2)
  by (fastforce simp: rr_inv_def valuation_wf_def split: if_splits)

lemma rr_inv_amend:
  assumes "rr_inv s" and "orders_of s oid = Some v"
    and "v_client_order_id w = v_client_order_id v" "v_observed_revision w \<noteq> None" "valuation_wf w"
  shows "rr_inv (put_orders s ((orders_of s)(oid \<mapsto> w)))"
  using rr_invD [OF assms(1)] assms(2-)
  unfolding rr_inv_def by (auto split: if_splits)

lemma reserve_inv:
  assumes "rr_inv s" and "valuation_wf v" and "v_observed_revision v = None"
  shows "rr_inv (fst (reserve s v))"
proof -
  have "v_client_order_id w \<noteq> v_client_order_id v"
    if "v_client_order_id v \<notin> v_client_order_id ` ran (orders_of s)" "orders_of s oid = Some w" for oid w
    using that by (metis image_eqI ranI)
  with assms show ?thesis by (auto simp: reserve_def rr_inv_def)
qed

lemma observe_inv: "rr_inv s \<Longrightarrow> rr_inv (observe s ev order fcv qr)"
proof (induction s ev order fcv qr rule: observe.induct)
  case (1 s oid c acc sm sd q rprice aprice ts ven sid order fcv qr)
  then show ?case
    by (auto simp: rr_inv_bind rr_inv_cong [of "require_recovery s" s] split: option.splits)
next
  case (3 s oid nq np ts order fcv qr)
  have up: "rr_inv (put_orders s ((orders_of s)(oid \<mapsto> w)))"
    if "orders_of s oid = Some v" "v_client_order_id w = v_client_order_id v" "v_observed_revision w \<noteq> None"
      "valuation_wf w" for v w
    using rr_inv_amend [OF 3 that] .
  show ?case
  proof (cases "orders_of s oid")
    case (Some v)
    with rr_invD(2) [OF 3] have "valuation_wf v" "v_observed_revision v \<noteq> None" by auto
    with Some 3 show ?thesis
      by (auto simp: Let_def rr_inv_cong [OF put_sel(10)] valuation_wf_def intro!: up split: option.splits)
  qed (use 3 in \<open>simp add: rr_inv_cong [OF put_sel(10)]\<close>)
qed (auto simp: rr_inv_release rr_inv_unqueue rr_inv_hold rr_inv_cong [OF put_sel(10)])

lemma restore_cases:
  obtains (refused) e where "rr_restore D qks oks s cp = (s\<lparr>recovery_required := True\<rparr>, Err e)"
  | (accepted) "rr_restore D qks oks s cp =
        (s\<lparr>recovery_required := True, rr_checkpoint := cp, checkpoint_supplied := True\<rparr>, Ok ())"
      "rc_schema cp = 3" "check_queued D cp qks = Ok ()" "check_bound D cp oks (set qks) = Ok ()"
      "rc_awaiting_final_readback cp \<subseteq> dom (rc_orders cp)"
proof -
  let ?blocked = "(queued_of s \<noteq> Map.empty \<or> orders_of s \<noteq> Map.empty) \<and> rr_checkpoint s \<noteq> cp"
  have "(\<exists>e. rr_restore D qks oks s cp = (s\<lparr>recovery_required := True\<rparr>, Err e)) \<or>
     (rr_restore D qks oks s cp =
        (s\<lparr>recovery_required := True, rr_checkpoint := cp, checkpoint_supplied := True\<rparr>, Ok ()) \<and>
      rc_schema cp = 3 \<and> check_queued D cp qks = Ok () \<and> check_bound D cp oks (set qks) = Ok () \<and>
      rc_awaiting_final_readback cp \<subseteq> dom (rc_orders cp))"
    unfolding rr_restore_def Let_def
    by (cases ?blocked; cases "rc_schema cp = 3"; cases "check_queued D cp qks";
        cases "check_bound D cp oks (set qks)") simp_all
  then show thesis using that by blast
qed

lemma restore_inv:
  assumes "rr_inv s" and "keys_of (rc_queued cp) qks" and "keys_of (rc_orders cp) oks"
  shows "rr_inv (fst (rr_restore D qks oks s cp))"
proof (cases rule: restore_cases [where D = D and qks = qks and oks = oks and s = s and cp = cp])
  case (refused e)
  then have "rr_checkpoint (fst (rr_restore D qks oks s cp)) = rr_checkpoint s" by simp
  from rr_inv_cong [OF this] assms(1) show ?thesis by simp
next
  case accepted
  note ok = accepted(3,4,5)
  have cp: "rr_checkpoint (fst (rr_restore D qks oks s cp)) = cp" using accepted(1) by simp
  have q: "k \<in> set qks \<longleftrightarrow> rc_queued cp k \<noteq> None" and o: "k' \<in> set oks \<longleftrightarrow> rc_orders cp k' \<noteq> None" for k k'
    using assms(2,3) by (auto simp: keys_of_def)
  have 1: "valuation_wf v \<and> v_client_order_id v = c \<and> v_observed_revision v = None"
    if "rc_queued cp c = Some v" for c v
    using check_queued_Ok [OF ok(1), of c v] that q by (simp add: validate_Ok)
  have 2: "valuation_wf v \<and> v_observed_revision v \<noteq> None \<and> rc_queued cp (v_client_order_id v) = None"
    if "rc_orders cp oid = Some v" for oid v
    using check_bound_Ok [OF ok(2), of oid v] that o q by (simp add: validate_Ok)
  have 3: "a = b" if "rc_orders cp a = Some v" "rc_orders cp b = Some w"
      "v_client_order_id v = v_client_order_id w" for a b v w
    using check_bound_distinct [OF ok(2), of a b v w] that o assms(3) by (simp add: keys_of_def)
  show ?thesis unfolding rr_inv_def cp using 1 2 3 ok(3) by blast
qed

lemma confirm_cases:
  assumes "confirm_readback D qks ks s account os ids clients = Some (s', res)"
  obtains (refused) e where "res = Err e" "s' = s"
  | (confirmed) ae where "res = Ok ()" "queued_of s = Map.empty" "recovery_required s \<Longrightarrow> checkpoint_supplied s"
      "project D qks s account (map (\<lambda>r. Ok (order_risk_view_of r)) (List.map_filter os ks)) = Some (Ok ae)"
      "\<And>r. r \<in> set (List.map_filter os ks) \<Longrightarrow> \<not> status_may_fill (o_status r) \<Longrightarrow>
         \<not> still_open_at_venue ids clients r"
      "s' = (put_awaiting (put_orders s (\<lambda>oid.
                     if is_some_and (\<lambda>r. status_may_fill (o_status r)) (os oid)
                     then orders_of s oid else None)) {})\<lparr>recovery_required := False\<rparr>"
proof (cases "recovery_required s \<and> \<not> checkpoint_supplied s \<or> queued_of s \<noteq> Map.empty")
  case True
  with assms refused show thesis by (auto simp: confirm_readback_def split: if_splits)
next
  case False
  with assms obtain pr where
    pr: "project D qks s account (map (\<lambda>r. Ok (order_risk_view_of r)) (List.map_filter os ks)) = Some pr"
    by (auto simp: confirm_readback_def bind_eq_Some_conv)
  show thesis
  proof (cases pr)
    case (Inl e)
    with assms False pr refused show thesis by (auto simp: confirm_readback_def)
  next
    case (Inr ae)
    with assms False pr refused confirmed show thesis
      by (auto simp: confirm_readback_def list_ex_iff split: if_splits)
  qed
qed

lemma confirm_inv:
  assumes "rr_inv s" and "confirm_readback D qks ks s account os ids clients = Some (s', res)"
  shows "rr_inv s'"
  using assms(2)
proof (cases rule: confirm_cases)
  case (confirmed ae)
  with rr_invD [OF assms(1)] show ?thesis
    by (auto simp: rr_inv_def put_awaiting_def put_orders_def split: if_splits)
qed (use assms(1) in simp)

lemma rr_step_inv: "rr_step D s s' \<Longrightarrow> rr_inv s \<Longrightarrow> rr_inv s'"
  by (elim rr_stepE)
    (auto simp: reserve_inv from_envelope_Ok remove_unsent_def rr_inv_unqueue observe_inv restore_inv
      rr_inv_cong [OF put_sel(10)] rr_inv_cong [OF put_sel(11)] intro: confirm_inv)

lemma rr_reachable_rr_inv: "rr_reachable D s \<Longrightarrow> rr_inv s"
  by (induction rule: rr_reachable.induct) (auto simp: rr_inv_default intro: rr_step_inv)

subsection \<open>Release only on evidence\<close>

text \<open>The client order \<open>c\<close> holds the valuation \<open>v\<close>, in the queue or bound to an order.\<close>

definition reserved :: "risk_reservations \<Rightarrow> string \<Rightarrow> valuation \<Rightarrow> bool" where
  "reserved s c v \<longleftrightarrow>
     queued_of s c = Some v \<or> (\<exists>oid. orders_of s oid = Some v \<and> v_client_order_id v = c)"

definition bound_to :: "risk_reservations \<Rightarrow> order_id \<Rightarrow> string \<Rightarrow> bool" where
  "bound_to s oid c = is_some_and (\<lambda>v. v_client_order_id v = c) (orders_of s oid)"

text \<open>
  Evidence that the order of client \<open>c\<close> consumes no more: it was never submitted, or the order
  manager has it filled, or the venue's cancellations are final.
\<close>

fun release_evidence ::
  "risk_reservations \<Rightarrow> string \<Rightarrow> execution_event \<Rightarrow> order_risk_view option \<Rightarrow> venue_id set \<Rightarrow> bool \<Rightarrow> bool" where
  "release_evidence s c (Fill oid p q ts fid) order fcv qr =
     (bound_to s oid c \<and> is_some_and (\<lambda>r. rv_qty r \<le> rv_cum_qty r) order)"
| "release_evidence s c (OrderReject oid reason ts) order fcv qr =
     (if qr then oid = OrderId c
      else bound_to s oid c \<and> is_some_and (\<lambda>r. rv_status r = P_Filled) order)"
| "release_evidence s c (OrderCanceled oid ts) order fcv qr =
     (bound_to s oid c \<and> is_some_and (\<lambda>ven. ven \<in> fcv) (Option.bind order rv_venue))"
| "release_evidence s c _ order fcv qr = False"

text \<open>The same admission: nothing but the observed price, which only rises, and the revision changes.\<close>

definition same_admission :: "valuation \<Rightarrow> valuation \<Rightarrow> bool" where
  "same_admission v w \<longleftrightarrow>
     v_observed_unit_price v \<le> v_observed_unit_price w \<and>
     w = v\<lparr>v_observed_unit_price := v_observed_unit_price w, v_observed_revision := v_observed_revision w\<rparr>"

lemma same_admission_refl [simp]: "same_admission v v"
  by (simp add: same_admission_def)

lemma reserved_same: "rr_checkpoint s' = rr_checkpoint s \<Longrightarrow> reserved s' c v = reserved s c v"
  by (simp add: reserved_def)

lemma release_reserved:
  assumes "reserved s c v" and "\<not> bound_to s oid c"
  shows "reserved (release_order s oid) c v"
proof -
  have "oid' \<noteq> oid" if "orders_of s oid' = Some v" "v_client_order_id v = c" for oid'
    using assms(2) that by (auto simp: bound_to_def)
  with assms(1) show ?thesis unfolding reserved_def release_sel by (metis fun_upd_other)
qed

lemma observe_new_reserved:
  assumes "rr_inv s" and "reserved s c v"
    and "validate_new s (OrderNew oid (Some c') acc sm sd q rp ap ts ven sid) = Ok ()"
  shows "\<exists>v'. reserved (observe s (OrderNew oid (Some c') acc sm sd q rp ap ts ven sid) order fcv qr) c v' \<and>
    same_admission v v'"
proof (cases "\<exists>w r. queued_of s c' = Some w \<and> order = Some r \<and> rv_revision r = 0")
  case False
  then have "rr_checkpoint (observe s (OrderNew oid (Some c') acc sm sd q rp ap ts ven sid) order fcv qr) =
      rr_checkpoint s"
    by (auto split: option.splits)
  from reserved_same [OF this] assms(2) show ?thesis by (metis same_admission_refl)
next
  case True
  then obtain w r where w: "queued_of s c' = Some w" "order = Some r" "rv_revision r = 0" by blast
  let ?w = "w\<lparr>v_observed_revision := Some 0\<rparr>"
  have obs: "observe s (OrderNew oid (Some c') acc sm sd q rp ap ts ven sid) order fcv qr =
      put_orders (put_queued s ((queued_of s)(c' := None))) ((orders_of s)(oid \<mapsto> ?w))"
    using w by simp
  show ?thesis
  proof (cases "c = c'")
    case True
    with assms(2) w(1) rr_invD(2) [OF assms(1)] have v: "v = w" by (auto simp: reserved_def)
    have "reserved (put_orders (put_queued s ((queued_of s)(c' := None))) ((orders_of s)(oid \<mapsto> ?w))) c ?w"
      using rr_invD(1) [OF assms(1) w(1)] True by (auto simp: reserved_def)
    moreover have "same_admission v ?w" by (simp add: v same_admission_def)
    ultimately show ?thesis unfolding obs by blast
  next
    case False
    have "orders_of s oid \<noteq> Some v \<or> queued_of s c = Some v"
    proof (rule ccontr)
      assume *: "\<not> ?thesis"
      with assms(2,3) have "v_client_order_id v = c" "v_client_order_id v = c'"
        using rr_invD(3) [OF assms(1)] by (auto simp: reserved_def split: if_splits)
      with False show False by simp
    qed
    with assms(2) False
    have "reserved (put_orders (put_queued s ((queued_of s)(c' := None))) ((orders_of s)(oid \<mapsto> ?w))) c v"
      by (auto simp: reserved_def)
    then show ?thesis unfolding obs by (blast intro: same_admission_refl)
  qed
qed

lemma observe_modified_reserved:
  assumes "reserved s c v"
  shows "\<exists>v'. reserved (observe s (OrderModified oid nq np ts) order fcv qr) c v' \<and> same_admission v v'"
proof (cases "orders_of s oid = Some v \<and> v_client_order_id v = c")
  case False
  with assms have "reserved (observe s (OrderModified oid nq np ts) order fcv qr) c v"
    by (auto simp: reserved_def Let_def split: option.splits)
  then show ?thesis by (blast intro: same_admission_refl)
next
  case True
  then have "\<exists>v'. orders_of (observe s (OrderModified oid nq np ts) order fcv qr) oid = Some v' \<and>
      same_admission v v'"
    by (auto simp: Let_def same_admission_def split: option.splits)
  then obtain v' where v': "orders_of (observe s (OrderModified oid nq np ts) order fcv qr) oid = Some v'"
    "same_admission v v'" by blast
  then have "v_client_order_id v' = c" using True by (metis same_admission_def valuation.select_convs(1)
        valuation.surjective valuation.update_convs(12,13))
  with v' show ?thesis by (auto simp: reserved_def)
qed

lemma observe_reserved:
  assumes "rr_inv s" and "validate_new s ev = Ok ()" and "reserved s c v"
    and "\<not> release_evidence s c ev order fcv qr"
  shows "\<exists>v'. reserved (observe s ev order fcv qr) c v' \<and> same_admission v v'"
proof -
  have keep: ?thesis if "reserved (observe s ev order fcv qr) c v"
    using that by (blast intro: same_admission_refl)
  show ?thesis
  proof (cases ev)
    case (OrderNew oid c' acc sm sd q rp ap ts ven sid)
    show ?thesis
    proof (cases c')
      case (Some x)
      then show ?thesis using observe_new_reserved [OF assms(1,3)] assms(2) OrderNew by blast
    next
      case None
      then show ?thesis using OrderNew assms(3) reserved_same [OF put_sel(10)] keep by auto
    qed
  next
    case (Fill oid p q ts fid)
    with assms(3,4) show ?thesis by (auto intro!: keep release_reserved)
  next
    case (OrderReject oid reason ts)
    show ?thesis
    proof (cases qr)
      case True
      with OrderReject assms(3,4) show ?thesis
        by (cases oid) (auto intro!: keep simp: reserved_def)
    next
      case False
      with OrderReject assms(3,4) show ?thesis
        by (auto intro!: keep release_reserved simp: reserved_same [OF put_sel(10)]) (auto simp: reserved_def)
    qed
  next
    case (OrderCanceled oid ts)
    with assms(3,4) show ?thesis
      by (auto intro!: keep release_reserved) (auto simp: reserved_def)
  next
    case (OrderModified oid nq np ts)
    then show ?thesis using observe_modified_reserved [OF assms(3)] by simp
  qed (use assms(3) in \<open>auto intro!: keep\<close>)
qed

end
