(* ===== verification/Admission_View.thy ===== *)
theory Admission_View
  imports Reservation_Properties
begin

text \<open>
  The exposure an admission decision sees, and replacements of admitted orders. Both read orders back
  from the order manager through the interface \<open>order_readback\<close>; the order manager of
  \<open>OMS\<close> provides it.
\<close>

subsection \<open>Exposure of an account view\<close>

definition gross_exposure :: "account_view \<Rightarrow> symbol \<Rightarrow> decimal" where
  "gross_exposure view sm =
     (case av_positions view sm of
        None \<Rightarrow> 0
      | Some p \<Rightarrow> \<bar>pos_avg_price p * pos_quantity p + pos_unrealized_pnl p\<bar>)"

definition pending_notional :: "pending_risk_exposure list \<Rightarrow> symbol \<Rightarrow> decimal" where
  "pending_notional ps sm = sum_list (map pe_notional (filter (\<lambda>e. pe_symbol e = sm) ps))"

definition entries :: "valuation \<Rightarrow> quantity \<Rightarrow> price \<Rightarrow> pending_risk_exposure list" where
  "entries v q p =
     (if 0 < q then [\<lparr>pe_strategy_id = v_strategy_id v, pe_symbol = v_symbol v, pe_quantity = q,
        pe_asset_class = v_asset_class v, pe_product_type = v_product_type v, pe_notional = q * p\<rparr>]
      else [])"

definition exposure_price :: "valuation \<Rightarrow> order_risk_view \<Rightarrow> price" where
  "exposure_price v r =
     (case rv_limit_price r of
        None \<Rightarrow> v_observed_unit_price v
      | Some p \<Rightarrow> max p (v_observed_unit_price v))"

text \<open>The account part and the pending list of a view agree, relative to the account it starts from.\<close>

definition balanced :: "account_view \<Rightarrow> admission_exposure \<Rightarrow> bool" where
  "balanced a view \<longleftrightarrow>
     (\<forall>sm. gross_exposure (ae_account view) sm = gross_exposure a sm + pending_notional (ae_pending view) sm)"

lemma add_gross_exact:
  assumes "dec_exact D" and "add_gross D view sm q p = Ok view'" and "0 \<le> q" and "0 \<le> p"
  shows "gross_exposure view' x = gross_exposure view x + (if x = sm then q * p else 0)"
proof (cases "q = 0")
  case True
  with assms(2) show ?thesis by (simp add: add_gross_def)
next
  case False
  define pos where "pos = unwrap_or \<lparr>pos_symbol = sm, pos_quantity = 0, pos_avg_price = p,
                     pos_unrealized_pnl = 0, pos_realized_pnl = 0\<rparr> (av_positions view sm)"
  from False assms(2) obtain x1 y1 x2 n g b m where
    ops: "d_mul D (pos_avg_price pos) (pos_quantity pos) = Some x1" "d_add D x1 (pos_unrealized_pnl pos) = Some y1"
      "d_mul D q p = Some x2" "d_add D \<bar>y1\<bar> x2 = Some n" "d_add D \<bar>pos_quantity pos\<bar> q = Some g"
      "d_mul D (pos_avg_price pos) g = Some b" "d_sub D n b = Some m"
    and view': "view' = view\<lparr>av_positions := (av_positions view)(sm \<mapsto>
             pos\<lparr>pos_quantity := g, pos_unrealized_pnl := m\<rparr>)\<rparr>"
    by (auto simp: add_gross_def pos_def [symmetric] Let_def and_then_Ok_iff bind_eq_Some_conv)
  note eqs = ops(1,3,6) [THEN dec_exactD(3) [OF assms(1)]] ops(2,4,5) [THEN dec_exactD(1) [OF assms(1)]]
    ops(7) [THEN dec_exactD(2) [OF assms(1)]]
  have "gross_exposure view sm = \<bar>y1\<bar>"
    using eqs by (cases "av_positions view sm") (simp_all add: gross_exposure_def pos_def)
  moreover have "gross_exposure view' sm = \<bar>\<bar>y1\<bar> + q * p\<bar>"
    using eqs by (simp add: gross_exposure_def view')
  ultimately show ?thesis using assms(3,4) by (simp add: gross_exposure_def view')
qed

lemma pending_notional_append [simp]:
  "pending_notional (xs @ ys) sm = pending_notional xs sm + pending_notional ys sm"
  by (simp add: pending_notional_def)

lemma pending_notional_entries:
  "0 \<le> q \<Longrightarrow> pending_notional (entries v q p) sm = (if sm = v_symbol v then q * p else 0)"
  by (simp add: pending_notional_def entries_def)

lemma add_remaining_exact:
  assumes "dec_exact D" and "add_remaining_to_view D v view q p = Ok view'" and "0 \<le> q" and "0 \<le> p"
  shows "ae_pending view' = ae_pending view @ entries v q p"
    and "balanced a view \<Longrightarrow> balanced a view'"
proof -
  from assms(2) obtain acc where acc: "add_gross D (ae_account view) (v_symbol v) q p = Ok acc"
      "ae_account view' = acc"
    and pend: "ae_pending view' = ae_pending view @ entries v q p"
    using dec_exactD(3) [OF assms(1)]
    by (cases "0 < q") (auto simp: add_remaining_to_view_def and_then_Ok_iff entries_def)
  show "ae_pending view' = ae_pending view @ entries v q p" by (fact pend)
  show "balanced a view'" if "balanced a view"
    using that add_gross_exact [OF assms(1) acc(1) assms(3,4)] assms(3)
    by (simp add: balanced_def acc(2) pend pending_notional_entries)
qed

lemma add_queued_exact:
  assumes "dec_exact D" and "add_queued D vs view = Ok view'" and "list_all valuation_wf vs"
  shows "ae_pending view' = ae_pending view @ concat (map (\<lambda>v. entries v (v_quantity v) (v_unit_price v)) vs)"
    and "balanced a view \<Longrightarrow> balanced a view'"
proof -
  have "ae_pending view' = ae_pending view @ concat (map (\<lambda>v. entries v (v_quantity v) (v_unit_price v)) vs) \<and>
    (balanced a view \<longrightarrow> balanced a view')"
    using assms(2,3)
  proof (induction vs arbitrary: view)
    case (Cons v vs)
    then obtain w where w: "add_remaining_to_view D v view (v_quantity v) (v_unit_price v) = Ok w"
        "add_queued D vs w = Ok view'"
      by (auto simp: and_then_Ok_iff add_to_view_def)
    have pos: "0 \<le> v_quantity v" "0 \<le> v_unit_price v" using Cons.prems(2) by (auto simp: valuation_wf_def)
    from Cons.IH [OF w(2)] Cons.prems(2) add_remaining_exact [OF assms(1) w(1) pos] show ?case by simp
  qed simp
  then show "ae_pending view' = ae_pending view @ concat (map (\<lambda>v. entries v (v_quantity v) (v_unit_price v)) vs)"
    and "balanced a view \<Longrightarrow> balanced a view'" by blast+
qed

subsection \<open>Orders read back\<close>

definition order_entries :: "risk_reservations \<Rightarrow> order_risk_view \<Rightarrow> pending_risk_exposure list" where
  "order_entries s r =
     (case orders_of s (rv_order_id r) of
        None \<Rightarrow> []
      | Some v \<Rightarrow> entries v (max (rv_qty r - rv_cum_qty r) 0) (exposure_price v r))"

text \<open>A view that was produced saw every order it was given, and each matched its valuation.\<close>

definition covered :: "risk_reservations \<Rightarrow> order_risk_view list \<Rightarrow> bool" where
  "covered s rs \<longleftrightarrow>
     (\<forall>r\<in>set rs. case orders_of s (rv_order_id r) of
        None \<Rightarrow> \<not> status_may_fill (rv_status r)
      | Some v \<Rightarrow> matches_record v r)"

lemma order_exposure_Ok:
  assumes "dec_exact D" and "order_exposure D v r = Some (Ok (q, p))"
  shows "matches_record v r" and "q = max (rv_qty r - rv_cum_qty r) 0" and "p = exposure_price v r"
  using assms dec_exactD(2) [OF assms(1)]
  by (auto simp: order_exposure_def exposure_price_def bind_eq_Some_conv split: if_splits)

lemma exposure_price_ge: "v_observed_unit_price v \<le> exposure_price v r"
  by (simp add: exposure_price_def split: option.splits)

lemma add_orders_exact:
  assumes "dec_exact D" and "rr_inv s" and "add_orders D s xs (view, obs) = Some (Ok (view', obs'))"
  shows "\<exists>rs. xs = map Ok rs \<and> covered s rs \<and> obs' = obs \<union> rv_order_id ` set rs \<and>
    ae_pending view' = ae_pending view @ concat (map (order_entries s) rs) \<and>
    (balanced a view \<longrightarrow> balanced a view')"
  using assms(3)
proof (induction xs arbitrary: view obs)
  case Nil
  then show ?case by (simp add: covered_def)
next
  case (Cons x xs)
  then obtain r where x: "x = Ok r" by (cases x) auto
  let ?obs = "insert (rv_order_id r) obs"
  have "\<exists>w. add_orders D s xs (w, ?obs) = Some (Ok (view', obs')) \<and> covered s [r] \<and>
      ae_pending w = ae_pending view @ order_entries s r \<and> (balanced a view \<longrightarrow> balanced a w)"
  proof (cases "orders_of s (rv_order_id r)")
    case None
    with Cons.prems x have "add_orders D s xs (view, ?obs) = Some (Ok (view', obs'))" "covered s [r]"
      by (auto simp: covered_def split: if_splits)
    with None show ?thesis by (auto simp: order_entries_def)
  next
    case (Some v)
    with Cons.prems x obtain q p w where
      e: "order_exposure D v r = Some (Ok (q, p))"
      and w: "add_remaining_to_view D v view q p = Ok w"
      and rest: "add_orders D s xs (w, ?obs) = Some (Ok (view', obs'))"
      by (auto simp: try_then_Ok_iff split: if_splits)
    note qp = order_exposure_Ok [OF assms(1) e]
    have "0 \<le> q" "0 \<le> p"
      using qp rr_invD(2) [OF assms(2) Some] exposure_price_ge [of v r] by (auto simp: valuation_wf_def)
    from add_remaining_exact [OF assms(1) w this] rest qp Some show ?thesis
      by (auto simp: covered_def order_entries_def)
  qed
  then obtain w where w: "add_orders D s xs (w, ?obs) = Some (Ok (view', obs'))" "covered s [r]"
    "ae_pending w = ae_pending view @ order_entries s r" "balanced a view \<longrightarrow> balanced a w" by blast
  from Cons.IH [OF w(1)] obtain rs where "xs = map Ok rs" "covered s rs"
    "obs' = ?obs \<union> rv_order_id ` set rs"
    "ae_pending view' = ae_pending w @ concat (map (order_entries s) rs)"
    "balanced a w \<longrightarrow> balanced a view'" by blast
  with x w(2-) show ?case by (intro exI [of _ "r # rs"]) (auto simp: covered_def)
qed

lemma project_exact:
  assumes "dec_exact D" and "rr_inv s" and "project D qks s account xs = Some (Ok view)"
  shows "\<exists>rs. xs = map Ok rs \<and> covered s rs \<and> dom (orders_of s) \<subseteq> rv_order_id ` set rs \<and>
    ae_pending view = concat (map (\<lambda>v. entries v (v_quantity v) (v_unit_price v))
      (List.map_filter (queued_of s) qks)) @ concat (map (order_entries s) rs) \<and> balanced account view"
proof -
  let ?v0 = "\<lparr>ae_account = account, ae_pending = []\<rparr>"
  from assms(3) obtain w obs where
    w: "add_queued D (List.map_filter (queued_of s) qks) ?v0 = Ok w"
    and o: "add_orders D s xs (w, {}) = Some (Ok (view, obs))" and d: "dom (orders_of s) \<subseteq> obs"
    by (auto simp: project_def try_then_Ok_iff split: if_splits)
  have wf: "list_all valuation_wf (List.map_filter (queued_of s) qks)"
    using rr_invD(1) [OF assms(2)] by (auto simp: list_all_iff set_map_filter_iff)
  have "balanced account ?v0" by (simp add: balanced_def pending_notional_def)
  with add_queued_exact [OF assms(1) w wf] add_orders_exact [OF assms(1,2) o, of account] d
  show ?thesis by auto
qed

subsection \<open>The readback interface\<close>

text \<open>
  What reservations rely on: a readback carries the identity it was asked for, and a modification
  either leaves the order's readback alone or sets the quantity and price it names and advances the
  revision.
\<close>

locale order_readback =
  fixes inv :: "'m \<Rightarrow> bool"
    and readback :: "'m \<Rightarrow> order_id \<Rightarrow> order_risk_view option"
    and modify :: "'m \<Rightarrow> order_id \<Rightarrow> quantity option \<Rightarrow> price option \<Rightarrow> timestamp \<Rightarrow> 'm option"
  assumes readback_identity: "inv m \<Longrightarrow> readback m oid = Some r \<Longrightarrow> rv_order_id r = oid"
    and readback_modify: "inv m \<Longrightarrow> readback m oid = Some r \<Longrightarrow> modify m oid nq np ts = Some m' \<Longrightarrow>
      readback m' oid = Some r \<or>
      (\<exists>st. readback m' oid = Some (r\<lparr>rv_revision := saturating_add (rv_revision r) 1,
         rv_qty := unwrap_or (rv_qty r) nq, rv_limit_price := opt_or np (rv_limit_price r),
         rv_status := st\<rparr>))"
begin

lemma view_orders:
  assumes "dec_exact D" and "inv m" and "rr_inv s" and "keys_of (orders_of s) oks"
    and "rr_view D qks oks s account (Some (readback m)) = Some (Ok view)"
    and "orders_of s oid = Some v"
  shows "\<exists>r. readback m oid = Some r \<and> matches_record v r \<and>
    set (entries v (max (rv_qty r - rv_cum_qty r) 0) (exposure_price v r)) \<subseteq> set (ae_pending view)"
proof -
  let ?look = "\<lambda>k. ok_or (risk_error ''admitted order lacks canonical OMS risk readback'') (readback m k)"
  from assms(5) have "project D qks s account (map ?look oks) = Some (Ok view)"
    by (simp add: rr_view_def split: if_splits)
  from project_exact [OF assms(1,3) this] obtain rs where
    rs: "map ?look oks = map Ok rs" "covered s rs"
    and pend: "set (concat (map (order_entries s) rs)) \<subseteq> set (ae_pending view)" by auto
  have "oid \<in> set oks" using assms(4,6) by (auto simp: keys_of_def)
  moreover have "?look ` set oks = Ok ` set rs" using arg_cong [OF rs(1), of set] by (simp only: set_map)
  ultimately have "?look oid \<in> Ok ` set rs" by (metis (no_types, lifting) imageI)
  then obtain r where r: "r \<in> set rs" "readback m oid = Some r" by auto
  with readback_identity [OF assms(2)] have "rv_order_id r = oid" by simp
  then have o: "order_entries s r = entries v (max (rv_qty r - rv_cum_qty r) 0) (exposure_price v r)"
    using assms(6) by (simp add: order_entries_def)
  have "matches_record v r"
    using rs(2) r(1) \<open>rv_order_id r = oid\<close> assms(6) unfolding covered_def by fastforce
  moreover have "set (order_entries s r) \<subseteq> set (ae_pending view)" using pend r(1) by auto
  ultimately show ?thesis using r(2) o by auto
qed

lemma view_queued:
  assumes "dec_exact D" and "rr_inv s" and "keys_of (queued_of s) qks"
    and "rr_view D qks oks s account (Some (readback m)) = Some (Ok view)"
    and "queued_of s c = Some v"
  shows "set (entries v (v_quantity v) (v_unit_price v)) \<subseteq> set (ae_pending view)"
proof -
  from assms(4) obtain xs where "project D qks s account xs = Some (Ok view)"
    by (auto simp: rr_view_def split: if_splits)
  from project_exact [OF assms(1,2) this]
  have "set (concat (map (\<lambda>v. entries v (v_quantity v) (v_unit_price v))
      (List.map_filter (queued_of s) qks))) \<subseteq> set (ae_pending view)" by auto
  moreover have "v \<in> set (List.map_filter (queued_of s) qks)"
    using assms(3,5) by (auto simp: keys_of_def set_map_filter_iff)
  ultimately show ?thesis by auto
qed

lemma replace_bounded:
  assumes "dec_exact D" and "inv m" and "readback m oid = Some r" and "orders_of s oid = Some v"
    and "order_exposure D v r = Some (Ok (q0, p0))" and "validate_replace D s r nq np = Some (Ok ())"
    and "modify m oid nq np ts = Some m'" and "readback m' oid = Some r'"
    and "orders_of (observe s (OrderModified oid nq np ts) (Some r') fcv qr) oid = Some v'"
    and "order_exposure D v' r' = Some (Ok (q1, p1))"
  shows "q1 * p1 \<le> q0 * p0"
proof -
  have id: "rv_order_id r = oid" using readback_identity [OF assms(2,3)] .
  note old = order_exposure_Ok [OF assms(1,5)]
  note new = order_exposure_Ok [OF assms(1,10)]
  let ?p = "case np of None \<Rightarrow> p0 | Some x \<Rightarrow> max x p0"
  have v': "v_observed_unit_price v' = (case rv_limit_price r' of None \<Rightarrow> v_observed_unit_price v
      | Some x \<Rightarrow> max (v_observed_unit_price v) x)"
    using assms(4,9) by (auto simp: Let_def split: option.splits if_splits)
  have p1: "p1 = exposure_price v r'"
    unfolding new(3) exposure_price_def v' by (simp add: max.commute split: option.splits)
  from assms(6) id assms(4,5) obtain q where
    q: "(case nq of None \<Rightarrow> Some q0 | Some whole \<Rightarrow> d_sub D whole (rv_cum_qty r)) = Some q"
    and guards: "\<not> is_some_and (\<lambda>q. q \<le> 0 \<or> q < rv_cum_qty r) nq"
    and le: "\<exists>a b. d_mul D q0 p0 = Some a \<and> d_mul D q ?p = Some b \<and> b \<le> a"
    by (auto simp: validate_replace_def bind_eq_Some_conv and_then_Ok_iff split: if_splits)
  have bound: "q * ?p \<le> q0 * p0" using le dec_exactD(3) [OF assms(1)] by auto
  have q0: "0 \<le> q0" using old(2) by simp
  from readback_modify [OF assms(2,3,7)] assms(8) show ?thesis
  proof (elim disjE)
    assume "readback m' oid = Some r"
    with assms(8) have "r' = r" by simp
    then show ?thesis using new(2) old(2,3) p1 by simp
  next
    assume "\<exists>st. readback m' oid = Some (r\<lparr>rv_revision := saturating_add (rv_revision r) 1,
         rv_qty := unwrap_or (rv_qty r) nq, rv_limit_price := opt_or np (rv_limit_price r), rv_status := st\<rparr>)"
    with assms(8) have r': "rv_qty r' = unwrap_or (rv_qty r) nq" "rv_cum_qty r' = rv_cum_qty r"
      "rv_limit_price r' = opt_or np (rv_limit_price r)" by auto
    have "q1 = q"
    proof (cases nq)
      case (Some whole)
      with q guards r' new(2) dec_exactD(2) [OF assms(1), of whole "rv_cum_qty r" q] show ?thesis by simp
    qed (use q r' new(2) old(2) in simp)
    moreover have "p1 \<le> ?p"
      unfolding p1 exposure_price_def r'(3) using old(3)
      by (cases np) (auto simp: exposure_price_def split: option.splits)
    moreover have "0 \<le> q1" using new(2) by simp
    ultimately show ?thesis using bound mult_left_mono [of p1 ?p q1] by auto
  qed
qed

end

subsection \<open>The order manager provides the interface\<close>

definition om_modify ::
  "dec_ops \<Rightarrow> oms_core \<Rightarrow> order_id \<Rightarrow> quantity option \<Rightarrow> price option \<Rightarrow> timestamp \<Rightarrow> oms_core option" where
  "om_modify D s oid nq np ts = map_option fst (om_on_execution_event D s (OrderModified oid nq np ts))"

lemma om_risk_view_put:
  "om_order_risk_view (put_order s oid r) oid = om_order_risk_view ((put_order s oid r)\<lparr>notional_contracts := cs\<rparr>) oid"
  by (simp add: om_order_risk_view_def)

lemma om_modify_readback:
  assumes "om_order_risk_view s oid = Some r" and "om_modify D s oid nq np ts = Some s'"
  shows "om_order_risk_view s' oid = Some r \<or>
    (\<exists>st. om_order_risk_view s' oid = Some (r\<lparr>rv_revision := saturating_add (rv_revision r) 1,
       rv_qty := unwrap_or (rv_qty r) nq, rv_limit_price := opt_or np (rv_limit_price r), rv_status := st\<rparr>))"
proof -
  from assms(1) obtain ord where ord: "orders s oid = Some ord"
    by (auto simp: om_order_risk_view_def split: option.splits)
  from assms(2) ord obtain u where "apply_order_modification D s oid nq np ts = Some (s', u)"
    by (auto simp: om_modify_def om_on_execution_event_def on_execution_event_def bind_eq_Some_conv)
  then show ?thesis
  proof (cases rule: modification_cases)
    case (plain ord')
    with ord assms(1) show ?thesis
      by (auto simp: om_order_risk_view_def modify_record_def Let_def split: option.splits)
  next
    case (contract ord' c lp diff rest requested)
    with ord assms(1) show ?thesis
      by (auto simp: om_order_risk_view_def modify_record_def Let_def split: option.splits)
  qed (use assms(1) in \<open>auto simp: om_order_risk_view_def\<close>)
qed

interpretation om: order_readback "oms_inv D" om_order_risk_view "om_modify D" for D
proof unfold_locales
  fix s oid r
  assume "oms_inv D s" "om_order_risk_view s oid = Some r"
  then show "rv_order_id r = oid"
    by (auto simp: om_order_risk_view_def order_wf_def dest: oms_inv_orderD(1) split: option.splits)
qed (rule om_modify_readback)

subsection \<open>Restart and readback\<close>

lemma check_queued_intro:
  "(\<And>k v. rc_queued cp k = Some v \<Longrightarrow>
     valuation_validate D v = Ok () \<and> v_client_order_id v = k \<and> v_observed_revision v = None) \<Longrightarrow>
   check_queued D cp ks = Ok ()"
  by (induction ks) (auto split: option.splits)

lemma check_bound_intro:
  assumes "\<And>k v. rc_orders cp k = Some v \<Longrightarrow>
      valuation_validate D v = Ok () \<and> k \<noteq> OrderId [] \<and> v_observed_revision v \<noteq> None"
    and "\<And>a b v w. rc_orders cp a = Some v \<Longrightarrow> rc_orders cp b = Some w \<Longrightarrow>
      v_client_order_id v = v_client_order_id w \<Longrightarrow> a = b"
    and "distinct ks" and "\<And>k v. k \<in> set ks \<Longrightarrow> rc_orders cp k = Some v \<Longrightarrow> v_client_order_id v \<notin> clients"
  shows "check_bound D cp ks clients = Ok ()"
  using assms(3,4)
proof (induction ks arbitrary: clients)
  case (Cons k ks)
  show ?case
  proof (cases "rc_orders cp k")
    case (Some v)
    have "v_client_order_id w \<notin> insert (v_client_order_id v) clients"
      if "k' \<in> set ks" "rc_orders cp k' = Some w" for k' w
      using Cons.prems that assms(2) [OF that(2) Some] by auto
    with Cons.IH [of "insert (v_client_order_id v) clients"] Cons.prems(1)
      Cons.prems(2) [of k v] assms(1) [OF Some] Some
    show ?thesis by simp
  qed (use Cons in auto)
qed simp

lemma confirm_covered:
  assumes "dec_exact D" and "rr_inv s" and "keys_of os ks" and "\<And>oid r. os oid = Some r \<Longrightarrow> o_order_id r = oid"
    and "project D qks s account (map (\<lambda>r. Ok (order_risk_view_of r)) (List.map_filter os ks)) = Some (Ok ae)"
    and "os oid = Some r"
  shows "case orders_of s oid of None \<Rightarrow> \<not> status_may_fill (o_status r)
    | Some v \<Rightarrow> matches_record v (order_risk_view_of r)"
proof -
  from project_exact [OF assms(1,2,5)] obtain rs where
    rs: "map (\<lambda>r. Ok (order_risk_view_of r)) (List.map_filter os ks) =
      (map Ok rs :: (hft_error + order_risk_view) list)" "covered s rs" by blast
  have "map Ok rs = (map Ok (map order_risk_view_of (List.map_filter os ks)) :: (hft_error + order_risk_view) list)"
    using rs(1) by (simp add: comp_def)
  then have "rs = map order_risk_view_of (List.map_filter os ks)"
    by (simp only: inj_map_eq_map [OF inj_Inr])
  moreover have "r \<in> set (List.map_filter os ks)"
    using assms(3,6) by (auto simp: keys_of_def set_map_filter_iff)
  ultimately have "order_risk_view_of r \<in> set rs" by simp
  with rs(2) have "case orders_of s (rv_order_id (order_risk_view_of r)) of
      None \<Rightarrow> \<not> status_may_fill (rv_status (order_risk_view_of r))
    | Some v \<Rightarrow> matches_record v (order_risk_view_of r)"
    unfolding covered_def by blast
  moreover have "rv_order_id (order_risk_view_of r) = oid" "rv_status (order_risk_view_of r) = o_status r"
    using assms(4) [OF assms(6)] by (simp_all add: order_risk_view_of_def)
  ultimately show ?thesis by (simp split: option.splits)
qed

subsection \<open>Sample reservation\<close>

definition sample_intent :: order_intent where
  "sample_intent = intent_crypto_spot (Symbol ''BTCUSDT'') Buy 10 Limit (Some 100) GTC ''s1'' (Some BINANCE)"

definition sample_env :: order_intent_envelope where
  "sample_env = \<lparr>env_intent = sample_intent, env_lifecycle = default_lifecycle,
     env_client_order_id = ''c1'', env_account_id = None, env_price_reference = None,
     env_source_book_identity = None\<rparr>"

definition sample_valuation :: valuation where
  "sample_valuation = \<lparr>v_client_order_id = ''c1'', v_strategy_id = ''s1'', v_account_id = None,
     v_venue = Some BINANCE, v_symbol = Symbol ''BTCUSDT'', v_side = Buy, v_asset_class = Crypto,
     v_product_type = Spot, v_quantity = 10, v_unit_price = 100, v_execution_price_bound = 100,
     v_observed_unit_price = 100, v_observed_revision = None\<rparr>"

definition sample_queued :: risk_reservations where
  "sample_queued = fst (reserve reservations_default sample_valuation)"

definition sample_new :: execution_event where
  "sample_new = OrderNew (OrderId ''o1'') (Some ''c1'') None (Symbol ''BTCUSDT'') Buy 10 (Some 100) None 5
     (Some BINANCE) ''s1''"

definition sample_manager :: oms_core where
  "sample_manager = on_order_new oms_new recovery_params (Some 100) 5"

definition sample_risk_view :: order_risk_view where
  "sample_risk_view = \<lparr>rv_revision = 0, rv_order_id = OrderId ''o1'', rv_strategy_id = Some ''s1'',
     rv_client_order_id = Some ''c1'', rv_account_id = None, rv_venue = Some BINANCE,
     rv_symbol = Symbol ''BTCUSDT'', rv_side = Buy, rv_qty = 10, rv_cum_qty = 0,
     rv_limit_price = Some 100, rv_status = P_New\<rparr>"

definition sample_bound :: risk_reservations where
  "sample_bound = observe sample_queued sample_new (Some sample_risk_view) {} False"

lemma sample_from_envelope: "from_envelope exact_dec sample_env = Ok sample_valuation"
  by (simp add: from_envelope_def envelope_prices_def sample_env_def sample_intent_def
      intent_crypto_spot_def Let_def valuation_validate_def sample_valuation_def blank_def)

lemma sample_queued_sel:
  "queued_of sample_queued = [''c1'' \<mapsto> sample_valuation]" "orders_of sample_queued = Map.empty"
  "recovery_required sample_queued = False"
  by (simp_all add: sample_queued_def reserve_def reservations_default_def default_checkpoint_def
      put_queued_def sample_valuation_def)

lemma sample_bound_sel:
  "queued_of sample_bound = Map.empty"
  "orders_of sample_bound = [OrderId ''o1'' \<mapsto> sample_valuation\<lparr>v_observed_revision := Some 0\<rparr>]"
  "recovery_required sample_bound = False"
  by (simp_all add: sample_bound_def sample_new_def sample_queued_sel sample_risk_view_def)
    (simp_all add: put_orders_def put_queued_def sample_queued_sel)

lemma sample_reachable: "rr_reachable exact_dec sample_queued" "rr_reachable exact_dec sample_bound"
proof -
  show q: "rr_reachable exact_dec sample_queued"
    unfolding sample_queued_def by (rule rr_next [OF rr_init rr_reserve [OF sample_from_envelope]])
  show "rr_reachable exact_dec sample_bound"
    unfolding sample_bound_def by (rule rr_next [OF q rr_observe])
qed

lemma sample_manager_view: "om_order_risk_view sample_manager (OrderId ''o1'') = Some sample_risk_view"
  by (simp add: sample_manager_def on_order_new_def register_order_def oms_new_def recovery_params_def
      put_order_def set_limit_price_def om_order_risk_view_def order_record_new_def sample_risk_view_def)

lemma sample_manager_inv: "oms_inv D sample_manager"
  unfolding sample_manager_def by (rule on_order_new_inv) simp

lemma sample_matches: "matches_record (sample_valuation\<lparr>v_observed_revision := Some 0\<rparr>) sample_risk_view"
  by (simp add: matches_record_def sample_valuation_def sample_risk_view_def permits_execution_price_def
      word_less_nat_alt unsigned_minus_1_eq_mask mask_eq_exp_minus_1)

subsection \<open>Properties\<close>

text \<open>
  In every state the reservations can reach, a client order is reserved at most once, whether
  queued or bound to an order, every reservation has a positive quantity and a price that bounds what
  was admitted, and every terminal hold still has its valuation.
\<close>

theorem reservations_unique:
  assumes "rr_reachable D s"
  shows "(\<forall>c v w. reserved s c v \<longrightarrow> reserved s c w \<longrightarrow> v = w) \<and>
    (\<forall>c v. reserved s c v \<longrightarrow> 0 < v_quantity v \<and> 0 < v_unit_price v \<and>
       v_execution_price_bound v \<le> v_unit_price v \<and> v_unit_price v \<le> v_observed_unit_price v) \<and>
    awaiting_of s \<subseteq> dom (orders_of s)"
proof -
  note inv = rr_invD [OF rr_reachable_rr_inv [OF assms]]
  have "v = w" if "reserved s c v" "reserved s c w" for c v w
    using that unfolding reserved_def
    by (metis inv(2,3) option.distinct(1) option.inject)
  moreover have "valuation_wf v" if "reserved s c v" for c v
    using that inv(1,2) unfolding reserved_def by blast
  ultimately show ?thesis using inv(4) unfolding valuation_wf_def by blast
qed

theorem reservations_unique_witness:
  "{w. reserved sample_queued ''c1'' w} = {sample_valuation}"
proof -
  have "reserved sample_queued ''c1'' sample_valuation" by (simp add: reserved_def sample_queued_sel)
  with reservations_unique [OF sample_reachable(1)] show ?thesis by blast
qed

text \<open>
  C4. Risk is released only on evidence: across any execution event that the engine lets through, a
  reserved client order stays reserved, with the same identity, quantity and price bounds and an
  observed price that has not dropped, unless the event proves that no more of it can execute: it was
  never submitted, it is filled, or its venue's cancellations are final.
\<close>

theorem reservation_released_only_on_evidence:
  assumes "rr_reachable D s" and "validate_new s ev = Ok ()" and "reserved s c v"
  shows "release_evidence s c ev order fcv qr \<or>
    (\<exists>v'. reserved (observe s ev order fcv qr) c v' \<and> same_admission v v')"
  using observe_reserved [OF rr_reachable_rr_inv [OF assms(1)] assms(2,3)] by blast

theorem reservation_released_only_on_evidence_witness:
  "reserved sample_bound ''c1'' (sample_valuation\<lparr>v_observed_revision := Some 0\<rparr>) \<and>
   (\<exists>v'. reserved (observe sample_bound (OrderCanceled (OrderId ''o1'') 9) None {} False) ''c1'' v' \<and>
      same_admission (sample_valuation\<lparr>v_observed_revision := Some 0\<rparr>) v')"
proof -
  have r: "reserved sample_bound ''c1'' (sample_valuation\<lparr>v_observed_revision := Some 0\<rparr>)"
    by (simp add: reserved_def sample_bound_sel sample_valuation_def)
  have "validate_new sample_bound (OrderCanceled (OrderId ''o1'') 9) = Ok ()" by simp
  from reservation_released_only_on_evidence [OF sample_reachable(2) this r, of None "{}" False] r
  show ?thesis by simp
qed





text \<open>
  Trading resumes only after full readback: when \<open>confirm_readback\<close> succeeds, nothing is queued,
  every order the canonical records show as able to fill holds a reservation that matches it, every
  reservation that remains is of such an order, and no order the records show as finished is among those
  the venue still reports open.
\<close>

theorem readback_resumes_reconciled:
  assumes "dec_exact D" and "rr_reachable D s" and "keys_of os ks"
    and "\<And>oid r. os oid = Some r \<Longrightarrow> o_order_id r = oid"
    and "confirm_readback D qks ks s account os ids clients = Some (s', Ok ())"
  shows "is_ready s' \<and> \<not> has_queued s' \<and>
    (\<forall>oid r. os oid = Some r \<longrightarrow> status_may_fill (o_status r) \<longrightarrow>
       (\<exists>v. orders_of s' oid = Some v \<and> matches_record v (order_risk_view_of r))) \<and>
    (\<forall>oid v. orders_of s' oid = Some v \<longrightarrow> (\<exists>r. os oid = Some r \<and> status_may_fill (o_status r))) \<and>
    (\<forall>oid r. os oid = Some r \<longrightarrow> \<not> status_may_fill (o_status r) \<longrightarrow> \<not> still_open_at_venue ids clients r)"
  using assms(5)
proof (cases rule: confirm_cases)
  case (confirmed ae)
  note inv = rr_reachable_rr_inv [OF assms(2)]
  have s': "queued_of s' = Map.empty" "orders_of s' = (\<lambda>oid.
      if is_some_and (\<lambda>r. status_may_fill (o_status r)) (os oid) then orders_of s oid else None)"
    using confirmed(2,6) by (simp_all add: put_awaiting_def put_orders_def)
  have 1: "\<exists>v. orders_of s' oid = Some v \<and> matches_record v (order_risk_view_of r)"
    if "os oid = Some r" "status_may_fill (o_status r)" for oid r
    using confirm_covered [OF assms(1) inv assms(3,4) confirmed(4) that(1)] that
    by (cases "orders_of s oid") (auto simp: s')
  have 2: "\<exists>r. os oid = Some r \<and> status_may_fill (o_status r)" if "orders_of s' oid = Some v" for oid v
    using that by (cases "os oid") (auto simp: s' split: if_splits)
  have 3: "\<not> still_open_at_venue ids clients r" if "os oid = Some r" "\<not> status_may_fill (o_status r)" for oid r
    using confirmed(5) [of r] that assms(3) by (auto simp: keys_of_def set_map_filter_iff)
  have "is_ready s'" "\<not> has_queued s'"
    using confirmed(6) s'(1) by (simp_all add: is_ready_def has_queued_def)
  with 1 2 3 show ?thesis by blast
qed simp

theorem readback_resumes_reconciled_witness:
  "\<exists>s'. confirm_readback exact_dec [] [] reservations_default default_account_view Map.empty {} {} = Some (s', Ok ()) \<and>
     is_ready s' \<and> \<not> has_queued s'"
proof -
  obtain s' where s': "confirm_readback exact_dec [] [] reservations_default default_account_view Map.empty {} {} =
      Some (s', Ok ())"
    by (simp add: confirm_readback_def reservations_default_def default_checkpoint_def project_def
        List.map_filter_simps)
  have "keys_of (Map.empty :: order_id \<rightharpoonup> ports_order_record) []" by (simp add: keys_of_def)
  from readback_resumes_reconciled [OF dec_exact_exact_dec rr_init this _ s'] s' show ?thesis by auto
qed

text \<open>
  A restart keeps every reservation and always pauses: the checkpoint exported from a reachable
  state, whose order ids are not empty and whose notionals are representable, is accepted by a fresh
  instance, restores the same reservations, and leaves trading blocked until reconciliation.
\<close>

theorem reservation_restart:
  assumes "rr_reachable D s" and "rc_schema (rr_checkpoint s) = 3"
    and "keys_of (queued_of s) qks" and "keys_of (orders_of s) oks" and "orders_of s (OrderId []) = None"
    and "\<And>c v. reserved s c v \<Longrightarrow> d_mul D (v_quantity v) (v_observed_unit_price v) \<noteq> None"
  shows "\<exists>s'. rr_restore D qks oks reservations_default (rr_export s) = (s', Ok ()) \<and>
    rr_export s' = rr_export s \<and> \<not> is_ready s'"
proof -
  note inv = rr_invD [OF rr_reachable_rr_inv [OF assms(1)]]
  let ?cp = "rr_checkpoint s"
  have q: "check_queued D ?cp qks = Ok ()"
    using inv(1) assms(6) unfolding reserved_def
    by (intro check_queued_intro conjI; (unfold validate_Ok)?) blast+
  have ne: "k \<noteq> OrderId []" if "orders_of s k = Some v" for k v using that assms(5) by auto
  have b: "check_bound D ?cp oks (set qks) = Ok ()"
  proof (rule check_bound_intro)
    show "valuation_validate D v = Ok () \<and> k \<noteq> OrderId [] \<and> v_observed_revision v \<noteq> None"
      if "orders_of s k = Some v" for k v
      using inv(2) [OF that] ne [OF that] assms(6) [of "v_client_order_id v" v] that
      by (auto simp: validate_Ok reserved_def)
    show "v_client_order_id v \<notin> set qks" if "orders_of s k = Some v" for k v
      using inv(2) [OF that] assms(3) by (auto simp: keys_of_def)
  qed (use inv(3) assms(4) in \<open>auto simp: keys_of_def\<close>)
  have fresh: "queued_of reservations_default = Map.empty" "orders_of reservations_default = Map.empty"
    by (simp_all add: reservations_default_def default_checkpoint_def)
  show ?thesis
    using q b inv(4) assms(2) by (simp add: rr_restore_def rr_export_def fresh is_ready_def)
qed

theorem reservation_restart_witness:
  "\<exists>s'. rr_restore exact_dec [''c1''] [] reservations_default (rr_export sample_queued) = (s', Ok ()) \<and>
     rr_export s' = rr_export sample_queued \<and> \<not> is_ready s'"
proof (rule reservation_restart [OF sample_reachable(1)])
  show "rc_schema (rr_checkpoint sample_queued) = 3"
    by (simp add: sample_queued_def reserve_def reservations_default_def default_checkpoint_def put_queued_def)
qed (simp_all add: keys_of_def sample_queued_sel)

end
