(* ===== verification/Portfolio.thy ===== *)
theory Portfolio
  imports Ports
begin

text \<open>
  The portfolio (\<open>risk-control/portfolio-core/src/lib.rs\<close>): positions, cash, profit and loss and
  drawdown of one account, driven by fills, fees and market prices, with the checkpoint it exports and
  the checks under which it restores one.

  \<^item> \<open>None\<close> is the panic of a decimal operator.
  \<^item> \<open>ks\<close> gives the order in which a map of positions with a given set of keys is iterated.
  \<^item> \<open>dg\<close> is the checksum of a checkpoint: the hash function and the number formatting it rests on
    are library code. It does not read the checksum field of the checkpoint it is applied to.
\<close>

subsection \<open>Doubles\<close>

text \<open>
  A percentage is a decimal printed and parsed back as a double. Parsing rounds to the nearest double,
  ties to even; the magnitudes of decimals, at most \<open>2\<^sup>9\<^sup>6\<close> and at least \<open>10\<close> to the power \<open>-28\<close>, are
  in the range of normal doubles, of 53 significant bits.
\<close>

definition round_half_even :: "rat \<Rightarrow> int" where
  "round_half_even y =
     (let f = \<lfloor>y\<rfloor>; d = y - of_int f
      in if d < 1 / 2 then f else if 1 / 2 < d then f + 1 else if even f then f else f + 1)"

text \<open>The exponent \<open>e\<close> of a positive rational, with \<open>2\<^sup>e \<le> x < 2\<^sup>e\<^sup>+\<^sup>1\<close>.\<close>

definition binary_exponent :: "rat \<Rightarrow> int" where
  "binary_exponent x =
     (if 1 \<le> x then int (bit_length (nat \<lfloor>x\<rfloor>)) - 1
      else - int (bit_length (nat (\<lceil>1 / x\<rceil> - 1))))"

definition parse_f64 :: "decimal \<Rightarrow> f64" where
  "parse_f64 x =
     (if x = 0 then 0
      else let ulp = 2 powi (binary_exponent \<bar>x\<bar> - 52)
           in sgn x * of_int (round_half_even (\<bar>x\<bar> / ulp)) * ulp)"

subsection \<open>State\<close>

definition accounting_event_replay_capacity :: nat where
  "accounting_event_replay_capacity = 200000"

record portfolio_state =
  ps_account_view :: account_view
  ps_total_fees :: decimal
  ps_order_meta :: "order_id \<rightharpoonup> symbol \<times> side"
  ps_market_prices :: "symbol \<rightharpoonup> price"
  ps_processed_fill_ids :: "order_id \<rightharpoonup> string set"
  ps_processed_fee_ids :: "order_id \<rightharpoonup> string set"
  ps_recent_accounting_event_ids :: "(order_id \<times> string) list"
  ps_reconciliation_exceptions :: "reconciliation_exception list"
  ps_canonical_state_digest :: "string option"

record portfolio =
  pf_view :: account_view
  pf_snapshot :: account_view
  pf_order_meta :: "order_id \<rightharpoonup> symbol \<times> side"
  pf_market_prices :: "symbol \<rightharpoonup> price"
  pf_processed_fill_ids :: "order_id \<rightharpoonup> string set"
  pf_processed_fee_ids :: "order_id \<rightharpoonup> string set"
  pf_total_fees :: decimal
  pf_recent_accounting_event_ids :: "(order_id \<times> string) list"
  pf_reconciliation_exceptions :: "reconciliation_exception list"

definition portfolio_default :: portfolio where
  "portfolio_default = \<lparr>
     pf_view = default_account_view, pf_snapshot = default_account_view,
     pf_order_meta = Map.empty, pf_market_prices = Map.empty, pf_processed_fill_ids = Map.empty,
     pf_processed_fee_ids = Map.empty, pf_total_fees = 0, pf_recent_accounting_event_ids = [],
     pf_reconciliation_exceptions = []\<rparr>"

definition publish :: "portfolio \<Rightarrow> portfolio" where
  "publish s = s\<lparr>pf_snapshot := pf_view s\<rparr>"

definition with_cash_balance :: "decimal \<Rightarrow> portfolio" where
  "with_cash_balance cash =
     publish (portfolio_default\<lparr>pf_view := default_account_view\<lparr>
       av_cash_balance := cash, av_high_water_mark := (if 0 < cash then cash else 0)\<rparr>\<rparr>)"

definition pf_record_exception ::
  "portfolio \<Rightarrow> order_id option \<Rightarrow> message \<Rightarrow> execution_event option \<Rightarrow> portfolio" where
  "pf_record_exception s oid reason ev =
     s\<lparr>pf_reconciliation_exceptions := pf_reconciliation_exceptions s @
         [\<lparr>x_order_id = oid, x_reason = reason, x_event = ev\<rparr>]\<rparr>"

definition pf_register_order :: "portfolio \<Rightarrow> order_id \<Rightarrow> symbol \<Rightarrow> side \<Rightarrow> portfolio" where
  "pf_register_order s oid sm sd =
     (case pf_order_meta s oid of
        Some (sm', sd') \<Rightarrow>
          if sm' = sm \<and> sd' = sd then s
          else pf_record_exception s (Some oid)
                 (Msg ''conflicting portfolio order metadata registration'') None
      | None \<Rightarrow> s\<lparr>pf_order_meta := (pf_order_meta s)(oid \<mapsto> (sm, sd))\<rparr>)"

subsection \<open>Marking to market\<close>

definition update_drawdown_stats :: "dec_ops \<Rightarrow> symbol list \<Rightarrow> account_view \<Rightarrow> account_view option" where
  "update_drawdown_stats D ks v = do {
     eq \<leftarrow> equity D ks v;
     let hwm = (if av_high_water_mark v < eq then eq else av_high_water_mark v);
     (if 0 < hwm then do {
        drawdown \<leftarrow> d_sub D hwm eq;
        ratio \<leftarrow> d_div D drawdown hwm;
        pct \<leftarrow> d_mul D ratio 100;
        let dd = max (parse_f64 pct) 0;
        Some (v\<lparr>av_high_water_mark := hwm, av_drawdown_pct := dd,
          av_max_drawdown_pct := (if av_max_drawdown_pct v < dd then dd else av_max_drawdown_pct v)\<rparr>) }
      else Some (v\<lparr>av_high_water_mark := hwm, av_drawdown_pct := 0\<rparr>)) }"

text \<open>The loop over the positions: each marked position and the running total.\<close>

fun mark_positions ::
  "dec_ops \<Rightarrow> (symbol \<rightharpoonup> price) \<Rightarrow> symbol list \<Rightarrow> (symbol \<rightharpoonup> position) \<Rightarrow> decimal
   \<Rightarrow> ((symbol \<rightharpoonup> position) \<times> decimal) option" where
  "mark_positions D mp [] ps acc = Some (ps, acc)"
| "mark_positions D mp (k # ks) ps acc =
     (case (ps k, mp k) of
        (Some pos, Some mark) \<Rightarrow> do {
          diff \<leftarrow> d_sub D mark (pos_avg_price pos);
          unrealized \<leftarrow> d_mul D diff (pos_quantity pos);
          acc' \<leftarrow> d_add D acc unrealized;
          mark_positions D mp ks (ps(k \<mapsto> pos\<lparr>pos_unrealized_pnl := unrealized\<rparr>)) acc' }
      | _ \<Rightarrow> mark_positions D mp ks ps acc)"

definition recalculate_view ::
  "dec_ops \<Rightarrow> (symbol set \<Rightarrow> symbol list) \<Rightarrow> (symbol \<rightharpoonup> price) \<Rightarrow> account_view \<Rightarrow> account_view option" where
  "recalculate_view D ks mp v = do {
     (ps, unrealized) \<leftarrow> mark_positions D mp (ks (dom (av_positions v))) (av_positions v) 0;
     update_drawdown_stats D (ks (dom (av_positions v)))
       (v\<lparr>av_positions := ps, av_unrealized_pnl := unrealized\<rparr>) }"

definition recalculate_unrealized_pnl ::
  "dec_ops \<Rightarrow> (symbol set \<Rightarrow> symbol list) \<Rightarrow> portfolio \<Rightarrow> portfolio option" where
  "recalculate_unrealized_pnl D ks s = do {
     v \<leftarrow> recalculate_view D ks (pf_market_prices s) (pf_view s);
     Some (s\<lparr>pf_view := v\<rparr>) }"

definition update_market_prices ::
  "dec_ops \<Rightarrow> (symbol set \<Rightarrow> symbol list) \<Rightarrow> portfolio \<Rightarrow> (symbol \<rightharpoonup> price) \<Rightarrow> portfolio option" where
  "update_market_prices D ks s prices = do {
     s' \<leftarrow> recalculate_unrealized_pnl D ks (s\<lparr>pf_market_prices := pf_market_prices s ++ prices\<rparr>);
     Some (publish s') }"

subsection \<open>Fills and fees\<close>

definition signed_qty :: "side \<Rightarrow> quantity \<Rightarrow> decimal" where
  "signed_qty sd q = (case sd of Buy \<Rightarrow> q | Sell \<Rightarrow> - q)"

definition increases_same_side :: "decimal \<Rightarrow> decimal \<Rightarrow> bool" where
  "increases_same_side old_qty delta \<longleftrightarrow>
     old_qty = 0 \<or> 0 < old_qty \<and> 0 < delta \<or> old_qty < 0 \<and> delta < 0"

text \<open>The two branches of \<open>apply_fill\<close>: the position and the account's realized profit.\<close>

definition increase_position ::
  "dec_ops \<Rightarrow> position \<Rightarrow> decimal \<Rightarrow> price \<Rightarrow> decimal \<Rightarrow> (position \<times> decimal) option" where
  "increase_position D pos delta p realized = do {
     gross \<leftarrow> d_add D \<bar>pos_quantity pos\<bar> \<bar>delta\<bar>;
     a \<leftarrow> d_mul D (pos_avg_price pos) \<bar>pos_quantity pos\<bar>;
     b \<leftarrow> d_mul D p \<bar>delta\<bar>;
     c \<leftarrow> d_add D a b;
     avg \<leftarrow> d_div D c gross;
     Some (pos\<lparr>pos_avg_price := avg\<rparr>, realized) }"

definition reduce_position ::
  "dec_ops \<Rightarrow> position \<Rightarrow> decimal \<Rightarrow> decimal \<Rightarrow> price \<Rightarrow> decimal \<Rightarrow> (position \<times> decimal) option" where
  "reduce_position D pos delta new_qty p realized = do {
     diff \<leftarrow> d_sub D p (pos_avg_price pos);
     x \<leftarrow> d_mul D diff (min \<bar>pos_quantity pos\<bar> \<bar>delta\<bar>);
     realized_delta \<leftarrow> d_mul D x (if 0 < pos_quantity pos then 1 else - 1);
     pr \<leftarrow> d_add D (pos_realized_pnl pos) realized_delta;
     vr \<leftarrow> d_add D realized realized_delta;
     Some (pos\<lparr>pos_realized_pnl := pr,
               pos_avg_price := (if new_qty = 0 then 0
                                 else if (0 < new_qty) \<noteq> (0 < pos_quantity pos) then p
                                 else pos_avg_price pos)\<rparr>, vr) }"

definition empty_position :: "symbol \<Rightarrow> position" where
  "empty_position sm = \<lparr>pos_symbol = sm, pos_quantity = 0, pos_avg_price = 0,
     pos_unrealized_pnl = 0, pos_realized_pnl = 0\<rparr>"

definition apply_fill :: "dec_ops \<Rightarrow> account_view \<Rightarrow> symbol \<Rightarrow> side \<Rightarrow> price \<Rightarrow> quantity \<Rightarrow> account_view option" where
  "apply_fill D v sm sd p q =
     (let pos = unwrap_or (empty_position sm) (av_positions v sm);
          delta = signed_qty sd q
      in do {
        new_qty \<leftarrow> d_add D (pos_quantity pos) delta;
        (pos1, realized) \<leftarrow>
          (if increases_same_side (pos_quantity pos) delta
           then increase_position D pos delta p (av_realized_pnl v)
           else reduce_position D pos delta new_qty p (av_realized_pnl v));
        cost \<leftarrow> d_mul D p delta;
        cash \<leftarrow> d_sub D (av_cash_balance v) cost;
        Some (v\<lparr>av_realized_pnl := realized, av_cash_balance := cash,
                av_positions := (av_positions v)(sm :=
                  (if new_qty = 0 then None else Some (pos1\<lparr>pos_quantity := new_qty\<rparr>)))\<rparr>) })"

definition record_accounting_event :: "(order_id \<times> string) list \<Rightarrow> order_id \<Rightarrow> string \<Rightarrow> (order_id \<times> string) list" where
  "record_accounting_event js oid eid =
     (if accounting_event_replay_capacity \<le> length js then drop 1 js else js) @ [(oid, eid)]"

definition seen_ids :: "(order_id \<rightharpoonup> string set) \<Rightarrow> order_id \<Rightarrow> string set" where
  "seen_ids m oid = unwrap_or {} (m oid)"

definition pf_on_fill ::
  "dec_ops \<Rightarrow> (symbol set \<Rightarrow> symbol list) \<Rightarrow> portfolio \<Rightarrow> order_id \<Rightarrow> price \<Rightarrow> quantity
   \<Rightarrow> timestamp \<Rightarrow> string \<Rightarrow> portfolio option" where
  "pf_on_fill D ks s oid p q ts fid =
     (let refuse = (\<lambda>reason. Some (pf_record_exception s (Some oid) (Msg reason) (Some (Fill oid p q ts fid))))
      in if q \<le> 0 then refuse ''fill has non-positive quantity''
         else if p \<le> 0 then refuse ''fill has non-positive price''
         else if fid = [] then refuse ''fill is missing the venue execution identity''
         else case pf_order_meta s oid of
           None \<Rightarrow> refuse ''fill references an unknown portfolio order''
         | Some (sm, sd) \<Rightarrow>
             if fid \<in> seen_ids (pf_processed_fill_ids s) oid
             then Some (publish (s\<lparr>pf_processed_fill_ids := (pf_processed_fill_ids s)(oid \<mapsto>
                    insert fid (seen_ids (pf_processed_fill_ids s) oid))\<rparr>))
             else do {
               v \<leftarrow> apply_fill D (pf_view s) sm sd p q;
               s' \<leftarrow> recalculate_unrealized_pnl D ks (s\<lparr>
                 pf_processed_fill_ids := (pf_processed_fill_ids s)(oid \<mapsto>
                   insert fid (seen_ids (pf_processed_fill_ids s) oid)),
                 pf_recent_accounting_event_ids :=
                   record_accounting_event (pf_recent_accounting_event_ids s) oid (''fill:'' @ fid),
                 pf_view := v,
                 pf_market_prices := (pf_market_prices s)(sm \<mapsto> p)\<rparr>);
               Some (publish s') })"

definition pf_on_fee ::
  "dec_ops \<Rightarrow> (symbol set \<Rightarrow> symbol list) \<Rightarrow> portfolio \<Rightarrow> order_id \<Rightarrow> decimal \<Rightarrow> timestamp
   \<Rightarrow> string \<Rightarrow> portfolio option" where
  "pf_on_fee D ks s oid amount ts fid =
     (let ev = FeeCharged oid amount ts fid;
          refuse = (\<lambda>reason. pf_record_exception s (Some oid) (Msg reason) (Some ev));
          fee_id = ''fee:'' @ fid;
          seen = seen_ids (pf_processed_fee_ids s) oid
      in if amount < 0 then Some (refuse ''fee amount is negative'')
         else if pf_order_meta s oid = None
         then Some (publish (refuse ''fee references an unknown portfolio order''))
         else if fid = [] then Some (refuse ''fee is missing the venue execution identity'')
         else if fee_id \<in> seen
         then Some (publish (s\<lparr>pf_processed_fee_ids := (pf_processed_fee_ids s)(oid \<mapsto> insert fee_id seen)\<rparr>))
         else do {
           cash \<leftarrow> d_sub D (av_cash_balance (pf_view s)) amount;
           realized \<leftarrow> d_sub D (av_realized_pnl (pf_view s)) amount;
           fees \<leftarrow> d_add D (pf_total_fees s) amount;
           v \<leftarrow> update_drawdown_stats D (ks (dom (av_positions (pf_view s))))
                  ((pf_view s)\<lparr>av_cash_balance := cash, av_realized_pnl := realized\<rparr>);
           Some (publish (s\<lparr>
             pf_processed_fee_ids := (pf_processed_fee_ids s)(oid \<mapsto> insert fee_id seen),
             pf_recent_accounting_event_ids :=
               record_accounting_event (pf_recent_accounting_event_ids s) oid fee_id,
             pf_view := v, pf_total_fees := fees\<rparr>)) })"

fun pf_on_execution_event ::
  "dec_ops \<Rightarrow> (symbol set \<Rightarrow> symbol list) \<Rightarrow> portfolio \<Rightarrow> execution_event \<Rightarrow> portfolio option" where
  "pf_on_execution_event D ks s (Fill oid p q ts fid) = pf_on_fill D ks s oid p q ts fid"
| "pf_on_execution_event D ks s (FeeCharged oid amount ts fid) = pf_on_fee D ks s oid amount ts fid"
| "pf_on_execution_event D ks s _ = Some (publish s)"

subsection \<open>Readbacks\<close>

definition update_cash_balance :: "portfolio \<Rightarrow> decimal \<Rightarrow> portfolio \<times> (message + unit)" where
  "update_cash_balance s cash = (publish (s\<lparr>pf_view := (pf_view s)\<lparr>av_cash_balance := cash\<rparr>\<rparr>), Ok ())"

fun check_attestations :: "account_view \<Rightarrow> instrument_key list \<Rightarrow> message + unit" where
  "check_attestations av [] = Ok ()"
| "check_attestations av (k # ks) =
     (case av_tokenized_securities_attestations av k of
        None \<Rightarrow> check_attestations av ks
      | Some a \<Rightarrow>
          (case av_account_id av of
             None \<Rightarrow> Err (Msg ''tokenized securities attestation has no account scope'')
           | Some acc \<Rightarrow>
               if at_account_id a \<noteq> acc \<or> ik_venue k \<noteq> at_venue a
                 \<or> ik_product_type k \<noteq> at_product_type a \<or> ik_symbol k \<noteq> at_symbol a
               then Err (Msg ''tokenized securities attestation disagrees with its AccountView key'')
               else check_attestations av ks))"

fun check_inventory :: "dec_ops \<Rightarrow> account_view \<Rightarrow> string list \<Rightarrow> (message + unit) option" where
  "check_inventory D av [] = Some (Ok ())"
| "check_inventory D av (k # ks) =
     (case av_asset_inventory av k of
        None \<Rightarrow> check_inventory D av ks
      | Some r \<Rightarrow>
          if k \<noteq> inv_asset r
          then Some (Err (Msg ''asset inventory key disagrees with its record asset''))
          else do {
            res \<leftarrow> inventory_validate D r;
            (case res of
               Inl e \<Rightarrow> Some (Err (MsgCause ''invalid asset inventory readback'' (error_message e)))
             | Inr _ \<Rightarrow> check_inventory D av ks) })"

definition validate_account_view_scope ::
  "dec_ops \<Rightarrow> instrument_key list \<Rightarrow> string list \<Rightarrow> portfolio \<Rightarrow> account_view \<Rightarrow> (message + unit) option" where
  "validate_account_view_scope D aks iks s av =
     (if is_some_and (\<lambda>e. av_account_id av \<noteq> Some e) (av_account_id (pf_view s))
      then Some (Err (Msg ''account readback identity disagrees with Portfolio scope''))
      else try_then (Some (check_attestations av aks)) (\<lambda>_. check_inventory D av iks))"

definition publish_account_readback ::
  "dec_ops \<Rightarrow> instrument_key list \<Rightarrow> string list \<Rightarrow> portfolio \<Rightarrow> account_view
   \<Rightarrow> (portfolio \<times> (message + unit)) option" where
  "publish_account_readback D aks iks s av = do {
     r \<leftarrow> validate_account_view_scope D aks iks s av;
     Some (case r of
         Inl e \<Rightarrow> (s, Err e)
       | Inr _ \<Rightarrow> (publish (s\<lparr>pf_view := av\<rparr>), Ok ())) }"

subsection \<open>Checkpoints\<close>

definition canonical_state_digest :: "(portfolio_state \<Rightarrow> string) \<Rightarrow> portfolio_state \<Rightarrow> string" where
  "canonical_state_digest dg st = dg (st\<lparr>ps_canonical_state_digest := None\<rparr>)"

definition pf_export_state :: "(portfolio_state \<Rightarrow> string) \<Rightarrow> portfolio \<Rightarrow> portfolio_state" where
  "pf_export_state dg s =
     (let st = \<lparr>ps_account_view = pf_view s, ps_total_fees = pf_total_fees s,
                ps_order_meta = pf_order_meta s, ps_market_prices = pf_market_prices s,
                ps_processed_fill_ids = pf_processed_fill_ids s,
                ps_processed_fee_ids = pf_processed_fee_ids s,
                ps_recent_accounting_event_ids = pf_recent_accounting_event_ids s,
                ps_reconciliation_exceptions = pf_reconciliation_exceptions s,
                ps_canonical_state_digest = None\<rparr>
      in st\<lparr>ps_canonical_state_digest := Some (canonical_state_digest dg st)\<rparr>)"

definition starts_with :: "string \<Rightarrow> string \<Rightarrow> bool" where
  "starts_with pre s \<longleftrightarrow> take (length pre) s = pre"

fun check_journal :: "portfolio_state \<Rightarrow> (order_id \<times> string) list \<Rightarrow> message + unit" where
  "check_journal st [] = Ok ()"
| "check_journal st ((oid, eid) # js) =
     (if ps_order_meta st oid = None
      then Err (MsgOrder ''accounting journal references unknown order'' oid)
      else if eid = [] \<or> \<not> starts_with ''fill:'' eid \<and> \<not> starts_with ''fee:'' eid
      then Err (Msg ''accounting journal contains an untyped event identity'')
      else check_journal st js)"

text \<open>
  The loops over the maps return at the first offending key in iteration order; \<open>iks\<close>, \<open>fks\<close> and \<open>eks\<close>
  are the orders of the inventory and of the two identity maps.
\<close>

definition validate_state ::
  "(portfolio_state \<Rightarrow> string) \<Rightarrow> (symbol set \<Rightarrow> symbol list) \<Rightarrow> string list \<Rightarrow> order_id list \<Rightarrow> order_id list
   \<Rightarrow> portfolio_state \<Rightarrow> message + unit" where
  "validate_state dg ks iks fks eks st =
     (let view = ps_account_view st in
      if is_some_and (\<lambda>e. e \<noteq> canonical_state_digest dg st) (ps_canonical_state_digest st)
      then Err (Msg ''portfolio canonical financial checkpoint digest mismatch'')
      else if list_ex (\<lambda>sm. is_some_and (\<lambda>pos. sm \<noteq> pos_symbol pos) (av_positions view sm))
                (ks (dom (av_positions view)))
      then Err (Msg ''portfolio position key does not match position symbol'')
      else if list_ex (\<lambda>a. is_some_and (\<lambda>r. a \<noteq> inv_asset r) (av_asset_inventory view a)) iks
      then Err (Msg ''asset inventory key does not match record asset'')
      else case List.find (\<lambda>oid. ps_order_meta st oid = None) fks of
        Some oid \<Rightarrow> Err (MsgOrder ''processed fill namespace references unknown order'' oid)
      | None \<Rightarrow>
          (case List.find (\<lambda>oid. ps_order_meta st oid = None) eks of
             Some oid \<Rightarrow> Err (MsgOrder ''processed fee namespace references unknown order'' oid)
           | None \<Rightarrow> check_journal st (ps_recent_accounting_event_ids st)))"

text \<open>The fee identities of the journal are added to the fee namespace.\<close>

fun restore_fees :: "(order_id \<times> string) list \<Rightarrow> portfolio \<Rightarrow> portfolio" where
  "restore_fees [] s = s"
| "restore_fees ((oid, eid) # js) s =
     restore_fees js
       (if starts_with ''fee:'' eid
        then let s1 = s\<lparr>pf_processed_fee_ids := (pf_processed_fee_ids s)(oid \<mapsto>
                          insert eid (seen_ids (pf_processed_fee_ids s) oid))\<rparr>
             in if eid = ''fee:''
                then pf_record_exception s1 (Some oid) (Msg ''snapshot contains an empty fee identity'') None
                else s1
        else s)"

definition try_import_state ::
  "(portfolio_state \<Rightarrow> string) \<Rightarrow> dec_ops \<Rightarrow> (symbol set \<Rightarrow> symbol list) \<Rightarrow> string list
   \<Rightarrow> order_id list \<Rightarrow> order_id list \<Rightarrow> portfolio \<Rightarrow> portfolio_state \<Rightarrow> (portfolio \<times> (message + unit)) option" where
  "try_import_state dg D ks iks fks eks s st =
     (case validate_state dg ks iks fks eks st of
        Inl e \<Rightarrow> Some (s, Err e)
      | Inr _ \<Rightarrow>
          let s1 = s\<lparr>pf_view := ps_account_view st, pf_total_fees := ps_total_fees st,
                     pf_order_meta := ps_order_meta st, pf_market_prices := ps_market_prices st,
                     pf_processed_fill_ids := ps_processed_fill_ids st,
                     pf_processed_fee_ids := ps_processed_fee_ids st,
                     pf_reconciliation_exceptions := ps_reconciliation_exceptions st\<rparr>;
              s2 = restore_fees (ps_recent_accounting_event_ids st) s1;
              s3 = s2\<lparr>pf_recent_accounting_event_ids :=
                     rev (take accounting_event_replay_capacity (rev (ps_recent_accounting_event_ids st)))\<rparr>
          in do {
            s4 \<leftarrow> recalculate_unrealized_pnl D ks s3;
            Some (publish s4, Ok ()) })"

definition pf_import_state ::
  "(portfolio_state \<Rightarrow> string) \<Rightarrow> dec_ops \<Rightarrow> (symbol set \<Rightarrow> symbol list) \<Rightarrow> string list
   \<Rightarrow> order_id list \<Rightarrow> order_id list \<Rightarrow> portfolio \<Rightarrow> portfolio_state \<Rightarrow> portfolio option" where
  "pf_import_state dg D ks iks fks eks s st = do {
     (s', r) \<leftarrow> try_import_state dg D ks iks fks eks s st;
     Some (case r of Inl e \<Rightarrow> pf_record_exception s' None e None | Inr _ \<Rightarrow> s') }"

text \<open>The registration of the manager interface reports whether evidence was recorded.\<close>

definition pm_register_order :: "portfolio \<Rightarrow> order_id \<Rightarrow> symbol \<Rightarrow> side \<Rightarrow> portfolio \<times> bool" where
  "pm_register_order s oid sm sd =
     (let s' = pf_register_order s oid sm sd
      in (s', length (pf_reconciliation_exceptions s') = length (pf_reconciliation_exceptions s)))"

end
