(* ===== verification/Portfolio_Invariant.thy ===== *)
theory Portfolio_Invariant
  imports Portfolio
begin

text \<open>
  The accounting of the portfolio: what marking to market computes, that it is idempotent, the double
  entry of a fill, and the invariant every operation keeps.
\<close>

subsection \<open>Iteration orders\<close>

definition iteration_order :: "('k set \<Rightarrow> 'k list) \<Rightarrow> bool" where
  "iteration_order ks \<longleftrightarrow> (\<forall>S. finite S \<longrightarrow> distinct (ks S) \<and> set (ks S) = S)"

lemma iteration_orderD:
  "iteration_order ks \<Longrightarrow> finite S \<Longrightarrow> distinct (ks S)"
  "iteration_order ks \<Longrightarrow> finite S \<Longrightarrow> set (ks S) = S"
  by (auto simp: iteration_order_def)

subsection \<open>Cost basis and value\<close>

definition cost_of :: "(symbol \<rightharpoonup> position) \<Rightarrow> symbol \<Rightarrow> decimal" where
  "cost_of m k = (case m k of None \<Rightarrow> 0 | Some p \<Rightarrow> pos_avg_price p * pos_quantity p)"

definition pnl_of :: "(symbol \<rightharpoonup> position) \<Rightarrow> symbol \<Rightarrow> decimal" where
  "pnl_of m k = (case m k of None \<Rightarrow> 0 | Some p \<Rightarrow> pos_unrealized_pnl p)"

definition qty_of :: "(symbol \<rightharpoonup> position) \<Rightarrow> symbol \<Rightarrow> decimal" where
  "qty_of m k = (case m k of None \<Rightarrow> 0 | Some p \<Rightarrow> pos_quantity p)"

definition cost_basis :: "account_view \<Rightarrow> decimal" where
  "cost_basis v = (\<Sum>k\<in>dom (av_positions v). cost_of (av_positions v) k)"

lemma cost_of_simps [simp]:
  "m k = None \<Longrightarrow> cost_of m k = 0" "m k = Some p \<Longrightarrow> cost_of m k = pos_avg_price p * pos_quantity p"
  by (simp_all add: cost_of_def)

lemma pnl_of_simps [simp]:
  "m k = None \<Longrightarrow> pnl_of m k = 0" "m k = Some p \<Longrightarrow> pnl_of m k = pos_unrealized_pnl p"
  by (simp_all add: pnl_of_def)

lemma qty_of_simps [simp]:
  "m k = None \<Longrightarrow> qty_of m k = 0" "m k = Some p \<Longrightarrow> qty_of m k = pos_quantity p"
  by (simp_all add: qty_of_def)

lemma cost_of_cong: "m' k = m k \<Longrightarrow> cost_of m' k = cost_of m k"
  by (simp add: cost_of_def)

lemma cost_sum_superset:
  assumes "finite S" and "dom m \<subseteq> S"
  shows "(\<Sum>k\<in>S. cost_of m k) = (\<Sum>k\<in>dom m. cost_of m k)"
  using assms by (intro sum.mono_neutral_right) (auto simp: domIff)

lemma cost_sum_upd:
  assumes "finite (dom m)"
  shows "(\<Sum>k\<in>dom (m(a := x)). cost_of (m(a := x)) k) =
    (\<Sum>k\<in>dom m. cost_of m k) - cost_of m a + cost_of (m(a := x)) a"
proof -
  let ?S = "insert a (dom m)"
  have fin: "finite ?S" using assms by simp
  have "(\<Sum>k\<in>dom (m(a := x)). cost_of (m(a := x)) k) = (\<Sum>k\<in>?S. cost_of (m(a := x)) k)"
    using fin by (intro cost_sum_superset [symmetric]) (auto split: if_splits)
  also have "\<dots> = cost_of (m(a := x)) a + (\<Sum>k\<in>?S - {a}. cost_of (m(a := x)) k)"
    using fin by (rule sum.remove) simp
  also have "(\<Sum>k\<in>?S - {a}. cost_of (m(a := x)) k) = (\<Sum>k\<in>?S - {a}. cost_of m k)"
    by (intro sum.cong) (auto intro: cost_of_cong)
  also have "\<dots> = (\<Sum>k\<in>?S. cost_of m k) - cost_of m a"
    using sum.remove [OF fin, of a "cost_of m"] by simp
  also have "(\<Sum>k\<in>?S. cost_of m k) = (\<Sum>k\<in>dom m. cost_of m k)"
    using fin by (intro cost_sum_superset) auto
  finally show ?thesis by (simp only: add.commute)
qed

subsection \<open>Equity\<close>

lemma sum_position_values_exact:
  assumes "dec_exact D" and "sum_position_values D m ks acc = Some e" and "distinct ks"
  shows "e = acc + (\<Sum>k\<in>set ks. cost_of m k + pnl_of m k)"
  using assms(2,3)
proof (induction ks arbitrary: acc)
  case (Cons k ks)
  show ?case
  proof (cases "m k")
    case (Some p)
    with Cons.prems obtain c v a where
      ops: "d_mul D (pos_avg_price p) (pos_quantity p) = Some c" "d_add D c (pos_unrealized_pnl p) = Some v"
        "d_add D acc v = Some a" and rest: "sum_position_values D m ks a = Some e"
      by (auto simp: bind_eq_Some_conv)
    note dec_exactD(3) [OF assms(1) ops(1)] ops(2,3) [THEN dec_exactD(1) [OF assms(1)]]
    with Cons.IH [OF rest] Cons.prems(2) Some show ?thesis by simp
  qed (use Cons in simp)
qed simp

lemma equity_exact:
  assumes "dec_exact D" and "iteration_order ks" and "finite (dom (av_positions v))"
    and "equity D (ks (dom (av_positions v))) v = Some e"
  shows "e = av_cash_balance v + cost_basis v + (\<Sum>k\<in>dom (av_positions v). pnl_of (av_positions v) k)"
proof -
  from assms(4) obtain x where x: "sum_position_values D (av_positions v) (ks (dom (av_positions v))) 0 = Some x"
    "d_add D (av_cash_balance v) x = Some e" by (auto simp: equity_def bind_eq_Some_conv)
  from sum_position_values_exact [OF assms(1) x(1)] dec_exactD(1) [OF assms(1) x(2)]
    iteration_orderD [OF assms(2,3)]
  show ?thesis by (simp add: cost_basis_def sum.distrib)
qed

subsection \<open>Marking to market\<close>

lemma mark_positions_frame:
  assumes "mark_positions D mp ks ps acc = Some (ps', t)"
  shows "dom ps' = dom ps" and "k \<notin> set ks \<Longrightarrow> ps' k = ps k"
    and "\<And>k. map_option (\<lambda>p. p\<lparr>pos_unrealized_pnl := 0\<rparr>) (ps' k) = map_option (\<lambda>p. p\<lparr>pos_unrealized_pnl := 0\<rparr>) (ps k)"
proof -
  have "dom ps' = dom ps \<and> (k \<notin> set ks \<longrightarrow> ps' k = ps k) \<and>
    (\<forall>k. map_option (\<lambda>p. p\<lparr>pos_unrealized_pnl := 0\<rparr>) (ps' k) = map_option (\<lambda>p. p\<lparr>pos_unrealized_pnl := 0\<rparr>) (ps k))"
    using assms
  proof (induction ks arbitrary: ps acc)
    case (Cons a ks)
    show ?case
    proof (cases "\<exists>pos mark. ps a = Some pos \<and> mp a = Some mark")
      case True
      then obtain pos mark where some: "ps a = Some pos" "mp a = Some mark" by blast
      with Cons.prems obtain u acc' where
        rest: "mark_positions D mp ks (ps(a \<mapsto> pos\<lparr>pos_unrealized_pnl := u\<rparr>)) acc' = Some (ps', t)"
        by (auto simp: bind_eq_Some_conv)
      from Cons.IH [OF rest] some show ?thesis by (auto simp: fun_upd_def split: if_splits)
    next
      case False
      with Cons.prems have "mark_positions D mp ks ps acc = Some (ps', t)"
        by (auto split: option.splits)
      from Cons.IH [OF this] show ?thesis by simp
    qed
  qed simp
  then show "dom ps' = dom ps" and "k \<notin> set ks \<Longrightarrow> ps' k = ps k"
    and "\<And>k. map_option (\<lambda>p. p\<lparr>pos_unrealized_pnl := 0\<rparr>) (ps' k) = map_option (\<lambda>p. p\<lparr>pos_unrealized_pnl := 0\<rparr>) (ps k)"
    by blast+
qed

text \<open>Marking is idempotent: a second pass over marked positions changes nothing.\<close>

lemma mark_positions_idem:
  assumes "mark_positions D mp ks ps acc = Some (ps', t)" and "distinct ks"
  shows "mark_positions D mp ks ps' acc = Some (ps', t)"
  using assms
proof (induction ks arbitrary: ps acc)
  case (Cons a ks)
  show ?case
  proof (cases "\<exists>pos mark. ps a = Some pos \<and> mp a = Some mark")
    case True
    then obtain pos mark where some: "ps a = Some pos" "mp a = Some mark" by blast
    with Cons.prems(1) obtain diff u acc' where
      ops: "d_sub D mark (pos_avg_price pos) = Some diff" "d_mul D diff (pos_quantity pos) = Some u"
        "d_add D acc u = Some acc'"
      and rest: "mark_positions D mp ks (ps(a \<mapsto> pos\<lparr>pos_unrealized_pnl := u\<rparr>)) acc' = Some (ps', t)"
      by (auto simp: bind_eq_Some_conv)
    have a: "ps' a = Some (pos\<lparr>pos_unrealized_pnl := u\<rparr>)"
      using mark_positions_frame(2) [OF rest, of a] Cons.prems(2) by simp
    then have "ps'(a \<mapsto> pos\<lparr>pos_unrealized_pnl := u\<rparr>) = ps'" by auto
    with Cons.IH [OF rest] Cons.prems(2) a some(2) ops show ?thesis by simp
  next
    case False
    with Cons.prems(1) have rest: "mark_positions D mp ks ps acc = Some (ps', t)"
      by (auto split: option.splits)
    have "ps' a = ps a" using mark_positions_frame(2) [OF rest] Cons.prems(2) by simp
    with False Cons.IH [OF rest] Cons.prems(2) show ?thesis by (auto split: option.splits)
  qed
qed simp

text \<open>With exact arithmetic the total is the sum of the unrealized profits of the marked positions.\<close>

lemma mark_positions_total:
  assumes "dec_exact D" and "mark_positions D mp ks ps acc = Some (ps', t)" and "distinct ks"
    and "\<And>k. k \<in> set ks \<Longrightarrow> ps k \<noteq> None \<Longrightarrow> mp k \<noteq> None"
  shows "t = acc + (\<Sum>k\<in>set ks. pnl_of ps' k)"
  using assms(2-)
proof (induction ks arbitrary: ps acc)
  case (Cons a ks)
  show ?case
  proof (cases "ps a")
    case (Some pos)
    with Cons.prems(3) [of a] obtain mark where mark: "mp a = Some mark" by auto
    from Cons.prems(1) Some mark obtain diff u acc' where
      add: "d_add D acc u = Some acc'"
      and rest: "mark_positions D mp ks (ps(a \<mapsto> pos\<lparr>pos_unrealized_pnl := u\<rparr>)) acc' = Some (ps', t)"
      by (auto simp: bind_eq_Some_conv)
    have "ps' a = Some (pos\<lparr>pos_unrealized_pnl := u\<rparr>)"
      using mark_positions_frame(2) [OF rest, of a] Cons.prems(2) by simp
    moreover have "t = acc' + (\<Sum>k\<in>set ks. pnl_of ps' k)"
    proof (rule Cons.IH [OF rest])
      show "mp k \<noteq> None" if "k \<in> set ks" "(ps(a \<mapsto> pos\<lparr>pos_unrealized_pnl := u\<rparr>)) k \<noteq> None" for k
        using that Cons.prems(3) [of k] mark by (cases "k = a") auto
    qed (use Cons.prems(2) in simp)
    ultimately show ?thesis using dec_exactD(1) [OF assms(1) add] Cons.prems(2) by simp
  next
    case None
    with Cons.prems(1) have rest: "mark_positions D mp ks ps acc = Some (ps', t)" by simp
    have "ps' a = None" using mark_positions_frame(2) [OF rest] Cons.prems(2) None by simp
    with Cons.IH [OF rest] Cons.prems(2,3) show ?thesis by simp
  qed
qed simp

lemma equity_cong:
  "av_cash_balance v' = av_cash_balance v \<Longrightarrow> av_positions v' = av_positions v \<Longrightarrow>
   equity D ks v' = equity D ks v"
  by (simp add: equity_def)

text \<open>The statistics after an update: high-water mark, drawdown and maximum agree with the equity.\<close>

lemma drawdown_cases:
  assumes "update_drawdown_stats D ks v = Some v'"
  obtains (positive) e drawdown ratio pct where "equity D ks v = Some e"
      "0 < max (av_high_water_mark v) e" "d_sub D (max (av_high_water_mark v) e) e = Some drawdown"
      "d_div D drawdown (max (av_high_water_mark v) e) = Some ratio" "d_mul D ratio 100 = Some pct"
      "v' = v\<lparr>av_high_water_mark := max (av_high_water_mark v) e,
        av_drawdown_pct := max (parse_f64 pct) 0,
        av_max_drawdown_pct := max (av_max_drawdown_pct v) (max (parse_f64 pct) 0)\<rparr>"
  | (zero) e where "equity D ks v = Some e" "max (av_high_water_mark v) e \<le> 0"
      "v' = v\<lparr>av_high_water_mark := max (av_high_water_mark v) e, av_drawdown_pct := 0\<rparr>"
proof -
  have hwm: "(if a < b then b else a) = max a b" for a b :: rat by (simp add: max_def)
  from assms obtain e where e: "equity D ks v = Some e"
    by (auto simp: update_drawdown_stats_def bind_eq_Some_conv)
  show thesis
  proof (cases "0 < max (av_high_water_mark v) e")
    case True
    with assms e positive show thesis
      by (auto simp: update_drawdown_stats_def bind_eq_Some_conv Let_def hwm)
  next
    case False
    then have le: "max (av_high_water_mark v) e \<le> 0" by (rule leI)
    from False assms e show thesis
      by (intro zero [OF e le]) (simp add: update_drawdown_stats_def Let_def hwm)
  qed
qed

lemma drawdown_frame:
  assumes "update_drawdown_stats D ks v = Some v'"
  shows "av_cash_balance v' = av_cash_balance v" and "av_positions v' = av_positions v"
    and "av_realized_pnl v' = av_realized_pnl v" and "av_unrealized_pnl v' = av_unrealized_pnl v"
    and "av_asset_inventory v' = av_asset_inventory v" and "equity D ks v' = equity D ks v"
    and "av_account_id v' = av_account_id v"
  using assms by (cases rule: drawdown_cases; simp add: equity_def)+

lemma drawdown_idem:
  assumes "update_drawdown_stats D ks v = Some v'"
  shows "update_drawdown_stats D ks v' = Some v'"
  using assms
proof (cases rule: drawdown_cases)
  case (positive e drawdown ratio pct)
  moreover have "equity D ks v' = Some e" using drawdown_frame(6) [OF assms] positive(1) by simp
  ultimately show ?thesis
    by (simp add: update_drawdown_stats_def Let_def max_def not_less split: if_splits)
next
  case (zero e)
  moreover have "equity D ks v' = Some e" using drawdown_frame(6) [OF assms] zero(1) by simp
  ultimately show ?thesis by (simp add: update_drawdown_stats_def Let_def max_def split: if_splits)
qed

lemma recalculate_cases:
  assumes "recalculate_view D ks mp v = Some v'"
  obtains ps u w where "mark_positions D mp (ks (dom (av_positions v))) (av_positions v) 0 = Some (ps, u)"
    "w = v\<lparr>av_positions := ps, av_unrealized_pnl := u\<rparr>" "dom ps = dom (av_positions v)"
    "update_drawdown_stats D (ks (dom (av_positions v))) w = Some v'"
    "av_positions v' = ps" "av_unrealized_pnl v' = u" "av_cash_balance v' = av_cash_balance v"
    "av_realized_pnl v' = av_realized_pnl v" "av_asset_inventory v' = av_asset_inventory v"
proof -
  from assms obtain ps u where
    m: "mark_positions D mp (ks (dom (av_positions v))) (av_positions v) 0 = Some (ps, u)"
    and d: "update_drawdown_stats D (ks (dom (av_positions v)))
      (v\<lparr>av_positions := ps, av_unrealized_pnl := u\<rparr>) = Some v'"
    by (auto simp: recalculate_view_def bind_eq_Some_conv)
  show thesis
    by (rule that [OF m refl mark_positions_frame(1) [OF m] d])
      (use drawdown_frame [OF d] in simp_all)
qed

lemma recalculate_idem:
  assumes "iteration_order ks" and "finite (dom (av_positions v))" and "recalculate_view D ks mp v = Some v'"
  shows "recalculate_view D ks mp v' = Some v'"
  using assms(3)
proof (cases rule: recalculate_cases)
  case (1 ps u w)
  have "mark_positions D mp (ks (dom ps)) ps 0 = Some (ps, u)"
    using mark_positions_idem [OF 1(1) iteration_orderD(1) [OF assms(1,2)]] 1(3) by simp
  moreover have "v'\<lparr>av_positions := ps, av_unrealized_pnl := u\<rparr> = v'" using 1(5,6) by simp
  ultimately show ?thesis
    using drawdown_idem [OF 1(4)] 1(3,5) by (simp add: recalculate_view_def)
qed

subsection \<open>Double entry of a fill\<close>

lemma fill_cost_identity:
  fixes avg p old d :: rat
  assumes "d \<noteq> 0"
  shows "increases_same_side old d \<Longrightarrow> (avg * \<bar>old\<bar> + p * \<bar>d\<bar>) / (\<bar>old\<bar> + \<bar>d\<bar>) * (old + d) = avg * old + p * d"
    and "\<not> increases_same_side old d \<Longrightarrow>
      (if old + d = 0 then 0 else if (0 < old + d) \<noteq> (0 < old) then p else avg) * (old + d) =
      avg * old + p * d + (p - avg) * min \<bar>old\<bar> \<bar>d\<bar> * (if 0 < old then 1 else - 1)"
proof -
  show "(avg * \<bar>old\<bar> + p * \<bar>d\<bar>) / (\<bar>old\<bar> + \<bar>d\<bar>) * (old + d) = avg * old + p * d" if inc: "increases_same_side old d"
  proof -
    consider "old = 0" | "0 < old" "0 < d" | "old < 0" "d < 0"
      using inc unfolding increases_same_side_def by blast
    then show ?thesis
      using assms by cases (auto simp: field_simps abs_if)
  qed
  show "(if old + d = 0 then 0 else if (0 < old + d) \<noteq> (0 < old) then p else avg) * (old + d) =
      avg * old + p * d + (p - avg) * min \<bar>old\<bar> \<bar>d\<bar> * (if 0 < old then 1 else - 1)"
    if dec: "\<not> increases_same_side old d"
  proof -
    consider "0 < old" "d < 0" | "old < 0" "0 < d"
      using dec assms unfolding increases_same_side_def by linarith
    then show ?thesis
      by cases (auto simp: min_def abs_if algebra_simps, simp_all flip: distrib_right)
  qed
qed

text \<open>
  Each branch keeps the books balanced: what the position costs afterwards is what it cost before plus
  what the fill paid plus what it realized.
\<close>

lemma increase_position_exact:
  assumes "dec_exact D" and "increase_position D pos d p r = Some (pos', r')"
    and "increases_same_side (pos_quantity pos) d" and "d \<noteq> 0"
  shows "pos_avg_price pos' * (pos_quantity pos + d) = pos_avg_price pos * pos_quantity pos + p * d + (r' - r)"
    and "pos_symbol pos' = pos_symbol pos"
proof -
  from assms(2) obtain g a b c avg where
    ops: "d_add D \<bar>pos_quantity pos\<bar> \<bar>d\<bar> = Some g" "d_mul D (pos_avg_price pos) \<bar>pos_quantity pos\<bar> = Some a"
      "d_mul D p \<bar>d\<bar> = Some b" "d_add D a b = Some c" "d_div D c g = Some avg"
    and pos': "pos' = pos\<lparr>pos_avg_price := avg\<rparr>" "r' = r"
    unfolding increase_position_def by (auto simp: bind_eq_Some_conv)
  note eqs = ops(1,4) [THEN dec_exactD(1) [OF assms(1)]] ops(2,3) [THEN dec_exactD(3) [OF assms(1)]]
    dec_exactD(4) [OF assms(1) ops(5)]
  show "pos_avg_price pos' * (pos_quantity pos + d) = pos_avg_price pos * pos_quantity pos + p * d + (r' - r)"
    using fill_cost_identity(1) [OF assms(4,3), of "pos_avg_price pos" p] eqs pos' by simp
qed (use assms(2) in \<open>auto simp: increase_position_def bind_eq_Some_conv\<close>)

lemma reduce_position_exact:
  assumes "dec_exact D" and "reduce_position D pos d (pos_quantity pos + d) p r = Some (pos', r')"
    and "\<not> increases_same_side (pos_quantity pos) d" and "d \<noteq> 0"
  shows "pos_avg_price pos' * (pos_quantity pos + d) = pos_avg_price pos * pos_quantity pos + p * d + (r' - r)"
    and "pos_symbol pos' = pos_symbol pos"
proof -
  let ?dir = "if 0 < pos_quantity pos then 1 else - 1 :: decimal"
  from assms(2) obtain diff x rd pr where
    ops: "d_sub D p (pos_avg_price pos) = Some diff" "d_mul D diff (min \<bar>pos_quantity pos\<bar> \<bar>d\<bar>) = Some x"
      "d_mul D x ?dir = Some rd" "d_add D r rd = Some r'"
    and pos': "pos' = pos\<lparr>pos_realized_pnl := pr, pos_avg_price := (if pos_quantity pos + d = 0 then 0
        else if (0 < pos_quantity pos + d) \<noteq> (0 < pos_quantity pos) then p else pos_avg_price pos)\<rparr>"
    unfolding reduce_position_def by (auto simp: bind_eq_Some_conv)
  note eqs = dec_exactD(2) [OF assms(1) ops(1)] ops(2,3) [THEN dec_exactD(3) [OF assms(1)]]
    dec_exactD(1) [OF assms(1) ops(4)]
  show "pos_avg_price pos' * (pos_quantity pos + d) = pos_avg_price pos * pos_quantity pos + p * d + (r' - r)"
    using fill_cost_identity(2) [OF assms(4,3), of p "pos_avg_price pos"] eqs
    unfolding pos' by simp
qed (use assms(2) in \<open>auto simp: reduce_position_def bind_eq_Some_conv\<close>)

lemma apply_fill_cases:
  assumes "dec_exact D" and "apply_fill D v sm sd p q = Some v'" and "q \<noteq> 0"
  obtains pos' where
    "av_positions v' = (av_positions v)(sm := (if qty_of (av_positions v) sm + signed_qty sd q = 0 then None
       else Some pos'))"
    "pos_quantity pos' = qty_of (av_positions v) sm + signed_qty sd q"
    "pos_symbol pos' = (case av_positions v sm of None \<Rightarrow> sm | Some x \<Rightarrow> pos_symbol x)"
    "av_cash_balance v' = av_cash_balance v - p * signed_qty sd q"
    "pos_avg_price pos' * pos_quantity pos' =
       cost_of (av_positions v) sm + p * signed_qty sd q + (av_realized_pnl v' - av_realized_pnl v)"
    "av_asset_inventory v' = av_asset_inventory v"
proof -
  let ?pos = "unwrap_or (empty_position sm) (av_positions v sm)" and ?d = "signed_qty sd q"
  have d0: "?d \<noteq> 0" using assms(3) by (simp add: signed_qty_def split: side.splits)
  have old: "pos_quantity ?pos = qty_of (av_positions v) sm"
    "pos_avg_price ?pos * pos_quantity ?pos = cost_of (av_positions v) sm"
    "pos_symbol ?pos = (case av_positions v sm of None \<Rightarrow> sm | Some x \<Rightarrow> pos_symbol x)"
    by (cases "av_positions v sm"; simp add: empty_position_def)+
  from assms(2) obtain n pos1 r cost cash where
    n: "d_add D (pos_quantity ?pos) ?d = Some n"
    and branch: "(if increases_same_side (pos_quantity ?pos) ?d
           then increase_position D ?pos ?d p (av_realized_pnl v)
           else reduce_position D ?pos ?d n p (av_realized_pnl v)) = Some (pos1, r)"
    and cost: "d_mul D p ?d = Some cost" "d_sub D (av_cash_balance v) cost = Some cash"
    and v': "v' = v\<lparr>av_realized_pnl := r, av_cash_balance := cash,
                av_positions := (av_positions v)(sm :=
                  (if n = 0 then None else Some (pos1\<lparr>pos_quantity := n\<rparr>)))\<rparr>"
    unfolding apply_fill_def Let_def by (auto simp: bind_eq_Some_conv)
  have n': "n = pos_quantity ?pos + ?d" using dec_exactD(1) [OF assms(1) n] .
  have key: "pos_avg_price pos1 * n = pos_avg_price ?pos * pos_quantity ?pos + p * ?d + (r - av_realized_pnl v)"
    "pos_symbol pos1 = pos_symbol ?pos"
    using branch increase_position_exact [OF assms(1) _ _ d0] reduce_position_exact [OF assms(1) _ _ d0]
    unfolding n' by (auto split: if_splits)
  show thesis
    by (rule that [of "pos1\<lparr>pos_quantity := n\<rparr>"])
      (use v' n' key old dec_exactD(3) [OF assms(1) cost(1)] dec_exactD(2) [OF assms(1) cost(2)] in simp_all)
qed

text \<open>The books after a fill: cash plus cost basis less realized profit is unchanged.\<close>

definition book_value :: "account_view \<Rightarrow> decimal" where
  "book_value v = av_cash_balance v + cost_basis v - av_realized_pnl v"

lemma apply_fill_books:
  assumes "dec_exact D" and "apply_fill D v sm sd p q = Some v'" and "q \<noteq> 0"
    and "finite (dom (av_positions v))"
  shows "book_value v' = book_value v" and "finite (dom (av_positions v'))"
    and "qty_of (av_positions v') k = qty_of (av_positions v) k + (if k = sm then signed_qty sd q else 0)"
    and "av_asset_inventory v' = av_asset_inventory v"
proof -
  obtain pos' where a:
    "av_positions v' = (av_positions v)(sm := (if qty_of (av_positions v) sm + signed_qty sd q = 0 then None
       else Some pos'))"
    "pos_quantity pos' = qty_of (av_positions v) sm + signed_qty sd q"
    "av_cash_balance v' = av_cash_balance v - p * signed_qty sd q"
    "pos_avg_price pos' * pos_quantity pos' =
       cost_of (av_positions v) sm + p * signed_qty sd q + (av_realized_pnl v' - av_realized_pnl v)"
    "av_asset_inventory v' = av_asset_inventory v"
    using apply_fill_cases [OF assms(1-3)] by metis
  have "cost_of (av_positions v') sm = pos_avg_price pos' * pos_quantity pos'"
    using a(1,2) by simp
  then have "cost_basis v' = cost_basis v + p * signed_qty sd q + (av_realized_pnl v' - av_realized_pnl v)"
    using cost_sum_upd [OF assms(4), of sm "if qty_of (av_positions v) sm + signed_qty sd q = 0 then None
       else Some pos'"] a(4) unfolding cost_basis_def a(1) by simp
  then show "book_value v' = book_value v" using a(3) by (simp add: book_value_def)
  show "finite (dom (av_positions v'))" 
    by (rule finite_subset [of _ "insert sm (dom (av_positions v))"]) (use assms(4) a(1) in \<open>auto split: if_splits\<close>)
  show "qty_of (av_positions v') k = qty_of (av_positions v) k + (if k = sm then signed_qty sd q else 0)"
    using a(1,2) by (auto simp: qty_of_def)
  show "av_asset_inventory v' = av_asset_inventory v" by (fact a(5))
qed

lemma mark_positions_keeps:
  assumes "mark_positions D mp ks ps acc = Some (ps', t)"
  shows "cost_of ps' k = cost_of ps k" and "qty_of ps' k = qty_of ps k"
    and "ps' k = Some x \<Longrightarrow> \<exists>y. ps k = Some y \<and> pos_symbol y = pos_symbol x"
proof -
  have f: "map_option (\<lambda>p. p\<lparr>pos_unrealized_pnl := 0\<rparr>) (ps' k) =
      map_option (\<lambda>p. p\<lparr>pos_unrealized_pnl := 0\<rparr>) (ps k)"
    by (rule mark_positions_frame(3) [OF assms])
  have eq: "pos_avg_price a = pos_avg_price b \<and> pos_quantity a = pos_quantity b \<and> pos_symbol a = pos_symbol b"
    if "a\<lparr>pos_unrealized_pnl := 0\<rparr> = b\<lparr>pos_unrealized_pnl := 0\<rparr>" for a b :: position
    using that by (cases a; cases b) simp
  consider "ps k = None" "ps' k = None" | a b where "ps' k = Some a" "ps k = Some b"
      "pos_avg_price a = pos_avg_price b" "pos_quantity a = pos_quantity b" "pos_symbol a = pos_symbol b"
  proof (cases "ps k")
    case None
    with f that(1) show ?thesis by simp
  next
    case (Some b)
    with f obtain a where "ps' k = Some a" "a\<lparr>pos_unrealized_pnl := 0\<rparr> = b\<lparr>pos_unrealized_pnl := 0\<rparr>"
      by (cases "ps' k") simp_all
    with Some eq [of a b] that(2) show ?thesis by blast
  qed
  then show "cost_of ps' k = cost_of ps k" "qty_of ps' k = qty_of ps k"
    "ps' k = Some x \<Longrightarrow> \<exists>y. ps k = Some y \<and> pos_symbol y = pos_symbol x"
    by (cases; simp)+
qed

lemma recalculate_keeps:
  assumes "recalculate_view D ks mp v = Some v'"
  shows "dom (av_positions v') = dom (av_positions v)" and "book_value v' = book_value v"
    and "qty_of (av_positions v') k = qty_of (av_positions v) k"
    and "av_positions v' k = Some x \<Longrightarrow> \<exists>y. av_positions v k = Some y \<and> pos_symbol y = pos_symbol x"
    and "av_asset_inventory v' = av_asset_inventory v"
proof -
  from assms show "dom (av_positions v') = dom (av_positions v)"
    "qty_of (av_positions v') k = qty_of (av_positions v) k"
    "av_positions v' k = Some x \<Longrightarrow> \<exists>y. av_positions v k = Some y \<and> pos_symbol y = pos_symbol x"
    "av_asset_inventory v' = av_asset_inventory v"
    by (cases rule: recalculate_cases; use mark_positions_keeps in auto)+
  from assms show "book_value v' = book_value v"
  proof (cases rule: recalculate_cases)
    case (1 ps u w)
    then show ?thesis
      by (simp add: book_value_def cost_basis_def mark_positions_keeps(1) [OF 1(1)])
  qed
qed

text \<open>
  Facts of the decimal package about zero that hold without exception: adding zero, subtracting a
  number from itself, dividing zero by a nonzero number and multiplying zero.
\<close>

definition dec_zero :: "dec_ops \<Rightarrow> bool" where
  "dec_zero D \<longleftrightarrow>
     (\<forall>a. d_add D a 0 = Some a) \<and> (\<forall>a. d_sub D a a = Some 0) \<and>
     (\<forall>a. a \<noteq> 0 \<longrightarrow> d_div D 0 a = Some 0) \<and> (\<forall>a. d_mul D 0 a = Some 0)"

lemma dec_zero_exact_dec [simp]: "dec_zero exact_dec"
  by (simp add: dec_zero_def)

subsection \<open>The invariant of the portfolio\<close>

definition journal_entry_ok :: "portfolio \<Rightarrow> order_id \<times> string \<Rightarrow> bool" where
  "journal_entry_ok s je \<longleftrightarrow>
     pf_order_meta s (fst je) \<noteq> None \<and>
     (\<exists>fid. fid \<noteq> [] \<and> (snd je = ''fill:'' @ fid \<or>
        snd je = ''fee:'' @ fid \<and> snd je \<in> seen_ids (pf_processed_fee_ids s) (fst je)))"

definition pf_shape :: "portfolio \<Rightarrow> bool" where
  "pf_shape s \<longleftrightarrow>
     finite (dom (av_positions (pf_view s))) \<and>
     (\<forall>sm pos. av_positions (pf_view s) sm = Some pos \<longrightarrow>
        pos_symbol pos = sm \<and> pf_market_prices s sm \<noteq> None) \<and>
     (\<forall>oid. pf_order_meta s oid = None \<longrightarrow>
        pf_processed_fill_ids s oid = None \<and> pf_processed_fee_ids s oid = None) \<and>
     list_all (journal_entry_ok s) (pf_recent_accounting_event_ids s) \<and>
     length (pf_recent_accounting_event_ids s) \<le> accounting_event_replay_capacity \<and>
     av_asset_inventory (pf_view s) = Map.empty"

definition pf_inv :: "dec_ops \<Rightarrow> (symbol set \<Rightarrow> symbol list) \<Rightarrow> decimal \<Rightarrow> portfolio \<Rightarrow> bool" where
  "pf_inv D ks c s \<longleftrightarrow>
     pf_shape s \<and> pf_snapshot s = pf_view s \<and>
     recalculate_view D ks (pf_market_prices s) (pf_view s) = Some (pf_view s) \<and>
     book_value (pf_view s) = c"

inductive pf_step :: "dec_ops \<Rightarrow> (symbol set \<Rightarrow> symbol list) \<Rightarrow> portfolio \<Rightarrow> portfolio \<Rightarrow> bool" for D ks where
  pf_register: "pf_step D ks s (pf_register_order s oid sm sd)"
| pf_event: "pf_on_execution_event D ks s ev = Some s' \<Longrightarrow> pf_step D ks s s'"
| pf_prices: "update_market_prices D ks s prices = Some s' \<Longrightarrow> pf_step D ks s s'"

inductive pf_reachable ::
  "dec_ops \<Rightarrow> (symbol set \<Rightarrow> symbol list) \<Rightarrow> decimal \<Rightarrow> portfolio \<Rightarrow> bool" for D ks c where
  pf_init: "pf_reachable D ks c (with_cash_balance c)"
| pf_next: "pf_reachable D ks c s \<Longrightarrow> pf_step D ks s s' \<Longrightarrow> pf_reachable D ks c s'"

lemma publish_sel [simp]:
  "pf_view (publish s) = pf_view s" "pf_snapshot (publish s) = pf_view s"
  "pf_order_meta (publish s) = pf_order_meta s" "pf_market_prices (publish s) = pf_market_prices s"
  "pf_processed_fill_ids (publish s) = pf_processed_fill_ids s"
  "pf_processed_fee_ids (publish s) = pf_processed_fee_ids s"
  "pf_total_fees (publish s) = pf_total_fees s"
  "pf_recent_accounting_event_ids (publish s) = pf_recent_accounting_event_ids s"
  "pf_reconciliation_exceptions (publish s) = pf_reconciliation_exceptions s"
  by (simp_all add: publish_def)

lemma pf_record_exception_sel [simp]:
  "pf_view (pf_record_exception s oid m ev) = pf_view s"
  "pf_snapshot (pf_record_exception s oid m ev) = pf_snapshot s"
  "pf_order_meta (pf_record_exception s oid m ev) = pf_order_meta s"
  "pf_market_prices (pf_record_exception s oid m ev) = pf_market_prices s"
  "pf_processed_fill_ids (pf_record_exception s oid m ev) = pf_processed_fill_ids s"
  "pf_processed_fee_ids (pf_record_exception s oid m ev) = pf_processed_fee_ids s"
  "pf_total_fees (pf_record_exception s oid m ev) = pf_total_fees s"
  "pf_recent_accounting_event_ids (pf_record_exception s oid m ev) = pf_recent_accounting_event_ids s"
  "pf_reconciliation_exceptions (pf_record_exception s oid m ev) =
     pf_reconciliation_exceptions s @ [\<lparr>x_order_id = oid, x_reason = m, x_event = ev\<rparr>]"
  by (simp_all add: pf_record_exception_def)

lemma publish_id: "pf_snapshot s = pf_view s \<Longrightarrow> publish s = s"
  by (simp add: publish_def)

lemma pf_shape_cong:
  "pf_view s' = pf_view s \<Longrightarrow> pf_order_meta s' = pf_order_meta s \<Longrightarrow>
   pf_market_prices s' = pf_market_prices s \<Longrightarrow> pf_processed_fill_ids s' = pf_processed_fill_ids s \<Longrightarrow>
   pf_processed_fee_ids s' = pf_processed_fee_ids s \<Longrightarrow>
   pf_recent_accounting_event_ids s' = pf_recent_accounting_event_ids s \<Longrightarrow> pf_shape s' = pf_shape s"
  by (simp add: pf_shape_def journal_entry_ok_def list_all_iff)

lemma pf_inv_exception: "pf_inv D ks c s \<Longrightarrow> pf_inv D ks c (pf_record_exception s oid m ev)"
  using pf_shape_cong [of "pf_record_exception s oid m ev" s] by (simp add: pf_inv_def)

lemma pf_inv_publish: "pf_inv D ks c s \<Longrightarrow> pf_inv D ks c (publish s)"
  unfolding pf_inv_def by (metis publish_id)

lemma pf_inv_register:
  assumes "pf_inv D ks c s"
  shows "pf_inv D ks c (pf_register_order s oid sm sd)"
proof (cases "pf_order_meta s oid")
  case None
  with assms show ?thesis
    by (auto simp: pf_inv_def pf_register_order_def pf_shape_def journal_entry_ok_def list_all_iff)
next
  case (Some x)
  with assms pf_inv_exception show ?thesis by (cases x) (simp add: pf_register_order_def)
qed

lemma pf_inv_init:
  assumes "dec_zero D" and "iteration_order ks"
  shows "pf_inv D ks c (with_cash_balance c)"
proof -
  have ks: "ks {} = []" using iteration_orderD(2) [OF assms(2), of "{}"] by simp
  have z: "d_add D c 0 = Some c" "d_sub D c c = Some 0" "d_mul D 0 100 = Some 0" "c \<noteq> 0 \<Longrightarrow> d_div D 0 c = Some 0"
    "d_add D 0 0 = Some 0"
    using assms(1) by (auto simp: dec_zero_def)
  have "parse_f64 0 = 0" by (simp add: parse_f64_def)
  with ks z show ?thesis
    by (auto simp: pf_inv_def with_cash_balance_def portfolio_default_def default_account_view_def
        pf_shape_def recalculate_view_def update_drawdown_stats_def equity_def book_value_def
        cost_basis_def Let_def publish_def not_less)
qed

end
