(* ===== verification/Key_Order.thy ===== *)
theory Key_Order
  imports Core_Types "HOL-Library.List_Lexorder" "HOL-Library.Char_ord"
begin

text \<open>
  The derived orders of the identifier types (\<open>market-core/core/src/types.rs\<close>): a symbol and an order
  id compare as their bytes do and a venue as its number, so sets of them have a sorted enumeration.
\<close>

instantiation symbol :: linorder
begin

fun less_eq_symbol :: "symbol \<Rightarrow> symbol \<Rightarrow> bool" where
  "less_eq_symbol (Symbol a) (Symbol b) \<longleftrightarrow> a \<le> b"

fun less_symbol :: "symbol \<Rightarrow> symbol \<Rightarrow> bool" where
  "less_symbol (Symbol a) (Symbol b) \<longleftrightarrow> a < b"

instance
proof
  fix x y z :: symbol
  show "x < y \<longleftrightarrow> x \<le> y \<and> \<not> y \<le> x" by (cases x; cases y) auto
  show "x \<le> x" by (cases x) simp
  show "x \<le> y \<Longrightarrow> y \<le> z \<Longrightarrow> x \<le> z" by (cases x; cases y; cases z) simp
  show "x \<le> y \<Longrightarrow> y \<le> x \<Longrightarrow> x = y" by (cases x; cases y) simp
  show "x \<le> y \<or> y \<le> x" by (cases x; cases y) auto
qed

end

instantiation order_id :: linorder
begin

fun less_eq_order_id :: "order_id \<Rightarrow> order_id \<Rightarrow> bool" where
  "less_eq_order_id (OrderId a) (OrderId b) \<longleftrightarrow> a \<le> b"

fun less_order_id :: "order_id \<Rightarrow> order_id \<Rightarrow> bool" where
  "less_order_id (OrderId a) (OrderId b) \<longleftrightarrow> a < b"

instance
proof
  fix x y z :: order_id
  show "x < y \<longleftrightarrow> x \<le> y \<and> \<not> y \<le> x" by (cases x; cases y) auto
  show "x \<le> x" by (cases x) simp
  show "x \<le> y \<Longrightarrow> y \<le> z \<Longrightarrow> x \<le> z" by (cases x; cases y; cases z) simp
  show "x \<le> y \<Longrightarrow> y \<le> x \<Longrightarrow> x = y" by (cases x; cases y) simp
  show "x \<le> y \<or> y \<le> x" by (cases x; cases y) auto
qed

end

instantiation venue_id :: linorder
begin

fun less_eq_venue_id :: "venue_id \<Rightarrow> venue_id \<Rightarrow> bool" where
  "less_eq_venue_id (VenueId a) (VenueId b) \<longleftrightarrow> a \<le> b"

fun less_venue_id :: "venue_id \<Rightarrow> venue_id \<Rightarrow> bool" where
  "less_venue_id (VenueId a) (VenueId b) \<longleftrightarrow> a < b"

instance
proof
  fix x y z :: venue_id
  show "x < y \<longleftrightarrow> x \<le> y \<and> \<not> y \<le> x" by (cases x; cases y) auto
  show "x \<le> x" by (cases x) simp
  show "x \<le> y \<Longrightarrow> y \<le> z \<Longrightarrow> x \<le> z" by (cases x; cases y; cases z) simp
  show "x \<le> y \<Longrightarrow> y \<le> x \<Longrightarrow> x = y" by (cases x; cases y) simp
  show "x \<le> y \<or> y \<le> x" by (cases x; cases y) auto
qed

end

end
