(* ===== verification/Portfolio_Properties.thy ===== *)
theory Portfolio_Properties
  imports Portfolio_Invariant Event_Interface Key_Order OMS_Recovery
begin

text \<open>
  What the portfolio guarantees: the equity identity, exact positions, sound drawdown statistics, fills
  counted once, refused events that move no money, and a restart that restores the same books.
\<close>

subsection \<open>Outcomes of a fill and of a fee\<close>

lemma seen_upd_id: "fid \<in> seen_ids m oid \<Longrightarrow> m(oid \<mapsto> insert fid (seen_ids m oid)) = m"
  by (cases "m oid") (auto simp: seen_ids_def insert_absorb)

lemma pf_fill_cases:
  assumes "pf_on_fill D ks s oid p q ts fid = Some s'"
  obtains (refused) m where "s' = pf_record_exception s (Some oid) m (Some (Fill oid p q ts fid))"
  | (replayed) "fid \<in> seen_ids (pf_processed_fill_ids s) oid" "s' = publish s"
  | (applied) sm sd v v' where "pf_order_meta s oid = Some (sm, sd)" "0 < q" "0 < p" "fid \<noteq> []"
      "fid \<notin> seen_ids (pf_processed_fill_ids s) oid" "apply_fill D (pf_view s) sm sd p q = Some v"
      "recalculate_view D ks ((pf_market_prices s)(sm \<mapsto> p)) v = Some v'"
      "s' = publish (s\<lparr>
         pf_processed_fill_ids := (pf_processed_fill_ids s)(oid \<mapsto>
           insert fid (seen_ids (pf_processed_fill_ids s) oid)),
         pf_recent_accounting_event_ids :=
           record_accounting_event (pf_recent_accounting_event_ids s) oid (''fill:'' @ fid),
         pf_view := v', pf_market_prices := (pf_market_prices s)(sm \<mapsto> p)\<rparr>)"
proof (cases "q \<le> 0 \<or> p \<le> 0 \<or> fid = [] \<or> pf_order_meta s oid = None")
  case True
  with assms refused show thesis by (auto simp: pf_on_fill_def Let_def split: if_splits)
next
  case False
  then obtain sm sd where m: "pf_order_meta s oid = Some (sm, sd)" by auto
  show thesis
  proof (cases "fid \<in> seen_ids (pf_processed_fill_ids s) oid")
    case True
    with assms False m have "s' = publish s"
      by (simp add: pf_on_fill_def Let_def seen_upd_id)
    with replayed True show thesis by blast
  next
    case new: False
    from assms False m new obtain v v' where
      "apply_fill D (pf_view s) sm sd p q = Some v"
      "recalculate_view D ks ((pf_market_prices s)(sm \<mapsto> p)) v = Some v'"
      "s' = publish (s\<lparr>
         pf_processed_fill_ids := (pf_processed_fill_ids s)(oid \<mapsto>
           insert fid (seen_ids (pf_processed_fill_ids s) oid)),
         pf_recent_accounting_event_ids :=
           record_accounting_event (pf_recent_accounting_event_ids s) oid (''fill:'' @ fid),
         pf_view := v', pf_market_prices := (pf_market_prices s)(sm \<mapsto> p)\<rparr>)"
      by (auto simp: pf_on_fill_def Let_def bind_eq_Some_conv recalculate_unrealized_pnl_def)
    with applied [OF m _ _ _ new] False show thesis by auto
  qed
qed

lemma pf_fee_cases:
  assumes "pf_on_fee D ks s oid amount ts fid = Some s'"
  obtains (refused) m b where "s' = (if b then publish else id)
      (pf_record_exception s (Some oid) m (Some (FeeCharged oid amount ts fid)))"
  | (replayed) "s' = publish s"
  | (applied) cash realized fees v where "pf_order_meta s oid \<noteq> None" "fid \<noteq> []" "0 \<le> amount"
      "d_sub D (av_cash_balance (pf_view s)) amount = Some cash"
      "d_sub D (av_realized_pnl (pf_view s)) amount = Some realized"
      "d_add D (pf_total_fees s) amount = Some fees"
      "update_drawdown_stats D (ks (dom (av_positions (pf_view s))))
         ((pf_view s)\<lparr>av_cash_balance := cash, av_realized_pnl := realized\<rparr>) = Some v"
      "s' = publish (s\<lparr>
         pf_processed_fee_ids := (pf_processed_fee_ids s)(oid \<mapsto>
           insert (''fee:'' @ fid) (seen_ids (pf_processed_fee_ids s) oid)),
         pf_recent_accounting_event_ids :=
           record_accounting_event (pf_recent_accounting_event_ids s) oid (''fee:'' @ fid),
         pf_view := v, pf_total_fees := fees\<rparr>)"
proof (cases "amount < 0 \<or> pf_order_meta s oid = None \<or> fid = []")
  case True
  with assms refused [of True] refused [of False] show thesis
    by (auto simp: pf_on_fee_def Let_def split: if_splits)
next
  case False
  show thesis
  proof (cases "''fee:'' @ fid \<in> seen_ids (pf_processed_fee_ids s) oid")
    case True
    with seen_upd_id [OF True] assms False have "s' = publish s" by (auto simp: pf_on_fee_def Let_def)
    with replayed show thesis by blast
  next
    case new: False
    from assms False new applied show thesis
      by (auto simp: pf_on_fee_def Let_def bind_eq_Some_conv)
  qed
qed

subsection \<open>Every step keeps the invariant\<close>

lemma record_accounting_event_set:
  "set (record_accounting_event js oid eid) \<subseteq> insert (oid, eid) (set js)"
  by (auto simp: record_accounting_event_def dest: in_set_dropD)

lemma record_accounting_event_length:
  assumes "length js \<le> accounting_event_replay_capacity"
  shows "length (record_accounting_event js oid eid) \<le> accounting_event_replay_capacity"
  using assms by (auto simp: record_accounting_event_def accounting_event_replay_capacity_def)

lemma journal_extend:
  assumes "list_all (journal_entry_ok s) js" and "journal_entry_ok s' (oid, eid)"
    and "\<And>e. journal_entry_ok s e \<Longrightarrow> journal_entry_ok s' e"
  shows "list_all (journal_entry_ok s') (record_accounting_event js oid eid)"
  using assms record_accounting_event_set [of js oid eid] unfolding list_all_iff by blast

lemma journal_entry_mono:
  assumes "journal_entry_ok s e" and "pf_order_meta s' = pf_order_meta s"
    and "\<And>oid. seen_ids (pf_processed_fee_ids s) oid \<subseteq> seen_ids (pf_processed_fee_ids s') oid"
  shows "journal_entry_ok s' e"
proof -
  from assms(1) obtain fid where "fid \<noteq> []" "pf_order_meta s (fst e) \<noteq> None"
    "snd e = ''fill:'' @ fid \<or> snd e = ''fee:'' @ fid \<and> snd e \<in> seen_ids (pf_processed_fee_ids s) (fst e)"
    unfolding journal_entry_ok_def by blast
  with assms(2) assms(3) [of "fst e"] show ?thesis unfolding journal_entry_ok_def by auto
qed

lemma pf_shape_fill:
  assumes "dec_exact D" and "pf_shape s" and "pf_order_meta s oid = Some (sm, sd)" and "0 < q" and "fid \<noteq> []"
    and "apply_fill D (pf_view s) sm sd p q = Some v"
    and "recalculate_view D ks ((pf_market_prices s)(sm \<mapsto> p)) v = Some v'"
  shows "pf_shape (s\<lparr>pf_processed_fill_ids := (pf_processed_fill_ids s)(oid \<mapsto> F),
     pf_recent_accounting_event_ids :=
       record_accounting_event (pf_recent_accounting_event_ids s) oid (''fill:'' @ fid),
     pf_view := v', pf_market_prices := (pf_market_prices s)(sm \<mapsto> p)\<rparr>)" (is "pf_shape ?s")
proof -
  have q0: "q \<noteq> 0" using assms(4) by simp
  have fin: "finite (dom (av_positions (pf_view s)))" using assms(2) by (simp add: pf_shape_def)
  obtain pos' where pos': "av_positions v = (av_positions (pf_view s))(sm :=
      (if qty_of (av_positions (pf_view s)) sm + signed_qty sd q = 0 then None else Some pos'))"
    "pos_symbol pos' = (case av_positions (pf_view s) sm of None \<Rightarrow> sm | Some x \<Rightarrow> pos_symbol x)"
    using apply_fill_cases [OF assms(1,6) q0] by metis
  have psym: "pos_symbol pos' = sm"
    using pos'(2) assms(2) by (auto simp: pf_shape_def split: option.splits)
  have keys: "pos_symbol y = k \<and> ((pf_market_prices s)(sm \<mapsto> p)) k \<noteq> None" if "av_positions v k = Some y" for k y
    using that pos'(1) psym assms(2) by (auto simp: pf_shape_def split: if_splits)
  have "finite (dom (av_positions v'))"
    using apply_fill_books(2) [OF assms(1,6) q0 fin] recalculate_keeps(1) [OF assms(7)] by simp
  moreover have "pos_symbol x = k \<and> ((pf_market_prices s)(sm \<mapsto> p)) k \<noteq> None" if "av_positions v' k = Some x" for k x
    using recalculate_keeps(4) [OF assms(7) that] keys by metis
  moreover have "av_asset_inventory v' = Map.empty"
    using assms(2) recalculate_keeps(5) [OF assms(7)] apply_fill_books(4) [OF assms(1,6) q0 fin]
    by (simp add: pf_shape_def)
  moreover have "list_all (journal_entry_ok ?s) (pf_recent_accounting_event_ids ?s)"
    using assms(2,3,5) journal_extend [of s "pf_recent_accounting_event_ids s" ?s oid "''fill:'' @ fid"]
    by (auto simp: pf_shape_def journal_entry_ok_def)
  moreover have "length (pf_recent_accounting_event_ids ?s) \<le> accounting_event_replay_capacity"
    using assms(2) record_accounting_event_length by (simp add: pf_shape_def)
  ultimately show ?thesis using assms(2,3) by (auto simp: pf_shape_def)
qed

lemma pf_inv_fill:
  assumes "dec_exact D" and "iteration_order ks" and "pf_inv D ks c s"
    and "pf_on_fill D ks s oid p q ts fid = Some s'"
  shows "pf_inv D ks c s'"
  using assms(4)
proof (cases rule: pf_fill_cases)
  case (applied sm sd v v')
  have q0: "q \<noteq> 0" using applied(2) by simp
  have shape: "pf_shape s" and book: "book_value (pf_view s) = c"
    and fin: "finite (dom (av_positions (pf_view s)))"
    using assms(3) by (auto simp: pf_inv_def pf_shape_def)
  note fill = apply_fill_books [OF assms(1) applied(6) q0 fin]
  let ?s = "s\<lparr>pf_processed_fill_ids := (pf_processed_fill_ids s)(oid \<mapsto>
           insert fid (seen_ids (pf_processed_fill_ids s) oid)),
         pf_recent_accounting_event_ids :=
           record_accounting_event (pf_recent_accounting_event_ids s) oid (''fill:'' @ fid),
         pf_view := v', pf_market_prices := (pf_market_prices s)(sm \<mapsto> p)\<rparr>"
  have "pf_shape (publish ?s)"
    using pf_shape_fill [OF assms(1) shape applied(1,2,4,6,7)] pf_shape_cong [of "publish ?s" ?s] by simp
  moreover have "recalculate_view D ks ((pf_market_prices s)(sm \<mapsto> p)) v' = Some v'"
    by (rule recalculate_idem [OF assms(2) fill(2) applied(7)])
  moreover have "book_value v' = c"
    using recalculate_keeps(2) [OF applied(7)] fill(1) book by simp
  ultimately show ?thesis unfolding applied(8) by (simp add: pf_inv_def)
qed (use assms(3) pf_inv_exception pf_inv_publish in auto)

lemma pf_inv_fee:
  assumes "dec_exact D" and "pf_inv D ks c s" and "pf_on_fee D ks s oid amount ts fid = Some s'"
  shows "pf_inv D ks c s'"
  using assms(3)
proof (cases rule: pf_fee_cases)
  case (refused m b)
  with assms(2) pf_inv_exception pf_inv_publish show ?thesis by (cases b) auto
next
  case replayed
  with assms(2) pf_inv_publish show ?thesis by simp
next
  case (applied cash realized fees v)
  let ?s = "s\<lparr>pf_processed_fee_ids := (pf_processed_fee_ids s)(oid \<mapsto>
           insert (''fee:'' @ fid) (seen_ids (pf_processed_fee_ids s) oid)),
         pf_recent_accounting_event_ids :=
           record_accounting_event (pf_recent_accounting_event_ids s) oid (''fee:'' @ fid),
         pf_view := v, pf_total_fees := fees\<rparr>"
  note fr = drawdown_frame [OF applied(7)]
  have sh: "pf_shape s" using assms(2) by (simp add: pf_inv_def)
  have "list_all (journal_entry_ok ?s) (pf_recent_accounting_event_ids ?s)"
  proof -
    have "journal_entry_ok ?s e" if "journal_entry_ok s e" for e
      by (rule journal_entry_mono [OF that]) (auto simp: seen_ids_def)
    moreover have "journal_entry_ok ?s (oid, ''fee:'' @ fid)"
      using applied(1,2) by (auto simp: journal_entry_ok_def seen_ids_def)
    ultimately show ?thesis
      using sh journal_extend [of s "pf_recent_accounting_event_ids s" ?s oid "''fee:'' @ fid"]
      by (simp add: pf_shape_def)
  qed
  moreover have "length (pf_recent_accounting_event_ids ?s) \<le> accounting_event_replay_capacity"
    using sh record_accounting_event_length by (simp add: pf_shape_def)
  ultimately have "pf_shape ?s" using sh fr applied(1) by (auto simp: pf_shape_def)
  then have shape: "pf_shape (publish ?s)" using pf_shape_cong [of "publish ?s" ?s] by simp
  have rec: "recalculate_view D ks (pf_market_prices s) (pf_view s) = Some (pf_view s)"
    using assms(2) by (simp add: pf_inv_def)
  then have "mark_positions D (pf_market_prices s) (ks (dom (av_positions (pf_view s))))
      (av_positions (pf_view s)) 0 = Some (av_positions (pf_view s), av_unrealized_pnl (pf_view s))"
  proof (cases rule: recalculate_cases)
    case (1 ps u w)
    from 1(1) show ?thesis unfolding 1(5,6) .
  qed
  moreover have "v\<lparr>av_positions := av_positions (pf_view s), av_unrealized_pnl := av_unrealized_pnl (pf_view s)\<rparr> = v"
    using fr(2,4) by simp
  ultimately have "recalculate_view D ks (pf_market_prices s) v = Some v"
    using drawdown_idem [OF applied(7)] fr(2) by (simp add: recalculate_view_def)
  moreover have "book_value v = c"
    using assms(2) fr dec_exactD(2) [OF assms(1) applied(4)] dec_exactD(2) [OF assms(1) applied(5)]
    by (simp add: pf_inv_def book_value_def cost_basis_def)
  ultimately show ?thesis using shape unfolding applied(8) by (simp add: pf_inv_def)
qed

lemma pf_inv_event:
  assumes "dec_exact D" and "iteration_order ks" and "pf_inv D ks c s"
    and "pf_on_execution_event D ks s ev = Some s'"
  shows "pf_inv D ks c s'"
  using assms pf_inv_fill [OF assms(1-3)] pf_inv_fee [OF assms(1,3)] pf_inv_publish [OF assms(3)]
  by (cases ev) auto

lemma pf_inv_prices:
  assumes "iteration_order ks" and "pf_inv D ks c s" and "update_market_prices D ks s prices = Some s'"
  shows "pf_inv D ks c s'"
proof -
  let ?mp = "pf_market_prices s ++ prices"
  from assms(3) obtain v where v: "recalculate_view D ks ?mp (pf_view s) = Some v"
    and s': "s' = publish (s\<lparr>pf_market_prices := ?mp, pf_view := v\<rparr>)"
    by (auto simp: update_market_prices_def recalculate_unrealized_pnl_def bind_eq_Some_conv)
  have sh: "pf_shape s" using assms(2) by (simp add: pf_inv_def)
  note keep = recalculate_keeps [OF v]
  have "pos_symbol x = k \<and> ?mp k \<noteq> None" if "av_positions v k = Some x" for k x
    using keep(4) [OF that] sh by (auto simp: pf_shape_def map_add_def split: option.splits)
  then have "pf_shape (s\<lparr>pf_market_prices := ?mp, pf_view := v\<rparr>)"
    using sh keep(1,5) by (auto simp: pf_shape_def journal_entry_ok_def list_all_iff)
  then have "pf_shape s'" unfolding s' using pf_shape_cong [of "publish (s\<lparr>pf_market_prices := ?mp, pf_view := v\<rparr>)"
        "s\<lparr>pf_market_prices := ?mp, pf_view := v\<rparr>"] by simp
  moreover have "recalculate_view D ks ?mp v = Some v"
    using recalculate_idem [OF assms(1) _ v] sh by (simp add: pf_shape_def)
  ultimately show ?thesis using keep(2) assms(2) by (simp add: pf_inv_def s')
qed

lemma pf_step_inv:
  assumes "dec_exact D" and "iteration_order ks" and "pf_inv D ks c s" and "pf_step D ks s s'"
  shows "pf_inv D ks c s'"
  using assms(4)
proof cases
  case (pf_register oid sm sd)
  then show ?thesis by (simp add: pf_inv_register [OF assms(3)])
next
  case (pf_event ev)
  then show ?thesis by (rule pf_inv_event [OF assms(1-3)])
next
  case (pf_prices prices)
  then show ?thesis by (rule pf_inv_prices [OF assms(2,3)])
qed

lemma pf_reachable_inv:
  assumes "dec_exact D" and "dec_zero D" and "iteration_order ks" and "pf_reachable D ks c s"
  shows "pf_inv D ks c s"
  using assms(4)
proof induction
  case pf_init
  then show ?case by (rule pf_inv_init [OF assms(2,3)])
next
  case (pf_next s s')
  then show ?case using pf_step_inv [OF assms(1,3)] by blast
qed

subsection \<open>The portfolio consumes execution events\<close>

definition pf_seen :: "portfolio \<Rightarrow> order_id \<Rightarrow> string set" where
  "pf_seen s oid = (if pf_order_meta s oid = None then {} else seen_ids (pf_processed_fill_ids s) oid)"

definition published :: "portfolio \<Rightarrow> bool" where
  "published s \<longleftrightarrow> pf_snapshot s = pf_view s"

text \<open>Everything an event may change outside the money: identities and evidence grow.\<close>

definition pf_le :: "portfolio \<Rightarrow> portfolio \<Rightarrow> bool" where
  "pf_le s s' \<longleftrightarrow>
     (published s \<longrightarrow> published s') \<and> pf_order_meta s' = pf_order_meta s \<and>
     (\<forall>oid. seen_ids (pf_processed_fill_ids s) oid \<subseteq> seen_ids (pf_processed_fill_ids s') oid) \<and>
     (\<exists>xs. pf_reconciliation_exceptions s' = pf_reconciliation_exceptions s @ xs)"

lemma pf_event_le:
  assumes "pf_on_execution_event D ks s ev = Some s'"
  shows "pf_le s s'"
proof -
  have pub: "pf_le s (publish s)" by (simp add: pf_le_def published_def)
  show ?thesis
  proof (cases ev)
    case (Fill oid p q ts fid)
    with assms have "pf_on_fill D ks s oid p q ts fid = Some s'" by simp
    then show ?thesis
      by (cases rule: pf_fill_cases) (use pub in \<open>auto simp: pf_le_def published_def seen_ids_def\<close>)
  next
    case (FeeCharged oid amount ts fid)
    with assms have "pf_on_fee D ks s oid amount ts fid = Some s'" by simp
    then show ?thesis
      by (cases rule: pf_fee_cases) (use pub in \<open>auto simp: pf_le_def published_def\<close>)
  qed (use assms pub in auto)
qed

lemma pf_replay:
  assumes "published s" and "known_fill pf_seen s ev"
  shows "pf_on_execution_event D ks s ev = Some s"
proof (cases ev)
  case (Fill oid p q ts fid)
  with assms(2) have k: "0 < p" "0 < q" "fid \<noteq> []" "fid \<in> seen_ids (pf_processed_fill_ids s) oid"
      "pf_order_meta s oid \<noteq> None"
    by (auto simp: pf_seen_def split: if_splits)
  have "pf_on_fill D ks s oid p q ts fid = Some (publish s)"
    using k by (auto simp: pf_on_fill_def Let_def seen_upd_id)
  with Fill publish_id [of s] assms(1) show ?thesis by (simp add: published_def)
qed (use assms(2) in auto)

interpretation pf: event_consumer published "pf_on_execution_event D ks" pf_seen pf_reconciliation_exceptions
  for D ks
proof unfold_locales
  fix s e s' oid
  assume "pf_on_execution_event D ks s e = Some s'"
  then have le: "pf_le s s'" by (rule pf_event_le)
  then show "published s \<Longrightarrow> published s'" "pf_seen s oid \<subseteq> pf_seen s' oid"
    "\<exists>xs. pf_reconciliation_exceptions s' = pf_reconciliation_exceptions s @ xs"
    by (auto simp: pf_le_def pf_seen_def)
qed (rule pf_replay)

subsection \<open>Equity, positions and drawdown\<close>

lemma pf_inv_equity:
  assumes "dec_exact D" and "iteration_order ks" and "pf_inv D ks c s"
  shows "equity D (ks (dom (av_positions (pf_view s)))) (pf_view s) =
    Some (c + av_realized_pnl (pf_view s) + av_unrealized_pnl (pf_view s))"
proof -
  let ?v = "pf_view s"
  have fin: "finite (dom (av_positions ?v))"
    and marked: "\<And>k. av_positions ?v k \<noteq> None \<Longrightarrow> pf_market_prices s k \<noteq> None"
    using assms(3) by (auto simp: pf_inv_def pf_shape_def)
  have "recalculate_view D ks (pf_market_prices s) ?v = Some ?v" using assms(3) by (simp add: pf_inv_def)
  then show ?thesis
  proof (cases rule: recalculate_cases)
    case (1 ps u w)
    obtain e where "equity D (ks (dom (av_positions ?v))) w = Some e"
      using 1(4) by (cases rule: drawdown_cases)
    then have e: "equity D (ks (dom (av_positions ?v))) ?v = Some e"
      using drawdown_frame(6) [OF 1(4)] by simp
    have ps: "ps = av_positions ?v" using 1(5) by simp
    have "u = 0 + (\<Sum>k\<in>set (ks (dom (av_positions ?v))). pnl_of ps k)"
      by (rule mark_positions_total [OF assms(1) 1(1) iteration_orderD(1) [OF assms(2) fin]]) (rule marked)
    then have "av_unrealized_pnl ?v = (\<Sum>k\<in>dom (av_positions ?v). pnl_of (av_positions ?v) k)"
      unfolding iteration_orderD(2) [OF assms(2) fin] 1(6) ps by simp
    with equity_exact [OF assms(1,2) fin e] e assms(3) show ?thesis
      by (simp add: pf_inv_def book_value_def)
  qed
qed

text \<open>The signed quantity an event adds to the position of a symbol.\<close>

fun fill_delta :: "portfolio \<Rightarrow> execution_event \<Rightarrow> symbol \<Rightarrow> decimal" where
  "fill_delta s (Fill oid p q ts fid) k =
     (case pf_order_meta s oid of
        None \<Rightarrow> 0
      | Some (sm, sd) \<Rightarrow>
          if 0 < q \<and> 0 < p \<and> fid \<noteq> [] \<and> fid \<notin> seen_ids (pf_processed_fill_ids s) oid \<and> sm = k
          then signed_qty sd q else 0)"
| "fill_delta s _ k = 0"

fun net_fills ::
  "dec_ops \<Rightarrow> (symbol set \<Rightarrow> symbol list) \<Rightarrow> portfolio \<Rightarrow> execution_event list \<Rightarrow> symbol \<Rightarrow> decimal" where
  "net_fills D ks s [] k = 0"
| "net_fills D ks s (ev # evs) k =
     fill_delta s ev k +
     (case pf_on_execution_event D ks s ev of None \<Rightarrow> 0 | Some s' \<Rightarrow> net_fills D ks s' evs k)"

lemma event_position:
  assumes "dec_exact D" and "pf_inv D ks c s" and "pf_on_execution_event D ks s ev = Some s'"
  shows "qty_of (av_positions (pf_view s')) k = qty_of (av_positions (pf_view s)) k + fill_delta s ev k"
proof (cases ev)
  case (Fill oid p q ts fid)
  with assms(3) have f: "pf_on_fill D ks s oid p q ts fid = Some s'" by simp
  then show ?thesis
  proof (cases rule: pf_fill_cases)
    case (refused m)
    then have "fill_delta s ev k = 0"
    proof -
      have "pf_reconciliation_exceptions s' \<noteq> pf_reconciliation_exceptions s" using refused by simp
      moreover have "pf_reconciliation_exceptions s' = pf_reconciliation_exceptions s"
        if "fill_delta s ev k \<noteq> 0"
        using f that Fill
        by (auto simp: pf_on_fill_def Let_def bind_eq_Some_conv recalculate_unrealized_pnl_def
            split: option.splits if_splits)
      ultimately show ?thesis by blast
    qed
    with refused show ?thesis by simp
  next
    case replayed
    with Fill show ?thesis by (auto split: option.splits)
  next
    case (applied sm sd v v')
    have fin: "finite (dom (av_positions (pf_view s)))" using assms(2) by (simp add: pf_inv_def pf_shape_def)
    have q0: "q \<noteq> 0" using applied(2) by simp
    from apply_fill_books(3) [OF assms(1) applied(6) q0 fin, of k] recalculate_keeps(3) [OF applied(7), of k]
      applied(1-5,8) Fill
    show ?thesis by auto
  qed
next
  case (FeeCharged oid amount ts fid)
  with assms(3) have "pf_on_fee D ks s oid amount ts fid = Some s'" by simp
  then show ?thesis
  proof (cases rule: pf_fee_cases)
    case (applied cash realized fees v)
    with drawdown_frame(2) [OF applied(7)] FeeCharged show ?thesis by simp
  qed (use FeeCharged in auto)
qed (use assms(3) in auto)

lemma run_position:
  assumes "dec_exact D" and "iteration_order ks" and "pf_inv D ks c s"
    and "run_events (pf_on_execution_event D ks) s evs = Some s'"
  shows "qty_of (av_positions (pf_view s')) k = qty_of (av_positions (pf_view s)) k + net_fills D ks s evs k"
  using assms(3,4)
proof (induction evs arbitrary: s)
  case (Cons ev evs)
  then obtain t where t: "pf_on_execution_event D ks s ev = Some t"
      "run_events (pf_on_execution_event D ks) t evs = Some s'"
    by (auto split: option.splits)
  from Cons.IH [OF pf_inv_event [OF assms(1,2) Cons.prems(1) t(1)] t(2)]
    event_position [OF assms(1) Cons.prems(1) t(1), of k] t(1)
  show ?case by simp
qed simp

text \<open>High-water mark and maximum drawdown never drop.\<close>

definition stats_le :: "account_view \<Rightarrow> account_view \<Rightarrow> bool" where
  "stats_le v v' \<longleftrightarrow>
     av_high_water_mark v \<le> av_high_water_mark v' \<and> av_max_drawdown_pct v \<le> av_max_drawdown_pct v'"

lemma drawdown_stats_le: "update_drawdown_stats D ks v = Some v' \<Longrightarrow> stats_le v v'"
  by (erule drawdown_cases) (auto simp: stats_le_def)

lemma recalculate_stats_le: "recalculate_view D ks mp v = Some v' \<Longrightarrow> stats_le v v'"
  by (erule recalculate_cases) (drule drawdown_stats_le, simp add: stats_le_def)

lemma apply_fill_stats: "apply_fill D v sm sd p q = Some v' \<Longrightarrow> stats_le v v'"
  by (auto simp: apply_fill_def Let_def bind_eq_Some_conv stats_le_def)

lemma stats_le_trans: "stats_le a b \<Longrightarrow> stats_le b c \<Longrightarrow> stats_le a c"
  by (auto simp: stats_le_def)

lemma pf_step_stats:
  assumes "pf_step D ks s s'"
  shows "stats_le (pf_view s) (pf_view s')"
  using assms
proof cases
  case (pf_register oid sm sd)
  then show ?thesis
    by (auto simp: pf_register_order_def stats_le_def split: option.splits)
next
  case (pf_prices prices)
  then show ?thesis
    by (auto simp: update_market_prices_def recalculate_unrealized_pnl_def bind_eq_Some_conv
        dest: recalculate_stats_le)
next
  case (pf_event ev)
  show ?thesis
  proof (cases ev)
    case (Fill oid p q ts fid)
    with pf_event have "pf_on_fill D ks s oid p q ts fid = Some s'" by simp
    then show ?thesis
    proof (cases rule: pf_fill_cases)
      case (applied sm sd v v')
      from stats_le_trans [OF apply_fill_stats [OF applied(6)] recalculate_stats_le [OF applied(7)]] applied(8)
      show ?thesis by simp
    qed (auto simp: stats_le_def)
  next
    case (FeeCharged oid amount ts fid)
    with pf_event have "pf_on_fee D ks s oid amount ts fid = Some s'" by simp
    then show ?thesis
    proof (cases rule: pf_fee_cases)
      case (applied cash realized fees v)
      from drawdown_stats_le [OF applied(7)] applied(8) show ?thesis by (simp add: stats_le_def)
    qed (auto simp: stats_le_def)
  qed (use pf_event in \<open>auto simp: stats_le_def\<close>)
qed

lemma drawdown_values:
  assumes "dec_exact D" and "update_drawdown_stats D ks w = Some v" and "equity D ks w = Some e"
  shows "e \<le> av_high_water_mark v \<and> 0 \<le> av_drawdown_pct v \<and> (0 < av_high_water_mark v \<longrightarrow>
    av_drawdown_pct v \<le> av_max_drawdown_pct v \<and> av_drawdown_pct v =
      max (parse_f64 ((av_high_water_mark v - e) / av_high_water_mark v * 100)) 0)"
  using assms(2)
proof (cases rule: drawdown_cases)
  case (positive e' drawdown ratio pct)
  have e': "e' = e" using positive(1) assms(3) by simp
  have "pct = (max (av_high_water_mark w) e - e) / max (av_high_water_mark w) e * 100"
    using dec_exactD(2) [OF assms(1) positive(3)] dec_exactD(4) [OF assms(1) positive(4)]
      dec_exactD(3) [OF assms(1) positive(5)] e' by simp
  then show ?thesis unfolding positive(6) e' by simp
next
  case (zero e')
  then have "\<not> 0 < av_high_water_mark v" by (simp add: not_less)
  with zero assms(3) show ?thesis by simp
qed

lemma pf_inv_stats:
  assumes "dec_exact D" and "pf_inv D ks c s"
    and "equity D (ks (dom (av_positions (pf_view s)))) (pf_view s) = Some e"
  shows "e \<le> av_high_water_mark (pf_view s) \<and> 0 \<le> av_drawdown_pct (pf_view s) \<and>
    (0 < av_high_water_mark (pf_view s) \<longrightarrow>
      av_drawdown_pct (pf_view s) \<le> av_max_drawdown_pct (pf_view s) \<and>
      av_drawdown_pct (pf_view s) = max (parse_f64
        ((av_high_water_mark (pf_view s) - e) / av_high_water_mark (pf_view s) * 100)) 0)"
proof -
  have "recalculate_view D ks (pf_market_prices s) (pf_view s) = Some (pf_view s)"
    using assms(2) by (simp add: pf_inv_def)
  then have "update_drawdown_stats D (ks (dom (av_positions (pf_view s)))) (pf_view s) = Some (pf_view s)"
  proof (cases rule: recalculate_cases)
    case (1 ps u w)
    from drawdown_idem [OF 1(4)] show ?thesis .
  qed
  from drawdown_values [OF assms(1) this assms(3)] show ?thesis .
qed

subsection \<open>Restart\<close>

lemma restore_fees_id:
  assumes "list_all (journal_entry_ok s) js"
  shows "restore_fees js s = s"
  using assms
proof (induction js)
  case (Cons e js)
  obtain oid eid where e: "e = (oid, eid)" by (cases e)
  from Cons.prems e obtain fid where fid: "fid \<noteq> []"
    "eid = ''fill:'' @ fid \<or> eid = ''fee:'' @ fid \<and> eid \<in> seen_ids (pf_processed_fee_ids s) oid"
    by (auto simp: journal_entry_ok_def)
  from fid(2) have "(if starts_with ''fee:'' eid
      then let s1 = s\<lparr>pf_processed_fee_ids := (pf_processed_fee_ids s)(oid \<mapsto>
                          insert eid (seen_ids (pf_processed_fee_ids s) oid))\<rparr>
           in if eid = ''fee:''
              then pf_record_exception s1 (Some oid) (Msg ''snapshot contains an empty fee identity'') None
              else s1
      else s) = s"
  proof
    assume "eid = ''fill:'' @ fid"
    then show ?thesis by (simp add: starts_with_def)
  next
    assume fee: "eid = ''fee:'' @ fid \<and> eid \<in> seen_ids (pf_processed_fee_ids s) oid"
    then have "eid \<noteq> ''fee:''" using fid(1) by simp
    moreover have "(pf_processed_fee_ids s)(oid \<mapsto> insert eid (seen_ids (pf_processed_fee_ids s) oid)) =
      pf_processed_fee_ids s"
      using fee by (intro seen_upd_id) blast
    ultimately show ?thesis by (simp add: Let_def)
  qed
  with e Cons show ?case by simp
qed simp

lemma check_journal_ok:
  assumes "list_all (journal_entry_ok s) js" and "ps_order_meta st = pf_order_meta s"
  shows "check_journal st js = Ok ()"
  using assms
proof (induction js)
  case (Cons e js)
  obtain oid eid where e: "e = (oid, eid)" by (cases e)
  from Cons.prems e obtain fid where "eid = ''fill:'' @ fid \<or> eid = ''fee:'' @ fid"
    "pf_order_meta s oid \<noteq> None" by (auto simp: journal_entry_ok_def)
  with Cons e show ?case by (auto simp: starts_with_def)
qed simp

lemma export_validates:
  assumes "pf_shape s" and "iteration_order ks" and "keys_of (pf_processed_fill_ids s) fks"
    and "keys_of (pf_processed_fee_ids s) eks"
  shows "validate_state dg ks iks fks eks (pf_export_state dg s) = Ok ()"
proof -
  have find: "List.find (\<lambda>oid. pf_order_meta s oid = None) l = None"
    if "\<And>oid. oid \<in> set l \<Longrightarrow> pf_order_meta s oid \<noteq> None" for l
    using that by (simp add: find_None_iff)
  have "pf_order_meta s oid \<noteq> None" if "oid \<in> set fks \<or> oid \<in> set eks" for oid
  proof
    assume "pf_order_meta s oid = None"
    then have "oid \<notin> dom (pf_processed_fill_ids s)" "oid \<notin> dom (pf_processed_fee_ids s)"
      using assms(1) by (simp_all add: pf_shape_def domIff)
    with that assms(3,4) show False by (auto simp: keys_of_def)
  qed
  with find [of fks] find [of eks]
  have ids: "List.find (\<lambda>oid. pf_order_meta s oid = None) fks = None"
    "List.find (\<lambda>oid. pf_order_meta s oid = None) eks = None" by blast+
  have pos: "\<not> list_ex (\<lambda>sm. is_some_and (\<lambda>pos. sm \<noteq> pos_symbol pos) (av_positions (pf_view s) sm)) l" for l
    using assms(1) by (auto simp: list_ex_iff is_some_and_def pf_shape_def split: option.splits)
  have inv: "\<not> list_ex (\<lambda>a. is_some_and (\<lambda>r. a \<noteq> inv_asset r) (av_asset_inventory (pf_view s) a)) iks"
    using assms(1) by (auto simp: list_ex_iff pf_shape_def)
  have "list_all (journal_entry_ok s) (pf_recent_accounting_event_ids s)"
    using assms(1) by (simp add: pf_shape_def)
  then have "check_journal st (pf_recent_accounting_event_ids s) = Ok ()" if "ps_order_meta st = pf_order_meta s" for st
    using that by (rule check_journal_ok)
  with ids pos inv show ?thesis
    by (simp add: validate_state_def pf_export_state_def canonical_state_digest_def Let_def)
qed

lemma import_export_portfolio:
  assumes "pf_inv D ks c s" and "iteration_order ks" and "keys_of (pf_processed_fill_ids s) fks"
    and "keys_of (pf_processed_fee_ids s) eks"
  shows "try_import_state dg D ks iks fks eks t (pf_export_state dg s) = Some (s, Ok ())"
proof -
  have sh: "pf_shape s" and snap: "pf_snapshot s = pf_view s"
    and rec: "recalculate_view D ks (pf_market_prices s) (pf_view s) = Some (pf_view s)"
    using assms(1) by (simp_all add: pf_inv_def)
  let ?js = "pf_recent_accounting_event_ids s"
  have len: "rev (take accounting_event_replay_capacity (rev ?js)) = ?js"
    using sh by (simp add: pf_shape_def)
  define s1 where "s1 = t\<lparr>pf_view := pf_view s, pf_total_fees := pf_total_fees s,
     pf_order_meta := pf_order_meta s, pf_market_prices := pf_market_prices s,
     pf_processed_fill_ids := pf_processed_fill_ids s, pf_processed_fee_ids := pf_processed_fee_ids s,
     pf_reconciliation_exceptions := pf_reconciliation_exceptions s\<rparr>"
  have "journal_entry_ok s1 = journal_entry_ok s" by (simp add: fun_eq_iff s1_def journal_entry_ok_def)
  with sh have r: "restore_fees ?js s1 = s1" by (intro restore_fees_id) (simp add: pf_shape_def)
  have "try_import_state dg D ks iks fks eks t (pf_export_state dg s) =
    Some (publish (s1\<lparr>pf_recent_accounting_event_ids := ?js\<rparr>), Ok ())"
    using r rec export_validates [OF sh assms(2-)] len
    by (simp add: try_import_state_def pf_export_state_def Let_def s1_def [symmetric]
        recalculate_unrealized_pnl_def) (simp add: s1_def)
  moreover have "publish (s1\<lparr>pf_recent_accounting_event_ids := ?js\<rparr>) = s"
    using snap by (simp add: s1_def publish_def)
  ultimately show ?thesis by simp
qed

subsection \<open>Sample portfolio\<close>

lemma iteration_order_sorted: "iteration_order (sorted_list_of_set :: symbol set \<Rightarrow> symbol list)"
  by (simp add: iteration_order_def)

definition sample_portfolio :: portfolio where
  "sample_portfolio = pf_register_order (with_cash_balance 1000) (OrderId ''o1'') (Symbol ''BTCUSDT'') Buy"

definition sample_position :: position where
  "sample_position = \<lparr>pos_symbol = Symbol ''BTCUSDT'', pos_quantity = 4, pos_avg_price = 100,
     pos_unrealized_pnl = 0, pos_realized_pnl = 0\<rparr>"

definition sample_view :: account_view where
  "sample_view = default_account_view\<lparr>av_cash_balance := 600, av_high_water_mark := 1000,
     av_positions := [Symbol ''BTCUSDT'' \<mapsto> sample_position]\<rparr>"

definition sample_portfolio_filled :: portfolio where
  "sample_portfolio_filled = sample_portfolio\<lparr>pf_view := sample_view, pf_snapshot := sample_view,
     pf_market_prices := [Symbol ''BTCUSDT'' \<mapsto> 100],
     pf_processed_fill_ids := [OrderId ''o1'' \<mapsto> {''f1''}],
     pf_recent_accounting_event_ids := [(OrderId ''o1'', ''fill:f1'')]\<rparr>"

lemma sample_portfolio_sel:
  "pf_view sample_portfolio = default_account_view\<lparr>av_cash_balance := 1000, av_high_water_mark := 1000\<rparr>"
  "pf_order_meta sample_portfolio = [OrderId ''o1'' \<mapsto> (Symbol ''BTCUSDT'', Buy)]"
  "pf_market_prices sample_portfolio = Map.empty" "pf_processed_fill_ids sample_portfolio = Map.empty"
  "pf_recent_accounting_event_ids sample_portfolio = []"
  by (simp_all add: sample_portfolio_def pf_register_order_def with_cash_balance_def portfolio_default_def)

lemma sample_fill_view:
  "apply_fill exact_dec (pf_view sample_portfolio) (Symbol ''BTCUSDT'') Buy 100 4 =
     Some (default_account_view\<lparr>av_cash_balance := 600, av_high_water_mark := 1000,
       av_positions := [Symbol ''BTCUSDT'' \<mapsto> sample_position]\<rparr>)"
  by (simp add: apply_fill_def sample_portfolio_sel Let_def empty_position_def signed_qty_def
      default_account_view_def increases_same_side_def increase_position_def sample_position_def)

lemma sample_recalculate:
  "recalculate_view exact_dec sorted_list_of_set [Symbol ''BTCUSDT'' \<mapsto> 100] sample_view = Some sample_view"
  by (simp add: recalculate_view_def sample_view_def sample_position_def default_account_view_def
      update_drawdown_stats_def equity_def Let_def parse_f64_def)

lemma sample_fill_event:
  "pf_on_execution_event exact_dec sorted_list_of_set sample_portfolio (Fill (OrderId ''o1'') 100 4 7 ''f1'') =
     Some sample_portfolio_filled"
proof -
  have "pf_on_fill exact_dec sorted_list_of_set sample_portfolio (OrderId ''o1'') 100 4 7 ''f1'' =
      Some (publish (sample_portfolio\<lparr>pf_processed_fill_ids := [OrderId ''o1'' \<mapsto> {''f1''}],
        pf_recent_accounting_event_ids := [(OrderId ''o1'', ''fill:f1'')], pf_view := sample_view,
        pf_market_prices := [Symbol ''BTCUSDT'' \<mapsto> 100]\<rparr>))"
    using sample_recalculate
    by (simp add: pf_on_fill_def Let_def sample_portfolio_sel(2-5) seen_ids_def sample_fill_view
        sample_view_def [symmetric] recalculate_unrealized_pnl_def record_accounting_event_def
        accounting_event_replay_capacity_def)
  then show ?thesis by (simp add: sample_portfolio_filled_def publish_def)
qed

lemma sample_portfolio_reachable:
  "pf_reachable exact_dec sorted_list_of_set 1000 sample_portfolio"
  "pf_reachable exact_dec sorted_list_of_set 1000 sample_portfolio_filled"
proof -
  show r: "pf_reachable exact_dec sorted_list_of_set 1000 sample_portfolio"
    unfolding sample_portfolio_def by (rule pf_next [OF pf_init pf_register])
  show "pf_reachable exact_dec sorted_list_of_set 1000 sample_portfolio_filled"
    by (rule pf_next [OF r pf_event [OF sample_fill_event]])
qed

subsection \<open>Properties\<close>





text \<open>
  Drawdown statistics are sound: every step of a portfolio keeps the high-water mark and the maximum
  drawdown from dropping, and afterwards the mark is at least the equity, the drawdown is the rounded
  percentage by which equity lies below the mark, is not negative, and is at most the maximum.
\<close>

theorem portfolio_drawdown_sound:
  assumes "dec_exact D" and "dec_zero D" and "iteration_order ks" and "pf_reachable D ks c s"
    and "pf_step D ks s s'"
    and "equity D (ks (dom (av_positions (pf_view s')))) (pf_view s') = Some e"
  shows "av_high_water_mark (pf_view s) \<le> av_high_water_mark (pf_view s') \<and>
    av_max_drawdown_pct (pf_view s) \<le> av_max_drawdown_pct (pf_view s') \<and>
    e \<le> av_high_water_mark (pf_view s') \<and> 0 \<le> av_drawdown_pct (pf_view s') \<and>
    (0 < av_high_water_mark (pf_view s') \<longrightarrow>
       av_drawdown_pct (pf_view s') \<le> av_max_drawdown_pct (pf_view s') \<and>
       av_drawdown_pct (pf_view s') = max (parse_f64
         ((av_high_water_mark (pf_view s') - e) / av_high_water_mark (pf_view s') * 100)) 0)"
  using pf_inv_stats [OF assms(1) pf_step_inv [OF assms(1,3) pf_reachable_inv [OF assms(1-4)] assms(5)] assms(6)]
    pf_step_stats [OF assms(5)]
  unfolding stats_le_def by blast

theorem portfolio_drawdown_sound_witness:
  "(1000 :: decimal) \<le> av_high_water_mark (pf_view sample_portfolio_filled)"
proof -
  have "pf_step exact_dec sorted_list_of_set sample_portfolio sample_portfolio_filled"
    by (rule pf_event [OF sample_fill_event])
  moreover have "equity exact_dec (sorted_list_of_set (dom (av_positions (pf_view sample_portfolio_filled))))
      (pf_view sample_portfolio_filled) = Some 1000"
    by (simp add: sample_portfolio_filled_def sample_view_def sample_position_def default_account_view_def
        equity_def)
  ultimately show ?thesis
    using portfolio_drawdown_sound [OF dec_exact_exact_dec dec_zero_exact_dec iteration_order_sorted
        sample_portfolio_reachable(1)] by blast
qed

text \<open>
  Replaying fills moves no money: fills the portfolio has processed can be delivered again at any
  later point of the stream, in any number and order, and change nothing.
\<close>

theorem portfolio_replay_idempotent:
  assumes "published s" and "list_all (known_fill pf_seen s) fs"
    and "run_events (pf_on_execution_event D ks) s evs = Some s'"
  shows "run_events (pf_on_execution_event D ks) s' fs = Some s'"
  using assms by (rule pf.run_then_replay)

theorem portfolio_replay_idempotent_witness:
  "run_events (pf_on_execution_event exact_dec sorted_list_of_set) sample_portfolio_filled
     [Fill (OrderId ''o1'') 90 4 9 ''f1'', Fill (OrderId ''o1'') 100 4 7 ''f1''] = Some sample_portfolio_filled"
proof (rule portfolio_replay_idempotent [of sample_portfolio_filled _ _ _ "[]"])
  show "published sample_portfolio_filled" by (simp add: published_def sample_portfolio_filled_def)
  show "list_all (known_fill pf_seen sample_portfolio_filled)
     [Fill (OrderId ''o1'') 90 4 9 ''f1'', Fill (OrderId ''o1'') 100 4 7 ''f1'']"
    by (simp add: pf_seen_def sample_portfolio_filled_def sample_portfolio_sel seen_ids_def)
qed simp

text \<open>
  A refused accounting event moves no money: when an event adds evidence to the portfolio, its
  view, fees, marks, identities and journal are as before.
\<close>

theorem portfolio_refusal_moves_nothing:
  assumes "pf_on_execution_event D ks s ev = Some s'"
    and "pf_reconciliation_exceptions s' \<noteq> pf_reconciliation_exceptions s"
  shows "\<exists>x. pf_reconciliation_exceptions s' = pf_reconciliation_exceptions s @ [x] \<and>
    pf_view s' = pf_view s \<and> pf_total_fees s' = pf_total_fees s \<and>
    pf_market_prices s' = pf_market_prices s \<and> pf_order_meta s' = pf_order_meta s \<and>
    pf_processed_fill_ids s' = pf_processed_fill_ids s \<and> pf_processed_fee_ids s' = pf_processed_fee_ids s \<and>
    pf_recent_accounting_event_ids s' = pf_recent_accounting_event_ids s"
proof (cases ev)
  case (Fill oid p q ts fid)
  with assms(1) have "pf_on_fill D ks s oid p q ts fid = Some s'" by simp
  then show ?thesis by (cases rule: pf_fill_cases) (use assms(2) in auto)
next
  case (FeeCharged oid amount ts fid)
  with assms(1) have "pf_on_fee D ks s oid amount ts fid = Some s'" by simp
  then show ?thesis by (cases rule: pf_fee_cases) (use assms(2) in auto)
qed (use assms in auto)

theorem portfolio_refusal_moves_nothing_witness:
  "\<exists>s'. pf_on_execution_event exact_dec sorted_list_of_set sample_portfolio (Fill (OrderId ''o9'') 100 4 7 ''f1'') =
     Some s' \<and> pf_view s' = pf_view sample_portfolio"
proof -
  let ?ev = "Fill (OrderId ''o9'') 100 4 7 ''f1''"
  obtain m where s': "pf_on_execution_event exact_dec sorted_list_of_set sample_portfolio ?ev =
      Some (pf_record_exception sample_portfolio (Some (OrderId ''o9'')) m (Some ?ev))"
    by (simp add: pf_on_fill_def sample_portfolio_sel)
  from portfolio_refusal_moves_nothing [OF s'] s' show ?thesis by auto
qed

text \<open>
  A restart restores the books: the checkpoint exported from any reachable portfolio passes its own
  validation, checksum included, in a portfolio in any other state, and gives back exactly the exported
  state, snapshot included.
\<close>

theorem portfolio_restart:
  assumes "dec_exact D" and "dec_zero D" and "iteration_order ks" and "pf_reachable D ks c s"
    and "keys_of (pf_processed_fill_ids s) fks" and "keys_of (pf_processed_fee_ids s) eks"
  shows "try_import_state dg D ks iks fks eks t (pf_export_state dg s) = Some (s, Ok ())"
  by (rule import_export_portfolio [OF pf_reachable_inv [OF assms(1-4)] assms(3,5,6)])

theorem portfolio_restart_witness:
  "try_import_state (\<lambda>st. ''d'') exact_dec sorted_list_of_set [] [OrderId ''o1''] [] (with_cash_balance 7)
     (pf_export_state (\<lambda>st. ''d'') sample_portfolio_filled) = Some (sample_portfolio_filled, Ok ())"
proof (rule portfolio_restart [OF dec_exact_exact_dec dec_zero_exact_dec iteration_order_sorted
      sample_portfolio_reachable(2)])
  show "keys_of (pf_processed_fill_ids sample_portfolio_filled) [OrderId ''o1'']"
    by (simp add: keys_of_def sample_portfolio_filled_def)
  show "keys_of (pf_processed_fee_ids sample_portfolio_filled) []"
    by (simp add: keys_of_def sample_portfolio_filled_def sample_portfolio_def pf_register_order_def
        with_cash_balance_def portfolio_default_def publish_def)
qed

end
