(* ===== verification/Rate_Budget.thy ===== *)
theory Rate_Budget
  imports Ports
begin

text \<open>
  Admission budgets of the execution worker (\<open>market-core/engine/src/rate_budget.rs\<close>): a request is
  charged to its account and to its egress identity, to both or to neither, and a budget refills to
  its full quota at most once per interval. Instants and intervals of the monotonic clock are
  nanoseconds; an instant read from the clock is an argument.
\<close>

subsection \<open>State\<close>

datatype rate_budget_operation = NewOrder | Cancel | CancelAll

datatype rate_budget_scope = Account account_id | Egress string

record rate_budget_key =
  rk_venue :: venue_id
  rk_product :: product_type
  rk_operation :: rate_budget_operation
  rk_scope :: rate_budget_scope

record rate_budget_spec =
  rs_key :: rate_budget_key
  rs_max_requests :: u32
  rs_refill_interval :: nat

record budget_bucket =
  bb_spec :: rate_budget_spec
  bb_remaining :: u32
  bb_last_refill :: nat

type_synonym rate_budget = "rate_budget_key \<rightharpoonup> budget_bucket"

subsection \<open>Operations\<close>

definition refill :: "budget_bucket \<Rightarrow> nat \<Rightarrow> budget_bucket" where
  "refill b now =
     (if rs_refill_interval (bb_spec b) \<le> now - bb_last_refill b
      then b\<lparr>bb_remaining := rs_max_requests (bb_spec b), bb_last_refill := now\<rparr> else b)"

fun scope_identity :: "rate_budget_scope \<Rightarrow> string" where
  "scope_identity (Account (AccountId a)) = a"
| "scope_identity (Egress e) = e"

definition rate_add :: "rate_budget \<Rightarrow> rate_budget_spec \<Rightarrow> nat \<Rightarrow> message + rate_budget" where
  "rate_add m spec now =
     (if blank (scope_identity (rk_scope (rs_key spec))) then Err (Msg ''rate budget identity is empty'')
      else if rs_max_requests spec = 0 \<or> rs_refill_interval spec = 0
      then Err (Msg ''rate budget quota and refill interval must be positive'')
      else if m (rs_key spec) \<noteq> None then Err (Msg ''duplicate rate budget dimension'')
      else Ok (m(rs_key spec \<mapsto> \<lparr>bb_spec = spec, bb_remaining = rs_max_requests spec,
                   bb_last_refill = now\<rparr>)))"

text \<open>\<open>new\<close> reads the clock once per specification.\<close>

fun rate_add_all :: "rate_budget \<Rightarrow> (rate_budget_spec \<times> nat) list \<Rightarrow> message + rate_budget" where
  "rate_add_all m [] = Ok m"
| "rate_add_all m ((spec, now) # xs) = and_then (rate_add m spec now) (\<lambda>m'. rate_add_all m' xs)"

definition rate_budget_new :: "(rate_budget_spec \<times> nat) list \<Rightarrow> message + rate_budget" where
  "rate_budget_new xs = rate_add_all Map.empty xs"

fun dimension :: "rate_budget_scope \<Rightarrow> string" where
  "dimension (Account _) = ''account''"
| "dimension (Egress _) = ''egress''"

fun operation_name :: "rate_budget_operation \<Rightarrow> string" where
  "operation_name NewOrder = ''NewOrder''"
| "operation_name Cancel = ''Cancel''"
| "operation_name CancelAll = ''CancelAll''"

text \<open>The first loop of \<open>admit_at\<close>: refill and check each dimension, in order.\<close>

fun check_dimensions :: "rate_budget_key list \<Rightarrow> nat \<Rightarrow> rate_budget \<Rightarrow> rate_budget \<times> (message + unit)" where
  "check_dimensions [] now m = (m, Ok ())"
| "check_dimensions (k # ks) now m =
     (case m k of
        None \<Rightarrow> (m, Err (MsgCause (''unconfigured '' @ dimension (rk_scope k) @ '' rate budget for'')
                   (Msg (operation_name (rk_operation k)))))
      | Some b \<Rightarrow>
          let m' = m(k \<mapsto> refill b now)
          in if bb_remaining (refill b now) = 0
             then (m', Err (MsgCause (dimension (rk_scope k) @ '' rate budget exhausted for'')
                     (Msg (operation_name (rk_operation k)))))
             else check_dimensions ks now m')"

text \<open>The second loop: one request off every dimension.\<close>

fun charge_dimensions :: "rate_budget_key list \<Rightarrow> rate_budget \<Rightarrow> rate_budget" where
  "charge_dimensions [] m = m"
| "charge_dimensions (k # ks) m =
     charge_dimensions ks (m(k := map_option (\<lambda>b. b\<lparr>bb_remaining := bb_remaining b - 1\<rparr>) (m k)))"

definition request_keys ::
  "venue_id \<Rightarrow> product_type \<Rightarrow> rate_budget_operation \<Rightarrow> account_id \<Rightarrow> string \<Rightarrow> rate_budget_key list" where
  "request_keys v p op acc eg =
     [\<lparr>rk_venue = v, rk_product = p, rk_operation = op, rk_scope = Account acc\<rparr>,
      \<lparr>rk_venue = v, rk_product = p, rk_operation = op, rk_scope = Egress eg\<rparr>]"

definition admit_at ::
  "rate_budget \<Rightarrow> venue_id \<Rightarrow> product_type \<Rightarrow> rate_budget_operation \<Rightarrow> account_id \<Rightarrow> string \<Rightarrow> nat
   \<Rightarrow> rate_budget \<times> (message + unit)" where
  "admit_at m v p op acc eg now =
     (let keys = request_keys v p op acc eg
      in case check_dimensions keys now m of
           (m', Inl e) \<Rightarrow> (m', Err e)
         | (m', Inr _) \<Rightarrow> (charge_dimensions keys m', Ok ()))"

subsection \<open>Runs\<close>

record rate_request =
  rq_venue :: venue_id
  rq_product :: product_type
  rq_operation :: rate_budget_operation
  rq_account :: account_id
  rq_egress :: string
  rq_now :: nat

definition serve :: "rate_budget \<Rightarrow> rate_request \<Rightarrow> rate_budget \<times> (message + unit)" where
  "serve m r = admit_at m (rq_venue r) (rq_product r) (rq_operation r) (rq_account r) (rq_egress r) (rq_now r)"

definition keys_of_request :: "rate_request \<Rightarrow> rate_budget_key list" where
  "keys_of_request r = request_keys (rq_venue r) (rq_product r) (rq_operation r) (rq_account r) (rq_egress r)"

text \<open>The requests of a run that were admitted on the dimension \<open>k\<close>.\<close>

fun admitted :: "rate_budget \<Rightarrow> rate_request list \<Rightarrow> rate_budget_key \<Rightarrow> nat" where
  "admitted m [] k = 0"
| "admitted m (r # rs) k =
     (if is_ok (snd (serve m r)) \<and> k \<in> set (keys_of_request r) then 1 else 0) + admitted (fst (serve m r)) rs k"

subsection \<open>Lemmas\<close>

lemma request_keys_distinct: "distinct (request_keys v p op acc eg)"
  by (simp add: request_keys_def)

text \<open>Checking the dimensions only refills: no bucket is charged, whatever the outcome.\<close>

lemma check_dimensions_frame:
  "check_dimensions ks now m = (m', res) \<Longrightarrow> m' k = m k \<or> m' k = map_option (\<lambda>b. refill b now) (m k)"
proof (induction ks arbitrary: m)
  case (Cons a ks)
  show ?case
  proof (cases "m a")
    case (Some b)
    have idem: "refill (refill c now) now = refill c now" for c
      by (simp add: refill_def)
    from Cons.prems Some consider "m' = m(a \<mapsto> refill b now)"
      | "check_dimensions ks now (m(a \<mapsto> refill b now)) = (m', res)"
      by (auto simp: Let_def split: if_splits)
    then show ?thesis
    proof cases
      case 2
      from Cons.IH [OF this] Some idem show ?thesis by (cases "k = a") auto
    qed (use Some in auto)
  qed (use Cons.prems in auto)
qed simp

lemma check_dimensions_Ok:
  assumes "check_dimensions ks now m = (m', Ok ())" and "k \<in> set ks" and "distinct ks"
  shows "\<exists>b. m k = Some b \<and> m' k = Some (refill b now) \<and> bb_remaining (refill b now) \<noteq> 0"
  using assms
proof (induction ks arbitrary: m)
  case (Cons a ks)
  then obtain b where b: "m a = Some b" "bb_remaining (refill b now) \<noteq> 0"
      "check_dimensions ks now (m(a \<mapsto> refill b now)) = (m', Ok ())"
    by (auto simp: Let_def split: option.splits if_splits)
  show ?case
  proof (cases "k = a")
    case True
    have same: "l \<notin> set ks \<Longrightarrow> check_dimensions ks now n = (n', r) \<Longrightarrow> n' l = n l" for l n n' r
      by (induction ks arbitrary: n) (auto simp: Let_def split: option.splits if_splits)
    from same [of a, OF _ b(3)] Cons.prems(3) b True show ?thesis by auto
  next
    case False
    from Cons.IH [OF b(3)] Cons.prems False show ?thesis by auto
  qed
qed simp

lemma charge_dimensions_apply:
  "distinct ks \<Longrightarrow> charge_dimensions ks m k =
     (if k \<in> set ks then map_option (\<lambda>b. b\<lparr>bb_remaining := bb_remaining b - 1\<rparr>) (m k) else m k)"
  by (induction ks arbitrary: m) auto

text \<open>The effect of a request on one bucket.\<close>

definition bucket_step :: "nat \<Rightarrow> bool \<Rightarrow> budget_bucket \<Rightarrow> budget_bucket \<Rightarrow> bool" where
  "bucket_step now charged b b' \<longleftrightarrow>
     (if charged
      then bb_remaining (refill b now) \<noteq> 0 \<and>
        b' = (refill b now)\<lparr>bb_remaining := bb_remaining (refill b now) - 1\<rparr>
      else b' = b \<or> b' = refill b now)"

lemma serve_bucket:
  assumes "m k = Some b"
  shows "\<exists>b'. fst (serve m r) k = Some b' \<and>
    bucket_step (rq_now r) (is_ok (snd (serve m r)) \<and> k \<in> set (keys_of_request r)) b b'"
proof -
  obtain m' res where c: "check_dimensions (keys_of_request r) (rq_now r) m = (m', res)" by fastforce
  have dist: "distinct (keys_of_request r)" by (simp add: keys_of_request_def request_keys_distinct)
  note frame = check_dimensions_frame [OF c, of k]
  show ?thesis
  proof (cases res)
    case (Inl e)
    with c have "serve m r = (m', Err e)"
      by (simp add: serve_def admit_at_def Let_def keys_of_request_def)
    with frame assms show ?thesis by (auto simp: bucket_step_def)
  next
    case (Inr u)
    with c have s: "serve m r = (charge_dimensions (keys_of_request r) m', Ok ())"
      by (simp add: serve_def admit_at_def Let_def keys_of_request_def)
    show ?thesis
    proof (cases "k \<in> set (keys_of_request r)")
      case True
      have "check_dimensions (keys_of_request r) (rq_now r) m = (m', Ok ())" using c Inr by simp
      from check_dimensions_Ok [OF this True dist] assms
      have "m' k = Some (refill b (rq_now r))" "bb_remaining (refill b (rq_now r)) \<noteq> 0" by auto
      with s True dist show ?thesis by (simp add: bucket_step_def charge_dimensions_apply)
    next
      case False
      with s dist frame assms show ?thesis by (auto simp: bucket_step_def charge_dimensions_apply)
    qed
  qed
qed

definition bucket_wf :: "budget_bucket \<Rightarrow> bool" where
  "bucket_wf b \<longleftrightarrow> bb_remaining b \<le> rs_max_requests (bb_spec b) \<and> 0 < rs_refill_interval (bb_spec b)"

text \<open>What a bucket may still admit up to the instant \<open>T\<close>.\<close>

definition capacity_until :: "nat \<Rightarrow> budget_bucket \<Rightarrow> nat" where
  "capacity_until T b =
     unat (bb_remaining b) +
     unat (rs_max_requests (bb_spec b)) * ((T - bb_last_refill b) div rs_refill_interval (bb_spec b))"

lemma refill_capacity:
  assumes "bucket_wf b" and "bb_last_refill b \<le> now" and "now \<le> T"
  shows "capacity_until T (refill b now) \<le> capacity_until T b" and "bucket_wf (refill b now)"
    and "bb_last_refill b \<le> bb_last_refill (refill b now)" and "bb_last_refill (refill b now) \<le> now"
    and "bb_spec (refill b now) = bb_spec b"
proof -
  let ?I = "rs_refill_interval (bb_spec b)" and ?M = "unat (rs_max_requests (bb_spec b))"
  show "capacity_until T (refill b now) \<le> capacity_until T b"
  proof (cases "?I \<le> now - bb_last_refill b")
    case True
    have I: "0 < ?I" using assms(1) by (simp add: bucket_wf_def)
    have "(T - now + ?I) div ?I \<le> (T - bb_last_refill b) div ?I"
      using True assms(2,3) by (intro div_le_mono) simp
    then have "1 + (T - now) div ?I \<le> (T - bb_last_refill b) div ?I" using I by simp
    then have "?M * (1 + (T - now) div ?I) \<le> ?M * ((T - bb_last_refill b) div ?I)"
      by (rule mult_le_mono2)
    with True show ?thesis by (simp add: refill_def capacity_until_def)
  qed (simp add: refill_def)
qed (use assms in \<open>auto simp: refill_def bucket_wf_def\<close>)

lemma bucket_step_capacity:
  assumes "bucket_wf b" and "bb_last_refill b \<le> now" and "now \<le> T" and "bucket_step now charged b b'"
  shows "(if charged then 1 else 0) + capacity_until T b' \<le> capacity_until T b"
    and "bucket_wf b'" and "bb_last_refill b' \<le> now" and "bb_spec b' = bb_spec b"
proof -
  note r = refill_capacity [OF assms(1-3)]
  have dec: "unat (x - 1) = unat x - 1" "0 < unat x" if "x \<noteq> 0" for x :: u32
    using that by (simp_all add: unat_minus_one unat_gt_0)
  have small: "x - 1 \<le> y" if "x \<noteq> 0" "x \<le> y" for x y :: u32
    using that dec(1) [OF that(1)] by (simp add: word_le_nat_alt)
  show "(if charged then 1 else 0) + capacity_until T b' \<le> capacity_until T b"
    using assms(4) r(1) dec [of "bb_remaining (refill b now)"]
    by (auto simp: bucket_step_def capacity_until_def split: if_splits)
  show "bucket_wf b'" "bb_last_refill b' \<le> now" "bb_spec b' = bb_spec b"
    using assms(1,2,4) r small by (auto simp: bucket_step_def bucket_wf_def split: if_splits)
qed

lemma admitted_bound:
  assumes "m k = Some b" and "bucket_wf b" and "bb_last_refill b \<le> t0"
    and "sorted (t0 # map rq_now rs)" and "\<forall>r\<in>set rs. rq_now r \<le> T"
  shows "admitted m rs k \<le> capacity_until T b"
  using assms
proof (induction rs arbitrary: m b t0)
  case (Cons r rs)
  let ?now = "rq_now r"
  have now: "bb_last_refill b \<le> ?now" "?now \<le> T" using Cons.prems(3-5) by auto
  from serve_bucket [of m k b r, OF Cons.prems(1)] obtain b' where
    b': "fst (serve m r) k = Some b'"
    and st: "bucket_step ?now (is_ok (snd (serve m r)) \<and> k \<in> set (keys_of_request r)) b b'" by blast
  note c = bucket_step_capacity [OF Cons.prems(2) now st]
  have "admitted (fst (serve m r)) rs k \<le> capacity_until T b'"
    using Cons.IH [of "fst (serve m r)" b' ?now, OF b' c(2,3)] Cons.prems(4,5) by simp
  with c(1) show ?case by simp
qed simp

subsection \<open>Properties\<close>

text \<open>
  A request is charged to both of its dimensions or to neither: an admitted request takes exactly
  one from the refilled account budget and one from the refilled egress budget, a refused one takes
  nothing from any budget, and no other budget is charged.
\<close>

theorem admit_both_or_neither:
  assumes "m k = Some b"
  shows "\<exists>b'. fst (serve m r) k = Some b' \<and>
    (if is_ok (snd (serve m r)) \<and> k \<in> set (keys_of_request r)
     then 0 < bb_remaining (refill b (rq_now r)) \<and>
       b' = (refill b (rq_now r))\<lparr>bb_remaining := bb_remaining (refill b (rq_now r)) - 1\<rparr>
     else b' = b \<or> b' = refill b (rq_now r))"
  using serve_bucket [of m k b r, OF assms] by (auto simp: bucket_step_def word_neq_0_conv split: if_splits)

definition sample_request :: rate_request where
  "sample_request = \<lparr>rq_venue = BINANCE, rq_product = Spot, rq_operation = NewOrder,
     rq_account = AccountId ''a'', rq_egress = ''e'', rq_now = 5\<rparr>"

definition sample_bucket :: "rate_budget_key \<Rightarrow> budget_bucket" where
  "sample_bucket k = \<lparr>bb_spec = \<lparr>rs_key = k, rs_max_requests = 2, rs_refill_interval = 10\<rparr>,
     bb_remaining = 1, bb_last_refill = 0\<rparr>"

definition sample_budget :: rate_budget where
  "sample_budget = map_of (map (\<lambda>k. (k, sample_bucket k)) (keys_of_request sample_request))"

lemma sample_budget_key:
  "k \<in> set (keys_of_request sample_request) \<Longrightarrow> sample_budget k = Some (sample_bucket k)"
  by (auto simp: sample_budget_def keys_of_request_def request_keys_def)

theorem admit_both_or_neither_witness:
  "\<exists>b'. fst (serve sample_budget sample_request) (hd (keys_of_request sample_request)) = Some b' \<and>
     bb_remaining b' \<le> 1"
proof -
  let ?k = "hd (keys_of_request sample_request)"
  have k: "sample_budget ?k = Some (sample_bucket ?k)"
    by (rule sample_budget_key) (simp add: keys_of_request_def request_keys_def)
  have r: "refill (sample_bucket ?k) (rq_now sample_request) = sample_bucket ?k"
    by (simp add: refill_def sample_bucket_def sample_request_def)
  from admit_both_or_neither [of sample_budget ?k "sample_bucket ?k" sample_request, OF k, unfolded r] show ?thesis
    by (auto simp: sample_bucket_def split: if_splits)
qed

text \<open>
  C40. A budget bounds the rate: in any run of requests with clock readings that do not go back, the
  requests admitted on a dimension up to an instant number at most what is left of its quota plus one
  quota for each full interval since its last refill.
\<close>

theorem admitted_rate_bound:
  assumes "m k = Some b" and "bb_remaining b \<le> rs_max_requests (bb_spec b)"
    and "0 < rs_refill_interval (bb_spec b)" and "bb_last_refill b \<le> t0"
    and "sorted (t0 # map rq_now rs)" and "\<forall>r\<in>set rs. rq_now r \<le> T"
  shows "admitted m rs k \<le> unat (bb_remaining b) +
    unat (rs_max_requests (bb_spec b)) * ((T - bb_last_refill b) div rs_refill_interval (bb_spec b))"
  using admitted_bound [of m k b, OF assms(1) _ assms(4-6)] assms(2,3) by (simp add: bucket_wf_def capacity_until_def)

theorem admitted_rate_bound_witness:
  "admitted sample_budget [sample_request, sample_request] (hd (keys_of_request sample_request)) \<le> 1"
proof -
  let ?k = "hd (keys_of_request sample_request)"
  have k: "sample_budget ?k = Some (sample_bucket ?k)"
    by (rule sample_budget_key) (simp add: keys_of_request_def request_keys_def)
  show ?thesis
    using admitted_rate_bound [of sample_budget ?k "sample_bucket ?k" 0 "[sample_request, sample_request]" 9, OF k]
    by (simp add: sample_bucket_def sample_request_def)
qed

end
