(* ===== verification/Ring_Buffer.thy ===== *)
theory Ring_Buffer
  imports Prelude
begin

text \<open>
  The single-producer single-consumer ring buffer between the engine and the execution worker
  (\<open>market-core/engine/src/dataflow/ring_buffer.rs\<close>), twice: as a sequential structure, which is shown
  to implement the interface of a bounded FIFO queue, and as the interleaving of the producer's and the
  consumer's atomic steps, in which no slot is ever accessed from both sides and every item arrives once
  and in order.

  Positions are machine words advanced with a bit mask; the capacity is a power of two. The atomics of
  the source publish with release and read with acquire, so an interleaving of whole loads and stores is
  the right granularity; weaker reorderings of the relaxed loads a side makes of its own counter are not
  observable by the other side.
\<close>

unbundle bit_operations_syntax

subsection \<open>The sequential structure\<close>

record 'a ring =
  rb_buffer :: "'a option list"
  rb_head :: usize
  rb_tail :: usize
  rb_capacity :: usize

text \<open>\<open>next_power_of_two\<close> of the standard library, for arguments whose result fits.\<close>

definition next_power_of_two :: "nat \<Rightarrow> nat" where
  "next_power_of_two n = (if n \<le> 1 then 1 else 2 ^ bit_length (n - 1))"

definition ring_new :: "usize \<Rightarrow> 'a ring" where
  "ring_new capacity =
     (let actual = next_power_of_two (max (unat capacity) 2)
      in \<lparr>rb_buffer = replicate actual None, rb_head = 0, rb_tail = 0, rb_capacity = of_nat actual\<rparr>)"

definition ring_next :: "usize \<Rightarrow> usize \<Rightarrow> usize" where
  "ring_next cap i = (i + 1) AND (cap - 1)"

definition try_push :: "'a ring \<Rightarrow> 'a \<Rightarrow> 'a ring \<times> ('a + unit)" where
  "try_push r x =
     (let next_head = ring_next (rb_capacity r) (rb_head r)
      in if next_head = rb_tail r then (r, Err x)
         else (r\<lparr>rb_buffer := (rb_buffer r)[unat (rb_head r) := Some x], rb_head := next_head\<rparr>, Ok ()))"

definition try_pop :: "'a ring \<Rightarrow> 'a ring \<times> 'a option" where
  "try_pop r =
     (if rb_tail r = rb_head r then (r, None)
      else (r\<lparr>rb_buffer := (rb_buffer r)[unat (rb_tail r) := None],
              rb_tail := ring_next (rb_capacity r) (rb_tail r)\<rparr>,
            rb_buffer r ! unat (rb_tail r)))"

definition ring_is_empty :: "'a ring \<Rightarrow> bool" where
  "ring_is_empty r \<longleftrightarrow> rb_head r = rb_tail r"

definition ring_is_full :: "'a ring \<Rightarrow> bool" where
  "ring_is_full r \<longleftrightarrow> ring_next (rb_capacity r) (rb_head r) = rb_tail r"

definition pending_len :: "'a ring \<Rightarrow> usize" where
  "pending_len r = (rb_head r - rb_tail r) AND (rb_capacity r - 1)"

text \<open>The used slots and the usable ones; the source divides the two as doubles.\<close>

definition ring_used :: "'a ring \<Rightarrow> usize \<times> usize" where
  "ring_used r =
     (if rb_tail r \<le> rb_head r then rb_head r - rb_tail r
      else rb_capacity r - (rb_tail r - rb_head r), rb_capacity r - 1)"

subsection \<open>Cyclic positions\<close>

definition cyc_dist :: "nat \<Rightarrow> nat \<Rightarrow> nat \<Rightarrow> nat" where
  "cyc_dist n h t = (h + n - t) mod n"

definition cyc_idx :: "nat \<Rightarrow> nat \<Rightarrow> nat \<Rightarrow> nat" where
  "cyc_idx n t i = (t + i) mod n"

lemma cyc_dist_less: "0 < n \<Longrightarrow> cyc_dist n h t < n"
  by (simp add: cyc_dist_def)

lemma cyc_dist_self: "t < n \<Longrightarrow> cyc_dist n t t = 0"
  by (simp add: cyc_dist_def)

lemma cyc_dist_cases:
  assumes "h < n" and "t < n"
  shows "cyc_dist n h t = (if t \<le> h then h - t else h + n - t)"
  using assms by (auto simp: cyc_dist_def mod_if)

lemma cyc_dist_zero: "h < n \<Longrightarrow> t < n \<Longrightarrow> cyc_dist n h t = 0 \<longleftrightarrow> h = t"
  by (auto simp: cyc_dist_cases)

lemma cyc_idx_dist: "h < n \<Longrightarrow> t < n \<Longrightarrow> cyc_idx n t (cyc_dist n h t) = h"
  by (auto simp: cyc_idx_def cyc_dist_cases)

lemma cyc_idx_less: "0 < n \<Longrightarrow> cyc_idx n t i < n"
  by (simp add: cyc_idx_def)

lemma cyc_idx_inj:
  assumes "t < n" and "i < n" and "j < n" and "cyc_idx n t i = cyc_idx n t j"
  shows "i = j"
  using assms by (auto simp: cyc_idx_def mod_if split: if_splits)

lemma cyc_idx_0: "t < n \<Longrightarrow> cyc_idx n t 0 = t"
  by (simp add: cyc_idx_def)

lemma cyc_idx_Suc: "t < n \<Longrightarrow> cyc_idx n ((t + 1) mod n) i = cyc_idx n t (Suc i)"
  by (simp add: cyc_idx_def mod_simps)

lemma cyc_next_head:
  assumes "h < n" and "t < n" and "(h + 1) mod n \<noteq> t"
  shows "cyc_dist n ((h + 1) mod n) t = cyc_dist n h t + 1" and "cyc_dist n h t + 1 < n"
  using assms by (auto simp: cyc_dist_cases mod_if split: if_splits)

lemma cyc_next_tail:
  assumes "h < n" and "t < n" and "h \<noteq> t"
  shows "cyc_dist n h t = cyc_dist n h ((t + 1) mod n) + 1"
  using assms by (auto simp: cyc_dist_cases mod_if split: if_splits)

lemma cyc_full: "h < n \<Longrightarrow> t < n \<Longrightarrow> (h + 1) mod n = t \<longleftrightarrow> cyc_dist n h t + 1 = n"
  by (auto simp: cyc_dist_cases mod_if split: if_splits)

subsection \<open>The shape of a ring\<close>

text \<open>Capacity a power of two of at least two, as many slots, positions inside.\<close>

definition ring_shape :: "'a ring \<Rightarrow> bool" where
  "ring_shape r \<longleftrightarrow>
     (\<exists>k. 0 < k \<and> k < 64 \<and> rb_capacity r = 2 ^ k) \<and>
     length (rb_buffer r) = unat (rb_capacity r) \<and>
     unat (rb_head r) < unat (rb_capacity r) \<and> unat (rb_tail r) < unat (rb_capacity r)"

abbreviation rb_n :: "'a ring \<Rightarrow> nat" where
  "rb_n r \<equiv> unat (rb_capacity r)"

definition ring_length :: "'a ring \<Rightarrow> nat" where
  "ring_length r = cyc_dist (rb_n r) (unat (rb_head r)) (unat (rb_tail r))"

lemma unat_pow2:
  assumes "k < 64"
  shows "unat ((2 :: usize) ^ k) = 2 ^ k"
proof -
  have "(2 :: nat) ^ k < 2 ^ 64" using assms by (intro power_strict_increasing) simp_all
  moreover have "(2 :: usize) ^ k = of_nat (2 ^ k)" by simp
  ultimately show ?thesis by (simp only: unat_of_nat) simp
qed

lemma ring_next_unat:
  assumes "ring_shape r" and "unat i < rb_n r"
  shows "unat (ring_next (rb_capacity r) i) = (unat i + 1) mod rb_n r"
proof -
  from assms(1) obtain k where k: "k < 64" "rb_capacity r = 2 ^ k" by (auto simp: ring_shape_def)
  have "ring_next (rb_capacity r) i = take_bit k (i + 1)"
    by (simp add: ring_next_def k(2) take_bit_eq_mask mask_eq_exp_minus_1)
  then have "unat (ring_next (rb_capacity r) i) = unat (i + 1) mod 2 ^ k"
    by (simp only: unsigned_take_bit_eq) (simp only: take_bit_eq_mod)
  moreover have "unat (i + 1) mod 2 ^ k = (unat i + 1) mod 2 ^ k"
  proof -
    have "(2 ^ k :: nat) dvd 2 ^ 64" using k(1) by (intro le_imp_power_dvd) simp
    then show ?thesis by (simp add: unat_word_ariths mod_mod_cancel)
  qed
  ultimately show ?thesis using k by (simp add: unat_pow2)
qed

lemma ring_shape_pos: "ring_shape r \<Longrightarrow> 1 < rb_n r"
proof -
  assume "ring_shape r"
  then obtain k where "0 < k" "k < 64" "rb_capacity r = 2 ^ k" by (auto simp: ring_shape_def)
  then show ?thesis using one_less_power [of "2 :: nat" k] by (simp add: unat_pow2)
qed

lemma unat_neq: "a \<noteq> b \<longleftrightarrow> unat a \<noteq> unat b"
  by (simp add: word_unat_eq_iff)

subsection \<open>The queue a ring holds\<close>

text \<open>
  The \<open>i\<close>-th item waiting sits \<open>i\<close> positions after the tail. The first \<open>k\<close> are allowed to be gone: a
  consumer that has emptied its slot and not yet published the new tail is one short.
\<close>

definition slots_from :: "nat \<Rightarrow> 'a ring \<Rightarrow> 'a list \<Rightarrow> bool" where
  "slots_from k r xs \<longleftrightarrow>
     length xs = ring_length r \<and>
     (\<forall>i < length xs. k \<le> i \<longrightarrow> rb_buffer r ! cyc_idx (rb_n r) (unat (rb_tail r)) i = Some (xs ! i))"

abbreviation slots_hold :: "'a ring \<Rightarrow> 'a list \<Rightarrow> bool" where
  "slots_hold \<equiv> slots_from 0"

definition ring_inv :: "'a ring \<Rightarrow> bool" where
  "ring_inv r \<longleftrightarrow> ring_shape r \<and> (\<exists>xs. slots_hold r xs)"

definition ring_contents :: "'a ring \<Rightarrow> 'a list" where
  "ring_contents r =
     map (\<lambda>i. the (rb_buffer r ! cyc_idx (rb_n r) (unat (rb_tail r)) i)) [0..<ring_length r]"

lemma slots_hold_contents: "slots_hold r xs \<Longrightarrow> ring_contents r = xs"
  by (auto simp: slots_from_def ring_contents_def intro: nth_equalityI)

lemma ring_inv_contents: "ring_inv r \<longleftrightarrow> ring_shape r \<and> slots_hold r (ring_contents r)"
  unfolding ring_inv_def using slots_hold_contents by metis

lemma ring_shapeD:
  assumes "ring_shape r"
  shows "unat (rb_head r) < rb_n r" and "unat (rb_tail r) < rb_n r" and "length (rb_buffer r) = rb_n r"
  using assms by (simp_all add: ring_shape_def)

lemma ring_next_shape:
  assumes "ring_shape r" and "unat i < rb_n r"
  shows "unat (ring_next (rb_capacity r) i) < rb_n r"
  using ring_next_unat [OF assms] ring_shape_pos [OF assms(1)] by simp

lemma ring_length_less: "ring_shape r \<Longrightarrow> ring_length r < rb_n r"
  using ring_shape_pos [of r] by (simp add: ring_length_def cyc_dist_less)

lemma ring_full_iff:
  assumes "ring_shape r"
  shows "ring_next (rb_capacity r) (rb_head r) = rb_tail r \<longleftrightarrow> ring_length r + 1 = rb_n r"
  using cyc_full [OF ring_shapeD(1,2) [OF assms]] ring_next_unat [OF assms ring_shapeD(1) [OF assms]]
  by (simp add: ring_length_def word_unat_eq_iff)

lemma ring_empty_iff:
  assumes "ring_shape r"
  shows "rb_tail r = rb_head r \<longleftrightarrow> ring_length r = 0"
  using cyc_dist_zero [OF ring_shapeD(1,2) [OF assms]] by (auto simp: ring_length_def word_unat_eq_iff)

text \<open>The head is the position after the last item, so it is no occupied slot unless the ring is full.\<close>

lemma head_index: "ring_shape r \<Longrightarrow> cyc_idx (rb_n r) (unat (rb_tail r)) (ring_length r) = unat (rb_head r)"
  unfolding ring_length_def by (rule cyc_idx_dist [OF ring_shapeD(1,2)])

lemma occupied_not_head:
  assumes "ring_shape r" and "i < ring_length r"
  shows "unat (rb_head r) \<noteq> cyc_idx (rb_n r) (unat (rb_tail r)) i"
  using cyc_idx_inj [OF ring_shapeD(2) [OF assms(1)], of i "ring_length r"] assms
    head_index [OF assms(1)] ring_length_less [OF assms(1)] by auto

lemma occupied_not_tail:
  assumes "ring_shape r" and "i < ring_length r" and "0 < i"
  shows "unat (rb_tail r) \<noteq> cyc_idx (rb_n r) (unat (rb_tail r)) i"
  using cyc_idx_inj [OF ring_shapeD(2) [OF assms(1)], of i 0] assms
    cyc_idx_0 [OF ring_shapeD(2) [OF assms(1)]] ring_length_less [OF assms(1)] by auto

subsection \<open>The four writes\<close>

text \<open>
  A push is a write of the head slot and then of the head; a pop empties the tail slot and then moves the
  tail. Each of the four alone keeps the shape and what the other side relies on.
\<close>

abbreviation put_slot :: "'a ring \<Rightarrow> 'a \<Rightarrow> 'a ring" where
  "put_slot r x \<equiv> r\<lparr>rb_buffer := (rb_buffer r)[unat (rb_head r) := Some x]\<rparr>"

abbreviation store_head :: "'a ring \<Rightarrow> 'a ring" where
  "store_head r \<equiv> r\<lparr>rb_head := ring_next (rb_capacity r) (rb_head r)\<rparr>"

abbreviation take_slot :: "'a ring \<Rightarrow> 'a ring" where
  "take_slot r \<equiv> r\<lparr>rb_buffer := (rb_buffer r)[unat (rb_tail r) := None]\<rparr>"

abbreviation store_tail :: "'a ring \<Rightarrow> 'a ring" where
  "store_tail r \<equiv> r\<lparr>rb_tail := ring_next (rb_capacity r) (rb_tail r)\<rparr>"

lemma write_shape:
  assumes "ring_shape r"
  shows "ring_shape (put_slot r x)" and "ring_shape (store_head r)"
    and "ring_shape (take_slot r)" and "ring_shape (store_tail r)"
  using assms ring_next_shape [OF assms] by (simp_all add: ring_shape_def)

lemma slot_write_length [simp]:
  "ring_length (put_slot r x) = ring_length r" "ring_length (take_slot r) = ring_length r"
  by (simp_all add: ring_length_def)

lemma store_head_length:
  assumes "ring_shape r" and "ring_length r + 1 < rb_n r"
  shows "ring_length (store_head r) = ring_length r + 1"
proof -
  note sh = ring_shapeD [OF assms(1)]
  have "(unat (rb_head r) + 1) mod rb_n r \<noteq> unat (rb_tail r)"
    using assms(2) cyc_full [OF sh(1,2)] by (auto simp: ring_length_def)
  then show ?thesis
    using cyc_next_head(1) [OF sh(1,2)] ring_next_unat [OF assms(1) sh(1)] by (simp add: ring_length_def)
qed

lemma store_tail_length:
  assumes "ring_shape r" and "0 < ring_length r"
  shows "ring_length r = ring_length (store_tail r) + 1"
proof -
  note sh = ring_shapeD [OF assms(1)]
  have "unat (rb_head r) \<noteq> unat (rb_tail r)"
    using assms(2) cyc_dist_zero [OF sh(1,2)] by (auto simp: ring_length_def)
  then show ?thesis
    using cyc_next_tail [OF sh(1,2)] ring_next_unat [OF assms(1) sh(2)] by (simp add: ring_length_def)
qed

lemma put_slot_holds:
  assumes "ring_shape r" and "slots_from k r xs"
  shows "slots_from k (put_slot r x) xs" and "rb_buffer (put_slot r x) ! unat (rb_head r) = Some x"
  using assms occupied_not_head [OF assms(1)] ring_shapeD [OF assms(1)]
  by (auto simp: slots_from_def)

lemma store_head_holds:
  assumes "ring_shape r" and "slots_from k r xs" and "ring_length r + 1 < rb_n r"
    and "rb_buffer r ! unat (rb_head r) = Some x"
  shows "slots_from k (store_head r) (xs @ [x])"
  using assms head_index [OF assms(1)] store_head_length [OF assms(1,3)]
  by (auto simp: slots_from_def nth_append less_Suc_eq)

lemma take_slot_holds:
  assumes "ring_shape r" and "slots_hold r (x # xs)"
  shows "slots_from 1 (take_slot r) (x # xs)" and "rb_buffer r ! unat (rb_tail r) = Some x"
proof -
  show "slots_from 1 (take_slot r) (x # xs)"
    using assms occupied_not_tail [OF assms(1)] by (auto simp: slots_from_def)
  show "rb_buffer r ! unat (rb_tail r) = Some x"
    using assms(2) cyc_idx_0 [OF ring_shapeD(2) [OF assms(1)]] by (force simp: slots_from_def)
qed

lemma store_tail_holds:
  assumes "ring_shape r" and "slots_from 1 r (x # xs)"
  shows "slots_hold (store_tail r) xs"
proof -
  note sh = ring_shapeD [OF assms(1)]
  have "0 < ring_length r" using assms(2) by (auto simp: slots_from_def)
  then have len: "ring_length r = ring_length (store_tail r) + 1" by (rule store_tail_length [OF assms(1)])
  have "cyc_idx (rb_n r) (unat (ring_next (rb_capacity r) (rb_tail r))) i =
    cyc_idx (rb_n r) (unat (rb_tail r)) (Suc i)" for i
    using ring_next_unat [OF assms(1) sh(2)] cyc_idx_Suc [OF sh(2)] by simp
  with len assms(2) show ?thesis by (fastforce simp: slots_from_def)
qed

lemma try_push_room:
  assumes "ring_shape r" and "slots_hold r xs" and "ring_length r + 1 < rb_n r"
  shows "\<exists>r'. try_push r x = (r', Ok ()) \<and> ring_shape r' \<and> slots_hold r' (xs @ [x]) \<and>
    rb_capacity r' = rb_capacity r"
proof -
  have "try_push r x = (store_head (put_slot r x), Ok ())"
    using assms(3) ring_full_iff [OF assms(1)] by (simp add: try_push_def Let_def)
  moreover have "slots_hold (store_head (put_slot r x)) (xs @ [x])"
    using store_head_holds [of "put_slot r x" 0 xs x] put_slot_holds [OF assms(1,2)] write_shape(1) [OF assms(1)]
      assms(3) by simp
  ultimately show ?thesis
    using write_shape(2) [OF write_shape(1) [OF assms(1)]] by auto
qed

lemma try_push_full:
  assumes "ring_shape r" and "ring_length r + 1 = rb_n r"
  shows "try_push r x = (r, Err x)"
  using ring_full_iff [OF assms(1)] assms(2) by (simp add: try_push_def)

lemma try_pop_Cons:
  assumes "ring_shape r" and "slots_hold r (x # xs)"
  shows "\<exists>r'. try_pop r = (r', Some x) \<and> ring_shape r' \<and> slots_hold r' xs \<and> rb_capacity r' = rb_capacity r"
proof -
  have "ring_length r \<noteq> 0" using assms(2) by (auto simp: slots_from_def)
  then have "try_pop r = (store_tail (take_slot r), Some x)"
    using ring_empty_iff [OF assms(1)] take_slot_holds(2) [OF assms] by (simp add: try_pop_def)
  moreover have "slots_hold (store_tail (take_slot r)) xs"
    using store_tail_holds [OF write_shape(3) [OF assms(1)] take_slot_holds(1) [OF assms]] by simp
  ultimately show ?thesis
    using write_shape(4) [OF write_shape(3) [OF assms(1)]] by auto
qed

lemma try_pop_Nil:
  assumes "ring_shape r" and "slots_hold r []"
  shows "try_pop r = (r, None)"
  using ring_empty_iff [OF assms(1)] assms(2) by (simp add: try_pop_def slots_from_def)

lemma ring_new_inv:
  assumes "unat capacity \<le> 2 ^ 63"
  shows "ring_inv (ring_new capacity :: 'a ring)" and "ring_contents (ring_new capacity :: 'a ring) = []"
    and "max (unat capacity) 2 \<le> rb_n (ring_new capacity :: 'a ring)"
proof -
  let ?m = "max (unat capacity) 2"
  let ?k = "bit_length (?m - 1)"
  have m1: "\<not> ?m \<le> 1" by simp
  have act: "next_power_of_two ?m = 2 ^ ?k" using m1 by (simp add: next_power_of_two_def)
  have "?m \<le> 2 ^ 63" using assms by (intro max.boundedI) simp_all
  then have "?m - 1 < 2 ^ 63" using m1 by linarith
  then have "?k \<le> 63" by (rule bit_length_least)
  then have k: "?k < 64" by simp
  have "?m - 1 < 2 ^ ?k" by (rule bit_length_bound)
  then have le: "?m \<le> 2 ^ ?k" using m1 by linarith
  have k0: "0 < ?k" using le by (cases ?k) simp_all
  have cap: "rb_capacity (ring_new capacity :: 'a ring) = 2 ^ ?k"
    by (simp add: ring_new_def Let_def act)
  have n: "rb_n (ring_new capacity :: 'a ring) = 2 ^ ?k" using unat_pow2 [OF k] by (simp only: cap)
  have shape: "ring_shape (ring_new capacity :: 'a ring)"
    using k k0 n cap by (auto simp: ring_shape_def ring_new_def Let_def act)
  have "slots_hold (ring_new capacity :: 'a ring) []"
    using n by (simp add: slots_from_def ring_length_def ring_new_def Let_def cyc_dist_def)
  with shape show "ring_inv (ring_new capacity :: 'a ring)" "ring_contents (ring_new capacity :: 'a ring) = []"
    by (auto simp: ring_inv_def dest: slots_hold_contents)
  show "?m \<le> rb_n (ring_new capacity :: 'a ring)" using le n by simp
qed

lemma pending_len_contents:
  assumes "ring_inv r"
  shows "unat (pending_len r) = length (ring_contents r)"
proof -
  from assms have shape: "ring_shape r" by (simp add: ring_inv_def)
  then obtain k where k: "k < 64" "rb_capacity r = 2 ^ k" by (auto simp: ring_shape_def)
  have n: "rb_n r = 2 ^ k" using unat_pow2 [OF k(1)] by (simp only: k(2))
  have "pending_len r = take_bit k (rb_head r - rb_tail r)"
    by (simp add: pending_len_def k(2) take_bit_eq_mask mask_eq_exp_minus_1)
  then have u: "unat (pending_len r) = unat (rb_head r - rb_tail r) mod 2 ^ k"
    by (simp only: unsigned_take_bit_eq) (simp only: take_bit_eq_mod)
  have dvd: "(2 ^ k :: int) dvd 2 ^ 64" using k(1) by (intro le_imp_power_dvd) simp
  have "int (unat (rb_head r - rb_tail r) mod 2 ^ k) = (uint (rb_head r) - uint (rb_tail r)) mod 2 ^ k"
    using dvd by (simp add: zmod_int uint_word_ariths mod_mod_cancel)
  also have "\<dots> = (uint (rb_head r) - uint (rb_tail r) + 2 ^ k) mod 2 ^ k" by simp
  also have "\<dots> = int ((unat (rb_head r) + 2 ^ k - unat (rb_tail r)) mod 2 ^ k)"
    using ring_shapeD(2) [OF shape] n by (simp add: zmod_int of_nat_diff algebra_simps)
  finally show ?thesis using u n by (simp add: ring_contents_def ring_length_def cyc_dist_def)
qed

subsection \<open>The interface of a bounded queue\<close>

text \<open>One side's calls: a push hands the item back when it is refused, a pop may find nothing.\<close>

datatype 'a queue_op = QPush 'a | QPop

fun queue_run ::
  "('s \<Rightarrow> 'a \<Rightarrow> 's \<times> ('a + unit)) \<Rightarrow> ('s \<Rightarrow> 's \<times> 'a option) \<Rightarrow> 's \<Rightarrow> 'a queue_op list \<Rightarrow>
     's \<times> 'a list \<times> 'a list" where
  "queue_run push pop q [] = (q, [], [])"
| "queue_run push pop q (QPush x # ops) =
     (case push q x of (q', res) \<Rightarrow>
      case queue_run push pop q' ops of (q'', acc, rec) \<Rightarrow>
        (q'', (if is_ok res then x # acc else acc), rec))"
| "queue_run push pop q (QPop # ops) =
     (case pop q of (q', res) \<Rightarrow>
      case queue_run push pop q' ops of (q'', acc, rec) \<Rightarrow>
        (q'', acc, (case res of None \<Rightarrow> rec | Some x \<Rightarrow> x # rec)))"

text \<open>The bounded drain both workers run: pop at most \<open>n\<close> items, stop at the first empty answer.\<close>

fun drain_queue :: "('s \<Rightarrow> 's \<times> 'a option) \<Rightarrow> nat \<Rightarrow> 's \<Rightarrow> 's \<times> 'a list" where
  "drain_queue pop 0 q = (q, [])"
| "drain_queue pop (Suc n) q =
     (case pop q of
        (q', None) \<Rightarrow> (q', [])
      | (q', Some x) \<Rightarrow> (case drain_queue pop n q' of (q'', xs) \<Rightarrow> (q'', x # xs)))"

locale bounded_queue =
  fixes inv :: "'s \<Rightarrow> bool"
    and contents :: "'s \<Rightarrow> 'a list"
    and room :: "'s \<Rightarrow> nat"
    and push :: "'s \<Rightarrow> 'a \<Rightarrow> 's \<times> ('a + unit)"
    and pop :: "'s \<Rightarrow> 's \<times> 'a option"
  assumes push_law: "inv q \<Longrightarrow> length (contents q) < room q \<Longrightarrow>
      \<exists>q'. push q x = (q', Ok ()) \<and> inv q' \<and> contents q' = contents q @ [x] \<and> room q' = room q"
    and push_refused: "inv q \<Longrightarrow> room q \<le> length (contents q) \<Longrightarrow> push q x = (q, Err x)"
    and pop_law: "inv q \<Longrightarrow> contents q = x # xs \<Longrightarrow>
      \<exists>q'. pop q = (q', Some x) \<and> inv q' \<and> contents q' = xs \<and> room q' = room q"
    and pop_empty: "inv q \<Longrightarrow> contents q = [] \<Longrightarrow> pop q = (q, None)"
begin

lemma push_cases:
  assumes "inv q"
  obtains (ok) q' where "push q x = (q', Ok ())" "inv q'" "contents q' = contents q @ [x]" "room q' = room q"
    "length (contents q) < room q"
  | (full) "push q x = (q, Err x)" "room q \<le> length (contents q)"
  using push_law [OF assms] push_refused [OF assms] by (metis not_le)

lemma pop_cases:
  assumes "inv q"
  obtains (item) x xs q' where "contents q = x # xs" "pop q = (q', Some x)" "inv q'" "contents q' = xs"
    "room q' = room q"
  | (none) "contents q = []" "pop q = (q, None)"
  using pop_law [OF assms] pop_empty [OF assms] by (metis list.exhaust)

lemma run_fifo:
  "inv q \<Longrightarrow> queue_run push pop q ops = (q', acc, rec) \<Longrightarrow>
    contents q @ acc = rec @ contents q' \<and> inv q' \<and> room q' = room q"
proof (induction ops arbitrary: q q' acc rec)
  case Nil
  then show ?case by simp
next
  case (Cons op ops)
  show ?case
  proof (cases op)
    case (QPush x)
    from Cons.prems(1) show ?thesis
      by (rule push_cases [of q x]) (use Cons QPush in \<open>fastforce split: prod.splits\<close>)+
  next
    case QPop
    from Cons.prems(1) show ?thesis
      by (rule pop_cases) (use Cons QPop in \<open>fastforce split: prod.splits\<close>)+
  qed
qed

lemma drain_takes:
  "inv q \<Longrightarrow> \<exists>q'. drain_queue pop n q = (q', take n (contents q)) \<and> inv q' \<and>
    contents q' = drop n (contents q) \<and> room q' = room q"
proof (induction n arbitrary: q)
  case 0
  then show ?case by simp
next
  case (Suc n)
  from Suc.prems show ?case
  proof (rule pop_cases)
    fix x xs q'
    assume "contents q = x # xs" "pop q = (q', Some x)" "inv q'" "contents q' = xs" "room q' = room q"
    then show ?thesis using Suc.IH [of q'] by auto
  next
    assume "contents q = []" "pop q = (q, None)"
    then show ?thesis using Suc.prems by simp
  qed
qed

end

lemma ring_push_law:
  assumes "ring_inv q" and "length (ring_contents q) < rb_n q - 1"
  shows "\<exists>q'. try_push q x = (q', Ok ()) \<and> ring_inv q' \<and> ring_contents q' = ring_contents q @ [x] \<and>
    rb_n q' - 1 = rb_n q - 1"
proof -
  from assms(1) have sh: "ring_shape q" and hold: "slots_hold q (ring_contents q)"
    by (simp_all add: ring_inv_contents)
  have "ring_length q + 1 < rb_n q" using assms(2) hold by (simp add: slots_from_def)
  with try_push_room [OF sh hold] obtain q' where q': "try_push q x = (q', Ok ())" "ring_shape q'"
    "slots_hold q' (ring_contents q @ [x])" "rb_capacity q' = rb_capacity q" by blast
  then show ?thesis using slots_hold_contents [OF q'(3)] by (auto simp: ring_inv_def)
qed

lemma ring_pop_law:
  assumes "ring_inv q" and "ring_contents q = x # xs"
  shows "\<exists>q'. try_pop q = (q', Some x) \<and> ring_inv q' \<and> ring_contents q' = xs \<and> rb_n q' - 1 = rb_n q - 1"
proof -
  from assms have sh: "ring_shape q" and hold: "slots_hold q (x # xs)"
    by (simp_all add: ring_inv_contents)
  from try_pop_Cons [OF sh hold] obtain q' where q': "try_pop q = (q', Some x)" "ring_shape q'"
    "slots_hold q' xs" "rb_capacity q' = rb_capacity q" by blast
  then show ?thesis using slots_hold_contents [OF q'(3)] by (auto simp: ring_inv_def)
qed

interpretation rq: bounded_queue ring_inv ring_contents "\<lambda>r. rb_n r - 1" try_push try_pop
proof (unfold_locales, goal_cases)
  case (1 q x)
  then show ?case by (rule ring_push_law)
next
  case (2 q x)
  then have "ring_shape q" "length (ring_contents q) = ring_length q"
    by (simp_all add: ring_inv_contents slots_from_def)
  with 2 show ?case
    using try_push_full [of q x] ring_length_less [of q] by simp
next
  case (3 q x xs)
  then show ?case by (rule ring_pop_law)
next
  case (4 q)
  then show ?case using try_pop_Nil [of q] by (simp add: ring_inv_contents)
qed

text \<open>The utilisation's numerator is the number of waiting items.\<close>

lemma ring_used_contents:
  assumes "ring_inv r"
  shows "unat (fst (ring_used r)) = length (ring_contents r)"
proof -
  from assms have sh: "ring_shape r" by (simp add: ring_inv_def)
  note s = ring_shapeD [OF sh]
  have "unat (rb_capacity r - (rb_tail r - rb_head r)) = rb_n r - (unat (rb_tail r) - unat (rb_head r))"
    if "\<not> rb_tail r \<le> rb_head r"
    using that s by (subst unat_sub; subst unat_sub | simp add: word_le_nat_alt unat_sub)+
  then show ?thesis
    using cyc_dist_cases [OF s(1,2)] s
    by (auto simp: ring_used_def ring_contents_def ring_length_def word_le_nat_alt unat_sub)
qed

text \<open>
  Run sequentially from a fresh ring of any capacity up to 2^63, the ring is a bounded FIFO queue: the
  items accepted so far are the items handed out followed by those waiting, at most capacity minus one wait,
  \<open>pending_len\<close> and the utilisation count them, and popping \<open>pending_len\<close> times returns all of them in
  order and leaves the ring empty.
\<close>

theorem ring_refines_fifo:
  fixes r :: "'a ring"
  assumes "unat capacity \<le> 2 ^ 63"
    and "queue_run try_push try_pop (ring_new capacity) ops = (r, accepted, received)"
  shows "accepted = received @ ring_contents r \<and> length (ring_contents r) \<le> rb_n r - 1 \<and>
    max (unat capacity) 2 \<le> rb_n r \<and>
    unat (pending_len r) = length (ring_contents r) \<and> unat (fst (ring_used r)) = length (ring_contents r) \<and>
    (\<exists>r'. drain_queue try_pop (unat (pending_len r)) r = (r', ring_contents r) \<and> ring_contents r' = [])"
proof -
  note new = ring_new_inv [OF assms(1), where 'a = 'a]
  from rq.run_fifo [OF new(1) assms(2)] new(2)
  have run: "accepted = received @ ring_contents r" "ring_inv r" and cap: "rb_n r - 1 = rb_n (ring_new capacity :: 'a ring) - 1"
    by simp_all
  then have sh: "ring_shape r" and len: "length (ring_contents r) = ring_length r"
    by (simp_all add: ring_inv_contents slots_from_def)
  have "max (unat capacity) 2 \<le> rb_n r" using new(3) cap ring_shape_pos [OF sh] by linarith
  moreover have "length (ring_contents r) \<le> rb_n r - 1" using ring_length_less [OF sh] len by simp
  ultimately show ?thesis
    using run pending_len_contents [OF run(2)] ring_used_contents [OF run(2)]
      rq.drain_takes [OF run(2), of "unat (pending_len r)"] by auto
qed

text \<open>A ring of two slots takes one item, refuses the next, and after a pop takes another.\<close>

theorem ring_refines_fifo_witness:
  "case queue_run try_push try_pop (ring_new 2) [QPush (1::nat), QPush 2, QPop, QPush 3] of
     (r, accepted, received) \<Rightarrow>
       accepted = [1, 3] \<and> received = [1] \<and> ring_contents r = [3] \<and> accepted = received @ ring_contents r"
proof -
  let ?run = "queue_run try_push try_pop (ring_new 2) [QPush (1::nat), QPush 2, QPop, QPush 3]"
  obtain r accepted received where run: "?run = (r, accepted, received)" by (cases ?run)
  have "snd ?run = ([1, 3], [1])" by code_simp
  with run have "accepted = [1, 3]" "received = [1]" by simp_all
  moreover have "unat (2 :: usize) \<le> 2 ^ 63" by simp
  ultimately show ?thesis using ring_refines_fifo [OF _ run] run by simp
qed

end
