(* ===== verification/Ring_Interleaving.thy ===== *)
theory Ring_Interleaving
  imports Ring_Buffer
begin

text \<open>
  The ring buffer under concurrency: the producer's \<open>try_push\<close> and the consumer's \<open>try_pop\<close>
  (\<open>dataflow/ring_buffer.rs\<close>) cut into their atomic loads, slot accesses and stores, interleaved freely.
  The logs \<open>sp_sent\<close> and \<open>sp_got\<close> record the calls that have completed. The invariant gives that the two
  sides never hold the same slot, that the unchecked indices are in range, that a non-empty pop always
  finds an item, and that items arrive once and in order.
\<close>

subsection \<open>The two threads\<close>

text \<open>
  Between its steps a side remembers the counter of its own that it loaded: the producer the head, the
  consumer the tail; and what its comparison with the other counter told it.
\<close>

datatype 'a producer_pc =
    P_Idle
  | P_Loaded 'a usize
  | P_Room 'a usize
  | P_Stored 'a usize

datatype 'a consumer_pc =
    C_Idle
  | C_Loaded usize
  | C_Item usize
  | C_Taken usize "'a option"

record 'a spsc =
  sp_ring :: "'a ring"
  sp_prod :: "'a producer_pc"
  sp_cons :: "'a consumer_pc"
  sp_sent :: "'a list"
  sp_got :: "'a option list"

definition spsc_start :: "usize \<Rightarrow> 'a spsc" where
  "spsc_start capacity =
     \<lparr>sp_ring = ring_new capacity, sp_prod = P_Idle, sp_cons = C_Idle, sp_sent = [], sp_got = []\<rparr>"

inductive push_step :: "'a spsc \<Rightarrow> 'a spsc \<Rightarrow> bool" where
  load_head: "sp_prod s = P_Idle \<Longrightarrow> push_step s (s\<lparr>sp_prod := P_Loaded x (rb_head (sp_ring s))\<rparr>)"
| load_tail_full: "sp_prod s = P_Loaded x h \<Longrightarrow>
    ring_next (rb_capacity (sp_ring s)) h = rb_tail (sp_ring s) \<Longrightarrow> push_step s (s\<lparr>sp_prod := P_Idle\<rparr>)"
| load_tail_room: "sp_prod s = P_Loaded x h \<Longrightarrow>
    ring_next (rb_capacity (sp_ring s)) h \<noteq> rb_tail (sp_ring s) \<Longrightarrow> push_step s (s\<lparr>sp_prod := P_Room x h\<rparr>)"
| write_slot: "sp_prod s = P_Room x h \<Longrightarrow>
    push_step s (s\<lparr>sp_prod := P_Stored x h,
      sp_ring := (sp_ring s)\<lparr>rb_buffer := (rb_buffer (sp_ring s))[unat h := Some x]\<rparr>\<rparr>)"
| publish_head: "sp_prod s = P_Stored x h \<Longrightarrow>
    push_step s (s\<lparr>sp_prod := P_Idle, sp_sent := sp_sent s @ [x],
      sp_ring := (sp_ring s)\<lparr>rb_head := ring_next (rb_capacity (sp_ring s)) h\<rparr>\<rparr>)"

inductive pop_step :: "'a spsc \<Rightarrow> 'a spsc \<Rightarrow> bool" where
  load_tail: "sp_cons s = C_Idle \<Longrightarrow> pop_step s (s\<lparr>sp_cons := C_Loaded (rb_tail (sp_ring s))\<rparr>)"
| load_head_empty: "sp_cons s = C_Loaded t \<Longrightarrow> t = rb_head (sp_ring s) \<Longrightarrow>
    pop_step s (s\<lparr>sp_cons := C_Idle\<rparr>)"
| load_head_item: "sp_cons s = C_Loaded t \<Longrightarrow> t \<noteq> rb_head (sp_ring s) \<Longrightarrow>
    pop_step s (s\<lparr>sp_cons := C_Item t\<rparr>)"
| empty_slot: "sp_cons s = C_Item t \<Longrightarrow>
    pop_step s (s\<lparr>sp_cons := C_Taken t (rb_buffer (sp_ring s) ! unat t),
      sp_ring := (sp_ring s)\<lparr>rb_buffer := (rb_buffer (sp_ring s))[unat t := None]\<rparr>\<rparr>)"
| publish_tail: "sp_cons s = C_Taken t item \<Longrightarrow>
    pop_step s (s\<lparr>sp_cons := C_Idle, sp_got := sp_got s @ [item],
      sp_ring := (sp_ring s)\<lparr>rb_tail := ring_next (rb_capacity (sp_ring s)) t\<rparr>\<rparr>)"

inductive spsc_reachable :: "usize \<Rightarrow> 'a spsc \<Rightarrow> bool" for capacity where
  start: "spsc_reachable capacity (spsc_start capacity)"
| produce: "spsc_reachable capacity s \<Longrightarrow> push_step s s' \<Longrightarrow> spsc_reachable capacity s'"
| consume: "spsc_reachable capacity s \<Longrightarrow> pop_step s s' \<Longrightarrow> spsc_reachable capacity s'"

subsection \<open>The invariant\<close>

fun prod_ok :: "'a ring \<Rightarrow> 'a producer_pc \<Rightarrow> bool" where
  "prod_ok r P_Idle \<longleftrightarrow> True"
| "prod_ok r (P_Loaded x h) \<longleftrightarrow> h = rb_head r"
| "prod_ok r (P_Room x h) \<longleftrightarrow> h = rb_head r \<and> ring_length r + 1 < rb_n r"
| "prod_ok r (P_Stored x h) \<longleftrightarrow>
     h = rb_head r \<and> ring_length r + 1 < rb_n r \<and> rb_buffer r ! unat h = Some x"

fun cons_ok :: "'a ring \<Rightarrow> 'a list \<Rightarrow> 'a consumer_pc \<Rightarrow> bool" where
  "cons_ok r xs C_Idle \<longleftrightarrow> slots_hold r xs"
| "cons_ok r xs (C_Loaded t) \<longleftrightarrow> slots_hold r xs \<and> t = rb_tail r"
| "cons_ok r xs (C_Item t) \<longleftrightarrow> slots_hold r xs \<and> t = rb_tail r \<and> xs \<noteq> []"
| "cons_ok r xs (C_Taken t item) \<longleftrightarrow>
     slots_from 1 r xs \<and> t = rb_tail r \<and> xs \<noteq> [] \<and> item = Some (hd xs)"

definition spsc_inv :: "'a spsc \<Rightarrow> 'a list \<Rightarrow> bool" where
  "spsc_inv s xs \<longleftrightarrow> ring_shape (sp_ring s) \<and> prod_ok (sp_ring s) (sp_prod s) \<and>
     cons_ok (sp_ring s) xs (sp_cons s) \<and> map Some (sp_sent s) = sp_got s @ map Some xs"

lemma cons_ok_length: "cons_ok r xs c \<Longrightarrow> length xs = ring_length r"
  by (cases c) (simp_all add: slots_from_def)

lemma cons_ok_put_slot: "ring_shape r \<Longrightarrow> cons_ok r xs c \<Longrightarrow> cons_ok (put_slot r x) xs c"
  by (cases c) (simp_all add: put_slot_holds)

lemma cons_ok_store_head:
  assumes "ring_shape r" and "ring_length r + 1 < rb_n r" and "rb_buffer r ! unat (rb_head r) = Some x"
    and "cons_ok r xs c"
  shows "cons_ok (store_head r) (xs @ [x]) c"
  using assms store_head_holds [OF assms(1) _ assms(2,3)] by (cases c) auto

text \<open>A consumer only makes room, and the slot it empties is not the producer's.\<close>

lemma prod_ok_take_slot:
  assumes "ring_shape r" and "0 < ring_length r" and "prod_ok r p"
  shows "prod_ok (take_slot r) p"
  using assms occupied_not_head [OF assms(1,2)] cyc_idx_0 [OF ring_shapeD(2) [OF assms(1)]]
  by (cases p) auto

lemma prod_ok_store_tail:
  assumes "ring_shape r" and "0 < ring_length r" and "prod_ok r p"
  shows "prod_ok (store_tail r) p"
  using assms store_tail_length [OF assms(1,2)] by (cases p) auto

lemma push_step_inv:
  assumes "push_step s s'" and "spsc_inv s xs"
  shows "\<exists>xs'. spsc_inv s' xs'"
  using assms
proof cases
  case (load_tail_room x h)
  with assms(2) have "ring_length (sp_ring s) + 1 < rb_n (sp_ring s)"
    using ring_full_iff [of "sp_ring s"] ring_length_less [of "sp_ring s"] by (auto simp: spsc_inv_def)
  with load_tail_room assms(2) show ?thesis by (auto simp: spsc_inv_def)
next
  case (write_slot x h)
  then have h: "h = rb_head (sp_ring s)" and room: "ring_length (sp_ring s) + 1 < rb_n (sp_ring s)"
    and sh: "ring_shape (sp_ring s)" and c: "cons_ok (sp_ring s) xs (sp_cons s)"
    using assms(2) by (simp_all add: spsc_inv_def)
  then have "prod_ok (put_slot (sp_ring s) x) (P_Stored x h)"
    using put_slot_holds(2) [OF sh, of 1] ring_shapeD [OF sh] by simp
  with write_slot h sh c assms(2) have "spsc_inv s' xs"
    by (simp add: spsc_inv_def write_shape cons_ok_put_slot)
  then show ?thesis ..
next
  case (publish_head x h)
  then have "spsc_inv s' (xs @ [x])"
    using assms(2) cons_ok_store_head by (auto simp: spsc_inv_def write_shape)
  then show ?thesis ..
qed (auto simp: spsc_inv_def)

lemma pop_step_inv:
  assumes "pop_step s s'" and "spsc_inv s xs"
  shows "\<exists>xs'. spsc_inv s' xs'"
  using assms
proof cases
  case (load_head_item t)
  with assms(2) have "xs \<noteq> []"
    using ring_empty_iff [of "sp_ring s"] by (auto simp: spsc_inv_def slots_from_def)
  with load_head_item assms(2) show ?thesis by (auto simp: spsc_inv_def)
next
  case (empty_slot t)
  then obtain y ys where y: "xs = y # ys" and t: "t = rb_tail (sp_ring s)" and sh: "ring_shape (sp_ring s)"
    and hold: "slots_hold (sp_ring s) (y # ys)" and p: "prod_ok (sp_ring s) (sp_prod s)"
    using assms(2) by (auto simp: spsc_inv_def neq_Nil_conv)
  have "0 < ring_length (sp_ring s)" using hold by (auto simp: slots_from_def)
  with empty_slot y t sh p take_slot_holds [OF sh hold] assms(2) have "spsc_inv s' xs"
    by (simp add: spsc_inv_def write_shape prod_ok_take_slot)
  then show ?thesis ..
next
  case (publish_tail t item)
  then obtain y ys where y: "xs = y # ys" and t: "t = rb_tail (sp_ring s)" and sh: "ring_shape (sp_ring s)"
    and hold: "slots_from 1 (sp_ring s) (y # ys)" and p: "prod_ok (sp_ring s) (sp_prod s)"
    and item: "item = Some y"
    using assms(2) by (auto simp: spsc_inv_def neq_Nil_conv)
  have "0 < ring_length (sp_ring s)" using hold by (auto simp: slots_from_def)
  with publish_tail y t sh p item store_tail_holds [OF sh hold] assms(2) have "spsc_inv s' ys"
    by (simp add: spsc_inv_def write_shape prod_ok_store_tail)
  then show ?thesis ..
qed (auto simp: spsc_inv_def)

lemma spsc_start_inv: "unat capacity \<le> 2 ^ 63 \<Longrightarrow> spsc_inv (spsc_start capacity :: 'a spsc) []"
  using ring_new_inv(1,2) [where 'a = 'a and capacity = capacity]
  by (simp add: spsc_inv_def spsc_start_def ring_inv_contents)

lemma spsc_reachable_inv: "spsc_reachable capacity s \<Longrightarrow> unat capacity \<le> 2 ^ 63 \<Longrightarrow> \<exists>xs. spsc_inv s xs"
proof (induction rule: spsc_reachable.induct)
  case start
  then show ?case using spsc_start_inv by blast
next
  case (produce s s')
  then show ?case using push_step_inv by blast
next
  case (consume s s')
  then show ?case using pop_step_inv by blast
qed

subsection \<open>What the two threads may rely on\<close>

text \<open>The slot a side is entitled to touch, from its comparison of the counters to its store.\<close>

fun producer_slot :: "'a producer_pc \<Rightarrow> usize option" where
  "producer_slot (P_Room x h) = Some h"
| "producer_slot (P_Stored x h) = Some h"
| "producer_slot _ = None"

fun consumer_slot :: "'a consumer_pc \<Rightarrow> usize option" where
  "consumer_slot (C_Item t) = Some t"
| "consumer_slot (C_Taken t item) = Some t"
| "consumer_slot _ = None"

lemma producer_slotD:
  "prod_ok r p \<Longrightarrow> producer_slot p = Some h \<Longrightarrow> h = rb_head r"
  by (cases p) auto

lemma consumer_slotD:
  "cons_ok r xs c \<Longrightarrow> consumer_slot c = Some t \<Longrightarrow> t = rb_tail r \<and> xs \<noteq> []"
  by (cases c) auto

lemma spsc_inv_slots:
  assumes "spsc_inv s xs"
  shows "producer_slot (sp_prod s) = Some h \<Longrightarrow> unat h < length (rb_buffer (sp_ring s))"
    and "consumer_slot (sp_cons s) = Some t \<Longrightarrow> unat t < length (rb_buffer (sp_ring s))"
    and "producer_slot (sp_prod s) = Some h \<Longrightarrow> consumer_slot (sp_cons s) \<noteq> Some h"
proof -
  let ?r = "sp_ring s"
  from assms have sh: "ring_shape ?r" and p: "prod_ok ?r (sp_prod s)" and c: "cons_ok ?r xs (sp_cons s)"
    by (simp_all add: spsc_inv_def)
  show "producer_slot (sp_prod s) = Some h \<Longrightarrow> unat h < length (rb_buffer ?r)"
    using producer_slotD [OF p] ring_shapeD [OF sh] by auto
  show "consumer_slot (sp_cons s) = Some t \<Longrightarrow> unat t < length (rb_buffer ?r)"
    using consumer_slotD [OF c] ring_shapeD [OF sh] by auto
  show "producer_slot (sp_prod s) = Some h \<Longrightarrow> consumer_slot (sp_cons s) \<noteq> Some h"
    using producer_slotD [OF p] consumer_slotD [OF c] cons_ok_length [OF c] ring_empty_iff [OF sh] by auto
qed

text \<open>
  C28. In every interleaving of the producer's and the consumer's atomic steps, from a ring made with any
  capacity up to 2^63: the completed pops returned exactly a prefix of the completed pushes, in order and
  each an item (never the empty slot), fewer than capacity items are waiting, the indices the two sides use
  without a bounds check are in range, and the two sides never hold the same slot.
\<close>

theorem spsc_fifo_and_race_free:
  assumes "spsc_reachable capacity s" and "unat capacity \<le> 2 ^ 63"
  shows "(\<exists>waiting. map Some (sp_sent s) = sp_got s @ map Some waiting \<and>
      length waiting < rb_n (sp_ring s)) \<and>
    (\<forall>h. producer_slot (sp_prod s) = Some h \<longrightarrow>
      unat h < length (rb_buffer (sp_ring s)) \<and> consumer_slot (sp_cons s) \<noteq> Some h) \<and>
    (\<forall>t. consumer_slot (sp_cons s) = Some t \<longrightarrow> unat t < length (rb_buffer (sp_ring s)))"
proof -
  from spsc_reachable_inv [OF assms] obtain xs where inv: "spsc_inv s xs" ..
  then have "\<exists>waiting. map Some (sp_sent s) = sp_got s @ map Some waiting \<and>
      length waiting < rb_n (sp_ring s)"
    using cons_ok_length ring_length_less by (fastforce simp: spsc_inv_def)
  then show ?thesis using spsc_inv_slots [OF inv] by blast
qed

text \<open>A producer and a consumer in the middle of their calls on a ring of four slots.\<close>

definition spsc_state :: "nat option list \<Rightarrow> usize \<Rightarrow> nat producer_pc \<Rightarrow> nat consumer_pc \<Rightarrow> nat list \<Rightarrow> nat spsc" where
  "spsc_state b h p c sent =
     \<lparr>sp_ring = \<lparr>rb_buffer = b, rb_head = h, rb_tail = 0, rb_capacity = 4\<rparr>,
      sp_prod = p, sp_cons = c, sp_sent = sent, sp_got = []\<rparr>"

definition overlapping_calls :: "nat spsc" where
  "overlapping_calls = spsc_state [Some 7, None, None, None] 1 (P_Room 8 1) (C_Item 0) [7]"

lemma overlapping_calls_reachable: "spsc_reachable 4 overlapping_calls"
proof -
  let ?e = "[None, None, None, None]" and ?f = "[Some 7, None, None, None]"
  have 0: "spsc_reachable 4 (spsc_state ?e 0 P_Idle C_Idle [])"
  proof -
    have "spsc_start 4 = spsc_state ?e 0 P_Idle C_Idle []" by code_simp
    then show ?thesis using spsc_reachable.start [where 'a = nat, of 4] by simp
  qed
  have 1: "spsc_reachable 4 (spsc_state ?e 0 (P_Loaded 7 0) C_Idle [])"
    using produce [OF 0 load_head [where x = 7]] by (simp add: spsc_state_def)
  have 2: "spsc_reachable 4 (spsc_state ?e 0 (P_Room 7 0) C_Idle [])"
    using produce [OF 1 load_tail_room [where x = 7 and h = 0]] by (simp add: spsc_state_def ring_next_def)
  have 3: "spsc_reachable 4 (spsc_state ?f 0 (P_Stored 7 0) C_Idle [])"
    using produce [OF 2 write_slot [where x = 7 and h = 0]] by (simp add: spsc_state_def)
  have 4: "spsc_reachable 4 (spsc_state ?f 1 P_Idle C_Idle [7])"
    using produce [OF 3 publish_head [where x = 7 and h = 0]] by (simp add: spsc_state_def ring_next_def)
  have 5: "spsc_reachable 4 (spsc_state ?f 1 P_Idle (C_Loaded 0) [7])"
    using consume [OF 4 load_tail] by (simp add: spsc_state_def)
  have 6: "spsc_reachable 4 (spsc_state ?f 1 P_Idle (C_Item 0) [7])"
    using consume [OF 5 load_head_item [where t = 0]] by (simp add: spsc_state_def)
  have 7: "spsc_reachable 4 (spsc_state ?f 1 (P_Loaded 8 1) (C_Item 0) [7])"
    using produce [OF 6 load_head [where x = 8]] by (simp add: spsc_state_def)
  show ?thesis
    unfolding overlapping_calls_def
    using produce [OF 7 load_tail_room [where x = 8 and h = 1]] by (simp add: spsc_state_def ring_next_def)
qed

theorem spsc_fifo_and_race_free_witness:
  "producer_slot (sp_prod overlapping_calls) = Some 1 \<and> consumer_slot (sp_cons overlapping_calls) = Some 0 \<and>
   (\<exists>waiting. map Some (sp_sent overlapping_calls) = sp_got overlapping_calls @ map Some waiting \<and>
      length waiting < rb_n (sp_ring overlapping_calls)) \<and>
   unat (1 :: usize) < length (rb_buffer (sp_ring overlapping_calls))"
proof -
  have p: "producer_slot (sp_prod overlapping_calls) = Some 1"
    and c: "consumer_slot (sp_cons overlapping_calls) = Some 0"
    by (simp_all add: overlapping_calls_def spsc_state_def)
  have "unat (4 :: usize) \<le> 2 ^ 63" by simp
  from spsc_fifo_and_race_free [OF overlapping_calls_reachable this] p c show ?thesis by blast
qed

end
