(* ===== verification/Execution_Queues.thy ===== *)
theory Execution_Queues
  imports Ports Order_Intents Ring_Buffer
begin

text \<open>
  The pair of queues between the engine and the execution worker
  (\<open>market-core/engine/src/execution_queues.rs\<close>), with the market view the worker's last gate reads
  (\<open>market-core/engine/src/aggregation.rs\<close>). Both directions are rings; the two halves of the pair share
  them, so one record holds both halves. Wake-ups carry no data and are left out; the unbounded channel of
  applied stream markers is a list.
\<close>

subsection \<open>Reports, configuration, statistics\<close>

datatype execution_report_origin = PrivateOrUnknown | UnsubmittedIntent

record execution_report =
  rep_event :: execution_event
  rep_origin :: execution_report_origin

record execution_queue_config =
  intent_queue_capacity :: usize
  event_queue_capacity :: usize
  batch_size :: usize

definition default_queue_config :: execution_queue_config where
  "default_queue_config = \<lparr>intent_queue_capacity = 4096, event_queue_capacity = 8192, batch_size = 32\<rparr>"

record queue_stats =
  intents_sent :: u64
  intents_received :: u64
  events_sent :: u64
  events_received :: u64
  intent_queue_full_count :: u64
  event_queue_full_count :: u64
  intent_lifecycle_rejected_count :: u64
  intent_expired_count :: u64
  intent_stale_count :: u64
  intent_max_latency_count :: u64
  intent_order_notional_count :: u64
  intent_order_quantity_count :: u64
  intent_slippage_count :: u64

definition default_queue_stats :: queue_stats where
  "default_queue_stats = \<lparr>
     intents_sent = 0, intents_received = 0, events_sent = 0, events_received = 0,
     intent_queue_full_count = 0, event_queue_full_count = 0, intent_lifecycle_rejected_count = 0,
     intent_expired_count = 0, intent_stale_count = 0, intent_max_latency_count = 0,
     intent_order_notional_count = 0, intent_order_quantity_count = 0, intent_slippage_count = 0\<rparr>"

text \<open>The engine's half keeps its statistics, the worker's half its own.\<close>

record queue_pair =
  q_config :: execution_queue_config
  q_intents :: "order_intent_envelope ring"
  q_reports :: "execution_report ring"
  q_engine_stats :: queue_stats
  q_worker_stats :: queue_stats
  q_applied_streams :: "u64 list"

datatype submit_error =
    LifecycleRejected order_intent_envelope reject_reason
  | QueueFull order_intent_envelope

definition create_execution_queues :: "execution_queue_config \<Rightarrow> queue_pair" where
  "create_execution_queues c = \<lparr>
     q_config = c, q_intents = ring_new (intent_queue_capacity c), q_reports = ring_new (event_queue_capacity c),
     q_engine_stats = default_queue_stats, q_worker_stats = default_queue_stats, q_applied_streams = []\<rparr>"

subsection \<open>The engine's half\<close>

definition pending_report_count :: "queue_pair \<Rightarrow> usize" where
  "pending_report_count s = pending_len (q_reports s)"

definition has_pending_events :: "queue_pair \<Rightarrow> bool" where
  "has_pending_events s \<longleftrightarrow> \<not> ring_is_empty (q_reports s)"

definition pristine_bootstrap_report_limit :: "queue_pair \<Rightarrow> usize" where
  "pristine_bootstrap_report_limit s =
     max (max (event_queue_capacity (q_config s)) (batch_size (q_config s))) 2"

definition has_sent_intents :: "queue_pair \<Rightarrow> bool" where
  "has_sent_intents s \<longleftrightarrow> intents_sent (q_engine_stats s) \<noteq> 0"

definition send_envelope :: "queue_pair \<Rightarrow> order_intent_envelope \<Rightarrow> queue_pair \<times> (order_intent_envelope + unit)" where
  "send_envelope s e =
     (case try_push (q_intents s) e of
        (r, Inr _) \<Rightarrow>
          (s\<lparr>q_intents := r,
             q_engine_stats := (q_engine_stats s)\<lparr>intents_sent := intents_sent (q_engine_stats s) + 1\<rparr>\<rparr>, Ok ())
      | (r, Inl e') \<Rightarrow>
          (s\<lparr>q_intents := r,
             q_engine_stats := (q_engine_stats s)\<lparr>intent_queue_full_count :=
               intent_queue_full_count (q_engine_stats s) + 1\<rparr>\<rparr>, Err e'))"

definition send_intent ::
  "queue_pair \<Rightarrow> account_id \<Rightarrow> order_intent \<Rightarrow> timestamp \<Rightarrow> u64 \<Rightarrow> queue_pair \<times> (order_intent + unit)" where
  "send_intent s acc i now sequence =
     (case send_envelope s (with_account_id (fst (envelope_new i (lifecycle_new now (- 1)) sequence)) acc) of
        (s', Inr _) \<Rightarrow> (s', Ok ())
      | (s', Inl e) \<Rightarrow> (s', Err (env_intent e)))"

text \<open>Every reason a gate refuses an intent falls in exactly one class of the statistics.\<close>

fun count_rejection :: "reject_reason \<Rightarrow> queue_stats \<Rightarrow> queue_stats" where
  "count_rejection (Expired a b) st = st\<lparr>intent_expired_count := intent_expired_count st + 1\<rparr>"
| "count_rejection (SourceBookStale a b) st = st\<lparr>intent_stale_count := intent_stale_count st + 1\<rparr>"
| "count_rejection SourceBookUnavailable st = st\<lparr>intent_stale_count := intent_stale_count st + 1\<rparr>"
| "count_rejection (MaxLatencyExceeded a b c d) st =
     st\<lparr>intent_max_latency_count := intent_max_latency_count st + 1\<rparr>"
| "count_rejection (InvalidMaxOrderNotional a) st =
     st\<lparr>intent_order_notional_count := intent_order_notional_count st + 1\<rparr>"
| "count_rejection MissingMaxOrderNotional st =
     st\<lparr>intent_order_notional_count := intent_order_notional_count st + 1\<rparr>"
| "count_rejection (OrderNotionalUnpriceable a) st =
     st\<lparr>intent_order_notional_count := intent_order_notional_count st + 1\<rparr>"
| "count_rejection (MaxOrderNotionalExceeded a b) st =
     st\<lparr>intent_order_notional_count := intent_order_notional_count st + 1\<rparr>"
| "count_rejection (InvalidMaxOrderQuantity a) st =
     st\<lparr>intent_order_quantity_count := intent_order_quantity_count st + 1\<rparr>"
| "count_rejection MissingMaxOrderQuantity st =
     st\<lparr>intent_order_quantity_count := intent_order_quantity_count st + 1\<rparr>"
| "count_rejection (MaxOrderQuantityExceeded a b) st =
     st\<lparr>intent_order_quantity_count := intent_order_quantity_count st + 1\<rparr>"
| "count_rejection _ st = st\<lparr>intent_slippage_count := intent_slippage_count st + 1\<rparr>"

definition validate_for_protection ::
  "dec_ops \<Rightarrow> order_intent_envelope \<Rightarrow> timestamp \<Rightarrow> u64 option \<Rightarrow> execution_price_protection
   \<Rightarrow> reject_reason + unit" where
  "validate_for_protection D e now latest prot =
     (case prot of
        CanonicalBook \<Rightarrow> validate_canonical_book_pre_execution D e now latest
      | VenueQuote \<Rightarrow> validate_pre_execution D e now latest)"

definition send_lifecycle_intent_with_price_protection ::
  "dec_ops \<Rightarrow> queue_pair \<Rightarrow> order_intent_envelope \<Rightarrow> timestamp \<Rightarrow> u64 option \<Rightarrow> execution_price_protection
   \<Rightarrow> queue_pair \<times> (submit_error + unit)" where
  "send_lifecycle_intent_with_price_protection D s e now latest prot =
     (case validate_for_protection D e now latest prot of
        Inr _ \<Rightarrow>
          (case send_envelope s e of
             (s', Inr _) \<Rightarrow> (s', Ok ())
           | (s', Inl e') \<Rightarrow> (s', Err (QueueFull e')))
      | Inl reason \<Rightarrow>
          (let st = q_engine_stats s;
               st1 = st\<lparr>intent_lifecycle_rejected_count := intent_lifecycle_rejected_count st + 1\<rparr>
           in (s\<lparr>q_engine_stats := count_rejection reason st1\<rparr>, Err (LifecycleRejected e reason))))"

definition send_lifecycle_intent ::
  "dec_ops \<Rightarrow> queue_pair \<Rightarrow> order_intent_envelope \<Rightarrow> timestamp \<Rightarrow> queue_pair \<times> (submit_error + unit)" where
  "send_lifecycle_intent D s e now =
     send_lifecycle_intent_with_price_protection D s e now None CanonicalBook"

definition drain_reports :: "queue_pair \<Rightarrow> usize \<Rightarrow> queue_pair \<times> execution_report list" where
  "drain_reports s cap =
     (case drain_queue try_pop (unat cap) (q_reports s) of
        (r, reps) \<Rightarrow>
          (s\<lparr>q_reports := r,
             q_engine_stats := (q_engine_stats s)\<lparr>events_received :=
               events_received (q_engine_stats s) + of_nat (length reps)\<rparr>\<rparr>, reps))"

definition receive_events_into :: "queue_pair \<Rightarrow> execution_event list \<Rightarrow> queue_pair \<times> execution_event list" where
  "receive_events_into s buf =
     (case drain_reports s (batch_size (q_config s)) of (s', reps) \<Rightarrow> (s', buf @ map rep_event reps))"

definition acknowledge_applied_execution_stream :: "queue_pair \<Rightarrow> u64 \<Rightarrow> queue_pair" where
  "acknowledge_applied_execution_stream s stream_id =
     s\<lparr>q_applied_streams := q_applied_streams s @ [stream_id]\<rparr>"

subsection \<open>The worker's half\<close>

definition receive_envelopes :: "queue_pair \<Rightarrow> queue_pair \<times> order_intent_envelope list" where
  "receive_envelopes s =
     (case drain_queue try_pop (unat (batch_size (q_config s))) (q_intents s) of
        (r, es) \<Rightarrow>
          (s\<lparr>q_intents := r,
             q_worker_stats := (q_worker_stats s)\<lparr>intents_received :=
               intents_received (q_worker_stats s) + of_nat (length es)\<rparr>\<rparr>, es))"

definition try_receive_applied_execution_stream :: "queue_pair \<Rightarrow> queue_pair \<times> u64 option" where
  "try_receive_applied_execution_stream s =
     (case q_applied_streams s of
        [] \<Rightarrow> (s, None)
      | x # xs \<Rightarrow> (s\<lparr>q_applied_streams := xs\<rparr>, Some x))"

definition send_report :: "queue_pair \<Rightarrow> execution_report \<Rightarrow> queue_pair \<times> (execution_report + unit)" where
  "send_report s rep =
     (case try_push (q_reports s) rep of
        (r, Inr _) \<Rightarrow>
          (s\<lparr>q_reports := r,
             q_worker_stats := (q_worker_stats s)\<lparr>events_sent := events_sent (q_worker_stats s) + 1\<rparr>\<rparr>, Ok ())
      | (r, Inl rep') \<Rightarrow>
          (s\<lparr>q_reports := r,
             q_worker_stats := (q_worker_stats s)\<lparr>event_queue_full_count :=
               event_queue_full_count (q_worker_stats s) + 1\<rparr>\<rparr>, Err rep'))"

definition send_event :: "queue_pair \<Rightarrow> execution_event \<Rightarrow> queue_pair \<times> (execution_event + unit)" where
  "send_event s ev =
     (case send_report s \<lparr>rep_event = ev, rep_origin = PrivateOrUnknown\<rparr> of
        (s', Inr _) \<Rightarrow> (s', Ok ())
      | (s', Inl rep) \<Rightarrow> (s', Err (rep_event rep)))"

text \<open>
  The reliable send retries until the report is in the ring. Between a refused attempt and the next the
  worker sleeps until the engine has drained something; the list holds the limits of the engine's drains,
  and their results are collected. Running out of drains is \<open>None\<close>.
\<close>

fun send_report_reliable ::
  "queue_pair \<Rightarrow> execution_report \<Rightarrow> usize list \<Rightarrow> (queue_pair \<times> execution_report list) option" where
  "send_report_reliable s rep drains =
     (case send_report s rep of
        (s', Inr _) \<Rightarrow> Some (s', [])
      | (s', Inl rep') \<Rightarrow>
          (case drains of
             [] \<Rightarrow> None
           | d # ds \<Rightarrow>
               (case drain_reports s' d of (s'', got) \<Rightarrow>
                  map_option (\<lambda>(t, more). (t, got @ more)) (send_report_reliable s'' rep' ds))))"

declare send_report_reliable.simps [simp del]

definition reject_unsent_intent_report :: "string \<Rightarrow> string \<Rightarrow> timestamp \<Rightarrow> execution_report" where
  "reject_unsent_intent_report client reason now =
     \<lparr>rep_event = OrderReject (OrderId client) reason now, rep_origin = UnsubmittedIntent\<rparr>"

subsection \<open>The market view and the worker's last gate\<close>

text \<open>
  A book of the market view, with fixed-point levels: the price or quantity times 10^6 as a signed 64-bit
  integer. A level is turned into a decimal price through a double; that conversion is the argument \<open>fx\<close>.
\<close>

type_synonym fixed = "64 word"

record top_n_snapshot =
  ts_symbol :: symbol
  ts_timestamp :: timestamp
  ts_local_receive :: "timestamp option"
  ts_sequence :: u64
  ts_generation :: u64
  ts_bid_prices :: "fixed list"
  ts_bid_quantities :: "fixed list"
  ts_ask_prices :: "fixed list"
  ts_ask_quantities :: "fixed list"

type_synonym orderbooks = "venue_symbol \<rightharpoonup> top_n_snapshot"

definition first_level :: "'a list \<Rightarrow> 'a option" where
  "first_level xs = (case xs of [] \<Rightarrow> None | x # _ \<Rightarrow> Some x)"

definition execution_price_reference_of ::
  "(fixed \<Rightarrow> price) \<Rightarrow> orderbooks \<Rightarrow> order_intent \<Rightarrow> execution_price_reference option" where
  "execution_price_reference_of fx books i = do {
     ven \<leftarrow> in_target_venue i;
     book \<leftarrow> books \<lparr>vs_venue = ven, vs_symbol = in_symbol i\<rparr>;
     bid \<leftarrow> map_option fx (first_level (ts_bid_prices book));
     ask \<leftarrow> map_option fx (first_level (ts_ask_prices book));
     (if bid \<le> 0 \<or> ask \<le> 0 \<or> ask < bid
         \<or> is_none_or (\<lambda>q. sint q \<le> 0) (first_level (ts_bid_quantities book))
         \<or> is_none_or (\<lambda>q. sint q \<le> 0) (first_level (ts_ask_quantities book))
      then None
      else do {
        received \<leftarrow> ts_local_receive book;
        Some \<lparr>ref_venue = ven, ref_symbol = in_symbol i, ref_side = in_side i,
              ref_price = (case in_side i of Buy \<Rightarrow> ask | Sell \<Rightarrow> bid),
              ref_book_sequence = ts_sequence book, ref_received_at = received\<rparr> }) }"

definition source_sequence :: "orderbooks option \<Rightarrow> order_intent_envelope \<Rightarrow> reject_reason + u64 option" where
  "source_sequence market e =
     (case env_source_book_identity e of
        None \<Rightarrow> Ok None
      | Some ident \<Rightarrow>
          (case Option.bind market (\<lambda>books. books ident) of
             None \<Rightarrow> Err SourceBookUnavailable
           | Some book \<Rightarrow> Ok (Some (ts_sequence book))))"

definition validate_execution_market_reference ::
  "dec_ops \<Rightarrow> (fixed \<Rightarrow> price) \<Rightarrow> orderbooks option \<Rightarrow> order_intent_envelope \<Rightarrow> timestamp
   \<Rightarrow> execution_price_protection \<Rightarrow> reject_reason + unit" where
  "validate_execution_market_reference D fx market e now prot =
     (if prot = CanonicalBook \<and> source_book_seq (env_lifecycle e) \<noteq> None \<and> env_source_book_identity e = None
      then Err SourceBookUnavailable
      else and_then (source_sequence market e) (\<lambda>latest.
        and_then (validate_pre_execution D e now latest) (\<lambda>_.
          if prot = VenueQuote then Ok ()
          else and_then (validate_slippage_reference D e now (env_price_reference e)) (\<lambda>_.
            validate_slippage_reference D e now
              (Option.bind market (\<lambda>books. execution_price_reference_of fx books (env_intent e)))))))"

subsection \<open>What a submission does\<close>

definition qp_inv :: "queue_pair \<Rightarrow> bool" where
  "qp_inv s \<longleftrightarrow> ring_inv (q_intents s) \<and> ring_inv (q_reports s)"

abbreviation intents_waiting :: "queue_pair \<Rightarrow> order_intent_envelope list" where
  "intents_waiting s \<equiv> ring_contents (q_intents s)"

abbreviation reports_waiting :: "queue_pair \<Rightarrow> execution_report list" where
  "reports_waiting s \<equiv> ring_contents (q_reports s)"

lemma ring_contents_bound: "ring_inv r \<Longrightarrow> length (ring_contents r) \<le> rb_n r - 1"
  using ring_length_less [of r] by (auto simp: ring_inv_contents slots_from_def)

lemma send_envelope_cases:
  assumes "qp_inv s" and "send_envelope s e = (s', res)"
  obtains (ok) r where "res = Ok ()" "s' = s\<lparr>q_intents := r,
      q_engine_stats := (q_engine_stats s)\<lparr>intents_sent := intents_sent (q_engine_stats s) + 1\<rparr>\<rparr>"
      "ring_inv r" "ring_contents r = intents_waiting s @ [e]" "rb_n r - 1 = rb_n (q_intents s) - 1"
      "length (intents_waiting s) < rb_n (q_intents s) - 1"
  | (full) "res = Err e" "s' = s\<lparr>q_engine_stats := (q_engine_stats s)\<lparr>intent_queue_full_count :=
      intent_queue_full_count (q_engine_stats s) + 1\<rparr>\<rparr>"
      "rb_n (q_intents s) - 1 \<le> length (intents_waiting s)"
proof -
  from assms(1) have "ring_inv (q_intents s)" by (simp add: qp_inv_def)
  then show thesis
    by (rule rq.push_cases [of "q_intents s" e]) (use assms(2) in \<open>auto simp: send_envelope_def intro: ok full\<close>)
qed

lemma send_report_cases:
  assumes "qp_inv s" and "send_report s rep = (s', res)"
  obtains (ok) r where "res = Ok ()" "s' = s\<lparr>q_reports := r,
      q_worker_stats := (q_worker_stats s)\<lparr>events_sent := events_sent (q_worker_stats s) + 1\<rparr>\<rparr>"
      "ring_inv r" "ring_contents r = reports_waiting s @ [rep]"
      "length (reports_waiting s) < rb_n (q_reports s) - 1"
  | (full) "res = Err rep" "s' = s\<lparr>q_worker_stats := (q_worker_stats s)\<lparr>event_queue_full_count :=
      event_queue_full_count (q_worker_stats s) + 1\<rparr>\<rparr>"
      "rb_n (q_reports s) - 1 \<le> length (reports_waiting s)"
proof -
  from assms(1) have "ring_inv (q_reports s)" by (simp add: qp_inv_def)
  then show thesis
    by (rule rq.push_cases [of "q_reports s" rep]) (use assms(2) in \<open>auto simp: send_report_def intro: ok full\<close>)
qed

lemma drain_reports_cases:
  assumes "qp_inv s" and "drain_reports s cap = (s', got)"
  obtains r where "s' = s\<lparr>q_reports := r, q_engine_stats := (q_engine_stats s)\<lparr>events_received :=
      events_received (q_engine_stats s) + of_nat (length got)\<rparr>\<rparr>"
    "got = take (unat cap) (reports_waiting s)" "ring_inv r"
    "ring_contents r = drop (unat cap) (reports_waiting s)" "rb_n r - 1 = rb_n (q_reports s) - 1"
proof -
  from assms(1) have "ring_inv (q_reports s)" by (simp add: qp_inv_def)
  from rq.drain_takes [OF this, of "unat cap"] obtain r where
    r: "drain_queue try_pop (unat cap) (q_reports s) = (r, take (unat cap) (reports_waiting s))" "ring_inv r"
    "ring_contents r = drop (unat cap) (reports_waiting s)" "rb_n r - 1 = rb_n (q_reports s) - 1"
    by blast
  from assms(2) have got: "got = take (unat cap) (reports_waiting s)"
    and s': "s' = s\<lparr>q_reports := r, q_engine_stats := (q_engine_stats s)\<lparr>events_received :=
      events_received (q_engine_stats s) + of_nat (length (take (unat cap) (reports_waiting s)))\<rparr>\<rparr>"
    unfolding drain_reports_def r(1) prod.case prod.inject by blast+
  show thesis by (rule that [of r]) (simp_all only: r got s')
qed

lemma receive_envelopes_cases:
  assumes "qp_inv s" and "receive_envelopes s = (s', got)"
  obtains r n where "s' = s\<lparr>q_intents := r, q_worker_stats := (q_worker_stats s)\<lparr>intents_received :=
      intents_received (q_worker_stats s) + of_nat (length got)\<rparr>\<rparr>"
    "got = take n (intents_waiting s)" "ring_inv r" "ring_contents r = drop n (intents_waiting s)"
proof -
  let ?n = "unat (batch_size (q_config s))"
  from assms(1) have "ring_inv (q_intents s)" by (simp add: qp_inv_def)
  from rq.drain_takes [OF this, of ?n] obtain r where
    r: "drain_queue try_pop ?n (q_intents s) = (r, take ?n (intents_waiting s))" "ring_inv r"
    "ring_contents r = drop ?n (intents_waiting s)"
    by blast
  from assms(2) have got: "got = take ?n (intents_waiting s)"
    and s': "s' = s\<lparr>q_intents := r, q_worker_stats := (q_worker_stats s)\<lparr>intents_received :=
      intents_received (q_worker_stats s) + of_nat (length (take ?n (intents_waiting s)))\<rparr>\<rparr>"
    unfolding receive_envelopes_def r(1) prod.case prod.inject by blast+
  show thesis by (rule that [of r ?n]) (simp_all only: r got s')
qed

subsection \<open>Runs of the pair\<close>

text \<open>
  A run of the two halves, with four logs: the envelopes the engine got into the queue, those the worker
  took out, the reports the worker got into the queue, and those the engine took out.
\<close>

inductive queue_trace ::
  "dec_ops \<Rightarrow> execution_queue_config \<Rightarrow> queue_pair \<Rightarrow> order_intent_envelope list \<Rightarrow> order_intent_envelope list
   \<Rightarrow> execution_report list \<Rightarrow> execution_report list \<Rightarrow> bool" for D c where
  create: "queue_trace D c (create_execution_queues c) [] [] [] []"
| submit: "queue_trace D c s es es' rs rs' \<Longrightarrow>
    send_lifecycle_intent_with_price_protection D s e now latest prot = (s', res) \<Longrightarrow>
    queue_trace D c s' (if is_ok res then es @ [e] else es) es' rs rs'"
| send: "queue_trace D c s es es' rs rs' \<Longrightarrow> send_envelope s e = (s', res) \<Longrightarrow>
    queue_trace D c s' (if is_ok res then es @ [e] else es) es' rs rs'"
| receive: "queue_trace D c s es es' rs rs' \<Longrightarrow> receive_envelopes s = (s', got) \<Longrightarrow>
    queue_trace D c s' es (es' @ got) rs rs'"
| report: "queue_trace D c s es es' rs rs' \<Longrightarrow> send_report s rep = (s', res) \<Longrightarrow>
    queue_trace D c s' es es' (if is_ok res then rs @ [rep] else rs) rs'"
| drain: "queue_trace D c s es es' rs rs' \<Longrightarrow> drain_reports s cap = (s', got) \<Longrightarrow>
    queue_trace D c s' es es' rs (rs' @ got)"
| acknowledge: "queue_trace D c s es es' rs rs' \<Longrightarrow>
    queue_trace D c (acknowledge_applied_execution_stream s stream_id) es es' rs rs'"
| applied: "queue_trace D c s es es' rs rs' \<Longrightarrow> try_receive_applied_execution_stream s = (s', x) \<Longrightarrow>
    queue_trace D c s' es es' rs rs'"

text \<open>Every refused intent is in exactly one class.\<close>

definition classes_add_up :: "queue_stats \<Rightarrow> bool" where
  "classes_add_up st \<longleftrightarrow>
     intent_lifecycle_rejected_count st =
       intent_expired_count st + intent_stale_count st + intent_max_latency_count st +
       intent_order_notional_count st + intent_order_quantity_count st + intent_slippage_count st"

definition queues_account ::
  "queue_pair \<Rightarrow> order_intent_envelope list \<Rightarrow> order_intent_envelope list \<Rightarrow> execution_report list
   \<Rightarrow> execution_report list \<Rightarrow> bool" where
  "queues_account s es es' rs rs' \<longleftrightarrow>
     es = es' @ intents_waiting s \<and> rs = rs' @ reports_waiting s \<and>
     intents_sent (q_engine_stats s) = of_nat (length es) \<and>
     intents_received (q_worker_stats s) = of_nat (length es') \<and>
     events_sent (q_worker_stats s) = of_nat (length rs) \<and>
     events_received (q_engine_stats s) = of_nat (length rs') \<and>
     classes_add_up (q_engine_stats s)"

lemma count_rejection_frame [simp]:
  "intents_sent (count_rejection reason st) = intents_sent st"
  "events_received (count_rejection reason st) = events_received st"
  by (cases reason; simp)+

lemma count_rejection_classes:
  "classes_add_up st \<Longrightarrow>
    classes_add_up (count_rejection reason (st\<lparr>intent_lifecycle_rejected_count := intent_lifecycle_rejected_count st + 1\<rparr>))"
  by (cases reason) (simp_all add: classes_add_up_def algebra_simps)

lemma account_send_envelope:
  assumes "qp_inv s" and "queues_account s es es' rs rs'" and "send_envelope s e = (s', res)"
  shows "qp_inv s' \<and> queues_account s' (if is_ok res then es @ [e] else es) es' rs rs'"
  using assms(1,3)
proof (cases rule: send_envelope_cases)
  case (ok r)
  then show ?thesis using assms(1,2) by (simp add: qp_inv_def queues_account_def classes_add_up_def)
next
  case full
  then show ?thesis using assms(1,2) by (simp add: qp_inv_def queues_account_def classes_add_up_def)
qed

lemma account_submit:
  assumes "qp_inv s" and "queues_account s es es' rs rs'"
    and "send_lifecycle_intent_with_price_protection D s e now latest prot = (s', res)"
  shows "qp_inv s' \<and> queues_account s' (if is_ok res then es @ [e] else es) es' rs rs'"
proof (cases "validate_for_protection D e now latest prot")
  case (Inl reason)
  with assms show ?thesis
    by (auto simp: send_lifecycle_intent_with_price_protection_def Let_def qp_inv_def queues_account_def
        intro: count_rejection_classes)
next
  case (Inr u)
  obtain s1 r1 where sent: "send_envelope s e = (s1, r1)" by fastforce
  with Inr assms(3) have "s' = s1" "is_ok res = is_ok r1"
    by (auto simp: send_lifecycle_intent_with_price_protection_def split: sum.splits)
  then show ?thesis using account_send_envelope [OF assms(1,2) sent] by simp
qed

lemma account_report:
  assumes "qp_inv s" and "queues_account s es es' rs rs'" and "send_report s rep = (s', res)"
  shows "qp_inv s' \<and> queues_account s' es es' (if is_ok res then rs @ [rep] else rs) rs'"
  using assms(1,3)
proof (cases rule: send_report_cases)
  case (ok r)
  then show ?thesis using assms(1,2) by (simp add: qp_inv_def queues_account_def)
next
  case full
  then show ?thesis using assms(1,2) by (simp add: qp_inv_def queues_account_def)
qed

lemma account_receive:
  assumes "qp_inv s" and "queues_account s es es' rs rs'" and "receive_envelopes s = (s', got)"
  shows "qp_inv s' \<and> queues_account s' es (es' @ got) rs rs'"
  using assms(1,3)
proof (cases rule: receive_envelopes_cases)
  case (1 r n)
  then have "got @ ring_contents r = intents_waiting s" by simp
  then show ?thesis using 1(1,3) assms(1,2) by (simp add: qp_inv_def queues_account_def)
qed

lemma account_drain:
  assumes "qp_inv s" and "queues_account s es es' rs rs'" and "drain_reports s cap = (s', got)"
  shows "qp_inv s' \<and> queues_account s' es es' rs (rs' @ got)"
  using assms(1,3)
proof (cases rule: drain_reports_cases)
  case (1 r)
  then have "got @ ring_contents r = reports_waiting s" by simp
  then show ?thesis using 1(1,3) assms(1,2) by (simp add: qp_inv_def queues_account_def classes_add_up_def)
qed

lemma trace_account:
  assumes "queue_trace D c s es es' rs rs'"
    and "unat (intent_queue_capacity c) \<le> 2 ^ 63" and "unat (event_queue_capacity c) \<le> 2 ^ 63"
  shows "qp_inv s \<and> queues_account s es es' rs rs'"
  using assms(1)
proof (induction rule: queue_trace.induct)
  case create
  show ?case
    using ring_new_inv(1,2) [OF assms(2), where 'a = order_intent_envelope]
      ring_new_inv(1,2) [OF assms(3), where 'a = execution_report]
    by (simp add: create_execution_queues_def qp_inv_def queues_account_def classes_add_up_def default_queue_stats_def)
next
  case (submit s es es' rs rs' e now latest prot s' res)
  then show ?case using account_submit by blast
next
  case (send s es es' rs rs' e s' res)
  then show ?case using account_send_envelope by blast
next
  case (receive s es es' rs rs' s' got)
  then show ?case using account_receive by blast
next
  case (report s es es' rs rs' rep s' res)
  then show ?case using account_report by blast
next
  case (drain s es es' rs rs' cap s' got)
  then show ?case using account_drain by blast
next
  case (acknowledge s es es' rs rs' stream_id)
  then show ?case by (simp add: acknowledge_applied_execution_stream_def qp_inv_def queues_account_def)
next
  case (applied s es es' rs rs' s' x)
  then show ?case
    by (auto simp: try_receive_applied_execution_stream_def qp_inv_def queues_account_def split: list.splits)
qed

subsection \<open>Properties\<close>

text \<open>
  C29. No envelope and no report is lost, duplicated or reordered between the engine and the worker: in
  every run of the two halves, what one side got into a queue is what the other side took out followed by
  what still waits, the four counters are the lengths of the four logs modulo 2^64, and every intent the
  gate refused is counted in exactly one class.
\<close>

theorem execution_queues_lossless:
  assumes "queue_trace D c s es es' rs rs'"
    and "unat (intent_queue_capacity c) \<le> 2 ^ 63" and "unat (event_queue_capacity c) \<le> 2 ^ 63"
  shows "es = es' @ intents_waiting s \<and> rs = rs' @ reports_waiting s \<and>
    intents_sent (q_engine_stats s) = of_nat (length es) \<and>
    intents_received (q_worker_stats s) = of_nat (length es') \<and>
    events_sent (q_worker_stats s) = of_nat (length rs) \<and>
    events_received (q_engine_stats s) = of_nat (length rs') \<and> classes_add_up (q_engine_stats s)"
  using trace_account [OF assms] by (simp add: queues_account_def)

definition sample_report :: execution_report where
  "sample_report = \<lparr>rep_event = OrderCanceled (OrderId ''o1'') 5, rep_origin = PrivateOrUnknown\<rparr>"

definition small_config :: execution_queue_config where
  "small_config = \<lparr>intent_queue_capacity = 2, event_queue_capacity = 2, batch_size = 1\<rparr>"

definition after_report :: queue_pair where
  "after_report = fst (send_report (create_execution_queues small_config) sample_report)"

lemma after_report_trace: "queue_trace exact_dec small_config after_report [] [] [sample_report] []"
proof -
  have "is_ok (snd (send_report (create_execution_queues small_config) sample_report))"
    by (simp add: create_execution_queues_def small_config_def send_report_def try_push_def ring_new_def Let_def
        next_power_of_two_def ring_next_def bit_length.simps)
  then show ?thesis
    using report [OF create [of exact_dec small_config],
      of sample_report after_report "snd (send_report (create_execution_queues small_config) sample_report)"]
    by (simp add: after_report_def)
qed

lemma small_config_fits:
  "unat (intent_queue_capacity small_config) \<le> 2 ^ 63" "unat (event_queue_capacity small_config) \<le> 2 ^ 63"
  by (simp_all add: small_config_def)

theorem execution_queues_lossless_witness:
  "reports_waiting after_report = [sample_report] \<and> events_sent (q_worker_stats after_report) = 1"
  using execution_queues_lossless [OF after_report_trace small_config_fits] by simp

text \<open>
  The pre-execution gate is exact: an envelope enters the intent queue precisely when it passes the
  validation its price protection demands and a slot is free; then it is the last of the queue. Otherwise
  the queue is as before and the caller gets the same envelope back with the reason.
\<close>

theorem lifecycle_submission_exact:
  assumes "queue_trace D c s es es' rs rs'"
    and "unat (intent_queue_capacity c) \<le> 2 ^ 63" and "unat (event_queue_capacity c) \<le> 2 ^ 63"
    and "send_lifecycle_intent_with_price_protection D s e now latest prot = (s', res)"
  shows "case validate_for_protection D e now latest prot of
      Inl reason \<Rightarrow> res = Err (LifecycleRejected e reason) \<and> q_intents s' = q_intents s
    | Inr _ \<Rightarrow>
        if length (intents_waiting s) < rb_n (q_intents s) - 1
        then res = Ok () \<and> intents_waiting s' = intents_waiting s @ [e]
        else res = Err (QueueFull e) \<and> q_intents s' = q_intents s"
proof (cases "validate_for_protection D e now latest prot")
  case (Inl reason)
  with assms(4) show ?thesis
    by (auto simp: send_lifecycle_intent_with_price_protection_def Let_def)
next
  case (Inr u)
  have inv: "qp_inv s" using trace_account [OF assms(1-3)] by simp
  obtain s1 r1 where sent: "send_envelope s e = (s1, r1)" by fastforce
  from inv sent show ?thesis
    by (cases rule: send_envelope_cases)
      (use Inr sent assms(4) in \<open>auto simp: send_lifecycle_intent_with_price_protection_def\<close>)
qed

theorem lifecycle_submission_exact_witness:
  "\<exists>s'. send_lifecycle_intent_with_price_protection exact_dec after_report sample_envelope 5000 None CanonicalBook
     = (s', Err (LifecycleRejected sample_envelope (Expired 5000 2000))) \<and> q_intents s' = q_intents after_report"
proof -
  have v: "validate_for_protection exact_dec sample_envelope 5000 None CanonicalBook = Err (Expired 5000 2000)"
    by code_simp
  obtain s' res where sent:
    "send_lifecycle_intent_with_price_protection exact_dec after_report sample_envelope 5000 None CanonicalBook
       = (s', res)" by fastforce
  from lifecycle_submission_exact [OF after_report_trace small_config_fits sent] v sent show ?thesis by simp
qed



lemma price_reference_of_Some:
  assumes "execution_price_reference_of fx books i = Some r"
  obtains ven book where "in_target_venue i = Some ven"
    "books \<lparr>vs_venue = ven, vs_symbol = in_symbol i\<rparr> = Some book" "ts_local_receive book = Some (ref_received_at r)"
    "ref_price r = fx (hd (case in_side i of Buy \<Rightarrow> ts_ask_prices book | Sell \<Rightarrow> ts_bid_prices book))"
    "fx (hd (ts_bid_prices book)) \<le> fx (hd (ts_ask_prices book))"
  using assms
  by (auto simp: execution_price_reference_of_def first_level_def bind_eq_Some_conv not_le not_less
      split: if_splits list.splits side.splits)

lemma market_reference_Ok:
  assumes "validate_execution_market_reference D fx market e now CanonicalBook = Ok ()"
  obtains latest where "source_sequence market e = Ok latest"
    "source_book_seq (env_lifecycle e) = None \<or> env_source_book_identity e \<noteq> None"
    "lifecycle_validate (env_lifecycle e) now latest = Ok ()"
    "validate_slippage_reference D e now
       (Option.bind market (\<lambda>books. execution_price_reference_of fx books (env_intent e))) = Ok ()"
  using assms
  by (auto simp: validate_execution_market_reference_def validate_pre_execution_def and_then_Ok_iff
      split: if_splits)

text \<open>
  Immediately before adapter entry the worker checks the market as it is now: an envelope that passes
  the canonical-book gate has not expired; if it was decided on a book, the market view still holds that
  book at exactly that sequence; and if it carries a slippage bound, the view holds a book of its venue and
  symbol received no later than now, with an uncrossed top, and its limit price is within the bound of the
  current top of book, not only of the quote it travelled with.
\<close>

theorem worker_gate_current_market:
  assumes "dec_exact D" and "validate_execution_market_reference D fx market e now CanonicalBook = Ok ()"
  shows "now < valid_until (env_lifecycle e) \<and>
    (\<forall>n. source_book_seq (env_lifecycle e) = Some n \<longrightarrow>
       (\<exists>books ident book. market = Some books \<and> env_source_book_identity e = Some ident \<and>
          books ident = Some book \<and> ts_sequence book = n)) \<and>
    (\<forall>bps. max_slippage_bps (env_lifecycle e) = Some bps \<longrightarrow>
       (\<exists>books ven book lp received. market = Some books \<and> in_target_venue (env_intent e) = Some ven \<and>
          books \<lparr>vs_venue = ven, vs_symbol = in_symbol (env_intent e)\<rparr> = Some book \<and>
          ts_local_receive book = Some received \<and> received \<le> now \<and>
          fx (hd (ts_bid_prices book)) \<le> fx (hd (ts_ask_prices book)) \<and>
          in_order_type (env_intent e) = Limit \<and> in_price (env_intent e) = Some lp \<and>
          (case in_side (env_intent e) of
             Buy \<Rightarrow> lp \<le> fx (hd (ts_ask_prices book)) * (1 + of_int (sint bps) / 10000)
           | Sell \<Rightarrow> fx (hd (ts_bid_prices book)) * (1 - of_int (sint bps) / 10000) \<le> lp)))"
proof -
  obtain latest where seq: "source_sequence market e = Ok latest"
    and ident: "source_book_seq (env_lifecycle e) = None \<or> env_source_book_identity e \<noteq> None"
    and life: "lifecycle_validate (env_lifecycle e) now latest = Ok ()"
    and slip: "validate_slippage_reference D e now
       (Option.bind market (\<lambda>books. execution_price_reference_of fx books (env_intent e))) = Ok ()"
    by (rule market_reference_Ok [OF assms(2)])
  have source: "\<exists>books ident book. market = Some books \<and> env_source_book_identity e = Some ident \<and>
      books ident = Some book \<and> ts_sequence book = n" if "source_book_seq (env_lifecycle e) = Some n" for n
    using that seq ident life by (auto simp: source_sequence_def lifecycle_validate_Ok bind_eq_Some_conv
        split: option.splits)
  have price: "\<exists>books ven book lp received. market = Some books \<and> in_target_venue (env_intent e) = Some ven \<and>
      books \<lparr>vs_venue = ven, vs_symbol = in_symbol (env_intent e)\<rparr> = Some book \<and>
      ts_local_receive book = Some received \<and> received \<le> now \<and>
      fx (hd (ts_bid_prices book)) \<le> fx (hd (ts_ask_prices book)) \<and>
      in_order_type (env_intent e) = Limit \<and> in_price (env_intent e) = Some lp \<and>
      (case in_side (env_intent e) of
         Buy \<Rightarrow> lp \<le> fx (hd (ts_ask_prices book)) * (1 + of_int (sint bps) / 10000)
       | Sell \<Rightarrow> fx (hd (ts_bid_prices book)) * (1 - of_int (sint bps) / 10000) \<le> lp)"
    if bps: "max_slippage_bps (env_lifecycle e) = Some bps" for bps
  proof (rule validate_slippage_Ok [OF slip bps])
    fix r lp age diff adverse allowed
    assume r: "Option.bind market (\<lambda>books. execution_price_reference_of fx books (env_intent e)) = Some r"
      "in_order_type (env_intent e) = Limit" "in_price (env_intent e) = Some lp" "ref_received_at r \<le> now"
      and arith: "(case in_side (env_intent e) of Buy \<Rightarrow> d_sub D lp (ref_price r)
        | Sell \<Rightarrow> d_sub D (ref_price r) lp) = Some diff" "d_mul D diff 10000 = Some adverse"
        "d_mul D (ref_price r) (of_int (sint bps)) = Some allowed" "adverse \<le> allowed"
    from r(1) obtain books where books: "market = Some books"
      "execution_price_reference_of fx books (env_intent e) = Some r" by (auto simp: bind_eq_Some_conv)
    from books(2) show ?thesis
      by (rule price_reference_of_Some)
        (use books(1) r(2-4) slippage_bound [OF assms(1) arith] in \<open>cases "in_side (env_intent e)"; auto\<close>)
  qed
  from life have "now < valid_until (env_lifecycle e)" by (simp add: lifecycle_validate_Ok)
  with source price show ?thesis by blast
qed

definition sample_books :: orderbooks where
  "sample_books = [\<lparr>vs_venue = BINANCE, vs_symbol = Symbol ''BTCUSDT''\<rparr> \<mapsto>
     \<lparr>ts_symbol = Symbol ''BTCUSDT'', ts_timestamp = 200, ts_local_receive = Some 210, ts_sequence = 9,
      ts_generation = 1, ts_bid_prices = [99000000], ts_bid_quantities = [1000000],
      ts_ask_prices = [100000000], ts_ask_quantities = [1000000]\<rparr>]"

definition fixed_price :: "fixed \<Rightarrow> price" where
  "fixed_price w = of_int (sint w) / 1000000"

theorem worker_gate_current_market_witness:
  "\<exists>book lp. sample_books \<lparr>vs_venue = BINANCE, vs_symbol = Symbol ''BTCUSDT''\<rparr> = Some book \<and>
     in_price (env_intent sample_envelope) = Some lp \<and>
     lp \<le> fixed_price (hd (ts_ask_prices book)) * (1 + 200 / 10000)"
proof -
  have ok: "validate_execution_market_reference exact_dec fixed_price (Some sample_books) sample_envelope 300
    CanonicalBook = Ok ()" by code_simp
  have "in_side (env_intent sample_envelope) = Buy" "in_target_venue (env_intent sample_envelope) = Some BINANCE"
    "in_symbol (env_intent sample_envelope) = Symbol ''BTCUSDT''"
    "max_slippage_bps (env_lifecycle sample_envelope) = Some 200"
    by (simp_all add: sample_envelope_def intent_crypto_spot_def)
  with worker_gate_current_market [OF dec_exact_exact_dec ok] show ?thesis by fastforce
qed

end
