(* ===== verification/Depth_Book.thy ===== *)
theory Depth_Book
  imports Prelude
begin

text \<open>
  The fixed-point depth book of the Binance feed (\<open>market-core/binance-depth/src/book.rs\<close>): the compact
  top-of-book arrays with their in-place insertion and removal, and the full book with its refreshed view
  of the best levels. Prices and quantities are signed 64-bit integers. A \<open>BTreeMap\<close> is the list of its
  entries in ascending key order, which is the order it iterates in.
\<close>

subsection \<open>Levels and their order\<close>


record level =
  lv_price :: i64
  lv_qty :: i64

definition default_level :: level where
  "default_level = \<lparr>lv_price = 0, lv_qty = 0\<rparr>"

text \<open>The \<open>DESC\<close> parameter of the source: bids run from the highest price down, asks up.\<close>

definition before :: "bool \<Rightarrow> i64 \<Rightarrow> i64 \<Rightarrow> bool" where
  "before desc p q \<longleftrightarrow> (if desc then sint q < sint p else sint p < sint q)"

subsection \<open>The top-of-book arrays\<close>

text \<open>One side: the array of \<open>N\<close> levels and the number of levels in use.\<close>

record book_side =
  bs_levels :: "level list"
  bs_len :: nat

definition empty_side :: "nat \<Rightarrow> book_side" where
  "empty_side n = \<lparr>bs_levels = replicate n default_level, bs_len = 0\<rparr>"

record top_book =
  tb_bids :: book_side
  tb_asks :: book_side
  tb_last_update_id :: u64
  tb_last_update_ns :: i64

definition top_new :: "nat \<Rightarrow> top_book" where
  "top_new n = \<lparr>tb_bids = empty_side n, tb_asks = empty_side n, tb_last_update_id = 0, tb_last_update_ns = 0\<rparr>"

definition top_best :: "book_side \<Rightarrow> level option" where
  "top_best b = (if 0 < bs_len b then Some (bs_levels b ! 0) else None)"

text \<open>The first index below a bound that satisfies a test: the search loops of the source.\<close>

fun find_from :: "(nat \<Rightarrow> bool) \<Rightarrow> nat \<Rightarrow> nat \<Rightarrow> nat option" where
  "find_from test i 0 = None"
| "find_from test i (Suc k) = (if test i then Some i else find_from test (Suc i) k)"

text \<open>\<open>levels[pos] = levels[pos + 1]\<close> for the given positions in turn.\<close>

fun pull_left :: "level list \<Rightarrow> nat list \<Rightarrow> level list" where
  "pull_left ls [] = ls"
| "pull_left ls (i # is) = pull_left (ls[i := ls ! Suc i]) is"

text \<open>\<open>levels[idx] = levels[idx - 1]\<close> for the given positions in turn.\<close>

fun push_right :: "level list \<Rightarrow> nat list \<Rightarrow> level list" where
  "push_right ls [] = ls"
| "push_right ls (i # is) = push_right (ls[i := ls ! (i - 1)]) is"

definition remove_at :: "nat \<Rightarrow> book_side \<Rightarrow> nat \<Rightarrow> book_side" where
  "remove_at n b idx =
     (if bs_len b \<le> idx then b
      else let ls = pull_left (bs_levels b) [idx ..< bs_len b - 1];
               len = bs_len b - 1
           in \<lparr>bs_levels = (if len < n then ls[len := default_level] else ls), bs_len = len\<rparr>)"

definition apply_side :: "nat \<Rightarrow> bool \<Rightarrow> book_side \<Rightarrow> i64 \<Rightarrow> i64 \<Rightarrow> book_side" where
  "apply_side n desc b p q =
     (if n = 0 then b
      else case find_from (\<lambda>i. lv_price (bs_levels b ! i) = p) 0 (bs_len b) of
        Some i \<Rightarrow>
          if sint q \<le> 0 then remove_at n b i
          else b\<lparr>bs_levels := (bs_levels b)[i := (bs_levels b ! i)\<lparr>lv_qty := q\<rparr>]\<rparr>
      | None \<Rightarrow>
          if sint q \<le> 0 then b
          else let pos = unwrap_or (bs_len b) (find_from (\<lambda>i. before desc p (lv_price (bs_levels b ! i))) 0 (bs_len b))
               in if bs_len b = n \<and> pos = n then b
                  else let len = (if bs_len b < n then bs_len b + 1 else bs_len b);
                           ls = push_right (bs_levels b) (rev [pos + 1 ..< len])
                       in \<lparr>bs_levels = ls[pos := \<lparr>lv_price = p, lv_qty = q\<rparr>], bs_len = len\<rparr>)"

definition top_apply_update ::
  "nat \<Rightarrow> top_book \<Rightarrow> (i64 \<times> i64) list \<Rightarrow> (i64 \<times> i64) list \<Rightarrow> u64 \<Rightarrow> i64 \<Rightarrow> top_book" where
  "top_apply_update n t bids asks final_id ns =
     \<lparr>tb_bids = foldl (\<lambda>b (p, q). apply_side n True b p q) (tb_bids t) bids,
      tb_asks = foldl (\<lambda>b (p, q). apply_side n False b p q) (tb_asks t) asks,
      tb_last_update_id = final_id, tb_last_update_ns = ns\<rparr>"

subsection \<open>The full book\<close>

text \<open>\<open>BTreeMap::insert\<close> and \<open>BTreeMap::remove\<close> on the entries in key order.\<close>

fun btree_insert :: "(i64 \<times> i64) list \<Rightarrow> i64 \<Rightarrow> i64 \<Rightarrow> (i64 \<times> i64) list" where
  "btree_insert [] p q = [(p, q)]"
| "btree_insert ((p', q') # m) p q =
     (if p = p' then (p, q) # m
      else if sint p < sint p' then (p, q) # (p', q') # m
      else (p', q') # btree_insert m p q)"

definition btree_remove :: "(i64 \<times> i64) list \<Rightarrow> i64 \<Rightarrow> (i64 \<times> i64) list" where
  "btree_remove m p = filter (\<lambda>e. fst e \<noteq> p) m"

definition apply_levels :: "(i64 \<times> i64) list \<Rightarrow> (i64 \<times> i64) list \<Rightarrow> (i64 \<times> i64) list" where
  "apply_levels m updates =
     foldl (\<lambda>m (p, q). if sint q \<le> 0 then btree_remove m p else btree_insert m p q) m updates"

record correctness_book =
  cb_bids :: "(i64 \<times> i64) list"
  cb_asks :: "(i64 \<times> i64) list"
  cb_top :: top_book

definition correctness_new :: "nat \<Rightarrow> correctness_book" where
  "correctness_new n = \<lparr>cb_bids = [], cb_asks = [], cb_top = top_new n\<rparr>"

text \<open>Writing the entries one by one into the cleared array.\<close>

fun fill_side :: "book_side \<Rightarrow> nat \<Rightarrow> (i64 \<times> i64) list \<Rightarrow> book_side" where
  "fill_side b idx [] = b"
| "fill_side b idx ((p, q) # es) =
     fill_side \<lparr>bs_levels = (bs_levels b)[idx := \<lparr>lv_price = p, lv_qty = q\<rparr>], bs_len = bs_len b + 1\<rparr> (idx + 1) es"

definition refresh_top :: "nat \<Rightarrow> correctness_book \<Rightarrow> u64 \<Rightarrow> i64 \<Rightarrow> correctness_book" where
  "refresh_top n c final_id ns =
     c\<lparr>cb_top := \<lparr>tb_bids = fill_side (empty_side n) 0 (take n (rev (cb_bids c))),
                  tb_asks = fill_side (empty_side n) 0 (take n (cb_asks c)),
                  tb_last_update_id = final_id, tb_last_update_ns = ns\<rparr>\<rparr>"

definition apply_book_snapshot ::
  "nat \<Rightarrow> correctness_book \<Rightarrow> (i64 \<times> i64) list \<Rightarrow> (i64 \<times> i64) list \<Rightarrow> u64 \<Rightarrow> i64 \<Rightarrow> correctness_book" where
  "apply_book_snapshot n c bids asks final_id ns =
     refresh_top n (c\<lparr>cb_bids := apply_levels [] bids, cb_asks := apply_levels [] asks\<rparr>) final_id ns"

definition apply_diff ::
  "nat \<Rightarrow> correctness_book \<Rightarrow> (i64 \<times> i64) list \<Rightarrow> (i64 \<times> i64) list \<Rightarrow> u64 \<Rightarrow> i64 \<Rightarrow> correctness_book" where
  "apply_diff n c bids asks final_id ns =
     refresh_top n (c\<lparr>cb_bids := apply_levels (cb_bids c) bids, cb_asks := apply_levels (cb_asks c) asks\<rparr>) final_id ns"

subsection \<open>The levels in use\<close>

definition used :: "book_side \<Rightarrow> level list" where
  "used b = take (bs_len b) (bs_levels b)"

definition side_ok :: "nat \<Rightarrow> bool \<Rightarrow> book_side \<Rightarrow> bool" where
  "side_ok n desc b \<longleftrightarrow>
     length (bs_levels b) = n \<and> bs_len b \<le> n \<and>
     sorted_wrt (\<lambda>a c. before desc (lv_price a) (lv_price c)) (used b) \<and>
     (\<forall>l \<in> set (used b). 0 < sint (lv_qty l)) \<and>
     drop (bs_len b) (bs_levels b) = replicate (n - bs_len b) default_level"

text \<open>The reference: update, insert or delete one price in a list kept in order.\<close>

fun upsert :: "bool \<Rightarrow> i64 \<Rightarrow> i64 \<Rightarrow> level list \<Rightarrow> level list" where
  "upsert desc p q [] = (if sint q \<le> 0 then [] else [\<lparr>lv_price = p, lv_qty = q\<rparr>])"
| "upsert desc p q (l # ls) =
     (if lv_price l = p then (if sint q \<le> 0 then ls else l\<lparr>lv_qty := q\<rparr> # ls)
      else if before desc p (lv_price l)
      then (if sint q \<le> 0 then l # ls else \<lparr>lv_price = p, lv_qty = q\<rparr> # l # ls)
      else l # upsert desc p q ls)"

lemma before_irrefl: "\<not> before desc p p"
  by (simp add: before_def)

lemma before_trans: "before desc a b \<Longrightarrow> before desc b c \<Longrightarrow> before desc a c"
  by (auto simp: before_def split: if_splits)

lemma before_linear: "before desc a b \<or> a = b \<or> before desc b a"
  using linorder_less_linear [of "sint a" "sint b"] signed_word_eqI [of a b] unfolding before_def by metis

lemma find_from_takeWhile:
  assumes "i + k \<le> length xs"
  shows "find_from (\<lambda>j. P (xs ! j)) i k =
    (let t = length (takeWhile (\<lambda>x. \<not> P x) (take k (drop i xs))) in if t < k then Some (i + t) else None)"
  using assms
proof (induction k arbitrary: i)
  case 0
  then show ?case by simp
next
  case (Suc k)
  then have "drop i xs = xs ! i # drop (Suc i) xs" by (simp add: Cons_nth_drop_Suc)
  with Suc show ?case by (simp add: Let_def)
qed

lemma takeWhile_shorter: "length (takeWhile P xs) < length xs \<longleftrightarrow> (\<exists>x \<in> set xs. \<not> P x)"
  by (induction xs) auto

lemma find_from_used:
  assumes "bs_len b \<le> length (bs_levels b)"
  shows "find_from (\<lambda>i. P (bs_levels b ! i)) 0 (bs_len b) =
    (let t = length (takeWhile (\<lambda>l. \<not> P l) (used b)) in if t < length (used b) then Some t else None)"
  using find_from_takeWhile [of 0 "bs_len b" "bs_levels b" P] assms by (simp add: used_def min_def Let_def)

lemma pull_left_eq:
  assumes "i \<le> m" and "m < length ls"
  shows "pull_left ls [i ..< m] = take i ls @ take (m - i) (drop (Suc i) ls) @ drop m ls"
  using assms
proof (induction "m - i" arbitrary: i ls)
  case 0
  then show ?case by simp
next
  case (Suc k)
  then have up: "[i ..< m] = i # [Suc i ..< m]" by (simp add: upt_rec)
  have "pull_left ls [i ..< m] = pull_left (ls[i := ls ! Suc i]) [Suc i ..< m]" by (simp add: up)
  also have "\<dots> = take (Suc i) (ls[i := ls ! Suc i]) @ take (m - Suc i) (drop (Suc (Suc i)) (ls[i := ls ! Suc i])) @
      drop m (ls[i := ls ! Suc i])"
    using Suc by (intro Suc(1)) simp_all
  also have "\<dots> = take i ls @ (ls ! Suc i # take (m - Suc i) (drop (Suc (Suc i)) ls)) @ drop m ls"
    using Suc by (simp add: take_Suc_conv_app_nth)
  also have "ls ! Suc i # take (m - Suc i) (drop (Suc (Suc i)) ls) = take (m - i) (drop (Suc i) ls)"
    using Suc by (simp add: take_Cons' Cons_nth_drop_Suc [symmetric])
  finally show ?case .
qed

lemma push_right_eq:
  assumes "i < m" and "m \<le> length ls"
  shows "push_right ls (rev [Suc i ..< m]) = take (Suc i) ls @ take (m - Suc i) (drop i ls) @ drop m ls"
  using assms
proof (induction "m - Suc i" arbitrary: m ls)
  case 0
  then have "m = Suc i" by simp
  then show ?case by simp
next
  case (Suc k)
  then obtain m' where m: "m = Suc m'" "i < m'" by (cases m) auto
  then have "push_right ls (rev [Suc i ..< m]) = push_right (ls[m' := ls ! (m' - 1)]) (rev [Suc i ..< m'])" by simp
  also have "\<dots> = take (Suc i) (ls[m' := ls ! (m' - 1)]) @ take (m' - Suc i) (drop i (ls[m' := ls ! (m' - 1)])) @
      drop m' (ls[m' := ls ! (m' - 1)])"
    using Suc m by (intro Suc(1)) simp_all
  also have "drop m' (ls[m' := ls ! (m' - 1)]) = ls ! (m' - 1) # drop m ls"
    using Suc.prems m Cons_nth_drop_Suc [of m' "ls[m' := ls ! (m' - 1)]"] by simp
  also have "take (m' - Suc i) (drop i (ls[m' := ls ! (m' - 1)])) = take (m' - Suc i) (drop i ls)"
    using m by (simp add: drop_update_swap)
  also have "take (Suc i) (ls[m' := ls ! (m' - 1)]) = take (Suc i) ls"
    using m by simp
  also have "take (m' - Suc i) (drop i ls) @ ls ! (m' - 1) # drop m ls =
      (take (m' - Suc i) (drop i ls) @ [ls ! (m' - 1)]) @ drop m ls" by simp
  also have "take (m' - Suc i) (drop i ls) @ [ls ! (m' - 1)] = take (m - Suc i) (drop i ls)"
    using Suc.prems m take_Suc_conv_app_nth [of "m' - Suc i" "drop i ls"] by (simp add: Suc_diff_Suc)
  finally show ?case .
qed

subsection \<open>The reference and the arrays\<close>

abbreviation side_sorted :: "bool \<Rightarrow> level list \<Rightarrow> bool" where
  "side_sorted desc \<equiv> sorted_wrt (\<lambda>a c. before desc (lv_price a) (lv_price c))"

lemma upsert_absent:
  assumes "\<forall>l \<in> set ls. lv_price l \<noteq> p"
  shows "upsert desc p q ls =
    (if sint q \<le> 0 then ls
     else takeWhile (\<lambda>l. \<not> before desc p (lv_price l)) ls @
       \<lparr>lv_price = p, lv_qty = q\<rparr> # dropWhile (\<lambda>l. \<not> before desc p (lv_price l)) ls)"
  using assms by (induction ls) auto

lemma upsert_present:
  assumes "side_sorted desc (ys @ l # zs)" and "lv_price l = p"
  shows "upsert desc p q (ys @ l # zs) = ys @ (if sint q \<le> 0 then [] else [l\<lparr>lv_qty := q\<rparr>]) @ zs"
  using assms
proof (induction ys)
  case Nil
  then show ?case by simp
next
  case (Cons y ys)
  then have "before desc (lv_price y) p" by simp
  then have "lv_price y \<noteq> p" "\<not> before desc p (lv_price y)"
    using before_irrefl before_trans by blast+
  with Cons show ?case by simp
qed

lemma set_upsert: "l \<in> set (upsert desc p q ls) \<Longrightarrow> l \<in> set ls \<or> (lv_price l = p \<and> lv_qty l = q \<and> 0 < sint q)"
  by (induction ls) (auto split: if_splits)

lemma upsert_sorted: "side_sorted desc ls \<Longrightarrow> side_sorted desc (upsert desc p q ls)"
proof (induction ls)
  case Nil
  then show ?case by simp
next
  case (Cons l ls)
  consider (same) "lv_price l = p" | (first) "lv_price l \<noteq> p" "before desc p (lv_price l)"
    | (later) "lv_price l \<noteq> p" "\<not> before desc p (lv_price l)" by blast
  then show ?case
  proof cases
    case same
    with Cons.prems show ?thesis by auto
  next
    case first
    then have "before desc p (lv_price k)" if "k \<in> set (l # ls)" for k
      using that Cons.prems before_trans [OF first(2)] by auto
    with first Cons.prems show ?thesis by simp
  next
    case later
    then have "before desc (lv_price l) p" using before_linear by blast
    then have "before desc (lv_price l) (lv_price k)" if "k \<in> set (upsert desc p q ls)" for k
      using that Cons.prems set_upsert by fastforce
    with later Cons show ?thesis by simp
  qed
qed

lemma used_remove_at:
  assumes "side_ok n desc b" and "i < bs_len b"
  shows "used (remove_at n b i) = take i (used b) @ drop (Suc i) (used b)"
    and "length (bs_levels (remove_at n b i)) = n" and "bs_len (remove_at n b i) = bs_len b - 1"
    and "drop (bs_len b - 1) (bs_levels (remove_at n b i)) = replicate (n - (bs_len b - 1)) default_level"
proof -
  let ?ls = "bs_levels b"
  obtain m where m: "bs_len b = Suc m" using assms(2) by (cases "bs_len b") auto
  have n: "length ?ls = n" "Suc m \<le> n" "drop (Suc m) ?ls = replicate (n - Suc m) default_level"
    using assms(1) m by (simp_all add: side_ok_def)
  have pull: "pull_left ?ls [i ..< m] = take i ?ls @ take (m - i) (drop (Suc i) ?ls) @ drop m ?ls"
    using assms(2) n m by (intro pull_left_eq) simp_all
  have "drop m ?ls = ?ls ! m # drop (Suc m) ?ls" using n(1,2) by (simp add: Cons_nth_drop_Suc)
  then have lev: "bs_levels (remove_at n b i) =
      take i ?ls @ take (m - i) (drop (Suc i) ?ls) @ default_level # drop (Suc m) ?ls"
    using assms(2) n(1,2) m by (simp add: remove_at_def Let_def pull list_update_append)
  show len: "bs_len (remove_at n b i) = bs_len b - 1" using assms(2) by (simp add: remove_at_def Let_def)
  show "length (bs_levels (remove_at n b i)) = n" using assms(2) n(1,2) m by (simp add: lev)
  have i: "i \<le> m" using assms(2) m by simp
  then have "take m (bs_levels (remove_at n b i)) = take i ?ls @ take (m - i) (drop (Suc i) ?ls)"
    using n(1,2) by (simp add: lev)
  then show "used (remove_at n b i) = take i (used b) @ drop (Suc i) (used b)"
    using i by (simp add: used_def len m drop_take min_absorb1)
  have "drop m (bs_levels (remove_at n b i)) = default_level # drop (Suc m) ?ls"
    using assms(2) n(1,2) m by (simp add: lev)
  then show "drop (bs_len b - 1) (bs_levels (remove_at n b i)) = replicate (n - (bs_len b - 1)) default_level"
    using n m by (simp add: replicate_Suc [symmetric] Suc_diff_Suc Suc_le_eq del: replicate_Suc)
qed

text \<open>The shift and the write insert one level; a full array drops its last.\<close>

lemma insert_shift:
  fixes b :: book_side and l :: level and pos :: nat
  assumes "side_ok n desc b" and "pos \<le> bs_len b" and "\<not> (bs_len b = n \<and> pos = n)"
  defines "len \<equiv> (if bs_len b < n then bs_len b + 1 else bs_len b)"
  defines "b' \<equiv> \<lparr>bs_levels = (push_right (bs_levels b) (rev [pos + 1 ..< len]))[pos := l], bs_len = len\<rparr>"
  shows "used b' = take n (take pos (used b) @ l # drop pos (used b))" and "length (bs_levels b') = n"
    and "bs_len b' \<le> n" and "drop (bs_len b') (bs_levels b') = replicate (n - bs_len b') default_level"
proof -
  let ?ls = "bs_levels b"
  have n: "length ?ls = n" "bs_len b \<le> n" and rest: "drop (bs_len b) ?ls = replicate (n - bs_len b) default_level"
    using assms(1) by (simp_all add: side_ok_def)
  have len: "pos < len" "len \<le> n" "len \<le> Suc (bs_len b)" "bs_len b \<le> len" "len = min n (Suc (bs_len b))"
    using assms(2,3) n by (auto simp: len_def)
  have "push_right ?ls (rev [pos + 1 ..< len]) = take (Suc pos) ?ls @ take (len - Suc pos) (drop pos ?ls) @ drop len ?ls"
    using push_right_eq [of pos len ?ls] len n by simp
  moreover have "take (Suc pos) ?ls = take pos ?ls @ [?ls ! pos]"
    using len n by (simp add: take_Suc_conv_app_nth)
  ultimately have lev: "bs_levels b' = take pos ?ls @ l # take (len - Suc pos) (drop pos ?ls) @ drop len ?ls"
    using len n by (simp add: b'_def list_update_append)
  have blen: "bs_len b' = len" by (simp add: b'_def)
  show "length (bs_levels b') = n" and "bs_len b' \<le> n" using len n by (simp_all add: lev blen)
  have "take (len - Suc pos) (drop pos ?ls) = take (n - Suc pos) (drop pos (used b))"
    using len n assms(2) by (auto simp: used_def drop_take min_def)
  then show "used b' = take n (take pos (used b) @ l # drop pos (used b))"
    using len n assms(2) by (simp add: used_def [of b'] lev blen used_def [of b] min_def take_Cons')
  have "drop len ?ls = replicate (n - len) default_level"
    using rest len drop_drop [of "len - bs_len b" "bs_len b" ?ls] by simp
  moreover have "length (take pos ?ls @ l # take (len - Suc pos) (drop pos ?ls)) = len"
    using len(1,2) n(1) by simp
  then have "drop len (bs_levels b') = drop len ?ls"
    unfolding lev by (metis append.assoc append_Cons append_eq_conv_conj)
  ultimately show "drop (bs_len b') (bs_levels b') = replicate (n - bs_len b') default_level"
    by (simp add: blen)
qed

lemma used_update_qty:
  assumes "i < bs_len b"
  shows "used (b\<lparr>bs_levels := (bs_levels b)[i := x]\<rparr>) = (used b)[i := x]"
  using assms by (simp add: used_def take_update_swap)

definition array_holds :: "nat \<Rightarrow> book_side \<Rightarrow> level list \<Rightarrow> bool" where
  "array_holds n b ls \<longleftrightarrow> used b = ls \<and> length (bs_levels b) = n \<and> bs_len b \<le> n \<and>
     drop (bs_len b) (bs_levels b) = replicate (n - bs_len b) default_level"

lemma side_ok_holds: "side_ok n desc b \<longleftrightarrow>
    array_holds n b (used b) \<and> side_sorted desc (used b) \<and> (\<forall>l \<in> set (used b). 0 < sint (lv_qty l))"
  by (auto simp: side_ok_def array_holds_def)

lemma apply_side_present:
  assumes ok: "side_ok n desc b" and "0 < n"
    and t: "t = length (takeWhile (\<lambda>l. lv_price l \<noteq> p) (used b))" "t < length (used b)"
  shows "array_holds n (apply_side n desc b p q) (upsert desc p q (used b))"
proof -
  have n: "length (bs_levels b) = n" "bs_len b \<le> n" and sorted: "side_sorted desc (used b)"
    and rest: "drop (bs_len b) (bs_levels b) = replicate (n - bs_len b) default_level"
    using ok by (simp_all add: side_ok_def)
  have tl: "t < bs_len b" using n t by (simp add: used_def)
  have find: "find_from (\<lambda>i. lv_price (bs_levels b ! i) = p) 0 (bs_len b) = Some t"
    using find_from_used [of b "\<lambda>l. lv_price l = p"] n t by (simp add: Let_def)
  have at: "lv_price (used b ! t) = p" using nth_length_takeWhile t by fastforce
  have up: "upsert desc p q (used b) = take t (used b) @
      (if sint q \<le> 0 then [] else [(used b ! t)\<lparr>lv_qty := q\<rparr>]) @ drop (Suc t) (used b)"
    using upsert_present [OF _ at, of desc "take t (used b)" "drop (Suc t) (used b)" q] sorted
      id_take_nth_drop [OF t(2)] by simp
  show ?thesis
  proof (cases "sint q \<le> 0")
    case True
    then have "apply_side n desc b p q = remove_at n b t" using find assms(2) by (simp add: apply_side_def)
    then show ?thesis using used_remove_at [OF ok tl] up True n by (simp add: array_holds_def)
  next
    case False
    have lev: "bs_levels b ! t = used b ! t" using tl by (simp add: used_def)
    then have "apply_side n desc b p q = b\<lparr>bs_levels := (bs_levels b)[t := (used b ! t)\<lparr>lv_qty := q\<rparr>]\<rparr>"
      using False find assms(2) by (simp add: apply_side_def)
    moreover have "upsert desc p q (used b) = (used b)[t := (used b ! t)\<lparr>lv_qty := q\<rparr>]"
      using t(2) False by (simp add: up upd_conv_take_nth_drop)
    ultimately show ?thesis using used_update_qty [OF tl] n rest tl by (simp add: array_holds_def)
  qed
qed

lemma apply_side_absent:
  assumes ok: "side_ok n desc b" and "0 < n" and absent: "\<forall>l \<in> set (used b). lv_price l \<noteq> p"
  shows "array_holds n (apply_side n desc b p q) (take n (upsert desc p q (used b)))"
proof -
  have n: "length (bs_levels b) = n" "bs_len b \<le> n" using ok by (simp_all add: side_ok_def)
  have ulen: "length (used b) = bs_len b" using n by (simp add: used_def)
  have find: "find_from (\<lambda>i. lv_price (bs_levels b ! i) = p) 0 (bs_len b) = None"
    using find_from_used [of b "\<lambda>l. lv_price l = p"] n absent by (simp add: Let_def takeWhile_shorter)
  let ?s = "length (takeWhile (\<lambda>l. \<not> before desc p (lv_price l)) (used b))"
  have s_le: "?s \<le> bs_len b" using length_takeWhile_le ulen by metis
  have pos: "unwrap_or (bs_len b) (find_from (\<lambda>i. before desc p (lv_price (bs_levels b ! i))) 0 (bs_len b)) = ?s"
    using find_from_used [of b "\<lambda>l. before desc p (lv_price l)"] n ulen s_le by (simp add: Let_def unwrap_or_def)
  have up: "upsert desc p q (used b) = (if sint q \<le> 0 then used b
      else take ?s (used b) @ \<lparr>lv_price = p, lv_qty = q\<rparr> # drop ?s (used b))"
    using upsert_absent [OF absent, of desc q] by (simp add: takeWhile_eq_take [symmetric] dropWhile_eq_drop)
  consider (none) "sint q \<le> 0" | (out) "0 < sint q" "bs_len b = n" "?s = n"
    | (new) "0 < sint q" "\<not> (bs_len b = n \<and> ?s = n)" by fastforce
  then show ?thesis
  proof cases
    case none
    then show ?thesis using find up ok n ulen assms(2) by (simp add: apply_side_def side_ok_holds)
  next
    case out
    then have "apply_side n desc b p q = b" using find pos by (simp add: apply_side_def Let_def)
    then show ?thesis using out up ok ulen by (simp add: side_ok_holds)
  next
    case new
    note ins = insert_shift [OF ok s_le new(2), of "\<lparr>lv_price = p, lv_qty = q\<rparr>"]
    show ?thesis using ins new find pos up assms(2) unfolding array_holds_def apply_side_def by (auto simp: Let_def)
  qed
qed

lemma apply_side_used:
  assumes ok: "side_ok n desc b" and "0 < n"
  shows "array_holds n (apply_side n desc b p q) (take n (upsert desc p q (used b)))"
proof (cases "\<forall>l \<in> set (used b). lv_price l \<noteq> p")
  case True
  then show ?thesis using apply_side_absent [OF assms] by blast
next
  case False
  then have "length (takeWhile (\<lambda>l. lv_price l \<noteq> p) (used b)) < length (used b)"
    by (simp add: takeWhile_shorter)
  then have *: "array_holds n (apply_side n desc b p q) (upsert desc p q (used b))"
    using apply_side_present [OF assms refl] by blast
  then have "length (upsert desc p q (used b)) \<le> n"
    unfolding array_holds_def used_def [of "apply_side n desc b p q"] by (metis length_take min.bounded_iff order_refl)
  with * show ?thesis by simp
qed

lemma apply_side_ok:
  assumes "side_ok n desc b"
  shows "side_ok n desc (apply_side n desc b p q)"
proof (cases "n = 0")
  case True
  with assms show ?thesis by (simp add: apply_side_def)
next
  case False
  let ?b = "apply_side n desc b p q"
  from False have held: "array_holds n ?b (take n (upsert desc p q (used b)))"
    using apply_side_used [OF assms] by simp
  then have u: "used ?b = take n (upsert desc p q (used b))" by (simp add: array_holds_def)
  have "side_sorted desc (used ?b)"
    unfolding u using assms by (intro sorted_wrt_take upsert_sorted) (simp add: side_ok_holds)
  moreover have "0 < sint (lv_qty l)" if "l \<in> set (used ?b)" for l
    using that set_upsert [of l desc p q "used b"] assms by (auto simp: u side_ok_holds dest!: in_set_takeD)
  ultimately show ?thesis using held by (simp add: side_ok_holds array_holds_def)
qed

lemma empty_side_ok: "side_ok n desc (empty_side n)"
  by (simp add: side_ok_def empty_side_def used_def)

subsection \<open>The full book\<close>

text \<open>What the map of a side is after a list of updates: the reference the tree must agree with.\<close>

fun ref_levels :: "(i64 \<rightharpoonup> i64) \<Rightarrow> (i64 \<times> i64) list \<Rightarrow> (i64 \<rightharpoonup> i64)" where
  "ref_levels m [] = m"
| "ref_levels m ((p, q) # us) = ref_levels (m(p := (if sint q \<le> 0 then None else Some q))) us"

abbreviation keys_sorted :: "(i64 \<times> i64) list \<Rightarrow> bool" where
  "keys_sorted \<equiv> sorted_wrt (\<lambda>a c. sint (fst a) < sint (fst c))"

lemma btree_insert_set: "set (btree_insert m p q) \<subseteq> insert (p, q) (set m)"
  by (induction m p q rule: btree_insert.induct) auto

lemma btree_insert_sorted: "keys_sorted m \<Longrightarrow> keys_sorted (btree_insert m p q)"
proof (induction m p q rule: btree_insert.induct)
  case (1 p q)
  then show ?case by simp
next
  case (2 p' q' m p q)
  show ?case
  proof (cases "p = p' \<or> sint p < sint p'")
    case True
    with 2(2) show ?thesis by fastforce
  next
    case False
    then have lt: "sint p' < sint p" using signed_word_eqI [of p p'] by (metis linorder_cases)
    have "sint p' < sint (fst e)" if "e \<in> set (btree_insert m p q)" for e
      using that btree_insert_set [of m p q] lt 2(2) by auto
    with False 2 show ?thesis by simp
  qed
qed

lemma map_of_btree_insert: "keys_sorted m \<Longrightarrow> map_of (btree_insert m p q) = (map_of m)(p \<mapsto> q)"
  by (induction m p q rule: btree_insert.induct) (auto simp: fun_eq_iff)

lemma map_of_btree_remove: "map_of (btree_remove m p) = (map_of m)(p := None)"
  by (induction m) (auto simp: btree_remove_def fun_eq_iff)

lemma btree_remove_sorted: "keys_sorted m \<Longrightarrow> keys_sorted (btree_remove m p)"
  by (simp add: btree_remove_def sorted_wrt_filter)

lemma apply_levels_ref:
  "keys_sorted m \<Longrightarrow> keys_sorted (apply_levels m us) \<and> map_of (apply_levels m us) = ref_levels (map_of m) us"
proof (induction us arbitrary: m)
  case Nil
  then show ?case by (simp add: apply_levels_def)
next
  case (Cons u us)
  obtain p q where u: "u = (p, q)" by (cases u)
  let ?m = "if sint q \<le> 0 then btree_remove m p else btree_insert m p q"
  have "keys_sorted ?m" "map_of ?m = (map_of m)(p := (if sint q \<le> 0 then None else Some q))"
    using Cons.prems by (simp_all add: btree_insert_sorted btree_remove_sorted map_of_btree_insert map_of_btree_remove)
  moreover have "apply_levels m (u # us) = apply_levels ?m us" by (simp add: apply_levels_def u)
  ultimately show ?case using Cons.IH [of ?m] unfolding u ref_levels.simps by metis
qed

lemma fill_side_used:
  assumes "idx = bs_len b" and "bs_len b + length es \<le> length (bs_levels b)"
  shows "used (fill_side b idx es) = used b @ map (\<lambda>(p, q). \<lparr>lv_price = p, lv_qty = q\<rparr>) es"
  using assms
proof (induction es arbitrary: b idx)
  case Nil
  then show ?case by simp
next
  case (Cons e es)
  obtain p q where e: "e = (p, q)" by (cases e)
  let ?b = "\<lparr>bs_levels = (bs_levels b)[idx := \<lparr>lv_price = p, lv_qty = q\<rparr>], bs_len = bs_len b + 1\<rparr>"
  have "used ?b = used b @ [\<lparr>lv_price = p, lv_qty = q\<rparr>]"
    using Cons.prems by (simp add: used_def take_Suc_conv_app_nth)
  moreover have "used (fill_side ?b (idx + 1) es) = used ?b @ map (\<lambda>(p, q). \<lparr>lv_price = p, lv_qty = q\<rparr>) es"
    using Cons.prems by (intro Cons.IH) simp_all
  ultimately show ?case by (simp add: e)
qed

subsection \<open>Runs of the full book\<close>

datatype book_op =
    BookSnapshot "(i64 \<times> i64) list" "(i64 \<times> i64) list" u64 i64
  | BookDiff "(i64 \<times> i64) list" "(i64 \<times> i64) list" u64 i64

fun run_book :: "nat \<Rightarrow> correctness_book \<Rightarrow> book_op list \<Rightarrow> correctness_book" where
  "run_book n c [] = c"
| "run_book n c (BookSnapshot bids asks u ns # ops) = run_book n (apply_book_snapshot n c bids asks u ns) ops"
| "run_book n c (BookDiff bids asks u ns # ops) = run_book n (apply_diff n c bids asks u ns) ops"

fun ref_book :: "(i64 \<rightharpoonup> i64) \<times> (i64 \<rightharpoonup> i64) \<Rightarrow> book_op list \<Rightarrow> (i64 \<rightharpoonup> i64) \<times> (i64 \<rightharpoonup> i64)" where
  "ref_book m [] = m"
| "ref_book (mb, ma) (BookSnapshot bids asks u ns # ops) =
     ref_book (ref_levels Map.empty bids, ref_levels Map.empty asks) ops"
| "ref_book (mb, ma) (BookDiff bids asks u ns # ops) = ref_book (ref_levels mb bids, ref_levels ma asks) ops"

text \<open>The best \<open>n\<close> entries of a map, best first: all of them when there are fewer.\<close>

definition best_levels :: "nat \<Rightarrow> bool \<Rightarrow> (i64 \<rightharpoonup> i64) \<Rightarrow> level list \<Rightarrow> bool" where
  "best_levels n desc m ls \<longleftrightarrow>
     length ls \<le> n \<and> side_sorted desc ls \<and> (\<forall>l \<in> set ls. m (lv_price l) = Some (lv_qty l)) \<and>
     (\<forall>p \<in> dom m. p \<notin> lv_price ` set ls \<longrightarrow> length ls = n \<and> (\<forall>l \<in> set ls. before desc (lv_price l) p))"

abbreviation level_of :: "i64 \<times> i64 \<Rightarrow> level" where
  "level_of e \<equiv> (case e of (p, q) \<Rightarrow> \<lparr>lv_price = p, lv_qty = q\<rparr>)"

lemma best_levels_take:
  assumes "sorted_wrt (\<lambda>a c. before desc (fst a) (fst c)) es"
  shows "best_levels n desc (map_of es) (map level_of (take n es))"
proof -
  let ?ls = "map level_of (take n es)"
  have "distinct (map fst es)"
    using assms before_irrefl by (induction es) fastforce+
  then have "map_of es (lv_price l) = Some (lv_qty l)" if "l \<in> set ?ls" for l
    using that by (auto dest!: in_set_takeD simp: map_of_eq_Some_iff)
  moreover have "side_sorted desc ?ls"
    using sorted_wrt_take [OF assms, of n] by (simp add: sorted_wrt_map case_prod_beta)
  moreover have "length ?ls = n \<and> (\<forall>l \<in> set ?ls. before desc (lv_price l) p)"
    if p: "p \<in> dom (map_of es)" "p \<notin> lv_price ` set ?ls" for p
  proof -
    obtain q where "(p, q) \<in> set es" using p(1) by (auto dest: map_of_SomeD)
    moreover have "(p, q) \<notin> set (take n es)" using p(2) by force
    moreover have "set es = set (take n es) \<union> set (drop n es)" by (metis append_take_drop_id set_append)
    ultimately have late: "(p, q) \<in> set (drop n es)" by blast
    then have "n < length es" by (metis drop_all empty_iff empty_set linorder_not_le)
    moreover have "sorted_wrt (\<lambda>a c. before desc (fst a) (fst c)) (take n es @ drop n es)" using assms by simp
    then have "before desc (fst e) p" if "e \<in> set (take n es)" for e
      using that late unfolding sorted_wrt_append by (metis fst_conv)
    ultimately show ?thesis by (auto split: prod.splits)
  qed
  ultimately show ?thesis by (simp add: best_levels_def)
qed

lemma map_of_rev_sorted: "keys_sorted es \<Longrightarrow> map_of (rev es) = map_of es"
proof -
  assume "keys_sorted es"
  then have "distinct (map fst es)" by (induction es) fastforce+
  then have "map_of (rev es) k = Some v \<longleftrightarrow> map_of es k = Some v" for k v
    by (simp add: map_of_eq_Some_iff rev_map [symmetric])
  then show ?thesis by (intro ext) (metis not_None_eq)
qed

definition book_sound :: "nat \<Rightarrow> (i64 \<rightharpoonup> i64) \<times> (i64 \<rightharpoonup> i64) \<Rightarrow> correctness_book \<Rightarrow> bool" where
  "book_sound n m c \<longleftrightarrow>
     keys_sorted (cb_bids c) \<and> keys_sorted (cb_asks c) \<and> map_of (cb_bids c) = fst m \<and> map_of (cb_asks c) = snd m \<and>
     used (tb_bids (cb_top c)) = map level_of (take n (rev (cb_bids c))) \<and>
     used (tb_asks (cb_top c)) = map level_of (take n (cb_asks c))"

lemma refresh_top_sel [simp]:
  "cb_bids (refresh_top n c u ns) = cb_bids c" "cb_asks (refresh_top n c u ns) = cb_asks c"
  "used (tb_bids (cb_top (refresh_top n c u ns))) = map level_of (take n (rev (cb_bids c)))"
  "used (tb_asks (cb_top (refresh_top n c u ns))) = map level_of (take n (cb_asks c))"
  by (simp_all add: refresh_top_def fill_side_used empty_side_def) (simp_all add: used_def)

lemma snapshot_sound:
  "book_sound n (ref_levels Map.empty bids, ref_levels Map.empty asks) (apply_book_snapshot n c bids asks u ns)"
  using apply_levels_ref [of "[]" bids] apply_levels_ref [of "[]" asks]
  by (simp add: book_sound_def apply_book_snapshot_def)

lemma diff_sound:
  assumes "book_sound n (mb, ma) c"
  shows "book_sound n (ref_levels mb bids, ref_levels ma asks) (apply_diff n c bids asks u ns)"
  using assms apply_levels_ref [of "cb_bids c" bids] apply_levels_ref [of "cb_asks c" asks]
  by (simp add: book_sound_def apply_diff_def)

lemma run_book_sound: "book_sound n m c \<Longrightarrow> book_sound n (ref_book m ops) (run_book n c ops)"
proof (induction ops arbitrary: m c)
  case Nil
  then show ?case by simp
next
  case (Cons op ops)
  obtain mb ma where m: "m = (mb, ma)" by (cases m)
  show ?case
  proof (cases op)
    case (BookSnapshot bids asks u ns)
    then show ?thesis using Cons.IH [OF snapshot_sound] by (simp add: m)
  next
    case (BookDiff bids asks u ns)
    then show ?thesis using Cons.IH [OF diff_sound] Cons.prems by (simp add: m)
  qed
qed

lemma book_sound_best:
  assumes "book_sound n m c"
  shows "best_levels n True (fst m) (used (tb_bids (cb_top c)))"
    and "best_levels n False (snd m) (used (tb_asks (cb_top c)))"
proof -
  have "sorted_wrt (\<lambda>a c. before True (fst a) (fst c)) (rev (cb_bids c))"
    using assms by (simp add: book_sound_def sorted_wrt_rev before_def)
  from best_levels_take [OF this, of n] show "best_levels n True (fst m) (used (tb_bids (cb_top c)))"
    using assms by (simp add: book_sound_def map_of_rev_sorted)
  have "sorted_wrt (\<lambda>a c. before False (fst a) (fst c)) (cb_asks c)"
    using assms by (simp add: book_sound_def before_def)
  from best_levels_take [OF this, of n] show "best_levels n False (snd m) (used (tb_asks (cb_top c)))"
    using assms by (simp add: book_sound_def)
qed

subsection \<open>Properties\<close>

text \<open>
  C33. The in-place array agrees with the ordered list it stands for: after any sequence of level updates on
  an empty side of capacity \<open>n > 0\<close>, the levels in use are those of the reference that updates, inserts or
  deletes each price in an ordered list and keeps the first \<open>n\<close>; they are strictly ordered from the best
  price, have positive quantities, and every unused slot is the default level.
\<close>

theorem top_side_equivalent:
  assumes "0 < n"
  shows "side_ok n desc (foldl (\<lambda>b (p, q). apply_side n desc b p q) (empty_side n) us) \<and>
    used (foldl (\<lambda>b (p, q). apply_side n desc b p q) (empty_side n) us) =
      foldl (\<lambda>ls (p, q). take n (upsert desc p q ls)) [] us"
proof (induction us rule: rev_induct)
  case Nil
  then show ?case using empty_side_ok [of n desc] by (simp add: used_def empty_side_def)
next
  case (snoc u us)
  obtain p q where "u = (p, q)" by (cases u)
  then show ?case
    using snoc.IH apply_side_ok apply_side_used [OF _ assms] by (auto simp: array_holds_def)
qed

text \<open>A full side of two bids: a better price pushes the worst out, a deletion moves the rest up.\<close>

theorem top_side_equivalent_witness:
  "used (foldl (\<lambda>b (p, q). apply_side 2 True b p q) (empty_side 2) [(100, 5), (99, 4), (101, 3), (100, 0)]) =
     [\<lparr>lv_price = 101, lv_qty = 3\<rparr>]"
  using top_side_equivalent [of 2 True "[(100, 5), (99, 4), (101, 3), (100, 0)]"]
  by (simp add: before_def)

text \<open>
  C32. The full book is exact: after any sequence of snapshots and diffs, its published view holds on each
  side the best \<open>n\<close> prices of the book that the raw updates describe, best first and with their latest
  quantities, and all of them when the side has fewer; no level outside the view was forgotten.
\<close>

theorem correctness_book_exact:
  "best_levels n True (fst (ref_book (Map.empty, Map.empty) ops))
     (used (tb_bids (cb_top (run_book n (correctness_new n) ops)))) \<and>
   best_levels n False (snd (ref_book (Map.empty, Map.empty) ops))
     (used (tb_asks (cb_top (run_book n (correctness_new n) ops))))"
proof -
  have "book_sound n (Map.empty, Map.empty) (correctness_new n)"
    by (simp add: book_sound_def correctness_new_def top_new_def used_def empty_side_def)
  from book_sound_best [OF run_book_sound [OF this]] show ?thesis by simp
qed

end
