(* ===== verification/Market_Features.thy ===== *)
theory Market_Features
  imports Depth_Book "HOL-Library.Signed_Division"
begin

text \<open>
  The features of the depth lane and its signal rules (\<open>market-core/binance-depth/src/features.rs\<close> and
  \<open>signal.rs\<close>) on signed 64-bit fixed-point numbers. Sums, differences and products wrap; a division
  panics on a zero divisor and on the one quotient that does not fit.
\<close>

subsection \<open>Signed machine arithmetic\<close>

definition checked_sdiv :: "'a::len word \<Rightarrow> 'a word \<Rightarrow> 'a word option" where
  "checked_sdiv a b =
     (if b = 0 \<or> sint a = - (2 ^ (LENGTH('a) - 1)) \<and> b = - 1 then None
      else Some (word_of_int (sint a sdiv sint b)))"

definition i64_saturating_sub :: "i64 \<Rightarrow> i64 \<Rightarrow> i64" where
  "i64_saturating_sub a b = word_of_int (max (- (2 ^ 63)) (min (2 ^ 63 - 1) (sint a - sint b)))"

definition i64_max :: "i64 \<Rightarrow> i64 \<Rightarrow> i64" where
  "i64_max a b = (if sint a \<le> sint b then b else a)"

definition i64_min :: "i64 \<Rightarrow> i64 \<Rightarrow> i64" where
  "i64_min a b = (if sint b < sint a then b else a)"

definition i64_abs :: "i64 \<Rightarrow> i64" where
  "i64_abs a = (if sint a < 0 then - a else a)"

subsection \<open>Features\<close>

record feature_snapshot =
  fs_symbol_id :: u32
  fs_mid :: i64
  fs_spread :: i64
  fs_obi1_fp :: i64
  fs_obi3_fp :: i64
  fs_microgap :: i64
  fs_flow_1s :: i64
  fs_book_staleness_ns :: i64
  fs_ts_ns :: i64

record feature_view =
  fv_snapshot :: feature_snapshot
  fv_book_update_id :: u64

definition imbalance_fp :: "i64 \<Rightarrow> i64 \<Rightarrow> i64 option" where
  "imbalance_fp bid_qty ask_qty =
     (let total = bid_qty + ask_qty in
      if total = 0 then Some 0
      else checked_sdiv ((bid_qty - ask_qty) * 1000000) total)"

definition microprice :: "i64 \<Rightarrow> i64 \<Rightarrow> i64 \<Rightarrow> i64 \<Rightarrow> i64 option" where
  "microprice bid_px bid_qty ask_px ask_qty =
     (let bq = (scast bid_qty :: 128 word);
          aq = (scast ask_qty :: 128 word);
          total = bq + aq
      in if total = 0 then checked_sdiv (bid_px + ask_px) 2
         else map_option ucast (checked_sdiv (scast ask_px * bq + scast bid_px * aq) total))"

text \<open>The loop over the first levels adds the quantities of the levels in use.\<close>

fun sum_qty :: "book_side \<Rightarrow> nat list \<Rightarrow> i64 \<Rightarrow> i64" where
  "sum_qty b [] acc = acc"
| "sum_qty b (i # is) acc = sum_qty b is (if i < bs_len b then acc + lv_qty (bs_levels b ! i) else acc)"

definition top_n_imbalance :: "nat \<Rightarrow> nat \<Rightarrow> top_book \<Rightarrow> i64 option" where
  "top_n_imbalance n k t =
     (let depth = min k n
      in imbalance_fp (sum_qty (tb_bids t) [0 ..< depth] 0) (sum_qty (tb_asks t) [0 ..< depth] 0))"

definition compute_features ::
  "nat \<Rightarrow> u32 \<Rightarrow> top_book \<Rightarrow> i64 \<Rightarrow> i64 \<Rightarrow> feature_view option option" where
  "compute_features n sid t flow ts =
     (case (top_best (tb_bids t), top_best (tb_asks t)) of
        (Some b, Some a) \<Rightarrow>
          do {
            mid \<leftarrow> checked_sdiv (lv_price b + lv_price a) 2;
            let spread = lv_price a - lv_price b;
            micro \<leftarrow> microprice (lv_price b) (lv_qty b) (lv_price a) (lv_qty a);
            obi1 \<leftarrow> imbalance_fp (lv_qty b) (lv_qty a);
            obi3 \<leftarrow> top_n_imbalance n 3 t;
            Some (Some \<lparr>fv_snapshot = \<lparr>fs_symbol_id = sid, fs_mid = mid, fs_spread = spread, fs_obi1_fp = obi1,
                fs_obi3_fp = obi3, fs_microgap = micro - mid, fs_flow_1s = flow,
                fs_book_staleness_ns = i64_max (i64_saturating_sub ts (tb_last_update_ns t)) 0, fs_ts_ns = ts\<rparr>,
              fv_book_update_id = tb_last_update_id t\<rparr>)
          }
      | _ \<Rightarrow> Some None)"

subsection \<open>Signals\<close>

datatype signal_side = Long | Short

record signal =
  sg_symbol_id :: u32
  sg_side :: signal_side
  sg_confidence_fp :: i64
  sg_edge_bps :: i32
  sg_ts_ns :: i64
  sg_expire_ts_ns :: i64

record signal_rules =
  min_obi1_fp :: i64
  min_obi3_fp :: i64
  max_spread :: i64
  max_book_staleness_ns :: i64
  ttl_ns :: i64

definition default_signal_rules :: signal_rules where
  "default_signal_rules = \<lparr>min_obi1_fp = 250000, min_obi3_fp = 150000, max_spread = 2 ^ 63 - 1,
     max_book_staleness_ns = 2 ^ 63 - 1, ttl_ns = 50000000\<rparr>"

definition evaluate :: "signal_rules \<Rightarrow> feature_snapshot \<Rightarrow> signal option" where
  "evaluate r f =
     (if sint (fs_spread f) \<le> 0 \<or> sint (max_spread r) < sint (fs_spread f) then None
      else if sint (max_book_staleness_ns r) < sint (fs_book_staleness_ns f) then None
      else do {
        side \<leftarrow> (if sint (min_obi1_fp r) \<le> sint (fs_obi1_fp f) \<and> sint (min_obi3_fp r) \<le> sint (fs_obi3_fp f) \<and>
                    0 < sint (fs_microgap f)
                 then Some Long
                 else if sint (fs_obi1_fp f) \<le> sint (- min_obi1_fp r) \<and> sint (fs_obi3_fp f) \<le> sint (- min_obi3_fp r) \<and>
                    sint (fs_microgap f) < 0
                 then Some Short
                 else None);
        let confidence = i64_min (i64_abs (fs_obi1_fp f)) 1000000;
        Some \<lparr>sg_symbol_id = fs_symbol_id f, sg_side = side, sg_confidence_fp = confidence, sg_edge_bps = 0,
          sg_ts_ns = fs_ts_ns f, sg_expire_ts_ns = fs_ts_ns f + ttl_ns r\<rparr>
      })"

subsection \<open>Arithmetic in range\<close>

lemma sint_arith:
  fixes a b :: i64
  shows "- (2 ^ 63) \<le> sint a + sint b \<Longrightarrow> sint a + sint b < 2 ^ 63 \<Longrightarrow> sint (a + b) = sint a + sint b"
    and "- (2 ^ 63) \<le> sint a - sint b \<Longrightarrow> sint a - sint b < 2 ^ 63 \<Longrightarrow> sint (a - b) = sint a - sint b"
    and "- (2 ^ 63) \<le> sint a * sint b \<Longrightarrow> sint a * sint b < 2 ^ 63 \<Longrightarrow> sint (a * b) = sint a * sint b"
    and "- (2 ^ 63) < sint a \<Longrightarrow> sint (- a) = - sint a"
proof -
  have w: "a + b = word_of_int (sint a + sint b)" "a - b = word_of_int (sint a - sint b)"
      "a * b = word_of_int (sint a * sint b)" "- a = word_of_int (- sint a)"
    by simp_all
  have r: "- (2 ^ 63) \<le> sint a" "sint a < 2 ^ 63" using sint_ge [of a] sint_lt [of a] by simp_all
  show "- (2 ^ 63) \<le> sint a + sint b \<Longrightarrow> sint a + sint b < 2 ^ 63 \<Longrightarrow> sint (a + b) = sint a + sint b"
    unfolding w(1) by (rule sint_fits)
  show "- (2 ^ 63) \<le> sint a - sint b \<Longrightarrow> sint a - sint b < 2 ^ 63 \<Longrightarrow> sint (a - b) = sint a - sint b"
    unfolding w(2) by (rule sint_fits)
  show "- (2 ^ 63) \<le> sint a * sint b \<Longrightarrow> sint a * sint b < 2 ^ 63 \<Longrightarrow> sint (a * b) = sint a * sint b"
    unfolding w(3) by (rule sint_fits)
  show "- (2 ^ 63) < sint a \<Longrightarrow> sint (- a) = - sint a"
    unfolding w(4) using r by (intro sint_fits) linarith+
qed

lemma sdiv_pos:
  fixes x y :: int
  assumes "0 < y"
  shows "0 \<le> x \<Longrightarrow> x sdiv y = x div y" and "x \<le> 0 \<Longrightarrow> x sdiv y = - ((- x) div y)"
  using assms by (auto simp: signed_divide_int_def sgn_if)

lemma sdiv_bounded:
  fixes x y :: int
  assumes "0 \<le> y" and "\<bar>x\<bar> \<le> k * y" and "0 \<le> k"
  shows "\<bar>x sdiv y\<bar> \<le> k"
proof (cases "y = 0")
  case False
  then have y: "0 < y" using assms(1) by simp
  have "\<bar>x sdiv y\<bar> = \<bar>x\<bar> div y" using y pos_imp_zdiv_nonneg_iff [OF y, of "\<bar>x\<bar>"] by (simp add: signed_divide_int_def abs_mult sgn_if)
  also have "\<dots> \<le> (k * y) div y" using assms(2) y by (rule zdiv_mono1)
  finally show ?thesis using y by simp
qed (use assms in \<open>simp add: signed_divide_int_def\<close>)

text \<open>A quotient beyond a positive threshold puts the dividend beyond the scaled threshold.\<close>

lemma sdiv_threshold:
  fixes x y m :: int
  assumes "0 < y" and "0 < m"
  shows "m \<le> x sdiv y \<Longrightarrow> m * y \<le> x" and "x sdiv y \<le> - m \<Longrightarrow> x \<le> - (m * y)"
proof -
  have pos: "m * y \<le> z" if "m \<le> z div y" for z
  proof -
    have "m * y \<le> (z div y) * y" using that assms(1) by simp
    also have "\<dots> \<le> z" using pos_mod_sign [OF assms(1), of z] div_mult_mod_eq [of z y] by linarith
    finally show ?thesis .
  qed
  show "m \<le> x sdiv y \<Longrightarrow> m * y \<le> x"
  proof -
    assume a: "m \<le> x sdiv y"
    have "0 \<le> x"
    proof (rule ccontr)
      assume "\<not> 0 \<le> x"
      then have "x sdiv y \<le> 0" using assms(1) by (simp add: sdiv_pos(2) pos_imp_zdiv_nonneg_iff)
      then show False using a assms(2) by simp
    qed
    then show ?thesis using a pos [of x] sdiv_pos(1) [OF assms(1)] by simp
  qed
  show "x sdiv y \<le> - m \<Longrightarrow> x \<le> - (m * y)"
  proof -
    assume a: "x sdiv y \<le> - m"
    have "x \<le> 0"
    proof (rule ccontr)
      assume "\<not> x \<le> 0"
      then have "0 \<le> x sdiv y" using assms(1) by (simp add: sdiv_pos(1) pos_imp_zdiv_nonneg_iff)
      then show False using a assms(2) by simp
    qed
    then show ?thesis using a pos [of "- x"] sdiv_pos(2) [OF assms(1)] by simp
  qed
qed

lemma sint_checked_sdiv:
  assumes "checked_sdiv a b = Some (c :: i64)" and "\<bar>sint a sdiv sint b\<bar> < 2 ^ 63"
  shows "sint c = sint a sdiv sint b"
proof -
  have "c = word_of_int (sint a sdiv sint b)" using assms(1) by (simp add: checked_sdiv_def split: if_splits)
  then show ?thesis using assms(2) by (simp only: abs_less_iff, intro sint_fits) linarith+
qed

text \<open>The imbalance is exact as long as the scaled difference fits in 64 bits.\<close>

lemma imbalance_exact:
  assumes "0 \<le> sint b" and "0 \<le> sint a" and "sint b + sint a \<le> 9223372036854"
  shows "\<exists>v. imbalance_fp b a = Some v \<and> sint v = ((sint b - sint a) * 1000000) sdiv (sint b + sint a) \<and>
    \<bar>sint v\<bar> \<le> 1000000"
proof -
  let ?x = "(sint b - sint a) * 1000000"
  have t: "sint (b + a) = sint b + sint a" using assms by (intro sint_arith(1)) simp_all
  have "sint (b - a) = sint b - sint a" using assms by (intro sint_arith(2)) simp_all
  then have x: "sint ((b - a) * 1000000) = ?x"
    using assms sint_arith(3) [of "b - a" 1000000] by simp
  have bd: "\<bar>?x sdiv (sint b + sint a)\<bar> \<le> 1000000" using assms by (intro sdiv_bounded) (auto simp: abs_if)
  show ?thesis
  proof (cases "b + a = 0")
    case True
    then have "sint b + sint a = 0" using t by simp
    then show ?thesis using True by (simp add: imbalance_fp_def signed_divide_int_def)
  next
    case False
    have "sint (b + a) \<noteq> - 1" using t assms by linarith
    then have "b + a \<noteq> - 1" by auto
    then obtain v where v: "imbalance_fp b a = Some v" "checked_sdiv ((b - a) * 1000000) (b + a) = Some v"
      using False by (simp add: imbalance_fp_def checked_sdiv_def)
    have "sint v = ?x sdiv (sint b + sint a)"
      using sint_checked_sdiv [OF v(2)] le_less_trans [OF bd, of "2 ^ 63"] unfolding x t by simp
    then show ?thesis using v(1) bd by simp
  qed
qed

text \<open>Beyond that bound the product wraps: a side with nothing against 9.3 million units reads as negative.\<close>

lemma imbalance_fp_wraps: "\<exists>v. imbalance_fp 9300000000000 0 = Some v \<and> sint v < 0"
  by (intro exI [of _ "the (imbalance_fp 9300000000000 0)"]) code_simp

lemma confidence_exact:
  assumes "\<bar>sint v\<bar> \<le> 1000000"
  shows "sint (i64_min (i64_abs v) 1000000) = \<bar>sint v\<bar>"
proof -
  have "sint (- v) = - sint v" using assms by (intro sint_arith(4)) simp
  then have "sint (i64_abs v) = \<bar>sint v\<bar>" by (simp add: i64_abs_def)
  then show ?thesis using assms by (auto simp: i64_min_def)
qed

text \<open>
  A signal has the direction of the book it was computed from. When the best prices are not negative and
  the two best quantities add up to at most 9223372036854 (what the scaled difference can hold), then with
  positive thresholds a signal is given only for an uncrossed market; a long signal only when the bid
  quantity exceeds the ask quantity by at least the threshold share of their sum, a short signal only in
  the mirrored case; its confidence is the size of the imbalance, between the threshold and one, and it
  carries the time of the features.
\<close>

theorem signal_direction_sound:
  assumes "compute_features n sid t flow ts = Some (Some v)" and "evaluate r (fv_snapshot v) = Some s"
    and "top_best (tb_bids t) = Some b" and "top_best (tb_asks t) = Some a"
    and "0 \<le> sint (lv_price b)" and "0 \<le> sint (lv_price a)" and "0 < sint (lv_qty b)" and "0 < sint (lv_qty a)"
    and "sint (lv_qty b) + sint (lv_qty a) \<le> 9223372036854" and "0 < sint (min_obi1_fp r)"
  shows "sint (lv_price b) < sint (lv_price a) \<and>
    (let diff = (sint (lv_qty b) - sint (lv_qty a)) * 1000000;
         threshold = sint (min_obi1_fp r) * (sint (lv_qty b) + sint (lv_qty a))
     in case sg_side s of Long \<Rightarrow> threshold \<le> diff | Short \<Rightarrow> diff \<le> - threshold) \<and>
    sint (min_obi1_fp r) \<le> sint (sg_confidence_fp s) \<and> sint (sg_confidence_fp s) \<le> 1000000 \<and>
    sg_ts_ns s = ts \<and> sg_expire_ts_ns s = ts + ttl_ns r"
proof -
  let ?f = "fv_snapshot v" and ?x = "(sint (lv_qty b) - sint (lv_qty a)) * 1000000"
  let ?y = "sint (lv_qty b) + sint (lv_qty a)" and ?m = "sint (min_obi1_fp r)"
  have f: "fs_spread ?f = lv_price a - lv_price b" "imbalance_fp (lv_qty b) (lv_qty a) = Some (fs_obi1_fp ?f)"
      "fs_ts_ns ?f = ts"
    using assms(1,3,4) by (auto simp: compute_features_def bind_eq_Some_conv Let_def)
  have "sint (lv_price a) < 2 ^ 63" "sint (lv_price b) < 2 ^ 63"
    using sint_lt [of "lv_price a"] sint_lt [of "lv_price b"] by simp_all
  then have "sint (fs_spread ?f) = sint (lv_price a) - sint (lv_price b)"
    unfolding f(1) using assms(5,6) by (intro sint_arith(2)) simp_all
  then have spread: "sint (lv_price b) < sint (lv_price a)" using assms(2) by (simp add: evaluate_def split: if_splits)
  have obi: "sint (fs_obi1_fp ?f) = ?x sdiv ?y" "\<bar>sint (fs_obi1_fp ?f)\<bar> \<le> 1000000"
    using imbalance_exact [of "lv_qty b" "lv_qty a"] assms(7,8,9) f(2) by auto
  have neg: "sint (- min_obi1_fp r) = - ?m" using assms(10) by (intro sint_arith(4)) simp
  have s: "sg_side s = Long \<and> ?m \<le> ?x sdiv ?y \<or> sg_side s = Short \<and> ?x sdiv ?y \<le> - ?m"
      "sg_confidence_fp s = i64_min (i64_abs (fs_obi1_fp ?f)) 1000000" "sg_ts_ns s = ts" "sg_expire_ts_ns s = ts + ttl_ns r"
    using assms(2) f(3) neg obi(1) by (auto simp: evaluate_def bind_eq_Some_conv split: if_splits)
  have y: "0 < ?y" using assms(7,8) by simp
  have conf: "sint (sg_confidence_fp s) = \<bar>?x sdiv ?y\<bar>" using confidence_exact [OF obi(2)] s(2) obi(1) by simp
  have above: "?m \<le> sint (sg_confidence_fp s)" using s(1) unfolding conf by linarith
  from s(1) show ?thesis
  proof
    assume l: "sg_side s = Long \<and> ?m \<le> ?x sdiv ?y"
    then show ?thesis using spread above conf s(3,4) obi sdiv_threshold(1) [OF y assms(10), of ?x] by simp
  next
    assume l: "sg_side s = Short \<and> ?x sdiv ?y \<le> - ?m"
    then show ?thesis using spread above conf s(3,4) obi sdiv_threshold(2) [OF y assms(10), of ?x] by simp
  qed
qed

text \<open>Three against one at prices 100 and 104, under the default rules.\<close>

definition sample_top :: top_book where
  "sample_top = top_apply_update 3 (top_new 3) [(100, 150)] [(104, 50)] 10 1000"

definition sample_view :: feature_view where
  "sample_view = the (the (compute_features 3 1 sample_top 0 2000))"

definition sample_signal :: signal where
  "sample_signal = the (evaluate default_signal_rules (fv_snapshot sample_view))"

theorem signal_direction_sound_witness:
  "sg_side sample_signal = Long \<and> 250000 \<le> sint (sg_confidence_fp sample_signal) \<and>
   sint (sg_confidence_fp sample_signal) \<le> 1000000 \<and> sg_expire_ts_ns sample_signal = 50002000"
proof -
  have "compute_features 3 1 sample_top 0 2000 = Some (Some sample_view)"
    "evaluate default_signal_rules (fv_snapshot sample_view) = Some sample_signal"
    "top_best (tb_bids sample_top) = Some \<lparr>lv_price = 100, lv_qty = 150\<rparr>"
    "top_best (tb_asks sample_top) = Some \<lparr>lv_price = 104, lv_qty = 50\<rparr>"
    by code_simp+
  from signal_direction_sound [OF this] have
    "sint (min_obi1_fp default_signal_rules) \<le> sint (sg_confidence_fp sample_signal)"
    "sint (sg_confidence_fp sample_signal) \<le> 1000000"
    "sg_expire_ts_ns sample_signal = 2000 + ttl_ns default_signal_rules"
    by (simp_all add: default_signal_rules_def)
  moreover have "sg_side sample_signal = Long" by code_simp
  ultimately show ?thesis by (simp add: default_signal_rules_def)
qed

end
