(* ===== verification/Book_Sync.thy ===== *)
theory Book_Sync
  imports Prelude
begin

text \<open>
  The bridge between a depth snapshot and the stream of diffs (\<open>market-core/binance-depth/src/book_sync.rs\<close>).
  A diff covers the update ids from its first to its final one; the book may be trusted only if the diffs
  applied after the snapshot cover every id since. Ids are unsigned 64-bit integers and the successor of the
  last one wraps, so the laws ask that the largest id is never used.
\<close>

subsection \<open>State\<close>

record update_meta =
  first_update_id :: u64
  final_update_id :: u64

definition update_valid :: "update_meta \<Rightarrow> bool" where
  "update_valid u \<longleftrightarrow> first_update_id u \<le> final_update_id u"

datatype sequence_decision = Apply | IgnoreStale | Gap u64 u64 | InvalidRange

datatype book_sync_state =
  Disconnected | BufferingDiffs | FetchingSnapshot | ApplyingBuffered | Live | RebuildRequired

record buffered_decision =
  bd_index :: nat
  bd_update :: update_meta
  bd_decision :: sequence_decision

record buffered_apply_result =
  ba_applied :: nat
  ba_ignored_stale :: nat
  ba_gap :: "(u64 \<times> u64) option"
  ba_decisions :: "buffered_decision list"

definition default_apply_result :: buffered_apply_result where
  "default_apply_result = \<lparr>ba_applied = 0, ba_ignored_stale = 0, ba_gap = None, ba_decisions = []\<rparr>"

record book_sync =
  by_state :: book_sync_state
  by_last_update_id :: u64
  by_buffered :: "update_meta list"

definition sync_new :: book_sync where
  "sync_new = \<lparr>by_state = Disconnected, by_last_update_id = 0, by_buffered = []\<rparr>"

subsection \<open>Operations\<close>

definition start_buffering :: "book_sync \<Rightarrow> book_sync" where
  "start_buffering s = s\<lparr>by_state := BufferingDiffs, by_last_update_id := 0, by_buffered := []\<rparr>"

definition start_snapshot_fetch :: "book_sync \<Rightarrow> book_sync" where
  "start_snapshot_fetch s =
     (if by_state s \<noteq> BufferingDiffs then start_buffering s else s)\<lparr>by_state := FetchingSnapshot\<rparr>"

definition load_snapshot_for_replay :: "book_sync \<Rightarrow> u64 \<Rightarrow> book_sync" where
  "load_snapshot_for_replay s snap = s\<lparr>by_state := Live, by_last_update_id := snap, by_buffered := []\<rparr>"

definition buffer_diff :: "book_sync \<Rightarrow> update_meta \<Rightarrow> book_sync" where
  "buffer_diff s u =
     (if by_state s \<in> {BufferingDiffs, FetchingSnapshot} then s\<lparr>by_buffered := by_buffered s @ [u]\<rparr> else s)"

definition bridges_snapshot :: "u64 \<Rightarrow> update_meta \<Rightarrow> bool" where
  "bridges_snapshot snap u \<longleftrightarrow> first_update_id u \<le> snap + 1 \<and> snap + 1 \<le> final_update_id u"

definition classify_update :: "u64 \<Rightarrow> update_meta \<Rightarrow> sequence_decision" where
  "classify_update last_id u =
     (if \<not> update_valid u then InvalidRange
      else if final_update_id u < last_id + 1 then IgnoreStale
      else if last_id + 1 < first_update_id u then Gap (last_id + 1) (first_update_id u)
      else Apply)"

abbreviation decided :: "buffered_apply_result \<Rightarrow> nat \<Rightarrow> update_meta \<Rightarrow> sequence_decision \<Rightarrow> buffered_apply_result" where
  "decided r i u d \<equiv>
     r\<lparr>ba_decisions := ba_decisions r @ [\<lparr>bd_index = i, bd_update = u, bd_decision = d\<rparr>]\<rparr>"

text \<open>The loop over the buffer: state, last id and result, with the flag that the snapshot is bridged.\<close>

fun apply_buffered ::
  "u64 \<Rightarrow> nat \<Rightarrow> update_meta list \<Rightarrow> bool \<Rightarrow> u64 \<Rightarrow> buffered_apply_result
   \<Rightarrow> book_sync_state \<times> u64 \<times> buffered_apply_result" where
  "apply_buffered snap i [] bridged last_id r = (Live, last_id, r)"
| "apply_buffered snap i (u # us) bridged last_id r =
     (if \<not> update_valid u
      then (RebuildRequired, last_id,
            (decided r i u InvalidRange)\<lparr>ba_gap := Some (last_id + 1, first_update_id u)\<rparr>)
      else if \<not> bridged \<and> final_update_id u \<le> snap
      then apply_buffered snap (i + 1) us bridged last_id
             (decided (r\<lparr>ba_ignored_stale := ba_ignored_stale r + 1\<rparr>) i u IgnoreStale)
      else if \<not> bridged \<and> \<not> bridges_snapshot snap u
      then (RebuildRequired, last_id,
            (decided r i u (Gap (snap + 1) (first_update_id u)))\<lparr>ba_gap := Some (snap + 1, first_update_id u)\<rparr>)
      else case classify_update last_id u of
        Apply \<Rightarrow>
          apply_buffered snap (i + 1) us True (final_update_id u)
            (decided (r\<lparr>ba_applied := ba_applied r + 1\<rparr>) i u Apply)
      | IgnoreStale \<Rightarrow>
          apply_buffered snap (i + 1) us True last_id
            (decided (r\<lparr>ba_ignored_stale := ba_ignored_stale r + 1\<rparr>) i u IgnoreStale)
      | Gap expected seen \<Rightarrow>
          (RebuildRequired, last_id, (decided r i u (Gap expected seen))\<lparr>ba_gap := Some (expected, seen)\<rparr>)
      | InvalidRange \<Rightarrow>
          (RebuildRequired, last_id,
           (decided r i u InvalidRange)\<lparr>ba_gap := Some (last_id + 1, first_update_id u)\<rparr>))"

definition sync_apply_snapshot :: "book_sync \<Rightarrow> u64 \<Rightarrow> book_sync \<times> buffered_apply_result" where
  "sync_apply_snapshot s snap =
     (case apply_buffered snap 0 (by_buffered s) False snap default_apply_result of
        (st, last_id, r) \<Rightarrow>
          (\<lparr>by_state = st, by_last_update_id = last_id,
            by_buffered = (if st = Live then [] else by_buffered s)\<rparr>, r))"

definition classify_live_update :: "book_sync \<Rightarrow> update_meta \<Rightarrow> book_sync \<times> sequence_decision" where
  "classify_live_update s u =
     (let d = classify_update (by_last_update_id s) u
      in ((case d of
             Apply \<Rightarrow> s\<lparr>by_last_update_id := final_update_id u, by_state := Live\<rparr>
           | IgnoreStale \<Rightarrow> s
           | _ \<Rightarrow> s\<lparr>by_state := RebuildRequired\<rparr>), d))"

subsection \<open>Coverage\<close>

text \<open>The diffs whose levels the caller applied, in order.\<close>

definition applied_updates :: "buffered_apply_result \<Rightarrow> update_meta list" where
  "applied_updates r = map bd_update (filter (\<lambda>d. bd_decision d = Apply) (ba_decisions r))"

fun live_run :: "book_sync \<Rightarrow> update_meta list \<Rightarrow> book_sync \<times> update_meta list" where
  "live_run s [] = (s, [])"
| "live_run s (u # us) =
     (case classify_live_update s u of
        (s', d) \<Rightarrow> (case live_run s' us of (s'', as) \<Rightarrow> (s'', if d = Apply then u # as else as)))"

text \<open>From id \<open>a\<close> the diffs lead to id \<open>b\<close>, each starting no later than the next id needed and ending later.\<close>

fun covers :: "nat \<Rightarrow> update_meta list \<Rightarrow> nat \<Rightarrow> bool" where
  "covers a [] b \<longleftrightarrow> a = b"
| "covers a (u # us) b \<longleftrightarrow>
     unat (first_update_id u) \<le> a + 1 \<and> a < unat (final_update_id u) \<and> covers (unat (final_update_id u)) us b"

lemma covers_append: "covers a us b \<Longrightarrow> covers b vs c \<Longrightarrow> covers a (us @ vs) c"
  by (induction us arbitrary: a) auto

lemma covers_le: "covers a us b \<Longrightarrow> a \<le> b"
  by (induction us arbitrary: a) fastforce+

lemma covers_every_id:
  "covers a us b \<Longrightarrow> a < i \<Longrightarrow> i \<le> b \<Longrightarrow>
    \<exists>u \<in> set us. unat (first_update_id u) \<le> i \<and> i \<le> unat (final_update_id u)"
proof (induction us arbitrary: a)
  case Nil
  then show ?case by simp
next
  case (Cons u us)
  show ?case
  proof (cases "i \<le> unat (final_update_id u)")
    case True
    with Cons.prems show ?thesis by (intro bexI [of _ u]) simp_all
  next
    case False
    with Cons.prems Cons.IH [of "unat (final_update_id u)"] show ?thesis by auto
  qed
qed

lemma unat_succ: "a \<noteq> (- 1 :: u64) \<Longrightarrow> unat (a + 1) = unat a + 1"
  using unatSuc [of a] by (simp add: add_eq_0_iff add.commute)

lemma classify_Apply:
  assumes "last_id \<noteq> - 1"
  shows "classify_update last_id u = Apply \<longleftrightarrow>
    unat (first_update_id u) \<le> unat last_id + 1 \<and> unat last_id < unat (final_update_id u)"
  using unat_succ [OF assms] by (auto simp: classify_update_def update_valid_def word_less_nat_alt word_le_nat_alt)

lemma classify_IgnoreStale:
  "last_id \<noteq> - 1 \<Longrightarrow> classify_update last_id u = IgnoreStale \<Longrightarrow> final_update_id u \<le> last_id"
  using unat_succ [of last_id]
  by (auto simp: classify_update_def word_less_nat_alt word_le_nat_alt split: if_splits)

lemma applied_decided [simp]:
  "applied_updates (decided r i u d) = applied_updates r @ (if d = Apply then [u] else [])"
  "applied_updates (r\<lparr>ba_gap := g\<rparr>) = applied_updates r"
  "applied_updates (r\<lparr>ba_ignored_stale := k\<rparr>) = applied_updates r"
  "applied_updates (r\<lparr>ba_applied := k\<rparr>) = applied_updates r"
  by (simp_all add: applied_updates_def)

text \<open>One turn of the loop ends it with a demand to rebuild, skips a stale diff or applies one.\<close>

lemma apply_buffered_step:
  assumes run: "apply_buffered snap i (u # us) bridged last_id r = (st, last', r')"
    and "last_id \<noteq> - 1" and "\<not> bridged \<longrightarrow> last_id = snap"
  obtains (stop) "st = RebuildRequired" "last' = last_id" "applied_updates r' = applied_updates r"
  | (skip) b r1 where "apply_buffered snap (Suc i) us b last_id r1 = (st, last', r')" "\<not> b \<longrightarrow> last_id = snap"
      "applied_updates r1 = applied_updates r" "final_update_id u \<le> last_id"
  | (go) r1 where "apply_buffered snap (Suc i) us True (final_update_id u) r1 = (st, last', r')"
      "applied_updates r1 = applied_updates r @ [u]" "classify_update last_id u = Apply"
proof -
  consider (invalid) "\<not> update_valid u" | (old) "update_valid u" "\<not> bridged" "final_update_id u \<le> snap"
    | (gap) "update_valid u" "\<not> bridged" "\<not> final_update_id u \<le> snap" "\<not> bridges_snapshot snap u"
    | (next_one) "update_valid u" "bridged \<or> \<not> final_update_id u \<le> snap \<and> bridges_snapshot snap u" by blast
  then show thesis
  proof cases
    case invalid
    with run show thesis by (intro stop) auto
  next
    case old
    with run assms(3) show thesis
      by (intro skip [of False "decided (r\<lparr>ba_ignored_stale := ba_ignored_stale r + 1\<rparr>) i u IgnoreStale"]) (simp_all add: applied_updates_def)
  next
    case gap
    with run show thesis by (intro stop) auto
  next
    case next_one
    then have body: "\<not> (\<not> bridged \<and> final_update_id u \<le> snap)" "\<not> (\<not> bridged \<and> \<not> bridges_snapshot snap u)" by auto
    show thesis
    proof (cases "classify_update last_id u")
      case Apply
      with run next_one(1) body show thesis
        by (intro go [of "decided (r\<lparr>ba_applied := ba_applied r + 1\<rparr>) i u Apply"]) (simp_all add: applied_updates_def)
    next
      case IgnoreStale
      with run next_one(1) body classify_IgnoreStale [OF assms(2)] show thesis
        by (intro skip [of True "decided (r\<lparr>ba_ignored_stale := ba_ignored_stale r + 1\<rparr>) i u IgnoreStale"]) (simp_all add: applied_updates_def)
    next
      case (Gap e f)
      with run next_one(1) body show thesis by (intro stop) auto
    next
      case InvalidRange
      with run next_one(1) body show thesis by (intro stop) auto
    qed
  qed
qed

lemma apply_buffered_covers:
  assumes "apply_buffered snap i us bridged last_id r = (st, last', r')"
    and "last_id \<noteq> - 1" and "\<forall>u \<in> set us. final_update_id u \<noteq> - 1" and "\<not> bridged \<longrightarrow> last_id = snap"
  shows "\<exists>as. applied_updates r' = applied_updates r @ as \<and> covers (unat last_id) as (unat last') \<and>
    last' \<noteq> - 1 \<and> set as \<subseteq> set us \<and> st \<in> {Live, RebuildRequired} \<and>
    (st = Live \<longrightarrow> (\<forall>u \<in> set us. final_update_id u \<le> last'))"
  using assms
proof (induction us arbitrary: i bridged last_id r)
  case Nil
  then show ?case by simp
next
  case (Cons u us)
  have last_ok: "final_update_id u \<noteq> - 1" "\<forall>v \<in> set us. final_update_id v \<noteq> - 1" using Cons.prems(3) by auto
  from Cons.prems(1,2,4) show ?case
  proof (cases rule: apply_buffered_step)
    case stop
    then show ?thesis using Cons.prems(2) by simp
  next
    case (skip b r1)
    from Cons.IH [OF skip(1) Cons.prems(2) last_ok(2) skip(2)] obtain as where
      as: "applied_updates r' = applied_updates r1 @ as" "covers (unat last_id) as (unat last')" "last' \<noteq> - 1"
      "set as \<subseteq> set us" "st \<in> {Live, RebuildRequired}" "st = Live \<longrightarrow> (\<forall>v \<in> set us. final_update_id v \<le> last')"
      by blast
    have "final_update_id u \<le> last'"
      using skip(4) covers_le [OF as(2)] by (simp add: word_le_nat_alt)
    with as skip(3) show ?thesis by (intro exI [of _ as]) auto
  next
    case (go r1)
    from Cons.IH [OF go(1) last_ok(1,2)] obtain as where
      as: "applied_updates r' = applied_updates r1 @ as" "covers (unat (final_update_id u)) as (unat last')"
      "last' \<noteq> - 1" "set as \<subseteq> set us" "st \<in> {Live, RebuildRequired}"
      "st = Live \<longrightarrow> (\<forall>v \<in> set us. final_update_id v \<le> last')"
      by blast
    have "final_update_id u \<le> last'" using covers_le [OF as(2)] by (simp add: word_le_nat_alt)
    with as go(2,3) classify_Apply [OF Cons.prems(2)] show ?thesis by (intro exI [of _ "u # as"]) auto
  qed
qed

lemma live_run_covers:
  assumes "live_run s us = (s', as)" and "by_last_update_id s \<noteq> - 1" and "\<forall>u \<in> set us. final_update_id u \<noteq> - 1"
  shows "covers (unat (by_last_update_id s)) as (unat (by_last_update_id s')) \<and> by_last_update_id s' \<noteq> - 1"
  using assms
proof (induction us arbitrary: s as)
  case Nil
  then show ?case by simp
next
  case (Cons u us)
  obtain s1 d where c: "classify_live_update s u = (s1, d)" by fastforce
  obtain as1 where r: "live_run s1 us = (s', as1)" "as = (if d = Apply then u # as1 else as1)"
    using Cons.prems(1) c by (auto split: prod.splits)
  have d: "d = classify_update (by_last_update_id s) u" using c by (auto simp: classify_live_update_def Let_def)
  show ?case
  proof (cases "d = Apply")
    case True
    then have "by_last_update_id s1 = final_update_id u" using c by (auto simp: classify_live_update_def Let_def)
    with Cons True r d classify_Apply show ?thesis by fastforce
  next
    case False
    then have "by_last_update_id s1 = by_last_update_id s"
      using c by (auto simp: classify_live_update_def Let_def split: sequence_decision.splits)
    with Cons.IH [OF r(1)] Cons.prems False r(2) show ?thesis by simp
  qed
qed

text \<open>
  C31. The book never has a hole: once a snapshot and the buffered diffs brought the bridge live and however
  the live diffs arrive afterwards, every update id after the snapshot up to the last one is covered by a
  diff that was applied, the applied diffs end at strictly growing ids that lead from the snapshot to the
  last id, and no buffered diff was newer than where the bridge went live.
\<close>

theorem book_sync_no_gap:
  assumes "sync_apply_snapshot s snap = (s1, r)" and "by_state s1 = Live" and "live_run s1 us = (s2, as)"
    and "snap \<noteq> - 1" and "\<forall>u \<in> set (by_buffered s @ us). final_update_id u \<noteq> - 1"
  shows "covers (unat snap) (applied_updates r @ as) (unat (by_last_update_id s2)) \<and>
    (\<forall>i. unat snap < i \<longrightarrow> i \<le> unat (by_last_update_id s2) \<longrightarrow>
       (\<exists>u \<in> set (applied_updates r @ as). unat (first_update_id u) \<le> i \<and> i \<le> unat (final_update_id u))) \<and>
    (\<forall>u \<in> set (by_buffered s). final_update_id u \<le> by_last_update_id s1)"
proof -
  obtain st l r' where run: "apply_buffered snap 0 (by_buffered s) False snap default_apply_result = (st, l, r')"
    by (cases "apply_buffered snap 0 (by_buffered s) False snap default_apply_result")
  then have s1: "by_last_update_id s1 = l" "st = Live" "r = r'"
    using assms(1,2) by (auto simp: sync_apply_snapshot_def)
  have fin: "\<forall>u \<in> set (by_buffered s). final_update_id u \<noteq> - 1" "\<forall>u \<in> set us. final_update_id u \<noteq> - 1"
    using assms(5) by auto
  from apply_buffered_covers [OF run assms(4) fin(1)] s1
  have buf: "covers (unat snap) (applied_updates r) (unat l)" "l \<noteq> - 1"
      "\<forall>u \<in> set (by_buffered s). final_update_id u \<le> l"
    by (auto simp: applied_updates_def default_apply_result_def)
  from live_run_covers [OF assms(3) _ fin(2)] s1 buf(2)
  have "covers (unat l) as (unat (by_last_update_id s2))" by simp
  with buf(1) have "covers (unat snap) (applied_updates r @ as) (unat (by_last_update_id s2))"
    by (rule covers_append)
  then show ?thesis using covers_every_id buf(3) s1(1) by blast
qed

text \<open>
  A snapshot at 100 with a stale, a bridging and a following diff in the buffer, then one live diff and one
  that would skip an id.
\<close>

definition sample_sync :: book_sync where
  "sample_sync = \<lparr>by_state = FetchingSnapshot, by_last_update_id = 0,
     by_buffered = [\<lparr>first_update_id = 90, final_update_id = 100\<rparr>, \<lparr>first_update_id = 95, final_update_id = 101\<rparr>,
                    \<lparr>first_update_id = 102, final_update_id = 103\<rparr>]\<rparr>"

definition sample_live :: "update_meta list" where
  "sample_live = [\<lparr>first_update_id = 104, final_update_id = 104\<rparr>, \<lparr>first_update_id = 106, final_update_id = 107\<rparr>]"

theorem book_sync_no_gap_witness:
  "by_state (fst (live_run (fst (sync_apply_snapshot sample_sync 100)) sample_live)) = RebuildRequired \<and>
   covers 100 (applied_updates (snd (sync_apply_snapshot sample_sync 100)) @
     snd (live_run (fst (sync_apply_snapshot sample_sync 100)) sample_live)) 104"
proof -
  obtain s1 r where snap: "sync_apply_snapshot sample_sync 100 = (s1, r)" by fastforce
  obtain s2 as where live: "live_run s1 sample_live = (s2, as)" by fastforce
  have "by_state (fst (sync_apply_snapshot sample_sync 100)) = Live" by code_simp
  moreover have "by_last_update_id (fst (live_run (fst (sync_apply_snapshot sample_sync 100)) sample_live)) = 104"
    and st: "by_state (fst (live_run (fst (sync_apply_snapshot sample_sync 100)) sample_live)) = RebuildRequired"
    by code_simp+
  moreover have "\<forall>u \<in> set (by_buffered sample_sync @ sample_live). final_update_id u \<noteq> - 1" by code_simp
  ultimately show ?thesis using book_sync_no_gap [of sample_sync 100 s1 r sample_live s2 as] snap live by simp
qed

end
