(* ===== verification/Fixed_Parser.thy ===== *)
theory Fixed_Parser
  imports Prelude
begin

text \<open>
  The fixed-point parser of the depth feed (\<open>market-core/binance-depth/src/parser.rs\<close>): decimal strings to
  integers of scale 10^6 in checked 64-bit arithmetic, and the normalisation of a decoded depth message.
  The JSON decoder is third-party code and stays outside. Intermediate values of the parser are integers
  with the range of a signed 64-bit word checked at every step, as the source does.
\<close>

subsection \<open>The parser\<close>

datatype parse_fixed_error = Empty | InvalidByte | TooManyFractionalDigits | Overflow

definition checked_i64 :: "int \<Rightarrow> int option" where
  "checked_i64 x = (if - (2 ^ 63) \<le> x \<and> x < 2 ^ 63 then Some x else None)"

definition push_digit :: "int \<Rightarrow> int \<Rightarrow> parse_fixed_error + int" where
  "push_digit x d =
     ok_or Overflow (Option.bind (checked_i64 (x * 10)) (\<lambda>v. checked_i64 (v + d)))"

record fixed_acc =
  fa_whole :: int
  fa_frac :: int
  fa_frac_digits :: nat
  fa_seen_dot :: bool
  fa_saw_digit :: bool

definition is_digit :: "char \<Rightarrow> bool" where
  "is_digit c \<longleftrightarrow> 48 \<le> (of_char c :: nat) \<and> (of_char c :: nat) \<le> 57"

definition digit_of :: "char \<Rightarrow> nat" where
  "digit_of c = of_char c - 48"

fun scan_fixed :: "string \<Rightarrow> fixed_acc \<Rightarrow> parse_fixed_error + fixed_acc" where
  "scan_fixed [] a = Ok a"
| "scan_fixed (c # cs) a =
     (if is_digit c
      then (if fa_seen_dot a
            then (if 6 \<le> fa_frac_digits a
                  then (if digit_of c = 0 then scan_fixed cs (a\<lparr>fa_saw_digit := True\<rparr>)
                        else Err TooManyFractionalDigits)
                  else and_then (push_digit (fa_frac a) (int (digit_of c))) (\<lambda>f.
                    scan_fixed cs (a\<lparr>fa_saw_digit := True, fa_frac := f, fa_frac_digits := fa_frac_digits a + 1\<rparr>)))
            else and_then (push_digit (fa_whole a) (int (digit_of c))) (\<lambda>w.
              scan_fixed cs (a\<lparr>fa_saw_digit := True, fa_whole := w\<rparr>)))
      else if c = CHR ''.'' \<and> \<not> fa_seen_dot a then scan_fixed cs (a\<lparr>fa_seen_dot := True\<rparr>)
      else Err InvalidByte)"

definition parse_fixed_6 :: "string \<Rightarrow> parse_fixed_error + 64 word" where
  "parse_fixed_6 s =
     (if s = [] then Err Empty
      else and_then
        (scan_fixed s \<lparr>fa_whole = 0, fa_frac = 0, fa_frac_digits = 0, fa_seen_dot = False, fa_saw_digit = False\<rparr>)
        (\<lambda>a. if \<not> fa_saw_digit a then Err Empty
             else map_sum id word_of_int
               (ok_or Overflow (Option.bind (checked_i64 (fa_whole a * 1000000))
                  (\<lambda>v. checked_i64 (v + fa_frac a * 10 ^ (6 - fa_frac_digits a)))))))"

subsection \<open>Depth messages\<close>

datatype depth_side = Bid | Ask

datatype 'j parse_depth_error =
    JsonError 'j
  | PriceError depth_side nat parse_fixed_error
  | QtyError depth_side nat parse_fixed_error

text \<open>The decoded message: the prices and quantities are still strings.\<close>

record binance_depth_update =
  bu_event_type :: "string option"
  bu_event_time_ms :: u64
  bu_symbol :: string
  bu_first_update_id :: u64
  bu_final_update_id :: u64
  bu_bids :: "(string \<times> string) list"
  bu_asks :: "(string \<times> string) list"

record parsed_depth_update =
  pd_symbol_id :: u32
  pd_exchange_ts_ns :: "64 word"
  pd_receive_ts_ns :: "64 word"
  pd_first_update_id :: u64
  pd_final_update_id :: u64
  pd_bids :: "(64 word \<times> 64 word) list"
  pd_asks :: "(64 word \<times> 64 word) list"

definition map_err :: "('e \<Rightarrow> 'f) \<Rightarrow> 'e + 'a \<Rightarrow> 'f + 'a" where
  "map_err f = map_sum f id"

fun normalize_side :: "depth_side \<Rightarrow> nat \<Rightarrow> (string \<times> string) list \<Rightarrow> 'j parse_depth_error + (64 word \<times> 64 word) list" where
  "normalize_side sd i [] = Ok []"
| "normalize_side sd i ((p, q) # es) =
     and_then (map_err (PriceError sd i) (parse_fixed_6 p)) (\<lambda>p'.
     and_then (map_err (QtyError sd i) (parse_fixed_6 q)) (\<lambda>q'.
     and_then (normalize_side sd (i + 1) es) (\<lambda>es'. Ok ((p', q') # es'))))"

text \<open>Event times come in milliseconds or microseconds, told apart by their size.\<close>

definition binance_event_time_to_ns :: "u64 \<Rightarrow> 64 word" where
  "binance_event_time_to_ns t = (if 10000000000000 \<le> t then t * 1000 else t * 1000000)"

definition normalize_depth_update ::
  "binance_depth_update \<Rightarrow> u32 \<Rightarrow> 64 word \<Rightarrow> 'j parse_depth_error + parsed_depth_update" where
  "normalize_depth_update u sid recv =
     and_then (normalize_side Bid 0 (bu_bids u)) (\<lambda>bids.
     and_then (normalize_side Ask 0 (bu_asks u)) (\<lambda>asks.
     Ok \<lparr>pd_symbol_id = sid, pd_exchange_ts_ns = binance_event_time_to_ns (bu_event_time_ms u),
         pd_receive_ts_ns = recv, pd_first_update_id = bu_first_update_id u,
         pd_final_update_id = bu_final_update_id u, pd_bids = bids, pd_asks = asks\<rparr>))"

text \<open>The JSON decoder \<open>serde_json::from_slice\<close> is a parameter.\<close>

definition parse_depth_update ::
  "('b \<Rightarrow> 'j + binance_depth_update) \<Rightarrow> 'b \<Rightarrow> u32 \<Rightarrow> 64 word \<Rightarrow> 'j parse_depth_error + parsed_depth_update" where
  "parse_depth_update from_slice raw sid recv =
     and_then (map_err JsonError (from_slice raw)) (\<lambda>u. normalize_depth_update u sid recv)"

subsection \<open>What a decimal string denotes\<close>

definition digits_val :: "string \<Rightarrow> nat" where
  "digits_val ds = foldl (\<lambda>n c. n * 10 + digit_of c) 0 ds"

text \<open>Digits, optionally a dot and more digits; at least one digit in all.\<close>

definition decimal_string :: "string \<Rightarrow> string \<Rightarrow> string \<Rightarrow> bool" where
  "decimal_string s ds fs \<longleftrightarrow>
     (\<forall>c \<in> set (ds @ fs). is_digit c) \<and> ds @ fs \<noteq> [] \<and> (s = ds @ CHR ''.'' # fs \<or> s = ds \<and> fs = [])"

definition decimal_value :: "string \<Rightarrow> string \<Rightarrow> rat" where
  "decimal_value ds fs = of_nat (digits_val (ds @ fs)) / 10 ^ length fs"

lemma digit_of_less: "is_digit c \<Longrightarrow> digit_of c < 10"
  unfolding is_digit_def digit_of_def by linarith

lemma dot_not_digit: "\<not> is_digit CHR ''.''"
  by (simp add: is_digit_def)

lemma digits_foldl: "foldl (\<lambda>n c. n * 10 + digit_of c) k ds = k * 10 ^ length ds + digits_val ds"
proof (induction ds arbitrary: k)
  case Nil
  then show ?case by (simp add: digits_val_def)
next
  case (Cons d ds)
  have "digits_val (d # ds) = digit_of d * 10 ^ length ds + digits_val ds"
    using Cons [of "digit_of d"] by (simp add: digits_val_def)
  then show ?case using Cons [of "k * 10 + digit_of d"] by (simp add: algebra_simps)
qed

lemma digits_val_append: "digits_val (ds @ fs) = digits_val ds * 10 ^ length fs + digits_val fs"
  using digits_foldl [of "digits_val ds" fs] by (simp add: digits_val_def)

lemma digits_val_Cons: "digits_val (d # ds) = digit_of d * 10 ^ length ds + digits_val ds"
  using digits_val_append [of "[d]" ds] by (simp add: digits_val_def)

lemma digits_val_Nil [simp]: "digits_val [] = 0"
  by (simp add: digits_val_def)

lemma digits_val_less: "\<forall>c \<in> set ds. is_digit c \<Longrightarrow> digits_val ds < 10 ^ length ds"
proof (induction ds)
  case Nil
  then show ?case by simp
next
  case (Cons d ds)
  then have "digit_of d + 1 \<le> 10" "digits_val ds < 10 ^ length ds" using digit_of_less [of d] by simp_all
  then have "digit_of d * 10 ^ length ds + digits_val ds < (digit_of d + 1) * 10 ^ length ds"
    and "(digit_of d + 1) * 10 ^ length ds \<le> 10 * 10 ^ length ds"
    by (simp, intro mult_le_mono1)
  then show ?case unfolding digits_val_Cons length_Cons power_Suc by linarith
qed

lemma digits_val_zero: "\<forall>c \<in> set ds. is_digit c \<Longrightarrow> digits_val ds = 0 \<longleftrightarrow> (\<forall>c \<in> set ds. digit_of c = 0)"
  by (induction ds) (auto simp: digits_val_Cons)

subsection \<open>The scan\<close>

lemma push_digit_eq:
  "0 \<le> x \<Longrightarrow> 0 \<le> d \<Longrightarrow> push_digit x d = (if x * 10 + d < 2 ^ 63 then Ok (x * 10 + d) else Err Overflow)"
  by (auto simp: push_digit_def checked_i64_def)

lemma checked_sum:
  "0 \<le> x \<Longrightarrow> 0 \<le> y \<Longrightarrow>
   Option.bind (checked_i64 x) (\<lambda>v. checked_i64 (v + y)) = (if x + y < 2 ^ 63 then Some (x + y) else None)"
  by (auto simp: checked_i64_def)

lemma scan_whole:
  assumes "\<forall>c \<in> set ds. is_digit c" and "\<not> fa_seen_dot a" and "0 \<le> fa_whole a"
  shows "scan_fixed (ds @ rest) a =
    (if fa_whole a * 10 ^ length ds + int (digits_val ds) < 2 ^ 63 \<or> ds = []
     then scan_fixed rest (a\<lparr>fa_saw_digit := fa_saw_digit a \<or> ds \<noteq> [],
            fa_whole := fa_whole a * 10 ^ length ds + int (digits_val ds)\<rparr>)
     else Err Overflow)"
  using assms
proof (induction ds arbitrary: a)
  case Nil
  then show ?case by simp
next
  case (Cons d ds)
  let ?w = "fa_whole a * 10 + int (digit_of d)"
  have total: "fa_whole a * 10 ^ length (d # ds) + int (digits_val (d # ds)) = ?w * 10 ^ length ds + int (digits_val ds)"
    by (simp add: digits_val_Cons algebra_simps)
  show ?case
  proof (cases "?w < 2 ^ 63")
    case True
    then have "scan_fixed ((d # ds) @ rest) a = scan_fixed (ds @ rest) (a\<lparr>fa_saw_digit := True, fa_whole := ?w\<rparr>)"
      using Cons.prems by (simp add: push_digit_eq)
    also have "\<dots> = (if ?w * 10 ^ length ds + int (digits_val ds) < 2 ^ 63 \<or> ds = []
        then scan_fixed rest (a\<lparr>fa_saw_digit := True, fa_whole := ?w * 10 ^ length ds + int (digits_val ds)\<rparr>)
        else Err Overflow)"
      using Cons.IH [of "a\<lparr>fa_saw_digit := True, fa_whole := ?w\<rparr>"] Cons.prems by simp
    finally show ?thesis using True unfolding total by (cases "ds = []") auto
  next
    case False
    have "?w * 1 \<le> ?w * 10 ^ length ds" using Cons.prems by (intro mult_left_mono) simp_all
    moreover have "0 \<le> int (digits_val ds)" by simp
    ultimately have "\<not> ?w * 10 ^ length ds + int (digits_val ds) < 2 ^ 63"
      using False unfolding mult_1_right by (meson add_increasing2 le_less_trans not_less)
    then show ?thesis using False Cons.prems unfolding total by (simp add: push_digit_eq)
  qed
qed

text \<open>After the dot at most six digits count; what follows must be zeros.\<close>

lemma scan_frac_zeros:
  assumes "\<forall>c \<in> set fs. is_digit c" and "fa_seen_dot a" and "fa_frac_digits a = 6"
  shows "scan_fixed fs a =
    (if digits_val fs = 0 then Ok (a\<lparr>fa_saw_digit := fa_saw_digit a \<or> fs \<noteq> []\<rparr>) else Err TooManyFractionalDigits)"
  using assms by (induction fs arbitrary: a) (auto simp: digits_val_Cons)

lemma scan_frac:
  assumes "\<forall>c \<in> set fs. is_digit c" and "fa_seen_dot a" and "fa_frac_digits a \<le> 6"
    and "0 \<le> fa_frac a" and "fa_frac a < 10 ^ fa_frac_digits a"
  shows "scan_fixed fs a =
    (let k = 6 - fa_frac_digits a in
     if digits_val (drop k fs) = 0
     then Ok (a\<lparr>fa_saw_digit := fa_saw_digit a \<or> fs \<noteq> [],
            fa_frac := fa_frac a * 10 ^ length (take k fs) + int (digits_val (take k fs)),
            fa_frac_digits := fa_frac_digits a + length (take k fs)\<rparr>)
     else Err TooManyFractionalDigits)"
  using assms
proof (induction fs arbitrary: a)
  case Nil
  then show ?case by (simp add: Let_def)
next
  case (Cons c fs)
  show ?case
  proof (cases "fa_frac_digits a = 6")
    case True
    then show ?thesis using scan_frac_zeros [of "c # fs" a] Cons.prems by simp
  next
    case False
    then obtain k where k: "6 - fa_frac_digits a = Suc k" "6 - Suc (fa_frac_digits a) = k"
      using Cons.prems(3) by (cases "6 - fa_frac_digits a") auto
    let ?f = "fa_frac a * 10 + int (digit_of c)"
    have d: "digit_of c < 10" using Cons.prems by (simp add: digit_of_less)
    have f: "?f < 10 ^ Suc (fa_frac_digits a)" using Cons.prems(4,5) d by simp
    also have "(10 :: int) ^ Suc (fa_frac_digits a) \<le> 10 ^ 6"
      using False Cons.prems(3) by (intro power_increasing) simp_all
    finally have "?f < 2 ^ 63" by simp
    then have "scan_fixed (c # fs) a =
        scan_fixed fs (a\<lparr>fa_saw_digit := True, fa_frac := ?f, fa_frac_digits := Suc (fa_frac_digits a)\<rparr>)"
      using False Cons.prems by (simp add: push_digit_eq)
    also have "\<dots> = (if digits_val (drop k fs) = 0
        then Ok (a\<lparr>fa_saw_digit := True, fa_frac := ?f * 10 ^ length (take k fs) + int (digits_val (take k fs)),
            fa_frac_digits := Suc (fa_frac_digits a) + length (take k fs)\<rparr>)
        else Err TooManyFractionalDigits)"
      using Cons.IH [of "a\<lparr>fa_saw_digit := True, fa_frac := ?f, fa_frac_digits := Suc (fa_frac_digits a)\<rparr>"]
        Cons.prems False f k(2) by (simp add: Let_def)
    finally show ?thesis using k(1) by (simp add: Let_def digits_val_Cons algebra_simps)
  qed
qed

text \<open>A scan that succeeds read a decimal string.\<close>

lemma scan_shape:
  assumes "scan_fixed s a = Ok a'"
  shows "if fa_seen_dot a then \<forall>c \<in> set s. is_digit c
    else \<exists>ds fs. (\<forall>c \<in> set (ds @ fs). is_digit c) \<and> (s = ds @ CHR ''.'' # fs \<or> s = ds \<and> fs = [])"
  using assms
proof (induction s arbitrary: a)
  case Nil
  then show ?case by auto
next
  case (Cons c cs)
  show ?case
  proof (cases "is_digit c")
    case True
    then obtain b where b: "scan_fixed cs b = Ok a'" "fa_seen_dot b = fa_seen_dot a"
      using Cons.prems by (fastforce simp: and_then_Ok_iff split: if_splits)
    show ?thesis
    proof (cases "fa_seen_dot a")
      case True
      then show ?thesis using Cons.IH [OF b(1)] b(2) \<open>is_digit c\<close> by simp
    next
      case False
      then obtain ds fs where "\<forall>x \<in> set (ds @ fs). is_digit x"
        and "cs = ds @ CHR ''.'' # fs \<or> cs = ds \<and> fs = []"
        using Cons.IH [OF b(1)] b(2) by auto
      then have "(\<forall>x \<in> set ((c # ds) @ fs). is_digit x) \<and>
          (c # cs = (c # ds) @ CHR ''.'' # fs \<or> c # cs = c # ds \<and> fs = [])"
        using \<open>is_digit c\<close> by auto
      then show ?thesis using False by metis
    qed
  next
    case False
    with Cons.prems have "c = CHR ''.''" "\<not> fa_seen_dot a" "scan_fixed cs (a\<lparr>fa_seen_dot := True\<rparr>) = Ok a'"
      by (simp_all split: if_splits)
    with Cons.IH [OF this(3)] have "(\<forall>x \<in> set ([] @ cs). is_digit x) \<and>
        (c # cs = [] @ CHR ''.'' # cs \<or> c # cs = [] \<and> cs = [])" by simp
    then show ?thesis using \<open>\<not> fa_seen_dot a\<close> by metis
  qed
qed

subsection \<open>The value of a parsed string\<close>

text \<open>The scaled value is an integer exactly when every digit after the sixth is zero.\<close>

definition scaled_value :: "string \<Rightarrow> string \<Rightarrow> nat" where
  "scaled_value ds fs = digits_val ds * 1000000 + digits_val (take 6 fs) * 10 ^ (6 - length (take 6 fs))"

lemma scaled_short:
  assumes "length fs \<le> 6"
  shows "decimal_value ds fs * 10 ^ 6 = of_nat (scaled_value ds fs)"
proof -
  have "(10 :: rat) ^ 6 = 10 ^ (6 - length fs) * 10 ^ length fs"
    using assms unfolding power_add [symmetric] by simp
  then show ?thesis using assms
    by (simp add: decimal_value_def scaled_value_def digits_val_append field_simps)
qed

lemma scaled_long:
  assumes "6 \<le> length fs"
  shows "decimal_value ds fs * 10 ^ 6 =
    of_nat (scaled_value ds fs) + of_nat (digits_val (drop 6 fs)) / 10 ^ (length fs - 6)"
proof -
  let ?k = "length fs - 6"
  have "digits_val (ds @ fs) = digits_val ((ds @ take 6 fs) @ drop 6 fs)" by simp
  also have "\<dots> = scaled_value ds fs * 10 ^ ?k + digits_val (drop 6 fs)"
    using assms unfolding digits_val_append scaled_value_def by simp
  finally have v: "digits_val (ds @ fs) = scaled_value ds fs * 10 ^ ?k + digits_val (drop 6 fs)" .
  have "(10 :: rat) ^ length fs = 10 ^ ?k * 10 ^ 6" using assms unfolding power_add [symmetric] by simp
  then show ?thesis unfolding decimal_value_def v by (simp add: field_simps)
qed

lemma scaled_integer:
  assumes "\<forall>c \<in> set fs. is_digit c"
  shows "decimal_value ds fs * 10 ^ 6 = of_int w \<longleftrightarrow>
    digits_val (drop 6 fs) = 0 \<and> w = int (scaled_value ds fs)"
proof (cases "length fs \<le> 6")
  case True
  then have "digits_val (drop 6 fs) = 0" by simp
  moreover have "rat_of_nat (scaled_value ds fs) = of_int w \<longleftrightarrow> w = int (scaled_value ds fs)"
    by (metis of_int_eq_iff of_int_of_nat_eq)
  ultimately show ?thesis unfolding scaled_short [OF True] by blast
next
  case False
  let ?k = "length fs - 6"
  let ?r = "of_nat (digits_val (drop 6 fs)) / 10 ^ ?k :: rat"
  have "digits_val (drop 6 fs) < 10 ^ ?k"
    using digits_val_less [of "drop 6 fs"] assms set_drop_subset [of 6 fs] by auto
  then have "rat_of_nat (digits_val (drop 6 fs)) < of_nat (10 ^ ?k)" unfolding of_nat_less_iff .
  then have r: "0 \<le> ?r" "?r < 1" by simp_all
  have eq: "decimal_value ds fs * 10 ^ 6 = of_int (int (scaled_value ds fs)) + ?r"
    using scaled_long [of fs ds] False by simp
  show ?thesis
  proof
    assume a: "decimal_value ds fs * 10 ^ 6 = of_int w"
    have "\<lfloor>of_int (int (scaled_value ds fs)) + ?r\<rfloor> = int (scaled_value ds fs)"
      using r by (intro floor_unique) simp_all
    then have "w = int (scaled_value ds fs)" using a eq by (metis floor_of_int)
    then show "digits_val (drop 6 fs) = 0 \<and> w = int (scaled_value ds fs)" using a eq by simp
  qed (use eq in simp)
qed

lemma parse_shape:
  assumes "parse_fixed_6 s = Ok v"
  shows "\<exists>ds fs. decimal_string s ds fs"
proof -
  let ?a = "\<lparr>fa_whole = 0, fa_frac = 0, fa_frac_digits = 0, fa_seen_dot = False, fa_saw_digit = False\<rparr>"
  obtain a where a: "scan_fixed s ?a = Ok a" "fa_saw_digit a"
    using assms by (auto simp: parse_fixed_6_def and_then_Ok_iff split: if_splits)
  obtain ds fs where d: "\<forall>c \<in> set (ds @ fs). is_digit c" "s = ds @ CHR ''.'' # fs \<or> s = ds \<and> fs = []"
    using scan_shape [OF a(1)] by auto
  have "ds @ fs \<noteq> []" using a d(2) by (auto simp: dot_not_digit)
  then show ?thesis using d by (auto simp: decimal_string_def)
qed

text \<open>The parser on a decimal string, errors included.\<close>

lemma scan_decimal:
  assumes "decimal_string s ds fs"
  shows "scan_fixed s \<lparr>fa_whole = 0, fa_frac = 0, fa_frac_digits = 0, fa_seen_dot = False, fa_saw_digit = False\<rparr> =
    (if 2 ^ 63 \<le> int (digits_val ds) then Err Overflow
     else if digits_val (drop 6 fs) \<noteq> 0 then Err TooManyFractionalDigits
     else Ok \<lparr>fa_whole = int (digits_val ds), fa_frac = int (digits_val (take 6 fs)),
            fa_frac_digits = length (take 6 fs), fa_seen_dot = (s \<noteq> ds), fa_saw_digit = True\<rparr>)"
proof -
  let ?a = "\<lparr>fa_whole = 0, fa_frac = 0, fa_frac_digits = 0, fa_seen_dot = False, fa_saw_digit = False\<rparr>"
  have digits: "\<forall>c \<in> set ds. is_digit c" "\<forall>c \<in> set fs. is_digit c" and ne: "ds @ fs \<noteq> []"
    using assms by (auto simp: decimal_string_def)
  have whole: "scan_fixed (ds @ rest) ?a = (if int (digits_val ds) < 2 ^ 63 \<or> ds = []
      then scan_fixed rest (?a\<lparr>fa_saw_digit := ds \<noteq> [], fa_whole := int (digits_val ds)\<rparr>) else Err Overflow)" for rest
    using scan_whole [of ds ?a rest] digits by simp
  have frac: "scan_fixed fs (?a\<lparr>fa_saw_digit := b, fa_whole := w, fa_seen_dot := True\<rparr>) =
      (if digits_val (drop 6 fs) = 0
       then Ok \<lparr>fa_whole = w, fa_frac = int (digits_val (take 6 fs)), fa_frac_digits = length (take 6 fs),
              fa_seen_dot = True, fa_saw_digit = (b \<or> fs \<noteq> [])\<rparr>
       else Err TooManyFractionalDigits)" for b w
    using scan_frac [of fs "?a\<lparr>fa_saw_digit := b, fa_whole := w, fa_seen_dot := True\<rparr>"] digits by (simp add: Let_def)
  from assms consider "s = ds @ CHR ''.'' # fs" | "s = ds" "fs = []" by (auto simp: decimal_string_def)
  then show ?thesis
  proof cases
    case 1
    then show ?thesis using whole [of "CHR ''.'' # fs"] frac ne by (cases "ds = []") (auto simp: dot_not_digit)
  next
    case 2
    then show ?thesis using whole [of "[]"] ne by auto
  qed
qed

lemma parse_decimal:
  assumes "decimal_string s ds fs"
  shows "parse_fixed_6 s =
    (if 2 ^ 63 \<le> int (digits_val ds) then Err Overflow
     else if digits_val (drop 6 fs) \<noteq> 0 then Err TooManyFractionalDigits
     else if 2 ^ 63 \<le> int (scaled_value ds fs) then Err Overflow
     else Ok (word_of_int (int (scaled_value ds fs))))"
proof -
  have "s \<noteq> []" using assms by (auto simp: decimal_string_def)
  moreover have "int (scaled_value ds fs) =
      int (digits_val ds) * 1000000 + int (digits_val (take 6 fs)) * 10 ^ (6 - length (take 6 fs))"
    by (simp add: scaled_value_def)
  ultimately show ?thesis unfolding parse_fixed_6_def scan_decimal [OF assms]
    by (simp add: checked_sum del: length_take)
qed

text \<open>
  C36. The fixed-point parser is exact: it accepts a string with the value \<open>v\<close> if and only if the string is a
  decimal numeral (digits with at most one dot and at least one digit) whose value is exactly \<open>v / 10^6\<close>,
  with \<open>v\<close> a non-negative signed 64-bit integer. No accepted string is rounded, truncated or wrapped, and
  no numeral that can be represented is refused.
\<close>

theorem parse_fixed_6_exact:
  "parse_fixed_6 s = Ok v \<longleftrightarrow>
     0 \<le> sint v \<and> (\<exists>ds fs. decimal_string s ds fs \<and> decimal_value ds fs = of_int (sint v) / 10 ^ 6)"
proof
  assume p: "parse_fixed_6 s = Ok v"
  then obtain ds fs where d: "decimal_string s ds fs" using parse_shape by blast
  then have v: "digits_val (drop 6 fs) = 0" "v = word_of_int (int (scaled_value ds fs))"
      "int (scaled_value ds fs) < 2 ^ 63"
    using p parse_decimal [OF d] by (simp_all split: if_splits)
  then have "sint v = int (scaled_value ds fs)" by (simp only: v(2), intro sint_fits) simp_all
  moreover have "\<forall>c \<in> set fs. is_digit c" using d by (simp add: decimal_string_def)
  ultimately show "0 \<le> sint v \<and> (\<exists>ds fs. decimal_string s ds fs \<and> decimal_value ds fs = of_int (sint v) / 10 ^ 6)"
    using d v(1) scaled_integer [of fs ds "sint v"] by (auto simp: field_simps)
next
  assume "0 \<le> sint v \<and> (\<exists>ds fs. decimal_string s ds fs \<and> decimal_value ds fs = of_int (sint v) / 10 ^ 6)"
  then obtain ds fs where d: "decimal_string s ds fs" and "decimal_value ds fs * 10 ^ 6 = of_int (sint v)" by auto
  then have v: "digits_val (drop 6 fs) = 0" "sint v = int (scaled_value ds fs)"
    using scaled_integer [of fs ds "sint v"] by (simp_all add: decimal_string_def)
  have "sint v < 2 ^ 63" using sint_lt [of v] by simp
  moreover have "int (digits_val ds) \<le> int (scaled_value ds fs)" by (simp add: scaled_value_def)
  ultimately have "\<not> 2 ^ 63 \<le> int (digits_val ds)" "\<not> 2 ^ 63 \<le> int (scaled_value ds fs)"
    unfolding v(2) by linarith+
  moreover have "word_of_int (int (scaled_value ds fs)) = v" unfolding v(2) [symmetric] by simp
  ultimately show "parse_fixed_6 s = Ok v" using v(1) unfolding parse_decimal [OF d] by (simp only: if_False simp_thms)
qed

subsection \<open>Whole messages\<close>

lemma map_err_Ok [simp]: "map_err f r = Ok x \<longleftrightarrow> r = Ok x"
  by (cases r) (simp_all add: map_err_def)

lemma map_err_Err: "map_err f r = Err y \<longleftrightarrow> (\<exists>e. r = Err e \<and> y = f e)"
  by (cases r) (auto simp: map_err_def)

lemma normalize_side_Ok:
  "normalize_side sd i es = Ok out \<longleftrightarrow>
     list_all2 (\<lambda>(p, q) (p', q'). parse_fixed_6 p = Ok p' \<and> parse_fixed_6 q = Ok q') es out"
  by (induction sd i es arbitrary: out rule: normalize_side.induct)
     (auto simp: and_then_Ok_iff list_all2_Cons1)

text \<open>A side that is refused is refused at its first bad entry, price before quantity.\<close>

lemma normalize_side_Err:
  "normalize_side sd i es = Err x \<Longrightarrow>
     \<exists>k p q e. k < length es \<and> es ! k = (p, q) \<and>
       (\<forall>j < k. \<exists>v w. parse_fixed_6 (fst (es ! j)) = Ok v \<and> parse_fixed_6 (snd (es ! j)) = Ok w) \<and>
       (parse_fixed_6 p = Err e \<and> x = PriceError sd (i + k) e \<or>
        (\<exists>v. parse_fixed_6 p = Ok v) \<and> parse_fixed_6 q = Err e \<and> x = QtyError sd (i + k) e)"
proof (induction sd i es rule: normalize_side.induct)
  case (1 sd i)
  then show ?case by simp
next
  case (2 sd i p q es)
  consider e where "parse_fixed_6 p = Err e" | v e where "parse_fixed_6 p = Ok v" "parse_fixed_6 q = Err e"
    | v w where "parse_fixed_6 p = Ok v" "parse_fixed_6 q = Ok w"
    by (metis sum.exhaust)
  then show ?case
  proof cases
    case (3 v w)
    with 2(2) have "normalize_side sd (i + 1) es = Err x"
      by (cases "normalize_side sd (i + 1) es :: 'a parse_depth_error + _") (simp_all add: map_err_def)
    with 2(1) 3 obtain k p' q' e where "k < length es" "es ! k = (p', q')"
      "\<forall>j < k. \<exists>v w. parse_fixed_6 (fst (es ! j)) = Ok v \<and> parse_fixed_6 (snd (es ! j)) = Ok w"
      "parse_fixed_6 p' = Err e \<and> x = PriceError sd (i + 1 + k) e \<or>
       (\<exists>v. parse_fixed_6 p' = Ok v) \<and> parse_fixed_6 q' = Err e \<and> x = QtyError sd (i + 1 + k) e"
      by (fastforce simp: map_err_def)
    with 3 show ?thesis
      by (intro exI [of _ "Suc k"] exI [of _ p'] exI [of _ q'] exI [of _ e]) (auto simp: less_Suc_eq_0_disj)
  qed (use 2 in \<open>auto simp: map_err_def intro!: exI [of _ "0 :: nat"]\<close>)
qed

end
