(* ===== verification/Depth_Lane.thy ===== *)
theory Depth_Lane
  imports Market_Features Book_Sync Fixed_Parser "HOL-Library.Sublist"
begin

text \<open>
  The market data lane (\<open>market-core/binance-depth/src/pipeline.rs\<close> with the record types of \<open>replay.rs\<close>
  and \<open>latency.rs\<close>): one symbol's book, the bridge that decides which diffs may be applied, the diffs held
  back until a snapshot arrives, and the features and signals computed after every applied diff. Whatever
  the lane does it also records. The panic of a feature division is \<open>None\<close>.
\<close>

subsection \<open>Latency traces and records\<close>

record latency_trace =
  recv_ns :: i64
  parse_done_ns :: i64
  book_done_ns :: i64
  feature_done_ns :: i64
  signal_done_ns :: i64

definition default_latency :: latency_trace where
  "default_latency = \<lparr>recv_ns = 0, parse_done_ns = 0, book_done_ns = 0, feature_done_ns = 0, signal_done_ns = 0\<rparr>"

datatype replay_kind = KRawFrame | KDepthUpdate | KFeature | KSignal | KSnapshot | KBridge

record replay_bridge_update =
  bu_symbol_id :: u32
  bu_exchange_ts_ns :: i64
  bu_receive_ts_ns :: i64
  bu_first_id :: u64
  bu_final_id :: u64
  bu_bid_levels :: "(i64 \<times> i64) list"
  bu_ask_levels :: "(i64 \<times> i64) list"

datatype replay_payload =
    RawFrame "8 word list"
  | DepthUpdate sequence_decision "(i64 \<times> i64) list" "(i64 \<times> i64) list"
  | SnapshotLevels "(i64 \<times> i64) list" "(i64 \<times> i64) list"
  | Bridge buffered_apply_result "replay_bridge_update list"
  | Feature feature_snapshot
  | SignalPayload signal

record replay_record =
  rp_kind :: replay_kind
  rp_symbol_id :: u32
  rp_exchange_ts_ns :: i64
  rp_receive_ts_ns :: i64
  rp_first_update_id :: u64
  rp_final_update_id :: u64
  rp_sync_state :: book_sync_state
  rp_last_book_update_id :: u64
  rp_latency :: latency_trace
  rp_payload :: replay_payload

record replay_batch =
  rb_raw :: "replay_record option"
  rb_depth :: "replay_record option"
  rb_snapshot :: "replay_record option"
  rb_bridge :: "replay_record option"
  rb_feature :: "replay_record option"
  rb_signal :: "replay_record option"

definition default_batch :: replay_batch where
  "default_batch = \<lparr>rb_raw = None, rb_depth = None, rb_snapshot = None, rb_bridge = None, rb_feature = None,
     rb_signal = None\<rparr>"

definition batch_records :: "replay_batch \<Rightarrow> replay_record list" where
  "batch_records b =
     List.map_filter id [rb_raw b, rb_snapshot b, rb_bridge b, rb_depth b, rb_feature b, rb_signal b]"

subsection \<open>The lane\<close>

record market_data_lane =
  ml_symbol_id :: u32
  ml_book :: correctness_book
  ml_sync :: book_sync
  ml_buffered_depth :: "parsed_depth_update list"
  ml_signal_rules :: signal_rules
  ml_flow_1s :: i64

definition lane_new :: "nat \<Rightarrow> u32 \<Rightarrow> signal_rules \<Rightarrow> market_data_lane" where
  "lane_new n sid rules = \<lparr>ml_symbol_id = sid, ml_book = correctness_new n, ml_sync = sync_new,
     ml_buffered_depth = [], ml_signal_rules = rules, ml_flow_1s = 0\<rparr>"

definition meta :: "parsed_depth_update \<Rightarrow> update_meta" where
  "meta u = \<lparr>first_update_id = pd_first_update_id u, final_update_id = pd_final_update_id u\<rparr>"

definition lane_start_buffering :: "market_data_lane \<Rightarrow> market_data_lane" where
  "lane_start_buffering l = l\<lparr>ml_sync := start_buffering (ml_sync l), ml_buffered_depth := []\<rparr>"

definition lane_start_snapshot_fetch :: "market_data_lane \<Rightarrow> market_data_lane" where
  "lane_start_snapshot_fetch l = l\<lparr>ml_sync := start_snapshot_fetch (ml_sync l)\<rparr>"

definition buffer_depth_update :: "market_data_lane \<Rightarrow> parsed_depth_update \<Rightarrow> market_data_lane" where
  "buffer_depth_update l u =
     l\<lparr>ml_sync := buffer_diff (ml_sync l) (meta u), ml_buffered_depth := ml_buffered_depth l @ [u]\<rparr>"

definition lane_replay_record ::
  "market_data_lane \<Rightarrow> replay_kind \<Rightarrow> parsed_depth_update \<Rightarrow> latency_trace \<Rightarrow> replay_payload \<Rightarrow> replay_record" where
  "lane_replay_record l kind u lat payload =
     \<lparr>rp_kind = kind, rp_symbol_id = pd_symbol_id u, rp_exchange_ts_ns = pd_exchange_ts_ns u,
      rp_receive_ts_ns = pd_receive_ts_ns u, rp_first_update_id = pd_first_update_id u,
      rp_final_update_id = pd_final_update_id u, rp_sync_state = by_state (ml_sync l),
      rp_last_book_update_id = by_last_update_id (ml_sync l), rp_latency = lat, rp_payload = payload\<rparr>"

definition snapshot_replay_record ::
  "market_data_lane \<Rightarrow> replay_kind \<Rightarrow> u64 \<Rightarrow> i64 \<Rightarrow> replay_payload \<Rightarrow> replay_record" where
  "snapshot_replay_record l kind snap ts payload =
     \<lparr>rp_kind = kind, rp_symbol_id = ml_symbol_id l, rp_exchange_ts_ns = ts, rp_receive_ts_ns = ts,
      rp_first_update_id = snap, rp_final_update_id = snap, rp_sync_state = by_state (ml_sync l),
      rp_last_book_update_id = by_last_update_id (ml_sync l), rp_latency = default_latency, rp_payload = payload\<rparr>"

text \<open>\<open>apply_diff\<close> as every caller in the lane uses it.\<close>

abbreviation apply_update_to_book :: "nat \<Rightarrow> correctness_book \<Rightarrow> parsed_depth_update \<Rightarrow> correctness_book" where
  "apply_update_to_book n c u \<equiv>
     apply_diff n c (pd_bids u) (pd_asks u) (pd_final_update_id u) (pd_exchange_ts_ns u)"

definition bridge_update :: "parsed_depth_update \<Rightarrow> replay_bridge_update" where
  "bridge_update u = \<lparr>bu_symbol_id = pd_symbol_id u, bu_exchange_ts_ns = pd_exchange_ts_ns u,
     bu_receive_ts_ns = pd_receive_ts_ns u, bu_first_id = pd_first_update_id u, bu_final_id = pd_final_update_id u,
     bu_bid_levels = pd_bids u, bu_ask_levels = pd_asks u\<rparr>"

text \<open>The loop over the decisions of the bridge.\<close>

fun bridge_loop ::
  "nat \<Rightarrow> parsed_depth_update list \<Rightarrow> buffered_decision list \<Rightarrow> correctness_book \<Rightarrow> replay_bridge_update list
   \<Rightarrow> correctness_book \<times> replay_bridge_update list" where
  "bridge_loop n buf [] c acc = (c, acc)"
| "bridge_loop n buf (d # ds) c acc =
     (if bd_decision d \<noteq> Apply then bridge_loop n buf ds c acc
      else if bd_index d < length buf
      then let u = buf ! bd_index d
           in bridge_loop n buf ds (apply_update_to_book n c u) (acc @ [bridge_update u])
      else bridge_loop n buf ds c acc)"

record bridge_outcome =
  bo_result :: buffered_apply_result
  bo_replay :: replay_batch

definition apply_snapshot_bridge ::
  "nat \<Rightarrow> market_data_lane \<Rightarrow> u64 \<Rightarrow> (i64 \<times> i64) list \<Rightarrow> (i64 \<times> i64) list \<Rightarrow> i64
   \<Rightarrow> market_data_lane \<times> bridge_outcome" where
  "apply_snapshot_bridge n l snap bids asks ts =
     (let book = apply_book_snapshot n (ml_book l) bids asks snap ts;
          (sync, result) = sync_apply_snapshot (ml_sync l) snap;
          (book, applied) =
            (if ba_gap result = None then bridge_loop n (ml_buffered_depth l) (ba_decisions result) book [] else (book, []));
          l = l\<lparr>ml_book := book, ml_sync := sync, ml_buffered_depth := []\<rparr>
      in (l, \<lparr>bo_result = result,
              bo_replay = default_batch
                \<lparr>rb_snapshot := Some (snapshot_replay_record l KSnapshot snap ts (SnapshotLevels bids asks)),
                 rb_bridge := Some (snapshot_replay_record l KBridge snap ts (Bridge result applied))\<rparr>\<rparr>))"

definition lane_load_snapshot_for_replay ::
  "nat \<Rightarrow> market_data_lane \<Rightarrow> u64 \<Rightarrow> (i64 \<times> i64) list \<Rightarrow> (i64 \<times> i64) list \<Rightarrow> i64 \<Rightarrow> market_data_lane" where
  "lane_load_snapshot_for_replay n l snap bids asks ts =
     l\<lparr>ml_book := apply_book_snapshot n (ml_book l) bids asks snap ts,
       ml_sync := load_snapshot_for_replay (ml_sync l) snap\<rparr>"

definition apply_replay_snapshot ::
  "nat \<Rightarrow> market_data_lane \<Rightarrow> u64 \<Rightarrow> (i64 \<times> i64) list \<Rightarrow> (i64 \<times> i64) list \<Rightarrow> i64
   \<Rightarrow> market_data_lane \<times> replay_batch" where
  "apply_replay_snapshot n l snap bids asks ts =
     (let l = lane_load_snapshot_for_replay n l snap bids asks ts
      in (l, default_batch\<lparr>rb_snapshot := Some (snapshot_replay_record l KSnapshot snap ts (SnapshotLevels bids asks))\<rparr>))"

definition apply_bridge_update_for_replay ::
  "nat \<Rightarrow> market_data_lane \<Rightarrow> parsed_depth_update \<Rightarrow> market_data_lane \<times> sequence_decision" where
  "apply_bridge_update_for_replay n l u =
     (case classify_live_update (ml_sync l) (meta u) of
        (sync, d) \<Rightarrow>
          let l = l\<lparr>ml_sync := sync\<rparr>
          in (if d = Apply then l\<lparr>ml_book := apply_update_to_book n (ml_book l) u\<rparr> else l, d))"

subsection \<open>Processing a diff\<close>

text \<open>
  The caller's clock is an optional function with a state of its own; every reading is a call of it.
\<close>

type_synonym 'c clock = "('c \<Rightarrow> i64 \<times> 'c) option"

definition stamp :: "'c clock \<Rightarrow> 'c \<Rightarrow> i64 option \<times> 'c" where
  "stamp clock c = (case clock of None \<Rightarrow> (None, c) | Some f \<Rightarrow> (case f c of (t, c') \<Rightarrow> (Some t, c')))"

definition stamped :: "i64 option \<Rightarrow> (i64 \<Rightarrow> latency_trace \<Rightarrow> latency_trace) \<Rightarrow> latency_trace \<Rightarrow> latency_trace" where
  "stamped t f lat = (case t of None \<Rightarrow> lat | Some ns \<Rightarrow> f ns lat)"

record process_outcome =
  po_decision :: sequence_decision
  po_feature :: "feature_view option"
  po_signal :: "signal option"
  po_latency :: latency_trace
  po_replay :: replay_batch

record fast_outcome =
  fo_decision :: sequence_decision
  fo_feature :: "feature_view option"
  fo_signal :: "signal option"
  fo_latency :: latency_trace

definition process_depth_update_inner ::
  "nat \<Rightarrow> market_data_lane \<Rightarrow> parsed_depth_update \<Rightarrow> latency_trace \<Rightarrow> 'c clock \<Rightarrow> 'c
   \<Rightarrow> (market_data_lane \<times> process_outcome \<times> 'c) option" where
  "process_depth_update_inner n l u lat clock c =
     (case classify_live_update (ml_sync l) (meta u) of
        (sync, d) \<Rightarrow>
          let l = l\<lparr>ml_sync := sync\<rparr>
          in if d \<noteq> Apply
             then case stamp clock c of
               (t, c) \<Rightarrow>
                 let lat = stamped t (\<lambda>ns x. x\<lparr>book_done_ns := ns, feature_done_ns := ns, signal_done_ns := ns\<rparr>) lat
                 in Some (l, \<lparr>po_decision = d, po_feature = None, po_signal = None, po_latency = lat,
                      po_replay = default_batch\<lparr>rb_depth := Some (lane_replay_record l KDepthUpdate u lat
                        (DepthUpdate d (pd_bids u) (pd_asks u)))\<rparr>\<rparr>, c)
             else do {
               let l = l\<lparr>ml_book := apply_update_to_book n (ml_book l) u\<rparr>;
               let (t, c) = stamp clock c;
               let lat = stamped t (\<lambda>ns x. x\<lparr>book_done_ns := ns\<rparr>) lat;
               feature \<leftarrow> compute_features n (pd_symbol_id u) (cb_top (ml_book l)) (ml_flow_1s l) (pd_receive_ts_ns u);
               let (t, c) = stamp clock c;
               let lat = stamped t (\<lambda>ns x. x\<lparr>feature_done_ns := ns\<rparr>) lat;
               let sig = Option.bind feature (\<lambda>view. evaluate (ml_signal_rules l) (fv_snapshot view));
               let (t, c) = stamp clock c;
               let lat = stamped t (\<lambda>ns x. x\<lparr>signal_done_ns := ns\<rparr>) lat;
               let batch = default_batch\<lparr>rb_depth := Some (lane_replay_record l KDepthUpdate u lat
                 (DepthUpdate d (pd_bids u) (pd_asks u)))\<rparr>;
               let batch = (case feature of None \<Rightarrow> batch
                 | Some view \<Rightarrow> batch\<lparr>rb_feature := Some (lane_replay_record l KFeature u lat (Feature (fv_snapshot view)))\<rparr>);
               let batch = (case sig of None \<Rightarrow> batch
                 | Some s \<Rightarrow> batch\<lparr>rb_signal := Some (lane_replay_record l KSignal u lat (SignalPayload s))\<rparr>);
               Some (l, \<lparr>po_decision = d, po_feature = feature, po_signal = sig, po_latency = lat, po_replay = batch\<rparr>, c)
             })"

definition process_depth_update_fast_inner ::
  "nat \<Rightarrow> market_data_lane \<Rightarrow> parsed_depth_update \<Rightarrow> latency_trace \<Rightarrow> 'c clock \<Rightarrow> 'c
   \<Rightarrow> (market_data_lane \<times> fast_outcome \<times> 'c) option" where
  "process_depth_update_fast_inner n l u lat clock c =
     (case classify_live_update (ml_sync l) (meta u) of
        (sync, d) \<Rightarrow>
          let l = l\<lparr>ml_sync := sync\<rparr>
          in if d \<noteq> Apply
             then case stamp clock c of
               (t, c) \<Rightarrow>
                 let lat = stamped t (\<lambda>ns x. x\<lparr>book_done_ns := ns, feature_done_ns := ns, signal_done_ns := ns\<rparr>) lat
                 in Some (l, \<lparr>fo_decision = d, fo_feature = None, fo_signal = None, fo_latency = lat\<rparr>, c)
             else do {
               let l = l\<lparr>ml_book := apply_update_to_book n (ml_book l) u\<rparr>;
               let (t, c) = stamp clock c;
               let lat = stamped t (\<lambda>ns x. x\<lparr>book_done_ns := ns\<rparr>) lat;
               feature \<leftarrow> compute_features n (pd_symbol_id u) (cb_top (ml_book l)) (ml_flow_1s l) (pd_receive_ts_ns u);
               let (t, c) = stamp clock c;
               let lat = stamped t (\<lambda>ns x. x\<lparr>feature_done_ns := ns\<rparr>) lat;
               let sig = Option.bind feature (\<lambda>view. evaluate (ml_signal_rules l) (fv_snapshot view));
               let (t, c) = stamp clock c;
               let lat = stamped t (\<lambda>ns x. x\<lparr>signal_done_ns := ns\<rparr>) lat;
               Some (l, \<lparr>fo_decision = d, fo_feature = feature, fo_signal = sig, fo_latency = lat\<rparr>, c)
             })"

definition process_depth_update ::
  "nat \<Rightarrow> market_data_lane \<Rightarrow> parsed_depth_update \<Rightarrow> latency_trace \<Rightarrow> (market_data_lane \<times> process_outcome) option" where
  "process_depth_update n l u lat =
     map_option (\<lambda>(l, out, c). (l, out)) (process_depth_update_inner n l u lat None ())"

definition process_depth_update_with_clock ::
  "nat \<Rightarrow> market_data_lane \<Rightarrow> parsed_depth_update \<Rightarrow> latency_trace \<Rightarrow> ('c \<Rightarrow> i64 \<times> 'c) \<Rightarrow> 'c
   \<Rightarrow> (market_data_lane \<times> process_outcome \<times> 'c) option" where
  "process_depth_update_with_clock n l u lat clock c = process_depth_update_inner n l u lat (Some clock) c"

definition process_depth_update_fast_with_clock ::
  "nat \<Rightarrow> market_data_lane \<Rightarrow> parsed_depth_update \<Rightarrow> latency_trace \<Rightarrow> ('c \<Rightarrow> i64 \<times> 'c) \<Rightarrow> 'c
   \<Rightarrow> (market_data_lane \<times> fast_outcome \<times> 'c) option" where
  "process_depth_update_fast_with_clock n l u lat clock c = process_depth_update_fast_inner n l u lat (Some clock) c"

text \<open>A raw frame: its receive time and its bytes.\<close>

record raw_frame =
  rf_recv_ts_ns :: i64
  rf_bytes :: "8 word list"

definition process_raw_depth_frame ::
  "nat \<Rightarrow> (8 word list \<Rightarrow> 'j + binance_depth_update) \<Rightarrow> market_data_lane \<Rightarrow> raw_frame \<Rightarrow> latency_trace
   \<Rightarrow> (market_data_lane \<times> ('j parse_depth_error + process_outcome)) option" where
  "process_raw_depth_frame n from_slice l frame lat =
     (case parse_depth_update from_slice (rf_bytes frame) (ml_symbol_id l) (rf_recv_ts_ns frame) of
        Inl e \<Rightarrow> Some (l, Err e)
      | Inr u \<Rightarrow>
          do {
            (l, out) \<leftarrow> process_depth_update n l u (lat\<lparr>recv_ns := rf_recv_ts_ns frame\<rparr>);
            let out = out\<lparr>po_replay := (po_replay out)\<lparr>rb_raw :=
              Some (lane_replay_record l KRawFrame u (po_latency out) (RawFrame (rf_bytes frame)))\<rparr>\<rparr>;
            Some (l, Ok out)
          })"

definition process_raw_depth_frame_with_clock ::
  "nat \<Rightarrow> (8 word list \<Rightarrow> 'j + binance_depth_update) \<Rightarrow> market_data_lane \<Rightarrow> raw_frame \<Rightarrow> ('c \<Rightarrow> i64 \<times> 'c) \<Rightarrow> 'c
   \<Rightarrow> (market_data_lane \<times> ('j parse_depth_error + process_outcome) \<times> 'c) option" where
  "process_raw_depth_frame_with_clock n from_slice l frame clock c =
     (case parse_depth_update from_slice (rf_bytes frame) (ml_symbol_id l) (rf_recv_ts_ns frame) of
        Inl e \<Rightarrow> Some (l, Err e, c)
      | Inr u \<Rightarrow>
          do {
            let lat = default_latency\<lparr>recv_ns := rf_recv_ts_ns frame\<rparr>;
            let (t, c) = clock c;
            let lat = lat\<lparr>parse_done_ns := t\<rparr>;
            (l, out, c) \<leftarrow> process_depth_update_with_clock n l u lat clock c;
            let out = out\<lparr>po_replay := (po_replay out)\<lparr>rb_raw :=
              Some (lane_replay_record l KRawFrame u (po_latency out) (RawFrame (rf_bytes frame)))\<rparr>\<rparr>;
            Some (l, Ok out, c)
          })"

subsection \<open>The fast path\<close>

text \<open>What the fast path returns is what the recording path returns without its records.\<close>

definition without_replay :: "process_outcome \<Rightarrow> fast_outcome" where
  "without_replay out = \<lparr>fo_decision = po_decision out, fo_feature = po_feature out, fo_signal = po_signal out,
     fo_latency = po_latency out\<rparr>"

lemma process_fast_eq:
  "process_depth_update_fast_inner n l u lat clock c =
     map_option (\<lambda>(l, out, c). (l, without_replay out, c)) (process_depth_update_inner n l u lat clock c)"
  unfolding process_depth_update_fast_inner_def process_depth_update_inner_def Let_def
  by (simp add: without_replay_def split: prod.split option.split bind_split)

subsection \<open>The bridge\<close>

lemma apply_buffered_decisions:
  assumes "apply_buffered snap i us b last_id r = (st, last', r')" and "ba_gap r = None"
  shows "\<exists>k ds. ba_decisions r' = ba_decisions r @ ds \<and> k \<le> length us \<and> map bd_index ds = [i ..< i + k] \<and>
    map bd_update ds = take k us \<and> st \<in> {Live, RebuildRequired} \<and> (ba_gap r' = None \<longleftrightarrow> st = Live)"
  using assms
proof (induction us arbitrary: i b last_id r)
  case Nil
  then show ?case by (intro exI [of _ 0] exI [of _ "[]"]) simp
next
  case (Cons u us)
  let ?d = "\<lambda>d. \<lparr>bd_index = i, bd_update = u, bd_decision = d\<rparr>"
  have "(\<exists>d b1 l1 r1. apply_buffered snap (Suc i) us b1 l1 r1 = (st, last', r') \<and>
        ba_decisions r1 = ba_decisions r @ [?d d] \<and> ba_gap r1 = None) \<or>
      (\<exists>d g. ba_decisions r' = ba_decisions r @ [?d d] \<and> ba_gap r' = Some g \<and> st = RebuildRequired)"
    using Cons.prems by (fastforce split: if_splits sequence_decision.splits)
  then show ?case
  proof (elim disjE exE conjE)
    fix d b1 l1 r1
    assume r1: "apply_buffered snap (Suc i) us b1 l1 r1 = (st, last', r')" "ba_decisions r1 = ba_decisions r @ [?d d]"
      "ba_gap r1 = None"
    from Cons.IH [OF r1(1,3)] r1(2) obtain k ds where
      "ba_decisions r' = ba_decisions r @ ?d d # ds" "k \<le> length us" "map bd_index ds = [Suc i ..< Suc i + k]"
      "map bd_update ds = take k us" "st \<in> {Live, RebuildRequired}" "ba_gap r' = None \<longleftrightarrow> st = Live" by auto
    then show ?thesis by (intro exI [of _ "Suc k"] exI [of _ "?d d # ds"]) (simp add: upt_rec)
  next
    fix d g
    assume "ba_decisions r' = ba_decisions r @ [?d d]" "ba_gap r' = Some g" "st = RebuildRequired"
    then show ?thesis by (intro exI [of _ "Suc 0"] exI [of _ "[?d d]"]) simp
  qed
qed

lemma bridge_loop_eq:
  assumes "\<forall>d \<in> set ds. bd_index d < length buf"
  shows "bridge_loop n buf ds c acc =
    (let us = map (\<lambda>d. buf ! bd_index d) (filter (\<lambda>d. bd_decision d = Apply) ds)
     in (foldl (apply_update_to_book n) c us, acc @ map bridge_update us))"
  using assms by (induction ds arbitrary: c acc) (simp_all add: Let_def)

lemma bridge_applies:
  assumes "map meta buf = by_buffered s" and "sync_apply_snapshot s snap = (s', r)" and "ba_gap r = None"
  shows "\<exists>us. bridge_loop n buf (ba_decisions r) c [] = (foldl (apply_update_to_book n) c us, map bridge_update us) \<and>
    map meta us = applied_updates r \<and> subseq us buf"
proof -
  obtain st l r' where run: "apply_buffered snap 0 (by_buffered s) False snap default_apply_result = (st, l, r')"
    by (cases "apply_buffered snap 0 (by_buffered s) False snap default_apply_result")
  then have "r' = r" using assms(2) by (simp add: sync_apply_snapshot_def)
  from apply_buffered_decisions [OF run] this obtain k where k: "k \<le> length buf" "map bd_index (ba_decisions r) = [0 ..< k]"
      "map bd_update (ba_decisions r) = take k (map meta buf)"
    by (auto simp: default_apply_result_def assms(1) [symmetric])
  let ?us = "map (\<lambda>d. buf ! bd_index d) (filter (\<lambda>d. bd_decision d = Apply) (ba_decisions r))"
  have len: "length (ba_decisions r) = k" using arg_cong [OF k(2), of length] by simp
  have nth: "bd_index (ba_decisions r ! j) = j" "bd_update (ba_decisions r ! j) = meta (buf ! j)" if "j < k" for j
    using arg_cong [OF k(2), of "\<lambda>xs. xs ! j"] arg_cong [OF k(3), of "\<lambda>xs. xs ! j"] that len k(1) by simp_all
  have each: "bd_index d < length buf \<and> bd_update d = meta (buf ! bd_index d)" if "d \<in> set (ba_decisions r)" for d
    using that nth len k(1) by (auto simp: in_set_conv_nth)
  have "map (\<lambda>d. buf ! bd_index d) (ba_decisions r) = take k buf"
    using nth(1) len k(1) by (intro nth_equalityI) auto
  moreover have "subseq ?us (map (\<lambda>d. buf ! bd_index d) (ba_decisions r))" by (intro subseq_map subseq_filter_left)
  ultimately have "subseq ?us buf"
    using take_is_prefix [of k buf] prefix_imp_subseq subseq_order.order_trans by metis
  moreover have "map meta ?us = applied_updates r" using each by (simp add: applied_updates_def)
  ultimately show ?thesis using each bridge_loop_eq [of "ba_decisions r" buf n c "[]"] by (auto simp: Let_def)
qed

subsection \<open>The protocol of the lane\<close>

text \<open>
  The order in which a caller may use the lane: hold diffs back from a fresh start, bridge a snapshot, then
  process live diffs; after a demand to rebuild start over or load a snapshot. The list holds every diff
  that was delivered so far. No id is the largest one, whose successor would wrap.
\<close>

inductive lane_reach :: "nat \<Rightarrow> market_data_lane \<Rightarrow> parsed_depth_update list \<Rightarrow> bool" where
  reach_new: "lane_reach n (lane_new n sid rules) []"
| reach_start: "lane_reach n l ins \<Longrightarrow> lane_reach n (lane_start_buffering l) ins"
| reach_fetch: "lane_reach n l ins \<Longrightarrow> by_state (ml_sync l) = BufferingDiffs \<Longrightarrow>
    lane_reach n (lane_start_snapshot_fetch l) ins"
| reach_buffer: "lane_reach n l ins \<Longrightarrow> by_state (ml_sync l) \<in> {BufferingDiffs, FetchingSnapshot} \<Longrightarrow>
    pd_final_update_id u \<noteq> - 1 \<Longrightarrow> lane_reach n (buffer_depth_update l u) (ins @ [u])"
| reach_bridge: "lane_reach n l ins \<Longrightarrow> by_state (ml_sync l) \<in> {BufferingDiffs, FetchingSnapshot} \<Longrightarrow>
    snap \<noteq> - 1 \<Longrightarrow> apply_snapshot_bridge n l snap bids asks ts = (l', out) \<Longrightarrow> lane_reach n l' ins"
| reach_load: "lane_reach n l ins \<Longrightarrow> snap \<noteq> - 1 \<Longrightarrow>
    apply_replay_snapshot n l snap bids asks ts = (l', batch) \<Longrightarrow> lane_reach n l' ins"
| reach_process: "lane_reach n l ins \<Longrightarrow> by_state (ml_sync l) = Live \<Longrightarrow> pd_final_update_id u \<noteq> - 1 \<Longrightarrow>
    process_depth_update n l u lat = Some (l', out) \<Longrightarrow> lane_reach n l' (ins @ [u])"

definition diff_op :: "parsed_depth_update \<Rightarrow> book_op" where
  "diff_op u = BookDiff (pd_bids u) (pd_asks u) (pd_final_update_id u) (pd_exchange_ts_ns u)"

text \<open>The book is a snapshot with delivered diffs on top that leave no id out.\<close>

definition book_current :: "nat \<Rightarrow> market_data_lane \<Rightarrow> parsed_depth_update list \<Rightarrow> bool" where
  "book_current n l ins \<longleftrightarrow>
     (\<exists>snap bids asks ts us.
        subseq us ins \<and> covers (unat snap) (map meta us) (unat (by_last_update_id (ml_sync l))) \<and>
        book_sound n (ref_book (Map.empty, Map.empty) (BookSnapshot bids asks snap ts # map diff_op us)) (ml_book l) \<and>
        tb_last_update_id (cb_top (ml_book l)) = by_last_update_id (ml_sync l))"

definition lane_ok :: "nat \<Rightarrow> market_data_lane \<Rightarrow> parsed_depth_update list \<Rightarrow> bool" where
  "lane_ok n l ins \<longleftrightarrow>
     (\<forall>u \<in> set ins. pd_final_update_id u \<noteq> - 1) \<and>
     (by_state (ml_sync l) \<in> {BufferingDiffs, FetchingSnapshot} \<longrightarrow>
        map meta (ml_buffered_depth l) = by_buffered (ml_sync l) \<and> subseq (ml_buffered_depth l) ins) \<and>
     (by_state (ml_sync l) = Live \<longrightarrow> by_last_update_id (ml_sync l) \<noteq> - 1 \<and> book_current n l ins)"

lemma run_book_diffs: "run_book n c (map diff_op us) = foldl (apply_update_to_book n) c us"
  by (induction us arbitrary: c) (simp_all add: diff_op_def)

lemma last_id_foldl:
  "tb_last_update_id (cb_top (foldl (apply_update_to_book n) c us)) =
     (if us = [] then tb_last_update_id (cb_top c) else pd_final_update_id (last us))"
  by (induction us arbitrary: c) (simp_all add: apply_diff_def refresh_top_def)

lemma covers_last: "covers a (map meta us) b \<Longrightarrow> us \<noteq> [] \<Longrightarrow> unat (pd_final_update_id (last us)) = b"
  by (induction us arbitrary: a) (auto simp: meta_def)

lemma snapshot_book_sound:
  "book_sound n (ref_book (Map.empty, Map.empty) (BookSnapshot bids asks snap ts # map diff_op us))
     (foldl (apply_update_to_book n) (apply_book_snapshot n c bids asks snap ts) us)"
  using run_book_sound [OF snapshot_sound, of n bids asks "map diff_op us" c snap ts] by (simp add: run_book_diffs)

lemma snapshot_last_id [simp]: "tb_last_update_id (cb_top (apply_book_snapshot n c bids asks snap ts)) = snap"
  by (simp add: apply_book_snapshot_def refresh_top_def)

lemma ref_book_append: "ref_book m (ops @ ops') = ref_book (ref_book m ops) ops'"
  by (induction m ops rule: ref_book.induct) simp_all

lemma diff_book_sound:
  assumes "book_sound n (ref_book m ops) c"
  shows "book_sound n (ref_book m (ops @ [diff_op u])) (apply_update_to_book n c u)"
  using diff_sound [of n "fst (ref_book m ops)" "snd (ref_book m ops)" c] assms
  by (cases "ref_book m ops") (simp add: ref_book_append diff_op_def)

text \<open>Processing a diff changes the lane as replaying it does; features and signals only read it.\<close>

definition depth_batch ::
  "market_data_lane \<Rightarrow> parsed_depth_update \<Rightarrow> process_outcome \<Rightarrow> replay_batch" where
  "depth_batch l u out = default_batch
     \<lparr>rb_depth := Some (lane_replay_record l KDepthUpdate u (po_latency out)
        (DepthUpdate (po_decision out) (pd_bids u) (pd_asks u))),
      rb_feature := map_option (\<lambda>v. lane_replay_record l KFeature u (po_latency out) (Feature (fv_snapshot v))) (po_feature out),
      rb_signal := map_option (\<lambda>s. lane_replay_record l KSignal u (po_latency out) (SignalPayload s)) (po_signal out)\<rparr>"

text \<open>All there is to know about processing: the lane, the features of its book, the signal and the records.\<close>

lemma process_inner_char:
  assumes "process_depth_update_inner n l u lat clock c = Some (l', out, c')"
  shows "apply_bridge_update_for_replay n l u = (l', po_decision out)"
    and "po_decision out \<noteq> Apply \<longrightarrow> po_feature out = None"
    and "po_decision out = Apply \<longrightarrow>
      compute_features n (pd_symbol_id u) (cb_top (ml_book l')) (ml_flow_1s l') (pd_receive_ts_ns u) = Some (po_feature out)"
    and "po_signal out = Option.bind (po_feature out) (\<lambda>v. evaluate (ml_signal_rules l') (fv_snapshot v))"
    and "po_replay out = depth_batch l' u out"
proof -
  obtain sync d where d: "classify_live_update (ml_sync l) (meta u) = (sync, d)" by fastforce
  obtain t1 c1 where s1: "stamp clock c = (t1, c1)" by fastforce
  obtain t2 c2 where s2: "stamp clock c1 = (t2, c2)" by fastforce
  obtain t3 c3 where s3: "stamp clock c2 = (t3, c3)" by fastforce
  note defs = apply_bridge_update_for_replay_def process_depth_update_inner_def depth_batch_def default_batch_def d s1 s2 s3
  show "apply_bridge_update_for_replay n l u = (l', po_decision out)"
    "po_decision out \<noteq> Apply \<longrightarrow> po_feature out = None"
    "po_decision out = Apply \<longrightarrow>
      compute_features n (pd_symbol_id u) (cb_top (ml_book l')) (ml_flow_1s l') (pd_receive_ts_ns u) = Some (po_feature out)"
    "po_signal out = Option.bind (po_feature out) (\<lambda>v. evaluate (ml_signal_rules l') (fv_snapshot v))"
    using assms by (auto simp: defs Let_def bind_eq_Some_conv split: if_splits)
  show "po_replay out = depth_batch l' u out"
    using assms by (auto simp: defs Let_def bind_eq_Some_conv split: if_splits option.splits)
qed

lemma process_lane:
  "process_depth_update n l u lat = Some (l', out) \<Longrightarrow> apply_bridge_update_for_replay n l u = (l', po_decision out)"
  by (auto simp: process_depth_update_def dest: process_inner_char(1))

lemma bridge_ok:
  assumes ok: "lane_ok n l ins" and "by_state (ml_sync l) \<in> {BufferingDiffs, FetchingSnapshot}" and "snap \<noteq> - 1"
    and bridge: "apply_snapshot_bridge n l snap bids asks ts = (l', out)"
  shows "lane_ok n l' ins"
proof -
  let ?c = "apply_book_snapshot n (ml_book l) bids asks snap ts"
  obtain s r where s: "sync_apply_snapshot (ml_sync l) snap = (s, r)" by fastforce
  obtain st last_id r' where run:
      "apply_buffered snap 0 (by_buffered (ml_sync l)) False snap default_apply_result = (st, last_id, r')"
    by (cases "apply_buffered snap 0 (by_buffered (ml_sync l)) False snap default_apply_result")
  have sr: "by_state s = st" "by_last_update_id s = last_id" "r = r'"
    using s run by (auto simp: sync_apply_snapshot_def)
  have buf: "map meta (ml_buffered_depth l) = by_buffered (ml_sync l)" "subseq (ml_buffered_depth l) ins"
      "\<forall>u \<in> set ins. pd_final_update_id u \<noteq> - 1"
    using ok assms(2) by (auto simp: lane_ok_def)
  have gap: "st \<in> {Live, RebuildRequired}" "ba_gap r = None \<longleftrightarrow> st = Live"
    using apply_buffered_decisions [OF run] sr(3) by (auto simp: default_apply_result_def)
  show ?thesis
  proof (cases "ba_gap r = None")
    case False
    then have "by_state (ml_sync l') = RebuildRequired"
      using bridge s gap sr(1) by (auto simp: apply_snapshot_bridge_def Let_def)
    then show ?thesis using buf(3) by (simp add: lane_ok_def)
  next
    case True
    obtain us where us: "bridge_loop n (ml_buffered_depth l) (ba_decisions r) ?c [] =
        (foldl (apply_update_to_book n) ?c us, map bridge_update us)" "map meta us = applied_updates r"
        "subseq us (ml_buffered_depth l)"
      using bridge_applies [OF buf(1) s True] by blast
    have "\<forall>v \<in> set (by_buffered (ml_sync l)). final_update_id v \<noteq> - 1"
      using buf(2,3) unfolding buf(1) [symmetric] by (auto simp: meta_def dest: list_emb_set)
    from apply_buffered_covers [OF run assms(3) this] sr(3) us(2)
    have cov: "covers (unat snap) (map meta us) (unat last_id)" "last_id \<noteq> - 1"
      by (auto simp: applied_updates_def default_apply_result_def)
    have l': "ml_book l' = foldl (apply_update_to_book n) ?c us" "ml_sync l' = s"
      using bridge s True us(1) by (auto simp: apply_snapshot_bridge_def Let_def)
    have "tb_last_update_id (cb_top (ml_book l')) = last_id"
      using cov(1) covers_last [OF cov(1)] by (cases "us = []") (simp_all add: l' last_id_foldl word_unat_eq_iff)
    moreover have "subseq us ins" using us(3) buf(2) by (rule subseq_order.order_trans)
    ultimately have "book_current n l' ins"
      unfolding book_current_def using cov(1) snapshot_book_sound [of n bids asks snap ts us "ml_book l"] l' sr(2)
      by (intro exI [of _ snap] exI [of _ bids] exI [of _ asks] exI [of _ ts] exI [of _ us]) simp
    then show ?thesis using buf(3) cov(2) sr(2) l'(2) gap(2) True sr(1) by (simp add: lane_ok_def)
  qed
qed

lemma live_ok:
  assumes ok: "lane_ok n l ins" and live: "by_state (ml_sync l) = Live" and u: "pd_final_update_id u \<noteq> - 1"
    and step: "apply_bridge_update_for_replay n l u = (l', d)"
  shows "lane_ok n l' (ins @ [u])"
proof -
  let ?last = "by_last_update_id (ml_sync l)"
  have last: "?last \<noteq> - 1" and ids: "\<forall>v \<in> set (ins @ [u]). pd_final_update_id v \<noteq> - 1"
    using ok live u by (auto simp: lane_ok_def)
  obtain snap bids asks ts us where cur: "subseq us ins" "covers (unat snap) (map meta us) (unat ?last)"
      "book_sound n (ref_book (Map.empty, Map.empty) (BookSnapshot bids asks snap ts # map diff_op us)) (ml_book l)"
      "tb_last_update_id (cb_top (ml_book l)) = ?last"
    using ok live by (auto simp: lane_ok_def book_current_def)
  have d: "d = classify_update ?last (meta u)"
    using step by (auto simp: apply_bridge_update_for_replay_def classify_live_update_def Let_def)
  show ?thesis
  proof (cases d)
    case Apply
    then have l': "ml_book l' = apply_update_to_book n (ml_book l) u" "by_last_update_id (ml_sync l') = pd_final_update_id u"
        "by_state (ml_sync l') = Live"
      using step d by (auto simp: apply_bridge_update_for_replay_def classify_live_update_def Let_def meta_def)
    have "covers (unat ?last) (map meta [u]) (unat (pd_final_update_id u))"
      using classify_Apply [OF last, of "meta u"] Apply d by (simp add: meta_def)
    from covers_append [OF cur(2) this] have "covers (unat snap) (map meta (us @ [u])) (unat (pd_final_update_id u))" by simp
    moreover have "book_sound n (ref_book (Map.empty, Map.empty) (BookSnapshot bids asks snap ts # map diff_op (us @ [u]))) (ml_book l')"
      using diff_book_sound [OF cur(3), of u] l'(1) by simp
    moreover have "tb_last_update_id (cb_top (ml_book l')) = pd_final_update_id u"
      by (simp add: l'(1) apply_diff_def refresh_top_def)
    moreover have "subseq (us @ [u]) (ins @ [u])" using cur(1) by (simp add: list_emb_append_mono)
    ultimately have "book_current n l' (ins @ [u])" unfolding book_current_def l'(2) by blast
    then show ?thesis using l'(2,3) u ids by (simp add: lane_ok_def)
  next
    case IgnoreStale
    then have "l' = l" using step d by (auto simp: apply_bridge_update_for_replay_def classify_live_update_def Let_def)
    moreover have "subseq us (ins @ [u])" using list_emb_append_mono [OF cur(1), of "[]" "[u]"] by simp
    ultimately show ?thesis using cur(2-4) live last ids unfolding lane_ok_def book_current_def by fastforce
  next
    case (Gap e f)
    then have "by_state (ml_sync l') = RebuildRequired"
      using step d by (auto simp: apply_bridge_update_for_replay_def classify_live_update_def Let_def)
    then show ?thesis using ids by (simp add: lane_ok_def)
  next
    case InvalidRange
    then have "by_state (ml_sync l') = RebuildRequired"
      using step d by (auto simp: apply_bridge_update_for_replay_def classify_live_update_def Let_def)
    then show ?thesis using ids by (simp add: lane_ok_def)
  qed
qed

lemma load_ok:
  assumes "lane_ok n l ins" and "snap \<noteq> - 1" and "apply_replay_snapshot n l snap bids asks ts = (l', batch)"
  shows "lane_ok n l' ins"
proof -
  have l': "ml_book l' = apply_book_snapshot n (ml_book l) bids asks snap ts" "by_last_update_id (ml_sync l') = snap"
      "by_state (ml_sync l') = Live"
    using assms(3) by (auto simp: apply_replay_snapshot_def lane_load_snapshot_for_replay_def load_snapshot_for_replay_def Let_def)
  have "book_current n l' ins" unfolding book_current_def
    using snapshot_book_sound [of n bids asks snap ts "[]" "ml_book l"] l'
    by (intro exI [of _ snap] exI [of _ bids] exI [of _ asks] exI [of _ ts] exI [of _ "[]"]) simp
  then show ?thesis using assms(1,2) l' by (simp add: lane_ok_def)
qed

lemma lane_reach_ok: "lane_reach n l ins \<Longrightarrow> lane_ok n l ins"
proof (induction rule: lane_reach.induct)
  case (reach_buffer n l ins u)
  then show ?case
    by (auto simp: lane_ok_def buffer_depth_update_def buffer_diff_def list_emb_append_mono)
next
  case (reach_process n l ins u lat l' out)
  then show ?case using live_ok process_lane by blast
next
  case reach_bridge
  then show ?case using bridge_ok by blast
next
  case reach_load
  then show ?case using load_ok by blast
qed (auto simp: lane_ok_def lane_new_def sync_new_def lane_start_buffering_def start_buffering_def
       lane_start_snapshot_fetch_def start_snapshot_fetch_def)


text \<open>A buffered diff that bridges the snapshot at 100, then a live one.\<close>

definition sample_diff :: "u64 \<Rightarrow> u64 \<Rightarrow> i64 \<Rightarrow> i64 \<Rightarrow> parsed_depth_update" where
  "sample_diff first final p q = \<lparr>pd_symbol_id = 1, pd_exchange_ts_ns = 10, pd_receive_ts_ns = 20,
     pd_first_update_id = first, pd_final_update_id = final, pd_bids = [(p, q)], pd_asks = []\<rparr>"

definition sample_lane0 :: market_data_lane where
  "sample_lane0 = buffer_depth_update (lane_start_buffering (lane_new 3 1 default_signal_rules)) (sample_diff 99 101 100 5)"

definition sample_lane1 :: market_data_lane where
  "sample_lane1 = fst (apply_snapshot_bridge 3 sample_lane0 100 [(98, 4)] [(104, 2)] 7)"

definition sample_lane2 :: market_data_lane where
  "sample_lane2 = fst (the (process_depth_update 3 sample_lane1 (sample_diff 102 103 98 0) default_latency))"


end
