(* ===== verification/Depth_Replay.thy ===== *)
theory Depth_Replay
  imports Depth_Lane
begin

text \<open>
  Recording and replaying a depth capture (\<open>apps/binance-md/src/main.rs\<close>): the loop of the live command over
  the depth messages, with the records it writes, and the replay command that rebuilds the lane from those
  records and counts every difference. The websocket, the snapshot request and the clock are inputs; JSON
  encoding and the files are outside.
\<close>

subsection \<open>Replay\<close>

text \<open>Both commands run a lane of fifty levels with the default rules.\<close>

definition lane_levels :: nat where
  "lane_levels = 50"

record replay_summary =
  sm_snapshots :: u64
  sm_depth_updates :: u64
  sm_applied :: u64
  sm_ignored :: u64
  sm_gaps :: u64
  sm_features :: u64
  sm_signals :: u64
  sm_parity_mismatches :: u64
  sm_final_update_id :: u64

definition default_summary :: replay_summary where
  "default_summary = \<lparr>sm_snapshots = 0, sm_depth_updates = 0, sm_applied = 0, sm_ignored = 0, sm_gaps = 0,
     sm_features = 0, sm_signals = 0, sm_parity_mismatches = 0, sm_final_update_id = 0\<rparr>"

definition mismatch_if :: "bool \<Rightarrow> replay_summary \<Rightarrow> replay_summary" where
  "mismatch_if b s = (if b then s\<lparr>sm_parity_mismatches := sm_parity_mismatches s + 1\<rparr> else s)"

record replay_state =
  rs_lane :: market_data_lane
  rs_summary :: replay_summary
  rs_pending_feature :: "feature_snapshot option"
  rs_pending_signal :: "signal option"

definition of_bridge_update :: "replay_bridge_update \<Rightarrow> parsed_depth_update" where
  "of_bridge_update b = \<lparr>pd_symbol_id = bu_symbol_id b, pd_exchange_ts_ns = bu_exchange_ts_ns b,
     pd_receive_ts_ns = bu_receive_ts_ns b, pd_first_update_id = bu_first_id b, pd_final_update_id = bu_final_id b,
     pd_bids = bu_bid_levels b, pd_asks = bu_ask_levels b\<rparr>"

fun replay_bridge :: "market_data_lane \<Rightarrow> replay_summary \<Rightarrow> replay_bridge_update list \<Rightarrow> market_data_lane \<times> replay_summary" where
  "replay_bridge l s [] = (l, s)"
| "replay_bridge l s (b # bs) =
     (case apply_bridge_update_for_replay lane_levels l (of_bridge_update b) of
        (l, d) \<Rightarrow> replay_bridge l (mismatch_if (d \<noteq> Apply) s) bs)"

definition of_depth_record ::
  "replay_record \<Rightarrow> (i64 \<times> i64) list \<Rightarrow> (i64 \<times> i64) list \<Rightarrow> parsed_depth_update" where
  "of_depth_record r bids asks = \<lparr>pd_symbol_id = rp_symbol_id r, pd_exchange_ts_ns = rp_exchange_ts_ns r,
     pd_receive_ts_ns = rp_receive_ts_ns r, pd_first_update_id = rp_first_update_id r,
     pd_final_update_id = rp_final_update_id r, pd_bids = bids, pd_asks = asks\<rparr>"

definition count_decision :: "sequence_decision \<Rightarrow> replay_summary \<Rightarrow> replay_summary" where
  "count_decision d s =
     (case d of
        Apply \<Rightarrow> s\<lparr>sm_applied := sm_applied s + 1\<rparr>
      | IgnoreStale \<Rightarrow> s\<lparr>sm_ignored := sm_ignored s + 1\<rparr>
      | _ \<Rightarrow> s\<lparr>sm_gaps := sm_gaps s + 1\<rparr>)"

text \<open>One record of the file; the guard of the signal arm takes the pending signal in any case.\<close>

definition replay_one :: "replay_state \<Rightarrow> replay_record \<Rightarrow> replay_state option" where
  "replay_one st r =
     (let s = rs_summary st in
      case rp_payload r of
        SnapshotLevels bids asks \<Rightarrow>
          Some (st\<lparr>rs_lane := lane_load_snapshot_for_replay lane_levels (rs_lane st) (rp_final_update_id r) bids asks
                     (rp_exchange_ts_ns r),
                   rs_summary := s\<lparr>sm_snapshots := sm_snapshots s + 1\<rparr>\<rparr>)
      | Bridge result applied \<Rightarrow>
          (case replay_bridge (rs_lane st) (mismatch_if (ba_applied result \<noteq> length applied) s) applied of
             (l, s) \<Rightarrow>
               Some (st\<lparr>rs_lane := l,
                 rs_summary := mismatch_if (by_last_update_id (ml_sync l) \<noteq> rp_last_book_update_id r) s\<rparr>))
      | DepthUpdate d bids asks \<Rightarrow>
          do {
            let s = s\<lparr>sm_depth_updates := sm_depth_updates s + 1\<rparr>;
            (l, out) \<leftarrow> process_depth_update lane_levels (rs_lane st) (of_depth_record r bids asks) (rp_latency r);
            let s = mismatch_if (po_decision out \<noteq> d) s;
            let s = count_decision (po_decision out) s;
            let s = mismatch_if (rs_pending_feature st \<noteq> None \<or> rs_pending_signal st \<noteq> None) s;
            let s = (if po_signal out \<noteq> None then s\<lparr>sm_signals := sm_signals s + 1\<rparr> else s);
            Some \<lparr>rs_lane = l, rs_summary = s, rs_pending_feature = map_option fv_snapshot (po_feature out),
              rs_pending_signal = po_signal out\<rparr>
          }
      | Feature f \<Rightarrow>
          Some (st\<lparr>rs_summary :=
              (if rs_pending_feature st = Some f then s\<lparr>sm_features := sm_features s + 1\<rparr> else mismatch_if True s),
            rs_pending_feature := None\<rparr>)
      | SignalPayload g \<Rightarrow>
          Some (st\<lparr>rs_summary := mismatch_if (rs_pending_signal st \<noteq> Some g) s, rs_pending_signal := None\<rparr>)
      | RawFrame bytes \<Rightarrow> Some st)"

fun replay_all :: "replay_state \<Rightarrow> replay_record list \<Rightarrow> replay_state option" where
  "replay_all st [] = Some st"
| "replay_all st (r # rs) = Option.bind (replay_one st r) (\<lambda>st. replay_all st rs)"

definition replay_start :: "u32 \<Rightarrow> replay_state" where
  "replay_start sid = \<lparr>rs_lane = lane_new lane_levels sid default_signal_rules, rs_summary = default_summary,
     rs_pending_feature = None, rs_pending_signal = None\<rparr>"

definition replay_records :: "replay_record list \<Rightarrow> u32 \<Rightarrow> replay_summary option" where
  "replay_records records sid =
     do {
       st \<leftarrow> replay_all (replay_start sid) records;
       let s = mismatch_if (rs_pending_feature st \<noteq> None \<or> rs_pending_signal st \<noteq> None) (rs_summary st);
       Some (s\<lparr>sm_final_update_id := by_last_update_id (ml_sync (rs_lane st))\<rparr>)
     }"

subsection \<open>The live loop\<close>

record fixed_snapshot =
  sn_last_update_id :: u64
  sn_bids :: "(i64 \<times> i64) list"
  sn_asks :: "(i64 \<times> i64) list"

text \<open>
  A depth message as the loop sees it: the normalised diff, the bytes of the frame, the latency trace up to
  the parser, and what a snapshot request at this point would return with the time after it. \<open>None\<close>
  is the deadline of the run, which ends the loop.
\<close>

record live_input =
  li_update :: parsed_depth_update
  li_bytes :: "8 word list"
  li_latency :: latency_trace
  li_fetch :: "(fixed_snapshot \<times> i64) option"

record live_stats =
  st_depth_messages :: u64
  st_warmup_depth_updates :: u64
  st_evidence_non_apply_exclusions :: u64
  st_signals :: u64
  st_rebuilds :: u64
  st_replay_records :: u64

record 'c live_state =
  lv_lane :: market_data_lane
  lv_snapshot_bridged :: bool
  lv_stats :: live_stats
  lv_written :: "replay_record list"
  lv_clock :: 'c

definition raw_replay_record ::
  "u32 \<Rightarrow> parsed_depth_update \<Rightarrow> latency_trace \<Rightarrow> book_sync_state \<Rightarrow> u64 \<Rightarrow> 8 word list \<Rightarrow> replay_record" where
  "raw_replay_record sid u lat st last_id bytes =
     \<lparr>rp_kind = KRawFrame, rp_symbol_id = sid, rp_exchange_ts_ns = pd_exchange_ts_ns u,
      rp_receive_ts_ns = pd_receive_ts_ns u, rp_first_update_id = pd_first_update_id u,
      rp_final_update_id = pd_final_update_id u, rp_sync_state = st, rp_last_book_update_id = last_id,
      rp_latency = lat, rp_payload = RawFrame bytes\<rparr>"

text \<open>Records are written only when the command was given a file for them.\<close>

definition write_batch :: "bool \<Rightarrow> replay_batch \<Rightarrow> 'c live_state \<Rightarrow> 'c live_state" where
  "write_batch rec b s =
     (if rec
      then s\<lparr>lv_stats := (lv_stats s)\<lparr>st_replay_records := st_replay_records (lv_stats s) +
               word_of_nat (length (batch_records b))\<rparr>,
             lv_written := lv_written s @ batch_records b\<rparr>
      else s)"

text \<open>Before the bridge: hold the diff back, fetch, bridge; a gap starts the buffering over.\<close>

definition live_warmup :: "bool \<Rightarrow> 'c live_state \<Rightarrow> live_input \<Rightarrow> bool \<times> 'c live_state" where
  "live_warmup rec s i =
     (let s = s\<lparr>lv_stats := (lv_stats s)\<lparr>st_warmup_depth_updates := st_warmup_depth_updates (lv_stats s) + 1\<rparr>,
                lv_lane := buffer_depth_update (lv_lane s) (li_update i)\<rparr>
      in case li_fetch i of
           None \<Rightarrow> (False, s)
         | Some (snap, now) \<Rightarrow>
             let (l, out) = apply_snapshot_bridge lane_levels (lv_lane s) (sn_last_update_id snap) (sn_bids snap) (sn_asks snap) now;
                 s = write_batch rec (bo_replay out) (s\<lparr>lv_lane := l\<rparr>)
             in if ba_gap (bo_result out) \<noteq> None
                then (True, s\<lparr>lv_stats := (lv_stats s)\<lparr>st_rebuilds := st_rebuilds (lv_stats s) + 1\<rparr>,
                              lv_lane := lane_start_buffering (lv_lane s)\<rparr>)
                else (True, s\<lparr>lv_snapshot_bridged := True\<rparr>))"

text \<open>After a diff that left a gap: count it and load a snapshot.\<close>

definition live_rebuild :: "bool \<Rightarrow> 'c live_state \<Rightarrow> live_input \<Rightarrow> bool \<times> 'c live_state" where
  "live_rebuild rec s i =
     (if by_state (ml_sync (lv_lane s)) \<noteq> RebuildRequired then (True, s)
      else let s = s\<lparr>lv_stats := (lv_stats s)\<lparr>st_rebuilds := st_rebuilds (lv_stats s) + 1\<rparr>\<rparr>
           in case li_fetch i of
                None \<Rightarrow> (False, s)
              | Some (snap, now) \<Rightarrow>
                  let (l, batch) = apply_replay_snapshot lane_levels (lv_lane s) (sn_last_update_id snap) (sn_bids snap) (sn_asks snap) now
                  in (True, write_batch rec batch (s\<lparr>lv_lane := l\<rparr>)))"

definition count_message :: "bool \<Rightarrow> live_stats \<Rightarrow> live_stats" where
  "count_message has_signal t =
     (let t = t\<lparr>st_depth_messages := st_depth_messages t + 1\<rparr>
      in if has_signal then t\<lparr>st_signals := st_signals t + 1\<rparr> else t)"

definition record_evidence_sample :: "sequence_decision \<Rightarrow> live_stats \<Rightarrow> live_stats" where
  "record_evidence_sample d t =
     (if d \<noteq> Apply then t\<lparr>st_evidence_non_apply_exclusions := st_evidence_non_apply_exclusions t + 1\<rparr> else t)"

text \<open>After the bridge with recording: process the diff with the clock and write its records.\<close>

definition live_process :: "u32 \<Rightarrow> ('c \<Rightarrow> i64 \<times> 'c) \<Rightarrow> 'c live_state \<Rightarrow> live_input \<Rightarrow> (bool \<times> 'c live_state) option" where
  "live_process sid clock s i =
     do {
       (l, out, c) \<leftarrow> process_depth_update_with_clock lane_levels (lv_lane s) (li_update i) (li_latency i) clock (lv_clock s);
       let out = out\<lparr>po_replay := (po_replay out)\<lparr>rb_raw := Some (raw_replay_record sid (li_update i) (po_latency out)
         (by_state (ml_sync l)) (by_last_update_id (ml_sync l)) (li_bytes i))\<rparr>\<rparr>;
       let s = s\<lparr>lv_lane := l, lv_stats := count_message (po_signal out \<noteq> None) (lv_stats s), lv_clock := c\<rparr>;
       let s = write_batch True (po_replay out) s;
       let s = s\<lparr>lv_stats := record_evidence_sample (po_decision out) (lv_stats s)\<rparr>;
       Some (live_rebuild True s i)
     }"

text \<open>Without recording the fast path is taken.\<close>

definition live_process_fast :: "('c \<Rightarrow> i64 \<times> 'c) \<Rightarrow> 'c live_state \<Rightarrow> live_input \<Rightarrow> (bool \<times> 'c live_state) option" where
  "live_process_fast clock s i =
     do {
       (l, out, c) \<leftarrow> process_depth_update_fast_with_clock lane_levels (lv_lane s) (li_update i) (li_latency i) clock (lv_clock s);
       let s = s\<lparr>lv_lane := l, lv_stats := count_message (fo_signal out \<noteq> None) (lv_stats s), lv_clock := c\<rparr>;
       let s = s\<lparr>lv_stats := record_evidence_sample (fo_decision out) (lv_stats s)\<rparr>;
       Some (live_rebuild False s i)
     }"

definition live_message ::
  "u32 \<Rightarrow> bool \<Rightarrow> ('c \<Rightarrow> i64 \<times> 'c) \<Rightarrow> 'c live_state \<Rightarrow> live_input \<Rightarrow> (bool \<times> 'c live_state) option" where
  "live_message sid rec clock s i =
     (if \<not> lv_snapshot_bridged s then Some (live_warmup rec s i)
      else if rec then live_process sid clock s i
      else live_process_fast clock s i)"

fun live_loop :: "u32 \<Rightarrow> bool \<Rightarrow> ('c \<Rightarrow> i64 \<times> 'c) \<Rightarrow> 'c live_state \<Rightarrow> live_input list \<Rightarrow> 'c live_state option" where
  "live_loop sid rec clock s [] = Some s"
| "live_loop sid rec clock s (i # is) =
     do {
       (continue, s) \<leftarrow> live_message sid rec clock s i;
       if continue then live_loop sid rec clock s is else Some s
     }"

definition live_start :: "u32 \<Rightarrow> 'c \<Rightarrow> 'c live_state" where
  "live_start sid c =
     \<lparr>lv_lane = lane_start_buffering (lane_new lane_levels sid default_signal_rules), lv_snapshot_bridged = False,
      lv_stats = \<lparr>st_depth_messages = 0, st_warmup_depth_updates = 0, st_evidence_non_apply_exclusions = 0,
        st_signals = 0, st_rebuilds = 0, st_replay_records = 0\<rparr>,
      lv_written = [], lv_clock = c\<rparr>"

definition run_live :: "u32 \<Rightarrow> bool \<Rightarrow> ('c \<Rightarrow> i64 \<times> 'c) \<Rightarrow> 'c \<Rightarrow> live_input list \<Rightarrow> 'c live_state option" where
  "run_live sid rec clock c inputs = live_loop sid rec clock (live_start sid c) inputs"

subsection \<open>The replay follows the capture\<close>

definition replay_sim :: "'c live_state \<Rightarrow> replay_state \<Rightarrow> bool" where
  "replay_sim s st \<longleftrightarrow>
     rs_pending_feature st = None \<and> rs_pending_signal st = None \<and> sm_parity_mismatches (rs_summary st) = 0 \<and>
     sm_depth_updates (rs_summary st) = st_depth_messages (lv_stats s) \<and>
     sm_signals (rs_summary st) = st_signals (lv_stats s) \<and>
     ml_signal_rules (rs_lane st) = ml_signal_rules (lv_lane s) \<and> ml_flow_1s (rs_lane st) = ml_flow_1s (lv_lane s) \<and>
     (lv_snapshot_bridged s \<longrightarrow> ml_book (rs_lane st) = ml_book (lv_lane s) \<and>
        by_last_update_id (ml_sync (rs_lane st)) = by_last_update_id (ml_sync (lv_lane s)))"

text \<open>Before the bridge the buffer is empty between messages: every message is bridged at once or dropped.\<close>

definition live_ready :: "'c live_state \<Rightarrow> bool" where
  "live_ready s \<longleftrightarrow> lv_snapshot_bridged s \<or>
     by_state (ml_sync (lv_lane s)) = BufferingDiffs \<and> by_buffered (ml_sync (lv_lane s)) = [] \<and>
     ml_buffered_depth (lv_lane s) = []"

lemma replay_all_append: "replay_all st (rs @ rs') = Option.bind (replay_all st rs) (\<lambda>st. replay_all st rs')"
  by (induction rs arbitrary: st) (auto split: option.splits bind_splits)

lemma snapshot_any_book: "apply_book_snapshot n c bids asks u ns = apply_book_snapshot n c' bids asks u ns"
  by (simp add: apply_book_snapshot_def refresh_top_def)

lemma of_bridge_update_inverse [simp]: "of_bridge_update (bridge_update u) = u"
  by (simp add: of_bridge_update_def bridge_update_def)

lemma of_depth_record_inverse [simp]: "of_depth_record (lane_replay_record l k u lat p) (pd_bids u) (pd_asks u) = u"
  by (simp add: of_depth_record_def lane_replay_record_def)

text \<open>A single diff in the buffer is applied by the bridge exactly when the live rule would apply it.\<close>

lemma single_bridge:
  assumes "sync_apply_snapshot s snap = (s', r)" and "by_buffered s = [m]"
  obtains (none) "ba_applied r = 0" "by_last_update_id s' = snap" "\<forall>d \<in> set (ba_decisions r). bd_decision d \<noteq> Apply"
  | (one) "ba_gap r = None" "ba_applied r = 1" "by_last_update_id s' = final_update_id m"
      "ba_decisions r = [\<lparr>bd_index = 0, bd_update = m, bd_decision = Apply\<rparr>]" "classify_update snap m = Apply"
proof -
  have "(ba_applied r = 0 \<and> by_last_update_id s' = snap \<and> (\<forall>d \<in> set (ba_decisions r). bd_decision d \<noteq> Apply)) \<or>
      (ba_gap r = None \<and> ba_applied r = 1 \<and> by_last_update_id s' = final_update_id m \<and>
       ba_decisions r = [\<lparr>bd_index = 0, bd_update = m, bd_decision = Apply\<rparr>] \<and> classify_update snap m = Apply)"
    using assms
    by (auto simp: sync_apply_snapshot_def default_apply_result_def split: if_splits sequence_decision.splits)
  then show thesis using none one by blast
qed

lemma bridge_loop_none: "\<forall>d \<in> set ds. bd_decision d \<noteq> Apply \<Longrightarrow> bridge_loop n buf ds c acc = (c, acc)"
  by (induction ds) simp_all

text \<open>The replay of the two records a bridge of one diff wrote.\<close>

lemma replay_bridge_records:
  assumes bridge: "apply_snapshot_bridge lane_levels l snap bids asks now = (l', out)"
    and buf: "ml_buffered_depth l = [u]" "by_buffered (ml_sync l) = [meta u]"
  shows "\<exists>rl s. replay_all st (batch_records (bo_replay out)) = Some (st\<lparr>rs_lane := rl, rs_summary := s\<rparr>) \<and>
    sm_parity_mismatches s = sm_parity_mismatches (rs_summary st) \<and>
    sm_depth_updates s = sm_depth_updates (rs_summary st) \<and> sm_signals s = sm_signals (rs_summary st) \<and>
    ml_signal_rules rl = ml_signal_rules (rs_lane st) \<and> ml_flow_1s rl = ml_flow_1s (rs_lane st) \<and>
    ml_book rl = ml_book l' \<and> by_last_update_id (ml_sync rl) = by_last_update_id (ml_sync l')"
proof -
  let ?c = "apply_book_snapshot lane_levels (ml_book l) bids asks snap now"
  let ?rl = "lane_load_snapshot_for_replay lane_levels (rs_lane st) snap bids asks now"
  have book: "apply_book_snapshot lane_levels (ml_book (rs_lane st)) bids asks snap now = ?c" by (rule snapshot_any_book)
  obtain s r where s: "sync_apply_snapshot (ml_sync l) snap = (s, r)" by fastforce
  show ?thesis using s buf(2)
  proof (cases rule: single_bridge)
    case none
    then have "ml_book l' = ?c" "ml_sync l' = s" "bo_replay out = default_batch
        \<lparr>rb_snapshot := Some (snapshot_replay_record l' KSnapshot snap now (SnapshotLevels bids asks)),
         rb_bridge := Some (snapshot_replay_record l' KBridge snap now (Bridge r []))\<rparr>"
      using bridge s by (auto simp: apply_snapshot_bridge_def bridge_loop_none Let_def split: if_splits)
    with none book show ?thesis
      by (intro exI [of _ ?rl] exI [of _ "(rs_summary st)\<lparr>sm_snapshots := sm_snapshots (rs_summary st) + 1\<rparr>"])
         (simp add: batch_records_def List.map_filter_def default_batch_def snapshot_replay_record_def replay_one_def
           mismatch_if_def lane_load_snapshot_for_replay_def load_snapshot_for_replay_def Let_def)
  next
    case one
    then have l': "ml_book l' = apply_update_to_book lane_levels ?c u" "ml_sync l' = s" "bo_replay out = default_batch
        \<lparr>rb_snapshot := Some (snapshot_replay_record l' KSnapshot snap now (SnapshotLevels bids asks)),
         rb_bridge := Some (snapshot_replay_record l' KBridge snap now (Bridge r [bridge_update u]))\<rparr>"
      using bridge s buf(1) by (auto simp: apply_snapshot_bridge_def Let_def)
    have step: "apply_bridge_update_for_replay lane_levels ?rl u =
        (?rl\<lparr>ml_sync := (ml_sync ?rl)\<lparr>by_last_update_id := pd_final_update_id u, by_state := Live\<rparr>,
             ml_book := apply_update_to_book lane_levels ?c u\<rparr>, Apply)"
      using one(5) book by (simp add: apply_bridge_update_for_replay_def classify_live_update_def Let_def meta_def
          lane_load_snapshot_for_replay_def load_snapshot_for_replay_def)
    show ?thesis using one l' step
      by (intro exI [of _ "fst (apply_bridge_update_for_replay lane_levels ?rl u)"]
            exI [of _ "(rs_summary st)\<lparr>sm_snapshots := sm_snapshots (rs_summary st) + 1\<rparr>"])
         (simp add: batch_records_def List.map_filter_def default_batch_def snapshot_replay_record_def replay_one_def
            mismatch_if_def Let_def meta_def, simp add: lane_load_snapshot_for_replay_def)
  qed
qed

lemma warmup_sim:
  assumes sim: "replay_sim s st" and ready: "live_ready s" "\<not> lv_snapshot_bridged s"
    and step: "live_warmup True s i = (cont, s')"
  shows "\<exists>recs st'. lv_written s' = lv_written s @ recs \<and> replay_all st recs = Some st' \<and> replay_sim s' st' \<and>
    (cont \<longrightarrow> live_ready s')"
proof -
  let ?l = "buffer_depth_update (lv_lane s) (li_update i)"
  have l: "ml_buffered_depth ?l = [li_update i]" "by_buffered (ml_sync ?l) = [meta (li_update i)]"
      "ml_signal_rules ?l = ml_signal_rules (lv_lane s)" "ml_flow_1s ?l = ml_flow_1s (lv_lane s)"
    using ready by (auto simp: live_ready_def buffer_depth_update_def buffer_diff_def)
  show ?thesis
  proof (cases "li_fetch i")
    case None
    with step have "lv_written s' = lv_written s" "replay_sim s' st" "\<not> cont"
      using sim ready(2) l(3,4) by (auto simp: live_warmup_def Let_def replay_sim_def)
    then show ?thesis by (intro exI [of _ "[]"]) simp
  next
    case (Some f)
    then obtain snap now where f: "li_fetch i = Some (snap, now)" by (cases f) auto
    obtain l' out where b: "apply_snapshot_bridge lane_levels ?l (sn_last_update_id snap) (sn_bids snap) (sn_asks snap) now = (l', out)"
      by fastforce
    then have keep: "ml_signal_rules l' = ml_signal_rules (lv_lane s)" "ml_flow_1s l' = ml_flow_1s (lv_lane s)"
      using l(3,4) by (auto simp: apply_snapshot_bridge_def Let_def split: prod.splits)
    from replay_bridge_records [OF b l(1,2), of st] obtain rl sm where
      r: "replay_all st (batch_records (bo_replay out)) = Some (st\<lparr>rs_lane := rl, rs_summary := sm\<rparr>)"
      and same: "sm_parity_mismatches sm = sm_parity_mismatches (rs_summary st)"
        "sm_depth_updates sm = sm_depth_updates (rs_summary st)" "sm_signals sm = sm_signals (rs_summary st)"
        "ml_signal_rules rl = ml_signal_rules (rs_lane st)" "ml_flow_1s rl = ml_flow_1s (rs_lane st)"
        "ml_book rl = ml_book l'" "by_last_update_id (ml_sync rl) = by_last_update_id (ml_sync l')" by blast
    have "lv_written s' = lv_written s @ batch_records (bo_replay out)" "cont"
      using step f b by (auto simp: live_warmup_def Let_def write_batch_def split: if_splits)
    moreover have "replay_sim s' (st\<lparr>rs_lane := rl, rs_summary := sm\<rparr>)" "live_ready s'"
      using step f b sim ready(2) same keep
      by (auto simp: live_warmup_def Let_def write_batch_def replay_sim_def live_ready_def lane_start_buffering_def
            start_buffering_def split: if_splits)
    ultimately show ?thesis using r by (intro exI [of _ "batch_records (bo_replay out)"]) blast
  qed
qed

text \<open>Only the book and the last id of a lane decide what a diff does.\<close>

lemma bridge_step_cong:
  assumes "apply_bridge_update_for_replay n l u = (l', d)" and "ml_book k = ml_book l"
    and "by_last_update_id (ml_sync k) = by_last_update_id (ml_sync l)"
  shows "\<exists>k'. apply_bridge_update_for_replay n k u = (k', d) \<and> ml_book k' = ml_book l' \<and>
    by_last_update_id (ml_sync k') = by_last_update_id (ml_sync l') \<and>
    ml_signal_rules k' = ml_signal_rules k \<and> ml_flow_1s k' = ml_flow_1s k \<and>
    ml_signal_rules l' = ml_signal_rules l \<and> ml_flow_1s l' = ml_flow_1s l"
  using assms
  by (cases "classify_update (by_last_update_id (ml_sync l)) (meta u)")
     (auto simp: apply_bridge_update_for_replay_def classify_live_update_def Let_def split: sequence_decision.splits)

lemma process_total:
  assumes "apply_bridge_update_for_replay n l u = (l', d)"
    and "d = Apply \<longrightarrow> compute_features n (pd_symbol_id u) (cb_top (ml_book l')) (ml_flow_1s l') (pd_receive_ts_ns u) = Some f"
  shows "\<exists>out. process_depth_update n l u lat = Some (l', out)"
  using assms
  by (cases "classify_update (by_last_update_id (ml_sync l)) (meta u)")
     (auto simp: process_depth_update_def process_depth_update_inner_def apply_bridge_update_for_replay_def
        classify_live_update_def stamp_def stamped_def Let_def split: sequence_decision.splits)

lemma process_replayed:
  assumes live: "process_depth_update_inner n l u lat clock c = Some (l', out, c')"
    and same: "ml_book k = ml_book l" "by_last_update_id (ml_sync k) = by_last_update_id (ml_sync l)"
      "ml_signal_rules k = ml_signal_rules l" "ml_flow_1s k = ml_flow_1s l"
  shows "\<exists>k' out'. process_depth_update n k u lat' = Some (k', out') \<and> po_decision out' = po_decision out \<and>
    po_feature out' = po_feature out \<and> po_signal out' = po_signal out \<and>
    ml_book k' = ml_book l' \<and> by_last_update_id (ml_sync k') = by_last_update_id (ml_sync l') \<and>
    ml_signal_rules k' = ml_signal_rules k \<and> ml_flow_1s k' = ml_flow_1s k \<and>
    ml_signal_rules l' = ml_signal_rules l \<and> ml_flow_1s l' = ml_flow_1s l"
proof -
  from bridge_step_cong [OF process_inner_char(1) [OF live] same(1,2)] obtain k' where
    k': "apply_bridge_update_for_replay n k u = (k', po_decision out)" "ml_book k' = ml_book l'"
      "by_last_update_id (ml_sync k') = by_last_update_id (ml_sync l')" "ml_signal_rules k' = ml_signal_rules k"
      "ml_flow_1s k' = ml_flow_1s k" "ml_signal_rules l' = ml_signal_rules l" "ml_flow_1s l' = ml_flow_1s l" by blast
  then obtain out' where "process_depth_update n k u lat' = Some (k', out')"
    using process_total [OF k'(1), of "po_feature out" lat'] process_inner_char(3) [OF live] same(4) by auto
  then obtain x where out': "process_depth_update_inner n k u lat' None () = Some (k', out', x)"
    by (auto simp: process_depth_update_def)
  note new = process_inner_char [OF out'] and old = process_inner_char [OF live]
  have d: "po_decision out' = po_decision out" using new(1) k'(1) by simp
  have f: "po_feature out' = po_feature out"
    using new(2,3) old(2,3) d k'(2,5,7) same(4) by (cases "po_decision out = Apply") auto
  have "po_signal out' = po_signal out" using new(4) old(4) f k'(4,6) same(3) by simp
  then show ?thesis using d f k' out' by (auto simp: process_depth_update_def)
qed

text \<open>The records of one processed diff leave nothing pending and nothing to complain about.\<close>

lemma replay_depth_records:
  assumes "process_depth_update lane_levels (rs_lane st) u lat = Some (k, out')"
    and "lat = po_latency out" and "po_decision out' = po_decision out" and "po_feature out' = po_feature out"
    and "po_signal out' = po_signal out" and "rs_pending_feature st = None" and "rs_pending_signal st = None"
    and "rp_payload raw = RawFrame bytes"
  shows "\<exists>s. replay_all st (batch_records ((depth_batch l u out)\<lparr>rb_raw := Some raw\<rparr>)) =
      Some \<lparr>rs_lane = k, rs_summary = s, rs_pending_feature = None, rs_pending_signal = None\<rparr> \<and>
    sm_parity_mismatches s = sm_parity_mismatches (rs_summary st) \<and>
    sm_depth_updates s = sm_depth_updates (rs_summary st) + 1 \<and>
    sm_signals s = (if po_signal out = None then sm_signals (rs_summary st) else sm_signals (rs_summary st) + 1)"
proof -
  have fields: "of_depth_record (lane_replay_record l KDepthUpdate u (po_latency out) p) (pd_bids u) (pd_asks u) = u"
      "rp_latency (lane_replay_record l KDepthUpdate u (po_latency out) p) = po_latency out"
      "rp_payload (lane_replay_record l kind u (po_latency out) p) = p" for kind p
    by (rule of_depth_record_inverse) (simp_all add: lane_replay_record_def)
  have count: "sm_parity_mismatches (count_decision d x) = sm_parity_mismatches x"
      "sm_depth_updates (count_decision d x) = sm_depth_updates x" "sm_signals (count_decision d x) = sm_signals x" for d x
    by (simp_all add: count_decision_def split: sequence_decision.splits)
  show ?thesis
    using assms
    by (cases "po_feature out"; cases "po_signal out")
       (simp_all add: batch_records_def List.map_filter_def depth_batch_def default_batch_def replay_one_def fields count
          mismatch_if_def Let_def)
qed

lemma replay_snapshot_records:
  assumes "apply_replay_snapshot lane_levels l snap bids asks now = (l', batch)"
  shows "\<exists>rl s. replay_all st (batch_records batch) = Some (st\<lparr>rs_lane := rl, rs_summary := s\<rparr>) \<and>
    sm_parity_mismatches s = sm_parity_mismatches (rs_summary st) \<and>
    sm_depth_updates s = sm_depth_updates (rs_summary st) \<and> sm_signals s = sm_signals (rs_summary st) \<and>
    ml_signal_rules rl = ml_signal_rules (rs_lane st) \<and> ml_flow_1s rl = ml_flow_1s (rs_lane st) \<and>
    ml_book rl = ml_book l' \<and> by_last_update_id (ml_sync rl) = by_last_update_id (ml_sync l')"
  using assms snapshot_any_book [of lane_levels "ml_book (rs_lane st)" bids asks snap now "ml_book l"]
  by (intro exI [of _ "lane_load_snapshot_for_replay lane_levels (rs_lane st) snap bids asks now"]
        exI [of _ "(rs_summary st)\<lparr>sm_snapshots := sm_snapshots (rs_summary st) + 1\<rparr>"])
     (auto simp: apply_replay_snapshot_def batch_records_def List.map_filter_def default_batch_def
        snapshot_replay_record_def replay_one_def lane_load_snapshot_for_replay_def load_snapshot_for_replay_def Let_def)

lemma apply_replay_snapshot_keeps:
  "apply_replay_snapshot n l snap bids asks now = (l', batch) \<Longrightarrow>
    ml_signal_rules l' = ml_signal_rules l \<and> ml_flow_1s l' = ml_flow_1s l"
  by (auto simp: apply_replay_snapshot_def lane_load_snapshot_for_replay_def Let_def)

lemma process_sim:
  assumes sim: "replay_sim s st" and bridged: "lv_snapshot_bridged s"
    and step: "live_process sid clock s i = Some (cont, s')"
  shows "\<exists>recs st'. lv_written s' = lv_written s @ recs \<and> replay_all st recs = Some st' \<and> replay_sim s' st' \<and>
    lv_snapshot_bridged s'"
proof -
  let ?u = "li_update i"
  obtain l out c where live: "process_depth_update_inner lane_levels (lv_lane s) ?u (li_latency i) (Some clock) (lv_clock s)
      = Some (l, out, c)"
    using step by (auto simp: live_process_def process_depth_update_with_clock_def bind_eq_Some_conv)
  define raw where "raw = raw_replay_record sid ?u (po_latency out) (by_state (ml_sync l)) (by_last_update_id (ml_sync l)) (li_bytes i)"
  define recs where "recs = batch_records ((depth_batch l ?u out)\<lparr>rb_raw := Some raw\<rparr>)"
  have batch: "po_replay out = depth_batch l ?u out" by (rule process_inner_char(5) [OF live])
  from process_replayed [OF live, of "rs_lane st" "po_latency out"] sim bridged obtain k out' where
    k: "process_depth_update lane_levels (rs_lane st) ?u (po_latency out) = Some (k, out')"
      "po_decision out' = po_decision out" "po_feature out' = po_feature out" "po_signal out' = po_signal out"
    and same: "ml_book k = ml_book l" "by_last_update_id (ml_sync k) = by_last_update_id (ml_sync l)"
      "ml_signal_rules k = ml_signal_rules l" "ml_flow_1s k = ml_flow_1s l"
    by (auto simp: replay_sim_def)
  obtain sm where r: "replay_all st recs = Some \<lparr>rs_lane = k, rs_summary = sm, rs_pending_feature = None, rs_pending_signal = None\<rparr>"
      "sm_parity_mismatches sm = 0" "sm_depth_updates sm = st_depth_messages (lv_stats s) + 1"
      "sm_signals sm = (if po_signal out = None then st_signals (lv_stats s) else st_signals (lv_stats s) + 1)"
    using replay_depth_records [OF k(1) refl k(2,3,4), of raw "li_bytes i" l] sim
    by (auto simp: recs_def replay_sim_def raw_def raw_replay_record_def)
  have "(lv_written s' = lv_written s @ recs \<and> lv_lane s' = l) \<or>
      (\<exists>(snap :: fixed_snapshot) now b. apply_replay_snapshot lane_levels l (sn_last_update_id snap) (sn_bids snap) (sn_asks snap) now = (lv_lane s', b) \<and>
         lv_written s' = lv_written s @ recs @ batch_records b)"
    using step live batch
    by (auto simp: live_process_def live_rebuild_def process_depth_update_with_clock_def write_batch_def recs_def raw_def Let_def
          split: if_splits option.splits prod.splits) blast+
  then consider (go) "lv_written s' = lv_written s @ recs" "lv_lane s' = l"
    | (load) snap :: fixed_snapshot and now b where "lv_written s' = lv_written s @ recs @ batch_records b"
        "apply_replay_snapshot lane_levels l (sn_last_update_id snap) (sn_bids snap) (sn_asks snap) now = (lv_lane s', b)"
    by blast
  moreover have stats: "st_depth_messages (lv_stats s') = st_depth_messages (lv_stats s) + 1"
      "st_signals (lv_stats s') = (if po_signal out = None then st_signals (lv_stats s) else st_signals (lv_stats s) + 1)"
      "lv_snapshot_bridged s'"
    using step live bridged
    by (auto simp: live_process_def live_rebuild_def count_message_def record_evidence_sample_def
          process_depth_update_with_clock_def write_batch_def Let_def
          split: if_splits option.splits prod.splits)
  ultimately show ?thesis
  proof cases
    case go
    then show ?thesis using r same stats by (intro exI [of _ recs]) (auto simp: replay_sim_def)
  next
    case (load snap now b)
    have keep: "ml_signal_rules (lv_lane s') = ml_signal_rules l" "ml_flow_1s (lv_lane s') = ml_flow_1s l"
      using apply_replay_snapshot_keeps [OF load(2)] by simp_all
    from replay_snapshot_records [OF load(2),
        of "\<lparr>rs_lane = k, rs_summary = sm, rs_pending_feature = None, rs_pending_signal = None\<rparr>"]
    show ?thesis using load(1) r same stats keep
      by (intro exI [of _ "recs @ batch_records b"]) (auto simp: replay_sim_def replay_all_append)
  qed
qed

lemma live_loop_sim:
  assumes "live_loop sid True clock s is = Some s'" and "replay_sim s st" and "live_ready s"
  shows "\<exists>recs st'. lv_written s' = lv_written s @ recs \<and> replay_all st recs = Some st' \<and> replay_sim s' st'"
  using assms
proof (induction "is" arbitrary: s st)
  case Nil
  then show ?case by (intro exI [of _ "[]"]) simp
next
  case (Cons i "is")
  obtain cont s1 where one: "live_message sid True clock s i = Some (cont, s1)"
      and rest: "(if cont then live_loop sid True clock s1 is else Some s1) = Some s'"
    using Cons.prems(1) by (auto simp: bind_eq_Some_conv split: if_splits)
  obtain recs st1 where r1: "lv_written s1 = lv_written s @ recs" "replay_all st recs = Some st1" "replay_sim s1 st1"
      "cont \<longrightarrow> live_ready s1"
  proof (cases "lv_snapshot_bridged s")
    case True
    with one have "live_process sid clock s i = Some (cont, s1)" by (simp add: live_message_def)
    from process_sim [OF Cons.prems(2) True this] show thesis using that unfolding live_ready_def by blast
  next
    case False
    with one have "live_warmup True s i = (cont, s1)" by (simp add: live_message_def)
    from warmup_sim [OF Cons.prems(2,3) False this] show thesis using that by blast
  qed
  show ?case
  proof (cases cont)
    case True
    with rest have "live_loop sid True clock s1 is = Some s'" by simp
    from Cons.IH [OF this r1(3)] True r1(4) obtain recs' st' where
      "lv_written s' = lv_written s1 @ recs'" "replay_all st1 recs' = Some st'" "replay_sim s' st'" by blast
    then show ?thesis using r1(1,2) by (intro exI [of _ "recs @ recs'"]) (simp add: replay_all_append)
  next
    case False
    then show ?thesis using rest r1 by auto
  qed
qed

subsection \<open>Recording\<close>

text \<open>What a run leaves behind apart from the records.\<close>

definition unrecorded :: "'c live_state \<Rightarrow> 'c live_state" where
  "unrecorded s = s\<lparr>lv_stats := (lv_stats s)\<lparr>st_replay_records := 0\<rparr>, lv_written := []\<rparr>"

lemma unrecorded_bridged: "lv_snapshot_bridged (unrecorded s) = lv_snapshot_bridged s"
  by (simp add: unrecorded_def)

lemma live_warmup_unrecorded:
  "live_warmup False (unrecorded s) i = map_prod id unrecorded (live_warmup True s i)"
  by (auto simp: live_warmup_def unrecorded_def write_batch_def Let_def split: option.splits prod.splits)

lemma live_rebuild_unrecorded:
  "live_rebuild False (unrecorded s) i = map_prod id unrecorded (live_rebuild True s i)"
  by (auto simp: live_rebuild_def unrecorded_def write_batch_def Let_def split: option.splits prod.splits)

lemma live_process_unrecorded:
  "live_process_fast clock (unrecorded s) i = map_option (map_prod id unrecorded) (live_process sid clock s i)"
proof (cases "process_depth_update_inner lane_levels (lv_lane s) (li_update i) (li_latency i) (Some clock) (lv_clock s)")
  case None
  then show ?thesis
    by (simp add: live_process_fast_def live_process_def process_depth_update_fast_with_clock_def
        process_depth_update_with_clock_def process_fast_eq unrecorded_def)
next
  case (Some r)
  obtain l out c where r: "r = (l, out, c)" by (cases r)
  have stats: "(record_evidence_sample d t)\<lparr>st_replay_records := x\<rparr> = record_evidence_sample d (t\<lparr>st_replay_records := x\<rparr>)"
      "(count_message b t)\<lparr>st_replay_records := x\<rparr> = count_message b (t\<lparr>st_replay_records := x\<rparr>)" for d b t x
    by (simp_all add: record_evidence_sample_def count_message_def Let_def)
  show ?thesis using Some r
    by (simp add: live_process_fast_def live_process_def process_depth_update_fast_with_clock_def
        process_depth_update_with_clock_def process_fast_eq without_replay_def Let_def flip: live_rebuild_unrecorded)
       (cases s, simp add: unrecorded_def write_batch_def stats)
qed

lemma live_loop_unrecorded:
  "live_loop sid False clock (unrecorded s) is = map_option unrecorded (live_loop sid True clock s is)"
proof (induction "is" arbitrary: s)
  case Nil
  then show ?case by simp
next
  case (Cons i "is")
  have "live_message sid False clock (unrecorded s) i = map_option (map_prod id unrecorded) (live_message sid True clock s i)"
    using live_warmup_unrecorded [of s i] live_process_unrecorded [of clock s i sid] unrecorded_bridged [of s]
    by (simp add: live_message_def)
  with Cons show ?case by (cases "live_message sid True clock s i") auto
qed

text \<open>
  Recording changes nothing but the records. On the same messages, snapshots and clock the live command
  ends in the same state with recording, where every diff takes the full path, as without it, where every
  diff takes the fast path: the same lane, the same counts of messages, signals, rebuilds and excluded
  samples, and the same panics.
\<close>

theorem recording_is_transparent:
  "run_live sid False clock c inputs = map_option unrecorded (run_live sid True clock c inputs)"
proof -
  have "unrecorded (live_start sid c) = live_start sid c" by (simp add: unrecorded_def live_start_def)
  then show ?thesis using live_loop_unrecorded [of sid clock "live_start sid c" inputs] by (simp add: run_live_def)
qed

text \<open>
  C35. A capture replays without a difference. For every sequence of depth messages, snapshots and clock
  readings on which the live command runs to its end, replaying the records it wrote succeeds, reports no
  parity mismatch, counts the diffs and the signals the live run counted, and, when the live run had its
  book, ends at the same update id.
\<close>

theorem capture_replays_exactly:
  assumes "run_live sid True clock c inputs = Some s"
  shows "\<exists>sm. replay_records (lv_written s) sid = Some sm \<and> sm_parity_mismatches sm = 0 \<and>
    sm_depth_updates sm = st_depth_messages (lv_stats s) \<and> sm_signals sm = st_signals (lv_stats s) \<and>
    (lv_snapshot_bridged s \<longrightarrow> sm_final_update_id sm = by_last_update_id (ml_sync (lv_lane s)))"
proof -
  have "replay_sim (live_start sid c) (replay_start sid)" "live_ready (live_start sid c)"
    by (simp_all add: replay_sim_def live_start_def replay_start_def default_summary_def live_ready_def
        lane_start_buffering_def lane_new_def start_buffering_def)
  from live_loop_sim [OF assms [unfolded run_live_def] this] obtain st where
    "replay_all (replay_start sid) (lv_written s) = Some st" "replay_sim s st"
    by (auto simp: live_start_def)
  then show ?thesis by (auto simp: replay_records_def replay_sim_def mismatch_if_def)
qed

text \<open>A capture with a bridge, a diff that gives a signal, a gap and the snapshot loaded after it.\<close>

definition sample_capture :: "live_input list" where
  "sample_capture =
     (let snap = \<lparr>sn_last_update_id = 100, sn_bids = [(98, 150)], sn_asks = [(104, 50)]\<rparr>;
          input = (\<lambda>u f. \<lparr>li_update = u, li_bytes = [], li_latency = default_latency, li_fetch = f\<rparr>)
      in [input (sample_diff 99 101 97 5) (Some (snap, 7)), input (sample_diff 102 103 100 300) None,
          input (sample_diff 200 201 100 5) (Some (snap\<lparr>sn_last_update_id := 205\<rparr>, 9))])"

definition sample_clock :: "i64 \<Rightarrow> i64 \<times> i64" where
  "sample_clock t = (t, t + 1)"

definition sample_run :: "i64 live_state" where
  "sample_run = the (run_live 1 True sample_clock 0 sample_capture)"

theorem capture_replays_exactly_witness:
  "\<exists>sm. replay_records (lv_written sample_run) 1 = Some sm \<and> sm_parity_mismatches sm = 0 \<and>
     sm_depth_updates sm = 2 \<and> sm_signals sm = 1 \<and> sm_final_update_id sm = 205"
proof -
  have "run_live 1 True sample_clock 0 sample_capture \<noteq> None" by code_simp
  then have "run_live 1 True sample_clock 0 sample_capture = Some sample_run" by (auto simp: sample_run_def)
  moreover have "lv_snapshot_bridged sample_run" "st_depth_messages (lv_stats sample_run) = 2"
      "st_signals (lv_stats sample_run) = 1" "by_last_update_id (ml_sync (lv_lane sample_run)) = 205"
    by code_simp+
  ultimately show ?thesis using capture_replays_exactly [of 1 sample_clock 0 sample_capture sample_run] by auto
qed

end
