(* ===== verification/Engine.thy ===== *)
theory Engine
  imports Admission_View Portfolio_Properties Execution_Queues "HOL-Library.Product_Lexorder"
begin

text \<open>
  The part of the engine that owns the canonical execution state (\<open>market-core/engine/src/lib.rs\<close>): trading
  modes, the reconciliation halt, and the handler of execution reports that keeps the order manager, the
  portfolio and the risk reservations in step, with its checkpoints and rollbacks.

  Metrics and logging are left out. The broadcast channel and the calls of the risk manager and of the
  strategies, which are trait objects, are logs of what was sent. The wall clock, the digest of the
  portfolio and the iteration orders of hash maps come with the environment.
\<close>

subsection \<open>Accounting identities\<close>

type_synonym accounting_key = "order_id \<times> string"

record accounting_event_deduper =
  dd_ids :: "accounting_key set"
  dd_fifo :: "accounting_key list"
  dd_capacity :: nat

definition deduper_with_capacity :: "nat \<Rightarrow> accounting_event_deduper" where
  "deduper_with_capacity n = \<lparr>dd_ids = {}, dd_fifo = [], dd_capacity = max n 1\<rparr>"

definition deduper_insert :: "accounting_event_deduper \<Rightarrow> accounting_key \<Rightarrow> accounting_event_deduper" where
  "deduper_insert d k =
     (if k \<in> dd_ids d then d
      else let d = (if dd_capacity d \<le> card (dd_ids d)
                    then case dd_fifo d of
                           [] \<Rightarrow> d
                         | old # rest \<Rightarrow> d\<lparr>dd_fifo := rest, dd_ids := dd_ids d - {old}\<rparr>
                    else d)
           in d\<lparr>dd_fifo := dd_fifo d @ [k], dd_ids := insert k (dd_ids d)\<rparr>)"

definition deduper_contains :: "accounting_event_deduper \<Rightarrow> accounting_key \<Rightarrow> bool" where
  "deduper_contains d k \<longleftrightarrow> k \<in> dd_ids d"

definition accounting_event_dedup_capacity :: nat where
  "accounting_event_dedup_capacity = 200000"

text \<open>The journal of a checkpoint, or the identities of an older checkpoint in a fixed order.\<close>

definition valid_journal_key :: "string \<Rightarrow> bool" where
  "valid_journal_key eid \<longleftrightarrow>
     (if starts_with ''fill:'' eid then drop 5 eid \<noteq> [] else starts_with ''fee:'' eid \<and> drop 4 eid \<noteq> [])"

fun deduper_journal :: "accounting_event_deduper \<Rightarrow> accounting_key list \<Rightarrow> hft_error + accounting_event_deduper" where
  "deduper_journal d [] = Ok d"
| "deduper_journal d ((oid, eid) # js) =
     (if valid_journal_key eid then deduper_journal (deduper_insert d (oid, eid)) js
      else Err (Execution (Msg ''portfolio accounting replay journal contains invalid key'')))"

definition legacy_key :: "string \<Rightarrow> string" where
  "legacy_key eid = (if starts_with ''fee:'' eid then ''fee:'' @ drop 4 eid else ''fill:'' @ eid)"

definition legacy_keys ::
  "(order_id set \<Rightarrow> order_id list) \<Rightarrow> (string set \<Rightarrow> string list) \<Rightarrow> (order_id \<rightharpoonup> string set) \<Rightarrow> accounting_key list" where
  "legacy_keys oks sks m =
     sort (concat (map (\<lambda>oid. map (\<lambda>eid. (oid, legacy_key eid)) (filter (\<lambda>eid. eid \<noteq> []) (sks (unwrap_or {} (m oid)))))
       (oks (dom m))))"

definition from_portfolio_state ::
  "(order_id set \<Rightarrow> order_id list) \<Rightarrow> (string set \<Rightarrow> string list) \<Rightarrow> portfolio_state \<Rightarrow> nat
   \<Rightarrow> hft_error + accounting_event_deduper" where
  "from_portfolio_state oks sks st capacity =
     (let capacity = max capacity 1;
          m = ps_processed_fill_ids st;
          legacy = sum_list (map (\<lambda>oid. card (unwrap_or {} (m oid))) (oks (dom m)));
          journal = ps_recent_accounting_event_ids st
      in if 2 ^ 64 \<le> legacy
         then Err (Execution (Msg ''portfolio accounting replay state exceeds addressable capacity''))
         else if journal \<noteq> []
         then (if capacity < legacy \<and> length journal < capacity
               then Err (Execution (Msg ''portfolio accounting replay journal is incomplete''))
               else deduper_journal (deduper_with_capacity capacity) journal)
         else if capacity < legacy
         then Err (Execution (Msg ''legacy portfolio state exceeds the deterministic replay capacity''))
         else Ok (foldl deduper_insert (deduper_with_capacity capacity) (legacy_keys oks sks m)))"

fun accounting_key_of :: "execution_event \<Rightarrow> accounting_key option" where
  "accounting_key_of (Fill oid p q ts fid) = (if fid \<noteq> [] then Some (oid, ''fill:'' @ fid) else None)"
| "accounting_key_of (FeeCharged oid amount ts fid) = (if fid \<noteq> [] then Some (oid, ''fee:'' @ fid) else None)"
| "accounting_key_of ev = None"

subsection \<open>State\<close>

datatype trading_mode = Normal | Degraded | Paused | Emergency

record engine_stats =
  es_execution_events_processed :: u64
  es_orders_submitted :: u64
  es_orders_ack :: u64
  es_orders_filled :: u64
  es_orders_rejected :: u64
  es_orders_canceled :: u64
  es_trading_mode :: trading_mode

text \<open>Calls of the risk manager and of the strategies, by strategy index.\<close>

datatype notification =
    RiskEvent execution_event
  | RiskUnsentRejection string timestamp
  | StrategyUnsentRejection nat string
  | StrategyState nat execution_event account_view

record engine =
  en_order_manager :: "oms_core option"
  en_portfolio_manager :: "portfolio option"
  en_risk_reservations :: risk_reservations
  en_reconciliation_halt :: bool
  en_order_account_map :: "order_id \<rightharpoonup> account_id"
  en_order_submit_ts :: "order_id \<rightharpoonup> timestamp"
  en_applied_accounting_event_ids :: accounting_event_deduper
  en_final_cancel_venues :: "venue_id set"
  en_account_snapshot :: account_view
  en_stats :: engine_stats
  en_control_sender :: bool
  en_intake_pauses :: nat
  en_risk_manager :: bool
  en_strategies :: nat
  en_broadcast :: "execution_event list"
  en_notified :: "notification list"

record engine_env =
  ee_dec :: dec_ops
  ee_symbols :: "symbol set \<Rightarrow> symbol list"
  ee_orders :: "order_id set \<Rightarrow> order_id list"
  ee_strings :: "string set \<Rightarrow> string list"
  ee_digest :: "portfolio_state \<Rightarrow> string"
  ee_now :: timestamp

type_synonym engine_result = "(engine \<times> (hft_error + unit)) option"

subsection \<open>Trading modes\<close>

definition put_mode :: "engine \<Rightarrow> trading_mode \<Rightarrow> engine" where
  "put_mode e m = e\<lparr>en_stats := (en_stats e)\<lparr>es_trading_mode := m\<rparr>\<rparr>"

definition mode_of :: "engine \<Rightarrow> trading_mode" where
  "mode_of e = es_trading_mode (en_stats e)"

definition request_worker_intake_pause :: "engine \<Rightarrow> engine" where
  "request_worker_intake_pause e = (if en_control_sender e then e\<lparr>en_intake_pauses := en_intake_pauses e + 1\<rparr> else e)"

definition refuse_emergency_downgrade :: "engine \<Rightarrow> trading_mode \<Rightarrow> bool" where
  "refuse_emergency_downgrade e m \<longleftrightarrow> mode_of e = Emergency \<and> m \<noteq> Emergency"

definition pause_trading :: "engine \<Rightarrow> engine" where
  "pause_trading e =
     (if refuse_emergency_downgrade e Paused then e
      else let changed = (mode_of e \<noteq> Paused);
               e = put_mode e Paused
           in if changed then request_worker_intake_pause e else e)"

definition ensure_accepting_new_intents :: "engine \<Rightarrow> hft_error + unit" where
  "ensure_accepting_new_intents e =
     (if en_reconciliation_halt e \<or> \<not> is_ready (en_risk_reservations e)
      then Err (Risk (Msg ''canonical execution state is halted pending independent reconciliation''))
      else case mode_of e of
        Normal \<Rightarrow> Ok () | Degraded \<Rightarrow> Ok ()
      | Paused \<Rightarrow> Err (Risk (Msg ''trading mode Paused rejects new order intents''))
      | Emergency \<Rightarrow> Err (Risk (Msg ''trading mode Emergency rejects new order intents'')))"

text \<open>The admission view as the engine asks for it.\<close>

definition engine_view :: "engine_env \<Rightarrow> engine \<Rightarrow> (hft_error + admission_exposure) option" where
  "engine_view E e =
     (let rr = en_risk_reservations e
      in rr_view (ee_dec E) (ee_strings E (dom (rc_queued (rr_checkpoint rr))))
           (ee_orders E (dom (rc_orders (rr_checkpoint rr)))) rr (en_account_snapshot e)
           (map_option om_order_risk_view (en_order_manager e)))"

definition ensure_risk_resume_ready :: "engine_env \<Rightarrow> engine \<Rightarrow> (hft_error + unit) option" where
  "ensure_risk_resume_ready E e =
     (if en_reconciliation_halt e
      then Some (Err (Risk (Msg ''canonical execution state requires independent reconciliation'')))
      else if has_queued (en_risk_reservations e)
      then Some (Err (Risk (Msg ''queued or unknown submissions must reconcile before resume'')))
      else map_option (map_sum id (\<lambda>_. ())) (engine_view E e))"

definition set_trading_mode :: "engine_env \<Rightarrow> engine \<Rightarrow> trading_mode \<Rightarrow> engine option" where
  "set_trading_mode E e m =
     (if refuse_emergency_downgrade e m then Some e
      else do {
        refused \<leftarrow> (if m = Normal \<or> m = Degraded then map_option (\<lambda>r. \<not> is_ok r) (ensure_risk_resume_ready E e)
                    else Some False);
        Some (if refused then e
              else if mode_of e \<noteq> m
              then let e = put_mode e m in if m = Paused \<or> m = Emergency then request_worker_intake_pause e else e
              else e)
      })"

definition resume_trading :: "engine_env \<Rightarrow> engine \<Rightarrow> engine option" where
  "resume_trading E e =
     (if refuse_emergency_downgrade e Normal then Some e
      else do {
        r \<leftarrow> ensure_risk_resume_ready E e;
        Some (if is_ok r then put_mode e Normal else e)
      })"

definition enter_degrade_mode :: "engine_env \<Rightarrow> engine \<Rightarrow> engine option" where
  "enter_degrade_mode E e =
     (if refuse_emergency_downgrade e Degraded then Some e
      else if mode_of e = Paused then Some e
      else if \<not> is_ok (ensure_accepting_new_intents e) then Some e
      else do {
        v \<leftarrow> engine_view E e;
        Some (if is_ok v then put_mode e Degraded else e)
      })"

text \<open>The orders to cancel, in the iteration order of the order manager's state.\<close>

definition emergency_exit :: "engine_env \<Rightarrow> engine \<Rightarrow> engine \<times> (order_id \<times> symbol) list" where
  "emergency_exit E e =
     (let e = request_worker_intake_pause (put_mode e Emergency);
          st = (case en_order_manager e of None \<Rightarrow> Map.empty | Some om \<Rightarrow> om_export_state om)
      in (e, List.map_filter (\<lambda>oid. case st oid of
             None \<Rightarrow> None
           | Some r \<Rightarrow>
               if o_status r \<in> {P_New, P_Acknowledged, P_Accepted, P_PartiallyFilled} then Some (oid, o_symbol r)
               else None) (ee_orders E (dom st))))"

subsection \<open>Checkpoints of the owners\<close>

definition import_om :: "engine_env \<Rightarrow> oms_core \<Rightarrow> ports_order_status oms_state \<Rightarrow> (oms_core \<times> (message + unit)) option" where
  "import_om E om cp =
     om_import_checkpoint (ee_dec E) (ee_orders E (dom (st_orders cp))) (ee_orders E (dom (st_notional_contracts cp))) om cp"

definition import_pm :: "engine_env \<Rightarrow> portfolio \<Rightarrow> portfolio_state \<Rightarrow> (portfolio \<times> (message + unit)) option" where
  "import_pm E pm st =
     try_import_state (ee_digest E) (ee_dec E) (ee_symbols E) (ee_strings E (dom (av_asset_inventory (ps_account_view st))))
       (ee_orders E (dom (ps_processed_fill_ids st))) (ee_orders E (dom (ps_processed_fee_ids st))) pm st"

definition exception_count :: "engine \<Rightarrow> nat" where
  "exception_count e = (case en_order_manager e of None \<Rightarrow> 0 | Some om \<Rightarrow> length (reconciliation_exceptions om))"

subsection \<open>The halt\<close>

definition latch_reconciliation_halt :: "engine \<Rightarrow> engine" where
  "latch_reconciliation_halt e =
     pause_trading (e\<lparr>en_reconciliation_halt := True, en_risk_reservations := require_recovery (en_risk_reservations e)\<rparr>)"

definition quarantine_execution_event :: "engine_env \<Rightarrow> engine \<Rightarrow> execution_event \<Rightarrow> order_id \<Rightarrow> message \<Rightarrow> engine_result" where
  "quarantine_execution_event E e ev oid reason =
     (let e = latch_reconciliation_halt e
      in case en_order_manager e of
           None \<Rightarrow> Some (e, Ok ())
         | Some om \<Rightarrow>
             do {
               let cp = om_export_checkpoint om;
               let cp = cp\<lparr>st_reconciliation_exceptions := st_reconciliation_exceptions cp @
                 [\<lparr>x_order_id = Some oid, x_reason = reason, x_event = Some ev\<rparr>]\<rparr>;
               (om, r) \<leftarrow> import_om E om cp;
               Some (e\<lparr>en_order_manager := Some om\<rparr>, map_sum Execution id r)
             })"

subsection \<open>Restoring the owners\<close>

definition accounts_of :: "(order_id \<rightharpoonup> 's order_record) \<Rightarrow> (order_id \<rightharpoonup> account_id)" where
  "accounts_of m = (\<lambda>oid. Option.bind (m oid) o_account_id)"

definition owners_paused :: "engine \<Rightarrow> engine" where
  "owners_paused e = pause_trading (e\<lparr>en_risk_reservations := owners_restored (en_risk_reservations e)\<rparr>)"

definition import_oms_state :: "engine \<Rightarrow> (order_id \<rightharpoonup> ports_order_record) \<Rightarrow> engine" where
  "import_oms_state e m =
     (let e = (owners_paused e)\<lparr>en_order_account_map := accounts_of m\<rparr>
      in e\<lparr>en_order_manager := map_option (\<lambda>om. om_import_state om m) (en_order_manager e)\<rparr>)"

definition import_oms_checkpoint :: "engine_env \<Rightarrow> engine \<Rightarrow> ports_order_status oms_state \<Rightarrow> engine_result" where
  "import_oms_checkpoint E e cp =
     (let e = (owners_paused e)\<lparr>en_order_account_map := accounts_of (st_orders cp)\<rparr>;
          e = (if st_reconciliation_exceptions cp \<noteq> [] then latch_reconciliation_halt e else e)
      in case en_order_manager e of
           None \<Rightarrow> Some (e, Ok ())
         | Some om \<Rightarrow> do {
             (om, r) \<leftarrow> import_om E om cp;
             Some (e\<lparr>en_order_manager := Some om\<rparr>, map_sum Execution id r)
           })"

definition import_portfolio_state :: "engine_env \<Rightarrow> engine \<Rightarrow> portfolio_state \<Rightarrow> engine_result" where
  "import_portfolio_state E e st =
     (let e = owners_paused e
      in case from_portfolio_state (ee_orders E) (ee_strings E) st accounting_event_dedup_capacity of
           Inl err \<Rightarrow> Some (e, Err err)
         | Inr d \<Rightarrow>
             let e = e\<lparr>en_applied_accounting_event_ids := d\<rparr>;
                 e = (if ps_reconciliation_exceptions st \<noteq> [] then latch_reconciliation_halt e else e)
             in case en_portfolio_manager e of
                  None \<Rightarrow> Some (e, Ok ())
                | Some pm \<Rightarrow> do {
                    (pm, r) \<leftarrow> import_pm E pm st;
                    let e = e\<lparr>en_portfolio_manager := Some pm\<rparr>;
                    case r of
                      Inl m \<Rightarrow> Some (e, Err (Execution m))
                    | Inr _ \<Rightarrow> Some (e\<lparr>en_account_snapshot := pf_snapshot pm\<rparr>, Ok ())
                  })"

definition clear_reconciliation_halt ::
  "engine_env \<Rightarrow> engine \<Rightarrow> ports_order_status oms_state \<Rightarrow> portfolio_state \<Rightarrow> engine_result" where
  "clear_reconciliation_halt E e oms st =
     (if st_reconciliation_exceptions oms \<noteq> [] \<or> ps_reconciliation_exceptions st \<noteq> []
      then Some (e, Err (Execution (Msg ''cannot clear reconciliation halt with unresolved checkpoint exceptions'')))
      else do {
        (e, r) \<leftarrow> import_oms_checkpoint E e oms;
        case r of
          Inl err \<Rightarrow> Some (e, Err err)
        | Inr _ \<Rightarrow> do {
            (e, r) \<leftarrow> import_portfolio_state E e st;
            case r of
              Inl err \<Rightarrow> Some (e, Err err)
            | Inr _ \<Rightarrow> Some (e\<lparr>en_reconciliation_halt := False\<rparr>, Ok ())
          }
      })"

definition import_risk_reservations ::
  "engine_env \<Rightarrow> engine \<Rightarrow> reservation_checkpoint \<Rightarrow> engine \<times> (hft_error + unit)" where
  "import_risk_reservations E e cp =
     (let e = pause_trading e;
          (rr, r) = rr_restore (ee_dec E) (ee_strings E (dom (rc_queued cp))) (ee_orders E (dom (rc_orders cp)))
            (en_risk_reservations e) cp
      in (e\<lparr>en_risk_reservations := rr\<rparr>, r))"

definition confirm_risk_readback ::
  "engine_env \<Rightarrow> engine \<Rightarrow> order_id set \<Rightarrow> string set \<Rightarrow> engine_result" where
  "confirm_risk_readback E e exchange_order_ids exchange_client_ids =
     (if en_reconciliation_halt e
      then Some (e, Err (Risk (Msg ''unresolved canonical execution exceptions prevent risk confirmation'')))
      else let rr = en_risk_reservations e;
               st = (case en_order_manager e of None \<Rightarrow> Map.empty | Some om \<Rightarrow> om_export_state om)
           in do {
             (rr, r) \<leftarrow> confirm_readback (ee_dec E) (ee_strings E (dom (rc_queued (rr_checkpoint rr))))
               (ee_orders E (dom st)) rr (en_account_snapshot e) st exchange_order_ids exchange_client_ids;
             Some (e\<lparr>en_risk_reservations := rr\<rparr>, r)
           })"

subsection \<open>Owners and readbacks\<close>

definition set_order_manager :: "engine \<Rightarrow> oms_core \<Rightarrow> engine" where
  "set_order_manager e om =
     (let e = (if en_order_manager e \<noteq> None \<or> om_export_state om \<noteq> Map.empty then owners_paused e else e)
      in e\<lparr>en_order_manager := Some om\<rparr>)"

definition set_portfolio_manager :: "engine \<Rightarrow> portfolio \<Rightarrow> engine" where
  "set_portfolio_manager e pm =
     (let e = (if en_portfolio_manager e \<noteq> None then owners_paused e else e)
      in e\<lparr>en_account_snapshot := pf_snapshot pm, en_portfolio_manager := Some pm\<rparr>)"

definition set_execution_control_sender :: "engine \<Rightarrow> engine" where
  "set_execution_control_sender e =
     (let e = e\<lparr>en_control_sender := True\<rparr>
      in if mode_of e = Paused \<or> mode_of e = Emergency then request_worker_intake_pause e else e)"

definition export_oms_checkpoint :: "engine \<Rightarrow> ports_order_status oms_state" where
  "export_oms_checkpoint e =
     (case en_order_manager e of
        None \<Rightarrow> \<lparr>st_orders = Map.empty, st_notional_contracts = Map.empty, st_reconciliation_exceptions = []\<rparr>
      | Some om \<Rightarrow> om_export_checkpoint om)"

definition export_portfolio_state :: "engine_env \<Rightarrow> engine \<Rightarrow> portfolio_state" where
  "export_portfolio_state E e =
     (let st = (case en_portfolio_manager e of
          None \<Rightarrow> \<lparr>ps_account_view = default_account_view, ps_total_fees = 0, ps_order_meta = Map.empty,
                   ps_market_prices = Map.empty, ps_processed_fill_ids = Map.empty, ps_processed_fee_ids = Map.empty,
                   ps_recent_accounting_event_ids = [], ps_reconciliation_exceptions = [],
                   ps_canonical_state_digest = None\<rparr>
        | Some pm \<Rightarrow> pf_export_state (ee_digest E) pm)
      in if ps_canonical_state_digest st = None
         then st\<lparr>ps_recent_accounting_event_ids := dd_fifo (en_applied_accounting_event_ids e)\<rparr>
         else st)"

text \<open>The lists of keys are the iteration orders of the attestations and of the inventory of the view.\<close>

definition engine_publish_account_readback ::
  "engine_env \<Rightarrow> engine \<Rightarrow> instrument_key list \<Rightarrow> string list \<Rightarrow> account_view \<Rightarrow> engine_result" where
  "engine_publish_account_readback E e aks iks av =
     (case en_portfolio_manager e of
        None \<Rightarrow> Some (e, Err (Execution (Msg ''portfolio manager unavailable for account readback'')))
      | Some pm \<Rightarrow> do {
          (pm, r) \<leftarrow> publish_account_readback (ee_dec E) aks iks pm av;
          let e = e\<lparr>en_portfolio_manager := Some pm\<rparr>;
          Some (case r of
            Inl m \<Rightarrow> (e, Err (Execution m))
          | Inr _ \<Rightarrow> (e\<lparr>en_account_snapshot := av\<rparr>, Ok ()))
        })"

definition engine_update_cash_balance :: "engine \<Rightarrow> decimal \<Rightarrow> engine \<times> (hft_error + unit)" where
  "engine_update_cash_balance e cash =
     (case en_portfolio_manager e of
        None \<Rightarrow> (e, Err (Execution (Msg ''portfolio manager unavailable for cash readback'')))
      | Some pm \<Rightarrow>
          let (pm, r) = update_cash_balance pm cash;
              e = e\<lparr>en_portfolio_manager := Some pm\<rparr>
          in case r of
               Inl m \<Rightarrow> (e, Err (Execution m))
             | Inr _ \<Rightarrow> (e\<lparr>en_account_snapshot := pf_snapshot pm\<rparr>, Ok ()))"

subsection \<open>Comparison with the venues\<close>

text \<open>What the worker read back of the orders of one execution client; of an order that can only be cancelled, its identity.\<close>

record client_reconcile_snapshot =
  cs_venue :: "venue_id option"
  cs_account_id :: "account_id option"
  cs_open_orders :: "hft_error + open_order list"
  cs_cancellable_orders :: "hft_error + order_id list"

definition ok_list :: "'e + 'a list \<Rightarrow> 'a list" where
  "ok_list r = (case r of Inl _ \<Rightarrow> [] | Inr xs \<Rightarrow> xs)"

definition reconcile_identity :: "engine \<Rightarrow> (order_id \<rightharpoonup> ports_order_record) \<Rightarrow> order_id list
   \<Rightarrow> 'a client_reconcile_snapshot_scheme \<Rightarrow> open_order \<Rightarrow> bool" where
  "reconcile_identity e local ks cl ex =
     (let found = (case local (oo_order_id ex) of
            Some r \<Rightarrow> Some r
          | None \<Rightarrow> Option.bind (oo_client_order_id ex)
              (\<lambda>c. List.find (\<lambda>r. o_client_order_id r = Some c) (List.map_filter local ks)))
      in case found of
           None \<Rightarrow> True
         | Some r \<Rightarrow> o_symbol r = oo_symbol ex \<and> o_venue r = cs_venue cl \<and>
             en_order_account_map e (o_order_id r) = cs_account_id cl)"

definition reconcile_open_orders ::
  "engine_env \<Rightarrow> engine \<Rightarrow> 'a client_reconcile_snapshot_scheme list \<Rightarrow> reconciliation_report" where
  "reconcile_open_orders E e clients =
     (case en_order_manager e of
        None \<Rightarrow> \<lparr>exchange_only = concat (map (\<lambda>cl. map oo_order_id (ok_list (cs_open_orders cl)) @
                   ok_list (cs_cancellable_orders cl)) clients), local_only = [], qty_mismatch = []\<rparr>
      | Some om \<Rightarrow>
          let local = om_export_state om;
              ks = ee_orders E (dom local);
              readable = filter (\<lambda>cl. is_ok (cs_open_orders cl)) clients;
              exs = concat (map (\<lambda>cl. filter (reconcile_identity e local ks cl) (ok_list (cs_open_orders cl))) readable);
              conflicts = concat (map (\<lambda>cl. map oo_order_id (filter (\<lambda>ex. \<not> reconcile_identity e local ks cl ex)
                  (ok_list (cs_open_orders cl))) @ ok_list (cs_cancellable_orders cl)) readable);
              report = reconcile_with_exchange om ks exs
          in report\<lparr>exchange_only := exchange_only report @ conflicts\<rparr>)"

subsection \<open>Registration of a new order\<close>

text \<open>A stage of the handler either returns from it or goes on with the engine.\<close>

type_synonym stage = "(engine \<times> (hft_error + unit) option) option"

definition returned :: "engine_result \<Rightarrow> stage" where
  "returned r = map_option (\<lambda>(e, x). (e, Some x)) r"

definition register_canonical ::
  "engine_env \<Rightarrow> engine \<Rightarrow> account_id \<Rightarrow> order_id \<Rightarrow> string option \<Rightarrow> symbol \<Rightarrow> side \<Rightarrow> quantity \<Rightarrow> price option
   \<Rightarrow> timestamp \<Rightarrow> venue_id option \<Rightarrow> string \<Rightarrow> stage" where
  "register_canonical E e acc oid cid sm sd q rprice ts ven sid =
     (let checkpoint = map_option om_export_checkpoint (en_order_manager e);
          (e, err) = (case en_order_manager e of
             None \<Rightarrow> (e, None)
           | Some om \<Rightarrow>
               let (om, accepted) = register_order om \<lparr>rp_order_id = oid, rp_client_order_id = cid,
                     rp_account_id = Some acc, rp_symbol = sm, rp_side = sd, rp_qty = q, rp_venue = ven,
                     rp_strategy_id = Some sid\<rparr>
               in if \<not> accepted
                  then (e\<lparr>en_order_manager := Some om\<rparr>,
                        Some (Execution (MsgOrder ''canonical OMS refused OrderNew registration for'' oid)))
                  else case rprice of
                    None \<Rightarrow> (e\<lparr>en_order_manager := Some om\<rparr>, None)
                  | Some p \<Rightarrow>
                      let (om, ok) = set_limit_price om oid p
                      in (e\<lparr>en_order_manager := Some om\<rparr>,
                          if ok then None
                          else Some (Execution (MsgOrder ''canonical OMS refused OrderNew limit price for'' oid))))
      in case err of
           Some x \<Rightarrow> Some (e, Some (Err x))
         | None \<Rightarrow>
             do {
               let e = e\<lparr>en_order_account_map := (en_order_account_map e)(oid \<mapsto> acc)\<rparr>;
               let (e, accepted) = (case en_portfolio_manager e of
                 None \<Rightarrow> (e, True)
               | Some pm \<Rightarrow> let (pm, ok) = pm_register_order pm oid sm sd in (e\<lparr>en_portfolio_manager := Some pm\<rparr>, ok));
               if \<not> accepted
               then do {
                 om \<leftarrow> (case (en_order_manager e, checkpoint) of
                    (Some om, Some cp) \<Rightarrow> map_option (\<lambda>(om, r). Some om) (import_om E om cp)
                  | (m, _) \<Rightarrow> Some m);
                 Some (e\<lparr>en_order_manager := om, en_order_account_map := (en_order_account_map e)(oid := None)\<rparr>,
                       Some (Err (Execution (MsgOrder ''canonical Portfolio refused OrderNew registration for'' oid))))
               }
               else Some (e\<lparr>en_stats := (en_stats e)\<lparr>es_orders_submitted := saturating_add (es_orders_submitted (en_stats e)) 1\<rparr>,
                            en_order_submit_ts := (en_order_submit_ts e)(oid \<mapsto> ts)\<rparr>, None)
             })"

fun register_new :: "engine_env \<Rightarrow> engine \<Rightarrow> execution_event \<Rightarrow> stage" where
  "register_new E e (OrderNew oid cid eacc sm sd q rprice aprice ts ven sid) =
     (case (eacc, en_order_account_map e oid) of
        (None, None) \<Rightarrow>
          returned (quarantine_execution_event E e (OrderNew oid cid eacc sm sd q rprice aprice ts ven sid) oid
            (Msg ''OrderNew lacks a canonical account identity''))
      | (Some a, Some m) \<Rightarrow>
          if a \<noteq> m then Some (e, Some (Err (Execution (MsgOrder ''order changed canonical account identity'' oid))))
          else register_canonical E e a oid cid sm sd q rprice ts ven sid
      | (Some a, None) \<Rightarrow> register_canonical E e a oid cid sm sd q rprice ts ven sid
      | (None, Some m) \<Rightarrow> register_canonical E e m oid cid sm sd q rprice ts ven sid)"
| "register_new E e ev = Some (e, None)"

subsection \<open>Applying an event to the owners\<close>

fun is_accounting :: "execution_event \<Rightarrow> bool" where
  "is_accounting (Fill oid p q ts fid) = True"
| "is_accounting (FeeCharged oid amount ts fid) = True"
| "is_accounting ev = False"

definition risk_view_in :: "engine \<Rightarrow> order_id \<Rightarrow> order_risk_view option" where
  "risk_view_in e oid = Option.bind (en_order_manager e) (\<lambda>om. om_order_risk_view om oid)"

fun modification_risk_error :: "engine_env \<Rightarrow> engine \<Rightarrow> execution_event \<Rightarrow> hft_error option option" where
  "modification_risk_error E e (OrderModified oid nq np ts) =
     (case risk_view_in e oid of
        None \<Rightarrow> Some (Some (Risk (Msg ''modified order lacks canonical admission identity'')))
      | Some r \<Rightarrow>
          map_option (\<lambda>x. case x of Inl err \<Rightarrow> Some err | Inr _ \<Rightarrow> None)
            (validate_replace (ee_dec E) (en_risk_reservations e) r nq np))"
| "modification_risk_error E e ev = Some None"

text \<open>The checkpoint with the evidence recorded since goes back; a refused import leaves the manager as it is.\<close>

definition rollback_om :: "engine_env \<Rightarrow> engine \<Rightarrow> ports_order_status oms_state option \<Rightarrow> nat \<Rightarrow> engine option" where
  "rollback_om E e checkpoint count =
     (case (en_order_manager e, checkpoint) of
        (Some om, Some cp) \<Rightarrow>
          do {
            let evidence = st_reconciliation_exceptions (om_export_checkpoint om);
            let cp = cp\<lparr>st_reconciliation_exceptions := st_reconciliation_exceptions cp @ drop count evidence\<rparr>;
            (om, r) \<leftarrow> import_om E om cp;
            Some (e\<lparr>en_order_manager := Some om\<rparr>)
          }
      | _ \<Rightarrow> Some e)"

definition rollback_pm :: "engine_env \<Rightarrow> engine \<Rightarrow> portfolio_state option \<Rightarrow> nat \<Rightarrow> engine option" where
  "rollback_pm E e checkpoint count =
     (case (en_portfolio_manager e, checkpoint) of
        (Some pm, Some cp) \<Rightarrow>
          do {
            let evidence = ps_reconciliation_exceptions (pf_export_state (ee_digest E) pm);
            let cp = cp\<lparr>ps_reconciliation_exceptions := ps_reconciliation_exceptions cp @ drop count evidence,
                        ps_canonical_state_digest := None\<rparr>;
            (pm, r) \<leftarrow> import_pm E pm cp;
            Some (e\<lparr>en_portfolio_manager := Some pm\<rparr>)
          }
      | _ \<Rightarrow> Some e)"

definition apply_to_portfolio ::
  "engine_env \<Rightarrow> engine \<Rightarrow> execution_event \<Rightarrow> bool \<Rightarrow> ports_order_status oms_state option \<Rightarrow> nat
   \<Rightarrow> portfolio_state option \<Rightarrow> nat \<Rightarrow> stage" where
  "apply_to_portfolio E e ev queued_rejection oms_checkpoint oms_count portfolio_checkpoint portfolio_count =
     (case (if queued_rejection then None else en_portfolio_manager e) of
        None \<Rightarrow> Some (e, None)
      | Some pm \<Rightarrow>
          do {
            pm \<leftarrow> pf_on_execution_event (ee_dec E) (ee_symbols E) pm ev;
            let e = e\<lparr>en_portfolio_manager := Some pm\<rparr>;
            if is_accounting ev \<and>
              portfolio_count < length (ps_reconciliation_exceptions (pf_export_state (ee_digest E) pm))
            then do {
              e \<leftarrow> rollback_om E e oms_checkpoint oms_count;
              e \<leftarrow> rollback_pm E e portfolio_checkpoint portfolio_count;
              Some (latch_reconciliation_halt e, Some (Err (Execution (Msg
                ''canonical portfolio retained an execution event for reconciliation; OMS was rolled back''))))
            }
            else Some (e, None)
          })"

definition apply_to_owners ::
  "engine_env \<Rightarrow> engine \<Rightarrow> execution_event \<Rightarrow> bool
   \<Rightarrow> (engine \<times> ports_order_status order_update option \<times> (hft_error + unit) option) option" where
  "apply_to_owners E e ev queued_rejection =
     do {
       let oms_checkpoint = (if is_accounting ev then map_option om_export_checkpoint (en_order_manager e) else None);
       let oms_count = exception_count e;
       let portfolio_checkpoint =
         (if is_accounting ev then map_option (pf_export_state (ee_digest E)) (en_portfolio_manager e) else None);
       let portfolio_count =
         (case portfolio_checkpoint of None \<Rightarrow> 0 | Some st \<Rightarrow> length (ps_reconciliation_exceptions st));
       (e, update) \<leftarrow> (case (if queued_rejection then None else en_order_manager e) of
          None \<Rightarrow> Some (e, None)
        | Some om \<Rightarrow> map_option (\<lambda>(om, u). (e\<lparr>en_order_manager := Some om\<rparr>, u)) (om_on_execution_event (ee_dec E) om ev));
       if is_accounting ev \<and> oms_count < exception_count e
       then do {
         e \<leftarrow> rollback_om E e oms_checkpoint oms_count;
         Some (latch_reconciliation_halt e, None, Some (Err (Execution (Msg
           ''canonical OMS retained an execution event for reconciliation; portfolio was not updated''))))
       }
       else if \<not> is_accounting ev \<and> oms_count < exception_count e
       then Some (latch_reconciliation_halt e, None, Some (Ok ()))
       else do {
         (e, ret) \<leftarrow> apply_to_portfolio E e ev queued_rejection oms_checkpoint oms_count portfolio_checkpoint portfolio_count;
         Some (e, update, ret)
       }
     }"

subsection \<open>Effects after acceptance\<close>

fun risk_order_id :: "execution_event \<Rightarrow> order_id option" where
  "risk_order_id (OrderNew oid cid acc sm sd q rprice aprice ts ven sid) = Some oid"
| "risk_order_id (Fill oid p q ts fid) = Some oid"
| "risk_order_id (OrderReject oid reason ts) = Some oid"
| "risk_order_id (OrderCanceled oid ts) = Some oid"
| "risk_order_id (OrderModified oid nq np ts) = Some oid"
| "risk_order_id ev = None"

definition observe_risk :: "engine \<Rightarrow> execution_event \<Rightarrow> bool \<Rightarrow> engine" where
  "observe_risk e ev queued_rejection =
     (let e = e\<lparr>en_risk_reservations := observe (en_risk_reservations e) ev
                (Option.bind (risk_order_id ev) (risk_view_in e)) (en_final_cancel_venues e) queued_rejection\<rparr>
      in if is_ready (en_risk_reservations e) then e else pause_trading e)"

definition settle_modification ::
  "engine_env \<Rightarrow> engine \<Rightarrow> execution_event \<Rightarrow> hft_error option \<Rightarrow> nat \<Rightarrow> engine_result" where
  "settle_modification E e ev risk oms_count =
     (case risk of
        Some err \<Rightarrow>
          (case ev of
             OrderModified oid nq np ts \<Rightarrow> quarantine_execution_event E e ev oid (error_message err)
           | _ \<Rightarrow> Some (e, Ok ()))
      | None \<Rightarrow> Some (if oms_count < exception_count e then latch_reconciliation_halt e else e, Ok ()))"

definition count_event :: "execution_event \<Rightarrow> engine_stats \<Rightarrow> engine_stats" where
  "count_event ev t =
     (case ev of
        OrderAck oid ts \<Rightarrow> t\<lparr>es_orders_ack := saturating_add (es_orders_ack t) 1\<rparr>
      | Fill oid p q ts fid \<Rightarrow> t\<lparr>es_orders_filled := saturating_add (es_orders_filled t) 1\<rparr>
      | OrderReject oid reason ts \<Rightarrow> t\<lparr>es_orders_rejected := saturating_add (es_orders_rejected t) 1\<rparr>
      | OrderCanceled oid ts \<Rightarrow> t\<lparr>es_orders_canceled := saturating_add (es_orders_canceled t) 1\<rparr>
      | _ \<Rightarrow> t)"

definition notify_unsent :: "engine \<Rightarrow> execution_event \<Rightarrow> engine" where
  "notify_unsent e ev =
     (case ev of
        OrderReject oid reason ts \<Rightarrow>
          e\<lparr>en_notified := en_notified e @ (if en_risk_manager e then [RiskUnsentRejection reason ts] else []) @
              map (\<lambda>i. StrategyUnsentRejection i (case oid of OrderId c \<Rightarrow> c)) [0 ..< en_strategies e]\<rparr>
      | _ \<Rightarrow> e)"

definition publish_event :: "engine \<Rightarrow> execution_event \<Rightarrow> engine" where
  "publish_event e ev =
     (let account = (case en_portfolio_manager e of None \<Rightarrow> en_account_snapshot e | Some pm \<Rightarrow> pf_snapshot pm)
      in e\<lparr>en_broadcast := en_broadcast e @ [ev],
           en_applied_accounting_event_ids :=
             (case accounting_key_of ev of
                None \<Rightarrow> en_applied_accounting_event_ids e
              | Some k \<Rightarrow> deduper_insert (en_applied_accounting_event_ids e) k),
           en_notified := en_notified e @ (if en_risk_manager e then [RiskEvent ev] else []) @
             map (\<lambda>i. StrategyState i ev account) [0 ..< en_strategies e]\<rparr>)"

subsection \<open>The handler\<close>

text \<open>The completion that a fill gives rise to.\<close>

definition completion_of :: "engine_env \<Rightarrow> ports_order_status order_update option \<Rightarrow> execution_event option" where
  "completion_of E update =
     (case update of
        None \<Rightarrow> None
      | Some u \<Rightarrow>
          if u_status u = P_Filled \<and> u_previous_status u \<noteq> P_Filled
          then Some (OrderCompleted (u_order_id u) (unwrap_or 0 (u_avg_price u)) (u_cum_qty u) (ee_now E))
          else None)"

definition after_acceptance ::
  "engine_env \<Rightarrow> (engine \<Rightarrow> execution_event \<Rightarrow> engine_result) \<Rightarrow> engine \<Rightarrow> execution_event \<Rightarrow> bool
   \<Rightarrow> ports_order_status order_update option \<Rightarrow> engine_result" where
  "after_acceptance E again e ev queued_rejection update =
     do {
       (e, r) \<leftarrow> (case completion_of E update of None \<Rightarrow> Some (e, Ok ()) | Some fin \<Rightarrow> again e fin);
       case r of
         Inl err \<Rightarrow> Some (e, Err err)
       | Inr _ \<Rightarrow>
           let e = e\<lparr>en_stats := count_event ev (en_stats e)\<rparr>
           in Some (if queued_rejection then notify_unsent e ev else publish_event e ev, Ok ())
     }"

text \<open>The checks before anything changes: the halt, a replayed accounting event, the reservation, an ambiguous rejection.\<close>

definition admit_report :: "engine_env \<Rightarrow> engine \<Rightarrow> execution_event \<Rightarrow> bool \<Rightarrow> stage" where
  "admit_report E e ev queued_rejection =
     (let rr = en_risk_reservations e;
          inflight = (case ev of
             OrderNew oid (Some c) acc sm sd q rprice aprice ts ven sid \<Rightarrow> has_queued_client rr c | _ \<Rightarrow> False);
          is_new = (case ev of OrderNew oid cid acc sm sd q rprice aprice ts ven sid \<Rightarrow> True | _ \<Rightarrow> False)
      in if en_reconciliation_halt e \<and> is_new \<and> \<not> inflight
         then Some (e, Some (Err (Execution (Msg
           ''canonical execution state is halted pending independent reconciliation; new orders are blocked''))))
         else if is_some_and (deduper_contains (en_applied_accounting_event_ids e)) (accounting_key_of ev)
         then Some (e, Some (Ok ()))
         else case validate_new rr ev of
           Inl err \<Rightarrow> Some (latch_reconciliation_halt e, Some (Err err))
         | Inr _ \<Rightarrow>
             (case ev of
                OrderReject oid reason ts \<Rightarrow>
                  if \<not> queued_rejection \<and> risk_view_in e oid \<noteq> None \<and>
                    has_queued_client rr (case oid of OrderId c \<Rightarrow> c)
                  then returned (quarantine_execution_event E e ev oid
                    (Msg ''rejection identity matches both a queued client and a canonical venue order''))
                  else Some (e, None)
              | _ \<Rightarrow> Some (e, None)))"

text \<open>
  The whole handler. The only recursive call is for the completion; \<open>again\<close> stands for it. A completion
  never gives rise to another one, so one level of the recursion is enough.
\<close>

definition report_body ::
  "engine_env \<Rightarrow> (engine \<Rightarrow> execution_event \<Rightarrow> engine_result) \<Rightarrow> engine \<Rightarrow> execution_event
   \<Rightarrow> execution_report_origin \<Rightarrow> engine_result" where
  "report_body E again e ev origin =
     do {
       let queued_rejection = (origin = UnsubmittedIntent \<and> (case ev of OrderReject oid reason ts \<Rightarrow> True | _ \<Rightarrow> False));
       (e, ret) \<leftarrow> admit_report E e ev queued_rejection;
       case ret of
         Some r \<Rightarrow> Some (e, r)
       | None \<Rightarrow>
           do {
             (e, ret) \<leftarrow> register_new E e ev;
             case ret of
               Some r \<Rightarrow> Some (e, r)
             | None \<Rightarrow>
                 do {
                   risk \<leftarrow> modification_risk_error E e ev;
                   let oms_count = exception_count e;
                   (e, update, ret) \<leftarrow> apply_to_owners E e ev queued_rejection;
                   case ret of
                     Some r \<Rightarrow> Some (e, r)
                   | None \<Rightarrow>
                       do {
                         (e, r) \<leftarrow> settle_modification E e ev risk oms_count;
                         case r of
                           Inl err \<Rightarrow> Some (e, Err err)
                         | Inr _ \<Rightarrow>
                             after_acceptance E again (observe_risk e ev queued_rejection) ev queued_rejection update
                       }
                 }
           }
     }"

fun handle_report_upto :: "nat \<Rightarrow> engine_env \<Rightarrow> engine \<Rightarrow> execution_event \<Rightarrow> execution_report_origin \<Rightarrow> engine_result" where
  "handle_report_upto 0 E e ev origin = None"
| "handle_report_upto (Suc n) E e ev origin =
     report_body E (\<lambda>e ev. handle_report_upto n E e ev PrivateOrUnknown) e ev origin"

definition handle_execution_report :: "engine_env \<Rightarrow> engine \<Rightarrow> execution_event \<Rightarrow> execution_report_origin \<Rightarrow> engine_result" where
  "handle_execution_report E e ev origin = handle_report_upto 2 E e ev origin"

text \<open>
  A batch of reports: an error latches the halt and the rest of the batch is still applied; the result is
  the first error, or the number of reports applied. The account snapshot is published after it.
\<close>

fun apply_reports :: "engine_env \<Rightarrow> engine \<Rightarrow> execution_report list \<Rightarrow> u32 \<Rightarrow> hft_error option \<Rightarrow> (engine \<times> u32 \<times> hft_error option) option" where
  "apply_reports E e [] processed first_error = Some (e, processed, first_error)"
| "apply_reports E e (r # rs) processed first_error =
     do {
       (e, res) \<leftarrow> handle_execution_report E e (rep_event r) (rep_origin r);
       case res of
         Inl err \<Rightarrow>
           apply_reports E (latch_reconciliation_halt e) rs processed
             (case first_error of None \<Rightarrow> Some err | Some x \<Rightarrow> Some x)
       | Inr _ \<Rightarrow>
           apply_reports E (e\<lparr>en_stats := (en_stats e)\<lparr>es_execution_events_processed :=
               es_execution_events_processed (en_stats e) + 1\<rparr>\<rparr>) rs (processed + 1) first_error
     }"

text \<open>The second component holds the stream markers to acknowledge.\<close>

definition drain_execution_reports ::
  "engine_env \<Rightarrow> engine \<Rightarrow> execution_report list \<Rightarrow> (engine \<times> u64 list \<times> (hft_error + u32)) option" where
  "drain_execution_reports E e reports =
     do {
       (e, processed, first_error) \<leftarrow> apply_reports E e reports 0 None;
       let acks = (if first_error = None \<and> \<not> en_reconciliation_halt e
                   then List.map_filter (\<lambda>r. case rep_event r of
                          ExecutionStreamSynchronized sid ok ts \<Rightarrow> Some sid | _ \<Rightarrow> None) reports
                   else []);
       let e = (if 0 < processed
                then case en_portfolio_manager e of None \<Rightarrow> e | Some pm \<Rightarrow> e\<lparr>en_account_snapshot := pf_snapshot pm\<rparr>
                else e);
       Some (e, acks, case first_error of Some err \<Rightarrow> Err err | None \<Rightarrow> Ok processed)
     }"

end
