(* ===== verification/Engine_Properties.thy ===== *)
theory Engine_Properties
  imports Engine OMS_Properties
begin

text \<open>
  What the report handler guarantees: an accounting event reaches both owners of the books or neither, the
  recursion on completions ends, and a latched halt keeps new intents out until it is cleared.
\<close>

subsection \<open>The frame of the halt\<close>

lemma pause_trading_frame [simp]:
  "en_order_manager (pause_trading e) = en_order_manager e"
  "en_portfolio_manager (pause_trading e) = en_portfolio_manager e"
  "en_risk_reservations (pause_trading e) = en_risk_reservations e"
  "en_reconciliation_halt (pause_trading e) = en_reconciliation_halt e"
  "en_applied_accounting_event_ids (pause_trading e) = en_applied_accounting_event_ids e"
  "en_broadcast (pause_trading e) = en_broadcast e" "en_notified (pause_trading e) = en_notified e"
  by (simp_all add: pause_trading_def put_mode_def request_worker_intake_pause_def Let_def)

lemma mode_pause [simp]: "mode_of (pause_trading e) = (if mode_of e = Emergency then Emergency else Paused)"
  by (simp add: pause_trading_def refuse_emergency_downgrade_def put_mode_def mode_of_def
      request_worker_intake_pause_def Let_def)

lemma latch_frame [simp]:
  "en_order_manager (latch_reconciliation_halt e) = en_order_manager e"
  "en_portfolio_manager (latch_reconciliation_halt e) = en_portfolio_manager e"
  "en_risk_reservations (latch_reconciliation_halt e) = require_recovery (en_risk_reservations e)"
  "en_reconciliation_halt (latch_reconciliation_halt e)"
  "en_applied_accounting_event_ids (latch_reconciliation_halt e) = en_applied_accounting_event_ids e"
  "en_broadcast (latch_reconciliation_halt e) = en_broadcast e"
  "en_notified (latch_reconciliation_halt e) = en_notified e"
  by (simp_all add: latch_reconciliation_halt_def)

lemma mode_of_frame [simp]:
  "mode_of (e\<lparr>en_order_manager := a\<rparr>) = mode_of e" "mode_of (e\<lparr>en_portfolio_manager := b\<rparr>) = mode_of e"
  "mode_of (e\<lparr>en_risk_reservations := c\<rparr>) = mode_of e" "mode_of (e\<lparr>en_reconciliation_halt := d\<rparr>) = mode_of e"
  "mode_of (e\<lparr>en_order_account_map := f\<rparr>) = mode_of e" "mode_of (e\<lparr>en_order_submit_ts := g\<rparr>) = mode_of e"
  "mode_of (e\<lparr>en_applied_accounting_event_ids := h\<rparr>) = mode_of e" "mode_of (e\<lparr>en_account_snapshot := i\<rparr>) = mode_of e"
  "mode_of (e\<lparr>en_broadcast := j\<rparr>) = mode_of e" "mode_of (e\<lparr>en_notified := k\<rparr>) = mode_of e"
  by (simp_all add: mode_of_def)

lemma mode_latch [simp]: "mode_of (latch_reconciliation_halt e) = (if mode_of e = Emergency then Emergency else Paused)"
  by (simp add: latch_reconciliation_halt_def)

subsection \<open>Rollbacks\<close>

definition contracts_positive :: "oms_core \<Rightarrow> bool" where
  "contracts_positive s \<longleftrightarrow> (\<forall>oid c. notional_contracts s oid = Some c \<longrightarrow> 0 < requested_notional c)"

lemma oms_inv_exceptions [simp]: "oms_inv D (s\<lparr>reconciliation_exceptions := xs\<rparr>) = oms_inv D s"
  by (simp add: oms_inv_def)

lemma import_om_evidence:
  assumes "oms_inv (ee_dec E) om" and "contracts_positive om"
  shows "import_om E t ((om_export_checkpoint om)\<lparr>st_reconciliation_exceptions := xs\<rparr>) =
    Some (om\<lparr>reconciliation_exceptions := xs\<rparr>, Ok ())"
  using import_export [of "ee_dec E" "om\<lparr>reconciliation_exceptions := xs\<rparr>"] assms
  by (simp add: import_om_def om_import_checkpoint_def om_export_checkpoint_def export_checkpoint_def
      contracts_positive_def comp_def Let_def)

lemma pf_inv_exceptions: "pf_inv D ks c s \<Longrightarrow> pf_inv D ks c (s\<lparr>pf_reconciliation_exceptions := xs\<rparr>)"
  by (simp add: pf_inv_def pf_shape_def journal_entry_ok_def list_all_iff)

text \<open>A checkpoint without a digest is not compared with one.\<close>

lemma check_journal_cong: "ps_order_meta st' = ps_order_meta st \<Longrightarrow> check_journal st' js = check_journal st js"
  by (induction js) (auto split: prod.splits)

lemma validate_without_digest:
  assumes "validate_state dg ks iks fks eks st = Ok ()"
  shows "validate_state dg ks iks fks eks (st\<lparr>ps_canonical_state_digest := None\<rparr>) = Ok ()"
proof -
  have "check_journal (st\<lparr>ps_canonical_state_digest := None\<rparr>) js = check_journal st js" for js
    by (rule check_journal_cong) simp
  then show ?thesis using assms by (simp add: validate_state_def Let_def split: if_splits option.splits)
qed

lemma import_pm_evidence:
  assumes "pf_inv (ee_dec E) (ee_symbols E) c pm" and "iteration_order (ee_symbols E)" and "iteration_order (ee_orders E)"
    and "finite (dom (pf_processed_fill_ids pm))" and "finite (dom (pf_processed_fee_ids pm))"
  shows "import_pm E t ((pf_export_state (ee_digest E) pm)\<lparr>ps_reconciliation_exceptions := xs, ps_canonical_state_digest := None\<rparr>) =
    Some (pm\<lparr>pf_reconciliation_exceptions := xs\<rparr>, Ok ())"
proof -
  let ?pm = "pm\<lparr>pf_reconciliation_exceptions := xs\<rparr>"
  let ?st = "(pf_export_state (ee_digest E) pm)\<lparr>ps_reconciliation_exceptions := xs, ps_canonical_state_digest := None\<rparr>"
  have keys: "keys_of (pf_processed_fill_ids ?pm) (ee_orders E (dom (pf_processed_fill_ids pm)))"
      "keys_of (pf_processed_fee_ids ?pm) (ee_orders E (dom (pf_processed_fee_ids pm)))"
    using assms(3,4,5) by (simp_all add: keys_of_def iteration_order_def)
  have export: "pf_export_state (ee_digest E) ?pm \<lparr>ps_canonical_state_digest := None\<rparr> = ?st"
    by (simp add: pf_export_state_def Let_def)
  have valid: "validate_state (ee_digest E) (ee_symbols E) iks (ee_orders E (dom (pf_processed_fill_ids pm)))
      (ee_orders E (dom (pf_processed_fee_ids pm))) (pf_export_state (ee_digest E) ?pm) = Ok ()" for iks
    using export_validates [OF _ assms(2) keys] pf_inv_exceptions [OF assms(1), of xs] by (simp add: pf_inv_def)
  show ?thesis
    using import_export_portfolio [OF pf_inv_exceptions [OF assms(1)] assms(2) keys,
        of "ee_digest E" "ee_strings E (dom (av_asset_inventory (pf_view pm)))" t]
      valid validate_without_digest [OF valid, unfolded export]
    by (simp add: import_pm_def try_import_state_def) (simp add: pf_export_state_def Let_def)
qed

subsection \<open>An accounting event and its two owners\<close>

definition owners_ok :: "engine_env \<Rightarrow> decimal \<Rightarrow> oms_core \<Rightarrow> portfolio \<Rightarrow> bool" where
  "owners_ok E c om pm \<longleftrightarrow>
     iteration_order (ee_symbols E) \<and> iteration_order (ee_orders E) \<and>
     oms_inv (ee_dec E) om \<and> contracts_positive om \<and> pf_inv (ee_dec E) (ee_symbols E) c pm \<and>
     finite (dom (pf_processed_fill_ids pm)) \<and> finite (dom (pf_processed_fee_ids pm))"

lemma om_event_exceptions:
  assumes "om_on_execution_event D om ev = Some (om', u)"
  shows "\<exists>xs. reconciliation_exceptions om' = reconciliation_exceptions om @ xs"
proof -
  obtain u0 where "on_execution_event D om ev = Some (om', u0)"
    using assms by (auto simp: om_on_execution_event_def bind_eq_Some_conv)
  from event_le [OF this] show ?thesis by (simp add: oms_le_def)
qed

lemma om_event_refused:
  assumes "om_on_execution_event D om ev = Some (om', u)" and "is_accounting ev"
    and "length (reconciliation_exceptions om) < length (reconciliation_exceptions om')"
  obtains x xs where "om' = om\<lparr>reconciliation_exceptions := reconciliation_exceptions om @ x # xs\<rparr>"
proof -
  obtain u0 where ev: "on_execution_event D om ev = Some (om', u0)"
    using assms(1) by (auto simp: om_on_execution_event_def bind_eq_Some_conv)
  obtain xs where xs: "reconciliation_exceptions om' = reconciliation_exceptions om @ xs"
    using om_event_exceptions [OF assms(1)] by blast
  have "reconciliation_exceptions om' \<noteq> reconciliation_exceptions om" using assms(3) by auto
  then have "orders om' = orders om \<and> notional_contracts om' = notional_contracts om"
    using event_refused_frame [OF ev] assms(2) by (cases ev) auto
  then have "om' = om\<lparr>reconciliation_exceptions := reconciliation_exceptions om @ xs\<rparr>" using xs by simp
  then show thesis using that assms(3) by (cases xs) auto
qed

lemma pm_event_exceptions:
  assumes "pf_on_execution_event D ks pm ev = Some pm'"
    and "length (pf_reconciliation_exceptions pm) < length (pf_reconciliation_exceptions pm')"
  obtains x xs where "pf_reconciliation_exceptions pm' = pf_reconciliation_exceptions pm @ x # xs"
proof -
  obtain xs where "pf_reconciliation_exceptions pm' = pf_reconciliation_exceptions pm @ xs"
    using pf_event_le [OF assms(1)] by (auto simp: pf_le_def)
  then show thesis using that assms(2) by (cases xs) auto
qed

lemma rollback_om_eq:
  assumes "oms_inv (ee_dec E) om" and "contracts_positive om" and "en_order_manager e = Some om'"
  shows "rollback_om E e (Some (om_export_checkpoint om)) n =
    Some (e\<lparr>en_order_manager := Some (om\<lparr>reconciliation_exceptions := reconciliation_exceptions om @
      drop n (reconciliation_exceptions om')\<rparr>)\<rparr>)"
  using import_om_evidence [OF assms(1,2)] assms(3)
  by (simp add: rollback_om_def) (simp add: om_export_checkpoint_def export_checkpoint_def Let_def)

lemma rollback_pm_eq:
  assumes "pf_inv (ee_dec E) (ee_symbols E) c pm" and "iteration_order (ee_symbols E)" and "iteration_order (ee_orders E)"
    and "finite (dom (pf_processed_fill_ids pm))" and "finite (dom (pf_processed_fee_ids pm))"
    and "en_portfolio_manager e = Some pm'"
  shows "rollback_pm E e (Some (pf_export_state (ee_digest E) pm)) n =
    Some (e\<lparr>en_portfolio_manager := Some (pm\<lparr>pf_reconciliation_exceptions := pf_reconciliation_exceptions pm @
      drop n (pf_reconciliation_exceptions pm')\<rparr>)\<rparr>)"
  using import_pm_evidence [OF assms(1-5)] assms(6)
  by (simp add: rollback_pm_def) (simp add: pf_export_state_def Let_def)

lemma owners_accounting:
  assumes ok: "owners_ok E c om pm" and owners: "en_order_manager e = Some om" "en_portfolio_manager e = Some pm"
    and acc: "is_accounting ev" and run: "apply_to_owners E e ev False = Some (e', u, ret)"
  obtains (applied) om' pm' where "om_on_execution_event (ee_dec E) om ev = Some (om', u)"
      "pf_on_execution_event (ee_dec E) (ee_symbols E) pm ev = Some pm'" "ret = None"
      "e' = e\<lparr>en_order_manager := Some om', en_portfolio_manager := Some pm'\<rparr>"
      "length (reconciliation_exceptions om') \<le> length (reconciliation_exceptions om)"
      "length (pf_reconciliation_exceptions pm') \<le> length (pf_reconciliation_exceptions pm)"
  | (refused) xs ys err where "xs @ ys \<noteq> []" "ret = Some (Err err)"
      "e' = latch_reconciliation_halt (e\<lparr>
         en_order_manager := Some (om\<lparr>reconciliation_exceptions := reconciliation_exceptions om @ xs\<rparr>),
         en_portfolio_manager := Some (pm\<lparr>pf_reconciliation_exceptions := pf_reconciliation_exceptions pm @ ys\<rparr>)\<rparr>)"
proof -
  have inv: "oms_inv (ee_dec E) om" "contracts_positive om" "pf_inv (ee_dec E) (ee_symbols E) c pm"
      "iteration_order (ee_symbols E)" "iteration_order (ee_orders E)"
      "finite (dom (pf_processed_fill_ids pm))" "finite (dom (pf_processed_fee_ids pm))"
    using ok by (simp_all add: owners_ok_def)
  have exp: "length (ps_reconciliation_exceptions (pf_export_state dg p)) = length (pf_reconciliation_exceptions p)" for dg p
    by (simp add: pf_export_state_def Let_def)
  obtain om' u' where ev: "om_on_execution_event (ee_dec E) om ev = Some (om', u')"
    using run owners acc by (auto simp: apply_to_owners_def Let_def bind_eq_Some_conv split: prod.splits)
  show thesis
  proof (cases "length (reconciliation_exceptions om) < length (reconciliation_exceptions om')")
    case True
    then obtain x xs where om': "om' = om\<lparr>reconciliation_exceptions := reconciliation_exceptions om @ x # xs\<rparr>"
      using om_event_refused [OF ev acc] by blast
    have same: "e\<lparr>en_order_manager := m, en_portfolio_manager := Some pm\<rparr> = e\<lparr>en_order_manager := m\<rparr>" for m
      using owners(2) by (cases e) simp
    then show thesis using run owners acc ev True
      by (intro refused [of "x # xs" "[]"]) (auto simp: apply_to_owners_def Let_def exception_count_def rollback_om_eq [OF inv(1,2)] om' same)
  next
    case oms: False
    then obtain pm' where p: "pf_on_execution_event (ee_dec E) (ee_symbols E) pm ev = Some pm'"
      using run owners acc ev by (auto simp: apply_to_owners_def Let_def exception_count_def apply_to_portfolio_def bind_eq_Some_conv)
    show thesis
    proof (cases "length (pf_reconciliation_exceptions pm) < length (pf_reconciliation_exceptions pm')")
      case True
      then obtain y ys where ys: "pf_reconciliation_exceptions pm' = pf_reconciliation_exceptions pm @ y # ys"
        using pm_event_exceptions [OF p] by blast
      have "drop (length (reconciliation_exceptions om)) (reconciliation_exceptions om') = []" using oms by simp
      then show thesis using run owners acc ev p oms True
        by (intro refused [of "[]" "y # ys"])
           (auto simp: apply_to_owners_def Let_def exception_count_def apply_to_portfolio_def exp
              rollback_om_eq [OF inv(1,2)] rollback_pm_eq [OF inv(3-7)] ys)
    next
      case False
      then show thesis using run owners acc ev p oms
        by (intro applied [of om' pm']) (auto simp: apply_to_owners_def Let_def exception_count_def apply_to_portfolio_def exp)
    qed
  qed
qed

subsection \<open>Completions\<close>

lemma completed_no_update:
  "om_on_execution_event D om (OrderCompleted oid p q ts) = Some (om', u) \<Longrightarrow> u = None"
  by (auto simp: om_on_execution_event_def on_execution_event_def bind_eq_Some_conv split: if_splits)

lemma owners_completed_update:
  assumes "apply_to_owners E e (OrderCompleted oid p q ts) b = Some (e', u, ret)"
  shows "u = None"
proof (cases "if b then None else en_order_manager e")
  case None
  then show ?thesis using assms
    by (auto simp: apply_to_owners_def Let_def bind_eq_Some_conv split: if_splits)
next
  case (Some om)
  then show ?thesis using assms completed_no_update [of "ee_dec E" om oid p q ts]
    by (auto simp: apply_to_owners_def Let_def bind_eq_Some_conv split: if_splits)
qed

text \<open>The handler calls itself only on completions, and never while it handles one.\<close>

lemma report_body_cong:
  assumes "\<And>e oid p q ts. again e (OrderCompleted oid p q ts) = again' e (OrderCompleted oid p q ts)"
  shows "report_body E again e ev origin = report_body E again' e ev origin"
proof -
  have "after_acceptance E again = after_acceptance E again'"
    using assms by (auto simp: fun_eq_iff after_acceptance_def completion_of_def split: option.split)
  then show ?thesis by (simp add: report_body_def)
qed

lemma report_completed_again:
  "report_body E again e (OrderCompleted oid p q ts) origin = report_body E again' e (OrderCompleted oid p q ts) origin"
proof -
  let ?ev = "OrderCompleted oid p q ts"
  have none: "after_acceptance E again e1 ?ev b None = after_acceptance E again' e1 ?ev b None" for e1 b
    by (simp add: after_acceptance_def completion_of_def)
  have "after_acceptance E again e1 ?ev b u = after_acceptance E again' e1 ?ev b u"
    if "apply_to_owners E e2 ?ev b' = Some (e3, u, ret)" for e1 b u e2 b' e3 ret
    using owners_completed_update [OF that] none by simp
  then show ?thesis
    by (auto simp: report_body_def Let_def intro!: bind_option_cong split: prod.split option.split sum.split)
qed

lemma handle_report_upto_enough: "handle_report_upto (Suc (Suc n)) E e ev origin = handle_execution_report E e ev origin"
  unfolding handle_execution_report_def numeral_2_eq_2 handle_report_upto.simps
  by (intro report_body_cong report_completed_again)

text \<open>
  C37. The handler of execution reports ends: it calls itself only for the completion of an order that was
  just filled, the handling of a completion never calls it again, whatever the rest of the handler would
  do, so two levels give the result of every deeper unfolding, and that result satisfies the recursion the
  source is written with.
\<close>

theorem report_recursion_ends:
  "handle_report_upto (n + 2) E e ev origin = handle_execution_report E e ev origin \<and>
   report_body E again e (OrderCompleted oid p q ts) origin =
     report_body E (\<lambda>_ _. None) e (OrderCompleted oid p q ts) origin \<and>
   handle_execution_report E e ev origin =
     report_body E (\<lambda>e ev. handle_execution_report E e ev PrivateOrUnknown) e ev origin"
proof -
  have "handle_execution_report E e ev origin =
      report_body E (\<lambda>e ev. handle_report_upto 2 E e ev PrivateOrUnknown) e ev origin"
    using handle_report_upto_enough [of 1 E e ev origin] by (simp add: numeral_2_eq_2)
  then show ?thesis
    using handle_report_upto_enough [of n E e ev origin] report_completed_again
    by (simp add: handle_execution_report_def)
qed

subsection \<open>Both or neither\<close>

lemma observe_risk_frame [simp]:
  "en_order_manager (observe_risk e ev b) = en_order_manager e"
  "en_portfolio_manager (observe_risk e ev b) = en_portfolio_manager e"
  "en_reconciliation_halt (observe_risk e ev b) = en_reconciliation_halt e"
  "en_applied_accounting_event_ids (observe_risk e ev b) = en_applied_accounting_event_ids e"
  "en_broadcast (observe_risk e ev b) = en_broadcast e" "en_notified (observe_risk e ev b) = en_notified e"
  by (simp_all add: observe_risk_def Let_def)

lemma publish_event_frame [simp]:
  "en_order_manager (publish_event e ev) = en_order_manager e"
  "en_portfolio_manager (publish_event e ev) = en_portfolio_manager e"
  "en_reconciliation_halt (publish_event e ev) = en_reconciliation_halt e"
  "en_broadcast (publish_event e ev) = en_broadcast e @ [ev]"
  by (simp_all add: publish_event_def Let_def)

text \<open>A completion of a known order is announced and changes neither owner.\<close>

lemma completion_handled:
  assumes "en_order_manager e = Some om" and "orders om oid \<noteq> None" and "en_portfolio_manager e = Some pm"
    and "published pm" and "report_body E again e (OrderCompleted oid p q ts) PrivateOrUnknown = Some (e', r)"
  shows "r = Ok () \<and> en_order_manager e' = Some om \<and> en_portfolio_manager e' = Some pm \<and>
    en_applied_accounting_event_ids e' = en_applied_accounting_event_ids e \<and>
    en_reconciliation_halt e' = en_reconciliation_halt e \<and>
    en_broadcast e' = en_broadcast e @ [OrderCompleted oid p q ts]"
proof -
  let ?ev = "OrderCompleted oid p q ts"
  have om: "om_on_execution_event (ee_dec E) om ?ev = Some (om, None)"
    using assms(2) by (auto simp: om_on_execution_event_def on_execution_event_def)
  have pm: "pf_on_execution_event (ee_dec E) (ee_symbols E) pm ?ev = Some pm"
    using assms(4) by (simp add: publish_id published_def)
  have owners: "apply_to_owners E e ?ev False = Some (e\<lparr>en_order_manager := Some om, en_portfolio_manager := Some pm\<rparr>, None, None)"
    using om pm assms(1,3) by (simp add: apply_to_owners_def apply_to_portfolio_def exception_count_def Let_def)
  have "report_body E again e ?ev PrivateOrUnknown =
      after_acceptance E again (observe_risk (e\<lparr>en_order_manager := Some om, en_portfolio_manager := Some pm\<rparr>) ?ev False) ?ev False None"
    using assms(1) by (simp add: report_body_def admit_report_def owners settle_modification_def exception_count_def Let_def)
  then have "e' = publish_event (observe_risk (e\<lparr>en_order_manager := Some om, en_portfolio_manager := Some pm\<rparr>) ?ev False) ?ev" "r = Ok ()"
    using assms(5) by (auto simp: after_acceptance_def completion_of_def count_event_def)
  then show ?thesis by (simp add: publish_event_def Let_def)
qed

lemma fill_update_known:
  assumes "om_on_execution_event D om ev = Some (om', Some u)" and "is_accounting ev"
  shows "orders om' (u_order_id u) \<noteq> None"
proof -
  obtain u0 where u0: "on_execution_event D om ev = Some (om', Some u0)" "u_order_id u = u_order_id u0"
    using assms(1) by (auto simp: om_on_execution_event_def bind_eq_Some_conv)
  then obtain oid p q ts fid where ev: "ev = Fill oid p q ts fid"
    using assms(2) by (cases ev) (auto simp: on_execution_event_def split: if_splits)
  then have "on_fill D om oid p q ts fid = Some (om', Some u0)"
    using u0(1) by (simp add: on_execution_event_def split: if_splits)
  then show ?thesis
  proof (cases rule: fill_cases)
    case (committed ord new_cum)
    have "u_order_id u0 = oid"
      using committed(9) by (auto simp: commit_fill_def order_update_of_def Let_def bind_eq_Some_conv)
    with committed(9) u0(2) show ?thesis by (cases rule: commit_fill_cases) auto
  qed auto
qed

text \<open>The way of an accounting event through the handler.\<close>

lemma report_accounting_stages:
  assumes "handle_execution_report E e ev origin = Some (e', r)" and "is_accounting ev"
  obtains (replayed) k where "accounting_key_of ev = Some k" "deduper_contains (en_applied_accounting_event_ids e) k" "e' = e" "r = Ok ()"
  | (refused) u where "apply_to_owners E e ev False = Some (e', u, Some r)"
  | (accepted) e1 u where "apply_to_owners E e ev False = Some (e1, u, None)"
      "after_acceptance E (\<lambda>e ev. report_body E (\<lambda>e ev. None) e ev PrivateOrUnknown)
         (observe_risk (if exception_count e < exception_count e1 then latch_reconciliation_halt e1 else e1) ev False) ev False u = Some (e', r)"
proof -
  have run: "report_body E (\<lambda>e ev. report_body E (\<lambda>e ev. None) e ev PrivateOrUnknown) e ev origin = Some (e', r)"
    using assms(1) by (simp add: handle_execution_report_def numeral_2_eq_2)
  have skip: "\<not> (case ev of OrderReject oid reason ts \<Rightarrow> True | _ \<Rightarrow> False)" "validate_new (en_risk_reservations e) ev = Ok ()"
      "register_new E e ev = Some (e, None)" "modification_risk_error E e ev = Some None"
    using assms(2) by (cases ev; simp)+
  show thesis
  proof (cases "is_some_and (deduper_contains (en_applied_accounting_event_ids e)) (accounting_key_of ev)")
    case True
    then have "admit_report E e ev False = Some (e, Some (Ok ()))"
      using assms(2) by (cases ev) (simp_all add: admit_report_def Let_def)
    then have "e' = e" "r = Ok ()" using run skip(1) by (simp_all add: report_body_def)
    moreover obtain k where "accounting_key_of ev = Some k" "deduper_contains (en_applied_accounting_event_ids e) k"
      using True by (auto simp: is_some_and_def split: option.splits)
    ultimately show thesis using replayed by blast
  next
    case False
    then have admit: "admit_report E e ev False = Some (e, None)"
      using assms(2) skip(2) by (cases ev) (simp_all add: admit_report_def Let_def)
    obtain e1 u ret where owners: "apply_to_owners E e ev False = Some (e1, u, ret)"
      using run skip admit by (auto simp: report_body_def Let_def bind_eq_Some_conv)
    show thesis
    proof (cases ret)
      case None
      with run skip admit owners show thesis
        by (intro accepted [of e1 u]) (simp_all add: report_body_def settle_modification_def Let_def)
    next
      case (Some x)
      with run skip admit owners show thesis by (intro refused [of u]) (simp_all add: report_body_def Let_def)
    qed
  qed
qed

lemma deduper_contains_insert: "deduper_contains (deduper_insert d k) k"
  by (simp add: deduper_contains_def deduper_insert_def Let_def split: list.split)

lemma accepted_effects:
  assumes "en_order_manager e = Some om" and "\<And>x. u = Some x \<Longrightarrow> orders om (u_order_id x) \<noteq> None"
    and "en_portfolio_manager e = Some pm" and "published pm"
    and "after_acceptance E (\<lambda>e ev. report_body E again e ev PrivateOrUnknown) e ev False u = Some (e', r)"
  shows "r = Ok () \<and> en_order_manager e' = Some om \<and> en_portfolio_manager e' = Some pm \<and>
    en_reconciliation_halt e' = en_reconciliation_halt e \<and>
    (\<forall>k. accounting_key_of ev = Some k \<longrightarrow> deduper_contains (en_applied_accounting_event_ids e') k) \<and>
    (\<exists>xs. en_broadcast e' = en_broadcast e @ xs @ [ev])"
proof -
  obtain e1 r1 where one: "(case completion_of E u of None \<Rightarrow> Some (e, Ok ())
      | Some fin \<Rightarrow> report_body E again e fin PrivateOrUnknown) = Some (e1, r1)"
    using assms(5) by (auto simp: after_acceptance_def bind_eq_Some_conv)
  have e1: "r1 = Ok () \<and> en_order_manager e1 = Some om \<and> en_portfolio_manager e1 = Some pm \<and>
      en_reconciliation_halt e1 = en_reconciliation_halt e \<and> (\<exists>xs. en_broadcast e1 = en_broadcast e @ xs)"
  proof (cases "completion_of E u")
    case None
    then show ?thesis using one assms(1,3) by simp
  next
    case (Some fin)
    then obtain x where x: "u = Some x" "fin = OrderCompleted (u_order_id x) (unwrap_or 0 (u_avg_price x)) (u_cum_qty x) (ee_now E)"
      by (auto simp: completion_of_def split: option.splits if_splits)
    then show ?thesis using one Some completion_handled [OF assms(1) assms(2) [OF x(1)] assms(3,4)] by auto
  qed
  then have "r = Ok ()" "e' = publish_event (e1\<lparr>en_stats := count_event ev (en_stats e1)\<rparr>) ev"
    using assms(5) one by (auto simp: after_acceptance_def)
  then show ?thesis using e1 deduper_contains_insert by (auto simp: publish_event_def Let_def)
qed

text \<open>
  C7. A fill or a fee reaches both books or neither. With an order manager and a portfolio in a consistent
  state, a report of an accounting event ends in one of three ways: it was applied before and changes
  nothing; or both owners took it, each as its own rules say, without new evidence, its identity is recorded
  and the event is broadcast; or it is refused: both owners are as before except for the evidence one of them
  recorded, the halt is latched, trading is paused or in emergency, and the event is neither recorded as
  applied nor broadcast nor shown to the risk manager and the strategies.
\<close>

theorem report_both_or_neither:
  assumes "owners_ok E c om pm" and "en_order_manager e = Some om" and "en_portfolio_manager e = Some pm"
    and "is_accounting ev" and "handle_execution_report E e ev origin = Some (e', r)"
  shows
    "(r = Ok () \<and> e' = e \<and> (\<exists>k. accounting_key_of ev = Some k \<and> deduper_contains (en_applied_accounting_event_ids e) k)) \<or>
     (r = Ok () \<and>
      (\<exists>om' u pm'. om_on_execution_event (ee_dec E) om ev = Some (om', u) \<and>
         pf_on_execution_event (ee_dec E) (ee_symbols E) pm ev = Some pm' \<and>
         reconciliation_exceptions om' = reconciliation_exceptions om \<and>
         pf_reconciliation_exceptions pm' = pf_reconciliation_exceptions pm \<and>
         en_order_manager e' = Some om' \<and> en_portfolio_manager e' = Some pm') \<and>
      (\<forall>k. accounting_key_of ev = Some k \<longrightarrow> deduper_contains (en_applied_accounting_event_ids e') k) \<and>
      (\<exists>xs. en_broadcast e' = en_broadcast e @ xs @ [ev])) \<or>
     (\<exists>err xs ys. r = Err err \<and> xs @ ys \<noteq> [] \<and>
        en_order_manager e' = Some (om\<lparr>reconciliation_exceptions := reconciliation_exceptions om @ xs\<rparr>) \<and>
        en_portfolio_manager e' = Some (pm\<lparr>pf_reconciliation_exceptions := pf_reconciliation_exceptions pm @ ys\<rparr>) \<and>
        en_reconciliation_halt e' \<and> mode_of e' \<in> {Paused, Emergency} \<and>
        en_applied_accounting_event_ids e' = en_applied_accounting_event_ids e \<and>
        en_broadcast e' = en_broadcast e \<and> en_notified e' = en_notified e)"
  using assms(5,4)
proof (cases rule: report_accounting_stages)
  case (replayed k)
  then show ?thesis by blast
next
  case (refused u)
  from assms(1-4) refused show ?thesis by (cases rule: owners_accounting) auto
next
  case (accepted e1 u)
  from assms(1-4) accepted(1) show ?thesis
  proof (cases rule: owners_accounting)
    case (applied om' pm')
    have same: "reconciliation_exceptions om' = reconciliation_exceptions om" "pf_reconciliation_exceptions pm' = pf_reconciliation_exceptions pm"
      using om_event_exceptions [OF applied(1)] pf_event_le [OF applied(2)] applied(5,6) by (auto simp: pf_le_def)
    have pub: "published pm'"
      using pf_event_le [OF applied(2)] assms(1) by (simp add: pf_le_def owners_ok_def pf_inv_def published_def)
    have known: "orders om' (u_order_id x) \<noteq> None" if "u = Some x" for x
      using fill_update_known applied(1) assms(4) that by blast
    have quiet: "\<not> exception_count e < exception_count e1"
      using applied(4,5) assms(2) by (simp add: exception_count_def)
    let ?e = "observe_risk e1 ev False"
    have "en_order_manager ?e = Some om'" "en_portfolio_manager ?e = Some pm'" using applied(4) by simp_all
    from accepted_effects [OF this(1) known this(2) pub accepted(2) [unfolded if_not_P [OF quiet]]]
    show ?thesis using applied same by auto
  qed auto
qed

definition sample_engine_env :: engine_env where
  "sample_engine_env = \<lparr>ee_dec = exact_dec, ee_symbols = sorted_list_of_set, ee_orders = sorted_list_of_set,
     ee_strings = sorted_list_of_set, ee_digest = (\<lambda>_. []), ee_now = 0\<rparr>"

definition sample_engine :: engine where
  "sample_engine = \<lparr>en_order_manager = Some oms_new, en_portfolio_manager = Some (with_cash_balance 100),
     en_risk_reservations = reservations_default, en_reconciliation_halt = False, en_order_account_map = Map.empty,
     en_order_submit_ts = Map.empty, en_applied_accounting_event_ids = deduper_with_capacity 10,
     en_final_cancel_venues = {}, en_account_snapshot = default_account_view,
     en_stats = \<lparr>es_execution_events_processed = 0, es_orders_submitted = 0, es_orders_ack = 0, es_orders_filled = 0,
       es_orders_rejected = 0, es_orders_canceled = 0, es_trading_mode = Normal\<rparr>,
     en_control_sender = True, en_intake_pauses = 0, en_risk_manager = True, en_strategies = 1,
     en_broadcast = [], en_notified = []\<rparr>"

definition sample_stray_fill :: execution_event where
  "sample_stray_fill = Fill (OrderId ''zz'') 10 1 0 ''f1''"

lemma sample_owners_ok: "owners_ok sample_engine_env 100 oms_new (with_cash_balance 100)"
proof -
  have "iteration_order (sorted_list_of_set :: order_id set \<Rightarrow> order_id list)" by (simp add: iteration_order_def)
  then show ?thesis
    using pf_inv_init [OF dec_zero_exact_dec iteration_order_sorted, of 100] iteration_order_sorted
    by (simp add: owners_ok_def sample_engine_env_def contracts_positive_def oms_new_def with_cash_balance_def
        portfolio_default_def oms_inv_new [unfolded oms_new_def])
qed

lemma sample_refused:
  "\<exists>e' err. handle_execution_report sample_engine_env sample_engine sample_stray_fill PrivateOrUnknown = Some (e', Err err)"
proof -
  obtain x where om: "om_on_execution_event exact_dec oms_new sample_stray_fill =
      Some (oms_new\<lparr>reconciliation_exceptions := [x]\<rparr>, None)"
    by (simp add: sample_stray_fill_def om_on_execution_event_def on_execution_event_def oms_new_def
        record_exception_def Let_def)
  have inv: "oms_inv (ee_dec sample_engine_env) oms_new" "contracts_positive oms_new"
    using sample_owners_ok by (simp_all add: owners_ok_def)
  have sel: "ee_dec sample_engine_env = exact_dec" "reconciliation_exceptions oms_new = []" "is_accounting sample_stray_fill"
      "en_order_manager sample_engine = Some oms_new"
    by (simp_all add: sample_engine_env_def oms_new_def sample_stray_fill_def sample_engine_def)
  have "\<exists>e1 err. apply_to_owners sample_engine_env sample_engine sample_stray_fill False = Some (e1, None, Some (Err err))"
    using om by (simp add: apply_to_owners_def Let_def sel exception_count_def rollback_om_eq [OF inv])
  then show ?thesis
    by (auto simp: handle_execution_report_def numeral_2_eq_2 report_body_def admit_report_def Let_def
        sample_stray_fill_def sample_engine_def deduper_with_capacity_def deduper_contains_def)
qed

theorem report_both_or_neither_witness:
  "\<exists>e' err. handle_execution_report sample_engine_env sample_engine sample_stray_fill PrivateOrUnknown = Some (e', Err err) \<and>
     en_reconciliation_halt e' \<and> mode_of e' \<in> {Paused, Emergency} \<and> en_broadcast e' = []"
proof -
  obtain e' err where run: "handle_execution_report sample_engine_env sample_engine sample_stray_fill PrivateOrUnknown = Some (e', Err err)"
    using sample_refused by blast
  from report_both_or_neither [OF sample_owners_ok _ _ _ run] show ?thesis
    using run by (auto simp: sample_engine_def sample_stray_fill_def)
qed

end
