(* ===== verification/Engine_Halt.thy ===== *)
theory Engine_Halt
  imports Engine_Properties
begin

text \<open>
  The fail-closed halt of the engine: no operation but a successful reconciliation clears it, an emergency
  stays one, and evidence in the canonical owners always comes with the halt.
\<close>

subsection \<open>Operations of a running engine\<close>

datatype engine_op =
    Reports "execution_report list"
  | SetTradingMode trading_mode
  | PauseTrading
  | ResumeTrading
  | EnterDegradeMode
  | EmergencyExit
  | ImportOmsState "order_id \<rightharpoonup> ports_order_record"
  | ImportOmsCheckpoint "ports_order_status oms_state"
  | ImportPortfolioState portfolio_state
  | ImportRiskReservations reservation_checkpoint
  | ConfirmRiskReadback "order_id set" "string set"
  | PublishAccountReadback "instrument_key list" "string list" account_view
  | UpdateCashBalance decimal
  | ClearReconciliationHalt "ports_order_status oms_state" portfolio_state

text \<open>The second component tells whether the operation returned without an error.\<close>

fun engine_apply :: "engine_env \<Rightarrow> engine \<Rightarrow> engine_op \<Rightarrow> (engine \<times> bool) option" where
  "engine_apply E e (Reports rs) = map_option (\<lambda>(e', acks, r). (e', is_ok r)) (drain_execution_reports E e rs)"
| "engine_apply E e (SetTradingMode m) = map_option (\<lambda>e'. (e', True)) (set_trading_mode E e m)"
| "engine_apply E e PauseTrading = Some (pause_trading e, True)"
| "engine_apply E e ResumeTrading = map_option (\<lambda>e'. (e', True)) (resume_trading E e)"
| "engine_apply E e EnterDegradeMode = map_option (\<lambda>e'. (e', True)) (enter_degrade_mode E e)"
| "engine_apply E e EmergencyExit = Some (fst (emergency_exit E e), True)"
| "engine_apply E e (ImportOmsState m) = Some (import_oms_state e m, True)"
| "engine_apply E e (ImportOmsCheckpoint cp) = map_option (map_prod id is_ok) (import_oms_checkpoint E e cp)"
| "engine_apply E e (ImportPortfolioState st) = map_option (map_prod id is_ok) (import_portfolio_state E e st)"
| "engine_apply E e (ImportRiskReservations cp) = Some (map_prod id is_ok (import_risk_reservations E e cp))"
| "engine_apply E e (ConfirmRiskReadback ids clients) = map_option (map_prod id is_ok) (confirm_risk_readback E e ids clients)"
| "engine_apply E e (PublishAccountReadback aks iks av) =
     map_option (map_prod id is_ok) (engine_publish_account_readback E e aks iks av)"
| "engine_apply E e (UpdateCashBalance c) = Some (map_prod id is_ok (engine_update_cash_balance e c))"
| "engine_apply E e (ClearReconciliationHalt oms st) = map_option (map_prod id is_ok) (clear_reconciliation_halt E e oms st)"

inductive engine_run :: "engine_env \<Rightarrow> engine \<Rightarrow> (engine_op \<times> bool) list \<Rightarrow> engine \<Rightarrow> bool" for E e where
  run_start: "engine_run E e [] e"
| run_next: "engine_run E e tr e1 \<Longrightarrow> engine_apply E e1 op = Some (e2, ok) \<Longrightarrow> engine_run E e (tr @ [(op, ok)]) e2"

definition halted :: "engine \<Rightarrow> bool" where
  "halted e \<longleftrightarrow> en_reconciliation_halt e \<and> recovery_required (en_risk_reservations e) \<and> mode_of e \<in> {Paused, Emergency}"

definition evidence :: "engine \<Rightarrow> bool" where
  "evidence e \<longleftrightarrow>
     (case en_order_manager e of None \<Rightarrow> False | Some om \<Rightarrow> reconciliation_exceptions om \<noteq> []) \<or>
     (case en_portfolio_manager e of None \<Rightarrow> False | Some pm \<Rightarrow> pf_reconciliation_exceptions pm \<noteq> [])"

lemma halted_refuses: "halted e \<Longrightarrow> \<exists>err. ensure_accepting_new_intents e = Err err"
  by (simp add: halted_def ensure_accepting_new_intents_def)

subsection \<open>Steps that only tighten\<close>

definition tightens :: "engine \<Rightarrow> engine \<Rightarrow> bool" where
  "tightens e e' \<longleftrightarrow>
     (en_reconciliation_halt e \<longrightarrow> en_reconciliation_halt e') \<and>
     (en_reconciliation_halt e' \<longrightarrow> en_reconciliation_halt e \<or> halted e') \<and>
     (recovery_required (en_risk_reservations e) \<longrightarrow> recovery_required (en_risk_reservations e')) \<and>
     (mode_of e' = mode_of e \<or> mode_of e' = Paused \<and> mode_of e \<noteq> Emergency \<or> mode_of e' = Emergency)"

lemma tightens_refl [simp]: "tightens e e"
  by (simp add: tightens_def)

lemma tightens_trans [trans]: "tightens e1 e2 \<Longrightarrow> tightens e2 e3 \<Longrightarrow> tightens e1 e3"
  by (auto simp: tightens_def halted_def)

lemma tightens_halt: "tightens e e' \<Longrightarrow> en_reconciliation_halt e \<Longrightarrow> en_reconciliation_halt e'"
  by (simp add: tightens_def)

lemma tightens_halted: "tightens e e' \<Longrightarrow> halted e \<Longrightarrow> halted e'"
  by (auto simp: tightens_def halted_def)

lemma tightens_frame [simp]:
  "tightens e (e'\<lparr>en_order_manager := a\<rparr>) = tightens e e'" "tightens e (e'\<lparr>en_portfolio_manager := b\<rparr>) = tightens e e'"
  "tightens e (e'\<lparr>en_order_account_map := f\<rparr>) = tightens e e'" "tightens e (e'\<lparr>en_order_submit_ts := g\<rparr>) = tightens e e'"
  "tightens e (e'\<lparr>en_applied_accounting_event_ids := h\<rparr>) = tightens e e'" "tightens e (e'\<lparr>en_account_snapshot := i\<rparr>) = tightens e e'"
  "tightens e (e'\<lparr>en_broadcast := j\<rparr>) = tightens e e'" "tightens e (e'\<lparr>en_notified := k\<rparr>) = tightens e e'"
  by (simp_all add: tightens_def halted_def)

lemma tightens_stats:
  "tightens e e' \<Longrightarrow> es_trading_mode t = mode_of e' \<Longrightarrow> tightens e (e'\<lparr>en_stats := t\<rparr>)"
  by (simp add: tightens_def halted_def mode_of_def)

lemma tightens_pause: "tightens e e' \<Longrightarrow> tightens e (pause_trading e')"
  by (auto simp: tightens_def halted_def)

lemma tightens_latch: "tightens e e' \<Longrightarrow> tightens e (latch_reconciliation_halt e')"
  by (auto simp: tightens_def halted_def require_recovery_def)

lemma tightens_owners: "tightens e e' \<Longrightarrow> tightens e (owners_paused e')"
  by (auto simp: owners_paused_def owners_restored_def tightens_def halted_def)

lemma observe_recovery: "recovery_required s \<Longrightarrow> recovery_required (observe s ev r fcv b)"
  by (cases "(s, ev, r, fcv, b)" rule: observe.cases)
     (auto simp: require_recovery_def put_orders_def put_queued_def put_awaiting_def release_order_def Let_def
       split: option.split prod.split)

lemma tightens_observe: "tightens e (observe_risk e ev b)"
  using observe_recovery by (auto simp: observe_risk_def Let_def intro!: tightens_pause)
    (auto simp: tightens_def halted_def)

subsection \<open>Stages of the report handler\<close>

definition halt_covered :: "engine \<Rightarrow> engine \<Rightarrow> bool" where
  "halt_covered e e' \<longleftrightarrow> tightens e e' \<and> (evidence e' \<longrightarrow> evidence e \<or> en_reconciliation_halt e')"

lemma covered_refl [simp]: "halt_covered e e"
  by (simp add: halt_covered_def)

lemma covered_trans [trans]: "halt_covered e1 e2 \<Longrightarrow> halt_covered e2 e3 \<Longrightarrow> halt_covered e1 e3"
  using tightens_trans [of e1 e2 e3] tightens_halt [of e2 e3] by (auto simp: halt_covered_def)

lemma covered_halt: "tightens e e' \<Longrightarrow> en_reconciliation_halt e' \<Longrightarrow> halt_covered e e'"
  by (simp add: halt_covered_def)

lemma covered_latch: "tightens e e' \<Longrightarrow> halt_covered e (latch_reconciliation_halt e')"
  by (simp add: covered_halt tightens_latch)

lemma evidence_frame:
  "en_order_manager e' = en_order_manager e \<Longrightarrow> en_portfolio_manager e' = en_portfolio_manager e \<Longrightarrow> evidence e' = evidence e"
  by (simp add: evidence_def)

lemma covered_frame:
  "tightens e e' \<Longrightarrow> en_order_manager e' = en_order_manager e \<Longrightarrow> en_portfolio_manager e' = en_portfolio_manager e \<Longrightarrow>
   halt_covered e e'"
  by (simp add: halt_covered_def evidence_def)

lemma quarantine_covered:
  assumes "quarantine_execution_event E e ev oid reason = Some (e', r)"
  shows "tightens e e' \<and> en_reconciliation_halt e'"
  using assms tightens_latch [OF tightens_refl, of e]
  by (auto simp: quarantine_execution_event_def Let_def bind_eq_Some_conv split: option.splits)

text \<open>A stage that fails is left to the caller, which latches the halt.\<close>

definition stage_covered :: "engine \<Rightarrow> engine \<Rightarrow> (hft_error + unit) option \<Rightarrow> bool" where
  "stage_covered e e' ret \<longleftrightarrow> tightens e e' \<and> ((\<forall>err. ret \<noteq> Some (Err err)) \<longrightarrow> halt_covered e e')"

lemma stage_coveredI: "halt_covered e e' \<Longrightarrow> stage_covered e e' ret"
  by (simp add: stage_covered_def halt_covered_def)

lemma stage_covered_failed [simp]: "stage_covered e e' (Some (Inl err)) = tightens e e'"
  by (simp add: stage_covered_def)

lemma admit_covered:
  assumes "admit_report E e ev b = Some (e', ret)"
  shows "stage_covered e e' ret"
  using assms tightens_latch [OF tightens_refl, of e] quarantine_covered
  by (fastforce simp: admit_report_def Let_def returned_def intro: stage_coveredI covered_halt
      split: if_splits sum.splits execution_event.splits)

lemma register_order_accepted: "register_order om p = (om', True) \<Longrightarrow> reconciliation_exceptions om' = reconciliation_exceptions om"
  by (auto simp: register_order_def put_order_def split: option.splits if_splits)

lemma set_limit_price_accepted: "set_limit_price om oid p = (om', True) \<Longrightarrow> reconciliation_exceptions om' = reconciliation_exceptions om"
  by (auto simp: set_limit_price_def put_order_def split: option.splits if_splits)

lemma pm_register_accepted:
  "pm_register_order pm oid sm sd = (pm', True) \<Longrightarrow> (pf_reconciliation_exceptions pm' = []) = (pf_reconciliation_exceptions pm = [])"
  by (auto simp: pm_register_order_def Let_def)

lemma register_canonical_tightens:
  assumes "register_canonical E e acc oid cid sm sd q rprice ts ven sid = Some (e', ret)"
  shows "tightens e e'"
  using assms
  by (auto simp: register_canonical_def Let_def bind_eq_Some_conv tightens_stats mode_of_def
      split: option.splits prod.splits if_splits)

lemma register_canonical_evidence:
  assumes "register_canonical E e acc oid cid sm sd q rprice ts ven sid = Some (e', None)"
  shows "evidence e' = evidence e"
  using assms register_order_accepted set_limit_price_accepted pm_register_accepted
  by (fastforce simp: register_canonical_def Let_def bind_eq_Some_conv evidence_def
      split: option.splits prod.splits if_splits)

lemma register_canonical_ret:
  assumes "register_canonical E e acc oid cid sm sd q rprice ts ven sid = Some (e', Some r)"
  shows "\<exists>err. r = Err err"
  using assms
  by (auto simp: register_canonical_def Let_def bind_eq_Some_conv split: option.splits prod.splits if_splits)

lemma register_new_covered:
  assumes "register_new E e ev = Some (e', ret)"
  shows "stage_covered e e' ret"
proof (cases ev)
  case (OrderNew oid cid eacc sm sd q rprice aprice ts ven sid)
  have canonical: "stage_covered e e' ret" if "register_canonical E e a oid cid sm sd q rprice ts ven sid = Some (e', ret)" for a
  proof (cases ret)
    case None
    then show ?thesis using register_canonical_tightens [OF that] register_canonical_evidence that
      by (auto simp: halt_covered_def intro: stage_coveredI)
  next
    case (Some r)
    then show ?thesis using register_canonical_tightens [OF that] register_canonical_ret [of E e a] that by fastforce
  qed
  show ?thesis using assms OrderNew canonical quarantine_covered
    by (fastforce simp: returned_def intro: stage_coveredI covered_halt split: option.splits if_splits)
qed (use assms in \<open>auto intro: stage_coveredI\<close>)

text \<open>Both owners only ever add evidence, and the engine compares the counts.\<close>

lemma om_event_quiet:
  assumes "om_on_execution_event D om ev = Some (om', u)"
    and "\<not> length (reconciliation_exceptions om) < length (reconciliation_exceptions om')"
  shows "reconciliation_exceptions om' = reconciliation_exceptions om"
  using om_event_exceptions [OF assms(1)] assms(2) by auto

lemma pm_event_quiet:
  assumes "pf_on_execution_event D ks pm ev = Some pm'"
    and "is_accounting ev \<Longrightarrow> \<not> length (pf_reconciliation_exceptions pm) < length (pf_reconciliation_exceptions pm')"
  shows "pf_reconciliation_exceptions pm' = pf_reconciliation_exceptions pm"
proof (cases "is_accounting ev")
  case True
  then show ?thesis using pf_event_le [OF assms(1)] assms(2) by (auto simp: pf_le_def)
next
  case False
  then show ?thesis using assms(1) by (cases ev) (auto simp: publish_def)
qed

lemma rollback_tightens:
  "rollback_om E e1 cp n = Some e2 \<Longrightarrow> tightens e e1 \<Longrightarrow> tightens e e2"
  "rollback_pm E e1 cp' n = Some e2 \<Longrightarrow> tightens e e1 \<Longrightarrow> tightens e e2"
  by (auto simp: rollback_om_def rollback_pm_def Let_def bind_eq_Some_conv split: option.splits)

lemma apply_to_portfolio_covered:
  assumes "apply_to_portfolio E e1 ev b ocp on pcp pn = Some (e', ret)"
    and "halt_covered e e1" and "en_portfolio_manager e1 = en_portfolio_manager e"
    and "\<And>pm. is_accounting ev \<Longrightarrow> en_portfolio_manager e = Some pm \<Longrightarrow> pn = length (pf_reconciliation_exceptions pm)"
  shows "stage_covered e e' ret"
proof (cases "if b then None else en_portfolio_manager e1")
  case None
  then show ?thesis using assms(1,2) by (auto simp: apply_to_portfolio_def intro: stage_coveredI)
next
  case (Some pm)
  then have pm: "en_portfolio_manager e = Some pm" using assms(3) by (auto split: if_splits)
  obtain pm' where ev: "pf_on_execution_event (ee_dec E) (ee_symbols E) pm ev = Some pm'"
    using assms(1) Some by (auto simp: apply_to_portfolio_def bind_eq_Some_conv)
  have t: "tightens e e1" using assms(2) by (simp add: halt_covered_def)
  have exp: "length (ps_reconciliation_exceptions (pf_export_state dg p)) = length (pf_reconciliation_exceptions p)" for dg p
    by (simp add: pf_export_state_def Let_def)
  show ?thesis
  proof (cases "is_accounting ev \<and> pn < length (pf_reconciliation_exceptions pm')")
    case True
    then obtain e2 e3 where "rollback_om E (e1\<lparr>en_portfolio_manager := Some pm'\<rparr>) ocp on = Some e2"
        "rollback_pm E e2 pcp pn = Some e3" and ret: "e' = latch_reconciliation_halt e3"
      using assms(1) Some ev by (auto simp: apply_to_portfolio_def Let_def exp bind_eq_Some_conv)
    then have "tightens e e3" using t rollback_tightens by (metis tightens_frame(2))
    then show ?thesis using ret by (simp add: covered_latch stage_coveredI)
  next
    case False
    then have "pf_reconciliation_exceptions pm' = pf_reconciliation_exceptions pm"
      using pm_event_quiet [OF ev] assms(4) [OF _ pm] by auto
    then show ?thesis using assms(1,2,3) Some ev False t pm
      by (auto simp: apply_to_portfolio_def Let_def exp evidence_def halt_covered_def intro!: stage_coveredI)
  qed
qed

lemma order_manager_covered:
  assumes "(case (if b then None else en_order_manager e) of None \<Rightarrow> Some (e, None)
      | Some om \<Rightarrow> map_option (\<lambda>(om, u). (e\<lparr>en_order_manager := Some om\<rparr>, u)) (om_on_execution_event D om ev)) = Some (e1, u)"
  shows "tightens e e1" and "en_portfolio_manager e1 = en_portfolio_manager e"
    and "\<not> exception_count e < exception_count e1 \<Longrightarrow> halt_covered e e1"
  using assms om_event_quiet
  by (auto simp: halt_covered_def evidence_def exception_count_def split: if_splits option.splits)

lemma apply_to_owners_covered:
  assumes "apply_to_owners E e ev b = Some (e', u, ret)"
  shows "stage_covered e e' ret"
proof -
  obtain e1 u1 where om: "(case (if b then None else en_order_manager e) of None \<Rightarrow> Some (e, None)
      | Some om \<Rightarrow> map_option (\<lambda>(om, u). (e\<lparr>en_order_manager := Some om\<rparr>, u)) (om_on_execution_event (ee_dec E) om ev)) = Some (e1, u1)"
    using assms by (auto simp: apply_to_owners_def Let_def bind_eq_Some_conv)
  note rest = assms [unfolded apply_to_owners_def Let_def om bind.bind_lunit split]
  show ?thesis
  proof (cases "exception_count e < exception_count e1")
    case True
    have "halt_covered e e'"
    proof (cases "is_accounting ev")
      case True
      then obtain e2 where "rollback_om E e1 (map_option om_export_checkpoint (en_order_manager e)) (exception_count e) = Some e2"
          "e' = latch_reconciliation_halt e2"
        using rest \<open>exception_count e < exception_count e1\<close> by (auto simp: bind_eq_Some_conv)
      then show ?thesis using rollback_tightens(1) order_manager_covered(1) [OF om] covered_latch by blast
    next
      case False
      then show ?thesis using rest True order_manager_covered(1) [OF om] covered_latch by auto
    qed
    then show ?thesis by (rule stage_coveredI)
  next
    case False
    then obtain cp cp' n where "apply_to_portfolio E e1 ev b cp (exception_count e) cp' n = Some (e', ret)"
        "\<And>pm. is_accounting ev \<Longrightarrow> en_portfolio_manager e = Some pm \<Longrightarrow> n = length (pf_reconciliation_exceptions pm)"
      using rest by (auto simp: bind_eq_Some_conv pf_export_state_def Let_def)
    then show ?thesis
      using apply_to_portfolio_covered order_manager_covered(2,3) [OF om] False by blast
  qed
qed

lemma settle_covered:
  assumes "settle_modification E e ev risk n = Some (e', r)"
  shows "halt_covered e e'"
  using assms quarantine_covered covered_latch [OF tightens_refl, of e]
  by (fastforce simp: settle_modification_def intro: covered_halt split: option.splits execution_event.splits if_splits)

subsection \<open>Whole reports and batches\<close>

lemma count_event_mode [simp]: "es_trading_mode (count_event ev t) = es_trading_mode t"
  by (cases ev) (simp_all add: count_event_def)

lemma after_acceptance_covered:
  assumes "after_acceptance E again e ev b u = Some (e', r)"
    and again: "\<And>e ev e' r. again e ev = Some (e', r) \<Longrightarrow> stage_covered e e' (Some r)"
  shows "stage_covered e e' (Some r)"
proof -
  obtain e1 r1 where one: "(case completion_of E u of None \<Rightarrow> Some (e, Ok ()) | Some fin \<Rightarrow> again e fin) = Some (e1, r1)"
    using assms(1) by (auto simp: after_acceptance_def bind_eq_Some_conv)
  have e1: "stage_covered e e1 (Some r1)"
    using one again by (auto simp: stage_coveredI split: option.splits)
  show ?thesis
  proof (cases r1)
    case (Inl err)
    then show ?thesis using assms(1) one e1 by (simp add: after_acceptance_def)
  next
    case (Inr x)
    let ?e = "e1\<lparr>en_stats := count_event ev (en_stats e1)\<rparr>"
    have "tightens e1 ?e" by (simp add: tightens_stats mode_of_def)
    then have "halt_covered e1 ?e" by (simp add: covered_frame)
    moreover have "halt_covered ?e (notify_unsent ?e ev)" "halt_covered ?e (publish_event ?e ev)"
      by (auto intro!: covered_frame simp: notify_unsent_def publish_event_def Let_def split: execution_event.split)
    moreover have "halt_covered e e1" using e1 Inr by (simp add: stage_covered_def)
    moreover have "e' = (if b then notify_unsent ?e ev else publish_event ?e ev)"
      using assms(1) one Inr by (simp add: after_acceptance_def Let_def)
    ultimately have "halt_covered e e'" by (metis covered_trans)
    then show ?thesis by (rule stage_coveredI)
  qed
qed

lemma stage_covered_None: "stage_covered e e' None \<Longrightarrow> halt_covered e e'"
  by (simp add: stage_covered_def)

lemma stage_covered_trans: "halt_covered e e1 \<Longrightarrow> stage_covered e1 e2 ret \<Longrightarrow> stage_covered e e2 ret"
  using tightens_trans [of e e1 e2] covered_trans [of e e1 e2] by (auto simp: stage_covered_def halt_covered_def)

lemma report_body_covered:
  assumes "report_body E again e ev origin = Some (e', r)"
    and again: "\<And>e ev e' r. again e ev = Some (e', r) \<Longrightarrow> stage_covered e e' (Some r)"
  shows "stage_covered e e' (Some r)"
proof -
  let ?b = "origin = UnsubmittedIntent \<and> (case ev of OrderReject oid reason ts \<Rightarrow> True | _ \<Rightarrow> False)"
  obtain e1 ret where a: "admit_report E e ev ?b = Some (e1, ret)"
    using assms(1) by (auto simp: report_body_def Let_def bind_eq_Some_conv)
  note rest = assms(1) [unfolded report_body_def Let_def a bind.bind_lunit split]
  show ?thesis
  proof (cases ret)
    case (Some x)
    then show ?thesis using rest admit_covered [OF a] by simp
  next
    case None
    then have c1: "halt_covered e e1" using admit_covered [OF a] stage_covered_None by blast
    obtain e2 ret2 where n: "register_new E e1 ev = Some (e2, ret2)"
      using rest None by (auto simp: bind_eq_Some_conv)
    note rest2 = rest [unfolded None option.case n bind.bind_lunit split]
    show ?thesis
    proof (cases ret2)
      case (Some x)
      then show ?thesis using rest2 stage_covered_trans [OF c1 register_new_covered [OF n]] by simp
    next
      case none2: None
      then have c2: "halt_covered e e2" using stage_covered_trans [OF c1 register_new_covered [OF n]] stage_covered_None by blast
      obtain risk e3 u ret3 where o: "apply_to_owners E e2 ev ?b = Some (e3, u, ret3)"
          and rest3: "(case ret3 of Some r \<Rightarrow> Some (e3, r) | None \<Rightarrow>
              Option.bind (settle_modification E e3 ev risk (exception_count e2)) (\<lambda>(e, r). case r of
                Inl err \<Rightarrow> Some (e, Err err)
              | Inr _ \<Rightarrow> after_acceptance E again (observe_risk e ev ?b) ev ?b u)) = Some (e', r)"
        using rest2 none2 by (auto simp: bind_eq_Some_conv)
      have c3: "stage_covered e e3 ret3" using stage_covered_trans [OF c2 apply_to_owners_covered [OF o]] .
      show ?thesis
      proof (cases ret3)
        case (Some x)
        then show ?thesis using rest3 c3 by simp
      next
        case none3: None
        then obtain e4 r4 where st: "settle_modification E e3 ev risk (exception_count e2) = Some (e4, r4)"
          and rest4: "(case r4 of Inl err \<Rightarrow> Some (e4, Err err)
              | Inr _ \<Rightarrow> after_acceptance E again (observe_risk e4 ev ?b) ev ?b u) = Some (e', r)"
          using rest3 by (auto simp: bind_eq_Some_conv)
        have c4: "halt_covered e e4" using c3 none3 stage_covered_None settle_covered [OF st] covered_trans by blast
        have "halt_covered e4 (observe_risk e4 ev ?b)" by (simp add: covered_frame tightens_observe)
        then have c5: "halt_covered e (observe_risk e4 ev ?b)" using c4 covered_trans by blast
        show ?thesis
          using rest4 c4 stage_covered_trans [OF c5 after_acceptance_covered [OF _ again]]
          by (auto split: sum.splits intro: stage_coveredI)
      qed
    qed
  qed
qed

lemma handle_report_covered:
  assumes "handle_execution_report E e ev origin = Some (e', r)"
  shows "stage_covered e e' (Some r)"
proof -
  have "handle_report_upto n E e ev origin = Some (e', r) \<Longrightarrow> stage_covered e e' (Some r)" for n e ev origin e' r
  proof (induction n arbitrary: e ev origin e' r)
    case (Suc n)
    then show ?case using report_body_covered [of E "\<lambda>e ev. handle_report_upto n E e ev PrivateOrUnknown"] by auto
  qed simp
  then show ?thesis using assms by (simp add: handle_execution_report_def)
qed

lemma apply_reports_covered:
  assumes "apply_reports E e rs n err = Some (e', n', err')"
  shows "halt_covered e e'"
  using assms
proof (induction rs arbitrary: e n err)
  case (Cons r rs)
  obtain e1 res where h: "handle_execution_report E e (rep_event r) (rep_origin r) = Some (e1, res)"
    using Cons.prems by (auto simp: bind_eq_Some_conv)
  note c = handle_report_covered [OF h]
  show ?case
  proof (cases res)
    case (Inl x)
    then have "halt_covered e (latch_reconciliation_halt e1)" using c by (simp add: covered_latch)
    then show ?thesis using Cons h Inl covered_trans by fastforce
  next
    case (Inr x)
    let ?e = "e1\<lparr>en_stats := (en_stats e1)\<lparr>es_execution_events_processed := es_execution_events_processed (en_stats e1) + 1\<rparr>\<rparr>"
    have "halt_covered e1 ?e" by (rule covered_frame) (simp_all add: tightens_stats mode_of_def)
    then have "halt_covered e ?e" using c Inr covered_trans by (auto simp: stage_covered_def)
    then show ?thesis using Cons.IH [of ?e] Cons.prems h Inr covered_trans by auto
  qed
qed simp

lemma covered_snapshot: "halt_covered e e' \<Longrightarrow> halt_covered e (e'\<lparr>en_account_snapshot := av\<rparr>)"
  by (simp add: halt_covered_def evidence_def)

lemma drain_covered:
  assumes "drain_execution_reports E e rs = Some (e', acks, r)"
  shows "halt_covered e e'"
proof -
  obtain e1 n err where run: "apply_reports E e rs 0 None = Some (e1, n, err)"
    and e': "e' = (if 0 < n then case en_portfolio_manager e1 of None \<Rightarrow> e1 | Some pm \<Rightarrow> e1\<lparr>en_account_snapshot := pf_snapshot pm\<rparr> else e1)"
    using assms by (auto simp: drain_execution_reports_def Let_def bind_eq_Some_conv)
  from e' show ?thesis using apply_reports_covered [OF run] covered_snapshot by (simp split: option.split)
qed

subsection \<open>Operations other than reports\<close>

text \<open>What an operation may do to an engine that is not halted, other than tighten it.\<close>

definition relaxes :: "engine \<Rightarrow> engine \<Rightarrow> bool" where
  "relaxes e e' \<longleftrightarrow>
     \<not> en_reconciliation_halt e \<and> \<not> en_reconciliation_halt e' \<and> (evidence e' \<longrightarrow> evidence e) \<and>
     (mode_of e = Emergency \<longrightarrow> mode_of e' = Emergency)"

lemma put_mode_frame [simp]:
  "en_order_manager (put_mode e m) = en_order_manager e" "en_portfolio_manager (put_mode e m) = en_portfolio_manager e"
  "en_reconciliation_halt (put_mode e m) = en_reconciliation_halt e"
  "en_risk_reservations (put_mode e m) = en_risk_reservations e" "mode_of (put_mode e m) = m"
  by (simp_all add: put_mode_def mode_of_def)

lemma intake_pause_frame [simp]:
  "en_order_manager (request_worker_intake_pause e) = en_order_manager e"
  "en_portfolio_manager (request_worker_intake_pause e) = en_portfolio_manager e"
  "en_reconciliation_halt (request_worker_intake_pause e) = en_reconciliation_halt e"
  "en_risk_reservations (request_worker_intake_pause e) = en_risk_reservations e"
  "mode_of (request_worker_intake_pause e) = mode_of e"
  by (simp_all add: request_worker_intake_pause_def mode_of_def)

lemma resume_ready: "ensure_risk_resume_ready E e = Some r \<Longrightarrow> is_ok r \<Longrightarrow> \<not> en_reconciliation_halt e"
  by (auto simp: ensure_risk_resume_ready_def split: if_splits)

lemma relaxes_put_mode:
  "\<not> en_reconciliation_halt e \<Longrightarrow> mode_of e \<noteq> Emergency \<Longrightarrow> relaxes e (put_mode e m)"
  by (simp add: relaxes_def evidence_def)

lemma tighter_mode:
  "mode_of e' = Emergency \<or> mode_of e' = Paused \<and> mode_of e \<noteq> Emergency \<Longrightarrow>
   en_order_manager e' = en_order_manager e \<Longrightarrow> en_portfolio_manager e' = en_portfolio_manager e \<Longrightarrow>
   en_reconciliation_halt e' = en_reconciliation_halt e \<Longrightarrow> en_risk_reservations e' = en_risk_reservations e \<Longrightarrow> halt_covered e e'"
  by (rule covered_frame) (auto simp: tightens_def)

lemma set_trading_mode_covered:
  assumes "set_trading_mode E e m = Some e'"
  shows "halt_covered e e' \<or> relaxes e e'"
proof (cases "e' = e")
  case False
  then have m: "mode_of e \<noteq> Emergency \<or> m = Emergency" "mode_of e \<noteq> m"
    using assms by (auto simp: set_trading_mode_def refuse_emergency_downgrade_def bind_eq_Some_conv split: if_splits)
  show ?thesis
  proof (cases "m = Normal \<or> m = Degraded")
    case True
    then have "\<not> en_reconciliation_halt e" "e' = put_mode e m"
      using assms False resume_ready
      by (auto simp: set_trading_mode_def Let_def bind_eq_Some_conv split: if_splits)
    then show ?thesis using relaxes_put_mode m True by auto
  next
    case False
    then have "m = Paused \<or> m = Emergency" by (cases m) auto
    then have "e' = request_worker_intake_pause (put_mode e m)"
      using assms m by (auto simp: set_trading_mode_def refuse_emergency_downgrade_def Let_def)
    then show ?thesis using m \<open>m = Paused \<or> m = Emergency\<close> by (auto intro!: tighter_mode)
  qed
qed simp

lemma resume_trading_covered:
  assumes "resume_trading E e = Some e'"
  shows "halt_covered e e' \<or> relaxes e e'"
  using assms resume_ready relaxes_put_mode
  by (auto simp: resume_trading_def refuse_emergency_downgrade_def bind_eq_Some_conv split: if_splits)

lemma enter_degrade_mode_covered:
  assumes "enter_degrade_mode E e = Some e'"
  shows "halt_covered e e' \<or> relaxes e e'"
  using assms relaxes_put_mode
  by (auto simp: enter_degrade_mode_def refuse_emergency_downgrade_def ensure_accepting_new_intents_def
      bind_eq_Some_conv split: if_splits)

lemma emergency_exit_covered: "halt_covered e (fst (emergency_exit E e))"
  by (auto simp: emergency_exit_def Let_def intro!: tighter_mode)

lemma import_oms_state_covered: "halt_covered e (import_oms_state e m)"
  using tightens_owners [OF tightens_refl, of e]
  by (auto simp: halt_covered_def import_oms_state_def Let_def evidence_def owners_paused_def om_import_state_def
      import_state_def split: option.splits)

lemma map_sum_eq_Inr: "map_sum f id r = Inr x \<longleftrightarrow> r = Inr x"
  by (cases r) auto

lemma import_om_exceptions:
  assumes "import_om E om cp = Some (om', Inr x)"
  shows "reconciliation_exceptions om' = st_reconciliation_exceptions cp"
  using assms [unfolded import_om_def om_import_checkpoint_def]
  by (cases rule: import_checkpoint_cases) auto

lemma import_oms_checkpoint_covered:
  assumes "import_oms_checkpoint E e cp = Some (e', r)"
  shows "tightens e e'" and "is_ok r \<Longrightarrow> halt_covered e e'"
    and "is_ok r \<Longrightarrow> en_order_manager e' = Some om \<Longrightarrow> reconciliation_exceptions om = st_reconciliation_exceptions cp"
    and "en_portfolio_manager e' = en_portfolio_manager e"
proof -
  let ?o = "(owners_paused e)\<lparr>en_order_account_map := accounts_of (st_orders cp)\<rparr>"
  let ?e = "if st_reconciliation_exceptions cp \<noteq> [] then latch_reconciliation_halt ?o else ?o"
  have t: "tightens e ?e" using tightens_owners [OF tightens_refl, of e] by (auto intro!: tightens_latch)
  have o: "en_order_manager ?e = en_order_manager e" "en_portfolio_manager ?e = en_portfolio_manager e"
    by (simp_all add: owners_paused_def)
  have run: "(case en_order_manager e of None \<Rightarrow> Some (?e, Ok ())
      | Some om \<Rightarrow> Option.bind (import_om E om cp) (\<lambda>(om, r). Some (?e\<lparr>en_order_manager := Some om\<rparr>, map_sum Execution id r))) =
      Some (e', r)"
    using assms o(1) by (simp add: import_oms_checkpoint_def Let_def)
  show "tightens e e'" "en_portfolio_manager e' = en_portfolio_manager e"
    using run t o(2) by (auto simp: bind_eq_Some_conv split: option.splits)
  show ex: "reconciliation_exceptions om = st_reconciliation_exceptions cp" if "is_ok r" "en_order_manager e' = Some om" for om
    using run that import_om_exceptions o(1)
    by (auto simp: bind_eq_Some_conv is_ok_iff map_sum_eq_Inr split: option.splits)
  show "halt_covered e e'" if "is_ok r"
  proof (cases "st_reconciliation_exceptions cp = []")
    case True
    then show ?thesis using \<open>tightens e e'\<close> ex that \<open>en_portfolio_manager e' = en_portfolio_manager e\<close>
      by (auto simp: halt_covered_def evidence_def split: option.splits)
  next
    case False
    then have "en_reconciliation_halt e'" using run by (auto simp: bind_eq_Some_conv split: option.splits)
    then show ?thesis using \<open>tightens e e'\<close> by (simp add: covered_halt)
  qed
qed

lemma restore_fees_exceptions:
  assumes "list_all (\<lambda>(oid, eid). valid_journal_key eid) js"
  shows "pf_reconciliation_exceptions (restore_fees js s) = pf_reconciliation_exceptions s"
  using assms
  by (induction js s rule: restore_fees.induct) (auto simp: valid_journal_key_def starts_with_def Let_def)

lemma deduper_journal_valid: "deduper_journal d js = Inr d' \<Longrightarrow> list_all (\<lambda>(oid, eid). valid_journal_key eid) js"
  by (induction d js rule: deduper_journal.induct) (auto split: if_splits)

lemma from_portfolio_state_journal:
  "from_portfolio_state oks sks st n = Inr d \<Longrightarrow> list_all (\<lambda>(oid, eid). valid_journal_key eid) (ps_recent_accounting_event_ids st)"
  using deduper_journal_valid by (fastforce simp: from_portfolio_state_def Let_def split: if_splits)

lemma import_pm_exceptions:
  assumes "import_pm E pm st = Some (pm', r)" and "list_all (\<lambda>(oid, eid). valid_journal_key eid) (ps_recent_accounting_event_ids st)"
  shows "pf_reconciliation_exceptions pm' = (if is_ok r then ps_reconciliation_exceptions st else pf_reconciliation_exceptions pm)"
  using assms(1) restore_fees_exceptions [OF assms(2)]
  by (auto simp: import_pm_def try_import_state_def Let_def recalculate_unrealized_pnl_def publish_def bind_eq_Some_conv
      is_ok_iff split: sum.splits)

text \<open>The engine in which a checkpoint of the portfolio is imported, and the outcomes of the import.\<close>

definition portfolio_latched :: "engine \<Rightarrow> portfolio_state \<Rightarrow> accounting_event_deduper \<Rightarrow> engine" where
  "portfolio_latched e st d =
     (let e = (owners_paused e)\<lparr>en_applied_accounting_event_ids := d\<rparr>
      in if ps_reconciliation_exceptions st \<noteq> [] then latch_reconciliation_halt e else e)"

lemma owners_paused_state:
  "recovery_required (en_risk_reservations (owners_paused e))"
  "mode_of (owners_paused e) = (if mode_of e = Emergency then Emergency else Paused)"
  by (simp_all add: owners_paused_def owners_restored_def)

lemma portfolio_latched_frame:
  "en_order_manager (portfolio_latched e st d) = en_order_manager e"
  "en_portfolio_manager (portfolio_latched e st d) = en_portfolio_manager e"
  "ps_reconciliation_exceptions st \<noteq> [] \<Longrightarrow> en_reconciliation_halt (portfolio_latched e st d)"
  "tightens e (portfolio_latched e st d)"
  "recovery_required (en_risk_reservations (portfolio_latched e st d))"
  "mode_of (portfolio_latched e st d) = (if mode_of e = Emergency then Emergency else Paused)"
  using tightens_owners [OF tightens_refl, of e] owners_paused_state [of e]
  by (auto simp: portfolio_latched_def Let_def require_recovery_def intro!: tightens_latch) (auto simp: owners_paused_def)

lemma import_portfolio_cases:
  assumes "import_portfolio_state E e st = Some (e', r)"
  obtains (journal) err where "e' = owners_paused e" "r = Err err"
  | (alone) d where "en_portfolio_manager e = None" "e' = portfolio_latched e st d" "r = Ok ()"
  | (imported) d pm pm' r0 av where "en_portfolio_manager e = Some pm"
      "e' = (portfolio_latched e st d)\<lparr>en_portfolio_manager := Some pm', en_account_snapshot := av\<rparr>"
      "is_ok r = is_ok (r0 :: message + unit)"
      "pf_reconciliation_exceptions pm' = (if is_ok r0 then ps_reconciliation_exceptions st else pf_reconciliation_exceptions pm)"
proof (cases "from_portfolio_state (ee_orders E) (ee_strings E) st accounting_event_dedup_capacity")
  case (Inl err)
  then show thesis using assms journal by (auto simp: import_portfolio_state_def)
next
  case (Inr d)
  let ?e = "portfolio_latched e st d"
  note run = assms [unfolded import_portfolio_state_def Inr sum.case Let_def, folded portfolio_latched_def [unfolded Let_def],
      unfolded portfolio_latched_frame]
  show thesis
  proof (cases "en_portfolio_manager e")
    case None
    then show thesis using run alone by auto
  next
    case (Some pm)
    then obtain pm' r0 where i: "import_pm E pm st = Some (pm', r0)" using run by (auto simp: bind_eq_Some_conv)
    have same: "?e\<lparr>en_portfolio_manager := Some pm'\<rparr> =
        ?e\<lparr>en_portfolio_manager := Some pm', en_account_snapshot := en_account_snapshot ?e\<rparr>" by (cases ?e) simp
    note x = import_pm_exceptions [OF i from_portfolio_state_journal [OF Inr]]
    show thesis
    proof (cases r0)
      case (Inl m)
      then show thesis using run Some i same by (intro imported [OF Some _ _ x]) auto
    next
      case (Inr y)
      then show thesis using run Some i by (intro imported [OF Some _ _ x]) auto
    qed
  qed
qed

lemma import_portfolio_state_covered:
  assumes "import_portfolio_state E e st = Some (e', r)"
  shows "halt_covered e e'" and "en_order_manager e' = en_order_manager e"
    and "is_ok r \<Longrightarrow> en_portfolio_manager e' = Some pm \<Longrightarrow> pf_reconciliation_exceptions pm = ps_reconciliation_exceptions st"
    and "recovery_required (en_risk_reservations e') \<and> mode_of e' = (if mode_of e = Emergency then Emergency else Paused)"
proof -
  from assms show "halt_covered e e'"
  proof (cases rule: import_portfolio_cases)
    case journal
    then show ?thesis using tightens_owners [OF tightens_refl, of e] by (simp add: covered_frame owners_paused_def)
  next
    case (alone d)
    then show ?thesis by (simp add: covered_frame portfolio_latched_frame)
  next
    case (imported d pm0 pm' r0 av)
    then show ?thesis using portfolio_latched_frame(3) [of st e d]
      by (cases "ps_reconciliation_exceptions st = []")
         (auto simp: halt_covered_def evidence_def portfolio_latched_frame split: option.splits if_splits)
  qed
  from assms show "en_order_manager e' = en_order_manager e"
    "is_ok r \<Longrightarrow> en_portfolio_manager e' = Some pm \<Longrightarrow> pf_reconciliation_exceptions pm = ps_reconciliation_exceptions st"
    "recovery_required (en_risk_reservations e') \<and> mode_of e' = (if mode_of e = Emergency then Emergency else Paused)"
    by (cases rule: import_portfolio_cases; auto simp: portfolio_latched_frame owners_paused_state owners_paused_def owners_restored_def)+
qed

lemma import_risk_reservations_covered: "halt_covered e (fst (import_risk_reservations E e cp))"
proof -
  let ?r = "fst (rr_restore (ee_dec E) (ee_strings E (dom (rc_queued cp))) (ee_orders E (dom (rc_orders cp)))
      (en_risk_reservations e) cp)"
  have "recovery_required ?r"
    by (rule restore_cases [of "ee_dec E" "ee_strings E (dom (rc_queued cp))" "ee_orders E (dom (rc_orders cp))"
          "en_risk_reservations e" cp]) auto
  then have "tightens e ((pause_trading e)\<lparr>en_risk_reservations := ?r\<rparr>)" by (auto simp: tightens_def halted_def)
  then show ?thesis by (auto simp: import_risk_reservations_def Let_def halt_covered_def evidence_def split: prod.split)
qed

lemma confirm_halt_covered:
  assumes "confirm_risk_readback E e ids clients = Some (e', r)"
  shows "halt_covered e e' \<or> relaxes e e'"
  using assms by (auto simp: confirm_risk_readback_def relaxes_def evidence_def Let_def bind_eq_Some_conv split: if_splits)

lemma account_readback_covered:
  assumes "engine_publish_account_readback E e aks iks av = Some (e', r)"
  shows "halt_covered e e'"
proof (cases "en_portfolio_manager e")
  case None
  then show ?thesis using assms by (simp add: engine_publish_account_readback_def)
next
  case (Some pm)
  then obtain pm' r0 where p: "publish_account_readback (ee_dec E) aks iks pm av = Some (pm', r0)"
    using assms by (auto simp: engine_publish_account_readback_def bind_eq_Some_conv)
  then obtain r1 where "validate_account_view_scope (ee_dec E) aks iks pm av = Some r1"
    by (auto simp: publish_account_readback_def bind_eq_Some_conv)
  then have "pf_reconciliation_exceptions pm' = pf_reconciliation_exceptions pm"
    using p by (cases r1) (auto simp: publish_account_readback_def publish_def)
  then show ?thesis using assms Some p
    by (cases r0) (auto simp: engine_publish_account_readback_def Let_def halt_covered_def evidence_def)
qed

lemma cash_covered: "halt_covered e (fst (engine_update_cash_balance e c))"
  by (auto simp: engine_update_cash_balance_def update_cash_balance_def Let_def halt_covered_def evidence_def publish_def
      split: option.splits)

definition cleared :: "engine \<Rightarrow> engine \<Rightarrow> bool" where
  "cleared e e' \<longleftrightarrow> \<not> en_reconciliation_halt e' \<and> \<not> evidence e' \<and> recovery_required (en_risk_reservations e') \<and>
     mode_of e' = (if mode_of e = Emergency then Emergency else Paused)"

lemma import_oms_mode:
  assumes "import_oms_checkpoint E e cp = Some (e', r)"
  shows "mode_of e' = (if mode_of e = Emergency then Emergency else Paused)"
  using assms owners_paused_state(2)
  by (auto simp: import_oms_checkpoint_def Let_def bind_eq_Some_conv split: option.splits if_splits)

lemma clear_covered:
  assumes "clear_reconciliation_halt E e oms st = Some (e', r)"
  shows "is_ok r \<Longrightarrow> cleared e e'" and "\<not> is_ok r \<Longrightarrow> tightens e e'"
proof -
  have "(is_ok r \<longrightarrow> cleared e e') \<and> (\<not> is_ok r \<longrightarrow> tightens e e')"
  proof (cases "st_reconciliation_exceptions oms \<noteq> [] \<or> ps_reconciliation_exceptions st \<noteq> []")
    case True
    then show ?thesis using assms by (auto simp: clear_reconciliation_halt_def)
  next
    case False
    then obtain e1 r1 where o: "import_oms_checkpoint E e oms = Some (e1, r1)"
      using assms by (auto simp: clear_reconciliation_halt_def bind_eq_Some_conv)
    note t1 = import_oms_checkpoint_covered [OF o]
    show ?thesis
    proof (cases r1)
      case (Inl err)
      then show ?thesis using assms False o t1(1) by (auto simp: clear_reconciliation_halt_def)
    next
      case (Inr x)
      then obtain e2 r2 where p: "import_portfolio_state E e1 st = Some (e2, r2)"
        using assms False o by (auto simp: clear_reconciliation_halt_def bind_eq_Some_conv)
      note t2 = import_portfolio_state_covered [OF p]
      have t: "tightens e e2" using t1(1) t2(1) tightens_trans by (auto simp: halt_covered_def)
      show ?thesis
      proof (cases r2)
        case (Inl err)
        then show ?thesis using assms False o p Inr t by (auto simp: clear_reconciliation_halt_def)
      next
        case r2: (Inr y)
        have "\<not> evidence e2" using t1(3) t2(2,3) False Inr r2 by (auto simp: evidence_def split: option.splits)
        moreover have "recovery_required (en_risk_reservations e2) \<and> mode_of e2 = (if mode_of e = Emergency then Emergency else Paused)"
          using t2(4) import_oms_mode [OF o] by simp
        ultimately show ?thesis using assms False o p Inr r2
          by (auto simp: clear_reconciliation_halt_def cleared_def evidence_def)
      qed
    qed
  qed
  then show "is_ok r \<Longrightarrow> cleared e e'" "\<not> is_ok r \<Longrightarrow> tightens e e'" by auto
qed

subsection \<open>Runs\<close>

definition clears :: "engine_op \<Rightarrow> bool" where
  "clears op \<longleftrightarrow> (case op of ClearReconciliationHalt oms st \<Rightarrow> True | _ \<Rightarrow> False)"

definition imports_orders :: "engine_op \<Rightarrow> bool" where
  "imports_orders op \<longleftrightarrow> (case op of ImportOmsCheckpoint cp \<Rightarrow> True | ClearReconciliationHalt oms st \<Rightarrow> True | _ \<Rightarrow> False)"

lemma engine_apply_cases:
  assumes "engine_apply E e op = Some (e', ok)"
  obtains (tighter) "tightens e e'" "\<not> (imports_orders op \<and> \<not> ok) \<Longrightarrow> halt_covered e e'"
  | (relaxed) "relaxes e e'"
  | (clear) "clears op" "ok" "cleared e e'"
proof -
  let ?outcome = "tightens e e' \<and> (\<not> (imports_orders op \<and> \<not> ok) \<longrightarrow> halt_covered e e') \<or> relaxes e e' \<or> clears op \<and> ok \<and> cleared e e'"
  have outcome: ?outcome if "halt_covered e e' \<or> relaxes e e'" using that by (auto simp: halt_covered_def)
  have ?outcome
  proof (cases op)
    case (Reports rs)
    then show ?thesis using assms by (intro outcome) (auto dest: drain_covered)
  next
    case (SetTradingMode m)
    then show ?thesis using assms by (intro outcome) (auto dest: set_trading_mode_covered)
  next
    case PauseTrading
    then show ?thesis using assms tightens_pause [OF tightens_refl] by (intro outcome) (auto simp: covered_frame)
  next
    case ResumeTrading
    then show ?thesis using assms by (intro outcome) (auto dest: resume_trading_covered)
  next
    case EnterDegradeMode
    then show ?thesis using assms by (intro outcome) (auto dest: enter_degrade_mode_covered)
  next
    case EmergencyExit
    then show ?thesis using assms emergency_exit_covered by (intro outcome) auto
  next
    case (ImportOmsState m)
    then show ?thesis using assms import_oms_state_covered by (intro outcome) auto
  next
    case (ImportOmsCheckpoint cp)
    then obtain r where "import_oms_checkpoint E e cp = Some (e', r)" "ok = is_ok r" using assms by auto
    then show ?thesis using import_oms_checkpoint_covered(1,2) ImportOmsCheckpoint by (simp add: imports_orders_def)
  next
    case (ImportPortfolioState st)
    then show ?thesis using assms by (intro outcome) (auto dest: import_portfolio_state_covered(1))
  next
    case (ImportRiskReservations cp)
    then show ?thesis using assms import_risk_reservations_covered [of e E cp]
      by (intro outcome) (cases "import_risk_reservations E e cp", auto)
  next
    case (ConfirmRiskReadback ids clients)
    then show ?thesis using assms by (intro outcome) (auto dest: confirm_halt_covered)
  next
    case (PublishAccountReadback aks iks av)
    then show ?thesis using assms by (intro outcome) (auto dest: account_readback_covered)
  next
    case (UpdateCashBalance c)
    then show ?thesis using assms cash_covered [of e c]
      by (intro outcome) (cases "engine_update_cash_balance e c", auto)
  next
    case (ClearReconciliationHalt oms st)
    then obtain r where "clear_reconciliation_halt E e oms st = Some (e', r)" "ok = is_ok r" using assms by auto
    then show ?thesis using clear_covered [of E e oms st] ClearReconciliationHalt by (auto simp: clears_def imports_orders_def)
  qed
  then show thesis using that by blast
qed

text \<open>
  C8. The halt of the engine is fail-closed. Whatever sequence of operations an engine runs (batches of
  reports, changes of the trading mode, imports of checkpoints, readbacks, attempts to clear the halt), a
  halted engine stays halted, refusing every new intent, unless the halt is cleared by a successful
  reconciliation; an emergency is never left; and evidence held by the order manager or by the portfolio
  always comes with the halt, as long as no import of an order checkpoint was refused on the way.
\<close>

theorem halt_is_fail_closed:
  assumes "engine_run E e tr e'"
  shows "(halted e \<and> (\<forall>(op, ok) \<in> set tr. \<not> (clears op \<and> ok)) \<longrightarrow>
       halted e' \<and> (\<exists>err. ensure_accepting_new_intents e' = Err err)) \<and>
     (mode_of e = Emergency \<longrightarrow> mode_of e' = Emergency) \<and>
     ((en_reconciliation_halt e \<or> evidence e \<longrightarrow> halted e) \<and> (\<forall>(op, ok) \<in> set tr. imports_orders op \<longrightarrow> ok) \<longrightarrow>
       (en_reconciliation_halt e' \<or> evidence e' \<longrightarrow> halted e'))"
  using assms
proof (induction rule: engine_run.induct)
  case run_start
  then show ?case using halted_refuses by blast
next
  case (run_next tr e1 op e2 ok)
  have "(halted e1 \<and> \<not> (clears op \<and> ok) \<longrightarrow> halted e2) \<and> (mode_of e1 = Emergency \<longrightarrow> mode_of e2 = Emergency) \<and>
      ((en_reconciliation_halt e1 \<or> evidence e1 \<longrightarrow> halted e1) \<and> (imports_orders op \<longrightarrow> ok) \<longrightarrow>
       (en_reconciliation_halt e2 \<or> evidence e2 \<longrightarrow> halted e2))"
    using run_next.hyps(2)
  proof (cases rule: engine_apply_cases)
    case tighter
    then show ?thesis using tightens_halted [OF tighter(1)] by (auto simp: halt_covered_def tightens_def)
  next
    case relaxed
    then show ?thesis by (auto simp: relaxes_def halted_def)
  next
    case clear
    then show ?thesis by (auto simp: cleared_def)
  qed
  then show ?case using run_next.IH halted_refuses by auto
qed

theorem halt_is_fail_closed_witness:
  "\<exists>e'. engine_run sample_engine_env (latch_reconciliation_halt sample_engine) [(ResumeTrading, True), (PauseTrading, True)] e' \<and>
     halted e' \<and> (\<exists>err. ensure_accepting_new_intents e' = Err err)"
proof -
  let ?e = "latch_reconciliation_halt sample_engine"
  have h: "halted ?e" by (simp add: halted_def require_recovery_def)
  have "engine_apply sample_engine_env ?e ResumeTrading = Some (?e, True)"
    by (simp add: resume_trading_def refuse_emergency_downgrade_def ensure_risk_resume_ready_def sample_engine_def mode_of_def)
  then have "engine_run sample_engine_env ?e ([] @ [(ResumeTrading, True)]) ?e" by (rule run_next [OF run_start])
  then have run: "engine_run sample_engine_env ?e (([] @ [(ResumeTrading, True)]) @ [(PauseTrading, True)]) (pause_trading ?e)"
    by (rule run_next) simp
  show ?thesis using run h halt_is_fail_closed [OF run] by (auto simp: clears_def)
qed

subsection \<open>Where the engine departs from its intent\<close>

lemma map_filter_keys:
  assumes "\<And>k p. f k = Some p \<Longrightarrow> fst p = k" and "f oid = None"
  shows "oid \<notin> fst ` set (List.map_filter f ks)"
proof (induction ks)
  case (Cons k ks)
  then show ?case using assms(1) [of k] assms(2) by (cases "f k") (auto simp: List.map_filter_simps)
qed (simp add: List.map_filter_simps)

text \<open>An emergency cancels the open orders, but an order whose status is unknown, which counts as open, is left out.\<close>

lemma emergency_exit_omits_unknown:
  assumes "en_order_manager e = Some om" and "orders om oid = Some r" and "o_status r = Unknown"
  shows "status_open (o_status r)" and "oid \<notin> fst ` set (snd (emergency_exit E e))"
proof -
  show "status_open (o_status r)" using assms(3) by simp
  have "om_export_state om oid = Some (convert_record to_ports_status r)" using assms(2) by (simp add: om_export_state_def)
  moreover have "o_status (convert_record to_ports_status r) = P_Unknown" using assms(3) by (simp add: convert_record_def)
  ultimately have none: "(case om_export_state om oid of None \<Rightarrow> None | Some r \<Rightarrow>
      if o_status r \<in> {P_New, P_Acknowledged, P_Accepted, P_PartiallyFilled} then Some (oid, o_symbol r) else None) = None"
    by simp
  let ?f = "\<lambda>oid. case om_export_state om oid of None \<Rightarrow> None | Some r \<Rightarrow>
      if o_status r \<in> {P_New, P_Acknowledged, P_Accepted, P_PartiallyFilled} then Some (oid, o_symbol r) else None"
  have "snd (emergency_exit E e) = List.map_filter ?f (ee_orders E (dom (om_export_state om)))"
    using assms(1) by (simp add: emergency_exit_def Let_def)
  moreover have "fst p = k" if "?f k = Some p" for k p using that by (auto split: option.splits if_splits)
  then have "oid \<notin> fst ` set (List.map_filter ?f (ee_orders E (dom (om_export_state om))))"
    using none by (rule map_filter_keys)
  ultimately show "oid \<notin> fst ` set (snd (emergency_exit E e))" by simp
qed

text \<open>
  The order manager reads an empty strategy as no strategy, the engine registers it as it is: an order without a
  strategy conflicts with its own registration.
\<close>

definition sample_unnamed_order :: execution_event where
  "sample_unnamed_order = OrderNew (OrderId ''v1'') (Some ''c1'') (Some (AccountId ''a'')) (Symbol ''BTCUSDT'') Buy 1 (Some 10) None 0 None []"

lemma unnamed_order_halts:
  "\<exists>e'. handle_execution_report sample_engine_env sample_engine sample_unnamed_order PrivateOrUnknown = Some (e', Ok ()) \<and>
     en_reconciliation_halt e'"
  by (simp add: handle_execution_report_def numeral_2_eq_2 report_body_def admit_report_def Let_def sample_unnamed_order_def
      sample_engine_def sample_engine_env_def has_queued_client_def reservations_default_def default_checkpoint_def
      register_canonical_def oms_new_def register_order_def set_limit_price_def put_order_def order_record_new_def
      pm_register_order_def pf_register_order_def with_cash_balance_def portfolio_default_def
      apply_to_owners_def om_on_execution_event_def on_execution_event_def on_order_new_def
      exception_count_def same_payload_def record_exception_def)

text \<open>A refused checkpoint leaves evidence in the order manager without the halt.\<close>

lemma refused_import_without_halt:
  "\<exists>e' err. import_oms_checkpoint sample_engine_env sample_engine
       \<lparr>st_orders = Map.empty,
        st_notional_contracts = [OrderId ''o1'' \<mapsto> c],
        st_reconciliation_exceptions = []\<rparr> = Some (e', Err err) \<and>
     evidence e' \<and> \<not> en_reconciliation_halt e'"
  by (simp add: import_oms_checkpoint_def Let_def sample_engine_def sample_engine_env_def import_om_def om_import_checkpoint_def
     import_checkpoint_def check_contract_def oms_new_def evidence_def record_exception_def owners_paused_def)

end
