(* ===== verification/Default_Risk.thy ===== *)
theory Default_Risk
  imports Admission_View
begin

text \<open>
  The base risk manager (\<open>risk-control/risk/src/default_risk_manager.rs\<close>) and the review methods that the
  risk manager trait provides (\<open>market-core/ports/src/traits.rs\<close>): precision, venue minimums, rate limit,
  position and notional limits, loss and drawdown limits, each intent against the account as the intents
  approved before it would leave it.

  The wall clock is an argument: \<open>clk i\<close> holds the readings for the \<open>i\<close>-th intent of a call, at the rate check
  and at the update. Rounding of decimals is part of the package and comes with the environment. A reason of
  refusal is a value; its text is left out.
\<close>

subsection \<open>Environment\<close>

text \<open>The identity under which the exposure projection nets orders (\<open>runtime/src/exposure_projection.rs\<close>).\<close>

record exposure_key =
  ek_venue :: "venue_id option"
  ek_product_type :: product_type
  ek_symbol :: symbol

text \<open>The last four fields are the iteration orders of hash maps.\<close>

record risk_env =
  rk_dec :: dec_ops
  rk_round :: "decimal \<Rightarrow> decimal"
  rk_floor :: "decimal \<Rightarrow> decimal"
  rk_ceil :: "decimal \<Rightarrow> decimal"
  rk_symbols :: "symbol set \<Rightarrow> symbol list"
  rk_venues :: "venue_id set \<Rightarrow> venue_id list"
  rk_strings :: "string set \<Rightarrow> string list"
  rk_keys :: "exposure_key set \<Rightarrow> exposure_key list"

record venue_spec =
  vsp_name :: string
  tick_size :: price
  lot_size :: quantity
  min_qty :: quantity
  max_quantity :: "quantity option"
  min_notional :: decimal
  maker_fee_bps :: "decimal option"
  taker_fee_bps :: "decimal option"
  rate_limit :: "u32 option"

type_synonym venue_specs = "venue_id \<rightharpoonup> venue_spec"

datatype risk_rejection =
    BelowMinQuantity | BelowMinNotional | OrdersPerSecond | Cooldown | PositionLimit | UnpricedExposure
  | GlobalNotional | NegativeLossLimit | DailyLoss | InvalidDrawdownLimit | DrawdownLimit

subsection \<open>Precision\<close>

definition normalize_price :: "risk_env \<Rightarrow> price \<Rightarrow> price \<Rightarrow> price option" where
  "normalize_price E p tick =
     (if tick = 0 then Some p
      else do { ticks \<leftarrow> d_div (rk_dec E) p tick; d_mul (rk_dec E) (rk_round E ticks) tick })"

definition normalize_quantity :: "risk_env \<Rightarrow> quantity \<Rightarrow> quantity \<Rightarrow> quantity option" where
  "normalize_quantity E q lot =
     (if lot = 0 then Some q
      else do { lots \<leftarrow> d_div (rk_dec E) q lot; d_mul (rk_dec E) (rk_floor E lots) lot })"

definition validate_order_minimums :: "risk_env \<Rightarrow> order_intent \<Rightarrow> quantity \<Rightarrow> decimal \<Rightarrow> (risk_rejection + unit) option" where
  "validate_order_minimums E i mq mn =
     (if in_quantity i < mq then Some (Err BelowMinQuantity)
      else case in_price i of
        None \<Rightarrow> Some (Ok ())
      | Some p \<Rightarrow> do {
          notional \<leftarrow> d_mul (rk_dec E) p (in_quantity i);
          Some (if notional < mn then Err BelowMinNotional else Ok ())
        })"

subsection \<open>State\<close>

record risk_config =
  max_position_per_symbol :: quantity
  max_global_notional :: decimal
  max_orders_per_second :: u32
  order_cooldown_ms :: u64
  staleness_threshold_us :: u64
  max_daily_loss :: decimal
  max_drawdown_pct :: f64
  aggressive_mode :: bool

record symbol_risk_state =
  last_order_time_ms :: u64
  orders_this_second :: u32
  current_second :: u64
  rejected_count :: u64

definition default_symbol_state :: symbol_risk_state where
  "default_symbol_state = \<lparr>last_order_time_ms = 0, orders_this_second = 0, current_second = 0, rejected_count = 0\<rparr>"

record default_risk_manager =
  rm_config :: risk_config
  rm_symbol_states :: "symbol \<rightharpoonup> symbol_risk_state"
  rm_last_account :: "account_view option"
  rm_last_account_update_us :: u64
  rm_total_orders_today :: u64
  rm_total_rejected_today :: u64

definition risk_manager_new :: "risk_config \<Rightarrow> default_risk_manager" where
  "risk_manager_new c = \<lparr>rm_config = c, rm_symbol_states = Map.empty, rm_last_account = None,
     rm_last_account_update_us = 0, rm_total_orders_today = 0, rm_total_rejected_today = 0\<rparr>"

definition symbol_state :: "default_risk_manager \<Rightarrow> symbol \<Rightarrow> symbol_risk_state" where
  "symbol_state m sm = unwrap_or default_symbol_state (rm_symbol_states m sm)"

definition put_symbol_state :: "default_risk_manager \<Rightarrow> symbol \<Rightarrow> symbol_risk_state \<Rightarrow> default_risk_manager" where
  "put_symbol_state m sm st = m\<lparr>rm_symbol_states := (rm_symbol_states m)(sm \<mapsto> st)\<rparr>"

subsection \<open>Checks\<close>

definition check_rate_limit :: "default_risk_manager \<Rightarrow> symbol \<Rightarrow> u64 \<Rightarrow> default_risk_manager \<times> (risk_rejection + unit)" where
  "check_rate_limit m sm now_ms =
     (let now_second = now_ms div 1000;
          st = symbol_state m sm;
          st = (if current_second st \<noteq> now_second then st\<lparr>current_second := now_second, orders_this_second := 0\<rparr> else st);
          m = put_symbol_state m sm st
      in (m, if max_orders_per_second (rm_config m) \<le> orders_this_second st then Err OrdersPerSecond
             else if now_ms - last_order_time_ms st < order_cooldown_ms (rm_config m) then Err Cooldown
             else Ok ()))"

text \<open>The value of the positions in other symbols, summed in the iteration order of the map.\<close>

fun other_notional :: "dec_ops \<Rightarrow> account_view \<Rightarrow> symbol \<Rightarrow> symbol list \<Rightarrow> decimal \<Rightarrow> decimal option" where
  "other_notional D av sm [] acc = Some acc"
| "other_notional D av sm (k # ks) acc =
     (case av_positions av k of
        None \<Rightarrow> other_notional D av sm ks acc
      | Some p \<Rightarrow>
          if k = sm then other_notional D av sm ks acc
          else do {
            x \<leftarrow> d_mul D (pos_avg_price p) (pos_quantity p);
            y \<leftarrow> d_add D x (pos_unrealized_pnl p);
            z \<leftarrow> d_add D acc \<bar>y\<bar>;
            other_notional D av sm ks z
          })"

definition position_after :: "dec_ops \<Rightarrow> order_intent \<Rightarrow> account_view \<Rightarrow> (quantity \<times> quantity) option" where
  "position_after D i av =
     (let current = (case av_positions av (in_symbol i) of None \<Rightarrow> 0 | Some p \<Rightarrow> pos_quantity p)
      in map_option (\<lambda>new. (current, new))
           (case in_side i of Buy \<Rightarrow> d_add D current (in_quantity i) | Sell \<Rightarrow> d_sub D current (in_quantity i)))"

definition reference_price :: "dec_ops \<Rightarrow> order_intent \<Rightarrow> account_view \<Rightarrow> (risk_rejection + decimal) option" where
  "reference_price D i av =
     (case in_price i of
        Some p \<Rightarrow> Some (Ok p)
      | None \<Rightarrow>
          (case av_positions av (in_symbol i) of
             None \<Rightarrow> Some (Err UnpricedExposure)
           | Some pos \<Rightarrow>
               if pos_quantity pos = 0 then Some (Err UnpricedExposure)
               else do {
                 x \<leftarrow> d_div D (pos_unrealized_pnl pos) (pos_quantity pos);
                 map_option Ok (d_add D (pos_avg_price pos) x)
               }))"

definition check_position_limits :: "risk_env \<Rightarrow> risk_config \<Rightarrow> order_intent \<Rightarrow> account_view \<Rightarrow> (risk_rejection + unit) option" where
  "check_position_limits E c i av =
     (let D = rk_dec E in do {
        (current, new) \<leftarrow> position_after D i av;
        if max_position_per_symbol c < \<bar>new\<bar> then Some (Err PositionLimit)
        else if \<bar>new\<bar> < \<bar>current\<bar> then Some (Ok ())
        else try_then (reference_price D i av) (\<lambda>rp. do {
          others \<leftarrow> other_notional D av (in_symbol i) (rk_symbols E (dom (av_positions av))) 0;
          own \<leftarrow> d_mul D \<bar>rp\<bar> \<bar>new\<bar>;
          projected \<leftarrow> d_add D others own;
          Some (if max_global_notional c < projected then Err GlobalNotional else Ok ())
        })
      })"

definition check_daily_loss :: "risk_env \<Rightarrow> risk_config \<Rightarrow> account_view \<Rightarrow> (risk_rejection + unit) option" where
  "check_daily_loss E c av =
     (if max_daily_loss c < 0 then Some (Err NegativeLossLimit)
      else do {
        pnl \<leftarrow> d_add (rk_dec E) (av_realized_pnl av) (av_unrealized_pnl av);
        Some (if pnl \<le> - max_daily_loss c then Err DailyLoss else Ok ())
      })"

definition check_drawdown :: "risk_config \<Rightarrow> account_view \<Rightarrow> risk_rejection + unit" where
  "check_drawdown c av =
     (if \<not> (0 \<le> max_drawdown_pct c \<and> max_drawdown_pct c \<le> 100) then Err InvalidDrawdownLimit
      else if max_drawdown_pct c \<le> av_drawdown_pct av then Err DrawdownLimit
      else Ok ())"

definition update_state :: "default_risk_manager \<Rightarrow> symbol \<Rightarrow> u64 \<Rightarrow> default_risk_manager" where
  "update_state m sm now_ms =
     (let st = symbol_state m sm
      in (put_symbol_state m sm (st\<lparr>last_order_time_ms := now_ms, orders_this_second := orders_this_second st + 1\<rparr>))
           \<lparr>rm_total_orders_today := rm_total_orders_today m + 1\<rparr>)"

subsection \<open>Review\<close>

text \<open>The account with an approved intent applied to it.\<close>

definition project_intent :: "dec_ops \<Rightarrow> account_view \<Rightarrow> order_intent \<Rightarrow> account_view option" where
  "project_intent D av i =
     (let signed = (case in_side i of Buy \<Rightarrow> in_quantity i | Sell \<Rightarrow> - in_quantity i);
          pos = unwrap_or \<lparr>pos_symbol = in_symbol i, pos_quantity = 0, pos_avg_price = unwrap_or 0 (in_price i),
                  pos_unrealized_pnl = 0, pos_realized_pnl = 0\<rparr> (av_positions av (in_symbol i))
      in do {
        q \<leftarrow> d_add D (pos_quantity pos) signed;
        Some (av\<lparr>av_positions := (av_positions av)(in_symbol i \<mapsto>
          pos\<lparr>pos_quantity := q, pos_avg_price := unwrap_or (pos_avg_price pos) (in_price i)\<rparr>)\<rparr>)
      })"

definition normalize_intent :: "risk_env \<Rightarrow> venue_spec \<Rightarrow> order_intent \<Rightarrow> order_intent option" where
  "normalize_intent E sp i =
     do {
       p \<leftarrow> (case in_price i of None \<Rightarrow> Some None | Some p \<Rightarrow> map_option Some (normalize_price E p (tick_size sp)));
       q \<leftarrow> normalize_quantity E (in_quantity i) (lot_size sp);
       Some (i\<lparr>in_price := p, in_quantity := q\<rparr>)
     }"

definition review_one ::
  "risk_env \<Rightarrow> u64 \<times> u64 \<Rightarrow> venue_spec \<Rightarrow> account_view \<Rightarrow> default_risk_manager \<Rightarrow> account_view \<Rightarrow> order_intent
   \<Rightarrow> (default_risk_manager \<times> account_view \<times> order_intent option) option" where
  "review_one E now sp av m projected i0 =
     do {
       i \<leftarrow> normalize_intent E sp i0;
       venue_check \<leftarrow> validate_order_minimums E i (min_qty sp) (min_notional sp);
       let (m, rate_check) = (if aggressive_mode (rm_config m) then (m, Ok ()) else check_rate_limit m (in_symbol i) (fst now));
       position_check \<leftarrow> check_position_limits E (rm_config m) i projected;
       loss_check \<leftarrow> check_daily_loss E (rm_config m) av;
       if list_all is_ok [venue_check, rate_check, position_check, loss_check, check_drawdown (rm_config m) av]
       then do {
         let m = update_state m (in_symbol i) (snd now);
         projected \<leftarrow> project_intent (rk_dec E) projected i;
         Some (m, projected, Some i)
       }
       else
         let st = symbol_state m (in_symbol i)
         in Some ((put_symbol_state m (in_symbol i) (st\<lparr>rejected_count := rejected_count st + 1\<rparr>))
              \<lparr>rm_total_rejected_today := rm_total_rejected_today m + 1\<rparr>, projected, None)
     }"

fun review_loop ::
  "risk_env \<Rightarrow> (nat \<Rightarrow> u64 \<times> u64) \<Rightarrow> venue_spec \<Rightarrow> account_view \<Rightarrow> nat \<Rightarrow> default_risk_manager \<Rightarrow> account_view
   \<Rightarrow> order_intent list \<Rightarrow> (default_risk_manager \<times> order_intent list) option" where
  "review_loop E clk sp av n m projected [] = Some (m, [])"
| "review_loop E clk sp av n m projected (i # is) =
     do {
       (m, projected, a) \<leftarrow> review_one E (clk n) sp av m projected i;
       (m, rest) \<leftarrow> review_loop E clk sp av (Suc n) m projected is;
       Some (m, (case a of None \<Rightarrow> [] | Some x \<Rightarrow> [x]) @ rest)
     }"

definition review ::
  "risk_env \<Rightarrow> u64 \<Rightarrow> (nat \<Rightarrow> u64 \<times> u64) \<Rightarrow> default_risk_manager \<Rightarrow> order_intent list \<Rightarrow> account_view \<Rightarrow> venue_spec
   \<Rightarrow> (default_risk_manager \<times> order_intent list) option" where
  "review E now_us clk m is av sp =
     review_loop E clk sp av 0 (m\<lparr>rm_last_account := Some av, rm_last_account_update_us := now_us\<rparr>) av is"

definition emergency_stop :: "default_risk_manager \<Rightarrow> default_risk_manager" where
  "emergency_stop m = m\<lparr>rm_config := (rm_config m)\<lparr>max_position_per_symbol := 0, max_global_notional := 0,
     max_orders_per_second := 0\<rparr>\<rparr>"

definition should_halt_trading :: "risk_env \<Rightarrow> default_risk_manager \<Rightarrow> account_view \<Rightarrow> bool option" where
  "should_halt_trading E m av =
     do {
       l \<leftarrow> check_daily_loss E (rm_config m) av;
       Some (\<not> is_ok l \<or> \<not> is_ok (check_drawdown (rm_config m) av))
     }"

record risk_config_update =
  up_max_drawdown_pct :: "f64 option"
  up_max_position_usd :: "f64 option"
  up_max_order_size_usd :: "f64 option"
  up_max_orders_per_second :: "i32 option"
  up_latency_threshold_us :: "i64 option"

text \<open>\<open>of_f64\<close> converts a double to a decimal, which fails beyond the range of decimals.\<close>

definition update_config ::
  "(f64 \<Rightarrow> decimal option) \<Rightarrow> default_risk_manager \<Rightarrow> risk_config_update \<Rightarrow> default_risk_manager \<times> (hft_error + unit)" where
  "update_config of_f64 m u =
     (if is_some_and (\<lambda>d. \<not> (0 \<le> d \<and> d \<le> 100)) (up_max_drawdown_pct u)
      then (m, Err (Config (Msg ''max_drawdown_pct must be between 0 and 100'')))
      else if is_some_and (\<lambda>x. x < 0) (up_max_position_usd u)
      then (m, Err (Config (Msg ''max_position_usd must be a finite value of at least 0'')))
      else if up_max_order_size_usd u \<noteq> None
      then (m, Err (Config (Msg ''DefaultRiskManager does not support max_order_size_usd'')))
      else if is_some_and (\<lambda>n. sint n < 0) (up_max_orders_per_second u)
      then (m, Err (Config (Msg ''max_orders_per_second must not be negative'')))
      else if is_some_and (\<lambda>n. sint n < 0) (up_latency_threshold_us u)
      then (m, Err (Config (Msg ''latency_threshold_us must not be negative'')))
      else
        let c = rm_config m;
            c = (case up_max_drawdown_pct u of None \<Rightarrow> c | Some d \<Rightarrow> c\<lparr>max_drawdown_pct := d\<rparr>);
            c = (case up_max_position_usd u of None \<Rightarrow> c | Some x \<Rightarrow> c\<lparr>max_global_notional := unwrap_or 0 (of_f64 x)\<rparr>);
            c = (case up_max_orders_per_second u of None \<Rightarrow> c | Some n \<Rightarrow> c\<lparr>max_orders_per_second := n\<rparr>);
            c = (case up_latency_threshold_us u of None \<Rightarrow> c | Some n \<Rightarrow> c\<lparr>staleness_threshold_us := n\<rparr>)
        in (m\<lparr>rm_config := c\<rparr>, Ok ()))"

subsection \<open>Review methods of the trait\<close>

text \<open>\<open>rv k\<close> is the review of a manager as it runs for the \<open>k\<close>-th intent of the batch.\<close>

definition is_tokenized :: "order_intent \<Rightarrow> bool" where
  "is_tokenized i \<longleftrightarrow> in_asset_class i = TokenizedSecurity \<or> in_product_type i = TokenizedSecuritySpot"

definition spec_for :: "risk_env \<Rightarrow> venue_specs \<Rightarrow> order_intent \<Rightarrow> venue_spec option" where
  "spec_for E specs i =
     (case in_target_venue i of
        Some v \<Rightarrow> specs v
      | None \<Rightarrow> (case rk_venues E (dom specs) of [] \<Rightarrow> None | v # _ \<Rightarrow> specs v))"

fun project_intents :: "dec_ops \<Rightarrow> account_view \<Rightarrow> order_intent list \<Rightarrow> account_view option" where
  "project_intents D av [] = Some av"
| "project_intents D av (i # is) = do { av \<leftarrow> project_intent D av i; project_intents D av is }"

fun review_with_venue_specs ::
  "risk_env \<Rightarrow> (nat \<Rightarrow> 'm \<Rightarrow> order_intent list \<Rightarrow> account_view \<Rightarrow> venue_spec \<Rightarrow> ('m \<times> order_intent list) option)
   \<Rightarrow> nat \<Rightarrow> 'm \<Rightarrow> order_intent list \<Rightarrow> account_view \<Rightarrow> venue_specs \<Rightarrow> ('m \<times> order_intent list) option" where
  "review_with_venue_specs E rv k m [] projected specs = Some (m, [])"
| "review_with_venue_specs E rv k m (i # is) projected specs =
     (if is_tokenized i \<and> (\<not> cc_allow_tokenized_securities (in_compliance_context i) \<or>
           \<not> cc_eligibility_confirmed (in_compliance_context i))
      then review_with_venue_specs E rv (Suc k) m is projected specs
      else case spec_for E specs i of
        None \<Rightarrow> review_with_venue_specs E rv (Suc k) m is projected specs
      | Some sp \<Rightarrow> do {
          (m, reviewed) \<leftarrow> rv k m [i] projected sp;
          projected \<leftarrow> project_intents (rk_dec E) projected reviewed;
          (m, rest) \<leftarrow> review_with_venue_specs E rv (Suc k) m is projected specs;
          Some (m, reviewed @ rest)
        })"

text \<open>\<open>rv k\<close> is the review of the intent of the \<open>k\<close>-th envelope against the venue specifications.\<close>

fun review_envelopes_with_venue_specs ::
  "risk_env \<Rightarrow> (nat \<Rightarrow> 'm \<Rightarrow> order_intent list \<Rightarrow> account_view \<Rightarrow> ('m \<times> order_intent list) option)
   \<Rightarrow> nat \<Rightarrow> 'm \<Rightarrow> order_intent_envelope list \<Rightarrow> account_view \<Rightarrow> ('m \<times> order_intent_envelope list) option" where
  "review_envelopes_with_venue_specs E rv k m [] projected = Some (m, [])"
| "review_envelopes_with_venue_specs E rv k m (env # envs) projected =
     do {
       (m, reviewed) \<leftarrow> rv k m [env_intent env] projected;
       projected \<leftarrow> project_intents (rk_dec E) projected reviewed;
       (m, rest) \<leftarrow> review_envelopes_with_venue_specs E rv (Suc k) m envs projected;
       Some (m, map (\<lambda>i. env\<lparr>env_intent := i\<rparr>) reviewed @ rest)
     }"

end
