(* ===== verification/Exposure_Projection.thy ===== *)
theory Exposure_Projection
  imports Default_Risk
begin

text \<open>
  The projection of a batch of intents on the gross exposure of the account
  (\<open>runtime/src/exposure_projection.rs\<close>), the global caps on it (\<open>ProjectedExposureRiskManager\<close> of
  \<open>runtime/src/risk_manager_factory.rs\<close>) and the budgets of portfolios of strategies
  (\<open>runtime/src/portfolio_manager.rs\<close>).
\<close>

subsection \<open>The projector\<close>

record exposure_projection =
  ep_symbol_gross_quantity :: decimal
  ep_gross_notional :: decimal

record exposure_projector =
  pj_remaining_quantity :: "symbol \<rightharpoonup> decimal"
  pj_keyed_quantity :: "exposure_key \<rightharpoonup> decimal"
  pj_keyed_notional :: "exposure_key \<rightharpoonup> decimal"
  pj_gross_notional :: decimal

definition position_value :: "dec_ops \<Rightarrow> position \<Rightarrow> decimal option" where
  "position_value D p =
     do {
       x \<leftarrow> d_mul D (pos_avg_price p) (pos_quantity p);
       map_option abs (d_add D x (pos_unrealized_pnl p))
     }"

fun sum_values :: "dec_ops \<Rightarrow> (symbol \<rightharpoonup> position) \<Rightarrow> symbol list \<Rightarrow> decimal \<Rightarrow> decimal option" where
  "sum_values D ps [] acc = Some acc"
| "sum_values D ps (k # ks) acc =
     (case ps k of
        None \<Rightarrow> sum_values D ps ks acc
      | Some p \<Rightarrow> do { v \<leftarrow> position_value D p; acc \<leftarrow> d_add D acc v; sum_values D ps ks acc })"

definition projector_new :: "risk_env \<Rightarrow> account_view \<Rightarrow> exposure_projector option" where
  "projector_new E av =
     do {
       gross \<leftarrow> sum_values (rk_dec E) (av_positions av) (rk_symbols E (dom (av_positions av))) 0;
       Some \<lparr>pj_remaining_quantity = (\<lambda>k. map_option pos_quantity (av_positions av k)),
             pj_keyed_quantity = Map.empty, pj_keyed_notional = Map.empty, pj_gross_notional = gross\<rparr>
     }"

definition reserve_pending :: "dec_ops \<Rightarrow> exposure_projector \<Rightarrow> pending_risk_exposure \<Rightarrow> string + exposure_projector" where
  "reserve_pending D pj pe =
     (if pe_quantity pe \<le> 0 \<or> pe_notional pe \<le> 0
      then Err ''pending exposure lacks a positive quantity or valuation''
      else and_then (ok_or ''pending position overflow''
             (d_add D \<bar>unwrap_or 0 (pj_remaining_quantity pj (pe_symbol pe))\<bar> (pe_quantity pe))) (\<lambda>q.
           and_then (ok_or ''pending notional overflow'' (d_add D (pj_gross_notional pj) (pe_notional pe))) (\<lambda>n.
           Ok (pj\<lparr>pj_remaining_quantity := (pj_remaining_quantity pj)(pe_symbol pe \<mapsto> q), pj_gross_notional := n\<rparr>))))"

definition exposure_key_of :: "order_intent \<Rightarrow> exposure_key" where
  "exposure_key_of i = \<lparr>ek_venue = in_target_venue i, ek_product_type = in_product_type i, ek_symbol = in_symbol i\<rparr>"

definition incoming :: "order_intent \<Rightarrow> decimal" where
  "incoming i = (case in_side i of Buy \<Rightarrow> in_quantity i | Sell \<Rightarrow> - in_quantity i)"

fun sum_keyed :: "dec_ops \<Rightarrow> (exposure_key \<rightharpoonup> decimal) \<Rightarrow> symbol \<Rightarrow> exposure_key list \<Rightarrow> decimal \<Rightarrow> decimal option" where
  "sum_keyed D m sm [] acc = Some acc"
| "sum_keyed D m sm (k # ks) acc =
     (case m k of
        None \<Rightarrow> sum_keyed D m sm ks acc
      | Some q \<Rightarrow>
          if ek_symbol k = sm then do { acc \<leftarrow> d_add D acc \<bar>q\<bar>; sum_keyed D m sm ks acc } else sum_keyed D m sm ks acc)"

definition pj_project ::
  "risk_env \<Rightarrow> exposure_projector \<Rightarrow> order_intent \<Rightarrow> (string + exposure_projector \<times> exposure_projection) option" where
  "pj_project E pj i =
     (case in_price i of
        None \<Rightarrow> Some (Err ''projected exposure requires a positive executable price'')
      | Some p \<Rightarrow>
          if p \<le> 0 then Some (Err ''projected exposure requires a positive executable price'')
          else if incoming i = 0 then Some (Err ''projected exposure requires non-zero quantity'')
          else
            let D = rk_dec E;
                key = exposure_key_of i;
                old_n = unwrap_or 0 (pj_keyed_notional pj key)
            in do {
              next_q \<leftarrow> d_add D (unwrap_or 0 (pj_keyed_quantity pj key)) (incoming i);
              x \<leftarrow> d_mul D \<bar>incoming i\<bar> p;
              next_n \<leftarrow> d_add D old_n x;
              delta \<leftarrow> d_sub D next_n old_n;
              gross \<leftarrow> d_add D (pj_gross_notional pj) delta;
              let pj = pj\<lparr>pj_gross_notional := gross, pj_keyed_quantity := (pj_keyed_quantity pj)(key \<mapsto> next_q),
                         pj_keyed_notional := (pj_keyed_notional pj)(key \<mapsto> next_n)\<rparr>;
              keyed \<leftarrow> sum_keyed D (pj_keyed_quantity pj) (in_symbol i) (rk_keys E (dom (pj_keyed_quantity pj))) 0;
              total \<leftarrow> d_add D \<bar>unwrap_or 0 (pj_remaining_quantity pj (in_symbol i))\<bar> keyed;
              Some (Ok (pj, \<lparr>ep_symbol_gross_quantity = total, ep_gross_notional = gross\<rparr>))
            })"

subsection \<open>Global caps\<close>

text \<open>The filter works on anything an intent can be read from: intents and envelopes.\<close>

fun projected_filter ::
  "risk_env \<Rightarrow> decimal \<Rightarrow> decimal \<Rightarrow> ('t \<Rightarrow> order_intent) \<Rightarrow> exposure_projector \<Rightarrow> 't list \<Rightarrow> 't list option" where
  "projected_filter E max_position max_notional intent_of pj [] = Some []"
| "projected_filter E max_position max_notional intent_of pj (x # xs) =
     do {
       r \<leftarrow> pj_project E pj (intent_of x);
       case r of
         Inl _ \<Rightarrow> projected_filter E max_position max_notional intent_of pj xs
       | Inr (pj', ep) \<Rightarrow>
           if max_position < ep_symbol_gross_quantity ep \<or> max_notional < ep_gross_notional ep
           then projected_filter E max_position max_notional intent_of pj xs
           else map_option ((#) x) (projected_filter E max_position max_notional intent_of pj' xs)
     }"

definition filter_items ::
  "risk_env \<Rightarrow> decimal \<Rightarrow> decimal \<Rightarrow> ('t \<Rightarrow> order_intent) \<Rightarrow> account_view \<Rightarrow> 't list \<Rightarrow> 't list option" where
  "filter_items E max_position max_notional intent_of av xs =
     do { pj \<leftarrow> projector_new E av; projected_filter E max_position max_notional intent_of pj xs }"

subsection \<open>Portfolio budgets\<close>

record portfolio_spec =
  psp_name :: string
  psp_strategies :: "string list"
  psp_max_notional :: "decimal option"
  psp_max_position :: "decimal option"
  psp_max_drawdown_pct :: "f64 option"
  psp_notes :: "string option"

record portfolio_budgets =
  pb_definitions :: "portfolio_spec list"
  pb_strategy_to_portfolio :: "string \<rightharpoonup> string list"
  pb_known_strategies :: "string set"

definition assign_strategies :: "portfolio_spec \<Rightarrow> (string \<rightharpoonup> string list) \<Rightarrow> (string \<rightharpoonup> string list)" where
  "assign_strategies sp m = fold (\<lambda>s m. m(s \<mapsto> unwrap_or [] (m s) @ [psp_name sp])) (psp_strategies sp) m"

definition portfolio_budgets_new :: "portfolio_spec list \<Rightarrow> string list \<Rightarrow> portfolio_budgets" where
  "portfolio_budgets_new defs strategies =
     (let m = fold assign_strategies defs Map.empty
      in \<lparr>pb_definitions = defs, pb_strategy_to_portfolio = m, pb_known_strategies = set strategies \<union> dom m\<rparr>)"

definition portfolios_for_strategy :: "portfolio_budgets \<Rightarrow> string \<Rightarrow> string list" where
  "portfolios_for_strategy pb s = unwrap_or [] (pb_strategy_to_portfolio pb s)"

definition spec_named :: "portfolio_budgets \<Rightarrow> string \<Rightarrow> portfolio_spec option" where
  "spec_named pb n = List.find (\<lambda>sp. psp_name sp = n) (rev (pb_definitions pb))"

definition pending_belongs :: "portfolio_budgets \<Rightarrow> string \<Rightarrow> pending_risk_exposure \<Rightarrow> bool" where
  "pending_belongs pb n pe \<longleftrightarrow>
     pe_strategy_id pe \<notin> pb_known_strategies pb \<or> is_some_and (\<lambda>ns. n \<in> set ns) (pb_strategy_to_portfolio pb (pe_strategy_id pe))"

fun reserve_all :: "dec_ops \<Rightarrow> exposure_projector \<Rightarrow> pending_risk_exposure list \<Rightarrow> string + exposure_projector" where
  "reserve_all D pj [] = Ok pj"
| "reserve_all D pj (pe # pes) = and_then (reserve_pending D pj pe) (\<lambda>pj. reserve_all D pj pes)"

definition project_portfolio ::
  "risk_env \<Rightarrow> portfolio_budgets \<Rightarrow> account_view \<Rightarrow> pending_risk_exposure list \<Rightarrow> string \<Rightarrow> (string + exposure_projector) option" where
  "project_portfolio E pb av pending n =
     map_option (\<lambda>pj. reserve_all (rk_dec E) pj (filter (pending_belongs pb n) pending)) (projector_new E av)"

fun charge_portfolios ::
  "risk_env \<Rightarrow> portfolio_budgets \<Rightarrow> account_view \<Rightarrow> pending_risk_exposure list \<Rightarrow> (string \<rightharpoonup> exposure_projector) \<Rightarrow> order_intent
   \<Rightarrow> string list \<Rightarrow> (string \<times> exposure_projector) list \<Rightarrow> (string + (string \<times> exposure_projector) list) option" where
  "charge_portfolios E pb av pending projectors i [] acc = Some (Ok acc)"
| "charge_portfolios E pb av pending projectors i (n # ns) acc =
     (case spec_named pb n of
        None \<Rightarrow> Some (Err ''missing portfolio definition'')
      | Some sp \<Rightarrow>
          try_then (case projectors n of Some pj \<Rightarrow> Some (Ok pj) | None \<Rightarrow> project_portfolio E pb av pending n) (\<lambda>pj.
          try_then (pj_project E pj i) (\<lambda>(pj, ep).
          if is_some_and (\<lambda>l. l < ep_symbol_gross_quantity ep) (psp_max_position sp)
          then Some (Err ''portfolio position budget exceeded'')
          else if is_some_and (\<lambda>l. l < ep_gross_notional ep) (psp_max_notional sp)
          then Some (Err ''portfolio notional budget exceeded'')
          else charge_portfolios E pb av pending projectors i ns (acc @ [(n, pj)]))))"

fun budget_filter ::
  "risk_env \<Rightarrow> portfolio_budgets \<Rightarrow> account_view \<Rightarrow> pending_risk_exposure list \<Rightarrow> ('t \<Rightarrow> order_intent)
   \<Rightarrow> (string \<rightharpoonup> exposure_projector) \<Rightarrow> 't list \<Rightarrow> 't list option" where
  "budget_filter E pb av pending intent_of projectors [] = Some []"
| "budget_filter E pb av pending intent_of projectors (x # xs) =
     (let i = intent_of x;
          names = portfolios_for_strategy pb (in_strategy_id i)
      in if names = [] then map_option ((#) x) (budget_filter E pb av pending intent_of projectors xs)
         else do {
           r \<leftarrow> charge_portfolios E pb av pending projectors i names [];
           case r of
             Inl _ \<Rightarrow> budget_filter E pb av pending intent_of projectors xs
           | Inr ps \<Rightarrow>
               map_option ((#) x) (budget_filter E pb av pending intent_of
                 (fold (\<lambda>(n, pj) m. m(n \<mapsto> pj)) ps projectors) xs)
         })"

end
