(* ===== verification/Risk_Stack.thy ===== *)
theory Risk_Stack
  imports Exposure_Projection
begin

text \<open>
  The stack of risk managers the runtime builds (\<open>runtime/src/risk_manager_factory.rs\<close>,
  \<open>runtime/src/portfolio_manager.rs\<close>): layers around the base manager, each with its own version of the
  review methods of the trait or the trait's.
\<close>

subsection \<open>Overrides per strategy\<close>

record strategy_risk_override =
  so_max_position :: "decimal option"
  so_max_notional :: "decimal option"

text \<open>The fields of an override that the code reads.\<close>

definition clamp_position :: "strategy_risk_override \<Rightarrow> order_intent \<Rightarrow> order_intent" where
  "clamp_position o1 i =
     (case so_max_position o1 of None \<Rightarrow> i | Some mp \<Rightarrow> if mp < in_quantity i then i\<lparr>in_quantity := mp\<rparr> else i)"

definition clamp_notional :: "dec_ops \<Rightarrow> strategy_risk_override \<Rightarrow> order_intent \<Rightarrow> order_intent option" where
  "clamp_notional D o1 i =
     (case (so_max_notional o1, in_price i) of
        (Some mn, Some p) \<Rightarrow> do {
          notional \<leftarrow> d_mul D p (in_quantity i);
          if mn < notional then do { q \<leftarrow> d_div D mn p; Some (i\<lparr>in_quantity := q\<rparr>) } else Some i
        }
      | _ \<Rightarrow> Some i)"

fun map_intents :: "('a \<Rightarrow> 'b option) \<Rightarrow> 'a list \<Rightarrow> 'b list option" where
  "map_intents f [] = Some []"
| "map_intents f (x # xs) = do { y \<leftarrow> f x; ys \<leftarrow> map_intents f xs; Some (y # ys) }"

definition apply_strategy_overrides ::
  "dec_ops \<Rightarrow> (string \<rightharpoonup> strategy_risk_override) \<Rightarrow> string \<Rightarrow> order_intent list \<Rightarrow> order_intent list option" where
  "apply_strategy_overrides D os s is =
     (case os s of
        None \<Rightarrow> Some is
      | Some o1 \<Rightarrow> map_intents (\<lambda>i. clamp_notional D o1 (clamp_position o1 i)) is)"

text \<open>The groups by strategy, in the iteration order of the map they are collected in.\<close>

fun override_groups ::
  "dec_ops \<Rightarrow> (string \<rightharpoonup> strategy_risk_override) \<Rightarrow> order_intent list \<Rightarrow> string list \<Rightarrow> order_intent list option" where
  "override_groups D os is [] = Some []"
| "override_groups D os is (s # ss) =
     do {
       g \<leftarrow> apply_strategy_overrides D os s (filter (\<lambda>i. in_strategy_id i = s) is);
       rest \<leftarrow> override_groups D os is ss;
       Some (g @ rest)
     }"

definition override_intents ::
  "risk_env \<Rightarrow> (string \<rightharpoonup> strategy_risk_override) \<Rightarrow> order_intent list \<Rightarrow> order_intent list option" where
  "override_intents E os is = override_groups (rk_dec E) os is (rk_strings E (in_strategy_id ` set is))"

definition override_envelope ::
  "dec_ops \<Rightarrow> (string \<rightharpoonup> strategy_risk_override) \<Rightarrow> order_intent_envelope \<Rightarrow> order_intent_envelope list option" where
  "override_envelope D os env =
     do {
       is \<leftarrow> apply_strategy_overrides D os (in_strategy_id (env_intent env)) [env_intent env];
       Some (case is of [] \<Rightarrow> [] | _ \<Rightarrow> [env\<lparr>env_intent := last is\<rparr>])
     }"

subsection \<open>Tokenized securities\<close>

record tokenized_risk_config =
  tc_allow_trading :: bool
  tc_evidence_max_age_us :: u64
  tc_max_notional_per_symbol :: decimal
  tc_max_asset_class_notional :: decimal
  tc_min_top_depth_usd :: decimal
  tc_max_spread_bps :: decimal
  tc_freeze_on_corporate_action :: bool
  tc_restricted_jurisdictions :: "string list"

text \<open>Whitespace is stripped from both ends: the longest blank prefix, then the longest blank suffix.\<close>

definition str_trim :: "string \<Rightarrow> string" where
  "str_trim s =
     (let t = drop (hd (filter (\<lambda>n. blank (take n s)) (rev [0 ..< Suc (length s)]))) s
      in take (hd (filter (\<lambda>n. blank (drop n t)) [0 ..< Suc (length t)])) t)"

definition eq_ignore_ascii_case :: "string \<Rightarrow> string \<Rightarrow> bool" where
  "eq_ignore_ascii_case a b \<longleftrightarrow> to_ascii_uppercase a = to_ascii_uppercase b"

definition config_ready :: "tokenized_risk_config \<Rightarrow> string + unit" where
  "config_ready c =
     (if \<not> tc_allow_trading c then Err ''tokenized trading is disabled''
      else if \<not> tc_freeze_on_corporate_action c then Err ''corporate-action freeze is not enabled''
      else if tc_evidence_max_age_us c = 0 \<or> tc_max_notional_per_symbol c \<le> 0 \<or> tc_max_asset_class_notional c \<le> 0
        \<or> tc_min_top_depth_usd c \<le> 0 \<or> tc_max_spread_bps c \<le> 0
      then Err ''tokenized risk limits are not configured''
      else Ok ())"

definition find_attestation :: "order_intent \<Rightarrow> account_view \<Rightarrow> string + tokenized_securities_attestation" where
  "find_attestation i av =
     (if in_asset_class i \<noteq> TokenizedSecurity \<or> in_product_type i \<noteq> TokenizedSecuritySpot
        \<or> in_target_venue i \<noteq> Some BINANCE_TOKENIZED_SECURITIES
      then Err ''intent is not a Binance tokenized-security spot order''
      else and_then (ok_or ''runtime account identity is missing'' (av_account_id av)) (\<lambda>acc.
        and_then (ok_or ''runtime tokenized attestation is missing'' (av_tokenized_securities_attestations av
          \<lparr>ik_venue = BINANCE_TOKENIZED_SECURITIES, ik_product_type = TokenizedSecuritySpot, ik_symbol = in_symbol i\<rparr>)) (\<lambda>att.
        if at_account_id att \<noteq> acc then Err ''attestation account does not match runtime account''
        else if at_venue att \<noteq> BINANCE_TOKENIZED_SECURITIES \<or> at_product_type att \<noteq> TokenizedSecuritySpot
          \<or> at_symbol att \<noteq> in_symbol i
        then Err ''attestation scope does not match intent''
        else if at_source_id att \<noteq> ''licensed-reference-feed'' then Err ''attestation source is not approved''
        else Ok att)))"

definition check_attestation :: "tokenized_risk_config \<Rightarrow> timestamp \<Rightarrow> tokenized_securities_attestation \<Rightarrow> string + string" where
  "check_attestation c now att =
     (if now < at_observed_at att \<or> tc_evidence_max_age_us c < saturating_sub now (at_observed_at att)
      then Err ''attestation is stale or future dated''
      else case map_option str_trim (at_jurisdiction att) of
        None \<Rightarrow> Err ''attestation jurisdiction is unknown''
      | Some j \<Rightarrow>
          if j = [] then Err ''attestation jurisdiction is unknown''
          else if list_ex (\<lambda>r. eq_ignore_ascii_case (str_trim r) j) (tc_restricted_jurisdictions c)
          then Err ''attestation jurisdiction is restricted''
          else if map_option str_trim (ac_jurisdiction (at_account_capability att)) \<noteq> Some j
          then Err ''account jurisdiction does not match attestation''
          else if \<not> at_account_eligible att \<or> \<not> can_trade_tokenized_securities (at_account_capability att)
            \<or> str_trim (unwrap_or [] (ac_kyc_level (at_account_capability att))) = []
          then Err ''account is not eligible for tokenized trading''
          else if at_corporate_action_active att then Err ''corporate action is active''
          else if at_top_depth_usd att < tc_min_top_depth_usd c then Err ''top-of-book depth is insufficient''
          else if at_spread_bps att < 0 \<or> tc_max_spread_bps c < at_spread_bps att then Err ''spread is too wide''
          else if at_account_symbol_notional att < 0 \<or> at_account_asset_class_notional att < 0
          then Err ''reconciled tokenized exposure is invalid''
          else if at_account_asset_class_notional att < at_account_symbol_notional att
          then Err ''tokenized asset-class exposure is inconsistent''
          else Ok j)"

definition attested_context :: "tokenized_securities_attestation \<Rightarrow> string \<Rightarrow> compliance_context" where
  "attested_context att j = default_compliance_context\<lparr>cc_jurisdiction := Some j, cc_eligibility_confirmed := True,
     cc_allow_tokenized_securities := True, cc_top_depth_usd := Some (at_top_depth_usd att),
     cc_spread_bps := Some (at_spread_bps att), cc_corporate_action_active := Some False,
     cc_evidence_source := Some (at_source_id att), cc_evidence_venue := Some (at_venue att),
     cc_evidence_observed_at := Some (at_observed_at att)\<rparr>"

definition runtime_attestation_context ::
  "dec_ops \<Rightarrow> tokenized_risk_config \<Rightarrow> timestamp \<Rightarrow> order_intent \<Rightarrow> account_view \<Rightarrow> decimal \<Rightarrow> decimal \<Rightarrow> decimal option
   \<Rightarrow> (string + compliance_context \<times> decimal \<times> decimal) option" where
  "runtime_attestation_context D c now i av pending_symbol pending_class expected =
     (case and_then (config_ready c) (\<lambda>_. and_then (find_attestation i av) (\<lambda>att.
             and_then (check_attestation c now att) (\<lambda>j. Ok (att, j)))) of
        Inl e \<Rightarrow> Some (Err e)
      | Inr (att, j) \<Rightarrow>
          if is_some_and (\<lambda>x. at_account_asset_class_notional att \<noteq> x) expected
          then Some (Err ''tokenized asset-class exposure is inconsistent'')
          else case in_price i of
            None \<Rightarrow> Some (Err ''tokenized admission requires a priced order'')
          | Some p \<Rightarrow>
              if p \<le> 0 \<or> in_quantity i \<le> 0
              then Some (Err ''tokenized admission requires positive price and quantity'')
              else do {
                notional \<leftarrow> d_mul D p (in_quantity i);
                a \<leftarrow> d_add D (at_account_symbol_notional att) pending_symbol;
                s \<leftarrow> d_add D a notional;
                b \<leftarrow> d_add D (at_account_asset_class_notional att) pending_class;
                t \<leftarrow> d_add D b notional;
                Some (if tc_max_notional_per_symbol c < s \<or> tc_max_asset_class_notional c < t
                      then Err ''order exceeds tokenized notional limit''
                      else Ok (attested_context att j, notional, at_account_asset_class_notional att))
              })"

text \<open>The pending notionals of tokenized orders, per symbol and in all; \<open>None\<close> refuses every envelope.\<close>

fun pending_tokenized ::
  "dec_ops \<Rightarrow> pending_risk_exposure list \<Rightarrow> (symbol \<rightharpoonup> decimal) \<Rightarrow> decimal \<Rightarrow> ((symbol \<rightharpoonup> decimal) \<times> decimal) option" where
  "pending_tokenized D [] m tot = Some (m, tot)"
| "pending_tokenized D (pe # pes) m tot =
     (if pe_asset_class pe = TokenizedSecurity \<or> pe_product_type pe = TokenizedSecuritySpot
      then if pe_notional pe \<le> 0 then None
           else case (d_add D (unwrap_or 0 (m (pe_symbol pe))) (pe_notional pe), d_add D tot (pe_notional pe)) of
             (Some s, Some t) \<Rightarrow> pending_tokenized D pes (m(pe_symbol pe \<mapsto> s)) t
           | _ \<Rightarrow> None
      else pending_tokenized D pes m tot)"

text \<open>The loop over the batch; the outer \<open>None\<close> is a panic.\<close>

fun tokenized_filter ::
  "dec_ops \<Rightarrow> tokenized_risk_config \<Rightarrow> timestamp \<Rightarrow> account_view \<Rightarrow> ('t \<Rightarrow> order_intent) \<Rightarrow> ('t \<Rightarrow> order_intent \<Rightarrow> 't)
   \<Rightarrow> (symbol \<rightharpoonup> decimal) \<Rightarrow> decimal \<Rightarrow> decimal option \<Rightarrow> 't list \<Rightarrow> 't list option" where
  "tokenized_filter D c now av get put m tot expected [] = Some []"
| "tokenized_filter D c now av get put m tot expected (x # xs) =
     (let i = get x
      in if \<not> is_tokenized i then map_option ((#) x) (tokenized_filter D c now av get put m tot expected xs)
         else do {
           r \<leftarrow> runtime_attestation_context D c now i av (unwrap_or 0 (m (in_symbol i))) tot expected;
           case r of
             Inl _ \<Rightarrow> tokenized_filter D c now av get put m tot expected xs
           | Inr (ctx, notional, attested) \<Rightarrow> do {
               s \<leftarrow> d_add D (unwrap_or 0 (m (in_symbol i))) notional;
               t \<leftarrow> d_add D tot notional;
               map_option ((#) (put x (i\<lparr>in_compliance_context := ctx\<rparr>)))
                 (tokenized_filter D c now av get put (m(in_symbol i \<mapsto> s)) t (Some attested) xs)
             }
         })"

definition put_intent :: "order_intent_envelope \<Rightarrow> order_intent \<Rightarrow> order_intent_envelope" where
  "put_intent env i = env\<lparr>env_intent := i\<rparr>"

definition filter_envelopes ::
  "dec_ops \<Rightarrow> tokenized_risk_config \<Rightarrow> timestamp \<Rightarrow> order_intent_envelope list \<Rightarrow> account_view \<Rightarrow> pending_risk_exposure list
   \<Rightarrow> order_intent_envelope list option" where
  "filter_envelopes D c now envs av pending =
     (case pending_tokenized D pending Map.empty 0 of
        None \<Rightarrow> Some []
      | Some (m, tot) \<Rightarrow> tokenized_filter D c now av env_intent put_intent m tot None envs)"

definition filter_intents ::
  "dec_ops \<Rightarrow> tokenized_risk_config \<Rightarrow> timestamp \<Rightarrow> order_intent list \<Rightarrow> account_view \<Rightarrow> order_intent list option" where
  "filter_intents D c now is av = tokenized_filter D c now av (\<lambda>i. i) (\<lambda>_ i. i) Map.empty 0 None is"

subsection \<open>The stack\<close>

datatype risk_manager =
    Base default_risk_manager
  | ProjectedExposure risk_manager decimal decimal
  | StrategyAware risk_manager "string \<rightharpoonup> strategy_risk_override"
  | TokenizedSecurities risk_manager tokenized_risk_config
  | PortfolioBudget risk_manager portfolio_budgets

record review_clock =
  rc_now_us :: timestamp
  rc_readings :: "nat \<Rightarrow> u64 \<times> u64"

definition clock_at :: "review_clock \<Rightarrow> nat \<Rightarrow> review_clock" where
  "clock_at c k = c\<lparr>rc_readings := (\<lambda>i. rc_readings c (k + i))\<rparr>"

primrec rm_review ::
  "risk_env \<Rightarrow> risk_manager \<Rightarrow> review_clock \<Rightarrow> order_intent list \<Rightarrow> account_view \<Rightarrow> venue_spec
   \<Rightarrow> (risk_manager \<times> order_intent list) option" where
  "rm_review E (Base m) c is av sp = map_option (map_prod Base id) (review E (rc_now_us c) (rc_readings c) m is av sp)"
| "rm_review E (ProjectedExposure b mp mn) c is av sp =
     do { is \<leftarrow> filter_items E mp mn (\<lambda>i. i) av is;
          map_option (map_prod (\<lambda>b. ProjectedExposure b mp mn) id) (rm_review E b c is av sp) }"
| "rm_review E (StrategyAware b os) c is av sp =
     do { is \<leftarrow> override_intents E os is;
          map_option (map_prod (\<lambda>b. StrategyAware b os) id) (rm_review E b c is av sp) }"
| "rm_review E (TokenizedSecurities b tc) c is av sp =
     do { is \<leftarrow> filter_intents (rk_dec E) tc (rc_now_us c) is av;
          map_option (map_prod (\<lambda>b. TokenizedSecurities b tc) id) (rm_review E b c is av sp) }"
| "rm_review E (PortfolioBudget b pb) c is av sp =
     do { is \<leftarrow> budget_filter E pb av [] (\<lambda>i. i) Map.empty is;
          map_option (map_prod (\<lambda>b. PortfolioBudget b pb) id) (rm_review E b c is av sp) }"

text \<open>The trait's method, for the managers that do not have their own.\<close>

definition default_review_with_venue_specs ::
  "risk_env \<Rightarrow> risk_manager \<Rightarrow> review_clock \<Rightarrow> order_intent list \<Rightarrow> account_view \<Rightarrow> venue_specs
   \<Rightarrow> (risk_manager \<times> order_intent list) option" where
  "default_review_with_venue_specs E m c is av specs =
     review_with_venue_specs E (\<lambda>k m is av sp. rm_review E m (clock_at c k) is av sp) 0 m is av specs"

primrec rm_review_with_venue_specs ::
  "risk_env \<Rightarrow> risk_manager \<Rightarrow> review_clock \<Rightarrow> order_intent list \<Rightarrow> account_view \<Rightarrow> venue_specs
   \<Rightarrow> (risk_manager \<times> order_intent list) option" where
  "rm_review_with_venue_specs E (Base m) c is av specs = default_review_with_venue_specs E (Base m) c is av specs"
| "rm_review_with_venue_specs E (ProjectedExposure b mp mn) c is av specs =
     do { is \<leftarrow> filter_items E mp mn (\<lambda>i. i) av is;
          map_option (map_prod (\<lambda>b. ProjectedExposure b mp mn) id) (rm_review_with_venue_specs E b c is av specs) }"
| "rm_review_with_venue_specs E (StrategyAware b os) c is av specs =
     default_review_with_venue_specs E (StrategyAware b os) c is av specs"
| "rm_review_with_venue_specs E (TokenizedSecurities b tc) c is av specs =
     do { is \<leftarrow> filter_intents (rk_dec E) tc (rc_now_us c) is av;
          map_option (map_prod (\<lambda>b. TokenizedSecurities b tc) id) (rm_review_with_venue_specs E b c is av specs) }"
| "rm_review_with_venue_specs E (PortfolioBudget b pb) c is av specs =
     do { is \<leftarrow> budget_filter E pb av [] (\<lambda>i. i) Map.empty is;
          map_option (map_prod (\<lambda>b. PortfolioBudget b pb) id) (rm_review_with_venue_specs E b c is av specs) }"

definition default_review_envelopes ::
  "risk_env \<Rightarrow> risk_manager \<Rightarrow> review_clock \<Rightarrow> order_intent_envelope list \<Rightarrow> account_view \<Rightarrow> venue_specs
   \<Rightarrow> (risk_manager \<times> order_intent_envelope list) option" where
  "default_review_envelopes E m c envs av specs =
     review_envelopes_with_venue_specs E
       (\<lambda>k m is av. rm_review_with_venue_specs E m (clock_at c k) is av specs) 0 m envs av"

primrec rm_review_envelopes ::
  "risk_env \<Rightarrow> risk_manager \<Rightarrow> review_clock \<Rightarrow> order_intent_envelope list \<Rightarrow> account_view \<Rightarrow> venue_specs
   \<Rightarrow> (risk_manager \<times> order_intent_envelope list) option" where
  "rm_review_envelopes E (Base m) c envs av specs = default_review_envelopes E (Base m) c envs av specs"
| "rm_review_envelopes E (ProjectedExposure b mp mn) c envs av specs =
     default_review_envelopes E (ProjectedExposure b mp mn) c envs av specs"
| "rm_review_envelopes E (StrategyAware b os) c envs av specs = default_review_envelopes E (StrategyAware b os) c envs av specs"
| "rm_review_envelopes E (TokenizedSecurities b tc) c envs av specs =
     do { envs \<leftarrow> filter_envelopes (rk_dec E) tc (rc_now_us c) envs av [];
          map_option (map_prod (\<lambda>b. TokenizedSecurities b tc) id) (rm_review_envelopes E b c envs av specs) }"
| "rm_review_envelopes E (PortfolioBudget b pb) c envs av specs =
     do { envs \<leftarrow> budget_filter E pb av [] env_intent Map.empty envs;
          map_option (map_prod (\<lambda>b. PortfolioBudget b pb) id) (rm_review_envelopes E b c envs av specs) }"

text \<open>
  The review at admission: \<open>av\<close> is the account, \<open>exposure\<close> the account with every queued and unresolved order
  in gross. The trait's method, which the base manager has, refuses everything.
\<close>

primrec rm_review_risk_context ::
  "risk_env \<Rightarrow> risk_manager \<Rightarrow> review_clock \<Rightarrow> order_intent_envelope list \<Rightarrow> account_view \<Rightarrow> account_view
   \<Rightarrow> pending_risk_exposure list \<Rightarrow> venue_specs \<Rightarrow> (risk_manager \<times> order_intent_envelope list) option" where
  "rm_review_risk_context E (Base m) c envs av exposure pending specs = Some (Base m, [])"
| "rm_review_risk_context E (ProjectedExposure b mp mn) c envs av exposure pending specs =
     do { envs \<leftarrow> filter_items E mp mn env_intent exposure envs;
          map_option (map_prod (\<lambda>b. ProjectedExposure b mp mn) id) (rm_review_envelopes E b c envs av specs) }"
| "rm_review_risk_context E (StrategyAware b os) c envs av exposure pending specs =
     do { envs \<leftarrow> map_option concat (map_intents (override_envelope (rk_dec E) os) envs);
          map_option (map_prod (\<lambda>b. StrategyAware b os) id) (rm_review_risk_context E b c envs av exposure pending specs) }"
| "rm_review_risk_context E (TokenizedSecurities b tc) c envs av exposure pending specs =
     do { envs \<leftarrow> filter_envelopes (rk_dec E) tc (rc_now_us c) envs av pending;
          map_option (map_prod (\<lambda>b. TokenizedSecurities b tc) id) (rm_review_risk_context E b c envs av exposure pending specs) }"
| "rm_review_risk_context E (PortfolioBudget b pb) c envs av exposure pending specs =
     do { envs \<leftarrow> budget_filter E pb av pending env_intent Map.empty envs;
          map_option (map_prod (\<lambda>b. PortfolioBudget b pb) id) (rm_review_risk_context E b c envs av exposure pending specs) }"

text \<open>The stack as the factory builds it around a base manager.\<close>

definition create_strategy_aware_risk_manager ::
  "default_risk_manager \<Rightarrow> decimal \<Rightarrow> decimal \<Rightarrow> (string \<rightharpoonup> strategy_risk_override) \<Rightarrow> tokenized_risk_config \<Rightarrow> risk_manager" where
  "create_strategy_aware_risk_manager m mp mn os tc =
     (let b = ProjectedExposure (Base m) mp mn
      in TokenizedSecurities (if os = Map.empty then b else StrategyAware b os) tc)"

primrec rm_emergency_stop :: "risk_manager \<Rightarrow> risk_manager" where
  "rm_emergency_stop (Base m) = Base (emergency_stop m)"
| "rm_emergency_stop (ProjectedExposure b mp mn) = ProjectedExposure (rm_emergency_stop b) mp mn"
| "rm_emergency_stop (StrategyAware b os) = StrategyAware (rm_emergency_stop b) os"
| "rm_emergency_stop (TokenizedSecurities b tc) = TokenizedSecurities (rm_emergency_stop b) tc"
| "rm_emergency_stop (PortfolioBudget b pb) = PortfolioBudget (rm_emergency_stop b) pb"

text \<open>A change of the configuration at run time; the layer of overrides has the trait's method, which refuses.\<close>

primrec rm_update_config ::
  "(f64 \<Rightarrow> decimal option) \<Rightarrow> risk_manager \<Rightarrow> risk_config_update \<Rightarrow> risk_manager \<times> (hft_error + unit)" where
  "rm_update_config f (Base m) u = map_prod Base id (update_config f m u)"
| "rm_update_config f (ProjectedExposure b mp mn) u = map_prod (\<lambda>b. ProjectedExposure b mp mn) id (rm_update_config f b u)"
| "rm_update_config f (StrategyAware b os) u =
     (StrategyAware b os, Err (Config (Msg ''this risk manager does not support dynamic configuration'')))"
| "rm_update_config f (TokenizedSecurities b tc) u = map_prod (\<lambda>b. TokenizedSecurities b tc) id (rm_update_config f b u)"
| "rm_update_config f (PortfolioBudget b pb) u = map_prod (\<lambda>b. PortfolioBudget b pb) id (rm_update_config f b u)"

end
