(* ===== verification/Engine_Admission.thy ===== *)
theory Engine_Admission
  imports Engine Risk_Stack Execution_Queues
begin

text \<open>
  The way of an order intent into the execution queue (\<open>market-core/engine/src/lib.rs\<close>): deployment ceilings on
  its lifecycle, the queue gate, the review by the risk manager against the reserved exposure, and the reservation
  with the queue send; for a single submission and for what the strategies emit on one market event.

  The debug text of a refusal is left out of the error. Clocks are arguments: \<open>clk k\<close> are the readings of the risk
  manager for the \<open>k\<close>-th envelope of a batch.
\<close>

subsection \<open>State\<close>

text \<open>The parts of the engine that intake uses besides its canonical state.\<close>

record intake =
  it_engine :: engine
  it_queues :: "queue_pair option"
  it_risk_manager :: "risk_manager option"
  it_venue_specs :: venue_specs
  it_price_protection :: "venue_id \<rightharpoonup> execution_price_protection"
  it_strategy_accounts :: "string \<rightharpoonup> account_id"
  it_market :: orderbooks
  it_max_latency_us :: u64
  it_max_slippage_bps :: "i32 option"
  it_max_order_notional :: "decimal option"
  it_max_order_quantity :: "decimal option"
  it_intents_dropped :: u64

text \<open>\<open>ie_fixed\<close> converts a fixed-point level to a decimal price.\<close>

record intake_env =
  ie_engine :: engine_env
  ie_risk :: risk_env
  ie_fixed :: "fixed \<Rightarrow> price"

abbreviation ie_dec :: "intake_env \<Rightarrow> dec_ops" where
  "ie_dec E \<equiv> ee_dec (ie_engine E)"

abbreviation reservations :: "intake \<Rightarrow> risk_reservations" where
  "reservations s \<equiv> en_risk_reservations (it_engine s)"

subsection \<open>Deployment ceilings\<close>

definition set_intent_execution_limits ::
  "intake \<Rightarrow> i32 option \<Rightarrow> decimal option \<Rightarrow> decimal option \<Rightarrow> intake \<times> (hft_error + unit)" where
  "set_intent_execution_limits s slippage notional quantity =
     (if is_some_and (\<lambda>b. \<not> (1 \<le> sint b \<and> sint b \<le> 10000)) slippage
      then (s, Err (Config (Msg ''intent max_slippage_bps must be in 1..=10000'')))
      else if is_some_and (\<lambda>x. x \<le> 0) notional
      then (s, Err (Config (Msg ''intent max_order_notional must be positive'')))
      else if is_some_and (\<lambda>x. x \<le> 0) quantity
      then (s, Err (Config (Msg ''intent max_order_quantity must be positive'')))
      else (s\<lparr>it_max_slippage_bps := slippage, it_max_order_notional := notional, it_max_order_quantity := quantity\<rparr>, Ok ()))"

definition tightened :: "('a \<Rightarrow> 'a \<Rightarrow> 'a) \<Rightarrow> 'a option \<Rightarrow> 'a option \<Rightarrow> 'a option" where
  "tightened mn configured existing =
     (case configured of
        None \<Rightarrow> existing
      | Some c \<Rightarrow> Some (case existing of None \<Rightarrow> c | Some x \<Rightarrow> mn x c))"

definition min_i32 :: "i32 \<Rightarrow> i32 \<Rightarrow> i32" where
  "min_i32 a b = (if sint a \<le> sint b then a else b)"

definition apply_intent_execution_limits :: "intake \<Rightarrow> order_intent_lifecycle \<Rightarrow> order_intent_lifecycle" where
  "apply_intent_execution_limits s l =
     (let configured = max (it_max_latency_us s) 1;
          latency = (case max_latency_us l of None \<Rightarrow> configured | Some x \<Rightarrow> min x configured)
      in l\<lparr>max_latency_us := Some latency,
           valid_until := min (valid_until l) (saturating_add (created_ts l) latency),
           max_slippage_bps := tightened min_i32 (it_max_slippage_bps s) (max_slippage_bps l),
           max_order_notional := tightened min (it_max_order_notional s) (max_order_notional l),
           max_order_quantity := tightened min (it_max_order_quantity s) (max_order_quantity l)\<rparr>)"

definition limit_envelope :: "intake \<Rightarrow> order_intent_envelope \<Rightarrow> order_intent_envelope" where
  "limit_envelope s env = env\<lparr>env_lifecycle := apply_intent_execution_limits s (env_lifecycle env)\<rparr>"

definition price_protection_for :: "intake \<Rightarrow> order_intent \<Rightarrow> execution_price_protection" where
  "price_protection_for s i = unwrap_or CanonicalBook (Option.bind (in_target_venue i) (it_price_protection s))"

text \<open>The part of a strategy id before the first colon, when it has one.\<close>

definition strategy_base :: "string \<Rightarrow> string option" where
  "strategy_base sid = (if CHR '':'' \<in> set sid then Some (takeWhile (\<lambda>ch. ch \<noteq> CHR '':'') sid) else None)"

definition account_for_strategy :: "intake \<Rightarrow> string \<Rightarrow> account_id option" where
  "account_for_strategy s sid =
     (case it_strategy_accounts s sid of
        Some a \<Rightarrow> Some a
      | None \<Rightarrow> Option.bind (strategy_base sid) (it_strategy_accounts s))"

definition validate_intent_queue_gate ::
  "intake_env \<Rightarrow> intake \<Rightarrow> order_intent_envelope \<Rightarrow> timestamp \<Rightarrow> u64 option \<Rightarrow> reject_reason + unit" where
  "validate_intent_queue_gate E s env now latest =
     validate_for_protection (ie_dec E) env now latest (price_protection_for s (env_intent env))"

subsection \<open>Risk review\<close>

text \<open>
  A market order is reviewed at its bound, rounded up to the tick of its venue; a bound that cannot be rounded
  drops the envelope.
\<close>

definition spec_tick :: "risk_env \<Rightarrow> venue_specs \<Rightarrow> order_intent \<Rightarrow> price option" where
  "spec_tick E specs i =
     (let sp = (case Option.bind (in_target_venue i) specs of
                  Some sp \<Rightarrow> Some sp
                | None \<Rightarrow> (case rk_venues E (dom specs) of [] \<Rightarrow> None | v # _ \<Rightarrow> specs v))
      in case sp of None \<Rightarrow> None | Some sp \<Rightarrow> if 0 < tick_size sp then Some (tick_size sp) else None)"

definition market_bound :: "intake_env \<Rightarrow> venue_specs \<Rightarrow> order_intent \<Rightarrow> price \<Rightarrow> price option" where
  "market_bound E specs i bound =
     (case spec_tick (ie_risk E) specs i of
        None \<Rightarrow> Some bound
      | Some tick \<Rightarrow> do { x \<leftarrow> d_div (ie_dec E) bound tick; d_mul (ie_dec E) (rk_ceil (ie_risk E) x) tick })"

definition put_price :: "order_intent_envelope \<Rightarrow> price option \<Rightarrow> order_intent_envelope" where
  "put_price env p = env\<lparr>env_intent := (env_intent env)\<lparr>in_price := p\<rparr>\<rparr>"

definition risk_request :: "intake_env \<Rightarrow> venue_specs \<Rightarrow> order_intent_envelope \<Rightarrow> valuation \<Rightarrow> order_intent_envelope option" where
  "risk_request E specs env v =
     (if in_order_type (env_intent env) = Market
      then map_option (\<lambda>p. put_price env (Some p)) (market_bound E specs (env_intent env) (v_unit_price v))
      else Some env)"

text \<open>\<open>market\<close> holds, for a market order, the price it came with and its bound.\<close>

fun accept_reviewed ::
  "dec_ops \<Rightarrow> (price option \<times> price) option \<Rightarrow> admission_exposure \<Rightarrow> order_intent_envelope list
   \<Rightarrow> hft_error + admission_exposure \<times> order_intent_envelope list" where
  "accept_reviewed D market view [] = Ok (view, [])"
| "accept_reviewed D market view (f # fs) =
     (if (case market of None \<Rightarrow> False | Some (_, bound) \<Rightarrow> is_none_or (\<lambda>p. p < bound) (in_price (env_intent f)))
      then accept_reviewed D market view fs
      else
        let f = (case market of None \<Rightarrow> f | Some (p, _) \<Rightarrow> put_price f p)
        in and_then (from_envelope D f) (\<lambda>v.
           and_then (add_to_view D v view) (\<lambda>view.
           and_then (accept_reviewed D market view fs) (\<lambda>(view, rest). Ok (view, f # rest)))))"

definition market_price_of :: "order_intent_envelope \<Rightarrow> valuation \<Rightarrow> (price option \<times> price) option" where
  "market_price_of env v =
     (if in_order_type (env_intent env) = Market then Some (in_price (env_intent env), v_unit_price v) else None)"

text \<open>The loop over the envelopes; \<open>rv\<close> is the review method of the risk manager in place.\<close>

type_synonym 'm reviewer = "'m \<Rightarrow> review_clock \<Rightarrow> order_intent_envelope list \<Rightarrow> account_view \<Rightarrow> account_view
  \<Rightarrow> pending_risk_exposure list \<Rightarrow> venue_specs \<Rightarrow> ('m \<times> order_intent_envelope list) option"

fun review_each ::
  "'m reviewer \<Rightarrow> intake_env \<Rightarrow> (nat \<Rightarrow> review_clock) \<Rightarrow> account_view \<Rightarrow> venue_specs \<Rightarrow> nat \<Rightarrow> 'm \<Rightarrow> admission_exposure
   \<Rightarrow> order_intent_envelope list \<Rightarrow> ('m \<times> (hft_error + order_intent_envelope list)) option" where
  "review_each rv E clk account specs k rm view [] = Some (rm, Ok [])"
| "review_each rv E clk account specs k rm view (env # envs) =
     (case from_envelope (ie_dec E) env of
        Inl _ \<Rightarrow> review_each rv E clk account specs (Suc k) rm view envs
      | Inr v \<Rightarrow>
          (case risk_request E specs env v of
             None \<Rightarrow> review_each rv E clk account specs (Suc k) rm view envs
           | Some req \<Rightarrow> do {
               (rm, reviewed) \<leftarrow> rv rm (clk k) [req] account (ae_account view) (ae_pending view) specs;
               case accept_reviewed (ie_dec E) (market_price_of env v) view reviewed of
                 Inl err \<Rightarrow> Some (rm, Err err)
               | Inr (view, accepted) \<Rightarrow>
                   map_option (map_prod id (map_sum id ((@) accepted)))
                     (review_each rv E clk account specs (Suc k) rm view envs)
             }))"

definition review_risk_envelopes ::
  "intake_env \<Rightarrow> (nat \<Rightarrow> review_clock) \<Rightarrow> intake \<Rightarrow> order_intent_envelope list
   \<Rightarrow> (intake \<times> (hft_error + order_intent_envelope list)) option" where
  "review_risk_envelopes E clk s envs =
     (case it_risk_manager s of
        None \<Rightarrow> Some (s, Ok envs)
      | Some rm \<Rightarrow>
          if en_order_manager (it_engine s) = None \<or> en_portfolio_manager (it_engine s) = None
          then Some (s, Err (risk_error ''risk admission requires canonical OMS and Portfolio owners''))
          else do {
            r \<leftarrow> engine_view (ie_engine E) (it_engine s);
            case r of
              Inl err \<Rightarrow>
                Some (s\<lparr>it_engine := pause_trading ((it_engine s)\<lparr>en_risk_reservations := require_recovery (reservations s)\<rparr>)\<rparr>, Err err)
            | Inr view \<Rightarrow> do {
                (rm, r) \<leftarrow> review_each (rm_review_risk_context (ie_risk E)) E clk (en_account_snapshot (it_engine s))
                  (it_venue_specs s) 0 rm view envs;
                Some (s\<lparr>it_risk_manager := Some rm\<rparr>, r)
              }
          })"

subsection \<open>Reservation and queue send\<close>

fun submit_failure :: "submit_error \<Rightarrow> hft_error" where
  "submit_failure (LifecycleRejected env reason) = Risk (Msg ''intent lifecycle rejected'')"
| "submit_failure (QueueFull env) = Execution (Msg ''execution intent queue is full'')"

definition put_reserved :: "intake \<Rightarrow> risk_reservations \<Rightarrow> queue_pair \<Rightarrow> intake" where
  "put_reserved s rr q = s\<lparr>it_engine := (it_engine s)\<lparr>en_risk_reservations := rr\<rparr>, it_queues := Some q\<rparr>"

definition enqueue_reserved_intent ::
  "intake_env \<Rightarrow> intake \<Rightarrow> order_intent_envelope \<Rightarrow> timestamp \<Rightarrow> u64 option \<Rightarrow> intake \<times> (hft_error + unit)" where
  "enqueue_reserved_intent E s env now latest =
     (case and_then (ensure_accepting_new_intents (it_engine s)) (\<lambda>_.
             and_then (from_envelope (ie_dec E) env) (\<lambda>v.
             and_then (ok_or (Execution (Msg ''execution queues are not initialized'')) (it_queues s)) (\<lambda>q. Ok (v, q)))) of
        Inl err \<Rightarrow> (s, Err err)
      | Inr (v, q) \<Rightarrow>
          (case reserve (reservations s) v of
             (rr, Inl err) \<Rightarrow> (s, Err err)
           | (rr, Inr _) \<Rightarrow>
               (case send_lifecycle_intent_with_price_protection (ie_dec E) q env now latest
                       (price_protection_for s (env_intent env)) of
                  (q, Inr _) \<Rightarrow> (put_reserved s rr q, Ok ())
                | (q, Inl err) \<Rightarrow> (put_reserved s (remove_unsent rr (env_client_order_id env)) q, Err (submit_failure err)))))"

subsection \<open>Submission\<close>

text \<open>The common end of both submissions: review of the one envelope, then reservation and send.\<close>

definition submit_reviewed ::
  "intake_env \<Rightarrow> review_clock \<Rightarrow> intake \<Rightarrow> order_intent_envelope \<Rightarrow> timestamp \<Rightarrow> u64 option
   \<Rightarrow> (intake \<times> (hft_error + unit)) option" where
  "submit_reviewed E clk s env now latest =
     do {
       (s, r) \<leftarrow> review_risk_envelopes E (\<lambda>_. clk) s [env];
       Some (case r of
               Inl err \<Rightarrow> (s, Err err)
             | Inr reviewed \<Rightarrow>
                 if reviewed = [] then (s, Err (risk_error ''risk review rejected order intent''))
                 else enqueue_reserved_intent E s (last reviewed) now latest)
     }"

definition submit_order_intent ::
  "intake_env \<Rightarrow> review_clock \<Rightarrow> u64 \<Rightarrow> intake \<Rightarrow> order_intent \<Rightarrow> timestamp \<Rightarrow> u64
   \<Rightarrow> (intake \<times> (hft_error + unit)) option" where
  "submit_order_intent E clk mono_us s i now ctr =
     (case ensure_accepting_new_intents (it_engine s) of
        Inl err \<Rightarrow> Some (s, Err err)
      | Inr _ \<Rightarrow>
          let l = lifecycle_new now (- 1);
              l = l\<lparr>lc_timing := (lc_timing l)\<lparr>intent_emitted_mono_us := Some mono_us\<rparr>\<rparr>;
              env = fst (envelope_new i (apply_intent_execution_limits s l) ctr);
              env = env\<lparr>env_price_reference := execution_price_reference_of (ie_fixed E) (it_market s) (env_intent env)\<rparr>;
              env = (case account_for_strategy s (in_strategy_id i) of None \<Rightarrow> env | Some a \<Rightarrow> with_account_id env a)
          in case validate_intent_queue_gate E s env now None of
               Inl reason \<Rightarrow> Some (s, Err (Risk (Msg ''intent execution limit rejected order'')))
             | Inr _ \<Rightarrow> submit_reviewed E clk s env now None)"

definition referenced_envelope :: "intake_env \<Rightarrow> intake \<Rightarrow> order_intent_envelope \<Rightarrow> order_intent_envelope" where
  "referenced_envelope E s env =
     (let env = limit_envelope s env;
          env = env\<lparr>env_price_reference := execution_price_reference_of (ie_fixed E) (it_market s) (env_intent env)\<rparr>
      in if price_protection_for s (env_intent env) = CanonicalBook \<and> env_source_book_identity env = None \<and>
            source_book_seq (env_lifecycle env) \<noteq> None
         then env\<lparr>env_source_book_identity := map_option (\<lambda>v. \<lparr>vs_venue = v, vs_symbol = in_symbol (env_intent env)\<rparr>)
                (in_target_venue (env_intent env))\<rparr>
         else env)"

definition submit_order_intent_envelope ::
  "intake_env \<Rightarrow> review_clock \<Rightarrow> intake \<Rightarrow> order_intent_envelope \<Rightarrow> timestamp \<Rightarrow> u64 option
   \<Rightarrow> (intake \<times> (hft_error + unit)) option" where
  "submit_order_intent_envelope E clk s env now latest =
     (case ensure_accepting_new_intents (it_engine s) of
        Inl err \<Rightarrow> Some (s, Err err)
      | Inr _ \<Rightarrow>
          let env = referenced_envelope E s env
          in case validate_intent_queue_gate E s env now latest of
               Inl reason \<Rightarrow> Some (s, Err (Execution (Msg ''intent lifecycle rejected'')))
             | Inr _ \<Rightarrow> submit_reviewed E clk s env now latest)"

subsection \<open>What strategies emit\<close>

definition fill_strategy_id :: "string list \<Rightarrow> nat \<Rightarrow> order_intent \<Rightarrow> order_intent" where
  "fill_strategy_id ids idx i =
     (if in_strategy_id i = []
      then i\<lparr>in_strategy_id := (if idx < length ids then ids ! idx else ''strategy_'' @ decimal_digits idx)\<rparr>
      else i)"

text \<open>The envelope of an emitted intent; the deadline is the strategy's.\<close>

definition emitted_envelope ::
  "intake \<Rightarrow> order_intent \<Rightarrow> timestamp option \<Rightarrow> u64 \<Rightarrow> u64 \<Rightarrow> order_intent_envelope" where
  "emitted_envelope s i deadline mono_us ctr =
     (let l = default_lifecycle;
          l = (case deadline of None \<Rightarrow> l | Some d \<Rightarrow> l\<lparr>valid_until := min (valid_until l) d\<rparr>);
          l = l\<lparr>lc_timing := (lc_timing l)\<lparr>intent_emitted_mono_us := Some mono_us\<rparr>\<rparr>;
          env = fst (envelope_new i l ctr)
      in case account_for_strategy s (in_strategy_id i) of None \<Rightarrow> env | Some a \<Rightarrow> with_account_id env a)"

definition wants_feedback :: "order_intent \<Rightarrow> bool" where
  "wants_feedback i \<longleftrightarrow> in_asset_class i = AC_PredictionMarket \<and> in_product_type i = PT_PredictionMarket"

text \<open>The market event a batch answers, with the book it came with and what the event itself says of its source.\<close>

record market_input =
  mi_received_at :: timestamp
  mi_exchange_ts :: "timestamp option"
  mi_book :: "(venue_id \<times> top_n_snapshot) option"
  mi_event_sequence :: "u64 option"
  mi_event_identity :: "venue_symbol option"
  mi_capture :: latency_capture_boundary

record dispatch_clock =
  dc_pricing :: "nat \<Rightarrow> timestamp"
  dc_pre_risk :: "nat \<Rightarrow> timestamp"
  dc_review :: "nat \<Rightarrow> review_clock"
  dc_completed :: u64
  dc_enqueue :: "nat \<Rightarrow> timestamp"

definition requires_arrival_quote :: "order_intent \<Rightarrow> bool" where
  "requires_arrival_quote i \<longleftrightarrow> in_order_type i = Market \<or> in_time_in_force i = IOC"

definition capture_arrival_price ::
  "(fixed \<Rightarrow> price) \<Rightarrow> order_intent \<Rightarrow> (venue_id \<times> top_n_snapshot) option \<Rightarrow> order_intent \<times> price option" where
  "capture_arrival_price fx i book =
     (case book of
        None \<Rightarrow> (i, None)
      | Some (ven, b) \<Rightarrow>
          if ts_symbol b \<noteq> in_symbol i then (i, None)
          else case map_option fx (first_level (case in_side i of Buy \<Rightarrow> ts_ask_prices b | Sell \<Rightarrow> ts_bid_prices b)) of
            None \<Rightarrow> (i, None)
          | Some p \<Rightarrow>
              (case in_target_venue i of
                 Some v \<Rightarrow> (i, if v \<noteq> ven then None else Some p)
               | None \<Rightarrow> (i\<lparr>in_target_venue := Some ven\<rparr>, Some p)))"

definition capture_prediction_arrival_price ::
  "(fixed \<Rightarrow> price) \<Rightarrow> order_intent \<Rightarrow> orderbooks \<Rightarrow> timestamp \<Rightarrow> u64 \<Rightarrow> price option" where
  "capture_prediction_arrival_price fx i market now max_age =
     (if in_target_venue i \<noteq> Some POLYMARKET then None
      else do {
        r \<leftarrow> execution_price_reference_of fx market i;
        age \<leftarrow> checked_sub now (ref_received_at r);
        if age \<le> max_age then Some (ref_price r) else None
      })"

definition prepare_envelope :: "intake_env \<Rightarrow> intake \<Rightarrow> market_input \<Rightarrow> order_intent_envelope \<Rightarrow> order_intent_envelope" where
  "prepare_envelope E s mi env =
     (let env = limit_envelope s (env\<lparr>env_lifecycle := (env_lifecycle env)\<lparr>created_ts := mi_received_at mi\<rparr>\<rparr>)
      in if max_slippage_bps (env_lifecycle env) = None then env
         else let i = (if in_target_venue (env_intent env) = None
                       then fst (capture_arrival_price (ie_fixed E) (env_intent env) (mi_book mi)) else env_intent env)
              in env\<lparr>env_intent := i, env_price_reference := execution_price_reference_of (ie_fixed E) (it_market s) i\<rparr>)"

definition price_envelope ::
  "intake_env \<Rightarrow> intake \<Rightarrow> market_input \<Rightarrow> timestamp \<Rightarrow> order_intent_envelope \<Rightarrow> order_intent_envelope option" where
  "price_envelope E s mi now env =
     (if \<not> requires_arrival_quote (env_intent env) then Some env
      else
        let i = env_intent env;
            (i, arrival) =
              (if wants_feedback i \<and> in_time_in_force i = IOC \<and>
                  is_some_and (\<lambda>(_, b). ts_symbol b \<noteq> in_symbol i) (mi_book mi)
               then (i, capture_prediction_arrival_price (ie_fixed E) i (it_market s) now (it_max_latency_us s))
               else capture_arrival_price (ie_fixed E) i (mi_book mi));
            i = (if in_order_type i = Market then i\<lparr>in_price := arrival\<rparr> else i)
        in if arrival = None then None
           else Some (env\<lparr>env_intent := i, env_lifecycle := (env_lifecycle env)\<lparr>arrival_price := arrival\<rparr>\<rparr>))"

definition pre_risk_gate :: "intake_env \<Rightarrow> intake \<Rightarrow> timestamp \<Rightarrow> order_intent_envelope \<Rightarrow> order_intent_envelope option" where
  "pre_risk_gate E s now env =
     (if is_ok (and_then (validate_pre_risk (ie_dec E) env now None) (\<lambda>_.
           if price_protection_for s (env_intent env) = CanonicalBook
           then validate_slippage_reference (ie_dec E) env now (env_price_reference env) else Ok ()))
      then Some env else None)"

text \<open>A pass over a list with an own clock reading per element.\<close>

fun retain_at :: "(nat \<Rightarrow> 'a \<Rightarrow> 'b option) \<Rightarrow> nat \<Rightarrow> 'a list \<Rightarrow> 'b list" where
  "retain_at f k [] = []"
| "retain_at f k (x # xs) = (case f k x of None \<Rightarrow> [] | Some y \<Rightarrow> [y]) @ retain_at f (Suc k) xs"

definition candidates ::
  "intake_env \<Rightarrow> dispatch_clock \<Rightarrow> intake \<Rightarrow> market_input \<Rightarrow> order_intent_envelope list \<Rightarrow> order_intent_envelope list" where
  "candidates E clk s mi envs =
     retain_at (\<lambda>k. pre_risk_gate E s (dc_pre_risk clk k)) 0
       (retain_at (\<lambda>k. price_envelope E s mi (dc_pricing clk k)) 0 (map (prepare_envelope E s mi) envs))"

definition source_envelope :: "market_input \<Rightarrow> u64 option \<Rightarrow> order_intent_envelope \<Rightarrow> order_intent_envelope" where
  "source_envelope mi completed env =
     env\<lparr>env_lifecycle := (env_lifecycle env)\<lparr>
           source_feature_ts := mi_exchange_ts mi,
           source_book_seq := opt_or (map_option (\<lambda>(_, b). ts_sequence b) (mi_book mi)) (mi_event_sequence mi),
           lc_timing := (lc_timing (env_lifecycle env))\<lparr>
             risk_completed_mono_us := completed,
             source_market_receive_wall_us := (if mi_capture mi = UserspaceWebSocketMessageDelivery then Some (mi_received_at mi) else None),
             source_market_capture_boundary := mi_capture mi\<rparr>\<rparr>,
         env_source_book_identity :=
           opt_or (map_option (\<lambda>(v, b). \<lparr>vs_venue = v, vs_symbol = ts_symbol b\<rparr>) (mi_book mi)) (mi_event_identity mi)\<rparr>"

text \<open>The sends: the new state, the client order ids that entered the queue, and the number refused.\<close>

fun enqueue_all ::
  "intake_env \<Rightarrow> (nat \<Rightarrow> timestamp) \<Rightarrow> u64 option \<Rightarrow> nat \<Rightarrow> intake \<Rightarrow> order_intent_envelope list \<Rightarrow> intake \<times> string list \<times> nat" where
  "enqueue_all E clk latest k s [] = (s, [], 0)"
| "enqueue_all E clk latest k s (env # envs) =
     (case enqueue_reserved_intent E s env (clk k) latest of
        (s, r) \<Rightarrow>
          (case enqueue_all E clk latest (Suc k) s envs of
             (s, ids, dropped) \<Rightarrow>
               if is_ok r then (s, env_client_order_id env # ids, dropped) else (s, ids, Suc dropped)))"

datatype submission_outcome = Enqueued string | NotSubmitted

type_synonym feedback = "(nat \<times> order_intent \<times> submission_outcome) list"

definition feedback_of :: "(nat \<times> order_intent \<times> string) list \<Rightarrow> string list \<Rightarrow> feedback" where
  "feedback_of wanted ids =
     map (\<lambda>(idx, i, c). (idx, i, if c \<in> set ids then Enqueued c else NotSubmitted)) wanted"

text \<open>
  The part of \<open>run_strategies_sync\<close> after the strategies have answered one event: \<open>envs\<close> is what they emitted and
  \<open>wanted\<close> the proposals whose outcome they are told.
\<close>

definition send_reviewed ::
  "intake_env \<Rightarrow> dispatch_clock \<Rightarrow> intake \<Rightarrow> market_input \<Rightarrow> u64 option \<Rightarrow> order_intent_envelope list \<Rightarrow> intake \<times> string list" where
  "send_reviewed E clk s mi completed reviewed =
     (let reviewed = (if mode_of (it_engine s) \<in> {Paused, Emergency} then [] else reviewed);
          latest = Option.bind (mi_book mi) (\<lambda>(v, b).
            map_option ts_sequence (it_market s \<lparr>vs_venue = v, vs_symbol = ts_symbol b\<rparr>));
          reviewed = map (limit_envelope s) reviewed
      in if it_queues s = None then (s, [])
         else case enqueue_all E (dc_enqueue clk) latest 0 s (map (source_envelope mi completed) reviewed) of
           (s, ids, dropped) \<Rightarrow>
             (s\<lparr>it_intents_dropped := saturating_add (it_intents_dropped s) (of_nat dropped)\<rparr>, ids))"

definition dispatch_intents ::
  "intake_env \<Rightarrow> dispatch_clock \<Rightarrow> intake \<Rightarrow> market_input \<Rightarrow> order_intent_envelope list \<Rightarrow> (nat \<times> order_intent \<times> string) list
   \<Rightarrow> (intake \<times> (hft_error + feedback)) option" where
  "dispatch_intents E clk s mi envs wanted =
     do {
       (s, r) \<leftarrow> review_risk_envelopes E (dc_review clk) s (candidates E clk s mi envs);
       Some (case r of
               Inl err \<Rightarrow> (s, Err err)
             | Inr reviewed \<Rightarrow>
                 (case send_reviewed E clk s mi (if it_risk_manager s = None then None else Some (dc_completed clk)) reviewed of
                    (s, ids) \<Rightarrow> (s, Ok (feedback_of wanted ids))))
     }"

end
