(* ===== verification/Risk_Rate.thy ===== *)
theory Risk_Rate
  imports Default_Risk Key_Order
begin

text \<open>
  The rate limit of the base risk manager over any history of reviews: per symbol, no second sees more
  approvals than configured, and approvals keep the cooldown between them.
\<close>

subsection \<open>Histories\<close>

text \<open>
  A history of reviewed intents with a clock that does not go back. The history holds the approvals: the symbol
  and the readings of the clock at the rate check and at the update; \<open>t\<close> is the last reading.
\<close>

inductive reviews :: "risk_env \<Rightarrow> risk_config \<Rightarrow> (symbol \<times> u64 \<times> u64) list \<Rightarrow> u64 \<Rightarrow> default_risk_manager \<Rightarrow> bool" for E c where
  reviews_new: "reviews E c [] 0 (risk_manager_new c)"
| reviews_account: "reviews E c h t m \<Longrightarrow> reviews E c h t (m\<lparr>rm_last_account := a, rm_last_account_update_us := us\<rparr>)"
| reviews_one: "reviews E c h t m \<Longrightarrow> review_one E (a, b) sp av m pr i = Some (m', pr', res) \<Longrightarrow> t \<le> a \<Longrightarrow> a \<le> b \<Longrightarrow>
    reviews E c (h @ (case res of None \<Rightarrow> [] | Some j \<Rightarrow> [(in_symbol j, a, b)])) b m'"

text \<open>A call of \<open>review\<close> extends a history by its approvals.\<close>

fun clock_ordered :: "u64 \<Rightarrow> (u64 \<times> u64) list \<Rightarrow> bool" where
  "clock_ordered t [] = True"
| "clock_ordered t ((a, b) # cs) \<longleftrightarrow> t \<le> a \<and> a \<le> b \<and> clock_ordered b cs"

lemma review_loop_extends:
  assumes "review_loop E clk sp av n m pr is = Some (m', js)" and "reviews E c h t m"
    and "clock_ordered t (map clk [n ..< n + length is])"
  shows "\<exists>h' t'. reviews E c (h @ h') t' m' \<and> map fst h' = map in_symbol js"
  using assms
proof (induction "is" arbitrary: n m pr js h t)
  case (Cons i "is")
  obtain a b where clk: "clk n = (a, b)" by (cases "clk n")
  obtain m1 pr1 r rest where one: "review_one E (a, b) sp av m pr i = Some (m1, pr1, r)"
    and loop: "review_loop E clk sp av (Suc n) m1 pr1 is = Some (m', rest)"
    and js: "js = (case r of None \<Rightarrow> [] | Some x \<Rightarrow> [x]) @ rest"
    using Cons.prems(1) clk by (auto simp: bind_eq_Some_conv)
  have "[n ..< n + length (i # is)] = n # [Suc n ..< Suc n + length is]" by (metis add_Suc add_Suc_shift length_Cons less_add_Suc1 upt_conv_Cons)
  then have ord: "t \<le> a" "a \<le> b" "clock_ordered b (map clk [Suc n ..< Suc n + length is])"
    using Cons.prems(3) clk by simp_all
  let ?h = "h @ (case r of None \<Rightarrow> [] | Some j \<Rightarrow> [(in_symbol j, a, b)])"
  obtain h' t' where "reviews E c (?h @ h') t' m'" "map fst h' = map in_symbol rest"
    using Cons.IH [OF loop reviews_one [OF Cons.prems(2) one ord(1,2)] ord(3)] by blast
  then show ?case using js
    by (intro exI [of _ "(case r of None \<Rightarrow> [] | Some j \<Rightarrow> [(in_symbol j, a, b)]) @ h'"] exI [of _ t'])
       (auto split: option.splits)
qed (auto intro: exI [of _ "[]"])

lemma review_extends:
  assumes "review E us clk m is av sp = Some (m', js)" and "reviews E c h t m"
    and "clock_ordered t (map clk [0 ..< length is])"
  shows "\<exists>h' t'. reviews E c (h @ h') t' m' \<and> map fst h' = map in_symbol js"
  using review_loop_extends [OF assms(1) [unfolded review_def] reviews_account [OF assms(2)]] assms(3) by simp

subsection \<open>One review\<close>

text \<open>What a review does to the counters of the symbol.\<close>

definition rolled :: "symbol_risk_state \<Rightarrow> u64 \<Rightarrow> symbol_risk_state" where
  "rolled st now = (if current_second st \<noteq> now div 1000 then st\<lparr>current_second := now div 1000, orders_this_second := 0\<rparr> else st)"

lemma symbol_state_put [simp]: "symbol_state (put_symbol_state m k st) k' = (if k' = k then st else symbol_state m k')"
  by (simp add: symbol_state_def put_symbol_state_def unwrap_or_def)

lemma put_symbol_state_config [simp]: "rm_config (put_symbol_state m k st) = rm_config m"
  by (simp add: put_symbol_state_def)

lemma symbol_state_frame [simp]:
  "symbol_state (m\<lparr>rm_total_orders_today := x\<rparr>) k = symbol_state m k"
  "symbol_state (m\<lparr>rm_total_rejected_today := y\<rparr>) k = symbol_state m k"
  "symbol_state (m\<lparr>rm_last_account := a\<rparr>) k = symbol_state m k"
  "symbol_state (m\<lparr>rm_last_account_update_us := us\<rparr>) k = symbol_state m k"
  by (simp_all add: symbol_state_def)

lemma rolled_last [simp]: "last_order_time_ms (rolled st now) = last_order_time_ms st"
  by (simp add: rolled_def)

lemma check_rate_limit_ok:
  "check_rate_limit m k now = (m1, r) \<Longrightarrow>
     m1 = put_symbol_state m k (rolled (symbol_state m k) now) \<and>
     (is_ok r \<longrightarrow> orders_this_second (symbol_state m1 k) < max_orders_per_second (rm_config m) \<and>
        order_cooldown_ms (rm_config m) \<le> now - last_order_time_ms (symbol_state m k))"
  unfolding check_rate_limit_def Let_def rolled_def [symmetric] by (auto split: if_splits)

lemma review_one_rate:
  assumes "review_one E (a, b) sp av m pr i = Some (m', pr', res)" and "\<not> aggressive_mode (rm_config m)"
  obtains (approved) j where "res = Some j" "rm_config m' = rm_config m"
      "orders_this_second (rolled (symbol_state m (in_symbol j)) a) < max_orders_per_second (rm_config m)"
      "order_cooldown_ms (rm_config m) \<le> a - last_order_time_ms (symbol_state m (in_symbol j))"
      "\<And>k. symbol_state m' k = (if k = in_symbol j then (rolled (symbol_state m k) a)\<lparr>last_order_time_ms := b,
         orders_this_second := orders_this_second (rolled (symbol_state m k) a) + 1\<rparr> else symbol_state m k)"
  | (rejected) k0 st where "res = None" "rm_config m' = rm_config m"
      "\<And>k. symbol_state m' k = (if k = k0 then (rolled (symbol_state m k) a)\<lparr>rejected_count := st\<rparr> else symbol_state m k)"
proof -
  obtain i1 where i1: "normalize_intent E sp i = Some i1"
    using assms(1) by (auto simp: review_one_def bind_eq_Some_conv)
  obtain m1 r where rl: "check_rate_limit m (in_symbol i1) a = (m1, r)" by (cases "check_rate_limit m (in_symbol i1) a")
  note c = check_rate_limit_ok [OF rl]
  obtain v p l where vpl: "validate_order_minimums E i1 (min_qty sp) (min_notional sp) = Some v"
      "check_position_limits E (rm_config m1) i1 pr = Some p" "check_daily_loss E (rm_config m1) av = Some l"
    using assms i1 rl by (auto simp: review_one_def bind_eq_Some_conv)
  note run = assms(1) [unfolded review_one_def i1 bind.bind_lunit vpl Let_def fst_conv rl if_not_P [OF assms(2)] split]
  show thesis
  proof (cases "list_all is_ok [v, r, p, l, check_drawdown (rm_config m1) av]")
    case True
    then show thesis using run vpl c
      by (intro approved [of i1]) (auto simp: bind_eq_Some_conv update_state_def Let_def)
  next
    case False
    then show thesis using run vpl c
      by (intro rejected [of "in_symbol i1" "rejected_count (symbol_state m1 (in_symbol i1)) + 1"]) (auto simp: Let_def)
  qed
qed

subsection \<open>The invariant\<close>

definition approvals_in :: "(symbol \<times> u64 \<times> u64) list \<Rightarrow> symbol \<Rightarrow> u64 \<Rightarrow> nat" where
  "approvals_in h k s = length (filter (\<lambda>(k', a, b). k' = k \<and> a div 1000 = s) h)"

definition spaced :: "u64 \<Rightarrow> (symbol \<times> u64 \<times> u64) list \<Rightarrow> bool" where
  "spaced d h = sorted_wrt (\<lambda>(k, a, b) (k', a', b'). k = k' \<longrightarrow> b \<le> a' \<and> d \<le> a' - b) h"

definition rate_ok :: "risk_config \<Rightarrow> (symbol \<times> u64 \<times> u64) list \<Rightarrow> u64 \<Rightarrow> default_risk_manager \<Rightarrow> symbol \<Rightarrow> bool" where
  "rate_ok c h t m k \<longleftrightarrow>
     (let st = symbol_state m k
      in current_second st \<le> t div 1000 \<and> last_order_time_ms st \<le> t \<and>
         approvals_in h k (current_second st) = unat (orders_this_second st) \<and>
         orders_this_second st \<le> max_orders_per_second c \<and>
         (\<forall>(k', a, b) \<in> set h. k' = k \<longrightarrow> a div 1000 \<le> current_second st \<and> b \<le> last_order_time_ms st) \<and>
         (\<forall>s. approvals_in h k s \<le> unat (max_orders_per_second c)))"

definition rate_inv :: "risk_config \<Rightarrow> (symbol \<times> u64 \<times> u64) list \<Rightarrow> u64 \<Rightarrow> default_risk_manager \<Rightarrow> bool" where
  "rate_inv c h t m \<longleftrightarrow> rm_config m = c \<and> spaced (order_cooldown_ms c) h \<and> (\<forall>k. rate_ok c h t m k)"

lemma approvals_in_append [simp]:
  "approvals_in (h @ h') k s = approvals_in h k s + approvals_in h' k s"
  by (simp add: approvals_in_def)

lemma approvals_in_single [simp]:
  "approvals_in [(k', a, b)] k s = (if k' = k \<and> a div 1000 = s then 1 else 0)" "approvals_in [] k s = 0"
  by (simp_all add: approvals_in_def)

lemma approvals_later:
  assumes "\<forall>(k', a, b) \<in> set h. k' = k \<longrightarrow> a div 1000 \<le> s" and "s < s'"
  shows "approvals_in h k s' = 0"
  using assms by (fastforce simp: approvals_in_def filter_empty_conv)

lemma word_div_mono: "a \<le> b \<Longrightarrow> a div c \<le> b div (c :: u64)"
  by (simp add: word_le_nat_alt unat_div div_le_mono)

text \<open>Rolling the window keeps the counters true to the history; time has not gone back.\<close>

lemma rate_ok_rolled:
  assumes "rate_ok c h t m k" and "t \<le> a" and "symbol_state m' k = (rolled (symbol_state m k) a)\<lparr>rejected_count := n\<rparr>"
  shows "rate_ok c h a m' k"
proof -
  let ?st = "symbol_state m k"
  have mono: "current_second ?st \<le> a div 1000" "last_order_time_ms ?st \<le> a"
    using assms(1,2) word_div_mono [of t a 1000] by (auto simp: rate_ok_def Let_def)
  show ?thesis
  proof (cases "current_second ?st = a div 1000")
    case True
    then show ?thesis using assms(1,3) mono by (auto simp: rate_ok_def Let_def rolled_def)
  next
    case False
    then have "current_second ?st < a div 1000" using mono(1) by simp
    moreover have "\<forall>(k', a, b) \<in> set h. k' = k \<longrightarrow> a div 1000 \<le> current_second ?st"
      using assms(1) by (fastforce simp: rate_ok_def Let_def)
    ultimately have "approvals_in h k (a div 1000) = 0" by (intro approvals_later)
    then show ?thesis using assms(1,3) mono False by (fastforce simp: rate_ok_def Let_def rolled_def)
  qed
qed

lemma rate_ok_mono: "rate_ok c h t m k \<Longrightarrow> t \<le> t' \<Longrightarrow> symbol_state m' k = symbol_state m k \<Longrightarrow> rate_ok c h t' m' k"
  using word_div_mono [of t t' 1000] by (auto simp: rate_ok_def Let_def)

lemma rate_ok_approved:
  assumes "rate_ok c h t m k" and "t \<le> a" and "a \<le> b"
    and "orders_this_second (rolled (symbol_state m k) a) < max_orders_per_second c"
    and "symbol_state m' k = (rolled (symbol_state m k) a)\<lparr>last_order_time_ms := b,
      orders_this_second := orders_this_second (rolled (symbol_state m k) a) + 1\<rparr>"
  shows "rate_ok c (h @ [(k, a, b)]) b m' k"
proof -
  let ?st = "rolled (symbol_state m k) a"
  have "rate_ok c h a (put_symbol_state m k ?st) k"
    by (rule rate_ok_rolled [OF assms(1,2), of _ "rejected_count ?st"]) simp
  then have r: "rate_ok c h a (put_symbol_state m k ?st) k" .
  have cur: "current_second ?st = a div 1000" by (simp add: rolled_def)
  have less: "unat (orders_this_second ?st) < unat (max_orders_per_second c)" using assms(4) by (simp add: word_less_nat_alt)
  have suc: "unat (orders_this_second ?st + 1) = Suc (unat (orders_this_second ?st))"
    using less unsigned_less [of "max_orders_per_second c", where 'a = nat] unat_add_lem [of "orders_this_second ?st" 1] by simp
  have count: "approvals_in h k (a div 1000) = unat (orders_this_second ?st)"
    using r cur by (simp add: rate_ok_def Let_def)
  have le: "orders_this_second ?st + 1 \<le> max_orders_per_second c" using less suc by (simp add: word_le_nat_alt)
  have all: "approvals_in (h @ [(k, a, b)]) k s \<le> unat (max_orders_per_second c)" for s
    using r count less by (auto simp: rate_ok_def Let_def)
  have "last_order_time_ms ?st \<le> b" "a div 1000 \<le> b div 1000"
    using r assms(3) word_div_mono [of a b 1000] by (auto simp: rate_ok_def Let_def)
  then show ?thesis using r assms(5) cur suc count le all
    by (fastforce simp: rate_ok_def Let_def)
qed

lemma word_diff_mono: "x \<le> y \<Longrightarrow> y \<le> z \<Longrightarrow> z - y \<le> z - (x :: u64)"
  by (simp add: word_le_nat_alt unat_sub)

lemma rate_inv_reviews:
  assumes "reviews E c h t m" and "\<not> aggressive_mode c"
  shows "rate_inv c h t m"
  using assms(1)
proof (induction rule: reviews.induct)
  case reviews_new
  then show ?case
    by (simp add: rate_inv_def risk_manager_new_def spaced_def rate_ok_def Let_def symbol_state_def
        default_symbol_state_def unwrap_or_def)
next
  case (reviews_account h t m a us)
  then show ?case by (simp add: rate_inv_def rate_ok_def Let_def)
next
  case (reviews_one h t m a b sp av pr i m' pr' res)
  have ok: "rm_config m = c" "spaced (order_cooldown_ms c) h" "\<And>k. rate_ok c h t m k"
    using reviews_one.IH by (simp_all add: rate_inv_def)
  have "t \<le> b" using reviews_one.hyps(3,4) by simp
  have calm: "\<not> aggressive_mode (rm_config m)" using assms(2) ok(1) by simp
  from reviews_one.hyps(2) calm show ?case
  proof (cases rule: review_one_rate)
    case (approved j)
    let ?st = "symbol_state m (in_symbol j)"
    have "spaced (order_cooldown_ms c) (h @ [(in_symbol j, a, b)])"
      using ok(2) ok(3) [of "in_symbol j"] approved(4) ok(1) reviews_one.hyps(3)
        word_diff_mono [of _ "last_order_time_ms ?st" a]
      by (fastforce simp: spaced_def sorted_wrt_append rate_ok_def Let_def)
    moreover have "rate_ok c (h @ [(in_symbol j, a, b)]) b m' k" for k
    proof (cases "k = in_symbol j")
      case True
      then show ?thesis using rate_ok_approved [OF ok(3) reviews_one.hyps(3,4)] approved(3,5) ok(1) by simp
    next
      case False
      then show ?thesis using rate_ok_mono [OF ok(3) \<open>t \<le> b\<close>, of m' k] approved(5) by (simp add: rate_ok_def Let_def)
    qed
    ultimately show ?thesis using approved(1,2) ok(1) by (simp add: rate_inv_def)
  next
    case (rejected k0 n)
    have "rate_ok c h b m' k" for k
      using rate_ok_rolled [OF ok(3) reviews_one.hyps(3), of m' k0 n] rate_ok_mono [OF ok(3) \<open>t \<le> b\<close>, of m' k]
        rate_ok_mono [of c h a m' k0 b m'] reviews_one.hyps(4) rejected(3) by (cases "k = k0") auto
    then show ?thesis using rejected(1,2) ok by (simp add: rate_inv_def)
  qed
qed

text \<open>
  C23. The base risk manager keeps the configured order rate. Over any history of reviews with a clock that
  does not go back, and outside aggressive mode, each symbol has in no second of the clock more approved
  orders than the configured number per second, and an order is approved at least the cooldown after every
  earlier approved order of its symbol.
\<close>

theorem order_rate_enforced:
  assumes "reviews E c h t m" and "\<not> aggressive_mode c"
  shows "approvals_in h k s \<le> unat (max_orders_per_second c) \<and> spaced (order_cooldown_ms c) h"
  using rate_inv_reviews [OF assms] by (auto simp: rate_inv_def rate_ok_def Let_def)

definition sample_risk_env :: risk_env where
  "sample_risk_env = \<lparr>rk_dec = exact_dec, rk_round = (\<lambda>x. of_int (round x)), rk_floor = (\<lambda>x. of_int \<lfloor>x\<rfloor>),
     rk_ceil = (\<lambda>x. of_int \<lceil>x\<rceil>), rk_symbols = sorted_list_of_set, rk_venues = (\<lambda>_. []),
     rk_strings = sorted_list_of_set, rk_keys = (\<lambda>_. [])\<rparr>"

definition sample_risk_config :: risk_config where
  "sample_risk_config = \<lparr>max_position_per_symbol = 100, max_global_notional = 1000000, max_orders_per_second = 10,
     order_cooldown_ms = 100, staleness_threshold_us = 5000, max_daily_loss = 10000, max_drawdown_pct = 5,
     aggressive_mode = False\<rparr>"

definition sample_spec :: venue_spec where
  "sample_spec = \<lparr>vsp_name = ''BINANCE'', tick_size = 1, lot_size = 1, min_qty = 1, max_quantity = None, min_notional = 10,
     maker_fee_bps = None, taker_fee_bps = None, rate_limit = None\<rparr>"

definition sample_order :: order_intent where
  "sample_order = intent_crypto_spot (Symbol ''BTCUSDT'') Buy 2 Limit (Some 100) GTC ''alpha'' None"

lemma sample_approved:
  "\<exists>m pr. review_one sample_risk_env (1000, 1001) sample_spec default_account_view (risk_manager_new sample_risk_config)
     default_account_view sample_order = Some (m, pr, Some sample_order)"
  by (simp add: review_one_def normalize_intent_def normalize_price_def normalize_quantity_def validate_order_minimums_def
      check_rate_limit_def check_position_limits_def position_after_def reference_price_def check_daily_loss_def
      check_drawdown_def project_intent_def sample_risk_env_def sample_risk_config_def sample_spec_def sample_order_def
      intent_crypto_spot_def risk_manager_new_def symbol_state_def default_symbol_state_def default_account_view_def
      exact_dec_def unwrap_or_def Let_def put_symbol_state_def)

theorem order_rate_enforced_witness:
  "\<exists>m. reviews sample_risk_env sample_risk_config [(Symbol ''BTCUSDT'', 1000, 1001)] 1001 m \<and>
     approvals_in [(Symbol ''BTCUSDT'', 1000, 1001)] (Symbol ''BTCUSDT'') 1 \<le> 10"
proof -
  obtain m pr where "review_one sample_risk_env (1000, 1001) sample_spec default_account_view
      (risk_manager_new sample_risk_config) default_account_view sample_order = Some (m, pr, Some sample_order)"
    using sample_approved by blast
  then have "reviews sample_risk_env sample_risk_config ([] @ (case Some sample_order of None \<Rightarrow> []
      | Some j \<Rightarrow> [(in_symbol j, 1000, 1001)])) 1001 m"
    by (rule reviews_one [OF reviews_new]) simp_all
  then have run: "reviews sample_risk_env sample_risk_config [(Symbol ''BTCUSDT'', 1000, 1001)] 1001 m"
    by (simp add: sample_order_def intent_crypto_spot_def)
  from order_rate_enforced [OF run, of "Symbol ''BTCUSDT''" 1] run show ?thesis
    by (auto simp: sample_risk_config_def)
qed

end
