(* ===== verification/Risk_Orders.thy ===== *)
theory Risk_Orders
  imports Risk_Stack Risk_Rate Portfolio_Invariant "HOL-Library.Sublist"
begin

text \<open>
  The stack of risk managers only ever returns orders it was given, each at most once, at another price, quantity
  or compliance context: every layer and every review method of the trait keeps the identity of orders.
\<close>

subsection \<open>Orders keep their identity\<close>

definition same_order :: "order_intent \<Rightarrow> order_intent \<Rightarrow> bool" where
  "same_order i j \<longleftrightarrow>
     j = i\<lparr>in_compliance_context := in_compliance_context j, in_quantity := in_quantity j, in_price := in_price j\<rparr>"

lemma same_order_refl [simp]: "same_order i i"
  by (simp add: same_order_def)

lemma same_order_sel:
  "same_order i j \<longleftrightarrow> in_symbol j = in_symbol i \<and> in_asset_class j = in_asset_class i \<and> in_product_type j = in_product_type i \<and>
     in_side j = in_side i \<and> in_order_type j = in_order_type i \<and> in_time_in_force j = in_time_in_force i \<and>
     in_strategy_id j = in_strategy_id i \<and> in_target_venue j = in_target_venue i"
  by (cases i; cases j) (auto simp: same_order_def)

lemma same_order_trans [trans]: "same_order i j \<Longrightarrow> same_order j k \<Longrightarrow> same_order i k"
  by (simp add: same_order_sel)

lemma same_order_update [simp]:
  "same_order i (i\<lparr>in_quantity := q\<rparr>)" "same_order i (i\<lparr>in_compliance_context := cc\<rparr>)"
  "same_order i (i\<lparr>in_price := p, in_quantity := q\<rparr>)"
  by (simp_all add: same_order_sel)

definition orders_kept :: "order_intent list \<Rightarrow> order_intent list \<Rightarrow> bool" where
  "orders_kept is js \<longleftrightarrow> length js \<le> length is \<and> (\<forall>j \<in> set js. \<exists>i \<in> set is. same_order i j)"

definition same_envelope :: "order_intent_envelope \<Rightarrow> order_intent_envelope \<Rightarrow> bool" where
  "same_envelope e f \<longleftrightarrow> f = e\<lparr>env_intent := env_intent f\<rparr> \<and> same_order (env_intent e) (env_intent f)"

definition envelopes_kept :: "order_intent_envelope list \<Rightarrow> order_intent_envelope list \<Rightarrow> bool" where
  "envelopes_kept es fs \<longleftrightarrow> length fs \<le> length es \<and> (\<forall>f \<in> set fs. \<exists>e \<in> set es. same_envelope e f)"

lemma same_envelope_refl [simp]: "same_envelope e e"
  by (simp add: same_envelope_def)

lemma same_envelope_trans: "same_envelope e f \<Longrightarrow> same_envelope f g \<Longrightarrow> same_envelope e g"
  using same_order_trans by (cases e; cases f; cases g) (auto simp: same_envelope_def)

lemma orders_kept_trans: "orders_kept is js \<Longrightarrow> orders_kept js ks \<Longrightarrow> orders_kept is ks"
  unfolding orders_kept_def by (meson same_order_trans le_trans)

lemma envelopes_kept_trans: "envelopes_kept es fs \<Longrightarrow> envelopes_kept fs gs \<Longrightarrow> envelopes_kept es gs"
  unfolding envelopes_kept_def by (meson same_envelope_trans le_trans)

lemma subseq_kept: "subseq js is \<Longrightarrow> orders_kept is js" "subseq fs es \<Longrightarrow> envelopes_kept es fs"
  using list_emb_length list_emb_set [where P = "(=)"] same_order_refl same_envelope_refl
  by (metis orders_kept_def, metis envelopes_kept_def)

lemma kept_append:
  "orders_kept is js \<Longrightarrow> orders_kept is' js' \<Longrightarrow> orders_kept (is @ is') (js @ js')"
  "envelopes_kept es fs \<Longrightarrow> envelopes_kept es' fs' \<Longrightarrow> envelopes_kept (es @ es') (fs @ fs')"
  unfolding orders_kept_def envelopes_kept_def by auto

lemmas kept_Cons = kept_append(1) [of "[i]" for i, simplified] kept_append(2) [of "[e]" for e, simplified]

lemma kept_Nil [simp]: "orders_kept is []" "envelopes_kept es []"
  by (simp_all add: orders_kept_def envelopes_kept_def)

lemma kept_singleD:
  assumes "envelopes_kept [e] fs"
  shows "fs = [] \<or> (\<exists>f. fs = [f] \<and> same_envelope e f)"
  using assms by (cases fs) (auto simp: envelopes_kept_def)

subsection \<open>The filters\<close>

lemma projected_filter_Cons:
  assumes "projected_filter E mp mn f pj (x # xs) = Some ys"
  obtains (dropped) "projected_filter E mp mn f pj xs = Some ys"
  | (taken) pj' ep zs where "pj_project E pj (f x) = Some (Inr (pj', ep))" "ep_symbol_gross_quantity ep \<le> mp"
      "ep_gross_notional ep \<le> mn" "projected_filter E mp mn f pj' xs = Some zs" "ys = x # zs"
proof -
  obtain r where r: "pj_project E pj (f x) = Some r" using assms by (auto simp: bind_eq_Some_conv)
  show thesis
  proof (cases r)
    case (Inl e)
    then show thesis using assms r dropped by simp
  next
    case (Inr y)
    then show thesis using assms r dropped taken by (cases y) (auto split: if_splits)
  qed
qed

lemma projected_filter_subseq: "projected_filter E mp mn f pj xs = Some ys \<Longrightarrow> subseq ys xs"
proof (induction xs arbitrary: pj ys)
  case (Cons x xs)
  from Cons.prems show ?case by (cases rule: projected_filter_Cons) (use Cons.IH in auto)+
qed simp

lemma filter_items_subseq: "filter_items E mp mn f av xs = Some ys \<Longrightarrow> subseq ys xs"
  using projected_filter_subseq by (auto simp: filter_items_def bind_eq_Some_conv)

lemma budget_filter_Cons:
  assumes "budget_filter E pb av pending f pjs (x # xs) = Some ys"
  obtains pjs' where "budget_filter E pb av pending f pjs' xs = Some ys"
  | pjs' zs where "budget_filter E pb av pending f pjs' xs = Some zs" "ys = x # zs"
proof (cases "portfolios_for_strategy pb (in_strategy_id (f x)) = []")
  case True
  then show thesis using assms that(2) by (auto simp: Let_def)
next
  case False
  then obtain r where r: "charge_portfolios E pb av pending pjs (f x) (portfolios_for_strategy pb (in_strategy_id (f x))) [] = Some r"
    using assms by (auto simp: Let_def bind_eq_Some_conv)
  show thesis
  proof (cases r)
    case (Inl e)
    then show thesis using assms r False that(1) by (simp add: Let_def)
  next
    case (Inr ps)
    then show thesis using assms r False that(2) by (auto simp: Let_def)
  qed
qed

lemma budget_filter_subseq: "budget_filter E pb av pending f pjs xs = Some ys \<Longrightarrow> subseq ys xs"
proof (induction xs arbitrary: pjs ys)
  case (Cons x xs)
  from Cons.prems show ?case by (cases rule: budget_filter_Cons) (use Cons.IH in auto)+
qed simp

lemma tokenized_filter_Cons:
  assumes "tokenized_filter D c now av get put m t ex (x # xs) = Some ys"
  obtains (dropped) "tokenized_filter D c now av get put m t ex xs = Some ys"
  | (taken) m' t' ex' zs where "tokenized_filter D c now av get put m' t' ex' xs = Some zs"
      "ys = x # zs \<or> (\<exists>cc. ys = put x ((get x)\<lparr>in_compliance_context := cc\<rparr>) # zs)"
proof (cases "is_tokenized (get x)")
  case False
  then show thesis using assms taken by (auto simp: Let_def)
next
  case True
  then obtain r where r: "runtime_attestation_context D c now (get x) av (unwrap_or 0 (m (in_symbol (get x)))) t ex = Some r"
    using assms by (auto simp: Let_def bind_eq_Some_conv)
  show thesis
  proof (cases r)
    case (Inl e)
    then show thesis using assms r True dropped by (simp add: Let_def)
  next
    case (Inr y)
    obtain ctx n att where y: "y = (ctx, n, att)" by (cases y)
    obtain m' t' zs where "tokenized_filter D c now av get put m' t' (Some att) xs = Some zs"
      "ys = put x ((get x)\<lparr>in_compliance_context := ctx\<rparr>) # zs"
      using assms r True Inr y by (auto simp: Let_def bind_eq_Some_conv)
    then show thesis by (intro taken) blast+
  qed
qed

lemma tokenized_filter_sources:
  assumes "tokenized_filter D c now av get put m t ex xs = Some ys" and "y \<in> set ys"
  shows "\<exists>x \<in> set xs. y = x \<or> (\<exists>cc. y = put x ((get x)\<lparr>in_compliance_context := cc\<rparr>))"
  using assms
proof (induction xs arbitrary: m t ex ys)
  case (Cons a xs)
  from Cons.prems(1) show ?case
    by (cases rule: tokenized_filter_Cons) (use Cons.IH Cons.prems(2) in fastforce)+
qed simp

lemma tokenized_filter_length: "tokenized_filter D c now av get put m t ex xs = Some ys \<Longrightarrow> length ys \<le> length xs"
proof (induction xs arbitrary: m t ex ys)
  case (Cons a xs)
  from Cons.prems show ?case by (cases rule: tokenized_filter_Cons) (use Cons.IH in fastforce)+
qed simp

lemma filter_intents_kept:
  assumes "filter_intents D c now is av = Some js"
  shows "orders_kept is js"
  unfolding orders_kept_def
proof (intro conjI ballI)
  show "length js \<le> length is" using tokenized_filter_length [OF assms [unfolded filter_intents_def]] .
  fix j
  assume "j \<in> set js"
  from tokenized_filter_sources [OF assms [unfolded filter_intents_def] this]
  obtain i where "i \<in> set is" "j = i \<or> (\<exists>cc. j = i\<lparr>in_compliance_context := cc\<rparr>)" by blast
  then show "\<exists>i \<in> set is. same_order i j" by (intro bexI [of _ i]) auto
qed

lemma filter_envelopes_kept:
  assumes "filter_envelopes D c now es av pending = Some fs"
  shows "envelopes_kept es fs"
proof (cases "pending_tokenized D pending Map.empty 0")
  case None
  then show ?thesis using assms by (simp add: filter_envelopes_def envelopes_kept_def)
next
  case (Some mt)
  then have run: "tokenized_filter D c now av env_intent put_intent (fst mt) (snd mt) None es = Some fs"
    using assms by (simp add: filter_envelopes_def case_prod_beta)
  show ?thesis unfolding envelopes_kept_def
  proof (intro conjI ballI)
    show "length fs \<le> length es" using tokenized_filter_length [OF run] .
    fix f
    assume "f \<in> set fs"
    from tokenized_filter_sources [OF run this] obtain e where "e \<in> set es"
      "f = e \<or> (\<exists>cc. f = put_intent e ((env_intent e)\<lparr>in_compliance_context := cc\<rparr>))" by blast
    then show "\<exists>e \<in> set es. same_envelope e f"
      by (intro bexI [of _ e]) (auto simp: put_intent_def same_envelope_def)
  qed
qed

lemma map_intents_set: "map_intents f xs = Some ys \<Longrightarrow> y \<in> set ys \<Longrightarrow> \<exists>x \<in> set xs. f x = Some y"
  by (induction xs arbitrary: ys) (auto simp: bind_eq_Some_conv)

lemma clamp_same: "clamp_notional D o1 (clamp_position o1 i) = Some j \<Longrightarrow> same_order i j"
  by (auto simp: clamp_notional_def clamp_position_def bind_eq_Some_conv same_order_sel split: option.splits if_splits)

lemma map_intents_length: "map_intents f xs = Some ys \<Longrightarrow> length ys = length xs"
  by (induction xs arbitrary: ys) (auto simp: bind_eq_Some_conv)

lemma apply_overrides_kept: "apply_strategy_overrides D os s is = Some js \<Longrightarrow> orders_kept is js"
  by (auto simp: apply_strategy_overrides_def orders_kept_def map_intents_length
      dest!: map_intents_set clamp_same split: option.splits intro: same_order_refl)

lemma groups_length: "distinct ss \<Longrightarrow> (\<Sum>s \<leftarrow> ss. length (filter (\<lambda>i. f i = s) xs)) \<le> length xs"
proof (induction ss arbitrary: xs)
  case (Cons s ss)
  have same: "(\<Sum>t \<leftarrow> ss. length (filter (\<lambda>i. f i = t) xs)) =
    (\<Sum>t \<leftarrow> ss. length (filter (\<lambda>i. f i = t) (filter (\<lambda>i. f i \<noteq> s) xs)))"
    using Cons.prems by (intro arg_cong [of _ _ sum_list] map_cong) (auto intro!: arg_cong [of _ _ length] filter_cong)
  show ?case
    using Cons.IH [of "filter (\<lambda>i. f i \<noteq> s) xs"] Cons.prems sum_length_filter_compl [of "\<lambda>i. f i = s" xs]
    unfolding list.map sum_list.Cons same by simp
qed simp

lemma override_groups_kept:
  assumes "override_groups D os is ss = Some js"
  shows "length js \<le> (\<Sum>s \<leftarrow> ss. length (filter (\<lambda>i. in_strategy_id i = s) is))"
    and "j \<in> set js \<Longrightarrow> \<exists>i \<in> set is. same_order i j"
  using assms
proof (induction ss arbitrary: js)
  case (Cons s ss)
  case 1
  then show ?case using Cons.IH apply_overrides_kept by (fastforce simp: bind_eq_Some_conv orders_kept_def)
  case 2
  then show ?case using Cons.IH apply_overrides_kept by (fastforce simp: bind_eq_Some_conv orders_kept_def)
qed simp_all

lemma override_intents_kept:
  assumes "override_intents E os is = Some js" and "iteration_order (rk_strings E)"
  shows "orders_kept is js"
proof -
  note run = override_groups_kept [OF assms(1) [unfolded override_intents_def]]
  have "distinct (rk_strings E (in_strategy_id ` set is))" using assms(2) by (simp add: iteration_order_def)
  from le_trans [OF run(1) groups_length [OF this]] run(2) show ?thesis unfolding orders_kept_def by blast
qed

lemma override_envelope_kept:
  assumes "override_envelope D os e = Some fs"
  shows "envelopes_kept [e] fs"
proof -
  obtain js where js: "apply_strategy_overrides D os (in_strategy_id (env_intent e)) [env_intent e] = Some js"
    and fs: "fs = (case js of [] \<Rightarrow> [] | _ \<Rightarrow> [e\<lparr>env_intent := last js\<rparr>])"
    using assms by (auto simp: override_envelope_def bind_eq_Some_conv)
  show ?thesis
  proof (cases "js = []")
    case False
    then have "same_order (env_intent e) (last js)" using apply_overrides_kept [OF js] by (simp add: orders_kept_def)
    then show ?thesis using fs False by (cases js) (auto simp: same_envelope_def envelopes_kept_def)
  qed (use fs in simp)
qed

lemma override_envelopes_kept:
  "map_option concat (map_intents (override_envelope D os) es) = Some fs \<Longrightarrow> envelopes_kept es fs"
proof (induction es arbitrary: fs)
  case (Cons e es)
  then obtain g gs where "override_envelope D os e = Some g" "map_intents (override_envelope D os) es = Some gs"
    "fs = g @ concat gs"
    by (auto simp: bind_eq_Some_conv)
  then show ?case using kept_Cons(2) [OF override_envelope_kept] Cons.IH by simp
qed simp

subsection \<open>The managers\<close>

lemma review_one_normalized:
  assumes "review_one E now sp av m pr i = Some (m', pr', Some j)"
  shows "normalize_intent E sp i = Some j"
proof (cases "aggressive_mode (rm_config m)")
  case True
  then show ?thesis using assms by (auto simp: review_one_def Let_def bind_eq_Some_conv split: if_splits)
next
  case False
  then show ?thesis using assms
    by (cases "check_rate_limit m (in_symbol i) (fst now)")
      (auto simp: review_one_def Let_def bind_eq_Some_conv normalize_intent_def split: if_splits)
qed

lemma normalize_same: "normalize_intent E sp i = Some j \<Longrightarrow> same_order i j"
  by (auto simp: normalize_intent_def bind_eq_Some_conv)

lemmas review_one_kept = normalize_same [OF review_one_normalized]

lemma review_loop_kept: "review_loop E clk sp av n m pr is = Some (m', js) \<Longrightarrow> orders_kept is js"
proof (induction "is" arbitrary: n m pr m' js)
  case (Cons i "is")
  then obtain m1 pr1 a m2 rest where one: "review_one E (clk n) sp av m pr i = Some (m1, pr1, a)"
    and rest: "review_loop E clk sp av (Suc n) m1 pr1 is = Some (m2, rest)"
    and js: "js = (case a of None \<Rightarrow> [] | Some x \<Rightarrow> [x]) @ rest"
    by (auto simp: bind_eq_Some_conv)
  have "orders_kept [i] (case a of None \<Rightarrow> [] | Some x \<Rightarrow> [x])"
    using review_one_kept one by (cases a) (auto simp: orders_kept_def)
  then show ?case using kept_Cons(1) Cons.IH [OF rest] js by blast
qed simp

lemma rm_review_kept:
  assumes "iteration_order (rk_strings E)"
  shows "rm_review E m c is av sp = Some (m', js) \<Longrightarrow> orders_kept is js"
proof (induction m arbitrary: "is" m' js)
  case (Base m)
  then show ?case using review_loop_kept by (auto simp: review_def)
next
  case (ProjectedExposure b mp mn)
  then obtain ks b' where "filter_items E mp mn (\<lambda>i. i) av is = Some ks" "rm_review E b c ks av sp = Some (b', js)"
    by (auto simp: bind_eq_Some_conv)
  then show ?case
    by (intro orders_kept_trans [OF subseq_kept(1) [OF filter_items_subseq] ProjectedExposure.IH])
next
  case (StrategyAware b os)
  then obtain ks b' where "override_intents E os is = Some ks" "rm_review E b c ks av sp = Some (b', js)"
    by (auto simp: bind_eq_Some_conv)
  then show ?case using override_intents_kept [OF _ assms] StrategyAware.IH orders_kept_trans by blast
next
  case (TokenizedSecurities b tc)
  then obtain ks b' where "filter_intents (rk_dec E) tc (rc_now_us c) is av = Some ks" "rm_review E b c ks av sp = Some (b', js)"
    by (auto simp: bind_eq_Some_conv)
  then show ?case using filter_intents_kept TokenizedSecurities.IH orders_kept_trans by blast
next
  case (PortfolioBudget b pb)
  then obtain ks b' where "budget_filter E pb av [] (\<lambda>i. i) Map.empty is = Some ks" "rm_review E b c ks av sp = Some (b', js)"
    by (auto simp: bind_eq_Some_conv)
  then show ?case
    by (intro orders_kept_trans [OF subseq_kept(1) [OF budget_filter_subseq] PortfolioBudget.IH])
qed

lemma review_with_venue_specs_kept:
  assumes "\<And>k m i av sp m' js. rv k m [i] av sp = Some (m', js) \<Longrightarrow> orders_kept [i] js"
  shows "review_with_venue_specs E rv k m is av specs = Some (m', js) \<Longrightarrow> orders_kept is js"
proof (induction "is" arbitrary: k m av m' js)
  case (Cons i "is")
  from Cons.prems consider
    (skip) k' where "review_with_venue_specs E rv k' m is av specs = Some (m', js)"
  | (run) sp m1 ks av' rest where "rv k m [i] av sp = Some (m1, ks)"
      "review_with_venue_specs E rv (Suc k) m1 is av' specs = Some (m', rest)" "js = ks @ rest"
    by (auto simp: bind_eq_Some_conv split: if_splits option.splits)
  then show ?case
  proof cases
    case skip
    from kept_Cons(1) [OF kept_Nil(1) Cons.IH [OF this]] show ?thesis by simp
  next
    case run
    from kept_Cons(1) [OF assms [OF run(1)] Cons.IH [OF run(2)]] run(3) show ?thesis by simp
  qed
qed simp

lemma default_review_with_venue_specs_kept:
  assumes "iteration_order (rk_strings E)" and "default_review_with_venue_specs E m c is av specs = Some (m', js)"
  shows "orders_kept is js"
  using assms(2) unfolding default_review_with_venue_specs_def
  by (rule review_with_venue_specs_kept [rotated]) (rule rm_review_kept [OF assms(1)])

lemma rm_review_with_venue_specs_kept:
  assumes "iteration_order (rk_strings E)"
  shows "rm_review_with_venue_specs E m c is av specs = Some (m', js) \<Longrightarrow> orders_kept is js"
proof (induction m arbitrary: "is" m' js)
  case (ProjectedExposure b mp mn)
  then obtain ks b' where "filter_items E mp mn (\<lambda>i. i) av is = Some ks" "rm_review_with_venue_specs E b c ks av specs = Some (b', js)"
    by (auto simp: bind_eq_Some_conv)
  then show ?case
    by (intro orders_kept_trans [OF subseq_kept(1) [OF filter_items_subseq] ProjectedExposure.IH])
next
  case (TokenizedSecurities b tc)
  then obtain ks b' where "filter_intents (rk_dec E) tc (rc_now_us c) is av = Some ks" "rm_review_with_venue_specs E b c ks av specs = Some (b', js)"
    by (auto simp: bind_eq_Some_conv)
  then show ?case using filter_intents_kept TokenizedSecurities.IH orders_kept_trans by blast
next
  case (PortfolioBudget b pb)
  then obtain ks b' where "budget_filter E pb av [] (\<lambda>i. i) Map.empty is = Some ks" "rm_review_with_venue_specs E b c ks av specs = Some (b', js)"
    by (auto simp: bind_eq_Some_conv)
  then show ?case
    by (intro orders_kept_trans [OF subseq_kept(1) [OF budget_filter_subseq] PortfolioBudget.IH])
qed (use default_review_with_venue_specs_kept [OF assms] in simp_all)

lemma review_envelopes_kept:
  assumes "\<And>k m i av m' js. rv k m [i] av = Some (m', js) \<Longrightarrow> orders_kept [i] js"
  shows "review_envelopes_with_venue_specs E rv k m es av = Some (m', fs) \<Longrightarrow> envelopes_kept es fs"
proof (induction es arbitrary: k m av m' fs)
  case (Cons e es)
  then obtain m1 ks av' rest where run: "rv k m [env_intent e] av = Some (m1, ks)"
      "review_envelopes_with_venue_specs E rv (Suc k) m1 es av' = Some (m', rest)"
      "fs = map (\<lambda>i. e\<lparr>env_intent := i\<rparr>) ks @ rest"
    by (auto simp: bind_eq_Some_conv)
  have "envelopes_kept [e] (map (\<lambda>i. e\<lparr>env_intent := i\<rparr>) ks)"
    using assms [OF run(1)] by (auto simp: envelopes_kept_def orders_kept_def same_envelope_def)
  from kept_Cons(2) [OF this Cons.IH [OF run(2)]] run(3) show ?case by simp
qed simp

lemma default_review_envelopes_kept:
  assumes "iteration_order (rk_strings E)" and "default_review_envelopes E m c es av specs = Some (m', fs)"
  shows "envelopes_kept es fs"
  using assms(2) unfolding default_review_envelopes_def
  by (rule review_envelopes_kept [rotated]) (rule rm_review_with_venue_specs_kept [OF assms(1)])

lemma rm_review_envelopes_kept:
  assumes "iteration_order (rk_strings E)"
  shows "rm_review_envelopes E m c es av specs = Some (m', fs) \<Longrightarrow> envelopes_kept es fs"
proof (induction m arbitrary: es m' fs)
  case (TokenizedSecurities b tc)
  then obtain gs b' where "filter_envelopes (rk_dec E) tc (rc_now_us c) es av [] = Some gs" "rm_review_envelopes E b c gs av specs = Some (b', fs)"
    by (auto simp: bind_eq_Some_conv)
  then show ?case using filter_envelopes_kept TokenizedSecurities.IH envelopes_kept_trans by blast
next
  case (PortfolioBudget b pb)
  then obtain gs b' where "budget_filter E pb av [] env_intent Map.empty es = Some gs" "rm_review_envelopes E b c gs av specs = Some (b', fs)"
    by (auto simp: bind_eq_Some_conv)
  then show ?case
    by (intro envelopes_kept_trans [OF subseq_kept(2) [OF budget_filter_subseq] PortfolioBudget.IH])
qed (use default_review_envelopes_kept [OF assms] in simp_all)

lemma rm_review_risk_context_kept:
  assumes "iteration_order (rk_strings E)"
  shows "rm_review_risk_context E m c es av ex pending specs = Some (m', fs) \<Longrightarrow> envelopes_kept es fs"
proof (induction m arbitrary: es m' fs)
  case (ProjectedExposure b mp mn)
  then obtain gs b' where "filter_items E mp mn env_intent ex es = Some gs" "rm_review_envelopes E b c gs av specs = Some (b', fs)"
    by (auto simp: bind_eq_Some_conv)
  then show ?case
    by (intro envelopes_kept_trans [OF subseq_kept(2) [OF filter_items_subseq] rm_review_envelopes_kept [OF assms]])
next
  case (StrategyAware b os)
  then obtain gs b' where "map_option concat (map_intents (override_envelope (rk_dec E) os) es) = Some gs"
    "rm_review_risk_context E b c gs av ex pending specs = Some (b', fs)"
    by (auto simp: bind_eq_Some_conv)
  then show ?case using override_envelopes_kept StrategyAware.IH envelopes_kept_trans by blast
next
  case (TokenizedSecurities b tc)
  then obtain gs b' where "filter_envelopes (rk_dec E) tc (rc_now_us c) es av pending = Some gs"
    "rm_review_risk_context E b c gs av ex pending specs = Some (b', fs)"
    by (auto simp: bind_eq_Some_conv)
  then show ?case using filter_envelopes_kept TokenizedSecurities.IH envelopes_kept_trans by blast
next
  case (PortfolioBudget b pb)
  then obtain gs b' where "budget_filter E pb av pending env_intent Map.empty es = Some gs"
    "rm_review_risk_context E b c gs av ex pending specs = Some (b', fs)"
    by (auto simp: bind_eq_Some_conv)
  then show ?case
    by (intro envelopes_kept_trans [OF subseq_kept(2) [OF budget_filter_subseq] PortfolioBudget.IH])
qed simp

end
