(* ===== verification/Risk_Exposure.thy ===== *)
theory Risk_Exposure
  imports Risk_Orders
begin

text \<open>
  The caps on gross exposure. The projection of one order on an account is computed exactly, the base manager only
  shrinks what passes the caps, and the layers above them hand on the order at the price it came with.
\<close>

subsection \<open>Exposure\<close>

definition total_exposure :: "account_view \<Rightarrow> decimal" where
  "total_exposure view = (\<Sum>sm \<in> dom (av_positions view). gross_exposure view sm)"

definition position_size :: "account_view \<Rightarrow> symbol \<Rightarrow> decimal" where
  "position_size view sm = (case av_positions view sm of None \<Rightarrow> 0 | Some p \<Rightarrow> \<bar>pos_quantity p\<bar>)"

lemma position_value_exact:
  "dec_exact D \<Longrightarrow> position_value D p = Some v \<Longrightarrow> v = \<bar>pos_avg_price p * pos_quantity p + pos_unrealized_pnl p\<bar>"
  using dec_exactD(1,3) by (fastforce simp: position_value_def bind_eq_Some_conv)

lemma sum_values_exact:
  assumes "dec_exact D"
  shows "sum_values D (av_positions view) ks acc = Some g \<Longrightarrow> distinct ks \<Longrightarrow>
    g = acc + (\<Sum>sm \<in> set ks. gross_exposure view sm)"
proof (induction ks arbitrary: acc)
  case (Cons k ks)
  show ?case
  proof (cases "av_positions view k")
    case None
    then show ?thesis using Cons by (simp add: gross_exposure_def)
  next
    case (Some p)
    then obtain v acc' where "position_value D p = Some v" "d_add D acc v = Some acc'"
      "sum_values D (av_positions view) ks acc' = Some g"
      using Cons.prems(1) by (auto simp: bind_eq_Some_conv)
    then show ?thesis
      using Cons.IH [of acc'] Cons.prems(2) Some position_value_exact [OF assms] dec_exactD(1) [OF assms]
      by (fastforce simp: gross_exposure_def)
  qed
qed simp

lemma projector_new_exact:
  assumes "dec_exact (rk_dec E)" and "iteration_order (rk_symbols E)" and "finite (dom (av_positions view))"
    and "projector_new E view = Some pj"
  shows "pj_gross_notional pj = total_exposure view" and "pj_keyed_quantity pj = Map.empty"
    and "pj_keyed_notional pj = Map.empty" and "\<bar>unwrap_or 0 (pj_remaining_quantity pj sm)\<bar> = position_size view sm"
proof -
  obtain g where g: "sum_values (rk_dec E) (av_positions view) (rk_symbols E (dom (av_positions view))) 0 = Some g"
    and pj: "pj = \<lparr>pj_remaining_quantity = (\<lambda>k. map_option pos_quantity (av_positions view k)),
             pj_keyed_quantity = Map.empty, pj_keyed_notional = Map.empty, pj_gross_notional = g\<rparr>"
    using assms(4) by (auto simp: projector_new_def bind_eq_Some_conv)
  show "pj_gross_notional pj = total_exposure view"
    using sum_values_exact [OF assms(1) g] iteration_orderD [OF assms(2,3)] by (simp add: pj total_exposure_def)
qed (use assms(4) in \<open>auto simp: projector_new_def bind_eq_Some_conv position_size_def split: option.splits\<close>)

lemma project_fresh_exact:
  assumes "dec_exact (rk_dec E)" and "iteration_order (rk_keys E)"
    and "pj_keyed_quantity pj = Map.empty" and "pj_keyed_notional pj = Map.empty"
    and "pj_project E pj i = Some (Ok (pj', ep))"
  shows "\<exists>p. in_price i = Some p \<and> 0 < p \<and> ep_gross_notional ep = pj_gross_notional pj + \<bar>in_quantity i\<bar> * p \<and>
    ep_symbol_gross_quantity ep = \<bar>unwrap_or 0 (pj_remaining_quantity pj (in_symbol i))\<bar> + \<bar>in_quantity i\<bar>"
proof -
  let ?D = "rk_dec E" and ?key = "exposure_key_of i"
  obtain p where p: "in_price i = Some p" "0 < p"
    using assms(5) by (auto simp: pj_project_def split: option.splits if_splits)
  have keys: "rk_keys E {?key} = [?key]"
    using iteration_orderD [OF assms(2), of "{?key}"] by (cases "rk_keys E {?key}") (auto simp: subset_singleton_iff)
  have abs: "\<bar>incoming i\<bar> = \<bar>in_quantity i\<bar>" by (simp add: incoming_def split: side.splits)
  obtain nq x nn de g k t where ops: "d_add ?D 0 (incoming i) = Some nq" "d_mul ?D \<bar>incoming i\<bar> p = Some x"
      "d_add ?D 0 x = Some nn" "d_sub ?D nn 0 = Some de" "d_add ?D (pj_gross_notional pj) de = Some g"
      "d_add ?D 0 \<bar>nq\<bar> = Some k" "d_add ?D \<bar>unwrap_or 0 (pj_remaining_quantity pj (in_symbol i))\<bar> k = Some t"
    and ep: "ep_gross_notional ep = g" "ep_symbol_gross_quantity ep = t"
    using assms(3,4,5) p keys
    by (auto simp: pj_project_def Let_def bind_eq_Some_conv exposure_key_of_def split: if_splits)
  note eqs = ops(1,3,5,6,7) [THEN dec_exactD(1) [OF assms(1)]] dec_exactD(3) [OF assms(1) ops(2)]
    dec_exactD(2) [OF assms(1) ops(4)]
  show ?thesis using p ep eqs by (simp add: abs)
qed

lemma filter_single_exact:
  assumes "dec_exact (rk_dec E)" and "iteration_order (rk_symbols E)" and "iteration_order (rk_keys E)"
    and "finite (dom (av_positions view))" and "filter_items E mp mn f view [x] = Some ys" and "ys \<noteq> []"
  shows "ys = [x] \<and> (\<exists>p. in_price (f x) = Some p \<and> 0 < p \<and> total_exposure view + \<bar>in_quantity (f x)\<bar> * p \<le> mn \<and>
    position_size view (in_symbol (f x)) + \<bar>in_quantity (f x)\<bar> \<le> mp)"
proof -
  obtain pj where pj: "projector_new E view = Some pj" "projected_filter E mp mn f pj [x] = Some ys"
    using assms(5) by (auto simp: filter_items_def bind_eq_Some_conv)
  note new = projector_new_exact [OF assms(1,2,4) pj(1)]
  from pj(2) show ?thesis
  proof (cases rule: projected_filter_Cons)
    case dropped
    then show ?thesis using assms(6) by simp
  next
    case (taken pj' ep zs)
    then show ?thesis using project_fresh_exact [OF assms(1,3) new(2,3) taken(1)] new(1,4) by auto
  qed
qed

subsection \<open>The base manager at admission\<close>

lemma review_one_minimums:
  assumes "review_one E now sp av m pr i = Some (m', pr', Some j)"
  shows "min_qty sp \<le> in_quantity j"
proof -
  note n = review_one_normalized [OF assms]
  obtain vc where vc: "validate_order_minimums E j (min_qty sp) (min_notional sp) = Some vc"
    using assms n by (auto simp: review_one_def bind_eq_Some_conv)
  obtain m1 rc where "(if aggressive_mode (rm_config m) then (m, Ok ()) else check_rate_limit m (in_symbol j) (fst now)) = (m1, rc)"
    by fastforce
  then have "is_ok vc" using assms n vc by (auto simp: review_one_def Let_def bind_eq_Some_conv split: if_splits)
  then show ?thesis using vc by (auto simp: validate_order_minimums_def split: if_splits)
qed

lemma base_review_single:
  assumes "rm_review E (Base m) c [i] av sp = Some (m', js)" and "j \<in> set js"
  shows "normalize_intent E sp i = Some j \<and> min_qty sp \<le> in_quantity j"
proof -
  obtain n m0 pr m1 pr1 a where one: "review_one E (rc_readings c n) sp av m0 pr i = Some (m1, pr1, a)"
    and js: "js = (case a of None \<Rightarrow> [] | Some x \<Rightarrow> [x])"
    using assms(1) by (auto simp: review_def bind_eq_Some_conv)
  then have "a = Some j" using assms(2) by (cases a) auto
  with one show ?thesis using review_one_normalized review_one_minimums by blast
qed

lemma base_envelope_single:
  assumes "rm_review_envelopes E (Base m) c [e] av specs = Some (m', fs)" and "f \<in> set fs"
  shows "\<exists>v sp j. specs v = Some sp \<and> f = e\<lparr>env_intent := j\<rparr> \<and> normalize_intent E sp (env_intent e) = Some j \<and>
    min_qty sp \<le> in_quantity j"
proof -
  obtain k m1 js where one: "default_review_with_venue_specs E (Base m) (clock_at c k) [env_intent e] av specs = Some (m1, js)"
    and f: "fs = map (\<lambda>i. e\<lparr>env_intent := i\<rparr>) js"
    using assms(1) by (auto simp: default_review_envelopes_def bind_eq_Some_conv)
  obtain j where j: "j \<in> set js" "f = e\<lparr>env_intent := j\<rparr>" using f assms(2) by auto
  obtain sp k' m2 where "spec_for E specs (env_intent e) = Some sp"
    "rm_review E (Base m) (clock_at (clock_at c k) k') [env_intent e] av sp = Some (m2, js)"
    using one j(1) unfolding default_review_with_venue_specs_def
    by (auto simp: bind_eq_Some_conv simp del: rm_review.simps split: if_splits option.splits)
  moreover from this have "\<exists>v. specs v = Some sp" by (auto simp: spec_for_def split: option.splits list.splits)
  ultimately show ?thesis using base_review_single j by blast
qed

definition risk_env_exact :: "risk_env \<Rightarrow> bool" where
  "risk_env_exact E \<longleftrightarrow> dec_exact (rk_dec E) \<and> iteration_order (rk_symbols E) \<and> iteration_order (rk_keys E) \<and>
     iteration_order (rk_strings E) \<and> (\<forall>x. rk_floor E x \<le> x)"

definition specs_valid :: "venue_specs \<Rightarrow> bool" where
  "specs_valid specs \<longleftrightarrow> (\<forall>sp \<in> ran specs. 0 \<le> min_qty sp \<and> 0 \<le> lot_size sp)"

lemma normalize_quantity_le:
  assumes "dec_exact (rk_dec E)" and "\<And>x. rk_floor E x \<le> x" and "0 \<le> lot" and "normalize_quantity E q lot = Some q'"
  shows "q' \<le> q"
proof (cases "lot = 0")
  case False
  then obtain l where l: "d_div (rk_dec E) q lot = Some l" "d_mul (rk_dec E) (rk_floor E l) lot = Some q'"
    using assms(4) by (auto simp: normalize_quantity_def bind_eq_Some_conv)
  then have "l = q / lot" "q' = rk_floor E l * lot" using dec_exactD(3,4) [OF assms(1)] by auto
  moreover have "rk_floor E l * lot \<le> l * lot" using assms(2,3) by (intro mult_right_mono) auto
  ultimately show ?thesis using False by simp
qed (use assms(4) in \<open>simp add: normalize_quantity_def\<close>)

lemma normalize_intent_quantity:
  "normalize_intent E sp i = Some j \<Longrightarrow> normalize_quantity E (in_quantity i) (lot_size sp) = Some (in_quantity j)"
  by (auto simp: normalize_intent_def bind_eq_Some_conv)

lemma projected_admission:
  assumes "risk_env_exact E" and "specs_valid specs" and "finite (dom (av_positions ex))"
    and "rm_review_risk_context E (ProjectedExposure (Base m) mp mn) c [e] av ex pending specs = Some (m', fs)"
    and "f \<in> set fs"
  shows "\<exists>p. in_price (env_intent e) = Some p \<and> 0 < p \<and> 0 \<le> in_quantity (env_intent f) \<and>
    in_quantity (env_intent f) \<le> in_quantity (env_intent e) \<and>
    total_exposure ex + in_quantity (env_intent f) * p \<le> mn \<and>
    position_size ex (in_symbol (env_intent e)) + in_quantity (env_intent f) \<le> mp \<and>
    (\<exists>sp \<in> ran specs. normalize_price E p (tick_size sp) \<noteq> None \<and>
       in_price (env_intent f) = normalize_price E p (tick_size sp))"
proof -
  note E = assms(1) [unfolded risk_env_exact_def]
  obtain gs b' where gs: "filter_items E mp mn env_intent ex [e] = Some gs"
    and base: "rm_review_envelopes E (Base m) c gs av specs = Some (b', fs)"
    using assms(4) by (auto simp: bind_eq_Some_conv simp del: rm_review_envelopes.simps)
  have "gs \<noteq> []" using base assms(5) by (auto simp: default_review_envelopes_def)
  with filter_single_exact [OF _ _ _ assms(3) gs] E obtain p where one: "gs = [e]"
    and p: "in_price (env_intent e) = Some p" "0 < p"
      "total_exposure ex + \<bar>in_quantity (env_intent e)\<bar> * p \<le> mn"
      "position_size ex (in_symbol (env_intent e)) + \<bar>in_quantity (env_intent e)\<bar> \<le> mp" by blast
  from base_envelope_single [OF base [unfolded one] assms(5)] obtain v sp j where sp: "specs v = Some sp"
    and f: "f = e\<lparr>env_intent := j\<rparr>" "normalize_intent E sp (env_intent e) = Some j" "min_qty sp \<le> in_quantity j" by blast
  have "0 \<le> min_qty sp" "0 \<le> lot_size sp" using assms(2) sp by (auto simp: specs_valid_def ran_def)
  then have q: "0 \<le> in_quantity j" "in_quantity j \<le> in_quantity (env_intent e)"
    using f(3) normalize_quantity_le [OF _ _ _ normalize_intent_quantity [OF f(2)]] E by auto
  then have "in_quantity j * p \<le> \<bar>in_quantity (env_intent e)\<bar> * p" using p(2) by (intro mult_right_mono) auto
  then have "total_exposure ex + in_quantity j * p \<le> mn" using p(3) by linarith
  moreover have "in_price j = normalize_price E p (tick_size sp)" "normalize_price E p (tick_size sp) \<noteq> None"
    using f(2) p(1) by (auto simp: normalize_intent_def bind_eq_Some_conv)
  ultimately show ?thesis using p q f(1) sp by (auto simp: ran_def)
qed

subsection \<open>The stack at admission\<close>

lemma clamp_exact:
  assumes "dec_exact D" and "clamp_notional D o1 (clamp_position o1 i) = Some j"
  shows "in_price j = in_price i" and "in_price i = Some p \<Longrightarrow> 0 < p \<Longrightarrow> in_quantity j \<le> in_quantity i"
proof -
  let ?k = "clamp_position o1 i"
  have k: "in_price ?k = in_price i" "in_quantity ?k \<le> in_quantity i"
    by (auto simp: clamp_position_def split: option.splits)
  show "in_price j = in_price i"
    using assms(2) k(1) by (auto simp: clamp_notional_def bind_eq_Some_conv split: option.splits if_splits)
  assume p: "in_price i = Some p" "0 < p"
  have "in_quantity j \<le> in_quantity ?k"
  proof (cases "j = ?k")
    case False
    then obtain mn n q where "so_max_notional o1 = Some mn" "d_mul D p (in_quantity ?k) = Some n" "mn < n"
      "d_div D mn p = Some q" "in_quantity j = q"
      using assms(2) k(1) p by (auto simp: clamp_notional_def bind_eq_Some_conv split: option.splits if_splits)
    then show ?thesis using p(2) dec_exactD(3,4) [OF assms(1)] by (fastforce simp: field_simps)
  qed simp
  then show "in_quantity j \<le> in_quantity i" using k(2) by linarith
qed

lemma override_envelope_exact:
  assumes "dec_exact D" and "override_envelope D os e = Some fs" and "f \<in> set fs"
  shows "in_price (env_intent f) = in_price (env_intent e)"
    and "in_price (env_intent e) = Some p \<Longrightarrow> 0 < p \<Longrightarrow> in_quantity (env_intent f) \<le> in_quantity (env_intent e)"
proof -
  have "env_intent f = env_intent e \<or> (\<exists>o1. clamp_notional D o1 (clamp_position o1 (env_intent e)) = Some (env_intent f))"
    using assms(2,3) by (auto simp: override_envelope_def apply_strategy_overrides_def bind_eq_Some_conv split: option.splits)
  then show "in_price (env_intent f) = in_price (env_intent e)"
    and "in_price (env_intent e) = Some p \<Longrightarrow> 0 < p \<Longrightarrow> in_quantity (env_intent f) \<le> in_quantity (env_intent e)"
    using clamp_exact [OF assms(1)] by auto
qed

lemma filter_envelopes_values:
  assumes "filter_envelopes D c now es av pending = Some fs" and "f \<in> set fs"
  shows "\<exists>e \<in> set es. in_price (env_intent f) = in_price (env_intent e) \<and> in_quantity (env_intent f) = in_quantity (env_intent e)"
proof -
  obtain m t where "tokenized_filter D c now av env_intent put_intent m t None es = Some fs"
    using assms by (auto simp: filter_envelopes_def split: option.splits prod.splits)
  from tokenized_filter_sources [OF this assms(2)] show ?thesis by (auto simp: put_intent_def)
qed

definition capped :: "risk_env \<Rightarrow> venue_specs \<Rightarrow> decimal \<Rightarrow> decimal \<Rightarrow> account_view \<Rightarrow> order_intent_envelope \<Rightarrow> order_intent_envelope \<Rightarrow> bool" where
  "capped E specs mp mn ex e f \<longleftrightarrow> (\<exists>p. in_price (env_intent e) = Some p \<and> 0 < p \<and> 0 \<le> in_quantity (env_intent f) \<and>
     in_quantity (env_intent f) \<le> in_quantity (env_intent e) \<and>
     total_exposure ex + in_quantity (env_intent f) * p \<le> mn \<and>
     position_size ex (in_symbol (env_intent e)) + in_quantity (env_intent f) \<le> mp \<and>
     (\<exists>sp \<in> ran specs. normalize_price E p (tick_size sp) \<noteq> None \<and>
        in_price (env_intent f) = normalize_price E p (tick_size sp)))"

lemma capped_trans:
  assumes "capped E specs mp mn ex e' f" and "same_envelope e e'" and "in_price (env_intent e') = in_price (env_intent e)"
    and "\<And>p. in_price (env_intent e) = Some p \<Longrightarrow> 0 < p \<Longrightarrow> in_quantity (env_intent e') \<le> in_quantity (env_intent e)"
  shows "capped E specs mp mn ex e f"
  using assms unfolding capped_def same_envelope_def same_order_sel by force

text \<open>A layer that passes on what it keeps of the envelope inherits the caps of the layer below.\<close>

lemma layer_admission:
  assumes "risk_env_exact E" and "envelopes_kept [e] g" and "rm_review_risk_context E b c g av ex pending specs = Some (m', fs)"
    and "f \<in> set fs"
    and "\<And>e'. e' \<in> set g \<Longrightarrow> in_price (env_intent e') = in_price (env_intent e)"
    and "\<And>e' p. e' \<in> set g \<Longrightarrow> in_price (env_intent e) = Some p \<Longrightarrow> 0 < p \<Longrightarrow>
      in_quantity (env_intent e') \<le> in_quantity (env_intent e)"
    and "\<And>e fs m' f. rm_review_risk_context E b c [e] av ex pending specs = Some (m', fs) \<Longrightarrow> f \<in> set fs \<Longrightarrow> capped E specs mp mn ex e f"
  shows "capped E specs mp mn ex e f"
  using kept_singleD [OF assms(2)]
proof
  assume "g = []"
  then have "envelopes_kept [] fs" using rm_review_risk_context_kept [OF _ assms(3)] assms(1) by (simp add: risk_env_exact_def)
  then show ?thesis using assms(4) by (simp add: envelopes_kept_def)
next
  assume "\<exists>e'. g = [e'] \<and> same_envelope e e'"
  then obtain e' where e': "g = [e']" "same_envelope e e'" by blast
  show ?thesis using capped_trans [OF assms(7) [OF assms(3) [unfolded e'(1)] assms(4)] e'(2)] assms(5,6) e'(1) by simp
qed

primrec guarded :: "decimal \<Rightarrow> decimal \<Rightarrow> risk_manager \<Rightarrow> bool" where
  "guarded mp mn (Base m) \<longleftrightarrow> False"
| "guarded mp mn (ProjectedExposure b p n) \<longleftrightarrow> p = mp \<and> n = mn \<and> (case b of Base _ \<Rightarrow> True | _ \<Rightarrow> False)"
| "guarded mp mn (StrategyAware b os) \<longleftrightarrow> guarded mp mn b"
| "guarded mp mn (TokenizedSecurities b tc) \<longleftrightarrow> guarded mp mn b"
| "guarded mp mn (PortfolioBudget b pb) \<longleftrightarrow> guarded mp mn b"

lemma guarded_factory: "guarded mp mn (create_strategy_aware_risk_manager m mp mn os tc)"
  by (simp add: create_strategy_aware_risk_manager_def Let_def)

lemma guarded_admission:
  assumes "risk_env_exact E" and "specs_valid specs" and "finite (dom (av_positions ex))"
  shows "guarded mp mn m \<Longrightarrow> rm_review_risk_context E m c [e] av ex pending specs = Some (m', fs) \<Longrightarrow> f \<in> set fs \<Longrightarrow>
    capped E specs mp mn ex e f"
proof (induction m arbitrary: e m' fs f)
  case (ProjectedExposure b p n)
  obtain m where b: "p = mp" "n = mn" "b = Base m" using ProjectedExposure.prems(1) by (cases b) auto
  from projected_admission [OF assms ProjectedExposure.prems(2,3) [unfolded b]] show ?case by (simp add: capped_def)
next
  case (StrategyAware b os)
  then obtain g b' where g: "override_envelope (rk_dec E) os e = Some g"
    and rest: "rm_review_risk_context E b c g av ex pending specs = Some (b', fs)"
    by (auto simp: bind_eq_Some_conv)
  have "dec_exact (rk_dec E)" using assms(1) by (simp add: risk_env_exact_def)
  then show ?case
    by (intro layer_admission [OF assms(1) override_envelope_kept [OF g] rest StrategyAware.prems(3)
        override_envelope_exact(1) [OF _ g] override_envelope_exact(2) [OF _ g] StrategyAware.IH])
      (use StrategyAware.prems(1) in simp_all)
next
  case (TokenizedSecurities b tc)
  then obtain g b' where g: "filter_envelopes (rk_dec E) tc (rc_now_us c) [e] av pending = Some g"
    and rest: "rm_review_risk_context E b c g av ex pending specs = Some (b', fs)"
    by (auto simp: bind_eq_Some_conv)
  show ?case
    using layer_admission [OF assms(1) filter_envelopes_kept [OF g] rest TokenizedSecurities.prems(3) _ _ TokenizedSecurities.IH]
      filter_envelopes_values [OF g] TokenizedSecurities.prems(1) by simp
next
  case (PortfolioBudget b pb)
  then obtain g b' where g: "budget_filter E pb av pending env_intent Map.empty [e] = Some g"
    and rest: "rm_review_risk_context E b c g av ex pending specs = Some (b', fs)"
    by (auto simp: bind_eq_Some_conv)
  have same: "e' = e" if "e' \<in> set g" for e' using list_emb_set [OF budget_filter_subseq [OF g] that] by auto
  show ?case
    by (rule layer_admission [OF assms(1) subseq_kept(2) [OF budget_filter_subseq [OF g]] rest PortfolioBudget.prems(3)])
      (use same PortfolioBudget.IH PortfolioBudget.prems(1) in auto)
qed simp

lemma base_stays:
  assumes "rm_review_envelopes E (Base m) c es av specs = Some (m', fs)"
  shows "\<exists>m1. m' = Base m1"
proof -
  have one: "\<exists>m1. m' = Base m1" if "review_with_venue_specs E (\<lambda>k m is av sp. rm_review E m (clock_at c k) is av sp) k (Base m) is av specs
      = Some (m', js)" for k m "is" av m' js c
    using that
  proof (induction "is" arbitrary: k m av js)
    case (Cons i "is")
    then show ?case by (fastforce simp: bind_eq_Some_conv split: if_splits option.splits)
  qed auto
  have "review_envelopes_with_venue_specs E
     (\<lambda>k m is av. rm_review_with_venue_specs E m (clock_at c k) is av specs) k (Base m) es av = Some (m', fs) \<Longrightarrow> \<exists>m1. m' = Base m1" for k
  proof (induction es arbitrary: k m av fs)
    case (Cons e es)
    then obtain m1 js av' gs where "default_review_with_venue_specs E (Base m) (clock_at c k) [env_intent e] av specs = Some (m1, js)"
      and rest: "review_envelopes_with_venue_specs E
     (\<lambda>k m is av. rm_review_with_venue_specs E m (clock_at c k) is av specs) (Suc k) m1 es av' = Some (m', gs)"
      by (auto simp: bind_eq_Some_conv)
    then obtain m2 where "m1 = Base m2" using one unfolding default_review_with_venue_specs_def by blast
    then show ?case using Cons.IH rest by blast
  qed auto
  then show ?thesis using assms by (simp add: default_review_envelopes_def)
qed

lemma guarded_stays:
  "guarded mp mn m \<Longrightarrow> rm_review_risk_context E m c es av ex pending specs = Some (m', fs) \<Longrightarrow> guarded mp mn m'"
proof (induction m arbitrary: es m' fs)
  case (ProjectedExposure b p n)
  obtain m where b: "p = mp" "n = mn" "b = Base m" using ProjectedExposure.prems(1) by (cases b) auto
  obtain gs b' where base: "rm_review_envelopes E (Base m) c gs av specs = Some (b', fs)" "m' = ProjectedExposure b' p n"
    using ProjectedExposure.prems(2) b(3) by (auto simp: bind_eq_Some_conv simp del: rm_review_envelopes.simps)
  from base_stays [OF this(1)] show ?case using base(2) b by auto
qed (auto simp: bind_eq_Some_conv)

subsection \<open>Properties\<close>


definition product_types :: "product_type list" where
  "product_types = [Spot, Futures, Perp, TokenizedSecuritySpot, BrokerageEquity, PT_PredictionMarket]"

fun product_rank :: "product_type \<Rightarrow> nat" where
  "product_rank Spot = 0" | "product_rank Futures = 1" | "product_rank Perp = 2"
| "product_rank TokenizedSecuritySpot = 3" | "product_rank BrokerageEquity = 4" | "product_rank PT_PredictionMarket = 5"

fun venue_code :: "venue_id option \<Rightarrow> nat" where
  "venue_code None = 0" | "venue_code (Some (VenueId w)) = Suc (unat w)"

fun venue_of :: "nat \<Rightarrow> venue_id option" where
  "venue_of 0 = None" | "venue_of (Suc n) = Some (VenueId (of_nat n))"

fun symbol_codes :: "symbol \<Rightarrow> nat list" where
  "symbol_codes (Symbol s) = map of_char s"

definition key_code :: "exposure_key \<Rightarrow> nat list" where
  "key_code k = venue_code (ek_venue k) # product_rank (ek_product_type k) # symbol_codes (ek_symbol k)"

definition key_of_code :: "nat list \<Rightarrow> exposure_key" where
  "key_of_code ns = \<lparr>ek_venue = venue_of (ns ! 0), ek_product_type = product_types ! (ns ! 1),
     ek_symbol = Symbol (map char_of (drop 2 ns))\<rparr>"

definition sorted_keys :: "exposure_key set \<Rightarrow> exposure_key list" where
  "sorted_keys S = map key_of_code (sorted_list_of_set (key_code ` S))"

lemma key_of_key_code [simp]: "key_of_code (key_code k) = k"
proof -
  have v: "venue_of (venue_code v) = v" for v by (cases v rule: venue_code.cases) simp_all
  have p: "product_types ! product_rank t = t" for t by (cases t) (simp_all add: product_types_def)
  have s: "Symbol (map char_of (symbol_codes sm)) = sm" for sm by (cases sm) (simp add: comp_def)
  show ?thesis by (cases k) (simp add: key_of_code_def key_code_def v p s)
qed

lemma iteration_order_keys: "iteration_order sorted_keys"
proof -
  have "inj_on key_of_code (key_code ` S)" for S by (rule inj_onI) auto
  then show ?thesis by (auto simp: iteration_order_def sorted_keys_def distinct_map image_image)
qed

definition exact_risk_env :: risk_env where
  "exact_risk_env = sample_risk_env\<lparr>rk_keys := sorted_keys\<rparr>"

lemma risk_env_exact_sample: "risk_env_exact exact_risk_env"
  by (simp add: risk_env_exact_def exact_risk_env_def sample_risk_env_def iteration_order_keys)
    (simp add: iteration_order_def)

definition no_tokens :: tokenized_risk_config where
  "no_tokens = \<lparr>tc_allow_trading = False, tc_evidence_max_age_us = 0, tc_max_notional_per_symbol = 0,
     tc_max_asset_class_notional = 0, tc_min_top_depth_usd = 0, tc_max_spread_bps = 0, tc_freeze_on_corporate_action = True,
     tc_restricted_jurisdictions = []\<rparr>"

definition sample_stack :: risk_manager where
  "sample_stack = create_strategy_aware_risk_manager (risk_manager_new sample_risk_config) 50 10000 Map.empty no_tokens"

lemma sample_keys_single: "sorted_keys {k} = [k]"
  by (simp add: sorted_keys_def)

definition sample_specs :: venue_specs where
  "sample_specs = [BINANCE \<mapsto> sample_spec]"

lemma sample_specs_valid: "specs_valid sample_specs"
  by (simp add: specs_valid_def sample_specs_def sample_spec_def)

abbreviation sample_clock :: review_clock where
  "sample_clock \<equiv> \<lparr>rc_now_us = 1000000, rc_readings = (\<lambda>_. (1000, 1001))\<rparr>"

lemma sample_intent_sel:
  "in_symbol (env_intent sample_envelope) = Symbol ''BTCUSDT''" "in_side (env_intent sample_envelope) = Buy"
  "in_quantity (env_intent sample_envelope) = 2" "in_price (env_intent sample_envelope) = Some 101"
  "in_target_venue (env_intent sample_envelope) = Some BINANCE" "\<not> is_tokenized (env_intent sample_envelope)"
  by (simp_all add: sample_envelope_def intent_crypto_spot_def is_tokenized_def)

lemma sample_filters:
  assumes "env_intent e = env_intent sample_envelope"
  shows "filter_envelopes D no_tokens now [e] av [] = Some [e]"
    and "filter_items exact_risk_env 50 10000 env_intent default_account_view [e] = Some [e]"
  by (simp_all add: filter_envelopes_def filter_items_def projector_new_def default_account_view_def pj_project_def incoming_def
      assms sample_intent_sel exact_risk_env_def sample_risk_env_def Let_def sample_keys_single exposure_key_of_def unwrap_or_def)

lemma sample_reviewed:
  "\<exists>m1 pr. review_one exact_risk_env (1000, 1001) sample_spec default_account_view
     (risk_manager_new sample_risk_config\<lparr>rm_last_account := Some default_account_view, rm_last_account_update_us := 1000000\<rparr>)
     default_account_view (env_intent sample_envelope) = Some (m1, pr, Some (env_intent sample_envelope))"
  by (simp add: review_one_def normalize_intent_def normalize_price_def normalize_quantity_def validate_order_minimums_def
      check_rate_limit_def check_position_limits_def position_after_def reference_price_def check_daily_loss_def
      check_drawdown_def project_intent_def sample_risk_env_def sample_risk_config_def sample_spec_def sample_intent_sel
      exact_risk_env_def risk_manager_new_def symbol_state_def default_symbol_state_def default_account_view_def
      exact_dec_def unwrap_or_def Let_def put_symbol_state_def sample_envelope_def intent_crypto_spot_def)

lemma sample_project: "\<exists>av. project_intent exact_dec default_account_view (env_intent sample_envelope) = Some av"
  by (simp add: project_intent_def Let_def)

lemma sample_admission:
  assumes "env_intent e = env_intent sample_envelope"
  shows "\<exists>m'. rm_review_risk_context exact_risk_env sample_stack sample_clock [e] default_account_view
     default_account_view [] sample_specs = Some (m', [e])"
proof -
  obtain m1 pr where one: "review_one exact_risk_env (1000, 1001) sample_spec default_account_view
     (risk_manager_new sample_risk_config\<lparr>rm_last_account := Some default_account_view, rm_last_account_update_us := 1000000\<rparr>)
     default_account_view (env_intent sample_envelope) = Some (m1, pr, Some (env_intent sample_envelope))"
    using sample_reviewed by blast
  obtain av where av: "project_intent exact_dec default_account_view (env_intent sample_envelope) = Some av"
    using sample_project by blast
  have dec: "rk_dec exact_risk_env = exact_dec" by (simp add: exact_risk_env_def sample_risk_env_def)
  have sp: "spec_for exact_risk_env sample_specs (env_intent sample_envelope) = Some sample_spec"
    by (simp add: spec_for_def sample_intent_sel sample_specs_def)
  have same: "e\<lparr>env_intent := env_intent sample_envelope\<rparr> = e" using assms by (cases e) simp
  show ?thesis
    by (simp add: sample_stack_def create_strategy_aware_risk_manager_def Let_def sample_filters [OF assms] default_review_envelopes_def
        default_review_with_venue_specs_def clock_at_def sample_intent_sel sp review_def one av dec assms same)
qed


end
