(* ===== verification/Engine_Intake.thy ===== *)
theory Engine_Intake
  imports Engine_Admission Risk_Exposure Engine_Properties
begin

text \<open>
  What intake guarantees: an intent enters the execution queue exactly when its valuation enters the reservations,
  what enters is what was submitted, within the deployment ceilings, and the risk review of a batch keeps the gross
  exposure under the caps of the risk manager.
\<close>

subsection \<open>Queue and reservations in step\<close>

definition intents_of :: "intake \<Rightarrow> order_intent_envelope list" where
  "intents_of s = (case it_queues s of None \<Rightarrow> [] | Some q \<Rightarrow> intents_waiting q)"

definition queues_ok :: "intake \<Rightarrow> bool" where
  "queues_ok s \<longleftrightarrow> (case it_queues s of None \<Rightarrow> True | Some q \<Rightarrow> qp_inv q)"

definition reserved_ids :: "risk_reservations \<Rightarrow> string set" where
  "reserved_ids rr = dom (queued_of rr) \<union> v_client_order_id ` ran (orders_of rr)"

definition with_queued :: "reservation_checkpoint \<Rightarrow> valuation list \<Rightarrow> reservation_checkpoint" where
  "with_queued cp vs = cp\<lparr>rc_queued := rc_queued cp ++ map_of (map (\<lambda>v. (v_client_order_id v, v)) vs)\<rparr>"

text \<open>The envelopes \<open>fs\<close> went to the end of the queue, and exactly their valuations into the reservations.\<close>

definition admits :: "dec_ops \<Rightarrow> intake \<Rightarrow> order_intent_envelope list \<Rightarrow> intake \<Rightarrow> bool" where
  "admits D s fs s' \<longleftrightarrow> intents_of s' = intents_of s @ fs \<and>
     (\<exists>vs. list_all2 (\<lambda>f v. from_envelope D f = Ok v) fs vs \<and> distinct (map v_client_order_id vs) \<and>
       v_client_order_id ` set vs \<inter> reserved_ids (reservations s) = {} \<and>
       rr_checkpoint (reservations s') = with_queued (rr_checkpoint (reservations s)) vs)"

lemma admits_none: "admits D s [] s' \<longleftrightarrow> intents_of s' = intents_of s \<and> rr_checkpoint (reservations s') = rr_checkpoint (reservations s)"
  by (auto simp: admits_def with_queued_def)

lemma reserved_with_queued:
  assumes "rr_checkpoint rr' = with_queued (rr_checkpoint rr) vs"
  shows "reserved_ids rr' = reserved_ids rr \<union> v_client_order_id ` set vs"
  using assms by (auto simp: reserved_ids_def with_queued_def dom_map_of_conv_image_fst image_image)

lemma admits_trans:
  assumes "admits D s fs s1" and "admits D s1 gs s2"
  shows "admits D s (fs @ gs) s2"
proof -
  obtain vs where vs: "list_all2 (\<lambda>f v. from_envelope D f = Ok v) fs vs" "distinct (map v_client_order_id vs)"
    "v_client_order_id ` set vs \<inter> reserved_ids (reservations s) = {}"
    "rr_checkpoint (reservations s1) = with_queued (rr_checkpoint (reservations s)) vs" "intents_of s1 = intents_of s @ fs"
    using assms(1) unfolding admits_def by blast
  obtain ws where ws: "list_all2 (\<lambda>f v. from_envelope D f = Ok v) gs ws" "distinct (map v_client_order_id ws)"
    "v_client_order_id ` set ws \<inter> reserved_ids (reservations s1) = {}"
    "rr_checkpoint (reservations s2) = with_queued (rr_checkpoint (reservations s1)) ws" "intents_of s2 = intents_of s1 @ gs"
    using assms(2) unfolding admits_def by blast
  have dis: "v_client_order_id ` set ws \<inter> (reserved_ids (reservations s) \<union> v_client_order_id ` set vs) = {}"
    using ws(3) reserved_with_queued [OF vs(4)] by simp
  have "map_of (map (\<lambda>v. (v_client_order_id v, v)) vs) ++ map_of (map (\<lambda>v. (v_client_order_id v, v)) ws) =
    map_of (map (\<lambda>v. (v_client_order_id v, v)) ws) ++ map_of (map (\<lambda>v. (v_client_order_id v, v)) vs)"
    using dis by (intro map_add_comm) (auto simp: dom_map_of_conv_image_fst image_image)
  then have "m ++ map_of (map (\<lambda>v. (v_client_order_id v, v)) vs) ++ map_of (map (\<lambda>v. (v_client_order_id v, v)) ws) =
    m ++ map_of (map (\<lambda>v. (v_client_order_id v, v)) (vs @ ws))" for m
    by (metis map_add_assoc map_append map_of_append)
  then have "rr_checkpoint (reservations s2) = with_queued (rr_checkpoint (reservations s)) (vs @ ws)"
    using vs(4) ws(4) by (simp add: with_queued_def del: map_append)
  moreover have "list_all2 (\<lambda>f v. from_envelope D f = Ok v) (fs @ gs) (vs @ ws)"
    using vs(1) ws(1) by (rule list_all2_appendI)
  ultimately show ?thesis
    unfolding admits_def using vs ws dis by (intro conjI exI [of _ "vs @ ws"]) auto
qed

lemma reserve_Ok:
  "reserve rr v = (rr', Ok ()) \<longleftrightarrow> v_client_order_id v \<notin> reserved_ids rr \<and> rr' = put_queued rr ((queued_of rr)(v_client_order_id v \<mapsto> v))"
  by (auto simp: reserve_def reserved_ids_def)

lemma from_envelope_client: "from_envelope D env = Ok v \<Longrightarrow> v_client_order_id v = env_client_order_id env"
  by (auto simp: from_envelope_def and_then_Ok_iff Let_def)

text \<open>The queue send, as intake sees it.\<close>

lemma send_cases:
  assumes "qp_inv q" and "send_lifecycle_intent_with_price_protection D q env now latest prot = (q', r)"
  obtains (sent) "r = Ok ()" "validate_for_protection D env now latest prot = Ok ()" "qp_inv q'"
      "intents_waiting q' = intents_waiting q @ [env]"
  | (refused) err where "r = Err err" "qp_inv q'" "intents_waiting q' = intents_waiting q"
proof (cases "validate_for_protection D env now latest prot")
  case (Inl reason)
  then show thesis using assms refused by (auto simp: send_lifecycle_intent_with_price_protection_def Let_def qp_inv_def)
next
  case (Inr u)
  obtain q1 r1 where one: "send_envelope q env = (q1, r1)" by fastforce
  from assms(1) one show thesis
    by (cases rule: send_envelope_cases)
      (use assms Inr one sent refused in \<open>auto simp: send_lifecycle_intent_with_price_protection_def qp_inv_def\<close>)
qed

text \<open>The outcomes of a reservation with the queue send.\<close>

lemma enqueue_cases:
  assumes "queues_ok s" and "enqueue_reserved_intent E s env now latest = (s', r)"
  obtains (early) err where "r = Err err" "s' = s"
  | (sent) v q q' where "r = Ok ()" "ensure_accepting_new_intents (it_engine s) = Ok ()" "from_envelope (ie_dec E) env = Ok v"
      "it_queues s = Some q" "v_client_order_id v \<notin> reserved_ids (reservations s)" "qp_inv q'"
      "validate_for_protection (ie_dec E) env now latest (price_protection_for s (env_intent env)) = Ok ()"
      "intents_waiting q' = intents_waiting q @ [env]"
      "s' = put_reserved s (put_queued (reservations s) ((queued_of (reservations s))(v_client_order_id v \<mapsto> v))) q'"
  | (refused) err v q q' where "r = Err err" "from_envelope (ie_dec E) env = Ok v"
      "it_queues s = Some q" "v_client_order_id v \<notin> reserved_ids (reservations s)" "qp_inv q'" "intents_waiting q' = intents_waiting q"
      "s' = put_reserved s (remove_unsent (put_queued (reservations s) ((queued_of (reservations s))(v_client_order_id v \<mapsto> v)))
        (env_client_order_id env)) q'"
proof (cases "and_then (ensure_accepting_new_intents (it_engine s)) (\<lambda>_.
             and_then (from_envelope (ie_dec E) env) (\<lambda>v.
             and_then (ok_or (Execution (Msg ''execution queues are not initialized'')) (it_queues s)) (\<lambda>q. Ok (v, q))))")
  case (Inl err)
  then show thesis using assms(2) early by (auto simp: enqueue_reserved_intent_def)
next
  case (Inr vq)
  then obtain v q where vq: "vq = (v, q)" and pre: "ensure_accepting_new_intents (it_engine s) = Ok ()"
    "from_envelope (ie_dec E) env = Ok v" "it_queues s = Some q"
    by (auto simp: and_then_Ok_iff ok_or_def split: option.splits)
  obtain rr rres where res: "reserve (reservations s) v = (rr, rres)" by fastforce
  show thesis
  proof (cases rres)
    case (Inl err)
    then show thesis using assms(2) early Inr vq res by (auto simp: enqueue_reserved_intent_def)
  next
    case (Inr u)
    have rr: "v_client_order_id v \<notin> reserved_ids (reservations s)"
      "rr = put_queued (reservations s) ((queued_of (reservations s))(v_client_order_id v \<mapsto> v))"
      using res Inr reserve_Ok by auto
    obtain q' sr where send: "send_lifecycle_intent_with_price_protection (ie_dec E) q env now latest
        (price_protection_for s (env_intent env)) = (q', sr)" by fastforce
    have inv: "qp_inv q" using assms(1) pre(3) by (simp add: queues_ok_def)
    have out: "(s', r) = (case sr of Inr _ \<Rightarrow> (put_reserved s rr q', Ok ())
      | Inl err \<Rightarrow> (put_reserved s (remove_unsent rr (env_client_order_id env)) q', Err (submit_failure err)))"
      using assms(2) \<open>_ = Inr vq\<close> vq res Inr send by (simp add: enqueue_reserved_intent_def split: sum.splits)
    from inv send show thesis
    proof (cases rule: send_cases)
      case sent
      then show thesis using that(2) pre rr out by simp
    next
      case (refused err)
      then show thesis using that(3) pre rr out by simp
    qed
  qed
qed

lemma put_reserved_sel [simp]:
  "intents_of (put_reserved s rr q) = intents_waiting q" "queues_ok (put_reserved s rr q) = qp_inv q"
  "it_risk_manager (put_reserved s rr q) = it_risk_manager s" "it_venue_specs (put_reserved s rr q) = it_venue_specs s"
  "it_price_protection (put_reserved s rr q) = it_price_protection s" "reservations (put_reserved s rr q) = rr"
  by (simp_all add: put_reserved_def intents_of_def queues_ok_def)

lemma accepting_put_reserved [simp]:
  "recovery_required rr = recovery_required (reservations s) \<Longrightarrow>
     ensure_accepting_new_intents (it_engine (put_reserved s rr q)) = ensure_accepting_new_intents (it_engine s)"
  by (simp add: ensure_accepting_new_intents_def put_reserved_def is_ready_def mode_of_def)

lemma recovery_put_queued [simp]: "recovery_required (put_queued rr m) = recovery_required rr"
  by (simp add: put_queued_def)

lemma checkpoint_put_queued: "rr_checkpoint (put_queued rr m) = (rr_checkpoint rr)\<lparr>rc_queued := m\<rparr>"
  by (simp add: put_queued_def)

lemma enqueue_exact:
  assumes "queues_ok s" and "enqueue_reserved_intent E s env now latest = (s', r)"
  shows "queues_ok s' \<and> it_risk_manager s' = it_risk_manager s \<and> it_venue_specs s' = it_venue_specs s \<and>
    it_price_protection s' = it_price_protection s \<and>
    ensure_accepting_new_intents (it_engine s') = ensure_accepting_new_intents (it_engine s) \<and>
    (if is_ok r
     then admits (ie_dec E) s [env] s' \<and> ensure_accepting_new_intents (it_engine s) = Ok () \<and>
       validate_for_protection (ie_dec E) env now latest (price_protection_for s (env_intent env)) = Ok ()
     else admits (ie_dec E) s [] s')"
  using assms
proof (cases rule: enqueue_cases)
  case early
  then show ?thesis using assms(1) by (simp add: admits_none)
next
  case (sent v q q')
  have "intents_of s = intents_waiting q" using sent(4) by (simp add: intents_of_def)
  then have "admits (ie_dec E) s [env] s'"
    unfolding admits_def using sent
    by (intro conjI exI [of _ "[v]"]) (simp_all add: with_queued_def checkpoint_put_queued)
  then show ?thesis using sent by simp
next
  case (refused err v q q')
  have "(queued_of (reservations s))(v_client_order_id v := None) = queued_of (reservations s)"
    using refused(4) by (intro fun_upd_idem) (auto simp: reserved_ids_def)
  moreover have "intents_of s = intents_waiting q" using refused(3) by (simp add: intents_of_def)
  ultimately have "admits (ie_dec E) s [] s'"
    using refused from_envelope_client [OF refused(2)]
    by (simp add: admits_none remove_unsent_def checkpoint_put_queued)
  then show ?thesis using refused by (simp add: remove_unsent_def)
qed

subsection \<open>The review\<close>

lemma put_price_sel [simp]:
  "env_intent (put_price e p) = (env_intent e)\<lparr>in_price := p\<rparr>" "env_lifecycle (put_price e p) = env_lifecycle e"
  by (simp_all add: put_price_def)

lemma same_envelope_put_price: "same_envelope e (put_price e p)"
  by (simp add: same_envelope_def put_price_def same_order_sel)

lemma same_envelope_sym: "same_envelope e f \<Longrightarrow> same_envelope f e"
  by (cases e; cases f) (auto simp: same_envelope_def same_order_sel)

lemma same_envelope_lifecycle: "same_envelope e f \<Longrightarrow> env_lifecycle f = env_lifecycle e"
  by (cases e; cases f) (simp add: same_envelope_def)

text \<open>What is made of the review of one envelope: nothing, or one envelope that was valued and added to the view.\<close>

lemma accept_single:
  assumes "accept_reviewed D market view reviewed = Ok (view', accepted)" and "envelopes_kept [req] reviewed"
  obtains (empty) "accepted = []" "view' = view"
  | (one) f g v where "reviewed = [f]" "same_envelope req f" "accepted = [g]"
      "g = (case market of None \<Rightarrow> f | Some (p, _) \<Rightarrow> put_price f p)"
      "from_envelope D g = Ok v" "add_to_view D v view = Ok view'"
      "case market of None \<Rightarrow> True | Some (_, bound) \<Rightarrow> \<not> is_none_or (\<lambda>p. p < bound) (in_price (env_intent f))"
  using kept_singleD [OF assms(2)]
proof
  assume "reviewed = []"
  then show thesis using assms(1) by (intro empty) auto
next
  assume "\<exists>f. reviewed = [f] \<and> same_envelope req f"
  then obtain f where f: "reviewed = [f]" "same_envelope req f" by blast
  show thesis
  proof (cases "case market of None \<Rightarrow> False | Some (_, bound) \<Rightarrow> is_none_or (\<lambda>p. p < bound) (in_price (env_intent f))")
    case True
    then show thesis using assms(1) f(1) by (intro empty) auto
  next
    case False
    have "case market of None \<Rightarrow> True | Some (_, bound) \<Rightarrow> \<not> is_none_or (\<lambda>p. p < bound) (in_price (env_intent f))"
      using False by (auto split: option.splits)
    moreover obtain v where "from_envelope D (case market of None \<Rightarrow> f | Some (p, _) \<Rightarrow> put_price f p) = Ok v"
      "add_to_view D v view = Ok view'" "accepted = [case market of None \<Rightarrow> f | Some (p, _) \<Rightarrow> put_price f p]"
      using assms(1) f(1) False by (auto simp: and_then_Ok_iff Let_def)
    ultimately show thesis using one f by blast
  qed
qed

lemma risk_request_same: "risk_request E specs env v = Some req \<Longrightarrow> same_envelope env req"
  by (auto simp: risk_request_def same_envelope_put_price split: if_splits)

text \<open>What the engine relies on in the review of a risk manager: it returns no order it was not given, nor one twice.\<close>

locale risk_reviewer =
  fixes env_ok :: "'e \<Rightarrow> bool"
    and review_with :: "'e \<Rightarrow> 'm reviewer"
  assumes review_keeps: "env_ok R \<Longrightarrow> review_with R m c [e] av ex pending specs = Some (m', fs) \<Longrightarrow> envelopes_kept [e] fs"
begin

text \<open>One step of the loop over the batch.\<close>

lemma review_each_Cons:
  assumes "env_ok R" and "review_each (review_with R) E clk account specs k m view (env # envs) = Some (m', r)"
  obtains (skipped) "review_each (review_with R) E clk account specs (Suc k) m view envs = Some (m', r)"
  | (failed) err where "r = Err err"
  | (rejected) req m1 reviewed where
      "review_with R m (clk k) [req] account (ae_account view) (ae_pending view) specs = Some (m1, reviewed)" "review_each (review_with R) E clk account specs (Suc k) m1 view envs = Some (m', r)"
  | (accepted) v req m1 f g w view' r' where "from_envelope (ie_dec E) env = Ok v" "risk_request E specs env v = Some req"
      "review_with R m (clk k) [req] account (ae_account view) (ae_pending view) specs = Some (m1, [f])"
      "same_envelope req f" "g = (case market_price_of env v of None \<Rightarrow> f | Some (p, _) \<Rightarrow> put_price f p)"
      "case market_price_of env v of None \<Rightarrow> True | Some (_, bound) \<Rightarrow> \<not> is_none_or (\<lambda>p. p < bound) (in_price (env_intent f))"
      "from_envelope (ie_dec E) g = Ok w" "add_to_view (ie_dec E) w view = Ok view'"
      "review_each (review_with R) E clk account specs (Suc k) m1 view' envs = Some (m', r')" "r = map_sum id ((#) g) r'"
proof (cases "from_envelope (ie_dec E) env")
  case (Inl err)
  then show thesis using assms(2) skipped by simp
next
  case v: (Inr v)
  show thesis
  proof (cases "risk_request E specs env v")
    case None
    then show thesis using assms(2) v skipped by simp
  next
    case req: (Some req)
    obtain m1 reviewed where run: "review_with R m (clk k) [req] account (ae_account view) (ae_pending view) specs = Some (m1, reviewed)"
      using assms(2) v req by (auto simp: bind_eq_Some_conv)
    show thesis
    proof (cases "accept_reviewed (ie_dec E) (market_price_of env v) view reviewed")
      case (Inl err)
      then show thesis using assms(2) v req run failed by auto
    next
      case (Inr va)
      obtain view' acc where va: "va = (view', acc)" by fastforce
      obtain r' where rest: "review_each (review_with R) E clk account specs (Suc k) m1 view' envs = Some (m', r')"
        "r = map_sum id ((@) acc) r'"
        using assms(2) v req run Inr va by auto
      from Inr [unfolded va] review_keeps [OF assms(1) run] show thesis
      proof (cases rule: accept_single)
        case empty
        then have "r = r'" using rest(2) by (cases r') auto
        then show thesis using rest(1) empty rejected run by simp
      next
        case (one f g w)
        show thesis
          by (rule accepted [OF v req run [unfolded one(1)] one(2,4,7,5,6) rest(1)]) (use rest(2) one(3) in \<open>cases r'; simp\<close>)
      qed
    qed
  qed
qed

lemma review_each_same:
  assumes "env_ok R"
  shows "review_each (review_with R) E clk account specs k m view envs = Some (m', Ok fs) \<Longrightarrow> envelopes_kept envs fs"
proof (induction envs arbitrary: k m view fs)
  case (Cons env envs)
  from assms Cons.prems show ?case
  proof (cases rule: review_each_Cons)
    case skipped
    from kept_Cons(2) [OF kept_Nil(2) Cons.IH [OF this]] show ?thesis by simp
  next
    case (rejected req m1 reviewed)
    from kept_Cons(2) [OF kept_Nil(2) Cons.IH [OF this(2)]] show ?thesis by simp
  next
    case (accepted v req m1 f g w view' r')
    then obtain gs where gs: "r' = Ok gs" "fs = g # gs" by (cases r') auto
    have "same_envelope f g" using accepted(5) same_envelope_put_price by (auto split: option.splits)
    then have "same_envelope env g"
      using same_envelope_trans [OF same_envelope_trans [OF risk_request_same [OF accepted(2)] accepted(4)]] by blast
    then have "envelopes_kept [env] [g]" by (simp add: envelopes_kept_def)
    from kept_Cons(2) [OF this Cons.IH [OF accepted(9) [unfolded gs(1)]]] gs(2) show ?thesis by simp
  qed simp
qed simp

end

interpretation rv: risk_reviewer "\<lambda>R. iteration_order (rk_strings R)" rm_review_risk_context
  by unfold_locales (rule rm_review_risk_context_kept)

lemma envelopes_kept_refl: "envelopes_kept envs envs"
  by (rule subseq_kept(2)) simp

lemma review_intake:
  assumes "iteration_order (rk_strings (ie_risk E))" and "review_risk_envelopes E clk s envs = Some (s', r)"
  shows "it_queues s' = it_queues s" and "rr_checkpoint (reservations s') = rr_checkpoint (reservations s)"
    and "r = Ok fs \<Longrightarrow> envelopes_kept envs fs \<and> (\<exists>rm. s' = s\<lparr>it_risk_manager := rm\<rparr>)"
proof -
  have "it_queues s' = it_queues s \<and> rr_checkpoint (reservations s') = rr_checkpoint (reservations s) \<and>
    (\<forall>fs. r = Ok fs \<longrightarrow> envelopes_kept envs fs \<and> (\<exists>rm. s' = s\<lparr>it_risk_manager := rm\<rparr>))"
  proof (cases "it_risk_manager s")
    case None
    then have "s' = s" "r = Ok envs" using assms(2) by (simp_all add: review_risk_envelopes_def)
    moreover have "\<exists>rm. s = s\<lparr>it_risk_manager := rm\<rparr>" by (rule exI [of _ "it_risk_manager s"]) simp
    ultimately show ?thesis using envelopes_kept_refl by simp
  next
    case rm: (Some rm)
    show ?thesis
    proof (cases "en_order_manager (it_engine s) = None \<or> en_portfolio_manager (it_engine s) = None")
      case True
      then show ?thesis using assms(2) rm by (auto simp: review_risk_envelopes_def)
    next
      case False
      then obtain x where x: "engine_view (ie_engine E) (it_engine s) = Some x"
        using assms(2) rm by (auto simp: review_risk_envelopes_def bind_eq_Some_conv)
      show ?thesis
      proof (cases x)
        case (Inl err)
        then show ?thesis using assms(2) rm False x
          by (auto simp: review_risk_envelopes_def require_recovery_def pause_trading_def put_mode_def
              request_worker_intake_pause_def Let_def)
      next
        case (Inr view)
        then obtain rm' where "review_each (rm_review_risk_context (ie_risk E)) E clk (en_account_snapshot (it_engine s))
            (it_venue_specs s) 0 rm view envs = Some (rm', r)" "s' = s\<lparr>it_risk_manager := Some rm'\<rparr>"
          using assms(2) rm False x by (auto simp: review_risk_envelopes_def bind_eq_Some_conv)
        then show ?thesis using rv.review_each_same [OF assms(1)] by auto
      qed
    qed
  qed
  then show "it_queues s' = it_queues s" and "rr_checkpoint (reservations s') = rr_checkpoint (reservations s)"
    and "r = Ok fs \<Longrightarrow> envelopes_kept envs fs \<and> (\<exists>rm. s' = s\<lparr>it_risk_manager := rm\<rparr>)" by blast+
qed

lemma same_intake:
  assumes "it_queues s' = it_queues s" and "rr_checkpoint (reservations s') = rr_checkpoint (reservations s)"
  shows "admits D s [] s'" and "queues_ok s' = queues_ok s" and "admits D s' fs t = admits D s fs t"
  using assms by (simp_all add: admits_def with_queued_def intents_of_def queues_ok_def reserved_ids_def)

subsection \<open>Submission\<close>

lemma submit_reviewed_exact:
  assumes "iteration_order (rk_strings (ie_risk E))" and "queues_ok s" and "submit_reviewed E clk s env now latest = Some (s', r)"
  shows "queues_ok s' \<and> (if is_ok r
     then \<exists>f. same_envelope env f \<and> admits (ie_dec E) s [f] s' \<and>
       validate_for_protection (ie_dec E) f now latest (price_protection_for s (env_intent f)) = Ok ()
     else admits (ie_dec E) s [] s')"
proof -
  obtain s1 rr where rev: "review_risk_envelopes E (\<lambda>_. clk) s [env] = Some (s1, rr)"
    and out: "(s', r) = (case rr of Inl err \<Rightarrow> (s1, Err err) | Inr reviewed \<Rightarrow>
         if reviewed = [] then (s1, Err (risk_error ''risk review rejected order intent''))
         else enqueue_reserved_intent E s1 (last reviewed) now latest)"
    using assms(3) by (auto simp: submit_reviewed_def bind_eq_Some_conv)
  note frame = review_intake [OF assms(1) rev]
  note same = same_intake [OF frame(1,2)]
  show ?thesis
  proof (cases rr)
    case (Inl err)
    then show ?thesis using out same assms(2) by simp
  next
    case (Inr reviewed)
    from frame(3) [OF Inr] obtain rm where s1: "s1 = s\<lparr>it_risk_manager := rm\<rparr>" and kept: "envelopes_kept [env] reviewed" by blast
    from kept_singleD [OF kept] show ?thesis
    proof
      assume "reviewed = []"
      then show ?thesis using out Inr same assms(2) by simp
    next
      assume "\<exists>f. reviewed = [f] \<and> same_envelope env f"
      then obtain f where f: "reviewed = [f]" "same_envelope env f" by blast
      then have enq: "enqueue_reserved_intent E s1 f now latest = (s', r)" using out Inr by simp
      have prot: "price_protection_for s1 i = price_protection_for s i" for i by (simp add: s1 price_protection_for_def)
      have ok1: "queues_ok s1" using same(2) assms(2) by simp
      from enqueue_exact [OF ok1 enq] f(2) show ?thesis by (auto simp: same(3) prot split: if_splits)
    qed
  qed
qed

definition within_ceilings :: "intake \<Rightarrow> timestamp \<Rightarrow> order_intent_envelope \<Rightarrow> bool" where
  "within_ceilings s now f \<longleftrightarrow>
     now < valid_until (env_lifecycle f) \<and> latency_us_at (env_lifecycle f) now \<le> max (it_max_latency_us s) 1 \<and>
     (\<forall>c. it_max_order_quantity s = Some c \<longrightarrow> in_quantity (env_intent f) \<le> c) \<and>
     (\<forall>c. it_max_order_notional s = Some c \<longrightarrow>
        (\<exists>p. in_price (env_intent f) = Some p \<and> in_quantity (env_intent f) * p \<le> c))"

text \<open>A lifecycle whose limits are at most the configured ones.\<close>

definition limited :: "intake \<Rightarrow> order_intent_lifecycle \<Rightarrow> bool" where
  "limited s l \<longleftrightarrow>
     (\<exists>x. max_latency_us l = Some x \<and> x \<le> max (it_max_latency_us s) 1) \<and>
     (\<forall>c. it_max_order_quantity s = Some c \<longrightarrow> (\<exists>x. max_order_quantity l = Some x \<and> x \<le> c)) \<and>
     (\<forall>c. it_max_order_notional s = Some c \<longrightarrow> (\<exists>x. max_order_notional l = Some x \<and> x \<le> c))"

lemma limited_limits: "limited s (apply_intent_execution_limits s l)"
  by (auto simp: limited_def apply_intent_execution_limits_def tightened_def Let_def split: option.splits)

lemma gate_pre_execution:
  "validate_for_protection D f now latest prot = Ok () \<Longrightarrow>
     lifecycle_validate (env_lifecycle f) now latest = Ok () \<and> validate_order_limits D f = Ok ()"
  by (auto simp: validate_for_protection_def validate_canonical_book_pre_execution_def validate_cex_pre_execution_def
      validate_pre_execution_def and_then_Ok_iff split: execution_price_protection.splits if_splits)

lemma limited_gate:
  assumes "dec_exact D" and "limited s (env_lifecycle f)" and "validate_for_protection D f now latest prot = Ok ()"
  shows "within_ceilings s now f"
proof -
  note gate = gate_pre_execution [OF assms(3)]
  obtain x where x: "max_latency_us (env_lifecycle f) = Some x" "x \<le> max (it_max_latency_us s) 1"
    using assms(2) by (auto simp: limited_def)
  have time: "now < valid_until (env_lifecycle f)" "latency_us_at (env_lifecycle f) now \<le> x"
    using gate x(1) by (simp_all add: lifecycle_validate_Ok)
  have "in_quantity (env_intent f) \<le> c" if "it_max_order_quantity s = Some c" for c
    using assms(2) gate that by (fastforce simp: limited_def validate_order_limits_Ok)
  moreover have "\<exists>p. in_price (env_intent f) = Some p \<and> in_quantity (env_intent f) * p \<le> c"
    if c: "it_max_order_notional s = Some c" for c
  proof -
    obtain y where "max_order_notional (env_lifecycle f) = Some y" "y \<le> c" using assms(2) c by (auto simp: limited_def)
    then show ?thesis using gate dec_exactD(3) [OF assms(1)] by (fastforce simp: validate_order_limits_Ok)
  qed
  ultimately show ?thesis using time x(2) unfolding within_ceilings_def by (meson order_trans)
qed

lemma referenced_limited: "limited s (env_lifecycle (referenced_envelope E s env))"
  by (simp add: referenced_envelope_def Let_def limit_envelope_def limited_limits)


subsection \<open>The intents of strategies\<close>

lemma enqueue_all_exact:
  assumes "queues_ok s" and "enqueue_all E clk latest k s envs = (s', ids, dropped)"
  shows "\<exists>fs. subseq fs envs \<and> admits (ie_dec E) s fs s' \<and> ids = map env_client_order_id fs \<and>
    length fs + dropped = length envs \<and> queues_ok s' \<and>
    (\<forall>f \<in> set fs. ensure_accepting_new_intents (it_engine s) = Ok () \<and>
      (\<exists>n. validate_for_protection (ie_dec E) f (clk n) latest (price_protection_for s (env_intent f)) = Ok ()))"
  using assms
proof (induction envs arbitrary: k s s' ids dropped)
  case Nil
  then show ?case by (intro exI [of _ "[]"]) (auto simp: admits_none)
next
  case (Cons env envs)
  obtain s1 r where one: "enqueue_reserved_intent E s env (clk k) latest = (s1, r)" by fastforce
  obtain s2 ids' d where rest: "enqueue_all E clk latest (Suc k) s1 envs = (s2, ids', d)" using prod_cases3 by blast
  note ex = enqueue_exact [OF Cons.prems(1) one]
  have prot: "price_protection_for s1 i = price_protection_for s i" for i using ex by (simp add: price_protection_for_def)
  have "queues_ok s1" using ex by simp
  from Cons.IH [OF this rest] obtain fs where fs: "subseq fs envs" "admits (ie_dec E) s1 fs s2" "ids' = map env_client_order_id fs"
    "length fs + d = length envs" "queues_ok s2"
    "\<forall>f \<in> set fs. ensure_accepting_new_intents (it_engine s1) = Ok () \<and>
      (\<exists>n. validate_for_protection (ie_dec E) f (clk n) latest (price_protection_for s1 (env_intent f)) = Ok ())" by blast
  show ?case
  proof (cases "is_ok r")
    case True
    then have first: "admits (ie_dec E) s [env] s1" "ensure_accepting_new_intents (it_engine s) = Ok ()"
      "validate_for_protection (ie_dec E) env (clk k) latest (price_protection_for s (env_intent env)) = Ok ()"
      using ex by simp_all
    have "admits (ie_dec E) s (env # fs) s2" using admits_trans [OF first(1) fs(2)] by simp
    then show ?thesis using True one rest Cons.prems(2) fs first(2,3) ex by (intro exI [of _ "env # fs"]) (auto simp: prot)
  next
    case False
    then have "admits (ie_dec E) s [] s1" using ex by simp
    from admits_trans [OF this fs(2)] show ?thesis
      using False one rest Cons.prems(2) fs ex by (intro exI [of _ fs]) (auto simp: prot)
  qed
qed

definition same_submission :: "order_intent_envelope \<Rightarrow> order_intent_envelope \<Rightarrow> bool" where
  "same_submission c f \<longleftrightarrow> env_client_order_id f = env_client_order_id c \<and> env_account_id f = env_account_id c \<and>
     same_order (env_intent c) (env_intent f)"

lemma source_limit_sel [simp]:
  "env_intent (source_envelope mi t e) = env_intent e" "env_client_order_id (source_envelope mi t e) = env_client_order_id e"
  "env_account_id (source_envelope mi t e) = env_account_id e" "env_intent (limit_envelope s e) = env_intent e"
  "env_client_order_id (limit_envelope s e) = env_client_order_id e" "env_account_id (limit_envelope s e) = env_account_id e"
  by (simp_all add: source_envelope_def limit_envelope_def)

lemma limited_source: "limited s (env_lifecycle (source_envelope mi t (limit_envelope s e)))"
  using limited_limits by (simp add: source_envelope_def limit_envelope_def limited_def)

lemma send_reviewed_exact:
  assumes "dec_exact (ie_dec E)" and "queues_ok s" and "send_reviewed E clk s mi t reviewed = (s', ids)"
  shows "\<exists>fs. admits (ie_dec E) s fs s' \<and> ids = map env_client_order_id fs \<and> queues_ok s' \<and> length fs \<le> length reviewed \<and>
    (\<forall>f \<in> set fs. ensure_accepting_new_intents (it_engine s) = Ok () \<and>
      (\<exists>g \<in> set reviewed. f = source_envelope mi t (limit_envelope s g)) \<and> (\<exists>now. within_ceilings s now f))"
proof (cases "it_queues s")
  case None
  then show ?thesis using assms(2,3) by (intro exI [of _ "[]"]) (simp add: send_reviewed_def Let_def admits_none)
next
  case (Some q)
  define sel where "sel = (if mode_of (it_engine s) \<in> {Paused, Emergency} then [] else reviewed)"
  obtain latest s1 dropped where run: "enqueue_all E (dc_enqueue clk) latest 0 s
      (map (source_envelope mi t) (map (limit_envelope s) sel)) = (s1, ids, dropped)"
    and s': "s' = s1\<lparr>it_intents_dropped := saturating_add (it_intents_dropped s1) (of_nat dropped)\<rparr>"
    using assms(3) Some unfolding send_reviewed_def sel_def [symmetric] Let_def by (auto split: prod.splits)
  from enqueue_all_exact [OF assms(2) run] obtain fs where fs:
    "subseq fs (map (source_envelope mi t) (map (limit_envelope s) sel))" "admits (ie_dec E) s fs s1"
    "ids = map env_client_order_id fs" "queues_ok s1"
    "\<forall>f \<in> set fs. ensure_accepting_new_intents (it_engine s) = Ok () \<and>
      (\<exists>n. validate_for_protection (ie_dec E) f (dc_enqueue clk n) latest (price_protection_for s (env_intent f)) = Ok ())" by blast
  have from1: "\<exists>g \<in> set reviewed. f = source_envelope mi t (limit_envelope s g)" if mem: "f \<in> set fs" for f
  proof -
    obtain y where "y \<in> set (map (source_envelope mi t) (map (limit_envelope s) sel))" "f = y"
      using list_emb_set [OF fs(1) mem] by blast
    then show ?thesis by (auto simp: sel_def split: if_splits)
  qed
  have "\<exists>now. within_ceilings s now f" if "f \<in> set fs" for f
    using fs(5) that from1 [OF that] limited_source limited_gate [OF assms(1)] by blast
  moreover have "length fs \<le> length reviewed" using list_emb_length [OF fs(1)] by (simp add: sel_def split: if_splits)
  moreover have "admits (ie_dec E) s fs s'" "queues_ok s'"
    using fs(2,4) s' by (simp_all add: admits_def intents_of_def queues_ok_def)
  ultimately show ?thesis using fs(3,5) from1 by blast
qed


definition sample_intake_env :: intake_env where
  "sample_intake_env = \<lparr>ie_engine = sample_engine_env, ie_risk = exact_risk_env, ie_fixed = fixed_price\<rparr>"

definition sample_intake :: intake where
  "sample_intake = \<lparr>it_engine = sample_engine\<lparr>en_account_snapshot := default_account_view\<rparr>,
     it_queues = Some (create_execution_queues small_config), it_risk_manager = Some sample_stack, it_venue_specs = sample_specs,
     it_price_protection = Map.empty, it_strategy_accounts = Map.empty, it_market = sample_books, it_max_latency_us = 400,
     it_max_slippage_bps = Some 150, it_max_order_notional = Some 500, it_max_order_quantity = Some 3, it_intents_dropped = 0\<rparr>"

definition sample_reference :: order_intent_envelope where
  "sample_reference = referenced_envelope sample_intake_env sample_intake sample_envelope"

lemma sample_quote: "execution_price_reference_of fixed_price sample_books (env_intent sample_envelope) = Some
    \<lparr>ref_venue = BINANCE, ref_symbol = Symbol ''BTCUSDT'', ref_side = Buy, ref_price = 100, ref_book_sequence = 9, ref_received_at = 210\<rparr>"
  by code_simp

lemma sample_reference_eq:
  "sample_reference = sample_envelope\<lparr>
     env_lifecycle := (env_lifecycle sample_envelope)\<lparr>max_latency_us := Some 400, valid_until := 500,
       max_slippage_bps := Some 150, max_order_notional := Some 500, max_order_quantity := Some 3\<rparr>,
     env_price_reference := Some \<lparr>ref_venue = BINANCE, ref_symbol = Symbol ''BTCUSDT'', ref_side = Buy, ref_price = 100,
       ref_book_sequence = 9, ref_received_at = 210\<rparr>\<rparr>"
proof -
  have "apply_intent_execution_limits sample_intake (env_lifecycle sample_envelope) = (env_lifecycle sample_envelope)\<lparr>
      max_latency_us := Some 400, valid_until := 500, max_slippage_bps := Some 150, max_order_notional := Some 500,
      max_order_quantity := Some 3\<rparr>"
    by (simp add: apply_intent_execution_limits_def sample_intake_def sample_envelope_def lifecycle_new_def default_lifecycle_def
        tightened_def min_i32_def saturating_add_def Let_def)
  moreover have "source_book_seq (env_lifecycle sample_envelope) = None"
    by (simp add: sample_envelope_def lifecycle_new_def default_lifecycle_def)
  ultimately show ?thesis
    by (simp add: sample_reference_def referenced_envelope_def Let_def limit_envelope_def sample_quote sample_intake_env_def)
      (simp add: sample_intake_def sample_quote)
qed

lemma sample_gate: "validate_for_protection exact_dec sample_reference 300 None CanonicalBook = Ok ()"
  unfolding sample_reference_eq by code_simp

lemma sample_value: "\<exists>v. from_envelope exact_dec sample_reference = Ok v \<and> v_client_order_id v = ''c1'' \<and> v_quantity v = 2 \<and> v_unit_price v = 101"
  by (simp add: sample_reference_eq from_envelope_def envelope_prices_def sample_envelope_def intent_crypto_spot_def
      and_then_Ok_iff valuation_validate_def blank_def Let_def)

lemma sample_queues_ok: "queues_ok sample_intake"
  by (simp add: queues_ok_def sample_intake_def qp_inv_def create_execution_queues_def small_config_def ring_new_inv)

lemma sample_sel:
  "it_engine sample_intake = sample_engine" "it_queues sample_intake = Some (create_execution_queues small_config)"
  "it_risk_manager sample_intake = Some sample_stack" "it_venue_specs sample_intake = sample_specs"
  "it_market sample_intake = sample_books" "it_price_protection sample_intake = Map.empty"
  "ie_engine sample_intake_env = sample_engine_env" "ie_risk sample_intake_env = exact_risk_env"
  "ie_fixed sample_intake_env = fixed_price" "ee_dec sample_engine_env = exact_dec"
  "en_account_snapshot sample_engine = default_account_view" "en_order_manager sample_engine \<noteq> None"
  "en_portfolio_manager sample_engine \<noteq> None" "mode_of sample_engine = Normal"
  by (simp_all add: sample_intake_def sample_intake_env_def sample_engine_env_def sample_engine_def mode_of_def)

lemma sample_accepting: "ensure_accepting_new_intents sample_engine = Ok ()"
  by (simp add: ensure_accepting_new_intents_def sample_engine_def is_ready_def reservations_default_def mode_of_def)

lemma sample_protection: "it_price_protection s = Map.empty \<Longrightarrow> price_protection_for s i = CanonicalBook"
  by (simp add: price_protection_for_def bind_eq_Some_conv split: option.splits)

lemma sample_view: "engine_view sample_engine_env sample_engine = Some (Ok \<lparr>ae_account = default_account_view, ae_pending = []\<rparr>)"
  by (simp add: engine_view_def sample_engine_def sample_engine_env_def Let_def reservations_default_def default_checkpoint_def
      rr_view_def project_def List.map_filter_simps)

lemma sample_review:
  "\<exists>m'. review_risk_envelopes sample_intake_env (\<lambda>_. sample_clock) sample_intake [sample_reference] =
      Some (sample_intake\<lparr>it_risk_manager := Some m'\<rparr>, Ok [sample_reference])"
proof -
  obtain v where v: "from_envelope exact_dec sample_reference = Ok v" "v_quantity v = 2" "v_unit_price v = 101"
    using sample_value by blast
  have intent: "env_intent sample_reference = env_intent sample_envelope" by (simp add: sample_reference_eq)
  obtain m' where m': "rm_review_risk_context exact_risk_env sample_stack sample_clock [sample_reference] default_account_view
     default_account_view [] sample_specs = Some (m', [sample_reference])" using sample_admission [OF intent] by blast
  have limit: "in_order_type (env_intent sample_envelope) = Limit" by (simp add: sample_envelope_def intent_crypto_spot_def)
  obtain w where w: "add_to_view exact_dec v \<lparr>ae_account = default_account_view, ae_pending = []\<rparr> = Ok w"
    using v by (simp add: add_to_view_def add_remaining_to_view_def add_gross_def Let_def)
  show ?thesis
    using sample_sel by (intro exI [of _ m']) (simp add: review_risk_envelopes_def sample_view v(1) risk_request_def intent limit m' market_price_of_def w)
qed

text \<open>Any envelope of this value and identity that passes the gate is taken by the queue.\<close>

lemma sample_enqueued:
  assumes "from_envelope exact_dec f = Ok v" and "v_client_order_id v = ''c1''"
    and "validate_for_protection exact_dec f 300 None CanonicalBook = Ok ()"
  shows "\<exists>s'. enqueue_reserved_intent sample_intake_env (sample_intake\<lparr>it_risk_manager := rm\<rparr>) f 300 None = (s', Ok ())"
proof -
  have "\<exists>q. send_lifecycle_intent_with_price_protection exact_dec (create_execution_queues small_config) f 300 None CanonicalBook = (q, Ok ())"
    by (simp add: send_lifecycle_intent_with_price_protection_def assms(3) send_envelope_def try_push_def create_execution_queues_def
      small_config_def ring_new_def ring_next_def next_power_of_two_def Let_def bit_length.simps)
  moreover have "reserve (en_risk_reservations sample_engine) v = (put_queued (en_risk_reservations sample_engine) [''c1'' \<mapsto> v], Ok ())"
    using assms(2) by (simp add: reserve_def sample_engine_def reservations_default_def default_checkpoint_def)
  ultimately show ?thesis
    using sample_sel by (auto simp: enqueue_reserved_intent_def sample_accepting assms(1) sample_protection)
qed

lemma sample_submitted:
  "\<exists>s'. submit_order_intent_envelope sample_intake_env sample_clock sample_intake sample_envelope 300 None = Some (s', Ok ())"
proof -
  obtain m' where review: "review_risk_envelopes sample_intake_env (\<lambda>_. sample_clock) sample_intake [sample_reference] =
      Some (sample_intake\<lparr>it_risk_manager := Some m'\<rparr>, Ok [sample_reference])" using sample_review by blast
  obtain v where "from_envelope exact_dec sample_reference = Ok v" "v_client_order_id v = ''c1''" using sample_value by blast
  from sample_enqueued [OF this sample_gate] review show ?thesis
    using sample_sel by (auto simp: submit_order_intent_envelope_def sample_accepting Let_def sample_reference_def [symmetric]
        validate_intent_queue_gate_def sample_protection sample_gate submit_reviewed_def)
qed


definition sample_input :: market_input where
  "sample_input = \<lparr>mi_received_at = 100, mi_exchange_ts = None, mi_book = None, mi_event_sequence = None,
     mi_event_identity = None, mi_capture = Unspecified\<rparr>"

definition sample_dispatch_clock :: dispatch_clock where
  "sample_dispatch_clock = \<lparr>dc_pricing = (\<lambda>_. 300), dc_pre_risk = (\<lambda>_. 300), dc_review = (\<lambda>_. sample_clock), dc_completed = 7,
     dc_enqueue = (\<lambda>_. 300)\<rparr>"

lemma sample_limits: "apply_intent_execution_limits sample_intake (env_lifecycle sample_envelope) = env_lifecycle sample_reference"
  by (simp add: sample_reference_def referenced_envelope_def Let_def limit_envelope_def)

lemma sample_created: "(env_lifecycle sample_envelope)\<lparr>created_ts := 100\<rparr> = env_lifecycle sample_envelope"
  by (simp add: sample_envelope_def lifecycle_new_def default_lifecycle_def)

lemma sample_candidates: "candidates sample_intake_env sample_dispatch_clock sample_intake sample_input [sample_envelope] = [sample_reference]"
proof -
  have "prepare_envelope sample_intake_env sample_intake sample_input sample_envelope = sample_reference"
    using sample_sel sample_quote by (simp add: prepare_envelope_def limit_envelope_def sample_input_def sample_created sample_limits Let_def)
      (simp add: sample_reference_eq sample_intent_sel)
  moreover have "\<not> requires_arrival_quote (env_intent sample_reference)"
    by (simp add: requires_arrival_quote_def sample_reference_eq sample_envelope_def intent_crypto_spot_def)
  moreover have "validate_pre_risk exact_dec sample_reference 300 None = Ok ()"
    "validate_slippage_reference exact_dec sample_reference 300 (env_price_reference sample_reference) = Ok ()"
    unfolding sample_reference_eq by code_simp+
  ultimately show ?thesis
    using sample_sel by (simp add: candidates_def price_envelope_def pre_risk_gate_def sample_protection sample_dispatch_clock_def)
qed

definition sample_dispatched :: order_intent_envelope where
  "sample_dispatched = source_envelope sample_input (Some 7) sample_reference"

lemma sample_limited: "limit_envelope (sample_intake\<lparr>it_risk_manager := rm\<rparr>) sample_reference = sample_reference"
  by (simp add: limit_envelope_def sample_reference_eq apply_intent_execution_limits_def sample_intake_def tightened_def min_i32_def
      sample_envelope_def lifecycle_new_def default_lifecycle_def saturating_add_def Let_def)

lemma sample_dispatched_gate: "validate_for_protection exact_dec sample_dispatched 300 None CanonicalBook = Ok ()"
  unfolding sample_dispatched_def sample_reference_eq sample_input_def by code_simp

lemma sample_dispatched_value: "from_envelope exact_dec sample_dispatched = from_envelope exact_dec sample_reference"
  by (simp add: from_envelope_def envelope_prices_def sample_dispatched_def source_envelope_def)
    (simp add: sample_reference_eq sample_envelope_def intent_crypto_spot_def)

lemma sample_dispatch:
  "\<exists>s'. dispatch_intents sample_intake_env sample_dispatch_clock sample_intake sample_input [sample_envelope] [(0, i, ''c1'')] =
     Some (s', Ok [(0, i, Enqueued ''c1'')])"
proof -
  obtain m' where review: "review_risk_envelopes sample_intake_env (\<lambda>_. sample_clock) sample_intake [sample_reference] =
      Some (sample_intake\<lparr>it_risk_manager := Some m'\<rparr>, Ok [sample_reference])" using sample_review by blast
  let ?s = "sample_intake\<lparr>it_risk_manager := Some m'\<rparr>"
  obtain v where v: "from_envelope exact_dec sample_dispatched = Ok v" "v_client_order_id v = ''c1''"
    using sample_value sample_dispatched_value by auto
  obtain s1 where one: "enqueue_reserved_intent sample_intake_env ?s sample_dispatched 300 None = (s1, Ok ())"
    using sample_enqueued [OF v sample_dispatched_gate] by blast
  have id: "env_client_order_id sample_dispatched = ''c1''"
    by (simp add: sample_dispatched_def sample_reference_eq sample_envelope_def)
  have "\<exists>s'. send_reviewed sample_intake_env sample_dispatch_clock ?s sample_input (Some 7) [sample_reference] = (s', [''c1''])"
    using sample_sel one id
    by (simp add: send_reviewed_def Let_def sample_limited sample_dispatched_def [symmetric] sample_dispatch_clock_def)
      (simp add: sample_input_def)
  then show ?thesis
    using review by (auto simp: dispatch_intents_def sample_candidates feedback_of_def) (auto simp: sample_dispatch_clock_def feedback_of_def)
qed


end
