(* ===== verification/Intake_Exposure.thy ===== *)
theory Intake_Exposure
  imports Engine_Intake
begin

text \<open>
  The review of a batch against the caps of the risk manager. Each accepted envelope is added in gross to the view
  the next one is reviewed against, so the caps hold for the batch as a whole.
\<close>

subsection \<open>Adding to a view\<close>

lemma add_gross_dom:
  assumes "add_gross D view sm q p = Ok view'"
  shows "dom (av_positions view') = (if q = 0 then dom (av_positions view) else insert sm (dom (av_positions view)))"
  using assms by (auto simp: add_gross_def Let_def and_then_Ok_iff split: if_splits)

lemma add_gross_total:
  assumes "dec_exact D" and "finite (dom (av_positions view))" and "add_gross D view sm q p = Ok view'" and "0 \<le> q" and "0 \<le> p"
  shows "total_exposure view' = total_exposure view + q * p" and "finite (dom (av_positions view'))"
proof -
  let ?A = "insert sm (dom (av_positions view'))"
  have dom: "dom (av_positions view') = (if q = 0 then dom (av_positions view) else insert sm (dom (av_positions view)))"
    using add_gross_dom [OF assms(3)] .
  then show fin: "finite (dom (av_positions view'))" using assms(2) by simp
  have absent: "gross_exposure v x = 0" if "x \<notin> dom (av_positions v)" for v x
    using that by (auto simp: gross_exposure_def split: option.splits)
  have new: "total_exposure view' = (\<Sum>x \<in> ?A. gross_exposure view' x)"
    unfolding total_exposure_def using fin absent by (intro sum.mono_neutral_left) auto
  have old: "total_exposure view = (\<Sum>x \<in> ?A. gross_exposure view x)"
    unfolding total_exposure_def using fin absent dom by (intro sum.mono_neutral_left) (auto split: if_splits)
  have "(\<Sum>x \<in> ?A. gross_exposure view' x) = (\<Sum>x \<in> ?A. gross_exposure view x + (if x = sm then q * p else 0))"
    using add_gross_exact [OF assms(1,3,4,5)] by simp
  then show "total_exposure view' = total_exposure view + q * p"
    using new old fin by (simp add: sum.distrib)
qed

definition valued :: "valuation \<Rightarrow> decimal" where
  "valued v = v_quantity v * v_unit_price v"

lemma add_to_view_total:
  assumes "dec_exact D" and "finite (dom (av_positions (ae_account view)))" and "add_to_view D v view = Ok view'" and "valuation_wf v"
  shows "total_exposure (ae_account view') = total_exposure (ae_account view) + valued v"
    and "finite (dom (av_positions (ae_account view')))"
proof -
  obtain acc where acc: "add_gross D (ae_account view) (v_symbol v) (v_quantity v) (v_unit_price v) = Ok acc" "ae_account view' = acc"
    using assms(3,4) by (auto simp: add_to_view_def add_remaining_to_view_def and_then_Ok_iff valuation_wf_def)
  have "0 \<le> v_quantity v" "0 \<le> v_unit_price v" using assms(4) by (simp_all add: valuation_wf_def)
  from add_gross_total [OF assms(1,2) acc(1) this] acc(2)
  show "total_exposure (ae_account view') = total_exposure (ae_account view) + valued v"
    and "finite (dom (av_positions (ae_account view')))" by (simp_all add: valued_def)
qed

subsection \<open>Valuations of reviewed envelopes\<close>

text \<open>A market order is valued by its reference and slippage, whatever its price and quantity; a limit order by its price.\<close>

lemma from_envelope_market:
  assumes "same_envelope e g" and "in_order_type (env_intent e) = Market" and "from_envelope D e = Ok v" and "from_envelope D g = Ok w"
  shows "v_unit_price w = v_unit_price v"
proof -
  have sel: "in_order_type (env_intent g) = Market" "in_symbol (env_intent g) = in_symbol (env_intent e)"
    "in_side (env_intent g) = in_side (env_intent e)" "in_target_venue (env_intent g) = in_target_venue (env_intent e)"
    "env_lifecycle g = env_lifecycle e" "env_price_reference g = env_price_reference e"
    using assms(1,2) by (cases e; cases g; auto simp: same_envelope_def same_order_sel)+
  then have "envelope_prices D g = envelope_prices D e" using assms(2)
    by (simp add: envelope_prices_def Let_def cong: if_cong)
  then show ?thesis using assms(3,4) by (auto simp: from_envelope_def and_then_Ok_iff Let_def ok_or_def split: option.splits)
qed

lemma from_envelope_limit:
  "in_order_type (env_intent g) = Limit \<Longrightarrow> from_envelope D g = Ok w \<Longrightarrow> in_price (env_intent g) = Some (v_unit_price w)"
  by (auto simp: from_envelope_def envelope_prices_def and_then_Ok_iff Let_def ok_or_def split: option.splits)

lemma from_envelope_quantity: "from_envelope D g = Ok w \<Longrightarrow> v_quantity w = in_quantity (env_intent g)"
  by (auto simp: from_envelope_def and_then_Ok_iff Let_def)

lemma market_bound_ge:
  assumes "dec_exact (ie_dec E)" and "\<And>x. x \<le> rk_ceil (ie_risk E) x" and "market_bound E specs i b = Some p"
  shows "b \<le> p"
proof (cases "spec_tick (ie_risk E) specs i")
  case None
  then show ?thesis using assms(3) by (simp add: market_bound_def)
next
  case (Some tick)
  then have pos: "0 < tick" by (auto simp: spec_tick_def Let_def split: option.splits if_splits)
  obtain x where x: "d_div (ie_dec E) b tick = Some x" "d_mul (ie_dec E) (rk_ceil (ie_risk E) x) tick = Some p"
    using assms(3) Some by (auto simp: market_bound_def bind_eq_Some_conv)
  then have "x = b / tick" "p = rk_ceil (ie_risk E) x * tick" using dec_exactD(3,4) [OF assms(1)] by auto
  moreover have "x * tick \<le> rk_ceil (ie_risk E) x * tick" using assms(2) pos by (intro mult_right_mono) auto
  ultimately show ?thesis using pos by simp
qed

text \<open>Rounding to the tick of no venue changes the price of a limit order.\<close>

definition on_tick :: "intake_env \<Rightarrow> venue_specs \<Rightarrow> order_intent_envelope \<Rightarrow> bool" where
  "on_tick E specs e \<longleftrightarrow> (in_order_type (env_intent e) = Limit \<longrightarrow>
     (\<forall>p sp. in_price (env_intent e) = Some p \<longrightarrow> sp \<in> ran specs \<longrightarrow> normalize_price (ie_risk E) p (tick_size sp) = Some p))"

lemma accepted_value:
  assumes "dec_exact (ie_dec E)" and "\<And>x. x \<le> rk_ceil (ie_risk E) x" and "on_tick E specs env"
    and "from_envelope (ie_dec E) env = Ok v" and "risk_request E specs env v = Some req" and "same_envelope req f"
    and "g = (case market_price_of env v of None \<Rightarrow> f | Some (p, _) \<Rightarrow> put_price f p)" and "from_envelope (ie_dec E) g = Ok w"
    and "capped (ie_risk E) specs mp mn ex req f"
  shows "total_exposure ex + valued w \<le> mn"
proof -
  obtain p where p: "in_price (env_intent req) = Some p" "0 < p" "0 \<le> in_quantity (env_intent f)"
    "total_exposure ex + in_quantity (env_intent f) * p \<le> mn"
    and tick: "\<exists>sp \<in> ran specs. normalize_price (ie_risk E) p (tick_size sp) \<noteq> None \<and>
       in_price (env_intent f) = normalize_price (ie_risk E) p (tick_size sp)"
    using assms(9) by (auto simp: capped_def)
  have q: "v_quantity w = in_quantity (env_intent f)"
    using from_envelope_quantity [OF assms(8)] assms(7) by (auto split: option.splits)
  have same: "same_envelope env g"
    using same_envelope_trans [OF same_envelope_trans [OF risk_request_same [OF assms(5)] assms(6)]] assms(7) same_envelope_put_price
    by (auto split: option.splits)
  have "v_unit_price w \<le> p"
  proof (cases "in_order_type (env_intent env)")
    case Market
    then have "market_bound E specs (env_intent env) (v_unit_price v) = Some p" using assms(5) p(1) by (auto simp: risk_request_def)
    then show ?thesis
      using market_bound_ge [OF assms(1,2)] from_envelope_market [OF same Market assms(4,8)] by simp
  next
    case Limit
    then have "req = env" "g = f" using assms(5,7) by (simp_all add: risk_request_def market_price_of_def)
    moreover have "in_order_type (env_intent g) = Limit" using same Limit by (simp add: same_envelope_def same_order_sel)
    ultimately show ?thesis
      using from_envelope_limit [OF _ assms(8)] tick assms(3) Limit p(1) by (auto simp: on_tick_def)
  qed
  then have "in_quantity (env_intent f) * v_unit_price w \<le> in_quantity (env_intent f) * p" using p(3) by (intro mult_left_mono)
  then show ?thesis using p(4) q by (simp add: valued_def)
qed

subsection \<open>The batch\<close>

text \<open>A reviewer that holds caps, as the engine relies on it.\<close>

locale capped_reviewer = risk_reviewer env_ok review_with
  for env_ok :: "risk_env \<Rightarrow> bool" and review_with :: "risk_env \<Rightarrow> 'm reviewer" +
  fixes holds :: "decimal \<Rightarrow> decimal \<Rightarrow> 'm \<Rightarrow> bool"
  assumes holds_stays: "holds mp mn m \<Longrightarrow> review_with R m c es av ex pending specs = Some (m', fs) \<Longrightarrow> holds mp mn m'"
    and holds_capped: "env_ok R \<Longrightarrow> specs_valid specs \<Longrightarrow> finite (dom (av_positions ex)) \<Longrightarrow> holds mp mn m \<Longrightarrow>
      review_with R m c [e] av ex pending specs = Some (m', fs) \<Longrightarrow> f \<in> set fs \<Longrightarrow> capped R specs mp mn ex e f"
begin

lemma review_each_capped:
  assumes "env_ok (ie_risk E)" and "dec_exact (ie_dec E)" and "\<And>x. x \<le> rk_ceil (ie_risk E) x" and "specs_valid specs"
  shows "review_each (review_with (ie_risk E)) E clk account specs k m view envs = Some (m', Ok fs) \<Longrightarrow>
    list_all (on_tick E specs) envs \<Longrightarrow> finite (dom (av_positions (ae_account view))) \<Longrightarrow> holds mp mn m \<Longrightarrow>
    \<exists>vs. list_all2 (\<lambda>f v. from_envelope (ie_dec E) f = Ok v) fs vs \<and>
      (fs \<noteq> [] \<longrightarrow> total_exposure (ae_account view) + sum_list (map valued vs) \<le> mn)"
proof (induction envs arbitrary: k m view fs)
  case (Cons env envs)
  have ticks: "list_all (on_tick E specs) envs" using Cons.prems(2) by simp
  from assms(1) Cons.prems(1) show ?case
  proof (cases rule: review_each_Cons)
    case skipped
    then show ?thesis using Cons.IH ticks Cons.prems(3,4) by blast
  next
    case (rejected req m1 reviewed)
    from Cons.IH [OF rejected(2) ticks Cons.prems(3) holds_stays [OF Cons.prems(4) rejected(1)]] show ?thesis .
  next
    case (accepted v req m1 f g w view' r')
    then obtain gs where gs: "r' = Ok gs" "fs = g # gs" by (cases r') auto
    have m1: "holds mp mn m1" using holds_stays [OF Cons.prems(4) accepted(3)] .
    have "capped (ie_risk E) specs mp mn (ae_account view) req f"
      using holds_capped [OF assms(1,4) Cons.prems(3,4) accepted(3)] by simp
    from accepted_value [OF assms(2,3) _ accepted(1,2,4,5,7) this] Cons.prems(2)
    have one: "total_exposure (ae_account view) + valued w \<le> mn" by simp
    have wf: "valuation_wf w" using from_envelope_Ok [OF accepted(7)] by simp
    note total = add_to_view_total [OF assms(2) Cons.prems(3) accepted(8) wf]
    from Cons.IH [OF accepted(9) [unfolded gs(1)] ticks total(2) m1] obtain vs where
      vs: "list_all2 (\<lambda>f v. from_envelope (ie_dec E) f = Ok v) gs vs"
      "gs \<noteq> [] \<longrightarrow> total_exposure (ae_account view') + sum_list (map valued vs) \<le> mn" by blast
    show ?thesis
      using gs(2) accepted(7) vs one total(1) by (intro exI [of _ "w # vs"]) (cases "gs = []"; auto)
  qed simp
qed simp

end

interpretation cr: capped_reviewer risk_env_exact rm_review_risk_context guarded
proof
  show "envelopes_kept [e] fs" if "risk_env_exact R" "rm_review_risk_context R m c [e] av ex pending specs = Some (m', fs)"
    for R m c e av ex pending specs m' fs
    using rm_review_risk_context_kept [of R] that unfolding risk_env_exact_def by blast
qed (rule guarded_stays, assumption+, rule guarded_admission, assumption+)



end
