(* ===== verification/Account_Reconciliation.thy ===== *)
theory Account_Reconciliation
  imports Engine_Halt "HOL-Library.Option_ord"
begin

text \<open>
  The comparison of the engine's accounts with what the venues report
  (\<open>market-core/engine/src/execution_control.rs\<close>, with the snapshot types of
  \<open>market-core/engine/src/execution_worker.rs\<close> and of \<open>market-core/ports/src/traits.rs\<close>): balances, recent
  fills, the inventory of a spot wallet and positions. An addition of decimals panics on overflow: the outer option.
  A diagnostic is the template of its text with the values put into it; the code keeps them as text, in the
  order of the text where it keeps a set.
\<close>

subsection \<open>Snapshots\<close>

datatype asset_inventory_capability =
    PositionSnapshotRequired
  | AuthoritativeAssetInventory product_type
  | UnsupportedInventory

datatype account_execution_environment = EnvTestnet | EnvLive

datatype account_readback_state = ReadbackEnabled | ReadbackRestricted | ReadbackDisabled

record account_external_readback =
  xr_state :: account_readback_state
  xr_balances :: "account_balance list"
  xr_capability :: account_capability
  xr_regional_compliance_attestation_id :: string
  xr_receipt_id :: string
  xr_evidence_digest :: string
  xr_validated_at :: timestamp
  xr_valid_until :: timestamp

record account_execution_admission =
  xa_account_id :: account_id
  xa_venue :: venue_id
  xa_product_type :: product_type
  xa_environment :: account_execution_environment
  xa_credential_reference :: string
  xa_readback :: account_external_readback
  xa_max_order_notional :: decimal
  xa_max_open_orders :: usize
  xa_kill_switch_active :: bool
  xa_ready :: bool

record account_fill =
  fi_fill_id :: string
  fi_order_id :: order_id
  fi_symbol :: symbol
  fi_side :: side
  fi_price :: price
  fi_quantity :: quantity
  fi_fee :: "decimal option"
  fi_timestamp :: timestamp

record account_client_snapshot = client_reconcile_snapshot +
  cs_client_index :: usize
  cs_account_environment :: "account_execution_environment option"
  cs_account_admission :: "account_execution_admission option"
  cs_balances :: "(hft_error + account_balance list) option"
  cs_positions :: "(hft_error + position list) option"
  cs_recent_fills :: "(hft_error + account_fill list) option"
  cs_asset_inventory_capability :: "asset_inventory_capability option"
  cs_asset_inventory :: "(hft_error + asset_inventory_record list) option"

type_synonym worker_reconcile_snapshot = "account_client_snapshot list"

fun snapshot_account_id :: "worker_reconcile_snapshot \<Rightarrow> account_id option" where
  "snapshot_account_id [] = None"
| "snapshot_account_id (cl # cls) =
     (case cs_account_id cl of
        None \<Rightarrow> None
      | Some a \<Rightarrow> if list_all (\<lambda>c. cs_account_id c = Some a) cls then Some a else None)"

definition snapshot_is_complete :: "worker_reconcile_snapshot \<Rightarrow> bool" where
  "snapshot_is_complete cls \<longleftrightarrow> cls \<noteq> [] \<and>
     list_all (\<lambda>cl. is_ok (cs_open_orders cl) \<and> is_ok (cs_cancellable_orders cl) \<and> is_none_or is_ok (cs_balances cl) \<and>
       is_none_or is_ok (cs_positions cl) \<and> is_none_or is_ok (cs_recent_fills cl)) cls"

definition resolved_asset_inventory_capability :: "account_client_snapshot \<Rightarrow> asset_inventory_capability" where
  "resolved_asset_inventory_capability cl = unwrap_or UnsupportedInventory (cs_asset_inventory_capability cl)"

definition spot_inventory :: "account_client_snapshot \<Rightarrow> bool" where
  "spot_inventory cl \<longleftrightarrow> resolved_asset_inventory_capability cl = AuthoritativeAssetInventory Spot"

text \<open>The iterators stop at the first failure.\<close>

fun all_records_valid :: "dec_ops \<Rightarrow> asset_inventory_record list \<Rightarrow> bool option" where
  "all_records_valid D [] = Some True"
| "all_records_valid D (r # rs) =
     do { v \<leftarrow> inventory_validate D r; if is_ok v then all_records_valid D rs else Some False }"

definition client_holdings_complete :: "dec_ops \<Rightarrow> account_client_snapshot \<Rightarrow> bool option" where
  "client_holdings_complete D cl =
     (case resolved_asset_inventory_capability cl of
        PositionSnapshotRequired \<Rightarrow> Some (is_some_and is_ok (cs_positions cl))
      | AuthoritativeAssetInventory Spot \<Rightarrow>
          (case cs_asset_inventory cl of Some (Inr rs) \<Rightarrow> all_records_valid D rs | _ \<Rightarrow> Some False)
      | AuthoritativeAssetInventory _ \<Rightarrow> Some False
      | UnsupportedInventory \<Rightarrow> Some False)"

fun clients_holdings_complete :: "dec_ops \<Rightarrow> worker_reconcile_snapshot \<Rightarrow> bool option" where
  "clients_holdings_complete D [] = Some True"
| "clients_holdings_complete D (cl # cls) =
     do { ok \<leftarrow> client_holdings_complete D cl; if ok then clients_holdings_complete D cls else Some False }"

definition account_holdings_complete :: "dec_ops \<Rightarrow> worker_reconcile_snapshot \<Rightarrow> bool option" where
  "account_holdings_complete D cls = (if cls = [] then Some False else clients_holdings_complete D cls)"

datatype diagnostic = Diag string "usize option" "string list" "hft_error option"

abbreviation general_note :: "string \<Rightarrow> diagnostic" where
  "general_note text \<equiv> Diag text None [] None"

abbreviation client_note :: "string \<Rightarrow> account_client_snapshot \<Rightarrow> diagnostic" where
  "client_note text cl \<equiv> Diag text (Some (cs_client_index cl)) [] None"

definition decimal_abs :: "decimal \<Rightarrow> decimal" where
  "decimal_abs v = (if v < 0 then - v else v)"

subsection \<open>Balances\<close>

record balance_report =
  br_local_equity_usd :: decimal
  br_exchange_equity_usd :: "decimal option"
  br_difference_usd :: "decimal option"
  br_tolerance_usd :: decimal
  br_missing_valuations :: "(usize \<times> string) list"
  br_client_errors :: "diagnostic list"
  br_complete :: bool
  br_healthy :: bool

fun value_balances :: "dec_ops \<Rightarrow> usize \<Rightarrow> account_balance list \<Rightarrow> decimal \<times> (usize \<times> string) list
   \<Rightarrow> (decimal \<times> (usize \<times> string) list) option" where
  "value_balances D i [] acc = Some acc"
| "value_balances D i (b # bs) (tally, missing) =
     (case bal_usd_value b of
        Some v \<Rightarrow> do { t \<leftarrow> d_add D tally v; value_balances D i bs (t, missing) }
      | None \<Rightarrow>
          value_balances D i bs (tally,
            if bal_total b \<noteq> 0 \<or> bal_available b \<noteq> 0 \<or> bal_frozen b \<noteq> 0 then missing @ [(i, bal_asset b)] else missing))"

fun value_clients :: "dec_ops \<Rightarrow> worker_reconcile_snapshot \<Rightarrow> decimal \<times> (usize \<times> string) list \<Rightarrow> diagnostic list
   \<Rightarrow> (decimal \<times> (usize \<times> string) list \<times> diagnostic list) option" where
  "value_clients D [] (tally, missing) errs = Some (tally, missing, errs)"
| "value_clients D (cl # cls) acc errs =
     (case cs_balances cl of
        None \<Rightarrow> value_clients D cls acc (errs @ [client_note ''did not return a balance snapshot'' cl])
      | Some (Inl e) \<Rightarrow>
          value_clients D cls acc (errs @ [Diag ''balance snapshot failed'' (Some (cs_client_index cl)) [] (Some e)])
      | Some (Inr bs) \<Rightarrow> do { acc \<leftarrow> value_balances D (cs_client_index cl) bs acc; value_clients D cls acc errs })"

definition reconcile_balances :: "dec_ops \<Rightarrow> worker_reconcile_snapshot \<Rightarrow> decimal \<Rightarrow> decimal \<Rightarrow> balance_report option" where
  "reconcile_balances D cls local_equity tolerance = do {
     (exchange_equity, missing, errs) \<leftarrow> value_clients D cls (0, [])
        (if cls = [] then [general_note ''no execution clients returned balance snapshots''] else []);
     let complete = (errs = [] \<and> missing = []);
     difference \<leftarrow> (if complete then map_option (\<lambda>d. Some (decimal_abs d)) (d_sub D local_equity exchange_equity) else Some None);
     Some \<lparr>br_local_equity_usd = local_equity,
           br_exchange_equity_usd = (if complete then Some exchange_equity else None),
           br_difference_usd = difference, br_tolerance_usd = tolerance, br_missing_valuations = missing,
           br_client_errors = errs, br_complete = complete,
           br_healthy = is_some_and (\<lambda>d. d \<le> tolerance) difference\<rparr> }"

subsection \<open>Recent fills\<close>

record fill_report =
  fr_exchange_only_fill_ids :: "string list"
  fr_client_errors :: "diagnostic list"
  fr_complete :: bool
  fr_healthy :: bool

fun order_id_text :: "order_id \<Rightarrow> string" where
  "order_id_text (OrderId s) = s"

definition fill_known :: "(order_id \<rightharpoonup> string set) \<Rightarrow> account_fill \<Rightarrow> bool" where
  "fill_known processed f \<longleftrightarrow> is_some_and (\<lambda>ids. fi_fill_id f \<in> ids) (processed (fi_order_id f))"

record fill_scan =
  fs_exchange_only :: "string list"
  fs_errors :: "diagnostic list"
  fs_observed :: "(order_id \<times> string) set"

definition scan_fill :: "(order_id \<rightharpoonup> string set) \<Rightarrow> usize \<Rightarrow> account_fill \<Rightarrow> fill_scan \<Rightarrow> fill_scan" where
  "scan_fill processed i f sc =
     (if fi_fill_id f = [] then sc\<lparr>fs_errors := fs_errors sc @ [Diag ''returned a recent fill without fill_id'' (Some i) [] None]\<rparr>
      else if (fi_order_id f, fi_fill_id f) \<in> fs_observed sc
      then sc\<lparr>fs_errors := fs_errors sc @
             [Diag ''duplicate authoritative fill identity'' None [order_id_text (fi_order_id f), fi_fill_id f] None]\<rparr>
      else sc\<lparr>fs_observed := insert (fi_order_id f, fi_fill_id f) (fs_observed sc),
              fs_exchange_only := (if fill_known processed f then fs_exchange_only sc
                else fs_exchange_only sc @ [order_id_text (fi_order_id f) @ '':'' @ fi_fill_id f])\<rparr>)"

definition scan_client_fills :: "(order_id \<rightharpoonup> string set) \<Rightarrow> account_client_snapshot \<Rightarrow> fill_scan \<Rightarrow> fill_scan" where
  "scan_client_fills processed cl sc =
     (case cs_recent_fills cl of
        None \<Rightarrow> sc\<lparr>fs_errors := fs_errors sc @ [client_note ''does not support authoritative recent fills'' cl]\<rparr>
      | Some (Inl e) \<Rightarrow>
          sc\<lparr>fs_errors := fs_errors sc @ [Diag ''recent-fill snapshot failed'' (Some (cs_client_index cl)) [] (Some e)]\<rparr>
      | Some (Inr fills) \<Rightarrow> fold (scan_fill processed (cs_client_index cl)) fills sc)"

definition reconcile_recent_fills :: "worker_reconcile_snapshot \<Rightarrow> (order_id \<rightharpoonup> string set) \<Rightarrow> fill_report" where
  "reconcile_recent_fills cls processed =
     (let sc = fold (scan_client_fills processed) cls
           \<lparr>fs_exchange_only = [],
            fs_errors = (if cls = [] then [general_note ''no execution clients returned recent-fill snapshots''] else []),
            fs_observed = {}\<rparr>;
          complete = (fs_errors sc = [])
      in \<lparr>fr_exchange_only_fill_ids = sort (fs_exchange_only sc), fr_client_errors = fs_errors sc,
          fr_complete = complete, fr_healthy = (complete \<and> sort (fs_exchange_only sc) = [])\<rparr>)"

subsection \<open>Spot wallets\<close>

fun inventory_value :: "dec_ops \<Rightarrow> (string \<rightharpoonup> asset_inventory_record) \<Rightarrow> string list \<Rightarrow> decimal \<Rightarrow> decimal option option" where
  "inventory_value D m [] tally = Some (Some tally)"
| "inventory_value D m (k # ks) tally =
     (case m k of
        None \<Rightarrow> inventory_value D m ks tally
      | Some r \<Rightarrow> do {
          v \<leftarrow> inventory_validate D r;
          (if is_ok v then do { t \<leftarrow> d_add D tally (unwrap_or 0 (inv_usd_value r)); inventory_value D m ks t }
           else Some None) })"

definition spot_inventory_account_value ::
  "dec_ops \<Rightarrow> string list \<Rightarrow> worker_reconcile_snapshot \<Rightarrow> account_view \<Rightarrow> decimal option option" where
  "spot_inventory_account_value D iks cls av =
     (case cls of
        [cl] \<Rightarrow>
          if \<not> spot_inventory cl \<or> av_account_id av = None \<or> cs_account_id cl \<noteq> av_account_id av then Some None
          else inventory_value D (av_asset_inventory av) iks 0
      | _ \<Rightarrow> Some None)"

fun admitted_inventory :: "dec_ops \<Rightarrow> account_balance list \<Rightarrow> (string \<rightharpoonup> asset_inventory_record)
   \<Rightarrow> (diagnostic + (string \<rightharpoonup> asset_inventory_record)) option" where
  "admitted_inventory D [] m = Some (Ok m)"
| "admitted_inventory D (b # bs) m = do {
     r \<leftarrow> inventory_try_from D b;
     (case r of
        Inl e \<Rightarrow> Some (Err (Diag ''account admission asset inventory is malformed'' None [] (Some e)))
      | Inr r \<Rightarrow>
          if m (inv_asset r) \<noteq> None then Some (Err (general_note ''account admission has duplicate authoritative Spot assets''))
          else admitted_inventory D bs (m(inv_asset r \<mapsto> r))) }"

text \<open>The checks on the admission record of the wallet, in the order of the code.\<close>

definition admission_refusal ::
  "worker_reconcile_snapshot \<Rightarrow> account_client_snapshot \<Rightarrow> account_id \<Rightarrow> account_execution_environment
   \<Rightarrow> account_execution_admission \<Rightarrow> account_view \<Rightarrow> timestamp \<Rightarrow> diagnostic option" where
  "admission_refusal cls cl aid envr xa av now =
     (let rb = xa_readback xa
      in if xa_account_id xa \<noteq> aid then Some (general_note ''account admission identity does not match authoritative Spot inventory'')
         else if Some (xa_venue xa) \<noteq> cs_venue cl then Some (general_note ''account admission venue does not match authoritative Spot inventory'')
         else if xa_product_type xa \<noteq> Spot then Some (general_note ''account admission product does not match authoritative Spot inventory'')
         else if xa_environment xa \<noteq> envr then Some (general_note ''account admission environment does not match authoritative Spot inventory'')
         else if is_some_and (\<lambda>a. a \<noteq> aid) (av_account_id av)
         then Some (general_note ''authoritative Spot inventory would rebind the local account identity'')
         else if \<not> xa_ready xa \<or> xa_kill_switch_active xa
         then Some (general_note ''account admission is not ready to publish authoritative Spot inventory'')
         else if blank (xa_credential_reference xa) then Some (general_note ''account admission has no opaque credential reference'')
         else if xr_state rb \<noteq> ReadbackEnabled then Some (general_note ''account admission readback is not enabled'')
         else if blank (xr_regional_compliance_attestation_id rb) \<or> blank (xr_receipt_id rb) \<or> blank (xr_evidence_digest rb)
         then Some (general_note ''account admission has incomplete readback evidence'')
         else if xr_validated_at rb = 0 \<or> now < xr_validated_at rb \<or> xr_valid_until rb < xr_validated_at rb \<or> xr_valid_until rb < now
         then Some (general_note ''account admission readback is stale or invalid'')
         else if \<not> can_trade_crypto_spot (xr_capability rb)
         then Some (general_note ''account admission capability does not permit crypto Spot'')
         else if xa_max_order_notional xa \<le> 0 \<or> xa_max_open_orders xa = 0
         then Some (general_note ''account admission limits are not positive'')
         else if xr_balances rb = [] then Some (general_note ''account admission has no authoritative Spot assets'')
         else None)"

text \<open>The new view, when there is one to publish.\<close>

definition apply_bybit_spot_admission_backed_inventory ::
  "dec_ops \<Rightarrow> worker_reconcile_snapshot \<Rightarrow> account_view \<Rightarrow> timestamp \<Rightarrow> (diagnostic + account_view option) option" where
  "apply_bybit_spot_admission_backed_inventory D cls av now =
     (case filter (\<lambda>cl. cs_venue cl = Some BYBIT \<and> spot_inventory cl) cls of
        [] \<Rightarrow> Some (Ok None)
      | cl # _ # _ \<Rightarrow> Some (Err (general_note ''local asset inventory cannot be written from multiple authoritative Spot clients''))
      | [cl] \<Rightarrow>
          (case cs_account_id cl of
             None \<Rightarrow> Some (Err (general_note ''authoritative Spot inventory has no canonical account identity''))
           | Some aid \<Rightarrow>
               if snapshot_account_id cls \<noteq> Some aid
               then Some (Err (general_note ''authoritative Bybit Spot inventory has no single canonical account scope''))
               else case cs_account_environment cl of
                 None \<Rightarrow> Some (Err (general_note ''authoritative Spot inventory has no canonical environment''))
               | Some envr \<Rightarrow>
                   (case cs_account_admission cl of
                      None \<Rightarrow> Some (Err (general_note ''authoritative Spot inventory has no runtime account admission evidence''))
                    | Some xa \<Rightarrow>
                        (case admission_refusal cls cl aid envr xa av now of
                           Some d \<Rightarrow> Some (Err d)
                         | None \<Rightarrow> do {
                             inv \<leftarrow> admitted_inventory D (xr_balances (xa_readback xa)) Map.empty;
                             Some (and_then inv (\<lambda>m. Ok (Some (av\<lparr>av_account_id := Some aid, av_asset_inventory := m\<rparr>)))) }))))"

subsection \<open>Inventory\<close>

record inventory_mismatch =
  im_asset :: string
  im_local :: asset_inventory_record
  im_exchange :: asset_inventory_record

record inventory_report =
  ir_local_only :: "string list"
  ir_exchange_only :: "string list"
  ir_amount_mismatch :: "inventory_mismatch list"
  ir_client_errors :: "diagnostic set"
  ir_complete :: bool
  ir_healthy :: bool

definition capability_error :: "account_client_snapshot \<Rightarrow> diagnostic set" where
  "capability_error cl =
     (case resolved_asset_inventory_capability cl of
        AuthoritativeAssetInventory Spot \<Rightarrow> {}
      | AuthoritativeAssetInventory _ \<Rightarrow> {client_note ''declared asset inventory outside the Spot product scope'' cl}
      | PositionSnapshotRequired \<Rightarrow> {}
      | UnsupportedInventory \<Rightarrow> {client_note ''has unsupported or unknown account-holdings capability'' cl})"

fun scan_records :: "dec_ops \<Rightarrow> usize \<Rightarrow> asset_inventory_record list \<Rightarrow> (string \<rightharpoonup> asset_inventory_record) \<times> diagnostic set
   \<Rightarrow> ((string \<rightharpoonup> asset_inventory_record) \<times> diagnostic set) option" where
  "scan_records D i [] acc = Some acc"
| "scan_records D i (r # rs) (m, errs) = do {
     v \<leftarrow> inventory_validate D r;
     (case v of
        Inl e \<Rightarrow> scan_records D i rs (m, insert (Diag ''malformed asset inventory'' (Some i) [inv_asset r] (Some e)) errs)
      | Inr _ \<Rightarrow> scan_records D i rs (m(inv_asset r \<mapsto> r),
            if m (inv_asset r) \<noteq> None
            then insert (Diag ''duplicate authoritative asset inventory identity'' (Some i) [inv_asset r] None) errs else errs)) }"

definition scan_inventory_client :: "dec_ops \<Rightarrow> account_view \<Rightarrow> account_client_snapshot
   \<Rightarrow> (string \<rightharpoonup> asset_inventory_record) \<times> diagnostic set \<Rightarrow> ((string \<rightharpoonup> asset_inventory_record) \<times> diagnostic set) option" where
  "scan_inventory_client D av cl acc =
     (let (m, errs) = acc;
          errs = (if cs_venue cl = None \<or> cs_account_id cl = None
            then insert (client_note ''asset inventory is missing immutable venue/product/account mapping'' cl) errs else errs);
          errs = (if cs_account_id cl \<noteq> av_account_id av
            then insert (client_note ''asset inventory account identity does not match the local account'' cl) errs else errs)
      in case cs_asset_inventory cl of
           None \<Rightarrow> Some (m, insert (client_note ''did not return an authoritative asset inventory'' cl) errs)
         | Some (Inl e) \<Rightarrow> Some (m, insert (Diag ''asset inventory snapshot failed'' (Some (cs_client_index cl)) [] (Some e)) errs)
         | Some (Inr rs) \<Rightarrow> scan_records D (cs_client_index cl) rs (m, errs))"

fun scan_inventory_clients :: "dec_ops \<Rightarrow> account_view \<Rightarrow> worker_reconcile_snapshot
   \<Rightarrow> (string \<rightharpoonup> asset_inventory_record) \<times> diagnostic set \<Rightarrow> ((string \<rightharpoonup> asset_inventory_record) \<times> diagnostic set) option" where
  "scan_inventory_clients D av [] acc = Some acc"
| "scan_inventory_clients D av (cl # cls) acc =
     do { acc \<leftarrow> scan_inventory_client D av cl acc; scan_inventory_clients D av cls acc }"

fun scan_local_inventory :: "dec_ops \<Rightarrow> (string \<rightharpoonup> asset_inventory_record) \<Rightarrow> string list \<Rightarrow> diagnostic set \<Rightarrow> diagnostic set option" where
  "scan_local_inventory D m [] errs = Some errs"
| "scan_local_inventory D m (k # ks) errs =
     (case m k of
        None \<Rightarrow> scan_local_inventory D m ks errs
      | Some r \<Rightarrow> do {
          let errs = (if k \<noteq> inv_asset r
            then insert (Diag ''local asset inventory key does not match asset identity'' None [k, inv_asset r] None) errs else errs);
          v \<leftarrow> inventory_validate D r;
          scan_local_inventory D m ks
            (case v of Inl e \<Rightarrow> insert (Diag ''local asset inventory is malformed'' None [k] (Some e)) errs | Inr _ \<Rightarrow> errs) })"

definition amounts_differ :: "asset_inventory_record \<Rightarrow> asset_inventory_record \<Rightarrow> bool" where
  "amounts_differ l x \<longleftrightarrow> inv_available l \<noteq> inv_available x \<or> inv_locked l \<noteq> inv_locked x \<or> inv_total l \<noteq> inv_total x \<or>
     inv_usd_value l \<noteq> inv_usd_value x"

definition inventory_scope_errors :: "worker_reconcile_snapshot \<Rightarrow> account_view \<Rightarrow> diagnostic set" where
  "inventory_scope_errors cls av =
     (let errs = (\<Union>cl\<in>set cls. capability_error cl);
          errs = (if 1 < length (filter spot_inventory cls)
            then insert (general_note ''local asset inventory cannot be scoped across multiple authoritative venue/account clients'') errs
            else errs)
      in if av_account_id av = None
         then insert (general_note ''local asset inventory has no immutable account identity'') errs else errs)"

definition inventory_mismatch_of ::
  "(string \<rightharpoonup> asset_inventory_record) \<Rightarrow> (string \<rightharpoonup> asset_inventory_record) \<Rightarrow> string \<Rightarrow> inventory_mismatch option" where
  "inventory_mismatch_of local exchange a =
     (case (local a, exchange a) of
        (Some l, Some x) \<Rightarrow> if amounts_differ l x then Some \<lparr>im_asset = a, im_local = l, im_exchange = x\<rparr> else None
      | _ \<Rightarrow> None)"

definition inventory_report_of ::
  "(string \<rightharpoonup> asset_inventory_record) \<Rightarrow> (string \<rightharpoonup> asset_inventory_record) \<Rightarrow> diagnostic set \<Rightarrow> inventory_report" where
  "inventory_report_of local exchange errs =
     (let assets = sorted_list_of_set (dom local \<union> dom exchange);
          local_only = sort (filter (\<lambda>a. local a \<noteq> None \<and> exchange a = None) assets);
          exchange_only = sort (filter (\<lambda>a. local a = None \<and> exchange a \<noteq> None) assets);
          mismatch = List.map_filter (inventory_mismatch_of local exchange) assets;
          complete = (errs = {})
      in \<lparr>ir_local_only = local_only, ir_exchange_only = exchange_only, ir_amount_mismatch = mismatch,
          ir_client_errors = errs, ir_complete = complete,
          ir_healthy = (complete \<and> local_only = [] \<and> exchange_only = [] \<and> mismatch = [])\<rparr>)"

definition reconcile_asset_inventory ::
  "dec_ops \<Rightarrow> string list \<Rightarrow> worker_reconcile_snapshot \<Rightarrow> account_view \<Rightarrow> inventory_report option option" where
  "reconcile_asset_inventory D iks cls av =
     (let auth = filter spot_inventory cls
      in if auth = [] \<and> (\<Union>cl\<in>set cls. capability_error cl) = {} then Some None
         else do {
           (exchange, errs) \<leftarrow> scan_inventory_clients D av auth (Map.empty, inventory_scope_errors cls av);
           errs \<leftarrow> scan_local_inventory D (av_asset_inventory av) iks errs;
           Some (Some (inventory_report_of (av_asset_inventory av) exchange errs)) })"

subsection \<open>Positions\<close>

record venue_positions =
  vp_quantities :: "string \<rightharpoonup> decimal"
  vp_blockers :: "diagnostic list"

record quantity_difference =
  qd_symbol :: symbol
  qd_local_quantity :: quantity
  qd_exchange_quantity :: quantity

record position_report =
  pr_local_only :: "symbol list"
  pr_exchange_only :: "symbol list"
  pr_quantity_mismatch :: "quantity_difference list"
  pr_client_errors :: "diagnostic set"
  pr_complete :: bool
  pr_healthy :: bool

fun symbol_text :: "symbol \<Rightarrow> string" where
  "symbol_text (Symbol s) = s"

definition is_polymarket_token_symbol :: "string \<Rightarrow> bool" where
  "is_polymarket_token_symbol s \<longleftrightarrow> s \<noteq> [] \<and> list_all (\<lambda>c. 48 \<le> (of_char c :: nat) \<and> (of_char c :: nat) \<le> 57) s \<and>
     s \<noteq> ''0'' \<and> hd s \<noteq> CHR ''0''"

fun add_quantities :: "dec_ops \<Rightarrow> position list \<Rightarrow> (string \<rightharpoonup> decimal) \<Rightarrow> (string \<rightharpoonup> decimal) option" where
  "add_quantities D [] m = Some m"
| "add_quantities D (p # ps) m = do {
     q \<leftarrow> d_add D (unwrap_or 0 (m (symbol_text (pos_symbol p)))) (pos_quantity p);
     add_quantities D ps (m(symbol_text (pos_symbol p) \<mapsto> q)) }"

definition no_positions :: venue_positions where
  "no_positions = \<lparr>vp_quantities = Map.empty, vp_blockers = []\<rparr>"

type_synonym by_venue = "venue_id option \<rightharpoonup> venue_positions"

definition blocked_venue :: "by_venue \<Rightarrow> account_client_snapshot \<Rightarrow> diagnostic \<Rightarrow> by_venue" where
  "blocked_venue by cl d =
     (let vp = unwrap_or no_positions (by (cs_venue cl)) in by(cs_venue cl \<mapsto> vp\<lparr>vp_blockers := vp_blockers vp @ [d]\<rparr>))"

definition scan_position_client :: "dec_ops \<Rightarrow> account_client_snapshot \<Rightarrow> by_venue \<times> diagnostic set \<Rightarrow> (by_venue \<times> diagnostic set) option" where
  "scan_position_client D cl acc =
     (let (by, errs) = acc
      in if spot_inventory cl then Some acc
         else case cs_positions cl of
           None \<Rightarrow>
             let d = client_note ''does not support authoritative position snapshots'' cl in Some (blocked_venue by cl d, insert d errs)
         | Some (Inl e) \<Rightarrow>
             let d = Diag ''position snapshot failed'' (Some (cs_client_index cl)) [] (Some e)
             in Some (blocked_venue by cl d, insert d errs)
         | Some (Inr ps) \<Rightarrow> do {
             let vp = unwrap_or no_positions (by (cs_venue cl));
             m \<leftarrow> add_quantities D ps (vp_quantities vp);
             Some (by(cs_venue cl \<mapsto> vp\<lparr>vp_quantities := m\<rparr>), errs) })"

fun scan_position_clients :: "dec_ops \<Rightarrow> worker_reconcile_snapshot \<Rightarrow> by_venue \<times> diagnostic set \<Rightarrow> (by_venue \<times> diagnostic set) option" where
  "scan_position_clients D [] acc = Some acc"
| "scan_position_clients D (cl # cls) acc = do { acc \<leftarrow> scan_position_client D cl acc; scan_position_clients D cls acc }"

text \<open>The venues a symbol is compared with: its quantity there, whether there is any, whether one has no complete snapshot.\<close>

record symbol_scan =
  sy_quantity :: decimal
  sy_scoped :: bool
  sy_blocked :: bool
  sy_errors :: "diagnostic set"

fun scan_venues :: "dec_ops \<Rightarrow> bool \<Rightarrow> string \<Rightarrow> by_venue \<Rightarrow> venue_id option list \<Rightarrow> symbol_scan \<Rightarrow> symbol_scan option" where
  "scan_venues D poly s by [] sc = Some sc"
| "scan_venues D poly s by (v # vs) sc =
     (if poly \<and> v \<noteq> Some POLYMARKET \<and> v \<noteq> None then scan_venues D poly s by vs sc
      else let vp = unwrap_or no_positions (by v)
           in if vp_blockers vp = []
              then do {
                q \<leftarrow> d_add D (sy_quantity sc) (unwrap_or 0 (vp_quantities vp s));
                scan_venues D poly s by vs (sc\<lparr>sy_scoped := True, sy_quantity := q\<rparr>) }
              else scan_venues D poly s by vs
                     (sc\<lparr>sy_scoped := True, sy_blocked := True, sy_errors := sy_errors sc \<union> set (vp_blockers vp)\<rparr>))"

record position_scan =
  ps_local_only :: "symbol list"
  ps_exchange_only :: "symbol list"
  ps_quantity_mismatch :: "quantity_difference list"
  ps_errors :: "diagnostic set"

definition position_tolerance :: decimal where
  "position_tolerance = 1 / 1000000"

definition scan_symbol :: "dec_ops \<Rightarrow> (string \<rightharpoonup> decimal) \<Rightarrow> by_venue \<Rightarrow> string \<Rightarrow> position_scan \<Rightarrow> position_scan option" where
  "scan_symbol D local by s sc = do {
     let l = unwrap_or 0 (local s);
     let poly = (is_polymarket_token_symbol s \<and> by (Some POLYMARKET) \<noteq> None);
     y \<leftarrow> scan_venues D poly s by (sorted_list_of_set (dom by))
            \<lparr>sy_quantity = 0, sy_scoped = False, sy_blocked = False, sy_errors = ps_errors sc\<rparr>;
     let x = sy_quantity y;
     let sc = sc\<lparr>ps_errors := sy_errors y\<rparr>;
     (if \<not> sy_scoped y \<or> sy_blocked y
      then Some (sc\<lparr>ps_errors := insert (Diag ''cannot safely attribute position symbol to a complete venue/account snapshot'' None [s] None)
                    (ps_errors sc)\<rparr>)
      else if l \<noteq> 0 \<and> x = 0 then Some (sc\<lparr>ps_local_only := ps_local_only sc @ [Symbol s]\<rparr>)
      else if l = 0 \<and> x \<noteq> 0 then Some (sc\<lparr>ps_exchange_only := ps_exchange_only sc @ [Symbol s]\<rparr>)
      else if l \<noteq> 0 \<and> x \<noteq> 0
      then do {
        d \<leftarrow> d_sub D l x;
        Some (if position_tolerance < decimal_abs d
          then sc\<lparr>ps_quantity_mismatch := ps_quantity_mismatch sc @
                 [\<lparr>qd_symbol = Symbol s, qd_local_quantity = l, qd_exchange_quantity = x\<rparr>]\<rparr>
          else sc) }
      else Some sc) }"

fun scan_symbols :: "dec_ops \<Rightarrow> (string \<rightharpoonup> decimal) \<Rightarrow> by_venue \<Rightarrow> string list \<Rightarrow> position_scan \<Rightarrow> position_scan option" where
  "scan_symbols D local by [] sc = Some sc"
| "scan_symbols D local by (s # ss) sc = do { sc \<leftarrow> scan_symbol D local by s sc; scan_symbols D local by ss sc }"

definition local_quantities :: "(symbol \<rightharpoonup> position) \<Rightarrow> (string \<rightharpoonup> decimal)" where
  "local_quantities ps = (\<lambda>s. map_option pos_quantity (ps (Symbol s)))"

definition position_symbols :: "(string \<rightharpoonup> decimal) \<Rightarrow> by_venue \<Rightarrow> string set" where
  "position_symbols local by = dom local \<union> (\<Union>vp\<in>ran by. dom (vp_quantities vp))"

definition reconcile_positions :: "dec_ops \<Rightarrow> worker_reconcile_snapshot \<Rightarrow> (symbol \<rightharpoonup> position) \<Rightarrow> position_report option" where
  "reconcile_positions D cls positions = do {
     (by, errs) \<leftarrow> scan_position_clients D cls (Map.empty, {});
     let local = local_quantities positions;
     sc \<leftarrow> scan_symbols D local by (sorted_list_of_set (position_symbols local by))
            \<lparr>ps_local_only = [], ps_exchange_only = [], ps_quantity_mismatch = [], ps_errors = errs\<rparr>;
     let complete = (ps_errors sc = {});
     Some \<lparr>pr_local_only = ps_local_only sc, pr_exchange_only = ps_exchange_only sc,
           pr_quantity_mismatch = ps_quantity_mismatch sc, pr_client_errors = ps_errors sc, pr_complete = complete,
           pr_healthy = (complete \<and> ps_local_only sc = [] \<and> ps_exchange_only sc = [] \<and> ps_quantity_mismatch sc = [])\<rparr> }"

end
