(* ===== verification/Execution_Control.thy ===== *)
theory Execution_Control
  imports Account_Reconciliation
begin

text \<open>
  The control plane of the engine (\<open>market-core/engine/src/execution_control.rs\<close>), shared by the sentinel and the
  operators. It holds the engine's lock only while it works on the engine and waits for the execution worker
  without it. What the other tasks do to the engine between two acquisitions of the lock is the argument
  \<open>gap\<close>, numbered in the order of the waits; the worker's answers are arguments too.
\<close>

subsection \<open>Handle and replies\<close>

record control_handle =
  ch_worker :: bool
  ch_execution_enabled :: bool
  ch_balance_tolerance_usd :: decimal

definition control_handle_new :: "bool \<Rightarrow> bool \<Rightarrow> control_handle" where
  "control_handle_new worker enabled = \<lparr>ch_worker = worker, ch_execution_enabled = enabled, ch_balance_tolerance_usd = 1\<rparr>"

definition with_balance_tolerance_usd :: "control_handle \<Rightarrow> decimal \<Rightarrow> control_handle" where
  "with_balance_tolerance_usd h t = h\<lparr>ch_balance_tolerance_usd := if t < 0 then 0 else t\<rparr>"

datatype 'a reply = Replied 'a | ReplyTimedOut | ReplyDropped | ChannelClosed

text \<open>Sending a command and waiting for its reply.\<close>

definition ask_worker :: "control_handle \<Rightarrow> string \<Rightarrow> 'a reply \<Rightarrow> hft_error + 'a" where
  "ask_worker h operation r =
     (if \<not> ch_worker h then Err (Execution (Msg ''execution worker control is unavailable''))
      else case r of
        ChannelClosed \<Rightarrow> Err (Execution (Msg ''execution worker control channel closed''))
      | ReplyTimedOut \<Rightarrow> Err (Timeout (MsgAsset ''control reply timed out'' operation))
      | ReplyDropped \<Rightarrow> Err (Execution (MsgAsset ''control reply dropped'' operation))
      | Replied a \<Rightarrow> Ok a)"

definition set_intake :: "control_handle \<Rightarrow> (message + unit) reply \<Rightarrow> hft_error + unit" where
  "set_intake h r = and_then (ask_worker h ''execution intake'' r) (map_sum Execution id)"

definition intake_if_enabled :: "control_handle \<Rightarrow> (message + unit) reply \<Rightarrow> hft_error + unit" where
  "intake_if_enabled h r = (if ch_execution_enabled h then set_intake h r else Ok ())"

subsection \<open>Trading modes\<close>

definition pause_trading_unlocked :: "control_handle \<Rightarrow> (message + unit) reply \<Rightarrow> engine \<Rightarrow> engine \<times> (hft_error + unit)" where
  "pause_trading_unlocked h r e = (pause_trading e, intake_if_enabled h r)"

definition ensure_active_degrade_ready :: "engine_env \<Rightarrow> engine \<Rightarrow> (hft_error + unit) option" where
  "ensure_active_degrade_ready E e =
     (case ensure_accepting_new_intents e of
        Inl err \<Rightarrow> Some (Err err)
      | Inr _ \<Rightarrow> map_option (map_sum id (\<lambda>_. ())) (engine_view E e))"

definition control_enter_degrade_mode :: "engine_env \<Rightarrow> engine \<Rightarrow> engine_result" where
  "control_enter_degrade_mode E e =
     (if mode_of e = Emergency then Some (e, Err (Risk (Msg ''Emergency mode is sticky; restart is required'')))
      else if mode_of e = Paused then Some (e, Err (Risk (Msg ''degraded mode cannot resume paused execution'')))
      else do {
        r \<leftarrow> ensure_active_degrade_ready E e;
        (case r of
           Inl err \<Rightarrow> Some (e, Err err)
         | Inr _ \<Rightarrow> map_option (\<lambda>e. (e, Ok ())) (enter_degrade_mode E e)) })"

text \<open>What is returned when the intake has to be shut again before an error is reported.\<close>

definition closing :: "control_handle \<Rightarrow> (message + unit) reply \<Rightarrow> hft_error \<Rightarrow> hft_error + unit" where
  "closing h r err = and_then (intake_if_enabled h r) (\<lambda>_. Err err)"

definition resume_trading_unlocked ::
  "engine_env \<Rightarrow> control_handle \<Rightarrow> (nat \<Rightarrow> engine \<Rightarrow> engine) \<Rightarrow> (message + unit) reply \<Rightarrow> (message + unit) reply
   \<Rightarrow> trading_mode \<Rightarrow> engine \<Rightarrow> engine_result" where
  "resume_trading_unlocked E h gap opened shut target e =
     (let sticky = Risk (Msg ''Emergency mode is sticky; restart is required'')
      in if mode_of e = Emergency then Some (e, Err sticky)
         else let e = gap 0 e
         in do {
           ready \<leftarrow> ensure_risk_resume_ready E e;
           (case and_then ready (\<lambda>_. intake_if_enabled h opened) of
              Inl err \<Rightarrow> Some (e, Err err)
            | Inr _ \<Rightarrow>
                let e = gap 1 e
                in if mode_of e = Emergency then Some (e, closing h shut sticky)
                   else do {
                     ready \<leftarrow> ensure_risk_resume_ready E e;
                     (case ready of
                        Inl err \<Rightarrow> Some (pause_trading e, closing h shut err)
                      | Inr _ \<Rightarrow>
                          if target = Normal \<or> target = Degraded
                          then map_option (\<lambda>e. (e, Ok ())) (set_trading_mode E e target)
                          else Some (e, closing h shut (Risk (Msg ''cannot resume execution into a non-trading mode'')))) }) })"

definition control_resume_trading ::
  "engine_env \<Rightarrow> control_handle \<Rightarrow> (nat \<Rightarrow> engine \<Rightarrow> engine) \<Rightarrow> (message + unit) reply \<Rightarrow> (message + unit) reply
   \<Rightarrow> engine \<Rightarrow> engine_result" where
  "control_resume_trading E h gap opened shut e = resume_trading_unlocked E h gap opened shut Normal e"

subsection \<open>Reconciliation\<close>

record runtime_reconciliation_report =
  rt_worker_snapshot :: worker_reconcile_snapshot
  rt_order_report :: reconciliation_report
  rt_balance_report :: "balance_report option"
  rt_asset_inventory_report :: "inventory_report option"
  rt_position_report :: "position_report option"
  rt_fill_report :: "fill_report option"
  rt_complete :: bool
  rt_healthy :: bool

record runtime_truth_status =
  tr_reconciliation_complete :: bool
  tr_reconciliation_healthy :: bool
  tr_observed_at_us :: timestamp
  tr_account_id :: "account_id option"

definition readback_ids :: "worker_reconcile_snapshot \<Rightarrow> order_id set \<times> string set" where
  "readback_ids cls =
     (let orders = concat (map (\<lambda>cl. ok_list (cs_open_orders cl)) cls)
      in (oo_order_id ` set orders, set (List.map_filter oo_client_order_id orders)))"

definition malformed_inventory :: "inventory_report option \<Rightarrow> diagnostic \<Rightarrow> inventory_report" where
  "malformed_inventory rep d =
     (let rep = (case rep of Some rep \<Rightarrow> rep
        | None \<Rightarrow> \<lparr>ir_local_only = [], ir_exchange_only = [], ir_amount_mismatch = [], ir_client_errors = {},
                    ir_complete = False, ir_healthy = False\<rparr>)
      in rep\<lparr>ir_client_errors := insert d (ir_client_errors rep), ir_complete := False, ir_healthy := False\<rparr>)"

definition local_account_value :: "engine_env \<Rightarrow> worker_reconcile_snapshot \<Rightarrow> account_view \<Rightarrow> decimal option" where
  "local_account_value E cls av = do {
     spot \<leftarrow> spot_inventory_account_value (ee_dec E) (ee_strings E (dom (av_asset_inventory av))) cls av;
     (case spot of Some v \<Rightarrow> Some v | None \<Rightarrow> equity (ee_dec E) (ee_symbols E (dom (av_positions av))) av) }"

record account_reports =
  rp_balances :: "balance_report option"
  rp_inventory :: "inventory_report option"
  rp_positions :: "position_report option"
  rp_fills :: "fill_report option"

text \<open>
  The comparison of the accounts. A venue's spot wallet is published as the account view when the inventory built
  from the admission record agrees with it; \<open>aks\<close> is the iteration order of the view's attestations.
\<close>

definition candidate_view :: "diagnostic + account_view option \<Rightarrow> account_view \<Rightarrow> account_view" where
  "candidate_view applied av = (case applied of Inr (Some v) \<Rightarrow> v | _ \<Rightarrow> av)"

definition inventory_outcome :: "diagnostic + account_view option \<Rightarrow> inventory_report option \<Rightarrow> inventory_report option" where
  "inventory_outcome applied compared = (case applied of Inl d \<Rightarrow> Some (malformed_inventory compared d) | Inr _ \<Rightarrow> compared)"

definition publish_candidate ::
  "engine_env \<Rightarrow> instrument_key list \<Rightarrow> diagnostic + account_view option \<Rightarrow> inventory_report option \<Rightarrow> engine \<Rightarrow> engine_result" where
  "publish_candidate E aks applied inventory e =
     (case applied of
        Inr (Some v) \<Rightarrow>
          if is_some_and (\<lambda>r. ir_complete r \<and> ir_healthy r) inventory
          then engine_publish_account_readback E e aks (ee_strings E (dom (av_asset_inventory v))) v
          else Some (e, Ok ())
      | _ \<Rightarrow> Some (e, Ok ()))"

definition compare_accounts ::
  "engine_env \<Rightarrow> control_handle \<Rightarrow> instrument_key list \<Rightarrow> timestamp \<Rightarrow> worker_reconcile_snapshot \<Rightarrow> engine
   \<Rightarrow> (engine \<times> (hft_error + account_reports)) option" where
  "compare_accounts E h aks now cls e = do {
     applied \<leftarrow> apply_bybit_spot_admission_backed_inventory (ee_dec E) cls (en_account_snapshot e) now;
     let candidate = candidate_view applied (en_account_snapshot e);
     worth \<leftarrow> local_account_value E cls candidate;
     balances \<leftarrow> reconcile_balances (ee_dec E) cls worth (ch_balance_tolerance_usd h);
     compared \<leftarrow> reconcile_asset_inventory (ee_dec E) (ee_strings E (dom (av_asset_inventory candidate))) cls candidate;
     let inventory = inventory_outcome applied compared;
     (e', published) \<leftarrow> publish_candidate E aks applied inventory e;
     (case published of
        Inl err \<Rightarrow> Some (e', Err err)
      | Inr _ \<Rightarrow> do {
          positions \<leftarrow> reconcile_positions (ee_dec E) cls (av_positions (en_account_snapshot e));
          Some (e', Ok \<lparr>rp_balances = Some balances, rp_inventory = inventory, rp_positions = Some positions,
                        rp_fills = Some (reconcile_recent_fills cls (ps_processed_fill_ids (export_portfolio_state E e)))\<rparr>) }) }"

definition reconcile_locked ::
  "engine_env \<Rightarrow> control_handle \<Rightarrow> instrument_key list \<Rightarrow> timestamp \<Rightarrow> bool \<Rightarrow> worker_reconcile_snapshot \<Rightarrow> engine
   \<Rightarrow> (engine \<times> (hft_error + runtime_reconciliation_report)) option" where
  "reconcile_locked E h aks now include_balances cls e = do {
     let order_report = reconcile_open_orders E e cls;
     (e, compared) \<leftarrow>
       (if include_balances then compare_accounts E h aks now cls e
        else Some (e, Ok \<lparr>rp_balances = None, rp_inventory = None, rp_positions = None, rp_fills = None\<rparr>));
     (case compared of
        Inl err \<Rightarrow> Some (e, Err err)
      | Inr rp \<Rightarrow> do {
          holdings \<leftarrow> (if snapshot_is_complete cls \<and> include_balances then account_holdings_complete (ee_dec E) cls else Some True);
          let complete = (snapshot_is_complete cls \<and>
            (include_balances \<longrightarrow> holdings \<and> list_all (\<lambda>cl. is_some_and is_ok (cs_recent_fills cl)) cls) \<and>
            is_none_or br_complete (rp_balances rp) \<and> is_none_or ir_complete (rp_inventory rp) \<and>
            is_none_or pr_complete (rp_positions rp) \<and> is_none_or fr_complete (rp_fills rp));
          let healthy = (complete \<and> \<not> has_discrepancies order_report \<and>
            is_none_or br_healthy (rp_balances rp) \<and> is_none_or ir_healthy (rp_inventory rp) \<and>
            is_none_or pr_healthy (rp_positions rp) \<and> is_none_or fr_healthy (rp_fills rp));
          (e, confirmed) \<leftarrow>
            (if healthy \<and> include_balances then confirm_risk_readback E e (fst (readback_ids cls)) (snd (readback_ids cls))
             else Some (e, Ok ()));
          Some (e, Ok \<lparr>rt_worker_snapshot = cls, rt_order_report = order_report, rt_balance_report = rp_balances rp,
             rt_asset_inventory_report = rp_inventory rp, rt_position_report = rp_positions rp, rt_fill_report = rp_fills rp,
             rt_complete = complete, rt_healthy = (healthy \<and> is_ok confirmed)\<rparr>) }) }"

text \<open>The status published for the readers of the runtime: withdrawn before the venues are asked, set with the report.\<close>

definition truth_of :: "timestamp \<Rightarrow> runtime_reconciliation_report \<Rightarrow> runtime_truth_status" where
  "truth_of now rep = \<lparr>tr_reconciliation_complete = rt_complete rep, tr_reconciliation_healthy = rt_healthy rep,
     tr_observed_at_us = now, tr_account_id = snapshot_account_id (rt_worker_snapshot rep)\<rparr>"

definition withdrawn_truth :: "timestamp \<Rightarrow> runtime_truth_status" where
  "withdrawn_truth now = \<lparr>tr_reconciliation_complete = False, tr_reconciliation_healthy = False,
     tr_observed_at_us = now, tr_account_id = None\<rparr>"

record reconcile_clock =
  rk_start :: timestamp
  rk_compare :: timestamp
  rk_finish :: timestamp

definition control_reconcile ::
  "engine_env \<Rightarrow> control_handle \<Rightarrow> instrument_key list \<Rightarrow> reconcile_clock \<Rightarrow> (engine \<Rightarrow> engine) \<Rightarrow> worker_reconcile_snapshot reply \<Rightarrow> bool
   \<Rightarrow> runtime_truth_status \<Rightarrow> engine \<Rightarrow> (engine \<times> runtime_truth_status \<times> (hft_error + runtime_reconciliation_report)) option" where
  "control_reconcile E h aks clk waiting answer include_balances truth e =
     (let truth = (if include_balances then withdrawn_truth (rk_start clk) else truth)
      in case ask_worker h ''reconciliation'' answer of
           Inl err \<Rightarrow> Some (e, truth, Err err)
         | Inr cls \<Rightarrow> do {
             (e, r) \<leftarrow> reconcile_locked E h aks (rk_compare clk) include_balances cls (waiting e);
             Some (e, case r of Inr rep \<Rightarrow> if include_balances then truth_of (rk_finish clk) rep else truth | Inl _ \<Rightarrow> truth, r) })"

record guarded_replies =
  gr_pause :: "(message + unit) reply"
  gr_snapshot :: "worker_reconcile_snapshot reply"
  gr_failed :: "(message + unit) reply"
  gr_open :: "(message + unit) reply"
  gr_close :: "(message + unit) reply"

text \<open>\<open>reports\<close> are the execution reports that wait in the queue when the pause was acknowledged.\<close>

definition reconcile_guarded ::
  "engine_env \<Rightarrow> control_handle \<Rightarrow> instrument_key list \<Rightarrow> reconcile_clock \<Rightarrow> (nat \<Rightarrow> engine \<Rightarrow> engine) \<Rightarrow> guarded_replies
   \<Rightarrow> execution_report list \<Rightarrow> bool \<Rightarrow> runtime_truth_status \<Rightarrow> engine
   \<Rightarrow> (engine \<times> runtime_truth_status \<times> (hft_error + runtime_reconciliation_report)) option" where
  "reconcile_guarded E h aks clk gap rs reports include_balances truth e =
     (let previous = mode_of e;
          was_active = (previous = Normal \<or> previous = Degraded);
          (e, paused) = pause_trading_unlocked h (gr_pause rs) (gap 0 e)
      in case paused of
           Inl err \<Rightarrow> Some (e, truth, Err err)
         | Inr _ \<Rightarrow> do {
             (e, acks, drained) \<leftarrow> drain_execution_reports E (gap 1 e) reports;
             (case drained of
                Inl err \<Rightarrow> Some (e, truth, Err err)
              | Inr _ \<Rightarrow> do {
                  (e, truth, result) \<leftarrow> control_reconcile E h aks clk (gap 3) (gr_snapshot rs) include_balances truth (gap 2 e);
                  let e = gap 4 e;
                  (case result of
                     Inl err \<Rightarrow>
                       (let (e, p) = pause_trading_unlocked h (gr_failed rs) e
                        in Some (e, truth, case p of Inr _ \<Rightarrow> Err err
                             | Inl pe \<Rightarrow> Err (Execution (MsgCause ''authoritative reconciliation and execution pause failed'' (error_message pe)))))
                   | Inr rep \<Rightarrow>
                       if rt_healthy rep \<and> was_active
                       then do {
                         (e, resumed) \<leftarrow> resume_trading_unlocked E h (\<lambda>k. gap (5 + k)) (gr_open rs) (gr_close rs) previous e;
                         Some (e, truth, and_then resumed (\<lambda>_. Ok rep)) }
                       else if \<not> rt_healthy rep
                       then let (e, p) = pause_trading_unlocked h (gr_failed rs) e in Some (e, truth, and_then p (\<lambda>_. Ok rep))
                       else Some (e, truth, Ok rep)) }) })"

subsection \<open>Cancellations and replacements\<close>

record cancel_target =
  ct_order_id :: order_id
  ct_symbol :: symbol
  ct_venue :: "venue_id option"
  ct_account_id :: "account_id option"

record cancel_failure =
  cf_order_id :: order_id
  cf_reason :: message
  cf_outcome_unknown :: bool

record cancel_dispatch_report =
  cd_requested :: usize
  cd_submitted :: "order_id list"
  cd_failures :: "cancel_failure list"

definition no_cancellations :: cancel_dispatch_report where
  "no_cancellations = \<lparr>cd_requested = 0, cd_submitted = [], cd_failures = []\<rparr>"

definition dispatch_is_complete :: "cancel_dispatch_report \<Rightarrow> bool" where
  "dispatch_is_complete r \<longleftrightarrow> cd_failures r = [] \<and> of_nat (length (cd_submitted r)) = cd_requested r"

definition target_is_open :: "ports_order_status \<Rightarrow> bool" where
  "target_is_open st \<longleftrightarrow> st \<in> {P_New, P_Acknowledged, P_Accepted, P_PartiallyFilled}"

definition export_oms_state :: "engine \<Rightarrow> order_id \<rightharpoonup> ports_order_record" where
  "export_oms_state e = (case en_order_manager e of None \<Rightarrow> Map.empty | Some om \<Rightarrow> om_export_state om)"

definition cancel_target_of :: "engine \<Rightarrow> ports_order_record \<Rightarrow> cancel_target" where
  "cancel_target_of e r = \<lparr>ct_order_id = o_order_id r, ct_symbol = o_symbol r, ct_venue = o_venue r,
     ct_account_id = en_order_account_map e (o_order_id r)\<rparr>"

definition collect_open_targets ::
  "engine_env \<Rightarrow> engine \<Rightarrow> symbol option \<Rightarrow> venue_id option \<Rightarrow> string option \<Rightarrow> cancel_target list" where
  "collect_open_targets E e sm ven strategy =
     map (cancel_target_of e)
       (filter (\<lambda>r. target_is_open (o_status r) \<and> is_none_or (\<lambda>s. o_symbol r = s) sm \<and>
                   is_none_or (\<lambda>v. o_venue r = Some v) ven \<and> is_none_or (\<lambda>s. o_strategy_id r = Some s) strategy)
         (List.map_filter (export_oms_state e) (ee_orders E (dom (export_oms_state e)))))"

definition dispatch_cancellations ::
  "control_handle \<Rightarrow> cancel_target list \<Rightarrow> cancel_dispatch_report reply \<Rightarrow> hft_error + cancel_dispatch_report" where
  "dispatch_cancellations h targets r =
     (if targets = [] \<and> \<not> ch_execution_enabled h then Ok no_cancellations else ask_worker h ''cancellation'' r)"

text \<open>The second component is what is sent to the worker to cancel.\<close>

definition control_emergency_stop ::
  "engine_env \<Rightarrow> control_handle \<Rightarrow> bool \<Rightarrow> (message + unit) reply \<Rightarrow> cancel_dispatch_report reply \<Rightarrow> engine
   \<Rightarrow> engine \<times> cancel_target list \<times> (hft_error + cancel_dispatch_report)" where
  "control_emergency_stop E h cancel_orders paused r e =
     (if \<not> cancel_orders
      then let (e, p) = pause_trading_unlocked h paused e in (e, [], and_then p (\<lambda>_. Ok no_cancellations))
      else let e = fst (emergency_exit E e);
               targets = collect_open_targets E e None None None
           in (e, targets, dispatch_cancellations h targets r))"

definition cancel_all_orders ::
  "engine_env \<Rightarrow> control_handle \<Rightarrow> engine \<Rightarrow> cancel_dispatch_report reply \<Rightarrow> cancel_target list \<times> (hft_error + cancel_dispatch_report)" where
  "cancel_all_orders E h e r =
     (let targets = collect_open_targets E e None None None in (targets, dispatch_cancellations h targets r))"

definition cancel_orders_filtered ::
  "engine_env \<Rightarrow> control_handle \<Rightarrow> engine \<Rightarrow> symbol option \<Rightarrow> venue_id option \<Rightarrow> cancel_dispatch_report reply
   \<Rightarrow> cancel_target list \<times> (hft_error + cancel_dispatch_report)" where
  "cancel_orders_filtered E h e sm ven r =
     (if ven \<noteq> None \<and> list_ex (\<lambda>r. target_is_open (o_status r) \<and> is_none_or (\<lambda>s. o_symbol r = s) sm \<and> o_venue r = None)
           (List.map_filter (export_oms_state e) (ee_orders E (dom (export_oms_state e))))
      then ([], Err (Execution (Msg ''cannot safely apply venue filter to OMS orders without venue metadata'')))
      else let targets = collect_open_targets E e sm ven None in (targets, dispatch_cancellations h targets r))"

definition cancel_orders_for_strategy ::
  "engine_env \<Rightarrow> control_handle \<Rightarrow> engine \<Rightarrow> string \<Rightarrow> cancel_dispatch_report reply
   \<Rightarrow> cancel_target list \<times> (hft_error + cancel_dispatch_report)" where
  "cancel_orders_for_strategy E h e sid r =
     (let targets = collect_open_targets E e None None (Some sid) in (targets, dispatch_cancellations h targets r))"

definition control_cancel_order ::
  "control_handle \<Rightarrow> engine \<Rightarrow> order_id \<Rightarrow> symbol \<Rightarrow> cancel_dispatch_report reply
   \<Rightarrow> cancel_target list \<times> (hft_error + cancel_dispatch_report)" where
  "control_cancel_order h e oid sm r =
     (let target = (case export_oms_state e oid of
            None \<Rightarrow> \<lparr>ct_order_id = oid, ct_symbol = sm, ct_venue = None, ct_account_id = en_order_account_map e oid\<rparr>
          | Some rec \<Rightarrow> cancel_target_of e rec)
      in ([target], dispatch_cancellations h [target] r))"

definition cancel_authoritative_order ::
  "control_handle \<Rightarrow> cancel_target \<Rightarrow> cancel_dispatch_report reply \<Rightarrow> cancel_target list \<times> (hft_error + cancel_dispatch_report)" where
  "cancel_authoritative_order h target r =
     (if ct_venue target = None \<and> ct_account_id target = None
      then ([], Err (Execution (Msg ''authoritative cancellation requires venue or account routing identity'')))
      else ([target], dispatch_cancellations h [target] r))"

text \<open>The checks under the engine's lock before a replacement is sent to the worker.\<close>

definition replacement_admitted ::
  "engine_env \<Rightarrow> engine \<Rightarrow> order_id \<Rightarrow> symbol \<Rightarrow> quantity option \<Rightarrow> price option \<Rightarrow> (hft_error + unit) option" where
  "replacement_admitted E e oid sm nq np =
     (if nq = None \<and> np = None then Some (Err (InvalidOrder (Msg ''replacement requires a new quantity or price'')))
      else if mode_of e = Paused \<or> mode_of e = Emergency
      then Some (Err (Risk (Msg ''order replacement is disabled while trading is paused or emergency-latched'')))
      else case export_oms_state e oid of
        None \<Rightarrow> Some (Err (OrderNotFound (MsgOrder ''replacement requires an OMS-tracked order'' oid)))
      | Some r \<Rightarrow>
          if o_symbol r \<noteq> sm then Some (Err (InvalidOrder (MsgOrder ''replacement symbol mismatch'' oid)))
          else if \<not> target_is_open (o_status r) then Some (Err (InvalidOrder (MsgOrder ''order is not open and cannot be replaced'' oid)))
          else if 0 < o_cum_qty r
          then Some (Err (InvalidOrder (MsgOrder ''order is partially filled; cancel and submit a new reviewed intent'' oid)))
          else if is_some_and (\<lambda>q. q \<le> 0) nq then Some (Err (InvalidOrder (Msg ''replacement quantity must be positive'')))
          else if is_some_and (\<lambda>q. o_qty r < q) nq
          then Some (Err (Risk (Msg ''replacement quantity cannot increase without a new risk-reviewed intent'')))
          else if is_some_and (\<lambda>p. p \<le> 0) np then Some (Err (InvalidOrder (Msg ''replacement price must be positive'')))
          else validate_replace (ee_dec E) (en_risk_reservations e) (order_risk_view_of r) nq np)"

definition control_replace_order ::
  "engine_env \<Rightarrow> control_handle \<Rightarrow> engine \<Rightarrow> order_id \<Rightarrow> symbol \<Rightarrow> quantity option \<Rightarrow> price option \<Rightarrow> (message + unit) reply
   \<Rightarrow> (hft_error + unit) option" where
  "control_replace_order E h e oid sm nq np r =
     try_then (replacement_admitted E e oid sm nq np) (\<lambda>_.
       Some (and_then (ask_worker h ''order replacement'' r) (map_sum Execution id)))"

end
