(* ===== verification/Reconciliation_Exact.thy ===== *)
theory Reconciliation_Exact
  imports Account_Reconciliation
begin

text \<open>
  What a healthy comparison says of the accounts: the balances of the venues are worth what the engine counts, every
  fill they report was booked, the wallets hold the same assets and every position is the same up to the tolerance.
\<close>

subsection \<open>What a healthy comparison of balances and fills says\<close>

definition balance_worth :: "account_balance list \<Rightarrow> decimal" where
  "balance_worth bs = sum_list (map (\<lambda>b. unwrap_or 0 (bal_usd_value b)) bs)"

definition ok_answer :: "('e + 'a list) option \<Rightarrow> 'a list" where
  "ok_answer r = (case r of Some (Inr xs) \<Rightarrow> xs | _ \<Rightarrow> [])"

definition worthless :: "account_balance \<Rightarrow> bool" where
  "worthless b \<longleftrightarrow> bal_total b = 0 \<and> bal_available b = 0 \<and> bal_frozen b = 0"

lemma ok_answer_simps [simp]: "ok_answer (Some (Inr xs)) = xs" "ok_answer None = []" "ok_answer (Some (Inl e)) = []"
  by (simp_all add: ok_answer_def)

lemma decimal_abs_eq [simp]: "decimal_abs v = \<bar>v\<bar>"
  by (simp add: decimal_abs_def abs_if)

lemma value_balances_exact:
  assumes "dec_exact D" and "value_balances D i bs (t, missing) = Some (t', missing')"
  shows "t' = t + balance_worth bs" and "\<exists>more. missing' = missing @ more \<and> (more = [] \<longrightarrow> (\<forall>b\<in>set bs. bal_usd_value b = None \<longrightarrow> worthless b))"
proof -
  from assms(2) have "t' = t + balance_worth bs \<and>
    (\<exists>more. missing' = missing @ more \<and> (more = [] \<longrightarrow> (\<forall>b\<in>set bs. bal_usd_value b = None \<longrightarrow> worthless b)))"
  proof (induction bs arbitrary: t missing)
    case Nil
    then show ?case by (simp add: balance_worth_def)
  next
    case (Cons b bs)
    show ?case
    proof (cases "bal_usd_value b")
      case None
      then show ?thesis using Cons.prems Cons.IH by (fastforce simp: balance_worth_def worthless_def split: if_splits)
    next
      case (Some v)
      with Cons.prems obtain u where "d_add D t v = Some u" "value_balances D i bs (u, missing) = Some (t', missing')"
        by (auto simp: bind_eq_Some_conv)
      with Cons.IH [OF this(2)] assms(1) Some show ?thesis
        by (auto simp: balance_worth_def dest!: dec_exactD(1))
    qed
  qed
  then show "t' = t + balance_worth bs"
    and "\<exists>more. missing' = missing @ more \<and> (more = [] \<longrightarrow> (\<forall>b\<in>set bs. bal_usd_value b = None \<longrightarrow> worthless b))" by blast+
qed

lemma value_clients_errors:
  "value_clients D cls acc errs = Some (t', missing', errs') \<Longrightarrow> \<exists>more. errs' = errs @ more"
  by (induction D cls acc errs rule: value_clients.induct) (force simp: bind_eq_Some_conv split: option.splits sum.splits)+

lemma value_clients_exact:
  assumes "dec_exact D" and "value_clients D cls (t, missing) errs = Some (t', missing', [])" and "missing' = []"
  shows "errs = [] \<and> missing = [] \<and> t' = t + sum_list (map (\<lambda>cl. balance_worth (ok_answer (cs_balances cl))) cls) \<and>
    (\<forall>cl\<in>set cls. \<exists>bs. cs_balances cl = Some (Inr bs) \<and> (\<forall>b\<in>set bs. bal_usd_value b = None \<longrightarrow> worthless b))"
  using assms(2)
proof (induction cls arbitrary: t missing)
  case Nil
  with assms(3) show ?case by simp
next
  case (Cons cl cls)
  show ?case
  proof (cases "cs_balances cl")
    case None
    with Cons.prems value_clients_errors show ?thesis by fastforce
  next
    case (Some ans)
    show ?thesis
    proof (cases ans)
      case (Inl e)
      with Some Cons.prems value_clients_errors show ?thesis by fastforce
    next
      case (Inr bs)
      with Some Cons.prems obtain u m where 1: "value_balances D (cs_client_index cl) bs (t, missing) = Some (u, m)"
        and 2: "value_clients D cls (u, m) errs = Some (t', missing', [])"
        by (auto simp: bind_eq_Some_conv)
      note 3 = value_balances_exact [OF assms(1) 1]
      with Cons.IH [OF 2] Some Inr show ?thesis by auto
    qed
  qed
qed

lemma balances_healthy:
  assumes "dec_exact D" and "reconcile_balances D cls value_here tolerance = Some r" and "br_healthy r"
  shows "\<bar>value_here - sum_list (map (\<lambda>cl. balance_worth (ok_answer (cs_balances cl))) cls)\<bar> \<le> tolerance \<and>
    (\<forall>cl\<in>set cls. \<exists>bs. cs_balances cl = Some (Inr bs) \<and> (\<forall>b\<in>set bs. bal_usd_value b = None \<longrightarrow> worthless b))"
proof -
  from assms(2,3) obtain t d where v: "value_clients D cls (0, []) (if cls = [] then [general_note ''no execution clients returned balance snapshots''] else [])
      = Some (t, [], [])" and d: "d_sub D value_here t = Some d" "\<bar>d\<bar> \<le> tolerance"
    by (auto simp: reconcile_balances_def bind_eq_Some_conv Let_def split: if_splits)
  from value_clients_exact [OF assms(1) v] d assms(1) show ?thesis by (auto dest!: dec_exactD(2))
qed

lemma scan_fills_known:
  assumes "fs_errors (fold (scan_fill processed i) fills sc) = []" and "fs_exchange_only (fold (scan_fill processed i) fills sc) = []"
  shows "fs_errors sc = [] \<and> fs_exchange_only sc = [] \<and> (\<forall>f\<in>set fills. fill_known processed f)"
  using assms
proof (induction fills arbitrary: sc)
  case (Cons f fills)
  from Cons.IH [of "scan_fill processed i f sc"] Cons.prems show ?case
    by (auto simp: scan_fill_def split: if_splits)
qed simp

lemma scan_client_known:
  assumes "fs_errors (scan_client_fills processed cl sc) = []" and "fs_exchange_only (scan_client_fills processed cl sc) = []"
  shows "fs_errors sc = [] \<and> fs_exchange_only sc = [] \<and> (\<exists>fills. cs_recent_fills cl = Some (Inr fills) \<and> (\<forall>f\<in>set fills. fill_known processed f))"
proof (cases "cs_recent_fills cl")
  case None
  with assms show ?thesis by (simp add: scan_client_fills_def)
next
  case (Some ans)
  then show ?thesis using assms scan_fills_known [of processed "cs_client_index cl" _ sc]
    by (cases ans) (simp_all add: scan_client_fills_def)
qed

lemma scan_clients_known:
  assumes "fs_errors (fold (scan_client_fills processed) cls sc) = []" and "fs_exchange_only (fold (scan_client_fills processed) cls sc) = []"
  shows "fs_errors sc = [] \<and> fs_exchange_only sc = [] \<and>
    (\<forall>cl\<in>set cls. \<exists>fills. cs_recent_fills cl = Some (Inr fills) \<and> (\<forall>f\<in>set fills. fill_known processed f))"
  using assms
proof (induction cls arbitrary: sc)
  case (Cons cl cls)
  from Cons.IH [of "scan_client_fills processed cl sc"] Cons.prems have
    "fs_errors (scan_client_fills processed cl sc) = []" "fs_exchange_only (scan_client_fills processed cl sc) = []"
    "\<forall>cl\<in>set cls. \<exists>fills. cs_recent_fills cl = Some (Inr fills) \<and> (\<forall>f\<in>set fills. fill_known processed f)" by simp_all
  with scan_client_known [OF this(1,2)] show ?case by auto
qed simp

lemma sort_Nil_iff [simp]: "sort xs = [] \<longleftrightarrow> xs = []"
  by (metis length_0_conv length_sort)

lemma fills_healthy:
  assumes "fr_healthy (reconcile_recent_fills cls processed)"
  shows "\<forall>cl\<in>set cls. \<exists>fills. cs_recent_fills cl = Some (Inr fills) \<and> (\<forall>f\<in>set fills. fill_known processed f)"
proof -
  let ?sc = "\<lparr>fs_exchange_only = [], fs_errors = (if cls = [] then [general_note ''no execution clients returned recent-fill snapshots''] else []),
      fs_observed = {}\<rparr>"
  from assms have "fs_errors (fold (scan_client_fills processed) cls ?sc) = []"
    "fs_exchange_only (fold (scan_client_fills processed) cls ?sc) = []"
    by (simp_all add: reconcile_recent_fills_def Let_def)
  from scan_clients_known [OF this] show ?thesis by blast
qed

subsection \<open>What a healthy comparison of inventories says\<close>

lemma scan_records_exact:
  assumes "scan_records D i rs (m, errs) = Some (m', {})"
  shows "errs = {} \<and> (\<forall>r\<in>set rs. m' (inv_asset r) = Some r) \<and> (\<forall>k. k \<notin> inv_asset ` set rs \<longrightarrow> m' k = m k) \<and>
    (\<forall>r\<in>set rs. m (inv_asset r) = None)"
  using assms
proof (induction rs arbitrary: m errs)
  case (Cons r rs)
  then obtain v where v: "inventory_validate D r = Some v" by (auto simp: bind_eq_Some_conv)
  show ?case
  proof (cases v)
    case (Inl e)
    with v Cons.prems have "scan_records D i rs (m, insert (Diag ''malformed asset inventory'' (Some i) [inv_asset r] (Some e)) errs) = Some (m', {})"
      by simp
    from Cons.IH [OF this] show ?thesis by simp
  next
    case (Inr u)
    let ?errs = "if m (inv_asset r) \<noteq> None
      then insert (Diag ''duplicate authoritative asset inventory identity'' (Some i) [inv_asset r] None) errs else errs"
    from v Inr Cons.prems have "scan_records D i rs (m(inv_asset r \<mapsto> r), ?errs) = Some (m', {})" by (simp split del: if_split)
    from Cons.IH [OF this] have ih: "?errs = {}" "\<forall>q\<in>set rs. m' (inv_asset q) = Some q"
      "\<forall>k. k \<notin> inv_asset ` set rs \<longrightarrow> m' k = (m(inv_asset r \<mapsto> r)) k" "\<forall>q\<in>set rs. (m(inv_asset r \<mapsto> r)) (inv_asset q) = None"
      by blast+
    from ih(4) have fresh: "inv_asset r \<notin> inv_asset ` set rs" by fastforce
    from ih(4) have "\<forall>q\<in>set rs. m (inv_asset q) = None" by (auto split: if_splits)
    then show ?thesis using ih fresh by (auto split: if_splits)
  qed
qed simp

text \<open>What the venues hold is what the engine holds.\<close>

definition inventories_agree :: "worker_reconcile_snapshot \<Rightarrow> account_view \<Rightarrow> bool" where
  "inventories_agree cls av \<longleftrightarrow>
     (\<forall>cl\<in>set cls. spot_inventory cl \<longrightarrow>
        cs_account_id cl = av_account_id av \<and>
        (\<exists>rs. cs_asset_inventory cl = Some (Inr rs) \<and>
           (\<forall>r\<in>set rs. \<exists>l. av_asset_inventory av (inv_asset r) = Some l \<and> \<not> amounts_differ l r) \<and>
           dom (av_asset_inventory av) = inv_asset ` set rs))"

lemma scan_inventory_client_exact:
  assumes "scan_inventory_client D av cl (m, errs) = Some (m', {})"
  obtains rs where "errs = {}" "cs_account_id cl = av_account_id av" "cs_asset_inventory cl = Some (Inr rs)"
    "\<forall>r\<in>set rs. m' (inv_asset r) = Some r" "\<forall>k. k \<notin> inv_asset ` set rs \<longrightarrow> m' k = m k"
proof -
  from assms obtain rs errs' where 1: "cs_asset_inventory cl = Some (Inr rs)"
    and 2: "scan_records D (cs_client_index cl) rs (m, errs') = Some (m', {})"
    and 3: "errs' = {} \<Longrightarrow> errs = {} \<and> cs_account_id cl = av_account_id av"
    by (auto simp: scan_inventory_client_def Let_def split: option.splits sum.splits if_splits)
  from scan_records_exact [OF 2] 1 3 show thesis by (intro that) auto
qed

lemma scan_local_errors:
  "scan_local_inventory D m ks errs = Some errs' \<Longrightarrow> errs \<subseteq> errs'"
proof (induction ks arbitrary: errs)
  case (Cons k ks)
  show ?case
  proof (cases "m k")
    case None
    with Cons show ?thesis by simp
  next
    case (Some r)
    with Cons.prems obtain v where v: "inventory_validate D r = Some v" by (auto simp: bind_eq_Some_conv Let_def)
    let ?e1 = "if k \<noteq> inv_asset r then insert (Diag ''local asset inventory key does not match asset identity'' None [k, inv_asset r] None) errs else errs"
    let ?e2 = "case v of Inl e \<Rightarrow> insert (Diag ''local asset inventory is malformed'' None [k] (Some e)) ?e1 | Inr _ \<Rightarrow> ?e1"
    from Some v Cons.prems have "scan_local_inventory D m ks ?e2 = Some errs'" by (simp add: Let_def split del: if_split)
    from Cons.IH [OF this] show ?thesis by (auto split: sum.splits if_splits)
  qed
qed simp

lemma inventory_report_healthy:
  assumes "ir_healthy (inventory_report_of local exchange errs)" and "finite (dom local)" and "finite (dom exchange)"
  shows "dom local = dom exchange" and "\<And>a l x. local a = Some l \<Longrightarrow> exchange a = Some x \<Longrightarrow> \<not> amounts_differ l x"
proof -
  let ?assets = "sorted_list_of_set (dom local \<union> dom exchange)"
  have set: "set ?assets = dom local \<union> dom exchange" using assms(2,3) by simp
  have "\<forall>a\<in>dom local \<union> dom exchange. local a \<noteq> None \<longrightarrow> exchange a \<noteq> None"
    "\<forall>a\<in>dom local \<union> dom exchange. exchange a \<noteq> None \<longrightarrow> local a \<noteq> None"
    using assms(1) set by (simp_all add: inventory_report_of_def Let_def filter_empty_conv) blast+
  then show "dom local = dom exchange" by blast
  have none: "inventory_mismatch_of local exchange a = None" if "a \<in> dom local" for a
    using assms(1) that set by (auto simp: inventory_report_of_def Let_def map_filter_Nil_iff)
  show "\<not> amounts_differ l x" if "local a = Some l" "exchange a = Some x" for a l x
    using none [of a] domI [of local a l] that by (auto simp: inventory_mismatch_of_def split: if_splits)
qed

lemma scan_inventory_clients_clean:
  "scan_inventory_clients D av cls (m, errs) = Some (m', {}) \<Longrightarrow> errs = {}"
proof (induction cls arbitrary: m errs)
  case (Cons cl cls)
  then obtain m1 e1 where c: "scan_inventory_client D av cl (m, errs) = Some (m1, e1)"
    "scan_inventory_clients D av cls (m1, e1) = Some (m', {})" by (auto simp: bind_eq_Some_conv)
  from Cons.IH [OF this(2)] c(1) have "scan_inventory_client D av cl (m, errs) = Some (m1, {})" by simp
  then show ?case by (rule scan_inventory_client_exact)
qed simp

lemma inventory_healthy:
  assumes "reconcile_asset_inventory D iks cls av = Some (Some r)" and "ir_healthy r" and "finite (dom (av_asset_inventory av))"
  shows "inventories_agree cls av"
proof -
  let ?auth = "filter spot_inventory cls" and ?l = "av_asset_inventory av"
  from assms(1) obtain exchange e1 e2 where
    1: "scan_inventory_clients D av ?auth (Map.empty, inventory_scope_errors cls av) = Some (exchange, e1)"
    and 2: "scan_local_inventory D ?l iks e1 = Some e2"
    and r: "r = inventory_report_of ?l exchange e2"
    by (auto simp: reconcile_asset_inventory_def Let_def bind_eq_Some_conv split: if_splits)
  from assms(2) r have "e2 = {}" by (simp add: inventory_report_of_def Let_def)
  with scan_local_errors [OF 2] have e1: "e1 = {}" by simp
  show ?thesis
  proof (cases ?auth)
    case Nil
    then show ?thesis by (auto simp: inventories_agree_def filter_empty_conv)
  next
    case (Cons cl rest)
    from scan_inventory_clients_clean 1 have "inventory_scope_errors cls av = {}" unfolding e1 .
    then have "length ?auth \<le> 1" by (simp add: inventory_scope_errors_def Let_def split: if_splits)
    with Cons have auth: "?auth = [cl]" by simp
    with 1 have "scan_inventory_client D av cl (Map.empty, inventory_scope_errors cls av) = Some (exchange, {})"
      by (auto simp: e1 bind_eq_Some_conv)
    then obtain rs where rs: "cs_account_id cl = av_account_id av" "cs_asset_inventory cl = Some (Inr rs)"
      "\<forall>r\<in>set rs. exchange (inv_asset r) = Some r" "\<forall>k. k \<notin> inv_asset ` set rs \<longrightarrow> exchange k = None"
      by (rule scan_inventory_client_exact)
    then have dom: "dom exchange = inv_asset ` set rs" by (auto simp: dom_def)
    note same = inventory_report_healthy [OF assms(2) [unfolded r] assms(3)]
    have agree: "\<exists>l. ?l (inv_asset r) = Some l \<and> \<not> amounts_differ l r" if "r \<in> set rs" for r
      using same dom rs(3) that by (metis domD finite_imageI finite_set imageI)
    have "dom ?l = inv_asset ` set rs" using same(1) dom by simp
    then have here: "cs_account_id cl = av_account_id av \<and> (\<exists>rs. cs_asset_inventory cl = Some (Inr rs) \<and>
        (\<forall>r\<in>set rs. \<exists>l. ?l (inv_asset r) = Some l \<and> \<not> amounts_differ l r) \<and> dom ?l = inv_asset ` set rs)"
      using rs(1,2) agree by blast
    have "set ?auth = {cl}" using auth by simp
    then have "c = cl" if "c \<in> set cls" "spot_inventory c" for c using that by auto
    with here show ?thesis unfolding inventories_agree_def by blast
  qed
qed

subsection \<open>What a healthy comparison of positions says\<close>

definition quantity_in :: "position list \<Rightarrow> string \<Rightarrow> decimal" where
  "quantity_in ps s = sum_list (map (\<lambda>p. if pos_symbol p = Symbol s then pos_quantity p else 0) ps)"

definition client_quantity :: "string \<Rightarrow> account_client_snapshot \<Rightarrow> decimal" where
  "client_quantity s cl = (if spot_inventory cl then 0 else quantity_in (ok_answer (cs_positions cl)) s)"

text \<open>A token of Polymarket is looked for at Polymarket and at clients of unknown venue, when Polymarket is connected.\<close>

definition in_scope :: "worker_reconcile_snapshot \<Rightarrow> string \<Rightarrow> venue_id option \<Rightarrow> bool" where
  "in_scope cls s v \<longleftrightarrow>
     is_polymarket_token_symbol s \<and> (\<exists>cl\<in>set cls. \<not> spot_inventory cl \<and> cs_venue cl = Some POLYMARKET) \<longrightarrow>
     v = Some POLYMARKET \<or> v = None"

definition venue_quantity :: "worker_reconcile_snapshot \<Rightarrow> string \<Rightarrow> decimal" where
  "venue_quantity cls s = sum_list (map (client_quantity s) (filter (\<lambda>cl. in_scope cls s (cs_venue cl)) cls))"

lemma symbol_text_iff: "x = Symbol s \<longleftrightarrow> symbol_text x = s"
  by (cases x) auto

lemma add_quantities_exact:
  assumes "dec_exact D" and "add_quantities D ps m = Some m'"
  shows "unwrap_or 0 (m' s) = unwrap_or 0 (m s) + quantity_in ps s"
  using assms(2)
proof (induction ps arbitrary: m)
  case (Cons p ps)
  then obtain q where q: "d_add D (unwrap_or 0 (m (symbol_text (pos_symbol p)))) (pos_quantity p) = Some q"
    "add_quantities D ps (m(symbol_text (pos_symbol p) \<mapsto> q)) = Some m'" by (auto simp: bind_eq_Some_conv)
  from Cons.IH [OF q(2)] q(1) assms(1) show ?case
    by (auto simp: quantity_in_def symbol_text_iff dest!: dec_exactD(1))
qed (simp add: quantity_in_def)

lemma add_quantities_finite: "add_quantities D ps m = Some m' \<Longrightarrow> finite (dom m) \<Longrightarrow> finite (dom m')"
  by (induction ps arbitrary: m) (auto simp: bind_eq_Some_conv)

definition tallied :: "worker_reconcile_snapshot \<Rightarrow> by_venue \<Rightarrow> bool" where
  "tallied cls bv \<longleftrightarrow>
     dom bv = cs_venue ` {cl \<in> set cls. \<not> spot_inventory cl} \<and>
     (\<forall>v vp. bv v = Some vp \<longrightarrow> vp_blockers vp = [] \<and> finite (dom (vp_quantities vp)) \<and>
        (\<forall>s. unwrap_or 0 (vp_quantities vp s) = sum_list (map (client_quantity s) (filter (\<lambda>cl. cs_venue cl = v) cls))))"

lemma scan_position_client_cases:
  assumes "scan_position_client D cl (bv, errs) = Some (bv', {})"
  obtains (spot) "spot_inventory cl" "bv' = bv" "errs = {}"
  | (positions) ps m where "\<not> spot_inventory cl" "cs_positions cl = Some (Inr ps)" "errs = {}"
      "add_quantities D ps (vp_quantities (unwrap_or no_positions (bv (cs_venue cl)))) = Some m"
      "bv' = bv(cs_venue cl \<mapsto> (unwrap_or no_positions (bv (cs_venue cl)))\<lparr>vp_quantities := m\<rparr>)"
  using assms by (auto simp: scan_position_client_def Let_def bind_eq_Some_conv split: if_splits option.splits sum.splits)

lemma scan_position_clients_clean:
  "scan_position_clients D cls (bv, errs) = Some (bv', {}) \<Longrightarrow> errs = {}"
proof (induction cls arbitrary: bv errs)
  case (Cons cl cls)
  then obtain b1 e1 where c: "scan_position_client D cl (bv, errs) = Some (b1, e1)"
    "scan_position_clients D cls (b1, e1) = Some (bv', {})" by (auto simp: bind_eq_Some_conv)
  from Cons.IH [OF this(2)] c(1) have "scan_position_client D cl (bv, errs) = Some (b1, {})" by simp
  then show ?case by (rule scan_position_client_cases)
qed simp

lemma tallied_empty:
  assumes "tallied cls bv" and "bv v = None"
  shows "sum_list (map (client_quantity s) (filter (\<lambda>cl. cs_venue cl = v) cls)) = 0"
proof -
  from assms have "v \<notin> cs_venue ` {cl \<in> set cls. \<not> spot_inventory cl}" by (auto simp: tallied_def)
  then have "client_quantity s cl = 0" if "cl \<in> set cls" "cs_venue cl = v" for cl
    using that by (auto simp: client_quantity_def)
  then have "sum_list (map (client_quantity s) (filter (\<lambda>cl. cs_venue cl = v) cls)) =
      sum_list (map (\<lambda>_. 0) (filter (\<lambda>cl. cs_venue cl = v) cls))"
    by (intro arg_cong [where f = sum_list] map_cong) auto
  also have "\<dots> = 0" by (rule sum_list_0)
  finally show ?thesis .
qed

lemma tallied_step:
  assumes "dec_exact D" and "scan_position_client D cl (bv, errs) = Some (bv', {})" and "tallied seen bv"
  shows "tallied (seen @ [cl]) bv'"
  using assms(2)
proof (cases rule: scan_position_client_cases)
  case spot
  then show ?thesis using assms(3) by (auto simp: tallied_def client_quantity_def)
next
  case (positions ps m)
  let ?v = "cs_venue cl" and ?old = "unwrap_or no_positions (bv (cs_venue cl))"
  have old: "vp_blockers ?old = []" "finite (dom (vp_quantities ?old))" "\<And>s. unwrap_or 0 (vp_quantities ?old s) =
      sum_list (map (client_quantity s) (filter (\<lambda>c. cs_venue c = ?v) seen))"
    using assms(3) tallied_empty [OF assms(3), of ?v] by (cases "bv ?v"; simp add: tallied_def no_positions_def)+
  have new: "unwrap_or 0 (m s) = sum_list (map (client_quantity s) (filter (\<lambda>c. cs_venue c = ?v) (seen @ [cl])))" for s
    using add_quantities_exact [OF assms(1) positions(4), of s] positions(1,2) by (simp add: old(3) client_quantity_def)
  have "dom bv' = cs_venue ` {c \<in> set (seen @ [cl]). \<not> spot_inventory c}"
    using assms(3) positions(1,5) by (auto simp: tallied_def)
  moreover have "vp_blockers vp = [] \<and> finite (dom (vp_quantities vp)) \<and> (\<forall>s. unwrap_or 0 (vp_quantities vp s) =
      sum_list (map (client_quantity s) (filter (\<lambda>c. cs_venue c = v) (seen @ [cl]))))" if "bv' v = Some vp" for v vp
  proof (cases "v = ?v")
    case True
    then show ?thesis using that positions(5) old(1) new add_quantities_finite [OF positions(4) old(2)] by auto
  next
    case False
    then show ?thesis using that positions(5) assms(3) by (auto simp: tallied_def)
  qed
  ultimately show ?thesis unfolding tallied_def by blast
qed

lemma scan_positions_tallied:
  assumes "dec_exact D" and "scan_position_clients D cls (bv, errs) = Some (bv', {})" and "tallied seen bv"
  shows "tallied (seen @ cls) bv'"
  using assms(2,3)
proof (induction cls arbitrary: bv errs seen)
  case (Cons cl cls)
  then obtain b1 e1 where c: "scan_position_client D cl (bv, errs) = Some (b1, e1)"
    and rest: "scan_position_clients D cls (b1, e1) = Some (bv', {})" by (auto simp: bind_eq_Some_conv)
  from c scan_position_clients_clean [OF rest] have "scan_position_client D cl (bv, errs) = Some (b1, {})" by simp
  from Cons.IH [OF rest tallied_step [OF assms(1) this Cons.prems(2)]] show ?case by simp
qed simp

lemma sum_list_by_group:
  assumes "finite V" and "\<forall>x\<in>set xs. g x \<in> V \<or> f x = (0 :: 'a :: comm_monoid_add)"
  shows "sum_list (map f xs) = (\<Sum>v\<in>V. sum_list (map f (filter (\<lambda>x. g x = v) xs)))"
  using assms(2)
proof (induction xs)
  case (Cons x xs)
  have "(\<Sum>v\<in>V. sum_list (map f (filter (\<lambda>y. g y = v) (x # xs)))) =
      (\<Sum>v\<in>V. (if g x = v then f x else 0) + sum_list (map f (filter (\<lambda>y. g y = v) xs)))"
    by (rule sum.cong) auto
  also have "\<dots> = (if g x \<in> V then f x else 0) + (\<Sum>v\<in>V. sum_list (map f (filter (\<lambda>y. g y = v) xs)))"
    using assms(1) by (simp add: sum.distrib sum.delta')
  finally show ?case using Cons by auto
qed simp

definition venue_holds :: "by_venue \<Rightarrow> string \<Rightarrow> venue_id option \<Rightarrow> decimal" where
  "venue_holds bv s v = unwrap_or 0 (vp_quantities (unwrap_or no_positions (bv v)) s)"

lemma scan_venues_Cons:
  assumes "scan_venues D poly s bv (v # vs) sc = Some y"
  obtains (skip) "poly" "v \<noteq> Some POLYMARKET" "v \<noteq> None" "scan_venues D poly s bv vs sc = Some y"
  | (add) q where "poly \<longrightarrow> v = Some POLYMARKET \<or> v = None" "d_add D (sy_quantity sc) (venue_holds bv s v) = Some q"
      "scan_venues D poly s bv vs (sc\<lparr>sy_scoped := True, sy_quantity := q\<rparr>) = Some y"
  | (block) sc1 where "poly \<longrightarrow> v = Some POLYMARKET \<or> v = None" "vp_blockers (unwrap_or no_positions (bv v)) \<noteq> []"
      "sy_errors sc \<subseteq> sy_errors sc1" "scan_venues D poly s bv vs sc1 = Some y"
proof (cases "poly \<and> v \<noteq> Some POLYMARKET \<and> v \<noteq> None")
  case True
  then show thesis using assms by (intro skip) (simp_all split: if_splits)
next
  case False
  show thesis
  proof (cases "vp_blockers (unwrap_or no_positions (bv v)) = []")
    case True
    from assms False obtain q where "d_add D (sy_quantity sc) (venue_holds bv s v) = Some q"
      "scan_venues D poly s bv vs (sc\<lparr>sy_scoped := True, sy_quantity := q\<rparr>) = Some y"
      unfolding scan_venues.simps Let_def if_not_P [OF False] if_P [OF True] bind_eq_Some_conv venue_holds_def by blast
    with False show thesis by (intro add) auto
  next
    case blocked: False
    from assms show thesis
      unfolding scan_venues.simps Let_def if_not_P [OF False] if_not_P [OF blocked] using False blocked by (intro block) auto
  qed
qed

lemma scan_venues_errors: "scan_venues D poly s bv vs sc = Some y \<Longrightarrow> sy_errors sc \<subseteq> sy_errors y"
proof (induction vs arbitrary: sc)
  case (Cons v vs)
  from Cons.prems show ?case
  proof (cases rule: scan_venues_Cons)
    case skip
    then show ?thesis using Cons.IH by simp
  next
    case (add q)
    then show ?thesis using Cons.IH [OF add(3)] by simp
  next
    case (block sc1)
    then show ?thesis using Cons.IH [OF block(4)] by simp
  qed
qed simp

lemma scan_venues_exact:
  assumes "dec_exact D" and "\<And>v vp. bv v = Some vp \<Longrightarrow> vp_blockers vp = []" and "scan_venues D poly s bv vs sc = Some y"
  shows "sy_quantity y = sy_quantity sc +
    sum_list (map (venue_holds bv s) (filter (\<lambda>v. poly \<longrightarrow> v = Some POLYMARKET \<or> v = None) vs))"
  using assms(3)
proof (induction vs arbitrary: sc)
  case (Cons v vs)
  have free: "vp_blockers (unwrap_or no_positions (bv v)) = []" using assms(2) by (cases "bv v") (auto simp: no_positions_def)
  from Cons.prems show ?case
  proof (cases rule: scan_venues_Cons)
    case skip
    then show ?thesis using Cons.IH by auto
  next
    case (add q)
    with assms(1) Cons.IH [OF add(3)] show ?thesis by (auto dest!: dec_exactD(1))
  next
    case (block sc1)
    with free show ?thesis by simp
  qed
qed simp

definition clean_scan :: "position_scan \<Rightarrow> bool" where
  "clean_scan sc \<longleftrightarrow> ps_errors sc = {} \<and> ps_local_only sc = [] \<and> ps_exchange_only sc = [] \<and> ps_quantity_mismatch sc = []"

lemma scan_symbol_agrees:
  assumes "dec_exact D" and "scan_symbol D local bv s sc = Some sc'" and "clean_scan sc'"
  obtains y where "clean_scan sc" "\<bar>unwrap_or 0 (local s) - sy_quantity y\<bar> \<le> position_tolerance"
    "scan_venues D (is_polymarket_token_symbol s \<and> bv (Some POLYMARKET) \<noteq> None) s bv (sorted_list_of_set (dom bv))
       \<lparr>sy_quantity = 0, sy_scoped = False, sy_blocked = False, sy_errors = {}\<rparr> = Some y"
proof -
  let ?poly = "is_polymarket_token_symbol s \<and> bv (Some POLYMARKET) \<noteq> None" and ?l = "unwrap_or 0 (local s)"
  from assms(2) obtain y where y: "scan_venues D ?poly s bv (sorted_list_of_set (dom bv))
       \<lparr>sy_quantity = 0, sy_scoped = False, sy_blocked = False, sy_errors = ps_errors sc\<rparr> = Some y"
    by (auto simp: scan_symbol_def Let_def bind_eq_Some_conv)
  have tol: "0 \<le> position_tolerance" by (simp add: position_tolerance_def)
  from assms(2,3) y have none: "sy_errors y = {}" and clean: "ps_local_only sc = []" "ps_exchange_only sc = []" "ps_quantity_mismatch sc = []"
    and whole: "sy_scoped y" "\<not> sy_blocked y" "?l \<noteq> 0 \<longleftrightarrow> sy_quantity y \<noteq> 0"
    by (auto simp: scan_symbol_def Let_def clean_scan_def bind_eq_Some_conv split: if_splits)
  have near: "\<bar>?l - sy_quantity y\<bar> \<le> position_tolerance"
  proof (rule ccontr)
    assume "\<not> \<bar>?l - sy_quantity y\<bar> \<le> position_tolerance"
    moreover from this tol whole(3) have "?l \<noteq> 0" "sy_quantity y \<noteq> 0" by auto
    ultimately show False using assms y whole(1,2)
      by (auto simp: scan_symbol_def Let_def clean_scan_def bind_eq_Some_conv dest!: dec_exactD(2))
  qed
  from scan_venues_errors [OF y] none have "ps_errors sc = {}" by simp
  with y clean near show thesis by (intro that [of y]) (simp_all add: clean_scan_def)
qed

lemma scan_symbols_agree:
  assumes "dec_exact D" and "scan_symbols D local bv ss sc = Some sc'" and "clean_scan sc'"
  shows "clean_scan sc \<and> (\<forall>s\<in>set ss. \<exists>y. \<bar>unwrap_or 0 (local s) - sy_quantity y\<bar> \<le> position_tolerance \<and>
    scan_venues D (is_polymarket_token_symbol s \<and> bv (Some POLYMARKET) \<noteq> None) s bv (sorted_list_of_set (dom bv))
       \<lparr>sy_quantity = 0, sy_scoped = False, sy_blocked = False, sy_errors = {}\<rparr> = Some y)"
  using assms(2)
proof (induction ss arbitrary: sc)
  case (Cons s ss)
  then obtain sc1 where 1: "scan_symbol D local bv s sc = Some sc1" and 2: "scan_symbols D local bv ss sc1 = Some sc'"
    by (auto simp: bind_eq_Some_conv)
  note ih = Cons.IH [OF 2]
  from scan_symbol_agrees [OF assms(1) 1] ih show ?case by (metis set_ConsD)
qed (simp add: assms(3))

lemma tallied_quantity:
  assumes "tallied cls bv"
  shows "sum_list (map (venue_holds bv s) (filter (\<lambda>v. is_polymarket_token_symbol s \<and> bv (Some POLYMARKET) \<noteq> None \<longrightarrow>
      v = Some POLYMARKET \<or> v = None) (sorted_list_of_set (dom bv)))) = venue_quantity cls s"
proof -
  have fin: "finite (dom bv)" using assms by (simp add: tallied_def)
  have scope: "(is_polymarket_token_symbol s \<and> bv (Some POLYMARKET) \<noteq> None \<longrightarrow> v = Some POLYMARKET \<or> v = None) \<longleftrightarrow> in_scope cls s v" for v
  proof -
    have "bv (Some POLYMARKET) \<noteq> None \<longleftrightarrow> Some POLYMARKET \<in> cs_venue ` {cl \<in> set cls. \<not> spot_inventory cl}"
      using assms by (auto simp: tallied_def)
    also have "\<dots> \<longleftrightarrow> (\<exists>cl\<in>set cls. \<not> spot_inventory cl \<and> cs_venue cl = Some POLYMARKET)" by (auto simp: image_iff)
    finally show ?thesis by (simp add: in_scope_def)
  qed
  let ?V = "{v \<in> dom bv. in_scope cls s v}"
  let ?cls = "filter (\<lambda>cl. in_scope cls s (cs_venue cl)) cls"
  have holds: "venue_holds bv s v = sum_list (map (client_quantity s) (filter (\<lambda>cl. cs_venue cl = v) ?cls))" if "v \<in> ?V" for v
  proof -
    from that obtain vp where "bv v = Some vp" by auto
    moreover have "filter (\<lambda>cl. cs_venue cl = v) ?cls = filter (\<lambda>cl. cs_venue cl = v) cls"
      using that by (auto simp: filter_filter intro: filter_cong)
    ultimately show ?thesis using assms by (simp add: venue_holds_def tallied_def)
  qed
  have "sum_list (map (venue_holds bv s) (filter (in_scope cls s) (sorted_list_of_set (dom bv)))) = (\<Sum>v\<in>?V. venue_holds bv s v)"
    using fin by (subst sum_list_distinct_conv_sum_set) (auto intro: sum.cong)
  also have "\<dots> = (\<Sum>v\<in>?V. sum_list (map (client_quantity s) (filter (\<lambda>cl. cs_venue cl = v) ?cls)))"
    by (rule sum.cong) (simp_all only: holds)
  also have "\<dots> = sum_list (map (client_quantity s) ?cls)"
  proof (rule sum_list_by_group [symmetric])
    show "\<forall>cl\<in>set ?cls. cs_venue cl \<in> ?V \<or> client_quantity s cl = 0"
      using assms by (auto simp: tallied_def client_quantity_def)
  qed (use fin in simp)
  finally show ?thesis by (simp only: scope venue_quantity_def)
qed

text \<open>For every symbol the engine's position is that of the venues, up to the tolerance.\<close>

definition positions_agree :: "worker_reconcile_snapshot \<Rightarrow> (symbol \<rightharpoonup> position) \<Rightarrow> bool" where
  "positions_agree cls positions \<longleftrightarrow>
     (\<forall>cl\<in>set cls. \<not> spot_inventory cl \<longrightarrow> (\<exists>ps. cs_positions cl = Some (Inr ps))) \<and>
     (\<forall>s. \<bar>unwrap_or 0 (local_quantities positions s) - venue_quantity cls s\<bar> \<le> position_tolerance)"

lemma scan_positions_answered:
  "scan_position_clients D cls (bv, errs) = Some (bv', {}) \<Longrightarrow>
   \<forall>cl\<in>set cls. \<not> spot_inventory cl \<longrightarrow> (\<exists>ps. cs_positions cl = Some (Inr ps))"
proof (induction cls arbitrary: bv errs)
  case (Cons cl cls)
  then obtain b1 e1 where c: "scan_position_client D cl (bv, errs) = Some (b1, e1)"
    and rest: "scan_position_clients D cls (b1, e1) = Some (bv', {})" by (auto simp: bind_eq_Some_conv)
  from c scan_position_clients_clean [OF rest] have "scan_position_client D cl (bv, errs) = Some (b1, {})" by simp
  then have "\<not> spot_inventory cl \<longrightarrow> (\<exists>ps. cs_positions cl = Some (Inr ps))" by (rule scan_position_client_cases) auto
  with Cons.IH [OF rest] show ?case by simp
qed simp

lemma positions_healthy:
  assumes "dec_exact D" and "reconcile_positions D cls positions = Some r" and "pr_healthy r" and "finite (dom positions)"
  shows "positions_agree cls positions"
proof -
  let ?local = "local_quantities positions"
  from assms(2,3) obtain bv errs sc where 1: "scan_position_clients D cls (Map.empty, {}) = Some (bv, errs)"
    and 2: "scan_symbols D ?local bv (sorted_list_of_set (position_symbols ?local bv))
       \<lparr>ps_local_only = [], ps_exchange_only = [], ps_quantity_mismatch = [], ps_errors = errs\<rparr> = Some sc"
    and 3: "clean_scan sc"
    by (auto simp: reconcile_positions_def Let_def bind_eq_Some_conv clean_scan_def)
  note agree = scan_symbols_agree [OF assms(1) 2 3]
  then have "errs = {}" by (simp add: clean_scan_def)
  with 1 have scan: "scan_position_clients D cls (Map.empty, {}) = Some (bv, {})" by simp
  have "tallied [] Map.empty" by (simp add: tallied_def)
  from scan_positions_tallied [OF assms(1) scan this] have bv: "tallied cls bv" by simp
  have "\<bar>unwrap_or 0 (?local s) - venue_quantity cls s\<bar> \<le> position_tolerance" for s
  proof (cases "s \<in> position_symbols ?local bv")
    case True
    have "dom ?local \<subseteq> symbol_text ` dom positions" by (force simp: local_quantities_def)
    moreover have "finite (ran bv)" using bv by (simp add: tallied_def finite_ran)
    ultimately have "finite (position_symbols ?local bv)"
      using bv finite_surj [OF assms(4), of "dom ?local" symbol_text] by (auto simp: position_symbols_def tallied_def ran_def)
    with True agree obtain y where y: "\<bar>unwrap_or 0 (?local s) - sy_quantity y\<bar> \<le> position_tolerance"
      "scan_venues D (is_polymarket_token_symbol s \<and> bv (Some POLYMARKET) \<noteq> None) s bv (sorted_list_of_set (dom bv))
         \<lparr>sy_quantity = 0, sy_scoped = False, sy_blocked = False, sy_errors = {}\<rparr> = Some y" by auto
    have "sy_quantity y = venue_quantity cls s"
      using scan_venues_exact [OF assms(1) _ y(2)] bv tallied_quantity [OF bv, of s] by (simp add: tallied_def)
    with y(1) show ?thesis by simp
  next
    case False
    then have "?local s = None" "\<And>v vp. bv v = Some vp \<Longrightarrow> vp_quantities vp s = None"
      by (auto simp: position_symbols_def ran_def)
    then have "venue_holds bv s v = 0" for v by (cases "bv v") (auto simp: venue_holds_def no_positions_def)
    with tallied_quantity [OF bv, of s] have "venue_quantity cls s = 0" by (simp cong: map_cong)
    with \<open>?local s = None\<close> show ?thesis by (simp add: position_tolerance_def)
  qed
  with scan_positions_answered [OF scan] show ?thesis by (simp add: positions_agree_def)
qed

end
