(* ===== verification/Control_Properties.thy ===== *)
theory Control_Properties
  imports Execution_Control Reconciliation_Exact
begin

text \<open>
  What the control plane guarantees: a healthy reconciliation vouches for the accounts, and a guarded reconciliation
  leaves the engine trading only after one, whatever the other tasks do while it waits.
\<close>

subsection \<open>Modes along the steps of a reconciliation\<close>

lemma tightens_stops: "tightens e e' \<Longrightarrow> mode_of e \<in> {Paused, Emergency} \<Longrightarrow> mode_of e' \<in> {Paused, Emergency}"
  and tightens_emergency: "tightens e e' \<Longrightarrow> mode_of e = Emergency \<Longrightarrow> mode_of e' = Emergency"
  by (auto simp: tightens_def)

lemma pause_mode [simp]: "mode_of (pause_trading e) = (if mode_of e = Emergency then Emergency else Paused)"
  by (simp add: pause_trading_def refuse_emergency_downgrade_def Let_def)

lemma pause_stops: "mode_of (pause_trading e) \<in> {Paused, Emergency}"
  by simp

lemma publish_mode:
  assumes "engine_publish_account_readback E e aks iks av = Some (e', r)"
  shows "mode_of e' = mode_of e"
proof (cases "en_portfolio_manager e")
  case None
  with assms show ?thesis by (simp add: engine_publish_account_readback_def)
next
  case (Some pm)
  with assms obtain pm' r0 where "publish_account_readback (ee_dec E) aks iks pm av = Some (pm', r0)"
    by (auto simp: engine_publish_account_readback_def bind_eq_Some_conv)
  with assms Some show ?thesis by (cases r0) (auto simp: engine_publish_account_readback_def mode_of_def Let_def)
qed

lemma confirm_mode: "confirm_risk_readback E e ids clients = Some (e', r) \<Longrightarrow> mode_of e' = mode_of e"
  by (auto simp: confirm_risk_readback_def bind_eq_Some_conv mode_of_def Let_def split: if_splits)

lemma compare_cases:
  assumes "compare_accounts E h aks now cls e = Some (e', r)"
  obtains applied worth balances compared published where
    "apply_bybit_spot_admission_backed_inventory (ee_dec E) cls (en_account_snapshot e) now = Some applied"
    "local_account_value E cls (candidate_view applied (en_account_snapshot e)) = Some worth"
    "reconcile_balances (ee_dec E) cls worth (ch_balance_tolerance_usd h) = Some balances"
    "reconcile_asset_inventory (ee_dec E) (ee_strings E (dom (av_asset_inventory (candidate_view applied (en_account_snapshot e))))) cls
       (candidate_view applied (en_account_snapshot e)) = Some compared"
    "publish_candidate E aks applied (inventory_outcome applied compared) e = Some (e', published)"
    "\<And>rp. r = Ok rp \<Longrightarrow> \<exists>positions. reconcile_positions (ee_dec E) cls (av_positions (en_account_snapshot e)) = Some positions \<and>
       rp = \<lparr>rp_balances = Some balances, rp_inventory = inventory_outcome applied compared, rp_positions = Some positions,
             rp_fills = Some (reconcile_recent_fills cls (ps_processed_fill_ids (export_portfolio_state E e)))\<rparr>"
proof -
  from assms obtain applied worth balances compared e1 published where c:
    "apply_bybit_spot_admission_backed_inventory (ee_dec E) cls (en_account_snapshot e) now = Some applied"
    "local_account_value E cls (candidate_view applied (en_account_snapshot e)) = Some worth"
    "reconcile_balances (ee_dec E) cls worth (ch_balance_tolerance_usd h) = Some balances"
    "reconcile_asset_inventory (ee_dec E) (ee_strings E (dom (av_asset_inventory (candidate_view applied (en_account_snapshot e))))) cls
       (candidate_view applied (en_account_snapshot e)) = Some compared"
    "publish_candidate E aks applied (inventory_outcome applied compared) e = Some (e1, published)"
    by (auto simp: compare_accounts_def Let_def bind_eq_Some_conv)
  with assms show thesis
    by (cases published) (auto simp: compare_accounts_def Let_def bind_eq_Some_conv intro: that)
qed

lemma compare_mode:
  assumes "compare_accounts E h aks now cls e = Some (e', r)"
  shows "mode_of e' = mode_of e"
  using assms
proof (cases rule: compare_cases)
  case (1 applied worth balances compared published)
  from 1(5) show ?thesis
    by (auto simp: publish_candidate_def dest: publish_mode split: sum.splits option.splits if_splits)
qed

lemma locked_mode:
  assumes "reconcile_locked E h aks now inc cls e = Some (e', r)"
  shows "mode_of e' = mode_of e"
proof -
  from assms obtain e1 compared where c: "(if inc then compare_accounts E h aks now cls e
        else Some (e, Ok \<lparr>rp_balances = None, rp_inventory = None, rp_positions = None, rp_fills = None\<rparr>)) = Some (e1, compared)"
    by (auto simp: reconcile_locked_def Let_def bind_eq_Some_conv split del: if_split)
  then have e1: "mode_of e1 = mode_of e" by (auto dest: compare_mode split: if_splits)
  show ?thesis
  proof (cases compared)
    case (Inl err)
    with assms c e1 show ?thesis by (simp add: reconcile_locked_def Let_def)
  next
    case (Inr rp)
    with assms c have "e' = e1 \<or> (\<exists>r. confirm_risk_readback E e1 (fst (readback_ids cls)) (snd (readback_ids cls)) = Some (e', r))"
      by (auto simp: reconcile_locked_def Let_def bind_eq_Some_conv split: if_splits)
    with e1 show ?thesis by (auto dest: confirm_mode)
  qed
qed

lemma ready_put_mode [simp]: "ensure_risk_resume_ready E (put_mode e m) = ensure_risk_resume_ready E e"
  by (simp add: ensure_risk_resume_ready_def engine_view_def put_mode_def)

lemma closing_Err: "\<exists>err'. closing h r err = Inl err'"
  by (cases "intake_if_enabled h r") (simp_all add: closing_def)

lemma guarded_cases:
  assumes "reconcile_guarded E h aks clk gap rs reports inc truth e = Some (e', truth', res)"
  obtains (unpaused) "e' = pause_trading (gap 0 e)" "\<exists>err. res = Err err"
  | (undrained) acks err where "drain_execution_reports E (gap 1 (pause_trading (gap 0 e))) reports = Some (e', acks, Err err)" "res = Err err"
  | (failed) e1 acks n e2 t err where "drain_execution_reports E (gap 1 (pause_trading (gap 0 e))) reports = Some (e1, acks, Ok n)"
      "control_reconcile E h aks clk (gap 3) (gr_snapshot rs) inc truth (gap 2 e1) = Some (e2, t, err)"
      "e' = pause_trading (gap 4 e2)" "\<And>rep. res = Ok rep \<Longrightarrow> \<not> rt_healthy rep"
  | (idle) e1 acks n e2 t rep where "drain_execution_reports E (gap 1 (pause_trading (gap 0 e))) reports = Some (e1, acks, Ok n)"
      "control_reconcile E h aks clk (gap 3) (gr_snapshot rs) inc truth (gap 2 e1) = Some (e2, t, Ok rep)"
      "mode_of e \<in> {Paused, Emergency}" "e' = gap 4 e2" "res = Ok rep"
  | (resume) e1 acks n e2 t rep r where "drain_execution_reports E (gap 1 (pause_trading (gap 0 e))) reports = Some (e1, acks, Ok n)"
      "control_reconcile E h aks clk (gap 3) (gr_snapshot rs) inc truth (gap 2 e1) = Some (e2, t, Ok rep)"
      "rt_healthy rep" "mode_of e = Normal \<or> mode_of e = Degraded" "intake_if_enabled h (gr_pause rs) = Ok ()"
      "resume_trading_unlocked E h (\<lambda>k. gap (5 + k)) (gr_open rs) (gr_close rs) (mode_of e) (gap 4 e2) = Some (e', r)"
      "res = and_then r (\<lambda>_. Ok rep)"
proof (cases "intake_if_enabled h (gr_pause rs)")
  case (Inl err)
  with assms show thesis by (intro unpaused) (auto simp: reconcile_guarded_def pause_trading_unlocked_def Let_def)
next
  case (Inr u)
  let ?e1 = "gap 1 (pause_trading (gap 0 e))"
  from assms Inr obtain e1 acks d where d: "drain_execution_reports E ?e1 reports = Some (e1, acks, d)"
    by (auto simp: reconcile_guarded_def pause_trading_unlocked_def Let_def bind_eq_Some_conv)
  show thesis
  proof (cases d)
    case (Inl err)
    with assms \<open>intake_if_enabled h (gr_pause rs) = Inr u\<close> d show thesis
      by (intro undrained) (auto simp: reconcile_guarded_def pause_trading_unlocked_def Let_def)
  next
    case n: (Inr n)
    from assms Inr d n obtain e2 t r where r: "control_reconcile E h aks clk (gap 3) (gr_snapshot rs) inc truth (gap 2 e1) = Some (e2, t, r)"
      by (auto simp: reconcile_guarded_def pause_trading_unlocked_def Let_def bind_eq_Some_conv)
    note run = assms Inr d n r
    show thesis
    proof (cases r)
      case (Inl err)
      then show thesis using run by (intro failed [of e1 acks n e2 t r])
          (auto simp: reconcile_guarded_def pause_trading_unlocked_def Let_def split: sum.splits)
    next
      case rep: (Inr rep)
      consider "\<not> rt_healthy rep" | "rt_healthy rep" "mode_of e \<in> {Paused, Emergency}"
        | "rt_healthy rep" "mode_of e = Normal \<or> mode_of e = Degraded" by (cases "mode_of e") auto
      then show thesis
      proof cases
        case 1
        then show thesis using run rep by (intro failed [of e1 acks n e2 t r])
            (auto simp: reconcile_guarded_def pause_trading_unlocked_def Let_def and_then_def split: sum.splits)
      next
        case 2
        then show thesis using run rep by (intro idle [of e1 acks n e2 t rep])
            (auto simp: reconcile_guarded_def pause_trading_unlocked_def Let_def)
      next
        case 3
        with run rep obtain r' where "resume_trading_unlocked E h (\<lambda>k. gap (5 + k)) (gr_open rs) (gr_close rs) (mode_of e) (gap 4 e2) = Some (e', r')"
          "res = and_then r' (\<lambda>_. Ok rep)"
          by (auto simp: reconcile_guarded_def pause_trading_unlocked_def Let_def bind_eq_Some_conv)
        with 3 run rep show thesis by (intro resume [of e1 acks n e2 t rep r']) auto
      qed
    qed
  qed
qed

subsection \<open>Tasks that run while the control plane waits\<close>

locale waiting_tasks =
  fixes gap :: "nat \<Rightarrow> engine \<Rightarrow> engine"
  assumes gap_stops: "mode_of e \<in> {Paused, Emergency} \<Longrightarrow> mode_of (gap k e) \<in> {Paused, Emergency}"
    and gap_emergency: "mode_of e = Emergency \<Longrightarrow> mode_of (gap k e) = Emergency"
begin

lemma shifted_tasks: "waiting_tasks (\<lambda>k. gap (n + k))"
  by unfold_locales (simp_all add: gap_stops [simplified] gap_emergency)

text \<open>A resumption ends in the target mode when every check passed, and otherwise leaves the engine stopped.\<close>

lemma resume_outcome:
  assumes "resume_trading_unlocked E h gap r1 r2 target e = Some (e', res)" and "mode_of e \<in> {Paused, Emergency}"
    and "target = Normal \<or> target = Degraded"
  obtains (resumed) "res = Ok ()" "mode_of e' = target" "ensure_risk_resume_ready E e' = Some (Ok ())"
      "mode_of (gap 0 e) \<noteq> Emergency" "mode_of (gap 1 (gap 0 e)) \<noteq> Emergency" "mode_of e \<noteq> Emergency" "intake_if_enabled h r1 = Ok ()"
  | (refused) "mode_of e' \<in> {Paused, Emergency}" "\<exists>err. res = Err err" "mode_of e = Emergency \<Longrightarrow> mode_of e' = Emergency"
proof -
  let ?e0 = "gap 0 e" and ?e1 = "gap 1 (gap 0 e)"
  have stops: "mode_of ?e0 \<in> {Paused, Emergency}" "mode_of ?e1 \<in> {Paused, Emergency}"
    using gap_stops [OF assms(2)] gap_stops [OF gap_stops [OF assms(2)]] by blast+
  show thesis
  proof (cases "mode_of e = Emergency")
    case True
    with assms(1) show thesis by (intro refused) (auto simp: resume_trading_unlocked_def Let_def)
  next
    case running: False
    from assms(1) running obtain r where r: "ensure_risk_resume_ready E ?e0 = Some r"
      by (auto simp: resume_trading_unlocked_def Let_def bind_eq_Some_conv)
    show thesis
    proof (cases "and_then r (\<lambda>_. intake_if_enabled h r1)")
      case (Inl err)
      with assms(1) running r have "e' = ?e0" "res = Err err" by (simp_all add: resume_trading_unlocked_def Let_def)
      then show thesis using stops running by (intro refused) simp_all
    next
      case (Inr u)
      then have opened: "intake_if_enabled h r1 = Ok ()" by (cases r) auto
      show thesis
      proof (cases "mode_of ?e1 = Emergency")
        case True
        with assms(1) running r Inr have "e' = ?e1" "\<exists>c. res = closing h r2 c" by (auto simp: resume_trading_unlocked_def Let_def)
        then show thesis using True closing_Err by (intro refused) (simp, metis, simp)
      next
        case calm: False
        with gap_emergency have calm0: "mode_of ?e0 \<noteq> Emergency" by blast
        from assms(1) running r Inr calm obtain q where q: "ensure_risk_resume_ready E ?e1 = Some q"
          by (auto simp: resume_trading_unlocked_def Let_def bind_eq_Some_conv)
        show thesis
        proof (cases q)
          case (Inl err)
          with assms(1) running r \<open>and_then r _ = Inr u\<close> calm q have "e' = pause_trading ?e1" "\<exists>c. res = closing h r2 c"
            by (auto simp: resume_trading_unlocked_def Let_def)
          then show thesis using closing_Err running by (intro refused) (simp, metis, simp)
        next
          case (Inr v)
          from calm stops assms(3) have "mode_of ?e1 \<noteq> target" by auto
          then have "set_trading_mode E ?e1 target = Some (put_mode ?e1 target)"
            using calm q Inr assms(3) by (auto simp: set_trading_mode_def refuse_emergency_downgrade_def)
          with assms(1,3) running r \<open>and_then r _ = Inr u\<close> calm q Inr have "e' = put_mode ?e1 target" "res = Ok ()"
            by (auto simp: resume_trading_unlocked_def Let_def)
          then show thesis using q Inr calm calm0 running opened by (intro resumed) auto
        qed
      qed
    qed
  qed
qed

lemma reconcile_mode:
  assumes "control_reconcile E h aks clk (gap k) answer inc truth e = Some (e', truth', r)"
  shows "mode_of e' = mode_of e \<or> mode_of e' = mode_of (gap k e)"
    and "r = Ok rep \<Longrightarrow> mode_of e' = mode_of (gap k e)"
proof -
  have "(\<exists>err. e' = e \<and> r = Err err) \<or> mode_of e' = mode_of (gap k e)"
  proof (cases "ask_worker h ''reconciliation'' answer")
    case (Inl err)
    with assms show ?thesis by (auto simp: control_reconcile_def Let_def)
  next
    case (Inr cls)
    with assms obtain r' where "reconcile_locked E h aks (rk_compare clk) inc cls (gap k e) = Some (e', r')"
      by (auto simp: control_reconcile_def Let_def bind_eq_Some_conv)
    then show ?thesis by (auto dest: locked_mode)
  qed
  then show "mode_of e' = mode_of e \<or> mode_of e' = mode_of (gap k e)" "r = Ok rep \<Longrightarrow> mode_of e' = mode_of (gap k e)" by auto
qed

lemma drain_emergency:
  "drain_execution_reports E x reports = Some (y, acks, r) \<Longrightarrow> mode_of x = Emergency \<Longrightarrow> mode_of y = Emergency"
  using drain_covered tightens_emergency by (fastforce simp: halt_covered_def)

lemma drain_stops:
  "drain_execution_reports E x reports = Some (y, acks, r) \<Longrightarrow> mode_of x \<in> {Paused, Emergency} \<Longrightarrow> mode_of y \<in> {Paused, Emergency}"
  using drain_covered tightens_stops by (fastforce simp: halt_covered_def)

lemma reconcile_emergency:
  "control_reconcile E h aks clk (gap k) answer inc truth x = Some (y, t, r) \<Longrightarrow> mode_of x = Emergency \<Longrightarrow> mode_of y = Emergency"
  using reconcile_mode(1) gap_emergency by metis

lemma reconcile_stops:
  "control_reconcile E h aks clk (gap k) answer inc truth x = Some (y, t, r) \<Longrightarrow> mode_of x \<in> {Paused, Emergency} \<Longrightarrow>
   mode_of y \<in> {Paused, Emergency}"
  using reconcile_mode(1) gap_stops by metis

lemma guarded_keeps_emergency:
  assumes "reconcile_guarded E h aks clk gap rs reports inc truth e = Some (e', truth', res)" and "mode_of e = Emergency"
  shows "mode_of e' = Emergency"
proof -
  have start: "mode_of (gap 1 (pause_trading (gap 0 e))) = Emergency"
    by (rule gap_emergency) (simp add: gap_emergency [OF assms(2)])
  from assms(1) show ?thesis
  proof (cases rule: guarded_cases)
    case unpaused
    then show ?thesis by (simp add: gap_emergency [OF assms(2)])
  next
    case (undrained acks err)
    then show ?thesis using drain_emergency start by blast
  next
    case (failed e1 acks n e2 t err)
    then have "mode_of e1 = Emergency" using drain_emergency start by blast
    then have "mode_of e2 = Emergency" using failed(2) reconcile_emergency gap_emergency by blast
    then show ?thesis using failed(3) by (simp add: gap_emergency)
  next
    case (idle e1 acks n e2 t rep)
    then have "mode_of e1 = Emergency" using drain_emergency start by blast
    then have "mode_of e2 = Emergency" using idle(2) reconcile_emergency gap_emergency by blast
    then show ?thesis using idle(4) by (simp add: gap_emergency)
  next
    case (resume e1 acks n e2 t rep r)
    then show ?thesis using assms(2) by simp
  qed
qed

text \<open>
  A guarded reconciliation that leaves the engine trading had the pause acknowledged, was healthy, resumed the mode it
  found, and saw no emergency in any of its waits.
\<close>

lemma guarded_outcome:
  assumes "reconcile_guarded E h aks clk gap rs reports inc truth e = Some (e', truth', res)" and "mode_of e' \<notin> {Paused, Emergency}"
  shows "\<exists>rep. res = Ok rep \<and> rt_healthy rep \<and> mode_of e' = mode_of e \<and> ensure_risk_resume_ready E e' = Some (Ok ()) \<and>
        intake_if_enabled h (gr_pause rs) = Ok () \<and> intake_if_enabled h (gr_open rs) = Ok () \<and>
        (\<forall>k<7. \<exists>x. mode_of (gap k x) \<noteq> Emergency)"
proof -
  let ?d = "gap 1 (pause_trading (gap 0 e))"
  have stop: "mode_of ?d \<in> {Paused, Emergency}" by (rule gap_stops) simp
  from assms(1) show ?thesis
  proof (cases rule: guarded_cases)
    case unpaused
    then show ?thesis using assms(2) pause_stops by metis
  next
    case (undrained acks err)
    then show ?thesis using assms(2) drain_stops stop by blast
  next
    case (failed e1 acks n e2 t err)
    then show ?thesis using assms(2) pause_stops by metis
  next
    case (idle e1 acks n e2 t rep)
    have "mode_of e2 \<in> {Paused, Emergency}" using drain_stops [OF idle(1) stop] gap_stops reconcile_stops [OF idle(2)] by blast
    then show ?thesis using assms(2) idle(4) gap_stops by blast
  next
    case (resume e1 acks n e2 t rep r)
    have s2: "mode_of (gap 4 e2) \<in> {Paused, Emergency}"
      using drain_stops [OF resume(1) stop] gap_stops reconcile_stops [OF resume(2)] by blast
    from waiting_tasks.resume_outcome [OF shifted_tasks resume(6) s2 resume(4)] assms(2)
    have r: "r = Ok ()" "mode_of e' = mode_of e" "ensure_risk_resume_ready E e' = Some (Ok ())"
      "mode_of (gap 5 (gap 4 e2)) \<noteq> Emergency" "mode_of (gap 6 (gap 5 (gap 4 e2))) \<noteq> Emergency" "mode_of (gap 4 e2) \<noteq> Emergency"
      "intake_if_enabled h (gr_open rs) = Ok ()"
      by (auto elim!: waiting_tasks.resume_outcome [OF shifted_tasks])
    have m2: "mode_of e2 \<noteq> Emergency" using r(6) gap_emergency by blast
    then have m3: "mode_of (gap 3 (gap 2 e1)) \<noteq> Emergency" using reconcile_mode(2) [OF resume(2)] by simp
    then have m1: "mode_of (gap 2 e1) \<noteq> Emergency" "mode_of e1 \<noteq> Emergency" using gap_emergency by blast+
    then have "mode_of ?d \<noteq> Emergency" using drain_emergency [OF resume(1)] by blast
    moreover from this have "mode_of (gap 0 e) \<noteq> Emergency" using gap_emergency by (metis pause_mode)
    ultimately have "\<exists>x. mode_of (gap k x) \<noteq> Emergency" if "k < 7" for k
      using that r(4-6) m1(1) m3 by (auto simp: less_Suc_eq numeral_eq_Suc)
    then show ?thesis using resume(3,5,7) r by auto
  qed
qed

end

subsection \<open>The tasks of the runtime\<close>

text \<open>
  The operations that do not take the gate of the control plane: the engine's own turns, which apply reports, pauses,
  the degradation by the sentinel and an emergency. A panic ends the process.
\<close>

definition ungated :: "engine_op \<Rightarrow> bool" where
  "ungated op \<longleftrightarrow> (case op of Reports rs \<Rightarrow> True | PauseTrading \<Rightarrow> True | EnterDegradeMode \<Rightarrow> True | EmergencyExit \<Rightarrow> True | _ \<Rightarrow> False)"

definition run_op :: "engine_env \<Rightarrow> engine_op \<Rightarrow> engine \<Rightarrow> engine" where
  "run_op E op e = (case engine_apply E e op of None \<Rightarrow> e | Some (e', ok) \<Rightarrow> e')"

definition tasks :: "engine_env \<Rightarrow> (nat \<Rightarrow> engine_op list) \<Rightarrow> nat \<Rightarrow> engine \<Rightarrow> engine" where
  "tasks E ops k e = fold (run_op E) (filter ungated (ops k)) e"

lemma degrade_mode:
  assumes "enter_degrade_mode E e = Some e'"
  shows "mode_of e \<in> {Paused, Emergency} \<Longrightarrow> mode_of e' = mode_of e"
  using assms by (auto simp: enter_degrade_mode_def refuse_emergency_downgrade_def ensure_accepting_new_intents_def
      split: if_splits)

lemma run_op_mode:
  assumes "ungated op"
  shows "mode_of e \<in> {Paused, Emergency} \<Longrightarrow> mode_of (run_op E op e) \<in> {Paused, Emergency}"
    and "mode_of e = Emergency \<Longrightarrow> mode_of (run_op E op e) = Emergency"
proof -
  have "(mode_of e \<in> {Paused, Emergency} \<longrightarrow> mode_of e' \<in> {Paused, Emergency}) \<and> (mode_of e = Emergency \<longrightarrow> mode_of e' = Emergency)"
    if "engine_apply E e op = Some (e', ok)" for e' ok
  proof (cases op)
    case (Reports rs)
    with that obtain acks r where "drain_execution_reports E e rs = Some (e', acks, r)" by auto
    from drain_covered [OF this] show ?thesis using tightens_stops tightens_emergency by (auto simp: halt_covered_def)
  next
    case EnterDegradeMode
    with that degrade_mode [of E e e'] show ?thesis by auto
  qed (use that assms in \<open>auto simp: ungated_def emergency_exit_def Let_def\<close>)
  then show "mode_of e \<in> {Paused, Emergency} \<Longrightarrow> mode_of (run_op E op e) \<in> {Paused, Emergency}"
    "mode_of e = Emergency \<Longrightarrow> mode_of (run_op E op e) = Emergency"
    by (auto simp: run_op_def split: option.splits)
qed

lemma fold_ops_mode:
  assumes "\<forall>op\<in>set ops. ungated op"
  shows "mode_of e \<in> {Paused, Emergency} \<Longrightarrow> mode_of (fold (run_op E) ops e) \<in> {Paused, Emergency}"
    and "mode_of e = Emergency \<or> EmergencyExit \<in> set ops \<Longrightarrow> mode_of (fold (run_op E) ops e) = Emergency"
proof -
  show "mode_of e \<in> {Paused, Emergency} \<Longrightarrow> mode_of (fold (run_op E) ops e) \<in> {Paused, Emergency}"
    using assms by (induction ops arbitrary: e) (use run_op_mode(1) in \<open>force+\<close>)
  show "mode_of e = Emergency \<or> EmergencyExit \<in> set ops \<Longrightarrow> mode_of (fold (run_op E) ops e) = Emergency"
    using assms
  proof (induction ops arbitrary: e)
    case (Cons op ops)
    have "mode_of (run_op E op e) = Emergency" if "mode_of e = Emergency \<or> op = EmergencyExit"
      using that run_op_mode(2) Cons.prems(2) by (auto simp: run_op_def emergency_exit_def Let_def)
    then show ?case using Cons by auto
  qed simp
qed

lemma tasks_mode:
  shows "mode_of e \<in> {Paused, Emergency} \<Longrightarrow> mode_of (tasks E ops k e) \<in> {Paused, Emergency}"
    and "mode_of e = Emergency \<Longrightarrow> mode_of (tasks E ops k e) = Emergency"
    and "EmergencyExit \<in> set (ops k) \<Longrightarrow> mode_of (tasks E ops k e) = Emergency"
  unfolding tasks_def by (rule fold_ops_mode; simp add: ungated_def)+

interpretation wt: waiting_tasks "tasks E ops" for E ops
  by unfold_locales (rule tasks_mode(1,2); assumption)+

lemma map_err_Ok_iff [simp]: "map_sum f id x = Ok () \<longleftrightarrow> x = Ok ()"
  by (cases x) auto

lemma intake_acknowledged: "intake_if_enabled h r = Ok () \<Longrightarrow> ch_execution_enabled h \<Longrightarrow> r = Replied (Ok ())"
  by (cases r) (auto simp: intake_if_enabled_def set_intake_def ask_worker_def and_then_def split: if_splits sum.splits)

text \<open>
  C13. A guarded reconciliation is fail-closed. Whatever the other tasks do while it waits for the worker (apply
  execution reports, pause, degrade, declare an emergency), an emergency is never left; and when the engine trades at
  the end, the reconciliation returned a healthy report, the engine is back in the mode it was in, its reservations
  have been found ready in that state, no emergency was declared in any of the waits, and with execution enabled the
  worker had acknowledged both that its intake was closed before the venues were asked and that it was opened again.
\<close>

theorem guarded_reconciliation_fail_closed:
  assumes "reconcile_guarded E h aks clk (tasks E ops) rs reports inc truth e = Some (e', truth', res)"
  shows "(mode_of e = Emergency \<longrightarrow> mode_of e' = Emergency) \<and>
    (mode_of e' \<in> {Normal, Degraded} \<longrightarrow>
      (\<exists>rep. res = Ok rep \<and> rt_healthy rep \<and> mode_of e' = mode_of e \<and> ensure_risk_resume_ready E e' = Some (Ok ()) \<and>
        (\<forall>k<7. EmergencyExit \<notin> set (ops k)) \<and>
        (ch_execution_enabled h \<longrightarrow> gr_pause rs = Replied (Ok ()) \<and> gr_open rs = Replied (Ok ()))))"
proof (intro conjI impI)
  show "mode_of e' = Emergency" if "mode_of e = Emergency" using assms that by (rule wt.guarded_keeps_emergency)
  assume "mode_of e' \<in> {Normal, Degraded}"
  then have "mode_of e' \<notin> {Paused, Emergency}" by auto
  from wt.guarded_outcome [OF assms this] show "\<exists>rep. res = Ok rep \<and> rt_healthy rep \<and> mode_of e' = mode_of e \<and>
        ensure_risk_resume_ready E e' = Some (Ok ()) \<and> (\<forall>k<7. EmergencyExit \<notin> set (ops k)) \<and>
        (ch_execution_enabled h \<longrightarrow> gr_pause rs = Replied (Ok ()) \<and> gr_open rs = Replied (Ok ()))"
    using tasks_mode(3) intake_acknowledged by blast
qed

definition sample_client :: account_client_snapshot where
  "sample_client = \<lparr>cs_venue = Some BYBIT, cs_account_id = Some (AccountId ''a''), cs_open_orders = Ok [],
     cs_cancellable_orders = Ok [], cs_client_index = 0, cs_account_environment = None, cs_account_admission = None,
     cs_balances = Some (Ok []), cs_positions = Some (Ok []), cs_recent_fills = Some (Ok []),
     cs_asset_inventory_capability = Some PositionSnapshotRequired, cs_asset_inventory = None\<rparr>"

definition sample_replies :: guarded_replies where
  "sample_replies = \<lparr>gr_pause = Replied (Ok ()), gr_snapshot = Replied [sample_client], gr_failed = Replied (Ok ()),
     gr_open = Replied (Ok ()), gr_close = Replied (Ok ())\<rparr>"

definition sample_clock :: reconcile_clock where
  "sample_clock = \<lparr>rk_start = 1, rk_compare = 2, rk_finish = 3\<rparr>"

lemma sample_ready: "ensure_risk_resume_ready sample_engine_env (sample_engine\<lparr>en_stats := st, en_intake_pauses := n\<rparr>) = Some (Ok ())"
  by (simp add: ensure_risk_resume_ready_def engine_view_def sample_engine_def sample_engine_env_def reservations_default_def
      default_checkpoint_def has_queued_def rr_view_def project_def List.map_filter_simps)

lemma sample_no_discrepancy:
  "\<not> has_discrepancies (reconcile_open_orders sample_engine_env (sample_engine\<lparr>en_stats := st, en_intake_pauses := n\<rparr>) [sample_client])"
  by (simp add: reconcile_open_orders_def sample_engine_def sample_client_def ok_list_def has_discrepancies_def
      reconcile_with_exchange_def om_export_state_def oms_new_def Let_def sample_engine_env_def local_only_orders_def)

lemma tasks_none [simp]: "tasks E (\<lambda>k. []) k e = e"
  by (simp add: tasks_def)

lemma sample_pause: "\<exists>st n. pause_trading sample_engine = sample_engine\<lparr>en_stats := st, en_intake_pauses := n\<rparr> \<and> es_trading_mode st = Paused"
  by (simp add: pause_trading_def refuse_emergency_downgrade_def mode_of_def sample_engine_def put_mode_def
      request_worker_intake_pause_def Let_def)

theorem guarded_reconciliation_fail_closed_witness:
  "\<exists>e' truth' rep. reconcile_guarded sample_engine_env (control_handle_new True True) [] sample_clock (tasks sample_engine_env (\<lambda>k. []))
       sample_replies [] False (withdrawn_truth 0) sample_engine = Some (e', truth', Ok rep) \<and>
     mode_of e' = Normal \<and> rt_healthy rep \<and> ensure_risk_resume_ready sample_engine_env e' = Some (Ok ())"
proof -
  let ?h = "control_handle_new True True" and ?E = sample_engine_env
  obtain st n where p: "pause_trading sample_engine = sample_engine\<lparr>en_stats := st, en_intake_pauses := n\<rparr>" "es_trading_mode st = Paused"
    using sample_pause by blast
  let ?p = "sample_engine\<lparr>en_stats := st, en_intake_pauses := n\<rparr>"
  have mode: "mode_of ?p = Paused" "mode_of sample_engine = Normal" using p(2) by (simp_all add: mode_of_def sample_engine_def)
  have ack: "intake_if_enabled ?h (Replied (Ok ())) = Ok ()"
    by (simp add: intake_if_enabled_def set_intake_def ask_worker_def control_handle_new_def)
  have drain: "drain_execution_reports ?E ?p [] = Some (?p, [], Ok 0)"
    by (simp add: drain_execution_reports_def List.map_filter_simps Let_def)
  obtain rep where rep: "control_reconcile ?E ?h [] sample_clock (\<lambda>e. e) (gr_snapshot sample_replies) False (withdrawn_truth 0) ?p =
      Some (?p, withdrawn_truth 0, Ok rep)" "rt_healthy rep"
    using sample_no_discrepancy [where st = st and n = n]
    by (simp add: control_reconcile_def ask_worker_def control_handle_new_def sample_replies_def reconcile_locked_def
        snapshot_is_complete_def sample_client_def Let_def)
  have resume: "resume_trading_unlocked ?E ?h (\<lambda>k e. e) (gr_open sample_replies) (gr_close sample_replies) Normal ?p =
      Some (put_mode ?p Normal, Ok ())"
    using mode ack sample_ready [where st = st and n = n]
    by (simp add: resume_trading_unlocked_def sample_replies_def set_trading_mode_def refuse_emergency_downgrade_def Let_def)
  have tasks: "tasks ?E (\<lambda>k. []) k = (\<lambda>e. e)" for k by (rule ext) simp
  have run: "reconcile_guarded ?E ?h [] sample_clock (tasks ?E (\<lambda>k. [])) sample_replies [] False (withdrawn_truth 0) sample_engine =
      Some (put_mode ?p Normal, withdrawn_truth 0, Ok rep)"
    using p ack drain rep resume mode
    by (simp add: reconcile_guarded_def pause_trading_unlocked_def tasks sample_replies_def Let_def)
  show ?thesis using run guarded_reconciliation_fail_closed [OF run] by auto
qed

subsection \<open>What a healthy report vouches for\<close>

lemma admitted_inventory_finite:
  "admitted_inventory D bs m = Some (Ok m') \<Longrightarrow> finite (dom m) \<Longrightarrow> finite (dom m')"
proof (induction bs arbitrary: m)
  case (Cons b bs)
  then obtain r where r: "inventory_try_from D b = Some r" by (auto simp: bind_eq_Some_conv)
  show ?case
  proof (cases r)
    case (Inl err)
    with r Cons.prems(1) show ?thesis by simp
  next
    case (Inr x)
    with r Cons.prems(1) have "admitted_inventory D bs (m(inv_asset x \<mapsto> x)) = Some (Ok m')" by (simp split: if_splits)
    moreover have "finite (dom (m(inv_asset x \<mapsto> x)))" using Cons.prems(2) by (simp only: dom_fun_upd) simp
    ultimately show ?thesis by (rule Cons.IH)
  qed
qed simp

lemma candidate_finite:
  assumes "apply_bybit_spot_admission_backed_inventory D cls av now = Some applied" and "finite (dom (av_asset_inventory av))"
  shows "finite (dom (av_asset_inventory (candidate_view applied av)))" and "av_positions (candidate_view applied av) = av_positions av"
proof -
  have "finite (dom (av_asset_inventory v)) \<and> av_positions v = av_positions av" if "applied = Ok (Some v)" for v
  proof -
    from assms(1) that obtain xa :: account_execution_admission and aid inv where "admitted_inventory D (xr_balances (xa_readback xa)) Map.empty = Some inv"
      "and_then inv (\<lambda>m. Ok (Some (av\<lparr>av_account_id := Some aid, av_asset_inventory := m\<rparr>))) = Ok (Some v)"
      by (auto simp: apply_bybit_spot_admission_backed_inventory_def bind_eq_Some_conv
          split: list.splits option.splits if_splits)
    then show ?thesis by (cases inv) (auto dest: admitted_inventory_finite)
  qed
  with assms(2) show "finite (dom (av_asset_inventory (candidate_view applied av)))"
    and "av_positions (candidate_view applied av) = av_positions av"
    by (auto simp: candidate_view_def split: sum.splits option.splits)
qed

lemma inventory_absent: "reconcile_asset_inventory D iks cls av = Some None \<Longrightarrow> inventories_agree cls av"
  by (auto simp: reconcile_asset_inventory_def inventories_agree_def filter_empty_conv Let_def bind_eq_Some_conv split: if_splits)

lemma inventory_outcome_agrees:
  assumes "reconcile_asset_inventory D iks cls av = Some compared" and "is_none_or ir_healthy (inventory_outcome applied compared)"
    and "finite (dom (av_asset_inventory av))"
  shows "inventories_agree cls av"
proof (cases applied)
  case (Inl d)
  with assms(2) show ?thesis by (simp add: inventory_outcome_def malformed_inventory_def Let_def)
next
  case (Inr v)
  with assms show ?thesis
    by (cases compared) (auto simp: inventory_outcome_def intro: inventory_absent inventory_healthy)
qed

lemma confirmed_ready:
  assumes "confirm_risk_readback E e ids clients = Some (e', Ok ())"
  shows "is_ready (en_risk_reservations e')" and "\<not> has_queued (en_risk_reservations e')" and "\<not> en_reconciliation_halt e'"
proof -
  from assms obtain rr D qks ks os where c: "confirm_readback D qks ks (en_risk_reservations e) (en_account_snapshot e) os ids clients = Some (rr, Ok ())"
    and e': "e' = e\<lparr>en_risk_reservations := rr\<rparr>" "\<not> en_reconciliation_halt e"
    by (auto simp: confirm_risk_readback_def Let_def bind_eq_Some_conv split: if_splits)
  from c have "is_ready rr \<and> \<not> has_queued rr"
    by (cases rule: confirm_cases) (auto simp: is_ready_def has_queued_def put_awaiting_def put_orders_def)
  with e' show "is_ready (en_risk_reservations e')" "\<not> has_queued (en_risk_reservations e')" "\<not> en_reconciliation_halt e'" by simp_all
qed

lemma locked_cases:
  assumes "reconcile_locked E h aks now True cls e = Some (e', Ok rep)" and "rt_healthy rep"
  obtains e1 rp where "compare_accounts E h aks now cls e = Some (e1, Ok rp)" "snapshot_is_complete cls"
    "\<not> has_discrepancies (reconcile_open_orders E e cls)"
    "is_none_or br_healthy (rp_balances rp)" "is_none_or ir_healthy (rp_inventory rp)" "is_none_or pr_healthy (rp_positions rp)"
    "is_none_or fr_healthy (rp_fills rp)"
    "confirm_risk_readback E e1 (fst (readback_ids cls)) (snd (readback_ids cls)) = Some (e', Ok ())"
proof -
  from assms(1) obtain e1 compared where c: "compare_accounts E h aks now cls e = Some (e1, compared)"
    by (auto simp: reconcile_locked_def Let_def bind_eq_Some_conv)
  with assms(1) obtain rp where rp: "compared = Ok rp" by (cases compared) (auto simp: reconcile_locked_def Let_def)
  show thesis
    using assms c rp by (intro that [of e1 rp])
      (auto simp: reconcile_locked_def Let_def bind_eq_Some_conv is_ok_iff split: if_splits)
qed


lemma sample_account [simp]:
  "en_account_snapshot sample_engine = default_account_view" "ee_dec sample_engine_env = exact_dec"
  by (simp_all add: sample_engine_def sample_engine_env_def)

lemma sample_empty_keys [simp]: "ee_strings sample_engine_env {} = []" "ee_symbols sample_engine_env {} = []" "ee_orders sample_engine_env {} = []"
  by (simp_all add: sample_engine_env_def)

lemma sample_compare:
  "\<exists>rp. compare_accounts sample_engine_env (control_handle_new True True) [] 0 [sample_client] sample_engine = Some (sample_engine, Ok rp) \<and>
     is_none_or br_healthy (rp_balances rp) \<and> is_none_or br_complete (rp_balances rp) \<and> rp_inventory rp = None \<and>
     is_none_or pr_healthy (rp_positions rp) \<and> is_none_or pr_complete (rp_positions rp) \<and>
     is_none_or fr_healthy (rp_fills rp) \<and> is_none_or fr_complete (rp_fills rp)"
proof -
  have spot: "\<not> spot_inventory sample_client"
    by (simp add: spot_inventory_def resolved_asset_inventory_capability_def sample_client_def)
  have 1: "apply_bybit_spot_admission_backed_inventory exact_dec [sample_client] default_account_view 0 = Some (Ok None)"
    by (simp add: apply_bybit_spot_admission_backed_inventory_def spot)
  have 2: "local_account_value sample_engine_env [sample_client] default_account_view = Some 0"
    by (simp add: local_account_value_def spot_inventory_account_value_def spot equity_def default_account_view_def)
  have 3: "\<exists>b. reconcile_balances exact_dec [sample_client] 0 1 = Some b \<and> br_healthy b \<and> br_complete b"
    by (simp add: reconcile_balances_def sample_client_def Let_def)
  have "capability_error sample_client = {}"
    by (simp add: capability_error_def resolved_asset_inventory_capability_def sample_client_def)
  then have 4: "reconcile_asset_inventory exact_dec iks [sample_client] default_account_view = Some None" for iks
    by (simp add: reconcile_asset_inventory_def spot)
  have 5: "\<exists>p. reconcile_positions exact_dec [sample_client] (av_positions default_account_view) = Some p \<and> pr_healthy p \<and> pr_complete p"
  proof -
    have "cs_positions sample_client = Some (Inr [])" by (simp add: sample_client_def)
    then show ?thesis using spot
      by (simp add: reconcile_positions_def scan_position_client_def no_positions_def default_account_view_def
          local_quantities_def position_symbols_def ran_def Let_def)
  qed
  have 6: "fr_healthy (reconcile_recent_fills [sample_client] m) \<and> fr_complete (reconcile_recent_fills [sample_client] m)" for m
    by (simp add: reconcile_recent_fills_def scan_client_fills_def sample_client_def Let_def)
  from 3 5 obtain b q where b: "reconcile_balances exact_dec [sample_client] 0 1 = Some b" "br_healthy b" "br_complete b"
    and q: "reconcile_positions exact_dec [sample_client] (av_positions default_account_view) = Some q" "pr_healthy q" "pr_complete q"
    by blast
  show ?thesis using 1 2 4 6 b q
    by (simp add: compare_accounts_def candidate_view_def inventory_outcome_def publish_candidate_def control_handle_new_def Let_def)
qed


end
