(* ===== verification/Sentinel.thy ===== *)
theory Sentinel
  imports Control_Properties
begin

text \<open>
  The sentinel that watches latency, drawdown and the integrity of market data
  (\<open>risk-control/risk/src/sentinel.rs\<close>) and the worker that applies its actions to the engine
  (\<open>apps/live/src/helpers/sentinel.rs\<close>). Instants of the monotonic clock are numbers of nanoseconds and arguments;
  floating-point statistics are taken to be finite. The counters that only feed statistics wrap as the words they are.
\<close>

subsection \<open>Data\<close>

record sentinel_config =
  latency_warn_us :: u64
  latency_degrade_us :: u64
  latency_stop_us :: u64
  drawdown_warn_pct :: f64
  drawdown_degrade_pct :: f64
  drawdown_stop_pct :: f64
  drawdown_emergency_pct :: f64
  degrade_reduce_position_pct :: f64
  degrade_max_orders_per_second :: f64
  recovery_latency_below_us :: u64
  recovery_cooldown_secs :: u64
  consecutive_anomaly_threshold :: u32
  emergency_cancel_retries :: u32

definition default_sentinel_config :: sentinel_config where
  "default_sentinel_config = \<lparr>latency_warn_us = 15000, latency_degrade_us = 25000, latency_stop_us = 50000,
     drawdown_warn_pct = 2, drawdown_degrade_pct = 3, drawdown_stop_pct = 5, drawdown_emergency_pct = 7,
     degrade_reduce_position_pct = 50, degrade_max_orders_per_second = 1, recovery_latency_below_us = 10000,
     recovery_cooldown_secs = 300, consecutive_anomaly_threshold = 3, emergency_cancel_retries = 5\<rparr>"

datatype sentinel_action = A_Continue | A_Warn | A_Degrade | A_Stop | A_EmergencyExit

fun action_priority :: "sentinel_action \<Rightarrow> nat" where
  "action_priority A_Continue = 0" | "action_priority A_Warn = 1" | "action_priority A_Degrade = 2"
| "action_priority A_Stop = 3" | "action_priority A_EmergencyExit = 4"

definition merge_actions :: "sentinel_action \<Rightarrow> sentinel_action \<Rightarrow> sentinel_action" where
  "merge_actions a b = (if action_priority b \<le> action_priority a then a else b)"

datatype sentinel_state = S_Normal | S_Degraded | S_Stopped | S_Emergency | S_Recovering

record system_stats =
  latency_p99_us :: u64
  latency_p50_us :: u64
  ss_drawdown_pct :: f64
  ss_pnl :: f64
  ss_high_water_mark :: f64
  ss_position_count :: i64
  ss_notional_value :: f64
  ss_order_rate :: f64
  data_gap_count :: u64

record sentinel =
  se_config :: sentinel_config
  se_state :: sentinel_state
  consecutive_latency_violations :: u32
  consecutive_drawdown_violations :: u32
  last_data_gap_count :: u64
  last_violation_time :: "nat option"
  degraded_since :: "nat option"
  emergency_cancel_retries_remaining :: u32
  total_checks :: u64
  total_warnings :: u64
  total_degrades :: u64
  total_stops :: u64

definition sentinel_new :: "sentinel_config \<Rightarrow> sentinel" where
  "sentinel_new c = \<lparr>se_config = c, se_state = S_Normal, consecutive_latency_violations = 0, consecutive_drawdown_violations = 0,
     last_data_gap_count = 0, last_violation_time = None, degraded_since = None, emergency_cancel_retries_remaining = 0,
     total_checks = 0, total_warnings = 0, total_degrades = 0, total_stops = 0\<rparr>"

definition sentinel_update_config :: "sentinel \<Rightarrow> sentinel_config \<Rightarrow> sentinel" where
  "sentinel_update_config s c = s\<lparr>se_config := c\<rparr>"

subsection \<open>Checks\<close>

definition sentinel_check_latency :: "sentinel \<Rightarrow> system_stats \<Rightarrow> nat \<Rightarrow> sentinel \<times> sentinel_action" where
  "sentinel_check_latency s st now =
     (let c = se_config s;
          violated = s\<lparr>consecutive_latency_violations := consecutive_latency_violations s + 1, last_violation_time := Some now\<rparr>
      in if latency_stop_us c \<le> latency_p99_us st
         then if consecutive_anomaly_threshold c \<le> consecutive_latency_violations violated
              then (violated\<lparr>total_stops := total_stops s + 1\<rparr>, A_Stop) else (violated, A_Continue)
         else if latency_degrade_us c \<le> latency_p99_us st
         then if consecutive_anomaly_threshold c \<le> consecutive_latency_violations violated
              then (violated\<lparr>total_degrades := total_degrades s + 1\<rparr>, A_Degrade) else (violated, A_Continue)
         else if latency_warn_us c \<le> latency_p99_us st
         then (s\<lparr>total_warnings := total_warnings s + 1\<rparr>, A_Warn)
         else (s\<lparr>consecutive_latency_violations := 0\<rparr>, A_Continue))"

definition sentinel_check_drawdown :: "sentinel \<Rightarrow> system_stats \<Rightarrow> nat \<Rightarrow> sentinel \<times> sentinel_action" where
  "sentinel_check_drawdown s st now =
     (let c = se_config s;
          dd = ss_drawdown_pct st;
          violated = s\<lparr>consecutive_drawdown_violations := consecutive_drawdown_violations s + 1, last_violation_time := Some now\<rparr>
      in if drawdown_emergency_pct c \<le> dd then (s, A_EmergencyExit)
         else if drawdown_stop_pct c \<le> dd
         then if consecutive_anomaly_threshold c \<le> consecutive_drawdown_violations violated
              then (violated\<lparr>total_stops := total_stops s + 1\<rparr>, A_Stop) else (violated, A_Continue)
         else if drawdown_degrade_pct c \<le> dd
         then if consecutive_anomaly_threshold c \<le> consecutive_drawdown_violations violated
              then (violated\<lparr>total_degrades := total_degrades s + 1\<rparr>, A_Degrade) else (violated, A_Continue)
         else if drawdown_warn_pct c \<le> dd
         then (s\<lparr>total_warnings := total_warnings s + 1\<rparr>, A_Warn)
         else (s\<lparr>consecutive_drawdown_violations := 0\<rparr>, A_Continue))"

definition check_data_gap :: "sentinel \<Rightarrow> system_stats \<Rightarrow> sentinel \<times> sentinel_action" where
  "check_data_gap s st =
     (if last_data_gap_count s < data_gap_count st
      then (s\<lparr>last_data_gap_count := data_gap_count st\<rparr>, A_Stop) else (s, A_Continue))"

definition sentinel_update_state :: "sentinel \<Rightarrow> sentinel_action \<Rightarrow> nat \<Rightarrow> sentinel" where
  "sentinel_update_state s a now =
     (if se_state s = S_Emergency then s
      else case a of
        A_Degrade \<Rightarrow> (if degraded_since s = None then s\<lparr>degraded_since := Some now\<rparr> else s)\<lparr>se_state := S_Degraded\<rparr>
      | A_Stop \<Rightarrow> s\<lparr>se_state := S_Stopped\<rparr>
      | A_EmergencyExit \<Rightarrow>
          s\<lparr>emergency_cancel_retries_remaining := emergency_cancel_retries (se_config s), se_state := S_Emergency\<rparr>
      | _ \<Rightarrow> if se_state s = S_Recovering then s else s\<lparr>se_state := S_Normal\<rparr>)"

definition emergency_cancel_retry_action :: "sentinel \<Rightarrow> sentinel \<times> sentinel_action" where
  "emergency_cancel_retry_action s =
     (if emergency_cancel_retries_remaining s = 0 then (s, A_Continue)
      else (s\<lparr>emergency_cancel_retries_remaining := emergency_cancel_retries_remaining s - 1\<rparr>, A_EmergencyExit))"

definition mark_emergency_cancel_complete :: "sentinel \<Rightarrow> sentinel" where
  "mark_emergency_cancel_complete s = s\<lparr>emergency_cancel_retries_remaining := 0\<rparr>"

text \<open>Elapsed time saturates at zero; a cooldown of \<open>n\<close> seconds is \<open>n * 10^9\<close> nanoseconds.\<close>

definition should_recover :: "sentinel \<Rightarrow> system_stats \<Rightarrow> nat \<Rightarrow> bool" where
  "should_recover s st now \<longleftrightarrow>
     latency_p99_us st \<le> recovery_latency_below_us (se_config s) \<and>
     ss_drawdown_pct st \<le> drawdown_warn_pct (se_config s) \<and>
     (case last_violation_time s of
        None \<Rightarrow> True
      | Some t \<Rightarrow> unat (recovery_cooldown_secs (se_config s)) * 10 ^ 9 \<le> now - t)"

definition sentinel_recover :: "sentinel \<Rightarrow> sentinel" where
  "sentinel_recover s =
     (if se_state s = S_Emergency then s
      else s\<lparr>se_state := S_Normal, degraded_since := None, consecutive_latency_violations := 0,
             consecutive_drawdown_violations := 0\<rparr>)"

record check_clock =
  ck_latency :: nat
  ck_drawdown :: nat
  ck_state :: nat
  ck_recover :: nat

definition sentinel_check :: "sentinel \<Rightarrow> system_stats \<Rightarrow> check_clock \<Rightarrow> sentinel \<times> sentinel_action" where
  "sentinel_check s st clk =
     (let s = s\<lparr>total_checks := total_checks s + 1\<rparr>
      in if se_state s = S_Emergency then emergency_cancel_retry_action s
         else
           let (s, latency_action) = sentinel_check_latency s st (ck_latency clk);
               (s, drawdown_action) = sentinel_check_drawdown s st (ck_drawdown clk);
               (s, data_action) = check_data_gap s st;
               action = merge_actions (merge_actions latency_action drawdown_action) data_action;
               s = sentinel_update_state s action (ck_state clk)
           in if (se_state s = S_Degraded \<or> se_state s = S_Recovering) \<and> should_recover s st (ck_recover clk)
              then (sentinel_recover s, A_Continue) else (s, action))"

definition force_stop :: "sentinel \<Rightarrow> sentinel" where
  "force_stop s =
     (if se_state s = S_Emergency then s else s\<lparr>se_state := S_Stopped, total_stops := total_stops s + 1\<rparr>)"

definition force_recover :: "sentinel \<Rightarrow> sentinel" where
  "force_recover s = (if se_state s = S_Emergency then s else sentinel_recover s)"

subsection \<open>The worker\<close>

definition apply_degrade_mode :: "engine_env \<Rightarrow> engine \<Rightarrow> engine option" where
  "apply_degrade_mode E e = (if mode_of e = Emergency then Some e else enter_degrade_mode E e)"

text \<open>
  One turn of the worker while the engine runs, with the replies of the execution worker to the commands of the control
  plane. The worker only logs what \<open>pause_trading\<close> returns.
\<close>

record sentinel_replies =
  sr_pause :: "(message + unit) reply"
  sr_cancel :: "cancel_dispatch_report reply"

definition sentinel_turn ::
  "engine_env \<Rightarrow> control_handle \<Rightarrow> sentinel \<Rightarrow> engine \<Rightarrow> system_stats \<Rightarrow> check_clock \<Rightarrow> sentinel_replies
   \<Rightarrow> (sentinel \<times> engine \<times> sentinel_action) option" where
  "sentinel_turn E h s e st clk rs =
     (let (s, a) = sentinel_check s st clk
      in case a of
           A_Continue \<Rightarrow> Some (s, e, a)
         | A_Warn \<Rightarrow> Some (s, e, a)
         | A_Degrade \<Rightarrow> map_option (\<lambda>e. (s, e, a)) (apply_degrade_mode E e)
         | A_Stop \<Rightarrow> Some (s, fst (pause_trading_unlocked h (sr_pause rs) e), a)
         | A_EmergencyExit \<Rightarrow>
             let (e, targets, res) = control_emergency_stop E h True (sr_pause rs) (sr_cancel rs) e
             in Some (case res of Inr rep \<Rightarrow> if dispatch_is_complete rep then mark_emergency_cancel_complete s else s | Inl _ \<Rightarrow> s,
                      e, a))"

text \<open>A run: turns of the sentinel, in between operations of the engine; the actions it took.\<close>

datatype sentinel_event = Turn system_stats check_clock sentinel_replies | Other engine_op

fun sentinel_run ::
  "engine_env \<Rightarrow> control_handle \<Rightarrow> sentinel \<Rightarrow> engine \<Rightarrow> sentinel_event list \<Rightarrow> (sentinel \<times> engine \<times> sentinel_action list) option" where
  "sentinel_run E h s e [] = Some (s, e, [])"
| "sentinel_run E h s e (Turn st clk rs # evs) = do {
     (s, e, a) \<leftarrow> sentinel_turn E h s e st clk rs;
     (s, e, actions) \<leftarrow> sentinel_run E h s e evs;
     Some (s, e, a # actions) }"
| "sentinel_run E h s e (Other op # evs) = do {
     (e, ok) \<leftarrow> engine_apply E e op;
     sentinel_run E h s e evs }"

subsection \<open>Checks\<close>

lemma check_latency_frame:
  assumes "sentinel_check_latency s st now = (s', a)"
  shows "se_config s' = se_config s" "se_state s' = se_state s" "last_data_gap_count s' = last_data_gap_count s" "a \<noteq> A_EmergencyExit"
    "emergency_cancel_retries_remaining s' = emergency_cancel_retries_remaining s"
  using assms by (auto simp: sentinel_check_latency_def Let_def split: if_splits)

lemma check_drawdown_frame:
  assumes "sentinel_check_drawdown s st now = (s', a)"
  shows "se_config s' = se_config s" "se_state s' = se_state s" "last_data_gap_count s' = last_data_gap_count s"
    "a = A_EmergencyExit \<longleftrightarrow> drawdown_emergency_pct (se_config s) \<le> ss_drawdown_pct st"
    "emergency_cancel_retries_remaining s' = emergency_cancel_retries_remaining s"
  using assms by (auto simp: sentinel_check_drawdown_def Let_def split: if_splits)

lemma check_gap_frame:
  assumes "check_data_gap s st = (s', a)"
  shows "se_config s' = se_config s" "se_state s' = se_state s" "a \<in> {A_Stop, A_Continue}"
    "a = A_Stop \<longleftrightarrow> last_data_gap_count s < data_gap_count st"
    "emergency_cancel_retries_remaining s' = emergency_cancel_retries_remaining s"
  using assms by (auto simp: check_data_gap_def split: if_splits)

lemma merge_emergency: "merge_actions a b = A_EmergencyExit \<longleftrightarrow> a = A_EmergencyExit \<or> b = A_EmergencyExit"
  by (cases a; cases b) (simp_all add: merge_actions_def)

lemma merge_stop: "3 \<le> action_priority (merge_actions a b) \<longleftrightarrow> 3 \<le> action_priority a \<or> 3 \<le> action_priority b"
  by (auto simp: merge_actions_def)

lemma check_latched:
  assumes "sentinel_check s st clk = (s', a)" and "se_state s = S_Emergency"
  shows "se_config s' = se_config s" "se_state s' = S_Emergency" "a \<in> {A_Continue, A_EmergencyExit}"
    "a = A_EmergencyExit \<Longrightarrow> unat (emergency_cancel_retries_remaining s) = Suc (unat (emergency_cancel_retries_remaining s'))"
    "a = A_Continue \<Longrightarrow> emergency_cancel_retries_remaining s' = emergency_cancel_retries_remaining s"
  using assms by (auto simp: sentinel_check_def emergency_cancel_retry_action_def Let_def unat_minus_one unat_gt_0
      intro!: Suc_pred [symmetric] split: if_splits)

text \<open>A check outside an emergency declares one exactly on the drawdown threshold, and stops on a new gap.\<close>

lemma check_open:
  assumes "sentinel_check s st clk = (s', a)" and "se_state s \<noteq> S_Emergency"
  shows "se_config s' = se_config s"
    and "a = A_EmergencyExit \<longleftrightarrow> drawdown_emergency_pct (se_config s) \<le> ss_drawdown_pct st"
    and "se_state s' = S_Emergency \<longleftrightarrow> a = A_EmergencyExit"
    and "a = A_EmergencyExit \<Longrightarrow> emergency_cancel_retries_remaining s' = emergency_cancel_retries (se_config s)"
    and "last_data_gap_count s < data_gap_count st \<Longrightarrow> a \<in> {A_Stop, A_EmergencyExit}"
proof -
  let ?s0 = "s\<lparr>total_checks := total_checks s + 1\<rparr>"
  obtain s1 l where 1: "sentinel_check_latency ?s0 st (ck_latency clk) = (s1, l)" by fastforce
  obtain s2 d where 2: "sentinel_check_drawdown s1 st (ck_drawdown clk) = (s2, d)" by fastforce
  obtain s3 g where 3: "check_data_gap s2 st = (s3, g)" by fastforce
  note f = check_latency_frame [OF 1] check_drawdown_frame [OF 2] check_gap_frame [OF 3]
  let ?a = "merge_actions (merge_actions l d) g"
  let ?u = "sentinel_update_state s3 ?a (ck_state clk)"
  have run: "(s', a) = (if (se_state ?u = S_Degraded \<or> se_state ?u = S_Recovering) \<and> should_recover ?u st (ck_recover clk)
      then (sentinel_recover ?u, A_Continue) else (?u, ?a))"
    using assms 1 2 3 by (simp add: sentinel_check_def Let_def split: if_splits)
  have emergency: "?a = A_EmergencyExit \<longleftrightarrow> drawdown_emergency_pct (se_config s) \<le> ss_drawdown_pct st"
    using f by (auto simp: merge_emergency)
  have state: "se_state ?u = S_Emergency \<longleftrightarrow> ?a = A_EmergencyExit" "se_config ?u = se_config s"
    using f assms(2) by (auto simp: sentinel_update_state_def split: sentinel_action.splits)
  have stop: "?a \<in> {A_Stop, A_EmergencyExit}" if "last_data_gap_count s < data_gap_count st"
  proof -
    from that f have "g = A_Stop" by simp
    then have "3 \<le> action_priority ?a" by (simp add: merge_stop)
    then show ?thesis by (cases ?a) auto
  qed
  have stopped: "se_state ?u \<notin> {S_Degraded, S_Recovering}" if "?a \<in> {A_Stop, A_EmergencyExit}"
    using that f assms(2) by (auto simp: sentinel_update_state_def)
  show "se_config s' = se_config s" using run state(2) by (auto simp: sentinel_recover_def split: if_splits)
  show "a = A_EmergencyExit \<longleftrightarrow> drawdown_emergency_pct (se_config s) \<le> ss_drawdown_pct st"
    using run emergency stopped by (auto split: if_splits)
  show "se_state s' = S_Emergency \<longleftrightarrow> a = A_EmergencyExit"
    using run state(1) stopped by (auto simp: sentinel_recover_def split: if_splits)
  show "emergency_cancel_retries_remaining s' = emergency_cancel_retries (se_config s)" if "a = A_EmergencyExit"
    using run that f assms(2) by (auto simp: sentinel_update_state_def split: if_splits)
  show "a \<in> {A_Stop, A_EmergencyExit}" if "last_data_gap_count s < data_gap_count st"
    using run stop [OF that] stopped by (auto split: if_splits)
qed

subsection \<open>Turns\<close>

fun severity :: "trading_mode \<Rightarrow> nat" where
  "severity Normal = 0" | "severity Degraded = 1" | "severity Paused = 2" | "severity Emergency = 3"

lemma emergency_stop_mode: "control_emergency_stop E h True p r e = (e', targets, res) \<Longrightarrow> mode_of e' = Emergency"
  by (auto simp: control_emergency_stop_def emergency_exit_def Let_def)

lemma degrade_severity:
  assumes "apply_degrade_mode E e = Some e'"
  shows "severity (mode_of e) \<le> severity (mode_of e')"
proof -
  have "mode_of e' = mode_of e \<or> mode_of e' = Degraded \<and> mode_of e \<in> {Normal, Degraded}"
    using assms by (cases "mode_of e") (auto simp: apply_degrade_mode_def enter_degrade_mode_def refuse_emergency_downgrade_def
        bind_eq_Some_conv split: if_splits)
  then show ?thesis by auto
qed

lemma turn_cases:
  assumes "sentinel_turn E h s e st clk rs = Some (s', e', a)"
  obtains s1 where "sentinel_check s st clk = (s1, a)" "s' = s1 \<or> s' = mark_emergency_cancel_complete s1"
    "severity (mode_of e) \<le> severity (mode_of e')" "a = A_EmergencyExit \<Longrightarrow> mode_of e' = Emergency"
    "a = A_Stop \<Longrightarrow> mode_of e' \<in> {Paused, Emergency}" "a \<noteq> A_EmergencyExit \<Longrightarrow> s' = s1"
proof -
  obtain s1 b where c: "sentinel_check s st clk = (s1, b)" by fastforce
  obtain x targets res where stop: "control_emergency_stop E h True (sr_pause rs) (sr_cancel rs) e = (x, targets, res)" by (metis prod_cases3)
  note x = emergency_stop_mode [OF stop]
  have top: "severity m \<le> severity Emergency" for m by (cases m) auto
  show thesis
  proof (cases b)
    case A_EmergencyExit
    with assms c stop have "e' = x" "b = a" "s' = s1 \<or> s' = mark_emergency_cancel_complete s1"
      by (auto simp: sentinel_turn_def Let_def split: sum.splits if_splits)
    then show thesis using c x top A_EmergencyExit by (intro that [of s1]) auto
  next
    case A_Degrade
    with assms c have "apply_degrade_mode E e = Some e'" "b = a" "s' = s1" by (auto simp: sentinel_turn_def)
    then show thesis using c degrade_severity A_Degrade by (intro that [of s1]) auto
  next
    case A_Stop
    with assms c have e: "e' = pause_trading e" and "b = a" "s' = s1" by (auto simp: sentinel_turn_def pause_trading_unlocked_def)
    moreover have "severity (mode_of e) \<le> severity (mode_of e')" unfolding e by (cases "mode_of e") auto
    ultimately show thesis using c A_Stop by (intro that [of s1]) (auto split: if_splits)
  qed (use assms c in \<open>auto simp: sentinel_turn_def intro: that\<close>)
qed

text \<open>
  A turn of the sentinel never relaxes the trading mode: it stays or becomes more severe. A gap in the market data that
  the sentinel had not seen yet leaves the engine paused or in an emergency at once.
\<close>

theorem sentinel_turn_tightens:
  assumes "sentinel_turn E h s e st clk rs = Some (s', e', a)"
  shows "severity (mode_of e) \<le> severity (mode_of e') \<and>
    (se_state s \<noteq> S_Emergency \<and> last_data_gap_count s < data_gap_count st \<longrightarrow> mode_of e' \<in> {Paused, Emergency})"
  using assms
proof (cases rule: turn_cases)
  case (1 s1)
  then show ?thesis using check_open(5) [OF 1(1)] by auto
qed

subsection \<open>Runs\<close>

fun emergency_reading :: "sentinel_config \<Rightarrow> sentinel_event \<Rightarrow> bool" where
  "emergency_reading c (Turn st clk rs) \<longleftrightarrow> drawdown_emergency_pct c \<le> ss_drawdown_pct st"
| "emergency_reading c (Other op) \<longleftrightarrow> False"

lemma emergency_kept_by_ops:
  assumes "engine_apply E e op = Some (e', ok)" and "mode_of e = Emergency"
  shows "mode_of e' = Emergency"
  using assms(1) by (cases rule: engine_apply_cases) (use assms(2) in \<open>auto simp: tightens_def relaxes_def cleared_def\<close>)

lemma mark_complete_frame [simp]:
  "se_config (mark_emergency_cancel_complete s) = se_config s" "se_state (mark_emergency_cancel_complete s) = se_state s"
  "emergency_cancel_retries_remaining (mark_emergency_cancel_complete s) = 0"
  by (simp_all add: mark_emergency_cancel_complete_def)

lemma latched_run:
  assumes "sentinel_run E h s e evs = Some (s', e', acts)" and "se_state s = S_Emergency" and "mode_of e = Emergency"
  shows "se_state s' = S_Emergency \<and> mode_of e' = Emergency \<and>
    count_list acts A_EmergencyExit \<le> unat (emergency_cancel_retries_remaining s)"
  using assms
proof (induction E h s e evs arbitrary: acts rule: sentinel_run.induct)
  case (2 E h s e st clk rs evs)
  then obtain s1 e1 a acts1 where t: "sentinel_turn E h s e st clk rs = Some (s1, e1, a)"
    and r: "sentinel_run E h s1 e1 evs = Some (s', e', acts1)" and acts: "acts = a # acts1" by (auto simp: bind_eq_Some_conv)
  from t show ?case
  proof (cases rule: turn_cases)
    case (1 s2)
    note c = check_latched [OF 1(1) 2(3)]
    have "mode_of e1 = Emergency" using 1(3) 2(4) by (cases "mode_of e1") auto
    moreover have "se_state s1 = S_Emergency" using 1(2) c(2) by auto
    ultimately have ih: "se_state s' = S_Emergency \<and> mode_of e' = Emergency \<and>
        count_list acts1 A_EmergencyExit \<le> unat (emergency_cancel_retries_remaining s1)" using 2(1) [OF t] r by simp
    have "(if a = A_EmergencyExit then 1 else 0) + unat (emergency_cancel_retries_remaining s1) \<le> unat (emergency_cancel_retries_remaining s)"
      using 1(2,6) c(3-5) by auto
    then show ?thesis using ih acts by auto
  qed
next
  case (3 E h s e op evs)
  then obtain e1 ok where "engine_apply E e op = Some (e1, ok)" "sentinel_run E h s e1 evs = Some (s', e', acts)"
    by (auto simp: bind_eq_Some_conv)
  with 3 emergency_kept_by_ops show ?case by auto
qed auto

text \<open>
  C15. The sentinel declares an emergency exactly when it has to, and an emergency is for good. In every run of the
  sentinel's turns, interleaved with any operations of the engine, it orders an emergency exit if and only if one of the
  readings reached the emergency drawdown; from then on the sentinel and the engine stay in the emergency; and it orders
  the exit at most once more than the configured number of retries.
\<close>

theorem sentinel_emergency_exact:
  assumes "sentinel_run E h (sentinel_new c) e evs = Some (s', e', acts)"
  shows "(A_EmergencyExit \<in> set acts \<longleftrightarrow> list_ex (emergency_reading c) evs) \<and>
    (A_EmergencyExit \<in> set acts \<longrightarrow> se_state s' = S_Emergency \<and> mode_of e' = Emergency) \<and>
    count_list acts A_EmergencyExit \<le> 1 + unat (emergency_cancel_retries c)"
proof -
  have "(A_EmergencyExit \<in> set acts \<longleftrightarrow> list_ex (emergency_reading c) evs) \<and>
    (A_EmergencyExit \<in> set acts \<longrightarrow> se_state s' = S_Emergency \<and> mode_of e' = Emergency) \<and>
    count_list acts A_EmergencyExit \<le> 1 + unat (emergency_cancel_retries c)"
    if "sentinel_run E h s e evs = Some (s', e', acts)" "se_config s = c" "se_state s \<noteq> S_Emergency" for s
    using that
  proof (induction E h s e evs arbitrary: acts rule: sentinel_run.induct)
    case (2 E h s e st clk rs evs)
    then obtain s1 e1 a acts1 where t: "sentinel_turn E h s e st clk rs = Some (s1, e1, a)"
      and r: "sentinel_run E h s1 e1 evs = Some (s', e', acts1)" and acts: "acts = a # acts1" by (auto simp: bind_eq_Some_conv)
    from t show ?case
    proof (cases rule: turn_cases)
      case (1 s2)
      note k = check_open [OF 1(1) 2(4), unfolded 2(3)]
      have s1: "se_config s1 = c" "se_state s1 = se_state s2" using 1(2) k(1) by auto
      show ?thesis
      proof (cases "a = A_EmergencyExit")
        case True
        have "unat (emergency_cancel_retries_remaining s1) \<le> unat (emergency_cancel_retries c)" using 1(2) k(4) True by auto
        with latched_run [OF r] s1 k True 1(4) acts show ?thesis by auto
      next
        case False
        with 2(1) [OF t refl refl r] s1 k acts show ?thesis by simp
      qed
    qed
  next
    case (3 E h s e op evs)
    then obtain e1 ok where "engine_apply E e op = Some (e1, ok)" "sentinel_run E h s e1 evs = Some (s', e', acts)"
      by (auto simp: bind_eq_Some_conv)
    with 3 show ?case by auto
  qed auto
  from this [OF assms] show ?thesis by (simp add: sentinel_new_def)
qed

definition sample_stats :: system_stats where
  "sample_stats = \<lparr>latency_p99_us = 100, latency_p50_us = 50, ss_drawdown_pct = 8, ss_pnl = 0, ss_high_water_mark = 0,
     ss_position_count = 0, ss_notional_value = 0, ss_order_rate = 0, data_gap_count = 0\<rparr>"

definition sample_check_clock :: check_clock where
  "sample_check_clock = \<lparr>ck_latency = 0, ck_drawdown = 0, ck_state = 0, ck_recover = 0\<rparr>"

definition sample_sentinel_replies :: sentinel_replies where
  "sample_sentinel_replies = \<lparr>sr_pause = Replied (Ok ()), sr_cancel = ReplyTimedOut\<rparr>"

theorem sentinel_emergency_exact_witness:
  "\<exists>s' e'. sentinel_run sample_engine_env (control_handle_new True True) (sentinel_new default_sentinel_config) sample_engine
       [Turn sample_stats sample_check_clock sample_sentinel_replies, Other ResumeTrading] = Some (s', e', [A_EmergencyExit]) \<and>
     mode_of e' = Emergency"
proof -
  let ?E = sample_engine_env and ?h = "control_handle_new True True" and ?t = "Turn sample_stats sample_check_clock sample_sentinel_replies"
  let ?e = "fst (emergency_exit ?E sample_engine)"
  obtain s where "sentinel_turn ?E ?h (sentinel_new default_sentinel_config) sample_engine sample_stats sample_check_clock
      sample_sentinel_replies = Some (s, ?e, A_EmergencyExit)"
    by (simp add: sentinel_turn_def sentinel_check_def sentinel_new_def default_sentinel_config_def sample_stats_def
        sentinel_check_latency_def sentinel_check_drawdown_def check_data_gap_def merge_actions_def sentinel_update_state_def
        control_emergency_stop_def dispatch_cancellations_def ask_worker_def control_handle_new_def sample_sentinel_replies_def Let_def)
  moreover have "engine_apply ?E ?e ResumeTrading = Some (?e, True)"
    by (simp add: resume_trading_def refuse_emergency_downgrade_def emergency_exit_def Let_def)
  ultimately have run: "sentinel_run ?E ?h (sentinel_new default_sentinel_config) sample_engine [?t, Other ResumeTrading] =
      Some (s, ?e, [A_EmergencyExit])" by simp
  show ?thesis using run sentinel_emergency_exact [OF run] by auto
qed

subsection \<open>Where the sentinel departs from its intent\<close>

text \<open>
  A stop is not remembered: the next check with quiet readings puts the sentinel back to normal, with no operator and no
  cooldown. Only the engine's own pause keeps trading stopped.
\<close>

lemma stop_is_forgotten:
  assumes "se_state s = S_Stopped" and "\<not> latency_warn_us (se_config s) \<le> latency_p99_us st"
    and "\<not> latency_degrade_us (se_config s) \<le> latency_p99_us st" and "\<not> latency_stop_us (se_config s) \<le> latency_p99_us st"
    and "ss_drawdown_pct st < drawdown_warn_pct (se_config s)" and "ss_drawdown_pct st < drawdown_degrade_pct (se_config s)"
    and "ss_drawdown_pct st < drawdown_stop_pct (se_config s)" and "ss_drawdown_pct st < drawdown_emergency_pct (se_config s)"
    and "\<not> last_data_gap_count s < data_gap_count st"
  shows "\<exists>s'. sentinel_check s st clk = (s', A_Continue) \<and> se_state s' = S_Normal"
  using assms by (simp add: sentinel_check_def sentinel_check_latency_def sentinel_check_drawdown_def check_data_gap_def
      merge_actions_def sentinel_update_state_def Let_def)

text \<open>Readings at the warning level leave the counters of consecutive violations as they are.\<close>

lemma warning_keeps_violations:
  assumes "latency_warn_us (se_config s) \<le> latency_p99_us st" and "\<not> latency_degrade_us (se_config s) \<le> latency_p99_us st"
    and "\<not> latency_stop_us (se_config s) \<le> latency_p99_us st"
  shows "\<exists>s'. sentinel_check_latency s st now = (s', A_Warn) \<and>
     consecutive_latency_violations s' = consecutive_latency_violations s"
  using assms by (simp add: sentinel_check_latency_def Let_def)

end
