(* ===== verification/Execution_Worker.thy ===== *)
theory Execution_Worker
  imports Execution_Control Rate_Budget
begin

text \<open>
  The execution worker (\<open>market-core/engine/src/execution_worker.rs\<close>): the task that takes order intents from the
  queue, selects a venue client for each, checks account admission and the request budget, submits, tracks open
  orders, follows the private event streams of the clients and answers control commands.

  The clients, the clocks, the router and the far end of every channel are the environment \<open>worker_env\<close>. Each reading of it has a
  number, the tick of the worker, so an answer may depend on when it is asked for and on nothing else that the model
  fixes. What the worker does to the outside (orders, cancellations, reports, replies) is appended to \<open>w_log\<close>; a
  report sent reliably is one entry (the queue delivers it, theory \<open>Execution_Queues\<close>). A channel that is read until
  it is empty is the list of what arrived. Panics are \<open>None\<close>. Logging, metrics and the latency monitor are left out.
\<close>

subsection \<open>Configuration, clients, tracked orders\<close>

datatype client_selection_strategy = ConsistentHash | RoundRobin

record worker_config =
  wc_batch_size :: usize
  wc_client_selection :: client_selection_strategy
  wc_ack_timeout_ms :: u64
  wc_reconcile_interval_ms :: u64

definition default_worker_config :: worker_config where
  "default_worker_config = \<lparr>wc_batch_size = 16, wc_client_selection = ConsistentHash, wc_ack_timeout_ms = 3000,
     wc_reconcile_interval_ms = 5000\<rparr>"

definition high_performance :: worker_config where
  "high_performance = default_worker_config\<lparr>wc_batch_size := 64, wc_ack_timeout_ms := 2000\<rparr>"

text \<open>What an execution client declares of itself.\<close>

record execution_client =
  xc_is_simulated_execution :: bool
  xc_asset_inventory_capability :: asset_inventory_capability
  xc_price_protection :: execution_price_protection
  xc_stream_may_complete :: bool
  xc_supports_recent_fills :: bool

record worker_stats =
  ws_intents_processed :: u64
  ws_orders_placed :: u64
  ws_orders_failed :: u64
  ws_events_sent :: u64
  ws_recent_execution_latency_micros :: "u64 option"

definition default_worker_stats :: worker_stats where
  "default_worker_stats = \<lparr>ws_intents_processed = 0, ws_orders_placed = 0, ws_orders_failed = 0, ws_events_sent = 0,
     ws_recent_execution_latency_micros = None\<rparr>"

record tracked_order =
  tr_symbol :: symbol
  tr_strategy_id :: string
  tr_venue :: "venue_id option"
  tr_account_id :: "account_id option"
  tr_side :: side
  tr_limit_price :: "price option"
  tr_remaining_quantity :: quantity
  tr_processed_fill_ids :: "string set"

record pending_ack =
  pa_symbol :: symbol
  pa_submitted_at :: nat
  pa_cancel_sent :: bool

subsection \<open>Timelines of an order\<close>

record execution_span_snapshot =
  sp_intent_to_risk_us :: "u64 option"
  sp_risk_to_write_us :: "u64 option"
  sp_userspace_write_us :: "u64 option"
  sp_write_to_response_us :: "u64 option"
  sp_write_to_private_ack_us :: "u64 option"
  sp_write_to_private_report_us :: "u64 option"
  sp_intent_to_private_report_us :: "u64 option"

record execution_timeline =
  tl_client_idx :: usize
  tl_intent_emitted :: "u64 option"
  tl_risk_completed :: "u64 option"
  tl_write_started :: "u64 option"
  tl_write_returned :: "u64 option"
  tl_response_received :: "u64 option"
  tl_private_ack_received :: "u64 option"
  tl_private_report_received :: "u64 option"

record submission_attempt =
  sa_outcome :: "hft_error + order_id"
  sa_write_started :: "u64 option"
  sa_write_returned :: "u64 option"
  sa_response_received :: "u64 option"

definition timeline_from_lifecycle :: "order_intent_lifecycle \<Rightarrow> usize \<Rightarrow> execution_timeline" where
  "timeline_from_lifecycle l i = \<lparr>tl_client_idx = i, tl_intent_emitted = intent_emitted_mono_us (lc_timing l),
     tl_risk_completed = risk_completed_mono_us (lc_timing l), tl_write_started = None, tl_write_returned = None,
     tl_response_received = None, tl_private_ack_received = None, tl_private_report_received = None\<rparr>"

definition apply_submission :: "submission_attempt \<Rightarrow> execution_timeline \<Rightarrow> execution_timeline" where
  "apply_submission a t = t\<lparr>tl_write_started := sa_write_started a, tl_write_returned := sa_write_returned a,
     tl_response_received := sa_response_received a\<rparr>"

fun apply_private :: "private_order_event_kind \<Rightarrow> u64 \<Rightarrow> execution_timeline \<Rightarrow> execution_timeline" where
  "apply_private Ack received t = t\<lparr>tl_private_ack_received := Some received\<rparr>"
| "apply_private Report received t = t\<lparr>tl_private_report_received := Some received\<rparr>"

definition elapsed :: "u64 option \<Rightarrow> u64 option \<Rightarrow> u64 option" where
  "elapsed start stop = do { a \<leftarrow> start; b \<leftarrow> stop; checked_sub b a }"

definition spans :: "execution_timeline \<Rightarrow> execution_span_snapshot" where
  "spans t = \<lparr>
     sp_intent_to_risk_us = elapsed (tl_intent_emitted t) (tl_risk_completed t),
     sp_risk_to_write_us = elapsed (tl_risk_completed t) (tl_write_started t),
     sp_userspace_write_us = elapsed (tl_write_started t) (tl_write_returned t),
     sp_write_to_response_us = elapsed (tl_write_returned t) (tl_response_received t),
     sp_write_to_private_ack_us = elapsed (tl_write_returned t) (tl_private_ack_received t),
     sp_write_to_private_report_us = elapsed (tl_write_returned t) (tl_private_report_received t),
     sp_intent_to_private_report_us = elapsed (tl_intent_emitted t) (tl_private_report_received t)\<rparr>"

subsection \<open>Control commands and what the worker does to the outside\<close>

datatype cancel_scope = ScopeExplicit | ScopeAll | ScopeFilter "symbol option" "venue_id option" | ScopeStrategy string

fun scope_matches :: "cancel_scope \<Rightarrow> tracked_order \<Rightarrow> bool" where
  "scope_matches ScopeExplicit t = False"
| "scope_matches ScopeAll t = True"
| "scope_matches (ScopeFilter sm ven) t =
     (is_none_or (\<lambda>s. tr_symbol t = s) sm \<and> is_none_or (\<lambda>v. tr_venue t = Some v) ven)"
| "scope_matches (ScopeStrategy s) t = (tr_strategy_id t = s)"

datatype control_command =
    CancelOrders "cancel_target list" cancel_scope
  | EnterEmergency "cancel_target list"
  | ReconcileAccounts bool bool bool
  | SetIntake bool
  | ReplaceOrder order_id symbol "quantity option" "price option"

datatype control_reply =
    CancelReply cancel_dispatch_report
  | SnapshotReply worker_reconcile_snapshot
  | ResultReply "message + unit"

datatype execution_stream_item =
    StreamEvent usize "hft_error + execution_event"
  | StreamCompleted usize

datatype worker_action =
    Received order_intent_envelope
  | Placed usize order_intent_envelope "hft_error + order_id"
  | RejectedUnsent string string timestamp
  | Reported execution_event
  | CancelSent usize order_id
  | ModifySent usize order_id "quantity option" "price option"
  | StreamAcknowledged usize u64
  | Replied control_reply

record client_answers =
  ca_open_orders :: "hft_error + open_order list"
  ca_cancellable_orders :: "hft_error + order_id list"
  ca_balance :: "hft_error + account_balance list"
  ca_positions :: "hft_error + position list"
  ca_recent_fills :: "hft_error + account_fill list"
  ca_inventory_from :: "account_balance list \<Rightarrow> hft_error + asset_inventory_record list"

record arrivals =
  ar_commands :: "control_command list"
  ar_items :: "execution_stream_item list"

definition no_arrivals :: arrivals where
  "no_arrivals = \<lparr>ar_commands = [], ar_items = []\<rparr>"

text \<open>
  The environment. \<open>we_turn\<close> is what the worker finds in its channels at the start of a turn, \<open>we_rounds\<close> what it finds in the
  successive rounds before a submission; \<open>we_idle\<close> what ends an idle wait, if not a wake-up without data; \<open>we_envelopes\<close> is one batch from the intent queue, \<open>we_queued\<close> the batches
  found until the queue is empty. \<open>we_text\<close> is the text of a message, \<open>we_reason\<close> the debug text of a gate's reason.
\<close>

record worker_env =
  we_dec :: dec_ops
  we_fx :: "fixed \<Rightarrow> price"
  we_text :: "message \<Rightarrow> string"
  we_reason :: "reject_reason \<Rightarrow> message"
  we_orders :: "order_id set \<Rightarrow> order_id list"
  we_venues :: "venue_id set \<Rightarrow> venue_id list"
  we_accounts :: "account_id set \<Rightarrow> account_id list"
  we_now_micros :: "nat \<Rightarrow> timestamp"
  we_instant :: "nat \<Rightarrow> nat"
  we_market :: "nat \<Rightarrow> orderbooks option"
  we_router :: "nat \<Rightarrow> order_intent \<Rightarrow> (venue_id \<rightharpoonup> usize) \<Rightarrow> usize option"
  we_place :: "nat \<Rightarrow> usize \<Rightarrow> order_intent_envelope \<Rightarrow> submission_attempt"
  we_cancel :: "nat \<Rightarrow> usize \<Rightarrow> order_id \<Rightarrow> hft_error + unit"
  we_modify :: "nat \<Rightarrow> usize \<Rightarrow> order_id \<Rightarrow> quantity option \<Rightarrow> price option \<Rightarrow> hft_error + order_id"
  we_connected :: "nat \<Rightarrow> usize \<Rightarrow> bool"
  we_client :: "nat \<Rightarrow> usize \<Rightarrow> client_answers"
  we_turn :: "nat \<Rightarrow> arrivals"
  we_rounds :: "nat \<Rightarrow> arrivals list"
  we_idle :: "nat \<Rightarrow> (control_command + execution_stream_item option) option"
  we_envelopes :: "nat \<Rightarrow> order_intent_envelope list"
  we_queued :: "nat \<Rightarrow> order_intent_envelope list list"
  we_has_pending_intents :: "nat \<Rightarrow> bool"
  we_applied_streams :: "nat \<Rightarrow> u64 list"

record worker =
  w_config :: worker_config
  w_clients :: "execution_client list"
  w_has_router :: bool
  w_stats :: worker_stats
  w_order_to_client :: "order_id \<rightharpoonup> usize"
  w_tracked_orders :: "order_id \<rightharpoonup> tracked_order"
  w_reconciled_open_order_ids :: "account_id \<rightharpoonup> order_id set"
  w_round_robin_counter :: usize
  w_venue_to_client :: "venue_id \<rightharpoonup> usize"
  w_binance_usdm_client_indices :: "usize set"
  w_pending_acks :: "order_id \<rightharpoonup> pending_ack"
  w_execution_timelines :: "order_id \<rightharpoonup> execution_timeline"
  w_last_reconcile :: nat
  w_strategy_to_client :: "(string \<rightharpoonup> usize) option"
  w_account_to_client :: "account_id \<rightharpoonup> usize"
  w_account_admissions :: "account_id \<rightharpoonup> account_execution_admission"
  w_account_environments :: "account_id \<rightharpoonup> account_execution_environment"
  w_rate_budget :: rate_budget
  w_account_egress :: "account_id \<rightharpoonup> string"
  w_accepting_intents :: bool
  w_operator_intake_enabled :: bool
  w_emergency_latched :: bool
  w_stream_recovery_pending :: bool
  w_client_connected :: "bool list"
  w_client_stream_barriers :: "u64 option list"
  w_client_latest_stream_id :: "u64 list"
  w_client_engine_ack_pending :: "u64 option list"
  w_recovery_intent_drain_required :: bool
  w_last_stream_recovery_attempt :: nat
  w_tick :: nat
  w_log :: "worker_action list"

text \<open>\<open>Vec::get\<close>, and a write through \<open>Vec::get_mut\<close> when there is such an element.\<close>

definition vec_get :: "'a list \<Rightarrow> usize \<Rightarrow> 'a option" where
  "vec_get xs i = (if unat i < length xs then Some (xs ! unat i) else None)"

definition vec_put :: "usize \<Rightarrow> 'a \<Rightarrow> 'a list \<Rightarrow> 'a list" where
  "vec_put i v xs = xs[unat i := v]"

definition client_of :: "worker \<Rightarrow> usize \<Rightarrow> execution_client option" where
  "client_of w i = vec_get (w_clients w) i"

definition live_client :: "worker \<Rightarrow> usize \<Rightarrow> bool" where
  "live_client w i = is_some_and (\<lambda>c. \<not> xc_is_simulated_execution c) (client_of w i)"

text \<open>One reading of the environment.\<close>

definition reading :: "(nat \<Rightarrow> 'a) \<Rightarrow> worker \<Rightarrow> 'a \<times> worker" where
  "reading f w = (f (w_tick w), w\<lparr>w_tick := w_tick w + 1\<rparr>)"

definition act :: "worker_action \<Rightarrow> worker \<Rightarrow> worker" where
  "act a w = w\<lparr>w_log := w_log w @ [a]\<rparr>"

definition count_stats :: "(worker_stats \<Rightarrow> worker_stats) \<Rightarrow> worker \<Rightarrow> worker" where
  "count_stats f w = w\<lparr>w_stats := f (w_stats w)\<rparr>"

definition one_failed :: "worker_stats \<Rightarrow> worker_stats" where
  "one_failed s = s\<lparr>ws_orders_failed := ws_orders_failed s + 1\<rparr>"

definition worker_new :: "worker_config \<Rightarrow> execution_client list \<Rightarrow> bool \<Rightarrow> (venue_id \<rightharpoonup> usize) \<Rightarrow> nat \<Rightarrow> worker" where
  "worker_new cfg clients routed venues start = \<lparr>
     w_config = cfg, w_clients = clients, w_has_router = routed, w_stats = default_worker_stats,
     w_order_to_client = Map.empty, w_tracked_orders = Map.empty, w_reconciled_open_order_ids = Map.empty,
     w_round_robin_counter = 0, w_venue_to_client = venues, w_binance_usdm_client_indices = {},
     w_pending_acks = Map.empty, w_execution_timelines = Map.empty, w_last_reconcile = start,
     w_strategy_to_client = None, w_account_to_client = Map.empty, w_account_admissions = Map.empty,
     w_account_environments = Map.empty, w_rate_budget = Map.empty, w_account_egress = Map.empty,
     w_accepting_intents = True, w_operator_intake_enabled = True, w_emergency_latched = False,
     w_stream_recovery_pending = False, w_client_connected = replicate (length clients) True,
     w_client_stream_barriers = replicate (length clients) None, w_client_latest_stream_id = replicate (length clients) 0,
     w_client_engine_ack_pending = replicate (length clients) None, w_recovery_intent_drain_required = False,
     w_last_stream_recovery_attempt = start, w_tick = 0, w_log = []\<rparr>"

definition with_rate_budget :: "rate_budget \<Rightarrow> (account_id \<rightharpoonup> string) \<Rightarrow> worker \<Rightarrow> worker" where
  "with_rate_budget budget egress w = w\<lparr>w_rate_budget := budget, w_account_egress := egress\<rparr>"

text \<open>The bindings the runtime hands to a worker when it spawns one.\<close>

record worker_bindings =
  wb_venue_to_client :: "venue_id \<rightharpoonup> usize"
  wb_strategy_to_client :: "(string \<rightharpoonup> usize) option"
  wb_account_to_client :: "(account_id \<rightharpoonup> usize) option"
  wb_account_admissions :: "(account_id \<rightharpoonup> account_execution_admission) option"
  wb_account_environments :: "(account_id \<rightharpoonup> account_execution_environment) option"
  wb_binance_usdm_client_indices :: "usize set"
  wb_rate_budget :: rate_budget
  wb_account_egress :: "account_id \<rightharpoonup> string"

definition spawn_execution_worker ::
  "worker_config \<Rightarrow> execution_client list \<Rightarrow> bool \<Rightarrow> worker_bindings \<Rightarrow> nat \<Rightarrow> worker" where
  "spawn_execution_worker cfg clients routed b start =
     (with_rate_budget (wb_rate_budget b) (wb_account_egress b)
        (worker_new cfg clients routed (wb_venue_to_client b) start))
     \<lparr>w_binance_usdm_client_indices := wb_binance_usdm_client_indices b,
      w_strategy_to_client := wb_strategy_to_client b,
      w_account_to_client := unwrap_or Map.empty (wb_account_to_client b),
      w_account_admissions := unwrap_or Map.empty (wb_account_admissions b),
      w_account_environments := unwrap_or Map.empty (wb_account_environments b)\<rparr>"

subsection \<open>Selection of a client\<close>

fun scan_venues_of :: "(venue_id \<rightharpoonup> usize) \<Rightarrow> usize \<Rightarrow> venue_id list \<Rightarrow> venue_id option \<Rightarrow> venue_id option option" where
  "scan_venues_of m i [] matched = Some matched"
| "scan_venues_of m i (v # vs) matched =
     (if m v = Some i then (if matched \<noteq> None then None else scan_venues_of m i vs (Some v))
      else scan_venues_of m i vs matched)"

definition account_venues :: "worker_env \<Rightarrow> worker \<Rightarrow> usize \<Rightarrow> venue_id list" where
  "account_venues E w i =
     remdups (List.map_filter (\<lambda>a. if w_account_to_client w a = Some i then map_option xa_venue (w_account_admissions w a) else None)
       (we_accounts E (dom (w_account_to_client w))))"

definition venue_for_client :: "worker_env \<Rightarrow> worker \<Rightarrow> usize \<Rightarrow> venue_id option" where
  "venue_for_client E w i =
     (case scan_venues_of (w_venue_to_client w) i (we_venues E (dom (w_venue_to_client w))) None of
        None \<Rightarrow> None
      | Some (Some v) \<Rightarrow> Some v
      | Some None \<Rightarrow> (case account_venues E w i of [v] \<Rightarrow> Some v | _ \<Rightarrow> None))"

definition is_binance_usdm_client :: "worker_env \<Rightarrow> worker \<Rightarrow> usize \<Rightarrow> bool" where
  "is_binance_usdm_client E w i \<longleftrightarrow>
     i \<in> w_binance_usdm_client_indices w \<and> venue_for_client E w i = Some BINANCE_FUTURES \<and>
     is_some_and (\<lambda>c. xc_asset_inventory_capability c = PositionSnapshotRequired) (client_of w i)"

definition fnv1a :: "string \<Rightarrow> u32" where
  "fnv1a s = foldl (\<lambda>h c. xor h (of_nat (of_char c)) * 16777619) 2166136261 s"

definition strategy_prefix :: "string \<Rightarrow> string option" where
  "strategy_prefix s = (if CHR '':'' \<in> set s then Some (takeWhile (\<lambda>c. c \<noteq> CHR '':'') s) else None)"

definition strategy_client :: "worker \<Rightarrow> string \<Rightarrow> usize option" where
  "strategy_client w s =
     (case w_strategy_to_client w of
        None \<Rightarrow> None
      | Some m \<Rightarrow> opt_or (m s) (Option.bind (strategy_prefix s) m))"

definition select_execution_client :: "worker_env \<Rightarrow> worker \<Rightarrow> order_intent \<Rightarrow> worker \<times> (message + usize)" where
  "select_execution_client E w intent =
     (case strategy_client w (in_strategy_id intent) of
        Some i \<Rightarrow> (w, Ok i)
      | None \<Rightarrow>
          if w_clients w = [] then (w, Err (Msg ''no execution client is available''))
          else if w_has_router w
          then (let (route, w) = reading (we_router E) w
                in case route intent (w_venue_to_client w) of
                     None \<Rightarrow> (w, Err (Msg ''router failed to find a route for the intent''))
                   | Some i \<Rightarrow>
                       if length (w_clients w) \<le> unat i then (w, Err (Msg ''router returned an out-of-range client_index''))
                       else (w, Ok i))
          else if 1 < length (w_clients w)
          then (case in_target_venue intent of
                  None \<Rightarrow> (w, Err (Msg ''an intent needs a target_venue with several clients and no router''))
                | Some v \<Rightarrow>
                    (case w_venue_to_client w v of
                       None \<Rightarrow> (w, Err (Msg ''the target venue does not exist''))
                     | Some i \<Rightarrow>
                         if unat i < length (w_clients w) then (w, Ok i)
                         else (w, Err (Msg ''the client index of the target venue is out of range''))))
          else (case wc_client_selection (w_config w) of
                  ConsistentHash \<Rightarrow> (w, Ok (of_nat (unat (fnv1a (symbol_text (in_symbol intent))) mod length (w_clients w))))
                | RoundRobin \<Rightarrow>
                    (w\<lparr>w_round_robin_counter := w_round_robin_counter w + 1\<rparr>,
                     Ok (of_nat (unat (w_round_robin_counter w) mod length (w_clients w))))))"

definition select_client_by_symbol :: "worker \<Rightarrow> symbol \<Rightarrow> usize" where
  "select_client_by_symbol w sm =
     (if w_clients w = [] then 0
      else case wc_client_selection (w_config w) of
        ConsistentHash \<Rightarrow> of_nat (unat (fnv1a (symbol_text sm)) mod length (w_clients w))
      | RoundRobin \<Rightarrow> of_nat (unat (w_round_robin_counter w) mod length (w_clients w)))"

definition select_client_for_cancel :: "worker \<Rightarrow> cancel_target \<Rightarrow> message + usize" where
  "select_client_for_cancel w t =
     (case opt_or (w_order_to_client w (ct_order_id t))
             (opt_or (Option.bind (ct_account_id t) (w_account_to_client w))
                (Option.bind (ct_venue t) (w_venue_to_client w))) of
        Some i \<Rightarrow> Ok i
      | None \<Rightarrow>
          if length (w_clients w) = 1 then Ok 0
          else Err (MsgOrder ''cannot route cancellation across execution clients'' (ct_order_id t)))"

subsection \<open>Admission of an intent\<close>

definition validate_client_product_scope :: "worker_env \<Rightarrow> worker \<Rightarrow> order_intent \<Rightarrow> usize \<Rightarrow> message + unit" where
  "validate_client_product_scope E w intent i =
     and_then (ok_or (Msg ''selected execution client is unavailable'') (client_of w i)) (\<lambda>client.
       if in_product_type intent = Perp \<and> xc_is_simulated_execution client then Ok ()
       else if in_product_type intent = Spot \<and> venue_for_client E w i = Some BINANCE_FUTURES
       then Err (Msg ''Spot intents cannot use the Binance USD-M execution client'')
       else if in_product_type intent \<in> {Perp, Futures} \<and> is_binance_usdm_client E w i then Ok ()
       else if in_product_type intent \<noteq> Spot then Err (Msg ''product requires a venue-specific account admission policy'')
       else Ok ())"

definition balance_malformed :: "dec_ops \<Rightarrow> account_balance \<Rightarrow> bool option" where
  "balance_malformed D b =
     (if blank (bal_asset b) \<or> bal_available b < 0 \<or> bal_frozen b < 0 \<or> bal_total b < 0 then Some True
      else do {
        sum \<leftarrow> d_add D (bal_available b) (bal_frozen b);
        Some (sum \<noteq> bal_total b \<or> is_some_and (\<lambda>v. v < 0) (bal_usd_value b) \<or>
          bal_usd_value b = None \<and> (bal_available b \<noteq> 0 \<or> bal_frozen b \<noteq> 0 \<or> bal_total b \<noteq> 0)) })"

fun any_balance_malformed :: "dec_ops \<Rightarrow> account_balance list \<Rightarrow> bool option" where
  "any_balance_malformed D [] = Some False"
| "any_balance_malformed D (b # bs) =
     do { bad \<leftarrow> balance_malformed D b; if bad then Some True else any_balance_malformed D bs }"

text \<open>The evidence of the account: everything up to the balances.\<close>

definition admission_evidence ::
  "worker_env \<Rightarrow> worker \<Rightarrow> account_id \<Rightarrow> order_intent \<Rightarrow> usize \<Rightarrow> timestamp \<Rightarrow> message + account_execution_admission" where
  "admission_evidence E w acc intent i now =
     and_then (ok_or (Msg ''account has no current external admission'') (w_account_admissions w acc)) (\<lambda>adm.
     and_then (ok_or (Msg ''selected execution client has no venue binding'') (venue_for_client E w i)) (\<lambda>venue.
     and_then (ok_or (Msg ''account environment is not bound to an execution client'') (w_account_environments w acc)) (\<lambda>environment.
       let rb = xa_readback adm in
       if xa_account_id adm \<noteq> acc then Err (Msg ''account admission identity does not match intent account'')
       else if is_some_and (\<lambda>v. v \<noteq> venue) (in_target_venue intent) then Err (Msg ''intent venue does not match selected execution client'')
       else if xa_venue adm \<noteq> venue then Err (Msg ''account admission venue does not match selected execution client'')
       else if xa_environment adm \<noteq> environment then Err (Msg ''account admission environment does not match execution client'')
       else if xa_product_type adm \<noteq> in_product_type intent then Err (Msg ''account admission product scope does not match intent'')
       else if in_product_type intent \<noteq> Spot \<and> \<not> is_binance_usdm_client E w i
       then Err (Msg ''product requires a dedicated Binance USD-M execution client'')
       else if \<not> xa_ready adm then Err (Msg ''account admission is not ready'')
       else if xa_kill_switch_active adm then Err (Msg ''account kill switch is active'')
       else if blank (xa_credential_reference adm) then Err (Msg ''account admission has no credential reference'')
       else if xr_state rb \<noteq> ReadbackEnabled then Err (Msg ''external account readback is not enabled'')
       else if blank (xr_regional_compliance_attestation_id rb) \<or> blank (xr_receipt_id rb) \<or> blank (xr_evidence_digest rb)
       then Err (Msg ''account admission has incomplete external evidence'')
       else if xr_validated_at rb = 0 \<or> now < xr_validated_at rb \<or> xr_valid_until rb < xr_validated_at rb \<or> xr_valid_until rb < now
       then Err (Msg ''account external readback is stale or invalid'')
       else if in_product_type intent = Spot \<and> \<not> can_trade_crypto_spot (xr_capability rb)
       then Err (Msg ''account capability does not permit crypto spot execution'')
       else if xr_balances rb = [] then Err (Msg ''account admission has no externally read-back assets'')
       else Ok adm)))"

definition open_order_count :: "worker_env \<Rightarrow> worker \<Rightarrow> account_id \<Rightarrow> order_id set \<Rightarrow> nat" where
  "open_order_count E w acc reconciled =
     card reconciled +
     length (filter (\<lambda>oid. is_some_and (\<lambda>t. tr_account_id t = Some acc) (w_tracked_orders w oid) \<and> oid \<notin> reconciled)
       (we_orders E (dom (w_tracked_orders w))))"

text \<open>The limits of the account.\<close>

definition admission_limits ::
  "worker_env \<Rightarrow> worker \<Rightarrow> account_id \<Rightarrow> order_intent \<Rightarrow> account_execution_admission \<Rightarrow> message + unit" where
  "admission_limits E w acc intent adm =
     (if xa_max_order_notional adm \<le> 0 then Err (Msg ''account order-notional limit is not positive'')
      else if xa_max_open_orders adm = 0 then Err (Msg ''account open-order limit is not positive'')
      else and_then (ok_or (Msg ''account notional limit requires a priced intent'') (in_price intent)) (\<lambda>price.
        and_then (ok_or (Msg ''account order notional overflowed'') (d_mul (we_dec E) price (in_quantity intent))) (\<lambda>notional.
          if xa_max_order_notional adm < notional then Err (Msg ''account order-notional limit exceeded'')
          else and_then (ok_or (Msg ''account open-order reconciliation is incomplete'') (w_reconciled_open_order_ids w acc)) (\<lambda>reconciled.
            if unat (xa_max_open_orders adm) \<le> open_order_count E w acc reconciled
            then Err (Msg ''account open-order limit reached'')
            else Ok ()))))"

definition validate_account_admission ::
  "worker_env \<Rightarrow> worker \<Rightarrow> account_id \<Rightarrow> order_intent \<Rightarrow> usize \<Rightarrow> timestamp \<Rightarrow> (message + unit) option" where
  "validate_account_admission E w acc intent i now =
     try_then (Some (admission_evidence E w acc intent i now)) (\<lambda>adm. do {
       bad \<leftarrow> any_balance_malformed (we_dec E) (xr_balances (xa_readback adm));
       Some (if bad then Err (Msg ''account admission has malformed externally read-back assets'')
             else admission_limits E w acc intent adm) })"

definition admit_new_order_rate_budget ::
  "worker_env \<Rightarrow> worker \<Rightarrow> account_id option \<Rightarrow> order_intent \<Rightarrow> usize \<Rightarrow> worker \<times> (message + unit)" where
  "admit_new_order_rate_budget E w account intent i =
     (if is_some_and xc_is_simulated_execution (client_of w i) \<or>
         in_product_type intent \<notin> {Spot, Futures, Perp, TokenizedSecuritySpot}
      then (w, Ok ())
      else case account of
        None \<Rightarrow> (w, Err (Msg ''missing canonical account identity for rate budget''))
      | Some acc \<Rightarrow>
          (case w_account_admissions w acc of
             None \<Rightarrow> (w, Err (Msg ''missing account admission for rate budget''))
           | Some adm \<Rightarrow>
               (case w_account_egress w acc of
                  None \<Rightarrow> (w, Err (Msg ''missing runtime-bound egress identity for rate budget''))
                | Some egress \<Rightarrow>
                    (let (now, w) = reading (we_instant E) w;
                         (budget, r) = admit_at (w_rate_budget w) (xa_venue adm) (in_product_type intent) NewOrder acc egress now
                     in (w\<lparr>w_rate_budget := budget\<rparr>, r)))))"

subsection \<open>Latches and rejections\<close>

definition latch_emergency :: "worker \<Rightarrow> worker" where
  "latch_emergency w = w\<lparr>w_accepting_intents := False, w_emergency_latched := True\<rparr>"

definition latch_stream_recovery :: "worker \<Rightarrow> worker" where
  "latch_stream_recovery w = w\<lparr>w_accepting_intents := False, w_stream_recovery_pending := True,
     w_recovery_intent_drain_required := True\<rparr>"

definition reject_unsent :: "worker_env \<Rightarrow> string \<Rightarrow> message \<Rightarrow> worker \<Rightarrow> worker" where
  "reject_unsent E client reason w =
     (let (now, w) = reading (we_now_micros E) w in act (RejectedUnsent client (we_text E reason) now) w)"

definition reject_intent :: "worker_env \<Rightarrow> string \<Rightarrow> message \<Rightarrow> worker \<Rightarrow> worker" where
  "reject_intent E client reason w = count_stats one_failed (reject_unsent E client reason w)"

definition reject_for_disabled_intake :: "worker_env \<Rightarrow> order_intent_envelope \<Rightarrow> worker \<Rightarrow> worker" where
  "reject_for_disabled_intake E e w =
     reject_intent E (env_client_order_id e)
       (MsgAsset ''execution intake disabled by control for'' (symbol_text (in_symbol (env_intent e)))) w"

definition receive_batch :: "order_intent_envelope list \<Rightarrow> worker \<Rightarrow> worker" where
  "receive_batch es w = w\<lparr>w_log := w_log w @ map Received es\<rparr>"

definition count_processed :: "order_intent_envelope list \<Rightarrow> worker \<Rightarrow> worker" where
  "count_processed es = count_stats (\<lambda>s. s\<lparr>ws_intents_processed := ws_intents_processed s + of_nat (length es)\<rparr>)"

definition reject_batch :: "worker_env \<Rightarrow> order_intent_envelope list \<Rightarrow> worker \<Rightarrow> worker" where
  "reject_batch E es w = fold (reject_for_disabled_intake E) es (count_processed es (receive_batch es w))"

text \<open>The loop ends with the first batch that is empty.\<close>

definition reject_queued_intents_for_disabled_intake :: "worker_env \<Rightarrow> worker \<Rightarrow> worker" where
  "reject_queued_intents_for_disabled_intake E w =
     (let (batches, w) = reading (we_queued E) w in fold (reject_batch E) (takeWhile (\<lambda>es. es \<noteq> []) batches) w)"

definition reject_one_queued_intent_batch_for_recovery :: "worker_env \<Rightarrow> worker \<Rightarrow> worker \<times> bool" where
  "reject_one_queued_intent_batch_for_recovery E w =
     (let (es, w) = reading (we_envelopes E) w;
          w = reject_batch E es w;
          (pending, w) = reading (we_has_pending_intents E) w
      in (w, \<not> pending))"

fun submission_outcome_may_be_unknown :: "hft_error \<Rightarrow> bool" where
  "submission_outcome_may_be_unknown (InvalidOrder _) = False"
| "submission_outcome_may_be_unknown (SubmissionNotAttempted _) = False"
| "submission_outcome_may_be_unknown (InsufficientBalance _) = False"
| "submission_outcome_may_be_unknown (Risk _) = False"
| "submission_outcome_may_be_unknown (Config _) = False"
| "submission_outcome_may_be_unknown (Authentication _) = False"
| "submission_outcome_may_be_unknown (RateLimit _) = False"
| "submission_outcome_may_be_unknown (Exchange _) = False"
| "submission_outcome_may_be_unknown (OrderNotFound _) = False"
| "submission_outcome_may_be_unknown _ = True"

definition order_known :: "worker \<Rightarrow> order_id \<Rightarrow> bool" where
  "order_known w oid \<longleftrightarrow> w_order_to_client w oid \<noteq> None \<or> w_tracked_orders w oid \<noteq> None \<or> w_pending_acks w oid \<noteq> None"

definition latch_duplicate_order_id :: "order_id \<Rightarrow> worker \<Rightarrow> worker \<times> bool" where
  "latch_duplicate_order_id oid w = (if order_known w oid then (latch_emergency w, True) else (w, False))"

subsection \<open>Reconciliation of the open orders\<close>

definition bound_account :: "worker_env \<Rightarrow> worker \<Rightarrow> usize \<Rightarrow> account_id option" where
  "bound_account E w i =
     (case filter (\<lambda>a. w_account_to_client w a = Some i) (we_accounts E (dom (w_account_to_client w))) of
        [a] \<Rightarrow> Some a
      | _ \<Rightarrow> None)"

definition client_snapshot ::
  "worker_env \<Rightarrow> worker \<Rightarrow> bool \<Rightarrow> bool \<Rightarrow> bool \<Rightarrow> usize \<Rightarrow> execution_client \<Rightarrow> client_answers \<Rightarrow> account_client_snapshot" where
  "client_snapshot E w balances positions fills i c ans =
     (let account = bound_account E w i; capability = xc_asset_inventory_capability c in
      \<lparr>cs_venue = venue_for_client E w i, cs_account_id = account,
       cs_open_orders = ca_open_orders ans, cs_cancellable_orders = ca_cancellable_orders ans,
       cs_client_index = i,
       cs_account_environment = Option.bind account (w_account_environments w),
       cs_account_admission = Option.bind account (w_account_admissions w),
       cs_balances = (if balances then Some (ca_balance ans) else None),
       cs_positions = (if positions \<and> capability = PositionSnapshotRequired then Some (ca_positions ans) else None),
       cs_recent_fills = (if fills \<and> xc_supports_recent_fills c then Some (ca_recent_fills ans) else None),
       cs_asset_inventory_capability = Some capability,
       cs_asset_inventory =
         (if balances \<and> capability = AuthoritativeAssetInventory Spot
          then Some (case ca_balance ans of
                 Inr bs \<Rightarrow> ca_inventory_from ans bs
               | Inl _ \<Rightarrow> Err (Execution (Msg ''authoritative asset inventory is unavailable because the balance snapshot failed'')))
          else None)\<rparr>)"

fun collect_snapshots ::
  "worker_env \<Rightarrow> bool \<Rightarrow> bool \<Rightarrow> bool \<Rightarrow> (nat \<times> execution_client) list \<Rightarrow> worker \<Rightarrow> worker \<times> worker_reconcile_snapshot" where
  "collect_snapshots E b p f [] w = (w, [])"
| "collect_snapshots E b p f ((k, c) # cs) w =
     (let (answers, w) = reading (we_client E) w;
          snap = client_snapshot E w b p f (of_nat k) c (answers (of_nat k));
          (w, rest) = collect_snapshots E b p f cs w
      in (w, snap # rest))"

definition collect_reconcile_snapshot :: "worker_env \<Rightarrow> bool \<Rightarrow> bool \<Rightarrow> bool \<Rightarrow> worker \<Rightarrow> worker \<times> worker_reconcile_snapshot" where
  "collect_reconcile_snapshot E b p f w = collect_snapshots E b p f (enumerate 0 (w_clients w)) w"

fun add_reconciled :: "account_client_snapshot \<Rightarrow> (account_id \<rightharpoonup> order_id set) \<Rightarrow> (account_id \<rightharpoonup> order_id set)" where
  "add_reconciled cl m =
     (case (cs_account_id cl, cs_open_orders cl, cs_cancellable_orders cl) of
        (Some a, Inr opens, Inr cancellable) \<Rightarrow>
          m(a \<mapsto> unwrap_or {} (m a) \<union> oo_order_id ` set opens \<union> set cancellable)
      | _ \<Rightarrow> m)"

definition update_reconciled_open_orders :: "worker_reconcile_snapshot \<Rightarrow> worker \<Rightarrow> worker" where
  "update_reconciled_open_orders snap w =
     w\<lparr>w_reconciled_open_order_ids := (if snapshot_is_complete snap then fold add_reconciled snap Map.empty else Map.empty)\<rparr>"

fun clients_healthy :: "worker_env \<Rightarrow> usize list \<Rightarrow> worker \<Rightarrow> worker \<times> bool" where
  "clients_healthy E [] w = (w, True)"
| "clients_healthy E (i # is) w =
     (let (up, w) = reading (we_connected E) w in if up i then clients_healthy E is w else (w, False))"

definition execution_clients_currently_healthy :: "worker_env \<Rightarrow> worker \<Rightarrow> worker \<times> bool" where
  "execution_clients_currently_healthy E w = clients_healthy E (map of_nat [0..<length (w_clients w)]) w"

definition names_order :: "order_id \<Rightarrow> open_order \<Rightarrow> bool" where
  "names_order oid ex \<longleftrightarrow> oo_order_id ex = oid \<or> oo_client_order_id ex = Some (order_id_text oid)"

definition local_orders_of :: "worker_env \<Rightarrow> worker \<Rightarrow> usize \<Rightarrow> order_id list" where
  "local_orders_of E w i = filter (\<lambda>oid. w_order_to_client w oid = Some i) (we_orders E (dom (w_tracked_orders w)))"

definition local_order_matches :: "worker \<Rightarrow> open_order list \<Rightarrow> order_id \<Rightarrow> bool" where
  "local_order_matches w exs oid =
     is_some_and (\<lambda>ex. is_some_and (\<lambda>t. oo_remaining_quantity ex = tr_remaining_quantity t) (w_tracked_orders w oid))
       (List.find (names_order oid) exs)"

definition client_matches :: "worker_env \<Rightarrow> worker \<Rightarrow> account_client_snapshot \<Rightarrow> bool" where
  "client_matches E w cl =
     (case (cs_open_orders cl, cs_cancellable_orders cl) of
        (Inr exs, Inr []) \<Rightarrow>
          length (local_orders_of E w (cs_client_index cl)) = length exs \<and>
          list_all (local_order_matches w exs) (local_orders_of E w (cs_client_index cl))
      | _ \<Rightarrow> False)"

definition recovery_snapshot_matches :: "worker_env \<Rightarrow> worker \<Rightarrow> worker_reconcile_snapshot \<Rightarrow> bool" where
  "recovery_snapshot_matches E w snap = list_all (client_matches E w) snap"

definition streams_settled :: "worker \<Rightarrow> bool" where
  "streams_settled w \<longleftrightarrow> list_all id (w_client_connected w) \<and> list_all Option.is_none (w_client_stream_barriers w) \<and>
     list_all Option.is_none (w_client_engine_ack_pending w)"

text \<open>The last part of a recovery: the clients are asked once more, then intake opens unless it is closed for another reason.\<close>

definition finish_recovery :: "worker_env \<Rightarrow> worker \<Rightarrow> worker" where
  "finish_recovery E w =
     (let (w, healthy) = execution_clients_currently_healthy E w
      in if healthy
         then w\<lparr>w_recovery_intent_drain_required := False, w_stream_recovery_pending := False,
                w_accepting_intents := w_accepting_intents w \<or> w_operator_intake_enabled w \<and> \<not> w_emergency_latched w\<rparr>
         else w)"

definition worker_reconcile_open_orders :: "worker_env \<Rightarrow> worker \<Rightarrow> worker \<times> bool" where
  "worker_reconcile_open_orders E w =
     (let (w, snap) = collect_reconcile_snapshot E False False False w;
          complete = snapshot_is_complete snap;
          w = update_reconciled_open_orders snap w;
          (w, healthy) = (if w_stream_recovery_pending w then execution_clients_currently_healthy E w else (w, True))
      in if w_stream_recovery_pending w \<and> complete \<and> healthy \<and> streams_settled w \<and> recovery_snapshot_matches E w snap
         then if w_recovery_intent_drain_required w
              then (let (w, drained) = reject_one_queued_intent_batch_for_recovery E w
                    in (if drained then finish_recovery E w else w, complete))
              else (finish_recovery E w, complete)
         else (w, complete))"

subsection \<open>Private event streams\<close>

definition report_event :: "execution_event \<Rightarrow> worker \<Rightarrow> worker" where
  "report_event ev w = act (Reported ev) w"

definition report_sent :: "execution_event \<Rightarrow> worker \<Rightarrow> worker" where
  "report_sent ev w = count_stats (\<lambda>s. s\<lparr>ws_events_sent := ws_events_sent s + 1\<rparr>) (report_event ev w)"

text \<open>The first component of the result tells whether the event was captured.\<close>

definition capture_private_timing :: "worker_env \<Rightarrow> usize \<Rightarrow> execution_event \<Rightarrow> worker \<Rightarrow> worker \<times> bool \<times> execution_event option" where
  "capture_private_timing E i ev w =
     (case ev of
        OrderLifecycleTiming oid observed a r t \<Rightarrow> (latch_stream_recovery (w\<lparr>w_emergency_latched := True\<rparr>), True, None)
      | PrivateOrderTiming oid kind received \<Rightarrow>
          (case w_execution_timelines w oid of
             None \<Rightarrow> (w, True, None)
           | Some line \<Rightarrow>
               if tl_client_idx line \<noteq> i then (latch_stream_recovery (w\<lparr>w_emergency_latched := True\<rparr>), True, None)
               else let line = apply_private kind received line;
                        w = w\<lparr>w_execution_timelines := (w_execution_timelines w)(oid \<mapsto> line)\<rparr>;
                        (now, w) = reading (we_now_micros E) w
                    in (w, True, Some (OrderLifecycleTiming oid now (sp_write_to_private_ack_us (spans line))
                          (sp_write_to_private_report_us (spans line)) (sp_intent_to_private_report_us (spans line)))))
      | _ \<Rightarrow> (w, False, None))"

fun private_order_id :: "execution_event \<Rightarrow> order_id option" where
  "private_order_id (OrderAck oid ts) = Some oid"
| "private_order_id (Fill oid p q ts fid) = Some oid"
| "private_order_id (FeeCharged oid fee ts fid) = Some oid"
| "private_order_id (OrderReject oid reason ts) = Some oid"
| "private_order_id (OrderCompleted oid p q ts) = Some oid"
| "private_order_id (OrderCanceled oid ts) = Some oid"
| "private_order_id (OrderModified oid q p ts) = Some oid"
| "private_order_id (PrivateOrderTiming oid k r) = Some oid"
| "private_order_id (OrderLifecycleTiming oid ts a b c) = Some oid"
| "private_order_id _ = None"

definition private_order_event_matches_client :: "usize \<Rightarrow> execution_event \<Rightarrow> worker \<Rightarrow> worker \<times> bool" where
  "private_order_event_matches_client i ev w =
     (case Option.bind (private_order_id ev) (w_order_to_client w) of
        None \<Rightarrow> (w, True)
      | Some expected \<Rightarrow>
          if expected = i then (w, True) else (latch_stream_recovery (w\<lparr>w_emergency_latched := True\<rparr>), False))"

fun event_requires_reconciliation :: "usize \<Rightarrow> execution_event \<Rightarrow> worker \<Rightarrow> bool" where
  "event_requires_reconciliation i (ConnectionStatus True ts) w =
     (is_some_and Option.is_none (vec_get (w_client_stream_barriers w) i) \<and>
      is_some_and Option.is_none (vec_get (w_client_engine_ack_pending w) i))"
| "event_requires_reconciliation i (ReconciliationRequired reason ts) w = True"
| "event_requires_reconciliation i _ w = False"

definition set_connected :: "usize \<Rightarrow> bool \<Rightarrow> worker \<Rightarrow> worker" where
  "set_connected i c w = w\<lparr>w_client_connected := vec_put i c (w_client_connected w)\<rparr>"

fun update_connection_tracking :: "usize \<Rightarrow> execution_event \<Rightarrow> worker \<Rightarrow> worker" where
  "update_connection_tracking i (ConnectionStatus up ts) w =
     (let barrier_pending = is_some_and (\<lambda>b. b \<noteq> None) (vec_get (w_client_stream_barriers w) i);
          w = (if \<not> up \<or> \<not> barrier_pending then set_connected i up w else w)
      in if up then w else latch_stream_recovery w)"
| "update_connection_tracking i (ExecutionStreamBarrier stream_id ts) w =
     (if is_some_and (\<lambda>latest. latest < stream_id) (vec_get (w_client_latest_stream_id w) i)
      then latch_stream_recovery (set_connected i False
             (w\<lparr>w_client_latest_stream_id := vec_put i stream_id (w_client_latest_stream_id w),
                w_client_stream_barriers := vec_put i (Some stream_id) (w_client_stream_barriers w),
                w_client_engine_ack_pending := vec_put i None (w_client_engine_ack_pending w)\<rparr>))
      else w)"
| "update_connection_tracking i (ExecutionStreamSynchronized stream_id up ts) w =
     (if vec_get (w_client_stream_barriers w) i = Some (Some stream_id)
      then latch_stream_recovery (set_connected i up
             (w\<lparr>w_client_stream_barriers := vec_put i None (w_client_stream_barriers w),
                w_client_engine_ack_pending := vec_put i (Some stream_id) (w_client_engine_ack_pending w)\<rparr>))
      else w)"
| "update_connection_tracking i (ReconciliationRequired reason ts) w = latch_stream_recovery (set_connected i False w)"
| "update_connection_tracking i _ w = w"

definition forget_order :: "order_id \<Rightarrow> worker \<Rightarrow> worker" where
  "forget_order oid w = w\<lparr>
     w_pending_acks := (w_pending_acks w)(oid := None), w_order_to_client := (w_order_to_client w)(oid := None),
     w_tracked_orders := (w_tracked_orders w)(oid := None), w_execution_timelines := (w_execution_timelines w)(oid := None),
     w_reconciled_open_order_ids := (\<lambda>a. map_option (\<lambda>s. s - {oid}) (w_reconciled_open_order_ids w a))\<rparr>"

definition track_fill :: "worker_env \<Rightarrow> order_id \<Rightarrow> quantity \<Rightarrow> string \<Rightarrow> worker \<Rightarrow> worker option" where
  "track_fill E oid q fid w =
     (case w_tracked_orders w oid of
        None \<Rightarrow> Some w
      | Some t \<Rightarrow>
          if fid \<noteq> [] \<and> fid \<in> tr_processed_fill_ids t then Some w
          else let t = (if fid \<noteq> [] then t\<lparr>tr_processed_fill_ids := insert fid (tr_processed_fill_ids t)\<rparr> else t);
                   w = w\<lparr>w_tracked_orders := (w_tracked_orders w)(oid \<mapsto> t)\<rparr>
               in if tr_remaining_quantity t \<le> q
                  then Some (forget_order oid (if tr_remaining_quantity t < q then latch_emergency w else w))
                  else do {
                    rest \<leftarrow> d_sub (we_dec E) (tr_remaining_quantity t) q;
                    Some (w\<lparr>w_tracked_orders := (w_tracked_orders w)(oid \<mapsto> t\<lparr>tr_remaining_quantity := rest\<rparr>)\<rparr>) })"

fun update_execution_tracking :: "worker_env \<Rightarrow> execution_event \<Rightarrow> worker \<Rightarrow> worker option" where
  "update_execution_tracking E (OrderAck oid ts) w = Some (w\<lparr>w_pending_acks := (w_pending_acks w)(oid := None)\<rparr>)"
| "update_execution_tracking E (Fill oid p q ts fid) w = track_fill E oid q fid w"
| "update_execution_tracking E (OrderCanceled oid ts) w = Some (forget_order oid w)"
| "update_execution_tracking E (OrderReject oid reason ts) w = Some (forget_order oid w)"
| "update_execution_tracking E (OrderCompleted oid p q ts) w = Some (forget_order oid w)"
| "update_execution_tracking E _ w = Some w"

definition stream_recovery_ready_for_reconcile :: "worker \<Rightarrow> bool" where
  "stream_recovery_ready_for_reconcile w \<longleftrightarrow> w_stream_recovery_pending w \<and> streams_settled w"

definition attempt_stream_recovery :: "worker_env \<Rightarrow> worker \<Rightarrow> worker" where
  "attempt_stream_recovery E w =
     (if \<not> stream_recovery_ready_for_reconcile w then w
      else let (now, w) = reading (we_instant E) w
           in fst (worker_reconcile_open_orders E (w\<lparr>w_last_stream_recovery_attempt := now\<rparr>)))"

definition stream_recovery_retry_interval :: nat where
  "stream_recovery_retry_interval = 1000000000"

definition retry_stream_recovery_if_due :: "worker_env \<Rightarrow> worker \<Rightarrow> worker \<times> bool" where
  "retry_stream_recovery_if_due E w =
     (if \<not> stream_recovery_ready_for_reconcile w then (w, False)
      else let (now, w) = reading (we_instant E) w
           in if now - w_last_stream_recovery_attempt w < stream_recovery_retry_interval then (w, False)
              else (attempt_stream_recovery E w, True))"

text \<open>An event that arrived on the stream of client \<open>i\<close>; the arm is the same in the polling loop and in the idle wait.\<close>

definition handle_stream_event :: "worker_env \<Rightarrow> usize \<Rightarrow> execution_event \<Rightarrow> worker \<Rightarrow> worker option" where
  "handle_stream_event E i ev w =
     (let (w, captured, timing) = capture_private_timing E i ev w in
      if captured then Some (case timing of None \<Rightarrow> w | Some t \<Rightarrow> report_sent t w)
      else let (w, matching) = private_order_event_matches_client i ev w in
        if \<not> matching then Some w
        else let required = event_requires_reconciliation i ev w in do {
          w \<leftarrow> update_execution_tracking E ev (update_connection_tracking i ev w);
          Some (if required then attempt_stream_recovery E (report_sent ev w) else report_sent ev w) })"

definition latch_on_execution_stream_failure :: "worker_env \<Rightarrow> usize \<Rightarrow> worker \<Rightarrow> worker" where
  "latch_on_execution_stream_failure E i w =
     (let w = set_connected i False (latch_stream_recovery w);
          (now, w) = reading (we_now_micros E) w
      in report_event (ConnectionStatus False now) w)"

definition handle_execution_stream_completion :: "worker_env \<Rightarrow> usize \<Rightarrow> worker \<Rightarrow> worker" where
  "handle_execution_stream_completion E i w =
     (case client_of w i of
        None \<Rightarrow> latch_stream_recovery w
      | Some c \<Rightarrow>
          (let (up, w) = reading (we_connected E) w
           in if xc_stream_may_complete c \<and> up i then w
              else latch_on_execution_stream_failure E i w))"

fun handle_execution_stream_item :: "worker_env \<Rightarrow> execution_stream_item option \<Rightarrow> worker \<Rightarrow> worker option" where
  "handle_execution_stream_item E (Some (StreamEvent i (Inr ev))) w = handle_stream_event E i ev w"
| "handle_execution_stream_item E (Some (StreamEvent i (Inl err))) w = Some (latch_on_execution_stream_failure E i w)"
| "handle_execution_stream_item E (Some (StreamCompleted i)) w = Some (handle_execution_stream_completion E i w)"
| "handle_execution_stream_item E None w = Some w"

definition execution_event_batch_limit :: "worker \<Rightarrow> nat" where
  "execution_event_batch_limit w = min (max 1 (unat (wc_batch_size (w_config w)))) (2 ^ 32 - 1)"

text \<open>The polling loop stops at the limit, at a failed or completed stream, and when no event is ready.\<close>

fun poll_items :: "worker_env \<Rightarrow> nat \<Rightarrow> execution_stream_item list \<Rightarrow> nat \<Rightarrow> worker \<Rightarrow> (worker \<times> nat) option" where
  "poll_items E limit [] n w = Some (w, n)"
| "poll_items E limit (item # items) n w =
     (if limit \<le> n then Some (w, n)
      else do {
        w' \<leftarrow> handle_execution_stream_item E (Some item) w;
        (case item of
           StreamEvent i (Inr ev) \<Rightarrow> poll_items E limit items (n + 1) w'
         | _ \<Rightarrow> Some (w', n)) })"

definition poll_execution_events :: "worker_env \<Rightarrow> execution_stream_item list \<Rightarrow> worker \<Rightarrow> (worker \<times> nat) option" where
  "poll_execution_events E items w = poll_items E (execution_event_batch_limit w) items 0 w"

text \<open>The acknowledgement of one applied stream marker; the flag tells whether the client is up.\<close>

definition applied_client :: "u64 \<Rightarrow> worker \<Rightarrow> nat option" where
  "applied_client stream_id w =
     List.find (\<lambda>k. w_client_engine_ack_pending w ! k = Some stream_id) [0..<length (w_client_engine_ack_pending w)]"

definition apply_stream_ack :: "u64 \<Rightarrow> worker \<times> bool \<Rightarrow> worker \<times> bool" where
  "apply_stream_ack stream_id = (\<lambda>(w, should).
     (case applied_client stream_id w of
        None \<Rightarrow> (w, should)
      | Some k \<Rightarrow>
          (let w = w\<lparr>w_client_engine_ack_pending := (w_client_engine_ack_pending w)[k := None]\<rparr>;
               w = (if k < length (w_clients w) then act (StreamAcknowledged (of_nat k) stream_id) w else w)
           in (w, should \<or> (k < length (w_client_connected w) \<and> w_client_connected w ! k)))))"

definition poll_applied_execution_streams :: "worker_env \<Rightarrow> worker \<Rightarrow> worker \<times> nat" where
  "poll_applied_execution_streams E w =
     (let (markers, w) = reading (we_applied_streams E) w;
          (w, should) = fold apply_stream_ack markers (w, False)
      in (if should then attempt_stream_recovery E w else w, length markers))"

subsection \<open>Control commands\<close>

definition include_worker_tracked_orders :: "worker_env \<Rightarrow> worker \<Rightarrow> cancel_target list \<Rightarrow> cancel_scope \<Rightarrow> cancel_target list" where
  "include_worker_tracked_orders E w targets scope =
     targets @ List.map_filter (\<lambda>oid.
       (case w_tracked_orders w oid of
          None \<Rightarrow> None
        | Some t \<Rightarrow>
            if scope_matches scope t \<and> oid \<notin> ct_order_id ` set targets
            then Some \<lparr>ct_order_id = oid, ct_symbol = tr_symbol t, ct_venue = tr_venue t, ct_account_id = tr_account_id t\<rparr>
            else None))
       (we_orders E (dom (w_tracked_orders w)))"

definition add_failure :: "order_id \<Rightarrow> message \<Rightarrow> bool \<Rightarrow> cancel_dispatch_report \<Rightarrow> cancel_dispatch_report" where
  "add_failure oid reason unknown r =
     r\<lparr>cd_failures := cd_failures r @ [\<lparr>cf_order_id = oid, cf_reason = reason, cf_outcome_unknown = unknown\<rparr>]\<rparr>"

definition dispatch_one_cancellation ::
  "worker_env \<Rightarrow> cancel_target \<Rightarrow> worker \<times> cancel_dispatch_report \<Rightarrow> worker \<times> cancel_dispatch_report" where
  "dispatch_one_cancellation E target = (\<lambda>(w, r).
     (case select_client_for_cancel w target of
        Inl reason \<Rightarrow> (w, add_failure (ct_order_id target) reason False r)
      | Inr i \<Rightarrow>
          (case client_of w i of
             None \<Rightarrow> (w, add_failure (ct_order_id target) (Msg ''execution client index is unavailable'') False r)
           | Some c \<Rightarrow>
               (let (cancel, w) = reading (we_cancel E) w;
                    w = act (CancelSent i (ct_order_id target)) w
                in case cancel i (ct_order_id target) of
                     Inr _ \<Rightarrow> (w, r\<lparr>cd_submitted := cd_submitted r @ [ct_order_id target]\<rparr>)
                   | Inl err \<Rightarrow>
                       (if submission_outcome_may_be_unknown err then latch_emergency w else w,
                        add_failure (ct_order_id target) (error_message err) (submission_outcome_may_be_unknown err) r)))))"

definition worker_dispatch_cancellations :: "worker_env \<Rightarrow> cancel_target list \<Rightarrow> worker \<Rightarrow> worker \<times> cancel_dispatch_report" where
  "worker_dispatch_cancellations E targets w =
     fold (dispatch_one_cancellation E) targets (w, no_cancellations\<lparr>cd_requested := of_nat (length targets)\<rparr>)"

definition worker_validate_replacement ::
  "worker \<Rightarrow> order_id \<Rightarrow> symbol \<Rightarrow> quantity option \<Rightarrow> price option \<Rightarrow> message + usize" where
  "worker_validate_replacement w oid sm nq np =
     (if \<not> w_accepting_intents w \<or> w_emergency_latched w \<or> w_stream_recovery_pending w
      then Err (Msg ''execution intake is disabled; order replacement requires a healthy reviewed state'')
      else and_then (ok_or (MsgOrder ''order is not tracked by the execution worker'' oid) (w_tracked_orders w oid)) (\<lambda>t.
        if tr_symbol t \<noteq> sm then Err (MsgOrder ''replacement symbol mismatch'' oid)
        else if is_some_and (\<lambda>q. q \<le> 0) nq then Err (Msg ''replacement quantity must be positive'')
        else if is_some_and (\<lambda>q. tr_remaining_quantity t < q) nq
        then Err (Msg ''replacement quantity cannot increase without a new risk-reviewed intent'')
        else and_then
          (case np of
             None \<Rightarrow> Ok ()
           | Some p \<Rightarrow>
               if p \<le> 0 then Err (Msg ''replacement price must be positive'')
               else and_then (ok_or (Msg ''order replacement cannot change price without a tracked limit price'') (tr_limit_price t)) (\<lambda>current.
                 if (case tr_side t of Buy \<Rightarrow> current < p | Sell \<Rightarrow> p < current)
                 then Err (Msg ''replacement price is more aggressive; cancel and submit a new risk-reviewed intent'')
                 else Ok ())) (\<lambda>_.
          select_client_for_cancel w
            \<lparr>ct_order_id = oid, ct_symbol = sm, ct_venue = tr_venue t, ct_account_id = tr_account_id t\<rparr>)))"

definition replace_tracked :: "order_id \<Rightarrow> quantity option \<Rightarrow> price option \<Rightarrow> worker \<Rightarrow> worker" where
  "replace_tracked oid nq np w =
     w\<lparr>w_tracked_orders := (w_tracked_orders w)(oid := map_option (\<lambda>t.
         t\<lparr>tr_remaining_quantity := unwrap_or (tr_remaining_quantity t) nq, tr_limit_price := opt_or np (tr_limit_price t)\<rparr>)
         (w_tracked_orders w oid))\<rparr>"

definition worker_replace_order ::
  "worker_env \<Rightarrow> order_id \<Rightarrow> symbol \<Rightarrow> quantity option \<Rightarrow> price option \<Rightarrow> worker \<Rightarrow> worker \<times> (message + unit)" where
  "worker_replace_order E oid sm nq np w =
     (case worker_validate_replacement w oid sm nq np of
        Inl reason \<Rightarrow> (w, Err reason)
      | Inr i \<Rightarrow>
          (case client_of w i of
             None \<Rightarrow> (w, Err (MsgOrder ''no execution client for order'' oid))
           | Some c \<Rightarrow>
               (let (modify, w) = reading (we_modify E) w;
                    w = act (ModifySent i oid nq np) w
                in case modify i oid nq np of
                     Inr new_id \<Rightarrow>
                       if blank (order_id_text new_id)
                       then (reject_queued_intents_for_disabled_intake E (latch_emergency w),
                             Err (MsgOrder ''order replacement returned an empty venue order id'' oid))
                       else (replace_tracked oid nq np w, Ok ())
                   | Inl err \<Rightarrow>
                       if submission_outcome_may_be_unknown err
                       then (reject_queued_intents_for_disabled_intake E (latch_emergency w),
                             Err (MsgCause ''order replacement outcome is unknown'' (error_message err)))
                       else (w, Err (error_message err)))))"

definition worker_set_intake :: "worker_env \<Rightarrow> bool \<Rightarrow> worker \<Rightarrow> worker \<times> (message + unit)" where
  "worker_set_intake E enabled w =
     (if enabled \<and> w_emergency_latched w
      then (w, Err (Msg ''execution intake is emergency-latched; restart required''))
      else if enabled \<and> w_stream_recovery_pending w
      then (w, Err (Msg ''execution intake is waiting for private-stream reconciliation''))
      else let w = w\<lparr>w_operator_intake_enabled := enabled, w_accepting_intents := enabled\<rparr>
           in (if enabled then w else reject_queued_intents_for_disabled_intake E w, Ok ()))"

fun handle_control_command :: "worker_env \<Rightarrow> control_command \<Rightarrow> worker \<Rightarrow> worker" where
  "handle_control_command E (CancelOrders targets scope) w =
     (let (w, r) = worker_dispatch_cancellations E (include_worker_tracked_orders E w targets scope) w
      in act (Replied (CancelReply r)) w)"
| "handle_control_command E (EnterEmergency targets) w =
     (let w = latch_emergency w;
          (w, r) = worker_dispatch_cancellations E (include_worker_tracked_orders E w targets ScopeAll) w
      in act (Replied (CancelReply r)) w)"
| "handle_control_command E (ReconcileAccounts balances positions fills) w =
     (let (w, snap) = collect_reconcile_snapshot E balances positions fills w
      in act (Replied (SnapshotReply snap)) (update_reconciled_open_orders snap w))"
| "handle_control_command E (SetIntake enabled) w =
     (let (w, r) = worker_set_intake E enabled w in act (Replied (ResultReply r)) w)"
| "handle_control_command E (ReplaceOrder oid sm nq np) w =
     (let (w, r) = worker_replace_order E oid sm nq np w in act (Replied (ResultReply r)) w)"

definition handle_commands :: "worker_env \<Rightarrow> control_command list \<Rightarrow> worker \<Rightarrow> worker" where
  "handle_commands E cmds w = fold (handle_control_command E) cmds w"

subsection \<open>Unacknowledged orders\<close>

definition ack_overdue :: "worker \<Rightarrow> nat \<Rightarrow> pending_ack \<Rightarrow> bool" where
  "ack_overdue w now p \<longleftrightarrow> \<not> pa_cancel_sent p \<and> unat (wc_ack_timeout_ms (w_config w)) * 1000000 < now - pa_submitted_at p"

definition mark_overdue :: "nat \<Rightarrow> worker \<Rightarrow> worker" where
  "mark_overdue now w = w\<lparr>w_pending_acks := (\<lambda>oid. map_option (\<lambda>p.
     if ack_overdue w now p then p\<lparr>pa_cancel_sent := True\<rparr> else p) (w_pending_acks w oid))\<rparr>"

definition cancel_overdue :: "worker_env \<Rightarrow> order_id \<times> symbol \<Rightarrow> worker \<Rightarrow> worker" where
  "cancel_overdue E = (\<lambda>(oid, sm) w.
     (let i = (case w_order_to_client w oid of Some i \<Rightarrow> i | None \<Rightarrow> select_client_by_symbol w sm) in
      case client_of w i of
        None \<Rightarrow> w
      | Some c \<Rightarrow>
          (let (cancel, w) = reading (we_cancel E) w;
               w = act (CancelSent i oid) w
           in case cancel i oid of
                Inr _ \<Rightarrow> w
              | Inl err \<Rightarrow>
                  (let (now, w) = reading (we_instant E) w
                   in w\<lparr>w_pending_acks := (w_pending_acks w)(oid := map_option
                         (\<lambda>p. p\<lparr>pa_submitted_at := now, pa_cancel_sent := False\<rparr>) (w_pending_acks w oid))\<rparr>))))"

definition check_ack_timeouts :: "worker_env \<Rightarrow> worker \<Rightarrow> worker \<times> nat" where
  "check_ack_timeouts E w =
     (if dom (w_pending_acks w) = {} \<or> wc_ack_timeout_ms (w_config w) = 0 then (w, 0)
      else let (now, w) = reading (we_instant E) w;
               timed_out = List.map_filter (\<lambda>oid. Option.bind (w_pending_acks w oid) (\<lambda>p.
                 if ack_overdue w now p then Some (oid, pa_symbol p) else None)) (we_orders E (dom (w_pending_acks w)));
               w = mark_overdue now w;
               w = (if timed_out \<noteq> [] then latch_emergency w else w)
           in (fold (cancel_overdue E) timed_out w, length timed_out))"

subsection \<open>From an envelope to a submission\<close>

text \<open>The \<open>?\<close> operator on a state, a result and a possible panic.\<close>

definition step_then ::
  "(worker \<times> ('e + 'a)) option \<Rightarrow> (worker \<Rightarrow> 'a \<Rightarrow> (worker \<times> ('e + 'b)) option) \<Rightarrow> (worker \<times> ('e + 'b)) option" where
  "step_then m f = (case m of None \<Rightarrow> None | Some (w, Inl e) \<Rightarrow> Some (w, Inl e) | Some (w, Inr x) \<Rightarrow> f w x)"

fun venue_number :: "venue_id \<Rightarrow> nat" where
  "venue_number (VenueId n) = unat n"

definition simulated_identity ::
  "worker_env \<Rightarrow> order_intent_envelope \<Rightarrow> worker \<Rightarrow> worker \<times> (message + order_intent_envelope \<times> usize option)" where
  "simulated_identity E e w =
     (if env_account_id e = None \<and> list_all xc_is_simulated_execution (w_clients w)
      then (case select_execution_client E w (env_intent e) of
              (w, Inl reason) \<Rightarrow> (w, Err (MsgCause ''routing failed'' reason))
            | (w, Inr i) \<Rightarrow>
                (case venue_for_client E w i of
                   None \<Rightarrow> (w, Err (Msg ''simulated execution client lacks a unique venue identity''))
                 | Some v \<Rightarrow>
                     if is_some_and (\<lambda>t. t \<noteq> v) (in_target_venue (env_intent e))
                     then (w, Err (Msg ''simulated execution target venue does not match selected client''))
                     else (w, Ok (e\<lparr>env_account_id := Some (AccountId (''simulated-venue:'' @ decimal_digits (venue_number v)))\<rparr>, Some i))))
      else (w, Ok (e, None)))"

text \<open>The account: an error when the envelope has none, or a blank one.\<close>

fun account_text :: "account_id \<Rightarrow> string" where
  "account_text (AccountId a) = a"

definition canonical_account :: "order_intent_envelope \<Rightarrow> message + account_id" where
  "canonical_account e =
     and_then (ok_or (Msg ''missing canonical account identity'') (env_account_id e)) (\<lambda>acc.
       if blank (account_text acc) then Err (Msg ''canonical account identity is empty'') else Ok acc)"

text \<open>The selected client and whether the admission of the account has been validated for it.\<close>

definition choose_client ::
  "worker_env \<Rightarrow> order_intent \<Rightarrow> account_id \<Rightarrow> usize option \<Rightarrow> worker \<Rightarrow> (worker \<times> (message + usize \<times> bool)) option" where
  "choose_client E intent acc sim w =
     (let bound = w_account_to_client w acc in
      if is_some_and (live_client w) bound
      then (let (now, w) = reading (we_now_micros E) w in do {
              r \<leftarrow> validate_account_admission E w acc intent (the bound) now;
              Some (w, and_then r (\<lambda>_. Ok (the bound, True))) })
      else if bound = None \<and> list_ex (\<lambda>c. \<not> xc_is_simulated_execution c) (w_clients w)
      then Some (w, Err (Msg ''account identity is not bound to an execution client''))
      else (case sim of
              Some i \<Rightarrow> Some (w, Ok (i, False))
            | None \<Rightarrow>
                (case select_execution_client E w intent of
                   (w, Inl reason) \<Rightarrow> Some (w, Err (MsgCause ''routing failed'' reason))
                 | (w, Inr i) \<Rightarrow> Some (w, Ok (i, False)))))"

definition confirm_binding ::
  "worker_env \<Rightarrow> order_intent \<Rightarrow> account_id \<Rightarrow> usize \<Rightarrow> bool \<Rightarrow> worker \<Rightarrow> (worker \<times> (message + unit)) option" where
  "confirm_binding E intent acc i validated w =
     (if is_some_and xc_is_simulated_execution (client_of w i) then Some (w, Ok ())
      else case w_account_to_client w acc of
        None \<Rightarrow> Some (w, Err (Msg ''account identity is not bound to an execution client''))
      | Some expected \<Rightarrow>
          if expected \<noteq> i then Some (w, Err (Msg ''account identity does not match selected execution client''))
          else if validated then Some (w, Ok ())
          else (let (now, w) = reading (we_now_micros E) w in do {
                  r \<leftarrow> validate_account_admission E w acc intent i now;
                  Some (w, r) }))"

definition market_gate :: "worker_env \<Rightarrow> order_intent_envelope \<Rightarrow> usize \<Rightarrow> worker \<Rightarrow> worker \<times> (message + unit)" where
  "market_gate E e i w =
     (let (now, w) = reading (we_now_micros E) w;
          (market, w) = reading (we_market E) w;
          protection = (case client_of w i of None \<Rightarrow> CanonicalBook | Some c \<Rightarrow> xc_price_protection c)
      in (w, map_sum (\<lambda>r. MsgCause ''final market price protection rejected intent'' (we_reason E r)) id
               (validate_execution_market_reference (we_dec E) (we_fx E) market e now protection)))"

text \<open>Every check between the queue and the client, in order. The result is the envelope as submitted, its client and account.\<close>

definition admit_envelope ::
  "worker_env \<Rightarrow> order_intent_envelope \<Rightarrow> worker \<Rightarrow> (worker \<times> (message + order_intent_envelope \<times> usize \<times> account_id)) option" where
  "admit_envelope E e w =
     (let (now, w) = reading (we_now_micros E) w in
      step_then (Some (w, map_sum (\<lambda>r. MsgCause ''execution lifecycle gate rejected intent'' (we_reason E r)) id
                        (validate_pre_execution (we_dec E) e now None))) (\<lambda>w _.
      if \<not> w_accepting_intents w
      then Some (w, Err (MsgAsset ''execution intake disabled by control for'' (symbol_text (in_symbol (env_intent e)))))
      else step_then (Some (simulated_identity E e w)) (\<lambda>w (e, sim).
      step_then (Some (w, canonical_account e)) (\<lambda>w acc.
      step_then (choose_client E (env_intent e) acc sim w) (\<lambda>w (i, validated).
      step_then (Some (w, validate_client_product_scope E w (env_intent e) i)) (\<lambda>w _.
      step_then (confirm_binding E (env_intent e) acc i validated w) (\<lambda>w _.
      step_then (Some (market_gate E e i w)) (\<lambda>w _.
      step_then (Some (map_prod id (map_sum (MsgCause ''local rate budget rejected new order'') id)
                        (admit_new_order_rate_budget E w (Some acc) (env_intent e) i))) (\<lambda>w _.
      Some (w, Ok (e, i, acc)))))))))))"

definition set_timeline :: "order_id \<Rightarrow> execution_timeline option \<Rightarrow> worker \<Rightarrow> worker" where
  "set_timeline oid t w = w\<lparr>w_execution_timelines := (w_execution_timelines w)(oid := t)\<rparr>"

definition order_venue :: "worker_env \<Rightarrow> worker \<Rightarrow> order_intent \<Rightarrow> usize \<Rightarrow> venue_id option" where
  "order_venue E w intent i = opt_or (in_target_venue intent) (venue_for_client E w i)"

definition track_order :: "worker_env \<Rightarrow> order_id \<Rightarrow> order_intent_envelope \<Rightarrow> usize \<Rightarrow> account_id \<Rightarrow> worker \<Rightarrow> worker" where
  "track_order E oid e i acc w =
     (let intent = env_intent e; (now, w) = reading (we_instant E) w in
      w\<lparr>w_order_to_client := (w_order_to_client w)(oid \<mapsto> i),
        w_tracked_orders := (w_tracked_orders w)(oid \<mapsto>
          \<lparr>tr_symbol = in_symbol intent, tr_strategy_id = in_strategy_id intent, tr_venue = order_venue E w intent i,
           tr_account_id = Some acc, tr_side = in_side intent, tr_limit_price = in_price intent,
           tr_remaining_quantity = in_quantity intent, tr_processed_fill_ids = {}\<rparr>),
        w_pending_acks := (w_pending_acks w)(oid \<mapsto>
          \<lparr>pa_symbol = in_symbol intent, pa_submitted_at = now, pa_cancel_sent = False\<rparr>)\<rparr>)"

definition report_new :: "worker_env \<Rightarrow> order_id \<Rightarrow> order_intent_envelope \<Rightarrow> usize \<Rightarrow> account_id \<Rightarrow> worker \<Rightarrow> worker" where
  "report_new E oid e i acc w =
     (let intent = env_intent e; (now, w) = reading (we_now_micros E) w in
      report_event (OrderNew oid (Some (env_client_order_id e)) (Some acc) (in_symbol intent) (in_side intent)
        (in_quantity intent) (in_price intent) (arrival_price (env_lifecycle e)) now (order_venue E w intent i)
        (in_strategy_id intent)) w)"

definition submission_succeeded ::
  "worker_env \<Rightarrow> order_intent_envelope \<Rightarrow> usize \<Rightarrow> account_id \<Rightarrow> execution_timeline \<Rightarrow> order_id \<Rightarrow> worker \<Rightarrow> worker" where
  "submission_succeeded E e i acc line oid w =
     (let trace = OrderId (env_client_order_id e);
          w = count_stats (\<lambda>s. s\<lparr>ws_orders_placed := ws_orders_placed s + 1\<rparr>) w;
          (w, duplicate) = latch_duplicate_order_id oid w
      in if duplicate then count_stats one_failed (set_timeline trace None w)
         else let w = (if oid \<noteq> trace then set_timeline oid (Some line) (set_timeline trace None w) else w)
              in report_new E oid e i acc (track_order E oid e i acc w))"

definition submission_failed ::
  "worker_env \<Rightarrow> order_intent_envelope \<Rightarrow> usize \<Rightarrow> account_id \<Rightarrow> hft_error \<Rightarrow> worker \<Rightarrow> worker" where
  "submission_failed E e i acc err w =
     (let trace = OrderId (env_client_order_id e);
          w = count_stats one_failed w
      in if (case err of SubmissionNotAttempted m \<Rightarrow> True | _ \<Rightarrow> False)
         then reject_unsent E (env_client_order_id e) (error_message err) (set_timeline trace None w)
         else let (w, duplicate) = latch_duplicate_order_id trace w in
           if duplicate then w
           else if submission_outcome_may_be_unknown err
           then report_new E trace e i acc (track_order E trace e i acc (latch_emergency w))
           else let w = set_timeline trace None (report_new E trace e i acc w);
                    (now, w) = reading (we_now_micros E) w
                in report_event (OrderReject trace (we_text E (MsgCause ''worker submission failed'' (error_message err))) now) w)"

definition submit_envelope :: "worker_env \<Rightarrow> order_intent_envelope \<Rightarrow> usize \<Rightarrow> account_id \<Rightarrow> worker \<Rightarrow> worker" where
  "submit_envelope E e i acc w =
     (let trace = OrderId (env_client_order_id e);
          (place, w) = reading (we_place E) w;
          attempt = place i e;
          w = act (Placed i e (sa_outcome attempt)) w;
          line = apply_submission attempt (timeline_from_lifecycle (env_lifecycle e) i);
          w = set_timeline trace (Some line) w;
          w = count_stats (\<lambda>s. s\<lparr>ws_recent_execution_latency_micros := sp_write_to_response_us (spans line)\<rparr>) w
      in case sa_outcome attempt of
           Inr oid \<Rightarrow> submission_succeeded E e i acc line oid w
         | Inl err \<Rightarrow> submission_failed E e i acc err w)"

text \<open>
  Before each submission the control channel and the private events are read until a round finds fewer events than the
  batch limit. When nothing more arrives, that is the round: it finds none.
\<close>

definition drain_round :: "worker_env \<Rightarrow> arrivals \<Rightarrow> worker \<Rightarrow> (worker \<times> nat) option" where
  "drain_round E a w = do {
     (w, n) \<leftarrow> poll_execution_events E (ar_items a) (handle_commands E (ar_commands a) w);
     Some (fst (poll_applied_execution_streams E w), n) }"

fun drain_rounds :: "worker_env \<Rightarrow> arrivals list \<Rightarrow> worker \<Rightarrow> worker option" where
  "drain_rounds E [] w = map_option fst (drain_round E no_arrivals w)"
| "drain_rounds E (a # as) w = do {
     (w, n) \<leftarrow> drain_round E a w;
     if n < execution_event_batch_limit w then Some w else drain_rounds E as w }"

definition drain_private_events_before_submission :: "worker_env \<Rightarrow> worker \<Rightarrow> worker option" where
  "drain_private_events_before_submission E w = (let (rounds, w) = reading (we_rounds E) w in drain_rounds E rounds w)"

definition process_envelope :: "worker_env \<Rightarrow> order_intent_envelope \<Rightarrow> worker \<Rightarrow> worker option" where
  "process_envelope E e w = do {
     w \<leftarrow> drain_private_events_before_submission E w;
     (w, r) \<leftarrow> admit_envelope E e w;
     Some (case r of
             Inl reason \<Rightarrow> reject_intent E (env_client_order_id e) reason w
           | Inr (e', i, acc) \<Rightarrow> submit_envelope E e' i acc w) }"

fun process_envelopes :: "worker_env \<Rightarrow> order_intent_envelope list \<Rightarrow> worker \<Rightarrow> worker option" where
  "process_envelopes E [] w = Some w"
| "process_envelopes E (e # es) w = do { w \<leftarrow> process_envelope E e w; process_envelopes E es w }"

definition process_order_intents :: "worker_env \<Rightarrow> order_intent_envelope list \<Rightarrow> worker \<Rightarrow> worker option" where
  "process_order_intents E es w =
     (let w = count_processed es w in
      if w_clients w = []
      then Some (fold (\<lambda>e. reject_intent E (env_client_order_id e) (Msg ''no execution client is available'')) es w)
      else process_envelopes E es w)"

subsection \<open>One turn of the main loop\<close>

definition intake_turn :: "worker_env \<Rightarrow> worker \<Rightarrow> (worker \<times> bool) option" where
  "intake_turn E w =
     (let (es, w) = reading (we_envelopes E) w;
          w = receive_batch es w
      in if es = [] then Some (w, False) else do { w \<leftarrow> process_order_intents E es w; Some (w, True) })"

definition periodic_reconcile :: "worker_env \<Rightarrow> worker \<Rightarrow> worker \<times> bool" where
  "periodic_reconcile E w =
     (if wc_reconcile_interval_ms (w_config w) = 0 then (w, False)
      else let (now, w) = reading (we_instant E) w
           in if now - w_last_reconcile w \<le> unat (wc_reconcile_interval_ms (w_config w)) * 1000000 then (w, False)
              else let (w, reconciled) = worker_reconcile_open_orders E w;
                       (now, w) = reading (we_instant E) w
                   in (w\<lparr>w_last_reconcile := now\<rparr>, reconciled))"

definition idle_wait :: "worker_env \<Rightarrow> worker \<Rightarrow> worker option" where
  "idle_wait E w =
     (let (woken, w) = reading (we_idle E) w
      in case woken of
           None \<Rightarrow> Some w
         | Some (Inl cmd) \<Rightarrow> Some (handle_control_command E cmd w)
         | Some (Inr item) \<Rightarrow> handle_execution_stream_item E item w)"

definition worker_turn :: "worker_env \<Rightarrow> worker \<Rightarrow> worker option" where
  "worker_turn E w = do {
     let (a, w) = reading (we_turn E) w;
     let w = handle_commands E (ar_commands a) w;
     (w, received) \<leftarrow> poll_execution_events E (ar_items a) w;
     let (w, applied) = poll_applied_execution_streams E w;
     let (w, retried) = retry_stream_recovery_if_due E w;
     (w, taken) \<leftarrow> (if received < execution_event_batch_limit w then intake_turn E w else Some (w, False));
     let (w, timeouts) = (if wc_ack_timeout_ms (w_config w) = 0 then (w, 0) else check_ack_timeouts E w);
     let (w, reconciled) = periodic_reconcile E w;
     if ar_commands a \<noteq> [] \<or> 0 < received \<or> 0 < applied \<or> retried \<or> taken \<or> 0 < timeouts \<or> reconciled
     then Some w else idle_wait E w }"

fun worker_run :: "worker_env \<Rightarrow> nat \<Rightarrow> worker \<Rightarrow> worker option" where
  "worker_run E 0 w = Some w"
| "worker_run E (Suc n) w = do { w \<leftarrow> worker_turn E w; worker_run E n w }"

end
