(* ===== verification/Worker_Machine.thy ===== *)
theory Worker_Machine
  imports Execution_Worker
begin

text \<open>
  What an execution worker may do, as a state machine: one rule for every kind of change to its orders, its latches and
  its log, guarded by what has to hold before. The operations of the worker are runs of this machine (theory
  \<open>Worker_Refinement\<close>); what holds in all its reachable states is shown here by induction on the rules.
\<close>

subsection \<open>Envelopes in hand\<close>

text \<open>
  An envelope taken from the queue is settled by a submission that crossed the boundary to the venue or by a report that it
  was not sent. An attempt that the client declares not attempted settles nothing.
\<close>

fun not_attempted :: "hft_error + order_id \<Rightarrow> bool" where
  "not_attempted (Inl (SubmissionNotAttempted m)) = True"
| "not_attempted _ = False"

fun weight :: "string \<Rightarrow> worker_action \<Rightarrow> int" where
  "weight c (Received e) = (if env_client_order_id e = c then 1 else 0)"
| "weight c (Placed i e r) = (if env_client_order_id e = c \<and> \<not> not_attempted r then - 1 else 0)"
| "weight c (RejectedUnsent c' reason ts) = (if c' = c then - 1 else 0)"
| "weight c _ = 0"

definition hand :: "worker_action list \<Rightarrow> string \<Rightarrow> int" where
  "hand l c = sum_list (map (weight c) l)"

lemma hand_simps [simp]:
  "hand [] c = 0"
  "hand (a # l) c = weight c a + hand l c"
  "hand (l @ l') c = hand l c + hand l' c"
  by (simp_all add: hand_def)

subsection \<open>What allows a submission\<close>

definition protection_of :: "worker \<Rightarrow> usize \<Rightarrow> execution_price_protection" where
  "protection_of w i = (case client_of w i of None \<Rightarrow> CanonicalBook | Some c \<Rightarrow> xc_price_protection c)"

definition account_admitted :: "worker_env \<Rightarrow> worker \<Rightarrow> account_id \<Rightarrow> order_intent \<Rightarrow> usize \<Rightarrow> bool" where
  "account_admitted E w acc intent i \<longleftrightarrow>
     (\<exists>t. validate_account_admission E w acc intent i (we_now_micros E t) = Some (Ok ()))"

definition submission_allowed :: "worker_env \<Rightarrow> worker \<Rightarrow> order_intent_envelope \<Rightarrow> usize \<Rightarrow> account_id \<Rightarrow> bool" where
  "submission_allowed E w e i acc \<longleftrightarrow>
     w_accepting_intents w \<and> canonical_account e = Ok acc \<and>
     (\<exists>t. validate_pre_execution (we_dec E) e (we_now_micros E t) None = Ok ()) \<and>
     validate_client_product_scope E w (env_intent e) i = Ok () \<and>
     (\<exists>t u. validate_execution_market_reference (we_dec E) (we_fx E) (we_market E u) e (we_now_micros E t) (protection_of w i) = Ok ()) \<and>
     (live_client w i \<longrightarrow> w_account_to_client w acc = Some i) \<and>
     (is_some_and (live_client w) (w_account_to_client w acc) \<longrightarrow>
        account_admitted E w acc (env_intent e) (the (w_account_to_client w acc)))"

text \<open>What a recovery has to see before it opens intake.\<close>

definition answered :: "worker_env \<Rightarrow> account_client_snapshot \<Rightarrow> bool" where
  "answered E cl \<longleftrightarrow> (\<exists>t. cs_open_orders cl = ca_open_orders (we_client E t (cs_client_index cl)) \<and>
     cs_cancellable_orders cl = ca_cancellable_orders (we_client E t (cs_client_index cl)))"

definition recovery_evidence :: "worker_env \<Rightarrow> worker \<Rightarrow> bool" where
  "recovery_evidence E w \<longleftrightarrow> streams_settled w \<and>
     (\<exists>snap. snapshot_is_complete snap \<and> map cs_client_index snap = map of_nat [0..<length (w_clients w)] \<and>
       list_all (answered E) snap \<and> recovery_snapshot_matches E w snap)"

subsection \<open>The machine\<close>

definition same_bindings :: "worker \<Rightarrow> worker \<Rightarrow> bool" where
  "same_bindings w w' \<longleftrightarrow>
     w_config w' = w_config w \<and> w_clients w' = w_clients w \<and> w_has_router w' = w_has_router w \<and>
     w_venue_to_client w' = w_venue_to_client w \<and> w_binance_usdm_client_indices w' = w_binance_usdm_client_indices w \<and>
     w_strategy_to_client w' = w_strategy_to_client w \<and> w_account_to_client w' = w_account_to_client w \<and>
     w_account_admissions w' = w_account_admissions w \<and> w_account_environments w' = w_account_environments w \<and>
     w_account_egress w' = w_account_egress w"

definition same_latches :: "worker \<Rightarrow> worker \<Rightarrow> bool" where
  "same_latches w w' \<longleftrightarrow>
     w_accepting_intents w' = w_accepting_intents w \<and> w_operator_intake_enabled w' = w_operator_intake_enabled w \<and>
     w_emergency_latched w' = w_emergency_latched w \<and> w_stream_recovery_pending w' = w_stream_recovery_pending w"

definition same_lengths :: "worker \<Rightarrow> worker \<Rightarrow> bool" where
  "same_lengths w w' \<longleftrightarrow>
     length (w_client_connected w') = length (w_client_connected w) \<and>
     length (w_client_stream_barriers w') = length (w_client_stream_barriers w) \<and>
     length (w_client_latest_stream_id w') = length (w_client_latest_stream_id w) \<and>
     length (w_client_engine_ack_pending w') = length (w_client_engine_ack_pending w)"

definition reconciled_finite :: "worker \<Rightarrow> bool" where
  "reconciled_finite w \<longleftrightarrow> (\<forall>acc S. w_reconciled_open_order_ids w acc = Some S \<longrightarrow> finite S)"

definition quiet :: "worker \<Rightarrow> worker \<Rightarrow> bool" where
  "quiet w w' \<longleftrightarrow> same_bindings w w' \<and> same_latches w w' \<and> same_lengths w w' \<and>
     w_order_to_client w' = w_order_to_client w \<and> w_tracked_orders w' = w_tracked_orders w \<and>
     dom (w_pending_acks w') \<subseteq> dom (w_pending_acks w) \<and>
     (reconciled_finite w \<longrightarrow> reconciled_finite w') \<and> w_log w' = w_log w"

inductive worker_step :: "worker_env \<Rightarrow> worker \<Rightarrow> worker \<Rightarrow> bool" for E where
  quiet_step: "quiet w w' \<Longrightarrow> worker_step E w w'"
| update_step: "w_tracked_orders w oid = Some t \<Longrightarrow> tr_account_id t' = tr_account_id t \<Longrightarrow>
    worker_step E w (w\<lparr>w_tracked_orders := (w_tracked_orders w)(oid \<mapsto> t')\<rparr>)"
| forget_step: "worker_step E w (forget_order oid w)"
| track_step: "\<not> order_known w oid \<Longrightarrow> unat i < length (w_clients w) \<Longrightarrow>
    (is_some_and (live_client w) (w_account_to_client w acc) \<Longrightarrow>
       account_admitted E w acc (env_intent e) (the (w_account_to_client w acc))) \<Longrightarrow>
    worker_step E w (track_order E oid e i acc w)"
| note_step: "a \<in> range Reported \<union> range (\<lambda>(i, oid). CancelSent i oid) \<union> range (\<lambda>(i, k). StreamAcknowledged i k) \<union> range Replied \<Longrightarrow>
    worker_step E w (act a w)"
| receive_step: "worker_step E w (act (Received e) w)"
| reject_step: "0 < hand (w_log w) c \<Longrightarrow> worker_step E w (act (RejectedUnsent c reason ts) w)"
| place_step: "0 < hand (w_log w) (env_client_order_id e) \<Longrightarrow> submission_allowed E w e i acc \<Longrightarrow>
    worker_step E w (act (Placed i e r) w)"
| modify_step: "worker_validate_replacement w oid sm nq np = Ok i \<Longrightarrow> worker_step E w (act (ModifySent i oid nq np) w)"
| emergency_step: "worker_step E w (latch_emergency w)"
| recovery_step: "worker_step E w (latch_stream_recovery w)"
| operator_step: "(enabled \<Longrightarrow> \<not> w_emergency_latched w \<and> \<not> w_stream_recovery_pending w) \<Longrightarrow>
    worker_step E w (w\<lparr>w_operator_intake_enabled := enabled, w_accepting_intents := enabled\<rparr>)"
| recovered_step: "w_stream_recovery_pending w \<Longrightarrow> recovery_evidence E w \<Longrightarrow>
    worker_step E w (w\<lparr>w_recovery_intent_drain_required := False, w_stream_recovery_pending := False,
      w_accepting_intents := w_accepting_intents w \<or> w_operator_intake_enabled w \<and> \<not> w_emergency_latched w\<rparr>)"

abbreviation worker_steps :: "worker_env \<Rightarrow> worker \<Rightarrow> worker \<Rightarrow> bool" where
  "worker_steps E \<equiv> (worker_step E)\<^sup>*\<^sup>*"

subsection \<open>The rules keep the bindings and extend the log\<close>

named_theorems worker_defs \<open>the elementary changes of a worker\<close>

lemmas worker_change_defs [worker_defs] =
  forget_order_def track_order_def reading_def act_def latch_emergency_def latch_stream_recovery_def

lemma step_bindings: "worker_step E w w' \<Longrightarrow> same_bindings w w'"
  by (induction rule: worker_step.induct) (auto simp: quiet_def same_bindings_def worker_defs Let_def)

lemma steps_bindings: "worker_steps E w w' \<Longrightarrow> same_bindings w w'"
proof (induction rule: rtranclp_induct)
  case (step y z)
  then show ?case using step_bindings [OF step(2)] by (simp add: same_bindings_def)
qed (simp add: same_bindings_def)

lemma step_log: "worker_step E w w' \<Longrightarrow> \<exists>new. w_log w' = w_log w @ new"
  by (induction rule: worker_step.induct) (auto simp: quiet_def worker_defs Let_def)

lemma steps_log: "worker_steps E w w' \<Longrightarrow> \<exists>new. w_log w' = w_log w @ new"
proof (induction rule: rtranclp_induct)
  case (step y z)
  then show ?case using step_log [OF step(2)] by auto
qed simp

subsection \<open>Intake\<close>

text \<open>Intake is open exactly when the operator allows it and neither latch is set.\<close>

definition intake_exact :: "worker \<Rightarrow> bool" where
  "intake_exact w \<longleftrightarrow> (w_accepting_intents w \<longleftrightarrow>
     w_operator_intake_enabled w \<and> \<not> w_emergency_latched w \<and> \<not> w_stream_recovery_pending w)"

lemma step_intake_exact: "worker_step E w w' \<Longrightarrow> intake_exact w \<Longrightarrow> intake_exact w'"
  by (induction rule: worker_step.induct) (auto simp: intake_exact_def quiet_def same_latches_def worker_defs Let_def)

lemma steps_intake_exact: "worker_steps E w w' \<Longrightarrow> intake_exact w \<Longrightarrow> intake_exact w'"
  by (induction rule: rtranclp_induct) (auto intro: step_intake_exact)

text \<open>An emergency stays, and under it nothing is placed or modified.\<close>

fun opens_risk :: "worker_action \<Rightarrow> bool" where
  "opens_risk (Placed i e r) = True"
| "opens_risk (ModifySent i oid nq np) = True"
| "opens_risk _ = False"

lemma step_emergency:
  "worker_step E w w' \<Longrightarrow> intake_exact w \<Longrightarrow> w_emergency_latched w \<Longrightarrow>
     w_emergency_latched w' \<and> filter opens_risk (w_log w') = filter opens_risk (w_log w)"
  by (induction rule: worker_step.induct)
    (auto simp: intake_exact_def quiet_def same_latches_def submission_allowed_def worker_validate_replacement_def worker_defs Let_def)

lemma steps_emergency:
  "worker_steps E w w' \<Longrightarrow> intake_exact w \<Longrightarrow> w_emergency_latched w \<Longrightarrow>
     intake_exact w' \<and> w_emergency_latched w' \<and> filter opens_risk (w_log w') = filter opens_risk (w_log w)"
proof (induction rule: rtranclp_induct)
  case (step y z)
  then show ?case using step_emergency [OF step(2)] step_intake_exact [OF step(2)] by simp
qed simp

subsection \<open>Well-formed workers\<close>

text \<open>One entry per client in every vector, one client of the worker per tracked order, and envelopes settled at most once.\<close>

definition worker_wf :: "worker \<Rightarrow> bool" where
  "worker_wf w \<longleftrightarrow>
     length (w_client_connected w) = length (w_clients w) \<and> length (w_client_stream_barriers w) = length (w_clients w) \<and>
     length (w_client_latest_stream_id w) = length (w_clients w) \<and> length (w_client_engine_ack_pending w) = length (w_clients w) \<and>
     dom (w_order_to_client w) = dom (w_tracked_orders w) \<and> dom (w_pending_acks w) \<subseteq> dom (w_tracked_orders w) \<and>
     finite (dom (w_tracked_orders w)) \<and> (\<forall>oid i. w_order_to_client w oid = Some i \<longrightarrow> unat i < length (w_clients w)) \<and>
     reconciled_finite w"

lemma step_wf: "worker_step E w w' \<Longrightarrow> worker_wf w \<Longrightarrow> worker_wf w'"
proof (induction rule: worker_step.induct)
  case (quiet_step w w')
  then show ?case by (simp add: worker_wf_def quiet_def same_bindings_def same_lengths_def) blast
next
  case (update_step w oid t t')
  then have "dom ((w_tracked_orders w)(oid \<mapsto> t')) = dom (w_tracked_orders w)" by (auto simp: insert_absorb)
  with update_step show ?case by (simp add: worker_wf_def reconciled_finite_def del: dom_fun_upd)
next
  case (forget_step w oid)
  then show ?case by (auto simp: worker_wf_def reconciled_finite_def forget_order_def split: if_splits)
next
  case (track_step w oid i acc e)
  then show ?case by (auto simp: worker_wf_def reconciled_finite_def worker_defs Let_def split: if_splits)
qed (auto simp: worker_wf_def reconciled_finite_def worker_defs)

lemma steps_wf: "worker_steps E w w' \<Longrightarrow> worker_wf w \<Longrightarrow> worker_wf w'"
  by (induction rule: rtranclp_induct) (auto intro: step_wf)

lemma step_hand: "worker_step E w w' \<Longrightarrow> (\<And>c. 0 \<le> hand (w_log w) c) \<Longrightarrow> 0 \<le> hand (w_log w') c"
  by (induction rule: worker_step.induct) (auto simp: quiet_def worker_defs Let_def)

lemma steps_hand: "worker_steps E w w' \<Longrightarrow> (\<And>c. 0 \<le> hand (w_log w) c) \<Longrightarrow> 0 \<le> hand (w_log w') c"
  by (induction arbitrary: c rule: rtranclp_induct) (auto intro: step_hand)

subsection \<open>Admission\<close>

lemma admission_evidence_Ok:
  assumes "admission_evidence E w acc intent i now = Ok adm"
  shows "w_account_admissions w acc = Some adm" "xa_account_id adm = acc" "venue_for_client E w i = Some (xa_venue adm)"
    "w_account_environments w acc = Some (xa_environment adm)" "xa_product_type adm = in_product_type intent"
    "xa_ready adm" "\<not> xa_kill_switch_active adm" "xr_state (xa_readback adm) = ReadbackEnabled"
    "xr_validated_at (xa_readback adm) \<le> now" "now \<le> xr_valid_until (xa_readback adm)"
  using assms by (auto simp: admission_evidence_def Let_def and_then_Ok_iff not_less split: if_splits)

lemma admission_limits_Ok:
  assumes "admission_limits E w acc intent adm = Ok ()"
  obtains p n S where "in_price intent = Some p" "d_mul (we_dec E) p (in_quantity intent) = Some n" "n \<le> xa_max_order_notional adm"
    "w_reconciled_open_order_ids w acc = Some S" "open_order_count E w acc S < unat (xa_max_open_orders adm)"
  using assms that by (fastforce simp: admission_limits_def and_then_Ok_iff not_less not_le split: if_splits)

lemma validate_account_admission_Ok:
  assumes "validate_account_admission E w acc intent i now = Some (Ok ())"
  obtains adm where "admission_evidence E w acc intent i now = Ok adm" "admission_limits E w acc intent adm = Ok ()"
  using assms that by (auto simp: validate_account_admission_def try_then_Ok_iff bind_eq_Some_conv split: if_splits)

text \<open>What the bindings and the clock say of an order at a live client.\<close>

definition within_admission :: "worker_env \<Rightarrow> worker \<Rightarrow> usize \<Rightarrow> order_intent_envelope \<Rightarrow> bool" where
  "within_admission E w i e \<longleftrightarrow>
     (\<exists>acc adm t p n. env_account_id e = Some acc \<and> w_account_to_client w acc = Some i \<and>
        w_account_admissions w acc = Some adm \<and> xa_account_id adm = acc \<and> venue_for_client E w i = Some (xa_venue adm) \<and>
        w_account_environments w acc = Some (xa_environment adm) \<and> xa_product_type adm = in_product_type (env_intent e) \<and>
        xa_ready adm \<and> \<not> xa_kill_switch_active adm \<and> xr_state (xa_readback adm) = ReadbackEnabled \<and>
        xr_validated_at (xa_readback adm) \<le> we_now_micros E t \<and> we_now_micros E t \<le> xr_valid_until (xa_readback adm) \<and>
        in_price (env_intent e) = Some p \<and> d_mul (we_dec E) p (in_quantity (env_intent e)) = Some n \<and>
        n \<le> xa_max_order_notional adm)"

lemma canonical_account_Ok: "canonical_account e = Ok acc \<Longrightarrow> env_account_id e = Some acc"
  by (auto simp: canonical_account_def and_then_Ok_iff split: if_splits)

lemma allowed_within_admission:
  assumes "submission_allowed E w e i acc" and "live_client w i"
  shows "within_admission E w i e"
proof -
  from assms have bound: "w_account_to_client w acc = Some i" and acc: "env_account_id e = Some acc"
    and "account_admitted E w acc (env_intent e) i"
    by (auto simp: submission_allowed_def canonical_account_Ok)
  then obtain t adm where adm: "admission_evidence E w acc (env_intent e) i (we_now_micros E t) = Ok adm"
    and limits: "admission_limits E w acc (env_intent e) adm = Ok ()"
    by (auto simp: account_admitted_def elim: validate_account_admission_Ok)
  from limits obtain p n where "in_price (env_intent e) = Some p" "d_mul (we_dec E) p (in_quantity (env_intent e)) = Some n"
    "n \<le> xa_max_order_notional adm"
    by (rule admission_limits_Ok)
  with acc bound admission_evidence_Ok [OF adm] show ?thesis
    unfolding within_admission_def by blast
qed

lemma account_venues_bindings: "same_bindings w w' \<Longrightarrow> account_venues E w' i = account_venues E w i"
  by (simp add: account_venues_def same_bindings_def cong: if_cong)

lemma venue_for_client_bindings: "same_bindings w w' \<Longrightarrow> venue_for_client E w' i = venue_for_client E w i"
  using account_venues_bindings [of w w' E i] by (simp add: venue_for_client_def same_bindings_def cong: option.case_cong)

lemma live_client_bindings: "same_bindings w w' \<Longrightarrow> live_client w' = live_client w"
  by (simp add: fun_eq_iff live_client_def client_of_def same_bindings_def)

lemma within_admission_bindings:
  assumes "same_bindings w w'"
  shows "within_admission E w' i e = within_admission E w i e"
  using assms by (simp add: within_admission_def venue_for_client_bindings [OF assms]) (simp add: same_bindings_def)

definition placed_within :: "worker_env \<Rightarrow> worker \<Rightarrow> bool" where
  "placed_within E w \<longleftrightarrow> (\<forall>i e r. Placed i e r \<in> set (w_log w) \<longrightarrow> live_client w i \<longrightarrow> within_admission E w i e)"

lemma step_placed_within:
  assumes "worker_step E w w'" and "placed_within E w"
  shows "placed_within E w'"
proof -
  have "\<forall>i e r. Placed i e r \<in> set (w_log w') \<longrightarrow> live_client w i \<longrightarrow> within_admission E w i e"
    using assms
  proof (induction rule: worker_step.induct)
    case (place_step w e i acc r)
    then show ?case
      using allowed_within_admission [OF place_step(2)] by (auto simp: placed_within_def act_def)
  qed (auto simp: placed_within_def quiet_def worker_defs Let_def)
  then show ?thesis
    using step_bindings [OF assms(1)] by (simp add: placed_within_def live_client_bindings within_admission_bindings)
qed

lemma steps_placed_within: "worker_steps E w w' \<Longrightarrow> placed_within E w \<Longrightarrow> placed_within E w'"
  by (induction rule: rtranclp_induct) (auto intro: step_placed_within)

subsection \<open>Open orders of an account\<close>

definition tracked_of :: "worker \<Rightarrow> account_id \<Rightarrow> order_id set" where
  "tracked_of w acc = {oid. is_some_and (\<lambda>t. tr_account_id t = Some acc) (w_tracked_orders w oid)}"

lemma tracked_of_finite: "finite (dom (w_tracked_orders w)) \<Longrightarrow> finite (tracked_of w acc)"
  by (rule finite_subset [of _ "dom (w_tracked_orders w)"]) (auto simp: tracked_of_def is_some_and_def split: option.splits)

lemma tracked_of_le_count:
  assumes "iteration_order (we_orders E)" and "worker_wf w" and "w_reconciled_open_order_ids w acc = Some S"
  shows "card (tracked_of w acc) \<le> open_order_count E w acc S"
proof -
  let ?ks = "we_orders E (dom (w_tracked_orders w))"
  let ?new = "filter (\<lambda>oid. is_some_and (\<lambda>t. tr_account_id t = Some acc) (w_tracked_orders w oid) \<and> oid \<notin> S) ?ks"
  from assms have fin: "finite S" "finite (dom (w_tracked_orders w))"
    by (auto simp: worker_wf_def reconciled_finite_def)
  then have ks: "set ?ks = dom (w_tracked_orders w)" using iteration_orderD(2) [OF assms(1)] by blast
  have "tracked_of w acc \<subseteq> S \<union> set ?new"
    using ks by (auto simp: tracked_of_def is_some_and_def split: option.splits)
  then have "card (tracked_of w acc) \<le> card (S \<union> set ?new)" using fin by (intro card_mono) auto
  also have "\<dots> \<le> card S + length ?new" using card_Un_le [of S "set ?new"] card_length [of ?new] by linarith
  finally show ?thesis by (simp add: open_order_count_def)
qed

definition open_orders_bounded :: "worker \<Rightarrow> bool" where
  "open_orders_bounded w \<longleftrightarrow>
     (\<forall>acc adm. is_some_and (live_client w) (w_account_to_client w acc) \<longrightarrow> w_account_admissions w acc = Some adm \<longrightarrow>
        card (tracked_of w acc) \<le> unat (xa_max_open_orders adm))"

lemma tracked_of_track:
  "tracked_of (track_order E oid e i a w) acc \<subseteq> (if a = acc then insert oid (tracked_of w acc) else tracked_of w acc)"
  by (auto simp: tracked_of_def track_order_def reading_def Let_def split: if_splits)

lemma track_bounded:
  assumes "iteration_order (we_orders E)" and "worker_wf w" and "open_orders_bounded w"
    and ok: "is_some_and (live_client w) (w_account_to_client w a) \<Longrightarrow>
      account_admitted E w a intent (the (w_account_to_client w a))"
    and live: "is_some_and (live_client w) (w_account_to_client w acc)" and adm: "w_account_admissions w acc = Some adm"
  shows "card (tracked_of (track_order E oid e i a w) acc) \<le> unat (xa_max_open_orders adm)"
proof (cases "a = acc")
  case True
  with ok live adm obtain S where S: "w_reconciled_open_order_ids w acc = Some S"
    and less: "open_order_count E w acc S < unat (xa_max_open_orders adm)"
    by (fastforce simp: account_admitted_def dest: admission_evidence_Ok(1)
        elim!: validate_account_admission_Ok admission_limits_Ok)
  have fin: "finite (tracked_of w acc)" using assms(2) by (intro tracked_of_finite) (simp add: worker_wf_def)
  have "card (tracked_of (track_order E oid e i a w) acc) \<le> card (insert oid (tracked_of w acc))"
    using tracked_of_track [of E oid e i a w acc] True fin by (intro card_mono) auto
  also have "\<dots> \<le> Suc (card (tracked_of w acc))" by (rule card_insert_le_m1) auto
  finally show ?thesis using tracked_of_le_count [OF assms(1,2) S] less by linarith
next
  case False
  with tracked_of_track [of E oid e i a w acc] have "tracked_of (track_order E oid e i a w) acc \<subseteq> tracked_of w acc" by auto
  then have "card (tracked_of (track_order E oid e i a w) acc) \<le> card (tracked_of w acc)"
    using assms(2) by (intro card_mono tracked_of_finite) (simp_all add: worker_wf_def)
  then show ?thesis using assms(3) live adm by (fastforce simp: open_orders_bounded_def)
qed

lemma step_tracked_of:
  assumes "worker_step E w w'"
  obtains (shrinks) "\<And>acc. tracked_of w' acc \<subseteq> tracked_of w acc"
  | (tracks) oid i a e where "w' = track_order E oid e i a w"
      "is_some_and (live_client w) (w_account_to_client w a) \<Longrightarrow>
         account_admitted E w a (env_intent e) (the (w_account_to_client w a))"
  using assms
proof (cases rule: worker_step.cases)
  case (track_step oid i a e)
  then show thesis using tracks by blast
next
  case (update_step oid t t')
  then show thesis by (intro shrinks) (auto simp: tracked_of_def split: if_splits)
qed (rule shrinks, auto simp: tracked_of_def quiet_def worker_defs split: if_splits)+

lemma step_open_orders:
  assumes "worker_step E w w'" and "iteration_order (we_orders E)" and "worker_wf w" and "open_orders_bounded w"
  shows "open_orders_bounded w'"
proof -
  have "card (tracked_of w' acc) \<le> unat (xa_max_open_orders adm)"
    if live: "is_some_and (live_client w) (w_account_to_client w acc)" and adm: "w_account_admissions w acc = Some adm" for acc adm
    using assms(1)
  proof (cases rule: step_tracked_of)
    case shrinks
    then have "card (tracked_of w' acc) \<le> card (tracked_of w acc)"
      using assms(3) by (intro card_mono tracked_of_finite) (simp_all add: worker_wf_def)
    then show ?thesis using assms(4) live adm by (fastforce simp: open_orders_bounded_def)
  next
    case (tracks oid i a e)
    with track_bounded [OF assms(2-4) tracks(2) live adm] show ?thesis by simp
  qed
  then show ?thesis
    using step_bindings [OF assms(1)]
    by (simp add: open_orders_bounded_def live_client_bindings [OF step_bindings [OF assms(1)]]) (simp add: same_bindings_def)
qed

lemma steps_open_orders:
  assumes "worker_steps E w w'" and "iteration_order (we_orders E)"
  shows "worker_wf w \<Longrightarrow> open_orders_bounded w \<Longrightarrow> open_orders_bounded w'"
  using assms(1)
proof (induction rule: rtranclp_induct)
  case (step y z)
  then show ?case using step_open_orders [OF step(2) assms(2)] steps_wf by blast
qed simp

end
