(* ===== verification/Worker_Refinement.thy ===== *)
theory Worker_Refinement
  imports Worker_Machine
begin

text \<open>
  Every operation of the execution worker is a run of the machine of theory \<open>Worker_Machine\<close>, and settles the envelopes it
  has in hand: an operation that takes none leaves none, and the processing of a batch settles exactly that batch.
\<close>

subsection \<open>Runs that settle envelopes\<close>

definition settles :: "worker_env \<Rightarrow> order_intent_envelope list \<Rightarrow> worker \<Rightarrow> worker \<Rightarrow> bool" where
  "settles E es w w' \<longleftrightarrow>
     ((\<forall>c. hand (map Received es) c \<le> hand (w_log w) c) \<longrightarrow> worker_steps E w w') \<and>
     (\<forall>c. hand (w_log w') c = hand (w_log w) c - hand (map Received es) c)"

abbreviation evolves :: "worker_env \<Rightarrow> worker \<Rightarrow> worker \<Rightarrow> bool" where
  "evolves E \<equiv> settles E []"

named_theorems evolve \<open>changes that settle nothing\<close>

lemma hand_received_nonneg: "0 \<le> hand (map Received es) c"
  by (induction es) auto

lemma evolves_refl [evolve]: "evolves E w w"
  by (simp add: settles_def)

lemma settles_trans:
  assumes "settles E es w w'" and "settles E fs w' w''"
  shows "settles E (es @ fs) w w''"
proof -
  have hands: "hand (w_log w') c = hand (w_log w) c - hand (map Received es) c"
    "hand (w_log w'') c = hand (w_log w') c - hand (map Received fs) c" for c
    using assms by (simp_all add: settles_def)
  have "worker_steps E w w''" if ok: "\<And>c. hand (map Received (es @ fs)) c \<le> hand (w_log w) c"
  proof -
    have "hand (map Received es) c \<le> hand (w_log w) c" "hand (map Received fs) c \<le> hand (w_log w') c" for c
      using ok [of c] hands(1) [of c] hand_received_nonneg [of fs c] by simp_all
    then have "worker_steps E w w'" "worker_steps E w' w''" using assms by (simp_all add: settles_def)
    then show ?thesis by simp
  qed
  then show ?thesis using hands by (simp add: settles_def)
qed

lemma settles_then: "settles E es w w' \<Longrightarrow> evolves E w' w'' \<Longrightarrow> settles E es w w''"
  using settles_trans [of E es w w' "[]" w''] by simp

lemma evolves_then: "evolves E w w' \<Longrightarrow> settles E es w' w'' \<Longrightarrow> settles E es w w''"
  using settles_trans [of E "[]" w w' es w''] by simp

lemma evolves_fold:
  "(\<And>x w. evolves E w (f x w)) \<Longrightarrow> evolves E w (fold f xs w)"
  by (induction xs arbitrary: w) (auto intro: evolve settles_then)

lemma settles_fold:
  "(\<And>e w. settles E [e] w (f e w)) \<Longrightarrow> settles E es w (fold f es w)"
proof (induction es arbitrary: w)
  case (Cons e es)
  then show ?case using settles_trans [of E "[e]" w "f e w" es] by simp
qed (simp add: evolve)

lemma settles_step:
  assumes "worker_step E w w'" and "\<And>c. hand (w_log w') c = hand (w_log w) c"
  shows "settles E es w0 w \<Longrightarrow> settles E es w0 w'"
  by (erule settles_then) (use assms in \<open>auto simp: settles_def\<close>)

lemma settles_quiet: "settles E es w0 w \<Longrightarrow> quiet w w' \<Longrightarrow> settles E es w0 w'"
  by (rule settles_step [OF quiet_step]) (auto simp: quiet_def)

subsection \<open>Elementary changes\<close>

lemmas quiet_defs = quiet_def same_bindings_def same_latches_def same_lengths_def reconciled_finite_def

lemma quiet_updates [evolve]:
  assumes "settles E es w0 w"
  shows "settles E es w0 (w\<lparr>w_tick := t\<rparr>)" "settles E es w0 (w\<lparr>w_stats := s\<rparr>)" "settles E es w0 (w\<lparr>w_execution_timelines := l\<rparr>)"
    "settles E es w0 (w\<lparr>w_rate_budget := b\<rparr>)" "settles E es w0 (w\<lparr>w_round_robin_counter := n\<rparr>)"
    "settles E es w0 (w\<lparr>w_last_reconcile := m\<rparr>)" "settles E es w0 (w\<lparr>w_last_stream_recovery_attempt := m\<rparr>)"
    "settles E es w0 (count_stats f w)" "settles E es w0 (set_timeline oid line w)" "settles E es w0 (set_connected i up w)"
    "settles E es w0 (w\<lparr>w_pending_acks := (w_pending_acks w)(oid := None)\<rparr>)"
  by (rule settles_quiet [OF assms], auto simp: quiet_defs count_stats_def set_timeline_def set_connected_def vec_put_def)+

lemma latches_evolve [evolve]:
  assumes "settles E es w0 w"
  shows "settles E es w0 (latch_emergency w)" "settles E es w0 (latch_stream_recovery w)"
    "settles E es w0 (latch_stream_recovery (w\<lparr>w_emergency_latched := True\<rparr>))"
proof -
  show one: "settles E es w0 (latch_emergency w)"
    by (rule settles_step [OF emergency_step _ assms]) (simp add: latch_emergency_def)
  show "settles E es w0 (latch_stream_recovery w)"
    by (rule settles_step [OF recovery_step _ assms]) (simp add: latch_stream_recovery_def)
  have "settles E es w0 (latch_stream_recovery (latch_emergency w))"
    by (rule settles_step [OF recovery_step _ one]) (simp add: latch_stream_recovery_def)
  then show "settles E es w0 (latch_stream_recovery (w\<lparr>w_emergency_latched := True\<rparr>))"
    by (simp add: latch_stream_recovery_def latch_emergency_def)
qed

lemma note_evolve:
  assumes "settles E es w0 w" and "a \<in> range Reported \<union> range (\<lambda>(i, oid). CancelSent i oid) \<union> range (\<lambda>(i, k). StreamAcknowledged i k) \<union> range Replied"
  shows "settles E es w0 (act a w)"
  by (rule settles_step [OF note_step [OF assms(2)] _ assms(1)]) (use assms(2) in \<open>auto simp: act_def\<close>)

lemma notes_evolve [evolve]:
  assumes "settles E es w0 w"
  shows "settles E es w0 (act (Reported ev) w)" "settles E es w0 (act (CancelSent i oid) w)"
    "settles E es w0 (act (StreamAcknowledged i k) w)" "settles E es w0 (act (Replied r) w)"
    "settles E es w0 (report_event ev w)" "settles E es w0 (report_sent ev w)"
proof -
  show "settles E es w0 (act (Reported ev) w)" by (rule note_evolve [OF assms]) auto
  show "settles E es w0 (act (CancelSent i oid) w)" by (rule note_evolve [OF assms]) (auto simp: image_def)
  show "settles E es w0 (act (StreamAcknowledged i k) w)" by (rule note_evolve [OF assms]) (auto simp: image_def)
  show "settles E es w0 (act (Replied r) w)" by (rule note_evolve [OF assms]) auto
  show event: "settles E es w0 (report_event ev w)" unfolding report_event_def by (rule note_evolve [OF assms]) auto
  then show "settles E es w0 (report_sent ev w)" unfolding report_sent_def by (intro evolve)
qed

lemma forget_evolve [evolve]: "settles E es w0 w \<Longrightarrow> settles E es w0 (forget_order oid w)"
  by (rule settles_step [OF forget_step]) (simp_all add: forget_order_def)

lemma update_evolve:
  assumes "settles E es w0 w" and "w_tracked_orders w oid = Some t" and "tr_account_id t' = tr_account_id t"
  shows "settles E es w0 (w\<lparr>w_tracked_orders := (w_tracked_orders w)(oid \<mapsto> t')\<rparr>)"
  by (rule settles_step [OF update_step [OF assms(2,3)] _ assms(1)]) simp

lemma report_new_evolve [evolve]: "settles E es w0 w \<Longrightarrow> settles E es w0 (report_new E oid e i acc w)"
  by (auto simp: report_new_def Let_def reading_def intro!: evolve)

subsection \<open>Rejections\<close>

lemma reject_unsent_settles: "settles E [e] w (reject_unsent E (env_client_order_id e) reason w)"
proof -
  let ?w = "w\<lparr>w_tick := w_tick w + 1\<rparr>"
  have "worker_step E ?w (act (RejectedUnsent (env_client_order_id e) (we_text E reason) (we_now_micros E (w_tick w))) ?w)"
    if "\<forall>c. hand (map Received [e]) c \<le> hand (w_log w) c"
    using that [rule_format, of "env_client_order_id e"] by (intro reject_step) simp
  then have "settles E [e] ?w (reject_unsent E (env_client_order_id e) reason w)"
    by (auto simp: settles_def reject_unsent_def reading_def act_def)
  then show ?thesis by (rule evolves_then [rotated]) (intro evolve)
qed

lemma reject_intent_settles: "settles E [e] w (reject_intent E (env_client_order_id e) reason w)"
  unfolding reject_intent_def by (intro evolve reject_unsent_settles)

lemma receive_batch_steps: "worker_steps E w (receive_batch es w)"
proof (induction es arbitrary: w)
  case (Cons e es)
  have "receive_batch (e # es) w = receive_batch es (act (Received e) w)" by (simp add: receive_batch_def act_def)
  then show ?case using Cons receive_step [of E w e] by (metis converse_rtranclp_into_rtranclp)
qed (simp add: receive_batch_def)

text \<open>A batch that is taken from the queue and settled.\<close>

lemma batch_evolves: "settles E es (receive_batch es w) w' \<Longrightarrow> evolves E w w'"
  using receive_batch_steps [of E w es] hand_received_nonneg [of es]
  by (auto simp: settles_def receive_batch_def intro: rtranclp_trans)

lemma reject_batch_evolves: "evolves E w (reject_batch E es w)"
proof (rule batch_evolves)
  have "settles E es (count_processed es (receive_batch es w)) (reject_batch E es w)"
    unfolding reject_batch_def reject_for_disabled_intake_def by (rule settles_fold) (rule reject_intent_settles)
  then show "settles E es (receive_batch es w) (reject_batch E es w)"
    by (rule evolves_then [rotated]) (simp add: count_processed_def evolve)
qed

lemma reject_queued_evolve [evolve]:
  "settles E es w0 w \<Longrightarrow> settles E es w0 (reject_queued_intents_for_disabled_intake E w)"
  by (erule settles_then, unfold reject_queued_intents_for_disabled_intake_def Let_def reading_def prod.case,
      rule settles_then [OF _ evolves_fold [OF reject_batch_evolves]], intro evolve)

lemma reject_one_batch_evolves:
  assumes "reject_one_queued_intent_batch_for_recovery E w = (w', r)"
  shows "evolves E w w'"
proof -
  have "w' = (reject_batch E (we_envelopes E (w_tick w)) (w\<lparr>w_tick := w_tick w + 1\<rparr>))\<lparr>w_tick :=
      w_tick (reject_batch E (we_envelopes E (w_tick w)) (w\<lparr>w_tick := w_tick w + 1\<rparr>)) + 1\<rparr>"
    using assms by (simp add: reject_one_queued_intent_batch_for_recovery_def reading_def Let_def)
  then show ?thesis by (auto intro!: evolve settles_then [OF _ reject_batch_evolves])
qed

subsection \<open>Reconciliation and recovery\<close>

lemma collect_snapshots_evolves: "collect_snapshots E b p f cs w = (w', snap) \<Longrightarrow> w' = w\<lparr>w_tick := w_tick w + length cs\<rparr>"
  by (induction E b p f cs w arbitrary: w' snap rule: collect_snapshots.induct)
    (auto simp: reading_def Let_def split: prod.splits)

lemma collect_snapshots_indices: "collect_snapshots E b p f cs w = (w', snap) \<Longrightarrow> map cs_client_index snap = map (of_nat \<circ> fst) cs"
  by (induction E b p f cs w arbitrary: w' snap rule: collect_snapshots.induct)
    (auto simp: reading_def Let_def client_snapshot_def split: prod.splits)

lemma collect_snapshots_answered: "collect_snapshots E b p f cs w = (w', snap) \<Longrightarrow> list_all (answered E) snap"
  by (induction E b p f cs w arbitrary: w' snap rule: collect_snapshots.induct)
    (auto simp: reading_def Let_def client_snapshot_def answered_def split: prod.splits)

lemma clients_healthy_tick: "clients_healthy E is w = (w', ok) \<Longrightarrow> \<exists>t. w' = w\<lparr>w_tick := t\<rparr>"
proof (induction E "is" w arbitrary: w' ok rule: clients_healthy.induct)
  case (1 E w)
  then have "w' = w\<lparr>w_tick := w_tick w\<rparr>" by simp
  then show ?case ..
next
  case (2 E i "is" w)
  then show ?case by (auto simp: reading_def Let_def split: if_splits)
qed

lemma health_tick: "execution_clients_currently_healthy E w = (w', ok) \<Longrightarrow> \<exists>t. w' = w\<lparr>w_tick := t\<rparr>"
  by (auto simp: execution_clients_currently_healthy_def dest: clients_healthy_tick)

lemma finite_reconciled: "(\<And>acc S. m acc = Some S \<Longrightarrow> finite S) \<Longrightarrow> fold add_reconciled snap m acc = Some S \<Longrightarrow> finite S"
proof (induction snap arbitrary: m)
  case (Cons cl snap)
  have "finite S" if "add_reconciled cl m acc = Some S" for acc S
    using that Cons.prems(1) by (auto simp: unwrap_or_def split: option.splits sum.splits if_splits)
  then show ?case using Cons.IH [of "add_reconciled cl m"] Cons.prems(2) by simp
qed simp

lemma update_reconciled_evolve [evolve]:
  "settles E es w0 w \<Longrightarrow> settles E es w0 (update_reconciled_open_orders snap w)"
  by (erule settles_quiet) (auto simp: quiet_defs update_reconciled_open_orders_def split: if_splits elim: finite_reconciled [rotated])

text \<open>What the evidence of a recovery depends on.\<close>

lemma client_matches_cong:
  assumes "w_order_to_client w' = w_order_to_client w" and "w_tracked_orders w' = w_tracked_orders w"
  shows "client_matches E w' = client_matches E w"
proof -
  have "local_orders_of E w' = local_orders_of E w" "local_order_matches w' = local_order_matches w"
    by (intro ext, simp add: assms local_orders_of_def local_order_matches_def)+
  then show ?thesis by (intro ext) (simp only: client_matches_def)
qed

definition same_orders :: "worker \<Rightarrow> worker \<Rightarrow> bool" where
  "same_orders w w' \<longleftrightarrow> w_order_to_client w' = w_order_to_client w \<and> w_tracked_orders w' = w_tracked_orders w \<and>
     w_clients w' = w_clients w \<and> w_client_connected w' = w_client_connected w \<and>
     w_client_stream_barriers w' = w_client_stream_barriers w \<and> w_client_engine_ack_pending w' = w_client_engine_ack_pending w \<and>
     same_latches w w'"

lemma same_orders_trans [trans]: "same_orders w w' \<Longrightarrow> same_orders w' w'' \<Longrightarrow> same_orders w w''"
  by (simp add: same_orders_def same_latches_def)

lemma recovery_evidence_cong:
  assumes "same_orders w w'"
  shows "recovery_evidence E w' = recovery_evidence E w"
proof -
  have "client_matches E w' = client_matches E w" using assms by (intro client_matches_cong) (simp_all add: same_orders_def)
  moreover have "streams_settled w' = streams_settled w" "w_clients w' = w_clients w"
    using assms by (simp_all add: same_orders_def streams_settled_def)
  ultimately show ?thesis by (simp add: recovery_evidence_def recovery_snapshot_matches_def)
qed

lemma finish_recovery_evolves:
  assumes "w_stream_recovery_pending w" and "recovery_evidence E w"
  shows "evolves E w (finish_recovery E w)"
proof (cases "execution_clients_currently_healthy E w")
  case (Pair w1 ok)
  then obtain t where w1: "w1 = w\<lparr>w_tick := t\<rparr>"
    using health_tick by blast
  with assms have "w_stream_recovery_pending w1" "recovery_evidence E w1"
    using recovery_evidence_cong [of w w1 E] by (simp_all add: same_orders_def same_latches_def)
  note step = recovered_step [OF this]
  have "evolves E w w1" unfolding w1 by (intro evolve)
  with settles_step [OF step _ this] show ?thesis by (simp add: finish_recovery_def Pair)
qed

lemma same_orders_updates:
  "same_orders w w" "same_orders w (w\<lparr>w_tick := t\<rparr>)" "same_orders w (count_processed es w)" "same_orders w (receive_batch es w)"
  "same_orders w (reject_for_disabled_intake E e w)"
  by (simp_all add: same_orders_def same_latches_def count_processed_def count_stats_def receive_batch_def
      reject_for_disabled_intake_def reject_intent_def reject_unsent_def reading_def act_def)

lemma reject_batch_same: "same_orders w (reject_batch E es w)"
proof -
  have "same_orders w (fold (reject_for_disabled_intake E) es w)" for w
    by (induction es arbitrary: w) (auto intro: same_orders_updates same_orders_trans [OF same_orders_updates(5)])
  then show ?thesis
    unfolding reject_batch_def by (meson same_orders_updates same_orders_trans)
qed

lemma reject_one_batch_same:
  assumes "reject_one_queued_intent_batch_for_recovery E w = (w', r)"
  shows "same_orders w w'"
proof -
  obtain es t u where "w' = (reject_batch E es (w\<lparr>w_tick := t\<rparr>))\<lparr>w_tick := u\<rparr>"
    using assms by (simp add: reject_one_queued_intent_batch_for_recovery_def reading_def Let_def) blast
  then show ?thesis by (metis reject_batch_same same_orders_updates(2) same_orders_trans)
qed

lemma collect_reconcile_shape:
  assumes "collect_reconcile_snapshot E b p f w = (w', snap)"
  shows "w' = w\<lparr>w_tick := w_tick w + length (w_clients w)\<rparr>"
    and "map cs_client_index snap = map of_nat [0..<length (w_clients w)]"
    and "list_all (answered E) snap"
proof -
  note eq = assms [unfolded collect_reconcile_snapshot_def]
  show "w' = w\<lparr>w_tick := w_tick w + length (w_clients w)\<rparr>" using collect_snapshots_evolves [OF eq] by simp
  show "list_all (answered E) snap" using collect_snapshots_answered [OF eq] .
  show "map cs_client_index snap = map of_nat [0..<length (w_clients w)]"
    using collect_snapshots_indices [OF eq] unfolding map_map [symmetric] by simp
qed

text \<open>The reconciliation up to the decision: a snapshot of every client, and the clients asked for their health.\<close>

lemma worker_reconcile_probe:
  obtains w1 snap ok where "evolves E w w1" "same_orders w w1" "map cs_client_index snap = map of_nat [0..<length (w_clients w1)]"
    "list_all (answered E) snap"
    "worker_reconcile_open_orders E w =
       (if w_stream_recovery_pending w1 \<and> snapshot_is_complete snap \<and> ok \<and> streams_settled w1 \<and> recovery_snapshot_matches E w1 snap
        then if w_recovery_intent_drain_required w1
             then (let (w2, drained) = reject_one_queued_intent_batch_for_recovery E w1
                   in (if drained then finish_recovery E w2 else w2, snapshot_is_complete snap))
             else (finish_recovery E w1, snapshot_is_complete snap)
        else (w1, snapshot_is_complete snap))"
proof -
  obtain w1 snap where c: "collect_reconcile_snapshot E False False False w = (w1, snap)" by fastforce
  note shape = collect_reconcile_shape [OF c]
  let ?w2 = "update_reconciled_open_orders snap w1"
  obtain w3 ok where h: "(if w_stream_recovery_pending ?w2 then execution_clients_currently_healthy E ?w2 else (?w2, True)) = (w3, ok)"
    by fastforce
  have "\<exists>t. w3 = ?w2\<lparr>w_tick := t\<rparr>"
  proof (cases "w_stream_recovery_pending ?w2")
    case False
    with h have "w3 = ?w2\<lparr>w_tick := w_tick ?w2\<rparr>" by simp
    then show ?thesis ..
  qed (use h health_tick in auto)
  then obtain t where w3: "w3 = ?w2\<lparr>w_tick := t\<rparr>" ..
  have "evolves E w w3" unfolding w3 shape(1) by (intro evolve)
  moreover have "same_orders w w3" "w_clients w3 = w_clients w"
    by (simp_all add: w3 shape(1) update_reconciled_open_orders_def same_orders_def same_latches_def)
  ultimately show thesis
    using shape(2,3) by (intro that [of w3 snap ok]) (simp_all add: worker_reconcile_open_orders_def c h Let_def)
qed

lemma worker_reconcile_stages:
  assumes "worker_reconcile_open_orders E w = (w', fin)"
  obtains (unchanged) w1 where "evolves E w w1" "same_orders w w1" "w' = w1"
  | (recovered) w1 where "evolves E w w1" "same_orders w w1" "w_stream_recovery_pending w1" "recovery_evidence E w1" "w' = finish_recovery E w1"
proof -
  obtain w1 snap ok where evo: "evolves E w w1" and orders: "same_orders w w1"
    and idx: "map cs_client_index snap = map of_nat [0..<length (w_clients w1)]" "list_all (answered E) snap"
    and eq: "worker_reconcile_open_orders E w =
       (if w_stream_recovery_pending w1 \<and> snapshot_is_complete snap \<and> ok \<and> streams_settled w1 \<and> recovery_snapshot_matches E w1 snap
        then if w_recovery_intent_drain_required w1
             then (let (w2, drained) = reject_one_queued_intent_batch_for_recovery E w1
                   in (if drained then finish_recovery E w2 else w2, snapshot_is_complete snap))
             else (finish_recovery E w1, snapshot_is_complete snap)
        else (w1, snapshot_is_complete snap))"
    by (rule worker_reconcile_probe)
  obtain w2 drained where r: "reject_one_queued_intent_batch_for_recovery E w1 = (w2, drained)" by fastforce
  have evo2: "evolves E w w2" using evo reject_one_batch_evolves [OF r] by (rule settles_then)
  note same = reject_one_batch_same [OF r]
  have orders2: "same_orders w w2" using orders same by (rule same_orders_trans)
  consider "w' = w1" | "w' = w2" | "w' = finish_recovery E w1" "w_stream_recovery_pending w1" "recovery_evidence E w1"
    | "w' = finish_recovery E w2" "w_stream_recovery_pending w1" "recovery_evidence E w1"
    using assms idx by (auto simp: eq r recovery_evidence_def split: if_splits)
  then show thesis
  proof cases
    case 4
    then have "w_stream_recovery_pending w2" "recovery_evidence E w2"
      using same recovery_evidence_cong [OF same, of E] by (simp_all add: same_orders_def same_latches_def)
    then show thesis using recovered [OF evo2 orders2] 4 by blast
  qed (use unchanged recovered evo orders evo2 orders2 in blast)+
qed

lemma worker_reconcile_evolves: "evolves E w (fst (worker_reconcile_open_orders E w))"
proof (cases "worker_reconcile_open_orders E w")
  case (Pair w' r)
  from Pair show ?thesis
    by (cases rule: worker_reconcile_stages) (auto simp: Pair intro: settles_then finish_recovery_evolves)
qed

lemma attempt_recovery_evolve [evolve]: "settles E es w0 w \<Longrightarrow> settles E es w0 (attempt_stream_recovery E w)"
  by (erule settles_then) (auto simp: attempt_stream_recovery_def reading_def Let_def intro!: evolve
      intro: settles_then [OF _ worker_reconcile_evolves])

lemma retry_recovery_evolves: "evolves E w (fst (retry_stream_recovery_if_due E w))"
  by (auto simp: retry_stream_recovery_if_due_def reading_def Let_def intro!: evolve)

subsection \<open>Private event streams\<close>

lemma capture_evolves: "capture_private_timing E i ev w = (w', r) \<Longrightarrow> evolves E w w'"
  by (auto simp: capture_private_timing_def reading_def Let_def intro!: evolve split: execution_event.splits option.splits if_splits)

lemma matches_client_evolves: "private_order_event_matches_client i ev w = (w', r) \<Longrightarrow> evolves E w w'"
  by (auto simp: private_order_event_matches_client_def intro!: evolve split: option.splits if_splits)

lemma stream_vectors_evolve:
  assumes "settles E es w0 w"
  shows "settles E es w0 (w\<lparr>w_client_latest_stream_id := vec_put i a (w_client_latest_stream_id w),
      w_client_stream_barriers := vec_put i b (w_client_stream_barriers w),
      w_client_engine_ack_pending := vec_put i c (w_client_engine_ack_pending w)\<rparr>)"
    and "settles E es w0 (w\<lparr>w_client_stream_barriers := vec_put i b (w_client_stream_barriers w),
      w_client_engine_ack_pending := vec_put i c (w_client_engine_ack_pending w)\<rparr>)"
    and "settles E es w0 (w\<lparr>w_client_engine_ack_pending := (w_client_engine_ack_pending w)[k := c]\<rparr>)"
  by (rule settles_quiet [OF assms], auto simp: quiet_defs vec_put_def)+

lemma connection_tracking_evolves: "evolves E w (update_connection_tracking i ev w)"
  by (cases "(i, ev, w)" rule: update_connection_tracking.cases)
    (auto simp: Let_def intro!: evolve stream_vectors_evolve)

lemma track_fill_evolves:
  assumes "track_fill E oid q fid w = Some w'"
  shows "evolves E w w'"
proof (cases "w_tracked_orders w oid")
  case None
  then show ?thesis using assms by (simp add: track_fill_def evolve)
next
  case (Some t)
  show ?thesis
  proof (cases "fid \<noteq> [] \<and> fid \<in> tr_processed_fill_ids t")
    case True
    then show ?thesis using assms Some by (simp add: track_fill_def evolve)
  next
    case False
    define t1 where "t1 = (if fid \<noteq> [] then t\<lparr>tr_processed_fill_ids := insert fid (tr_processed_fill_ids t)\<rparr> else t)"
    define w1 where "w1 = w\<lparr>w_tracked_orders := (w_tracked_orders w)(oid \<mapsto> t1)\<rparr>"
    have evo: "evolves E w w1" unfolding w1_def by (rule update_evolve [OF evolves_refl Some]) (simp add: t1_def)
    have t1: "w_tracked_orders w1 oid = Some t1" by (simp add: w1_def)
    have "track_fill E oid q fid w =
      (if tr_remaining_quantity t1 \<le> q
       then Some (forget_order oid (if tr_remaining_quantity t1 < q then latch_emergency w1 else w1))
       else do { rest \<leftarrow> d_sub (we_dec E) (tr_remaining_quantity t1) q;
         Some (w1\<lparr>w_tracked_orders := (w_tracked_orders w1)(oid \<mapsto> t1\<lparr>tr_remaining_quantity := rest\<rparr>)\<rparr>) })"
      by (simp only: track_fill_def Some option.case if_not_P [OF False] Let_def t1_def w1_def)
    with assms evo t1 show ?thesis
      by (auto simp: bind_eq_Some_conv split: if_splits intro!: evolve update_evolve [OF evo])
  qed
qed

lemma execution_tracking_evolves: "update_execution_tracking E ev w = Some w' \<Longrightarrow> evolves E w w'"
  by (cases "(E, ev, w)" rule: update_execution_tracking.cases) (auto intro!: evolve intro: track_fill_evolves)

lemma stream_event_evolves:
  assumes "handle_stream_event E i ev w = Some w'"
  shows "evolves E w w'"
proof -
  obtain w1 captured timing where c: "capture_private_timing E i ev w = (w1, captured, timing)" by (cases "capture_private_timing E i ev w")
  obtain w2 matching where m: "private_order_event_matches_client i ev w1 = (w2, matching)" by fastforce
  note evo1 = capture_evolves [OF c]
  note evo2 = settles_then [OF evo1 matches_client_evolves [OF m]]
  note evo3 = settles_then [OF evo2 connection_tracking_evolves [of E w2 i ev]]
  consider "captured" "w' = (case timing of None \<Rightarrow> w1 | Some t \<Rightarrow> report_sent t w1)"
    | "w' = w2"
    | w3 where "update_execution_tracking E ev (update_connection_tracking i ev w2) = Some w3"
        "w' = report_sent ev w3 \<or> w' = attempt_stream_recovery E (report_sent ev w3)"
    using assms by (auto simp: handle_stream_event_def c m bind_eq_Some_conv split: if_splits)
  then show ?thesis
  proof cases
    case 1
    then show ?thesis using evo1 by (auto intro!: evolve split: option.splits)
  next
    case 2
    then show ?thesis using evo2 by simp
  next
    case (3 w3)
    from settles_then [OF evo3 execution_tracking_evolves [OF 3(1)]] 3(2) show ?thesis by (auto intro!: evolve)
  qed
qed

lemma stream_failure_evolve [evolve]: "settles E es w0 w \<Longrightarrow> settles E es w0 (latch_on_execution_stream_failure E i w)"
  by (auto simp: latch_on_execution_stream_failure_def reading_def Let_def intro!: evolve)

lemma stream_completion_evolve [evolve]: "settles E es w0 w \<Longrightarrow> settles E es w0 (handle_execution_stream_completion E i w)"
  by (auto simp: handle_execution_stream_completion_def reading_def Let_def intro!: evolve split: option.splits)

lemma stream_item_evolves: "handle_execution_stream_item E item w = Some w' \<Longrightarrow> evolves E w w'"
  by (cases "(E, item, w)" rule: handle_execution_stream_item.cases) (auto intro!: evolve intro: stream_event_evolves)

lemma poll_items_evolves: "poll_items E limit items n w = Some (w', m) \<Longrightarrow> evolves E w w'"
proof (induction items arbitrary: n w)
  case (Cons item items)
  show ?case
  proof (cases "limit \<le> n")
    case True
    then show ?thesis using Cons.prems by (simp add: evolve)
  next
    case False
    with Cons.prems obtain w1 where one: "handle_execution_stream_item E (Some item) w = Some w1"
      and rest: "(case item of StreamEvent i (Inr ev) \<Rightarrow> poll_items E limit items (n + 1) w1 | _ \<Rightarrow> Some (w1, n)) = Some (w', m)"
      by (auto simp: bind_eq_Some_conv)
    from rest have "evolves E w1 w'"
      by (auto split: execution_stream_item.splits sum.splits intro: Cons.IH evolve)
    with stream_item_evolves [OF one] show ?thesis by (rule settles_then)
  qed
qed (simp add: evolve)

lemma poll_events_evolves: "poll_execution_events E items w = Some (w', n) \<Longrightarrow> evolves E w w'"
  unfolding poll_execution_events_def by (rule poll_items_evolves)

lemma stream_acks_evolve: "fold apply_stream_ack ks (w, s) = (w', s') \<Longrightarrow> evolves E w w'"
proof (induction ks arbitrary: w s)
  case (Cons k ks)
  obtain w1 s1 where one: "apply_stream_ack k (w, s) = (w1, s1)" by fastforce
  then have "evolves E w w1"
    by (auto simp: apply_stream_ack_def Let_def intro!: evolve stream_vectors_evolve split: option.splits if_splits)
  moreover have "evolves E w1 w'" using Cons one by simp
  ultimately show ?case by (rule settles_then)
qed (simp add: evolve)

lemma poll_applied_evolves: "evolves E w (fst (poll_applied_execution_streams E w))"
proof -
  let ?w = "w\<lparr>w_tick := Suc (w_tick w)\<rparr>"
  obtain w1 s where f: "fold apply_stream_ack (we_applied_streams E (w_tick w)) (?w, False) = (w1, s)" by fastforce
  have "evolves E w ?w" by (intro evolve)
  from settles_then [OF this stream_acks_evolve [OF f]] show ?thesis
    by (auto simp: poll_applied_execution_streams_def reading_def f intro!: evolve)
qed

subsection \<open>Control commands and timeouts\<close>

lemma dispatch_cancellations_evolves:
  "fold (dispatch_one_cancellation E) targets (w, r) = (w', r') \<Longrightarrow> evolves E w w'"
proof (induction targets arbitrary: w r)
  case (Cons t ts)
  obtain w1 r1 where one: "dispatch_one_cancellation E t (w, r) = (w1, r1)" by fastforce
  then have "evolves E w w1"
    by (auto simp: dispatch_one_cancellation_def reading_def Let_def intro!: evolve split: option.splits sum.splits if_splits)
  moreover have "evolves E w1 w'" using Cons one by simp
  ultimately show ?case by (rule settles_then)
qed (simp add: evolve)

lemma cancellations_evolve:
  assumes "settles E es w0 w" and "worker_dispatch_cancellations E targets w = (w', r)"
  shows "settles E es w0 w'"
  using settles_then [OF assms(1)] dispatch_cancellations_evolves assms(2)
  by (auto simp: worker_dispatch_cancellations_def)

lemma replace_tracked_evolve:
  assumes "settles E es w0 w"
  shows "settles E es w0 (replace_tracked oid nq np w)"
proof (cases "w_tracked_orders w oid")
  case None
  then have "replace_tracked oid nq np w = w" by (simp add: replace_tracked_def fun_upd_idem)
  then show ?thesis using assms by simp
next
  case (Some t)
  then show ?thesis using assms by (auto simp: replace_tracked_def intro!: update_evolve [OF assms Some])
qed

lemma modify_evolve:
  assumes "settles E es w0 w" and "worker_validate_replacement w oid sm nq np = Ok i"
  shows "settles E es w0 (act (ModifySent i oid nq np) w)"
  by (rule settles_step [OF modify_step [OF assms(2)] _ assms(1)]) (simp add: act_def)

lemma validate_replacement_tick [simp]: "worker_validate_replacement (w\<lparr>w_tick := t\<rparr>) = worker_validate_replacement w"
proof -
  have "select_client_for_cancel (w\<lparr>w_tick := t\<rparr>) = select_client_for_cancel w" by (intro ext) (simp add: select_client_for_cancel_def)
  then show ?thesis by (intro ext) (simp add: worker_validate_replacement_def cong: if_cong)
qed

lemma replace_order_evolves:
  assumes "worker_replace_order E oid sm nq np w = (w', r)"
  shows "evolves E w w'"
proof (cases "worker_validate_replacement w oid sm nq np")
  case (Inl reason)
  then show ?thesis using assms by (simp add: worker_replace_order_def evolve)
next
  case (Inr i)
  have "evolves E w (w\<lparr>w_tick := w_tick w + 1\<rparr>)" by (intro evolve)
  then have "evolves E w (act (ModifySent i oid nq np) (w\<lparr>w_tick := w_tick w + 1\<rparr>))"
    by (rule modify_evolve [where sm = sm]) (simp add: Inr)
  then show ?thesis using assms Inr
    by (auto simp: worker_replace_order_def reading_def Let_def evolve
        intro!: evolve replace_tracked_evolve split: option.splits sum.splits if_splits)
qed

lemma set_intake_evolves:
  assumes "worker_set_intake E enabled w = (w', r)"
  shows "evolves E w w'"
proof -
  have "evolves E w (w\<lparr>w_operator_intake_enabled := enabled, w_accepting_intents := enabled\<rparr>)"
    if "enabled \<Longrightarrow> \<not> w_emergency_latched w \<and> \<not> w_stream_recovery_pending w"
    by (rule settles_step [OF operator_step [OF that] _ evolves_refl]) simp_all
  then show ?thesis using assms
    by (auto simp: worker_set_intake_def Let_def intro: evolve split: if_splits)
qed

lemma control_command_evolves: "evolves E w (handle_control_command E cmd w)"
proof (cases cmd)
  case (CancelOrders targets scope)
  then show ?thesis by (auto intro: evolve cancellations_evolve split: prod.splits)
next
  case (EnterEmergency targets)
  then show ?thesis by (auto simp: Let_def intro!: evolve intro: cancellations_evolve [OF latches_evolve(1)] split: prod.splits)
next
  case (ReconcileAccounts b p f)
  then show ?thesis by (auto dest!: collect_reconcile_shape(1) intro!: evolve split: prod.splits)
next
  case (SetIntake enabled)
  then show ?thesis by (auto intro: evolve set_intake_evolves split: prod.splits)
next
  case (ReplaceOrder oid sm nq np)
  then show ?thesis by (auto intro: evolve replace_order_evolves split: prod.splits)
qed

lemma commands_evolve [evolve]: "settles E es w0 w \<Longrightarrow> settles E es w0 (handle_commands E cmds w)"
  unfolding handle_commands_def by (erule settles_then) (rule evolves_fold, rule control_command_evolves)

lemma cancel_overdue_evolves: "evolves E w (cancel_overdue E x w)"
proof (cases x)
  case (Pair oid sm)
  have reset: "settles E [] w (v\<lparr>w_tick := t, w_pending_acks := (w_pending_acks v)(oid := map_option f (w_pending_acks v oid))\<rparr>)"
    if "evolves E w v" for v t f
    by (rule settles_quiet [OF that]) (auto simp: quiet_defs)
  show ?thesis unfolding Pair cancel_overdue_def
    by (auto simp: reading_def Let_def intro!: reset evolve split: option.splits sum.splits)
qed

lemma check_ack_timeouts_evolves: "evolves E w (fst (check_ack_timeouts E w))"
proof -
  have mark: "settles E es w0 (mark_overdue now v)" if "settles E es w0 v" for es w0 now v
    by (rule settles_quiet [OF that]) (auto simp: quiet_defs mark_overdue_def)
  show ?thesis
    by (auto simp: check_ack_timeouts_def reading_def Let_def
        intro!: evolve mark settles_then [OF _ evolves_fold [OF cancel_overdue_evolves]])
qed

subsection \<open>Admission of an envelope\<close>

text \<open>The checks before a submission read the environment, advance the round robin and charge the request budget.\<close>

definition probes :: "worker \<Rightarrow> worker \<Rightarrow> bool" where
  "probes w w' \<longleftrightarrow> (\<exists>t n b. w' = w\<lparr>w_tick := t, w_round_robin_counter := n, w_rate_budget := b\<rparr>)"

lemma probes_intro:
  "probes w w" "probes w (w\<lparr>w_tick := t\<rparr>)" "probes w (w\<lparr>w_round_robin_counter := n\<rparr>)"
  "probes w (w\<lparr>w_tick := t, w_rate_budget := b\<rparr>)" "probes w (w\<lparr>w_rate_budget := b\<rparr>)"
  unfolding probes_def
  by (cases w, rule exI [of _ "w_tick w"] exI [of _ t], rule exI [of _ "w_round_robin_counter w"] exI [of _ n],
      rule exI [of _ "w_rate_budget w"] exI [of _ b], simp)+

lemma probes_trans: "probes w w' \<Longrightarrow> probes w' w'' \<Longrightarrow> probes w w''"
  unfolding probes_def by (cases w) auto

lemma probes_evolve: "settles E es w0 w \<Longrightarrow> probes w w' \<Longrightarrow> settles E es w0 w'"
  unfolding probes_def by (auto intro!: evolve)

lemma step_then_cases:
  assumes "step_then m f = Some (w', r)"
  obtains (stopped) e where "m = Some (w', Inl e)" "r = Inl e" | (goes_on) w1 x where "m = Some (w1, Inr x)" "f w1 x = Some (w', r)"
  using assms by (auto simp: step_then_def split: option.splits sum.splits)

lemma step_then_probes:
  assumes "step_then m f = Some (w', r)" and "\<And>w1 r1. m = Some (w1, r1) \<Longrightarrow> probes w w1"
    and "\<And>w1 x. m = Some (w1, Inr x) \<Longrightarrow> f w1 x = Some (w', r) \<Longrightarrow> probes w1 w'"
  shows "probes w w'"
  using assms(1) by (cases rule: step_then_cases) (auto dest: assms(2,3) intro: probes_trans)

lemma step_then_Ok:
  "step_then m f = Some (w', Inr y) \<longleftrightarrow> (\<exists>w1 x. m = Some (w1, Inr x) \<and> f w1 x = Some (w', Inr y))"
  by (auto simp: step_then_def split: option.splits sum.splits)

lemma select_execution_client_probes: "select_execution_client E w intent = (w', r) \<Longrightarrow> probes w w'"
  by (auto simp: select_execution_client_def reading_def Let_def probes_intro
      split: option.splits if_splits client_selection_strategy.splits)

lemma simulated_identity_probes: "simulated_identity E e w = (w', r) \<Longrightarrow> probes w w'"
  by (auto simp: simulated_identity_def probes_intro split: if_splits prod.splits sum.splits option.splits
      dest: select_execution_client_probes)

lemma choose_client_probes: "choose_client E intent acc sim w = Some (w', r) \<Longrightarrow> probes w w'"
  by (auto simp: choose_client_def reading_def Let_def bind_eq_Some_conv probes_intro
      split: if_splits prod.splits sum.splits option.splits dest: select_execution_client_probes)

lemma confirm_binding_probes: "confirm_binding E intent acc i validated w = Some (w', r) \<Longrightarrow> probes w w'"
  by (auto simp: confirm_binding_def reading_def Let_def bind_eq_Some_conv probes_intro split: if_splits option.splits)

lemma market_gate_probes: "market_gate E e i w = (w', r) \<Longrightarrow> probes w w'"
  by (auto simp: market_gate_def reading_def Let_def probes_intro)

lemma rate_budget_probes: "admit_new_order_rate_budget E w account intent i = (w', r) \<Longrightarrow> probes w w'"
  by (auto simp: admit_new_order_rate_budget_def reading_def Let_def probes_intro split: if_splits option.splits prod.splits)

lemma budgeted_probes: "map_prod id f (admit_new_order_rate_budget E w account intent i) = (w', r) \<Longrightarrow> probes w w'"
  by (cases "admit_new_order_rate_budget E w account intent i") (auto dest: rate_budget_probes)

lemma admit_envelope_probes:
  assumes "admit_envelope E e w = Some (w', r)"
  shows "probes w w'"
proof (rule probes_trans [OF probes_intro(2)])
  show "probes (w\<lparr>w_tick := w_tick w + 1\<rparr>) w'"
    using assms unfolding admit_envelope_def reading_def Let_def prod.case
    by (elim step_then_probes)
      (auto split: if_splits prod.splits elim!: step_then_probes
        dest: simulated_identity_probes choose_client_probes confirm_binding_probes market_gate_probes budgeted_probes
        intro: probes_intro)
qed

text \<open>What the admission of an account depends on.\<close>

definition same_accounts :: "worker \<Rightarrow> worker \<Rightarrow> bool" where
  "same_accounts w w' \<longleftrightarrow> same_bindings w w' \<and> w_tracked_orders w' = w_tracked_orders w \<and>
     w_reconciled_open_order_ids w' = w_reconciled_open_order_ids w"

lemma probes_same:
  "probes w w' \<Longrightarrow> same_accounts w w'" "probes w w' \<Longrightarrow> same_latches w w'" "probes w w' \<Longrightarrow> w_log w' = w_log w"
  by (auto simp: probes_def same_accounts_def same_bindings_def same_latches_def)

lemma usdm_bindings:
  assumes "same_bindings w w'"
  shows "is_binance_usdm_client E w' i = is_binance_usdm_client E w i" "client_of w' i = client_of w i"
proof -
  show "client_of w' i = client_of w i" using assms by (simp add: client_of_def same_bindings_def)
  then show "is_binance_usdm_client E w' i = is_binance_usdm_client E w i"
    using venue_for_client_bindings [OF assms] assms by (simp add: is_binance_usdm_client_def same_bindings_def)
qed

lemma product_scope_bindings:
  "same_bindings w w' \<Longrightarrow> validate_client_product_scope E w' intent i = validate_client_product_scope E w intent i"
  unfolding validate_client_product_scope_def by (simp only: usdm_bindings venue_for_client_bindings)

lemma admission_cong:
  assumes "same_accounts w w'"
  shows "validate_account_admission E w' acc intent i now = validate_account_admission E w acc intent i now"
proof -
  from assms have b: "same_bindings w w'" and t: "w_tracked_orders w' = w_tracked_orders w"
    "w_reconciled_open_order_ids w' = w_reconciled_open_order_ids w"
    by (simp_all add: same_accounts_def)
  have "w_account_admissions w' acc = w_account_admissions w acc" "w_account_environments w' acc = w_account_environments w acc"
    using b by (simp_all add: same_bindings_def)
  then have "admission_evidence E w' acc intent i now = admission_evidence E w acc intent i now"
    by (simp only: admission_evidence_def usdm_bindings [OF b] venue_for_client_bindings [OF b])
  moreover have "admission_limits E w' acc intent adm = admission_limits E w acc intent adm" for adm
    by (simp only: admission_limits_def open_order_count_def t)
  ultimately show ?thesis by (simp only: validate_account_admission_def)
qed

lemma account_admitted_cong: "same_accounts w w' \<Longrightarrow> account_admitted E w' acc intent i = account_admitted E w acc intent i"
  by (simp add: account_admitted_def admission_cong)

lemma choose_client_Ok:
  assumes "choose_client E intent acc sim w = Some (w', Ok (i, validated))"
  shows "validated \<Longrightarrow> w_account_to_client w acc = Some i \<and> live_client w i"
    and "is_some_and (live_client w) (w_account_to_client w acc) \<Longrightarrow>
      validated \<and> account_admitted E w acc intent (the (w_account_to_client w acc))"
proof -
  have cong: "validate_account_admission E (w\<lparr>w_tick := t\<rparr>) acc intent i now = validate_account_admission E w acc intent i now" for t i now
    by (rule admission_cong) (simp add: same_accounts_def same_bindings_def)
  show "validated \<Longrightarrow> w_account_to_client w acc = Some i \<and> live_client w i"
    using assms by (auto simp: choose_client_def reading_def Let_def bind_eq_Some_conv and_then_Ok_iff is_some_and_def
        split: if_splits option.splits prod.splits sum.splits)
  show "validated \<and> account_admitted E w acc intent (the (w_account_to_client w acc))"
    if "is_some_and (live_client w) (w_account_to_client w acc)"
    using assms that
    by (auto simp: choose_client_def reading_def Let_def bind_eq_Some_conv and_then_Ok_iff account_admitted_def cong)
qed

lemma confirm_binding_Ok:
  assumes "confirm_binding E intent acc i validated w = Some (w', Ok ())" and "live_client w i"
  shows "w_account_to_client w acc = Some i"
  using assms by (auto simp: confirm_binding_def live_client_def is_some_and_def split: if_splits option.splits)

lemma pre_execution_account:
  "validate_pre_execution D (e\<lparr>env_account_id := a\<rparr>) now latest = validate_pre_execution D e now latest"
  by (simp add: validate_pre_execution_def validate_order_limits_def)

lemma simulated_identity_Ok:
  assumes "simulated_identity E e w = (w', Ok (e', sim))"
  shows "\<exists>a. e' = e\<lparr>env_account_id := a\<rparr>"
proof (cases "env_account_id e = None \<and> list_all xc_is_simulated_execution (w_clients w)")
  case True
  then show ?thesis using assms by (auto simp: simulated_identity_def split: prod.splits sum.splits option.splits if_splits)
next
  case False
  then have "e' = e\<lparr>env_account_id := env_account_id e\<rparr>" using assms by (auto simp: simulated_identity_def)
  then show ?thesis ..
qed

lemma admit_envelope_stages:
  assumes "admit_envelope E e w = Some (w', Ok (e', i, acc))"
  obtains w1 w2 w3 w4 sim validated b
  where "validate_pre_execution (we_dec E) e (we_now_micros E (w_tick w)) None = Ok ()" "w_accepting_intents w"
    "simulated_identity E e (w\<lparr>w_tick := w_tick w + 1\<rparr>) = (w1, Ok (e', sim))" "canonical_account e' = Ok acc"
    "choose_client E (env_intent e') acc sim w1 = Some (w2, Ok (i, validated))"
    "validate_client_product_scope E w2 (env_intent e') i = Ok ()"
    "confirm_binding E (env_intent e') acc i validated w2 = Some (w3, Ok ())"
    "market_gate E e' i w3 = (w4, Ok ())" "admit_new_order_rate_budget E w4 (Some acc) (env_intent e') i = (w', Ok b)"
proof -
  have gate: "map_sum f id r = Ok x \<longleftrightarrow> r = Ok x" for f :: "'a \<Rightarrow> message" and r :: "'a + unit" and x by (cases r) auto
  have budget: "map_prod id (map_sum g id) p = (v, Ok x) \<longleftrightarrow> p = (v, Ok x)" for g :: "message \<Rightarrow> message" and p :: "worker \<times> (message + unit)" and v x
    by (cases p; cases "snd p") auto
  show thesis
    using assms that unfolding admit_envelope_def reading_def Let_def prod.case
    by (auto simp: step_then_Ok gate budget split: if_splits prod.splits)
qed

lemma market_gate_Ok:
  assumes "market_gate E e i w = (w', Ok ())"
  shows "\<exists>t u. validate_execution_market_reference (we_dec E) (we_fx E) (we_market E u) e (we_now_micros E t) (protection_of w i) = Ok ()"
  using assms by (cases "validate_execution_market_reference (we_dec E) (we_fx E) (we_market E (w_tick w + 1)) e (we_now_micros E (w_tick w)) (protection_of w i)")
    (auto simp: market_gate_def reading_def Let_def protection_of_def client_of_def)

lemma admit_envelope_Ok:
  assumes "admit_envelope E e w = Some (w', Ok (e', i, acc))"
  shows "(\<exists>a. e' = e\<lparr>env_account_id := a\<rparr>) \<and> submission_allowed E w' e' i acc"
  using assms
proof (cases rule: admit_envelope_stages)
  case (1 w1 w2 w3 w4 sim validated b)
  let ?w0 = "w\<lparr>w_tick := w_tick w + 1\<rparr>"
  from simulated_identity_Ok [OF 1(3)] have e': "\<exists>a. e' = e\<lparr>env_account_id := a\<rparr>" .
  have p1: "probes w1 w'" and p2: "probes w2 w'" and p3: "probes w3 w'" and p0: "probes w w'"
    using 1 probes_intro(2) simulated_identity_probes choose_client_probes confirm_binding_probes market_gate_probes rate_budget_probes
    by (metis probes_trans)+
  note b1 = probes_same(1) [OF p1] and b2 = probes_same(1) [OF p2] and b3 = probes_same(1) [OF p3]
  note eqs = same_accounts_def same_bindings_def
  from e' 1(1) have "validate_pre_execution (we_dec E) e' (we_now_micros E (w_tick w)) None = Ok ()"
    by (auto simp: pre_execution_account)
  moreover have "w_accepting_intents w'" using 1(2) probes_same(2) [OF p0] by (simp add: same_latches_def)
  moreover have "validate_client_product_scope E w' (env_intent e') i = Ok ()"
    using 1(6) product_scope_bindings [of w2 w'] b2 by (simp add: same_accounts_def)
  moreover have "protection_of w' i = protection_of w3 i"
    using b3 usdm_bindings(2) [of w3 w'] by (simp add: protection_of_def same_accounts_def)
  moreover have "live_client w' i \<longrightarrow> w_account_to_client w' acc = Some i"
    using confirm_binding_Ok [OF 1(7)] b2 live_client_bindings [of w2 w'] by (simp add: eqs)
  moreover have "is_some_and (live_client w') (w_account_to_client w' acc) \<longrightarrow>
      account_admitted E w' acc (env_intent e') (the (w_account_to_client w' acc))"
    using choose_client_Ok(2) [OF 1(5)] b1 live_client_bindings [of w1 w'] account_admitted_cong [OF b1] by (simp add: eqs)
  ultimately have "submission_allowed E w' e' i acc"
    using 1(4) market_gate_Ok [OF 1(8)] unfolding submission_allowed_def by auto
  with e' show ?thesis ..
qed

subsection \<open>Submission\<close>

definition trackable :: "worker_env \<Rightarrow> order_intent_envelope \<Rightarrow> usize \<Rightarrow> account_id \<Rightarrow> worker \<Rightarrow> bool" where
  "trackable E e i acc w \<longleftrightarrow> unat i < length (w_clients w) \<and>
     (is_some_and (live_client w) (w_account_to_client w acc) \<longrightarrow>
        account_admitted E w acc (env_intent e) (the (w_account_to_client w acc)))"

lemma trackable_cong:
  assumes "same_accounts w w'" and "trackable E e i acc w"
  shows "trackable E e i acc w'"
  using assms account_admitted_cong [OF assms(1)] live_client_bindings [of w w']
  by (simp add: trackable_def same_accounts_def same_bindings_def)

lemma trackable_updates:
  assumes "trackable E e i acc w"
  shows "trackable E e i acc (count_stats f w)" "trackable E e i acc (set_timeline oid t w)" "trackable E e i acc (latch_emergency w)"
    "trackable E e i acc (act a w)" "trackable E e i acc (w\<lparr>w_tick := n\<rparr>)"
  by (rule trackable_cong [OF _ assms], simp add: same_accounts_def same_bindings_def count_stats_def set_timeline_def
      latch_emergency_def act_def)+

lemma order_known_updates [simp]:
  "order_known (count_stats f w) oid = order_known w oid" "order_known (set_timeline o' t w) oid = order_known w oid"
  "order_known (latch_emergency w) oid = order_known w oid"
  by (simp_all add: order_known_def count_stats_def set_timeline_def latch_emergency_def)

lemma track_order_evolve:
  assumes "settles E es w0 w" and "\<not> order_known w oid" and "trackable E e i acc w"
  shows "settles E es w0 (track_order E oid e i acc w)"
  by (rule settles_step [OF track_step _ assms(1)])
    (use assms(2,3) in \<open>auto simp: trackable_def track_order_def reading_def Let_def\<close>)

lemma submission_succeeded_evolve:
  assumes "settles E es w0 w" and "trackable E e i acc w"
  shows "settles E es w0 (submission_succeeded E e i acc line oid w)"
  unfolding submission_succeeded_def latch_duplicate_order_id_def Let_def
  using assms by (auto intro!: evolve track_order_evolve trackable_updates)

lemma submission_failed_evolve:
  assumes "settles E es w0 w" and "trackable E e i acc w" and "\<not> not_attempted (Inl err)"
  shows "settles E es w0 (submission_failed E e i acc err w)"
proof -
  have "\<not> (case err of SubmissionNotAttempted m \<Rightarrow> True | _ \<Rightarrow> False)" using assms(3) by (cases err) auto
  then show ?thesis
    unfolding submission_failed_def latch_duplicate_order_id_def Let_def reading_def
    using assms(1,2) by (auto intro!: evolve track_order_evolve trackable_updates)
qed

lemma submission_not_attempted_settles:
  assumes "not_attempted (Inl err)"
  shows "settles E [e] w (submission_failed E e i acc err w)"
proof -
  from assms obtain m where err: "err = SubmissionNotAttempted m" by (cases err) auto
  show ?thesis unfolding submission_failed_def err Let_def
    by (auto intro: evolve evolves_then [OF _ reject_unsent_settles])
qed

lemma allowed_trackable: "submission_allowed E w e i acc \<Longrightarrow> trackable E e i acc w"
  by (auto simp: submission_allowed_def trackable_def validate_client_product_scope_def and_then_Ok_iff client_of_def vec_get_def
      split: if_splits)

lemma allowed_tick: "submission_allowed E (w\<lparr>w_tick := t\<rparr>) e i acc = submission_allowed E w e i acc"
proof -
  have same: "same_accounts w (w\<lparr>w_tick := t\<rparr>)" by (simp add: same_accounts_def same_bindings_def)
  then have b: "same_bindings w (w\<lparr>w_tick := t\<rparr>)" by (simp add: same_accounts_def)
  show ?thesis
    using live_client_bindings [OF b] product_scope_bindings [OF b] account_admitted_cong [OF same] usdm_bindings(2) [OF b]
    by (simp add: submission_allowed_def protection_of_def)
qed

text \<open>The attempt itself settles the envelope, unless the client declares it not attempted.\<close>

lemma placed_settles:
  assumes "submission_allowed E w e i acc" and "settles E (if not_attempted r then [e] else []) (act (Placed i e r) w) w'"
  shows "settles E [e] w w'"
proof -
  have "worker_steps E w w'" if ok: "\<forall>c. hand (map Received [e]) c \<le> hand (w_log w) c"
  proof -
    have "worker_step E w (act (Placed i e r) w)"
      using ok [rule_format, of "env_client_order_id e"] assms(1) by (intro place_step) auto
    moreover have "hand (map Received (if not_attempted r then [e] else [])) c \<le> hand (w_log (act (Placed i e r) w)) c" for c
      using ok [rule_format, of c] by (auto simp: act_def split: if_splits)
    then have "worker_steps E (act (Placed i e r) w) w'" using assms(2) by (simp add: settles_def)
    ultimately show ?thesis by (rule converse_rtranclp_into_rtranclp)
  qed
  then show ?thesis using assms(2) by (auto simp: settles_def act_def split: if_splits)
qed

lemma submit_envelope_settles:
  assumes "submission_allowed E w e i acc"
  shows "settles E [e] w (submit_envelope E e i acc w)"
proof -
  let ?w1 = "w\<lparr>w_tick := Suc (w_tick w)\<rparr>"
  let ?r = "sa_outcome (we_place E (w_tick w) i e)"
  let ?w2 = "act (Placed i e ?r) ?w1"
  have ok: "submission_allowed E ?w1 e i acc" using assms by (simp add: allowed_tick)
  have track: "trackable E e i acc w" using assms by (rule allowed_trackable)
  obtain line where line: "submit_envelope E e i acc w = (let w3 = count_stats (\<lambda>s. s\<lparr>ws_recent_execution_latency_micros :=
        sp_write_to_response_us (spans line)\<rparr>) (set_timeline (OrderId (env_client_order_id e)) (Some line) ?w2)
      in case ?r of Inr oid \<Rightarrow> submission_succeeded E e i acc line oid w3 | Inl err \<Rightarrow> submission_failed E e i acc err w3)"
    by (simp add: submit_envelope_def reading_def Let_def)
  have "settles E (if not_attempted ?r then [e] else []) ?w2 (submit_envelope E e i acc w)"
  proof (cases "not_attempted ?r")
    case False
    with track show ?thesis unfolding line Let_def
      by (auto split: sum.splits intro!: submission_succeeded_evolve submission_failed_evolve trackable_updates evolve)
  next
    case True
    then obtain err where r: "?r = Inl err" by (cases ?r) auto
    with True show ?thesis unfolding line Let_def
      by (auto intro!: evolves_then [OF _ submission_not_attempted_settles] evolve)
  qed
  then have "settles E [e] ?w1 (submit_envelope E e i acc w)" by (rule placed_settles [OF ok])
  then show ?thesis by (rule evolves_then [rotated]) (intro evolve)
qed

subsection \<open>Batches and turns\<close>

lemma drain_round_evolves:
  assumes "drain_round E a w = Some (w', n)"
  shows "evolves E w w'"
proof -
  obtain w1 where p: "poll_execution_events E (ar_items a) (handle_commands E (ar_commands a) w) = Some (w1, n)"
    and w': "w' = fst (poll_applied_execution_streams E w1)"
    using assms by (auto simp: drain_round_def bind_eq_Some_conv)
  have "evolves E w (handle_commands E (ar_commands a) w)" by (intro evolve)
  then have "evolves E w w1" by (rule settles_then [OF _ poll_events_evolves [OF p]])
  then show ?thesis unfolding w' by (rule settles_then [OF _ poll_applied_evolves])
qed

lemma drain_rounds_evolves: "drain_rounds E rounds w = Some w' \<Longrightarrow> evolves E w w'"
proof (induction rounds arbitrary: w)
  case (Cons a as)
  then obtain w1 n where r: "drain_round E a w = Some (w1, n)"
    and rest: "(if n < execution_event_batch_limit w1 then Some w1 else drain_rounds E as w1) = Some w'"
    by (auto simp: bind_eq_Some_conv)
  from rest Cons.IH [of w1] have "evolves E w1 w'" by (auto split: if_splits intro: evolve)
  with drain_round_evolves [OF r] show ?case by (rule settles_then)
qed (auto dest: drain_round_evolves)

lemma settles_id: "env_client_order_id e = env_client_order_id e' \<Longrightarrow> settles E [e] w w' = settles E [e'] w w'"
  by (simp add: settles_def)

lemma process_envelope_settles:
  assumes "process_envelope E e w = Some w'"
  shows "settles E [e] w w'"
proof -
  obtain w1 w2 r where d: "drain_private_events_before_submission E w = Some w1" and a: "admit_envelope E e w1 = Some (w2, r)"
    and w': "w' = (case r of Inl reason \<Rightarrow> reject_intent E (env_client_order_id e) reason w2
      | Inr (e', i, acc) \<Rightarrow> submit_envelope E e' i acc w2)"
    using assms by (auto simp: process_envelope_def bind_eq_Some_conv)
  have "evolves E w (w\<lparr>w_tick := w_tick w + 1\<rparr>)" by (intro evolve)
  then have "evolves E w w1" using d settles_then drain_rounds_evolves
    by (auto simp: drain_private_events_before_submission_def reading_def)
  then have evo: "evolves E w w2" by (rule probes_evolve [OF _ admit_envelope_probes [OF a]])
  have "settles E [e] w2 w'"
  proof (cases r)
    case (Inl reason)
    then show ?thesis using w' reject_intent_settles by simp
  next
    case (Inr x)
    obtain e' i acc where x: "x = (e', i, acc)" by (cases x)
    from admit_envelope_Ok [OF a [unfolded Inr x]] have ids: "env_client_order_id e = env_client_order_id e'"
      and ok: "submission_allowed E w2 e' i acc" by auto
    from submit_envelope_settles [OF ok] show ?thesis using w' settles_id [OF ids] by (simp add: Inr x)
  qed
  with evo show ?thesis by (rule evolves_then)
qed

lemma process_envelopes_settles: "process_envelopes E es w = Some w' \<Longrightarrow> settles E es w w'"
proof (induction es arbitrary: w)
  case (Cons e es)
  then obtain w1 where "process_envelope E e w = Some w1" "process_envelopes E es w1 = Some w'"
    by (auto simp: bind_eq_Some_conv)
  with Cons.IH process_envelope_settles settles_trans [of E "[e]" w w1 es w'] show ?case by simp
qed (simp add: evolve)

lemma process_order_intents_settles:
  assumes "process_order_intents E es w = Some w'"
  shows "settles E es w w'"
proof -
  have "settles E es (count_processed es w) w'"
    using assms process_envelopes_settles settles_fold [OF reject_intent_settles]
    by (auto simp: process_order_intents_def Let_def split: if_splits)
  then show ?thesis by (rule evolves_then [rotated]) (simp add: count_processed_def evolve)
qed

lemma intake_turn_evolves:
  assumes "intake_turn E w = Some (w', taken)"
  shows "evolves E w w'"
proof -
  let ?w = "w\<lparr>w_tick := w_tick w + 1\<rparr>" and ?es = "we_envelopes E (w_tick w)"
  have "settles E ?es (receive_batch ?es ?w) w'"
    using assms by (auto simp: intake_turn_def reading_def Let_def bind_eq_Some_conv split: if_splits
        intro: process_order_intents_settles evolve)
  then have "evolves E ?w w'" by (rule batch_evolves)
  then show ?thesis by (rule evolves_then [rotated]) (intro evolve)
qed

lemma periodic_reconcile_evolves: "evolves E w (fst (periodic_reconcile E w))"
  by (auto simp: periodic_reconcile_def reading_def Let_def intro!: evolve split: prod.splits)
    (metis evolve worker_reconcile_evolves settles_then fst_conv)

lemma idle_wait_evolves:
  assumes "idle_wait E w = Some w'"
  shows "evolves E w w'"
proof -
  let ?w = "w\<lparr>w_tick := w_tick w + 1\<rparr>"
  have "evolves E ?w w'"
    using assms by (auto simp: idle_wait_def reading_def Let_def split: option.splits sum.splits
        intro: evolve control_command_evolves stream_item_evolves)
  then show ?thesis by (rule evolves_then [rotated]) (intro evolve)
qed

lemma worker_turn_evolves:
  assumes "worker_turn E w = Some w'"
  shows "evolves E w w'"
proof -
  let ?a = "we_turn E (w_tick w)"
  define w1 where "w1 = handle_commands E (ar_commands ?a) (w\<lparr>w_tick := Suc (w_tick w)\<rparr>)"
  have e1: "evolves E w w1" unfolding w1_def by (intro evolve)
  obtain w2 n where p: "poll_execution_events E (ar_items ?a) w1 = Some (w2, n)"
    using assms by (auto simp: worker_turn_def reading_def w1_def bind_eq_Some_conv)
  obtain w3 k where q: "poll_applied_execution_streams E w2 = (w3, k)" by fastforce
  obtain w4 b where r: "retry_stream_recovery_if_due E w3 = (w4, b)" by fastforce
  have e4: "evolves E w w4"
    using e1 settles_then poll_events_evolves [OF p] poll_applied_evolves [of E w2] retry_recovery_evolves [of E w3]
    unfolding q r fst_conv by blast
  obtain w5 taken where i: "(if n < execution_event_batch_limit w4 then intake_turn E w4 else Some (w4, False)) = Some (w5, taken)"
    using assms by (auto simp: worker_turn_def reading_def p [unfolded w1_def] q r Let_def bind_eq_Some_conv)
  have e5: "evolves E w w5" using e4 i by (auto split: if_splits intro: settles_then intake_turn_evolves)
  obtain w6 m where t: "(if wc_ack_timeout_ms (w_config w5) = 0 then (w5, 0) else check_ack_timeouts E w5) = (w6, m)" by fastforce
  have e6: "evolves E w w6"
    using e5 t settles_then [OF e5 check_ack_timeouts_evolves] by (auto split: if_splits)
  obtain w7 c where u: "periodic_reconcile E w6 = (w7, c)" by fastforce
  have e7: "evolves E w w7" using settles_then [OF e6 periodic_reconcile_evolves] unfolding u by simp
  have "w' = w7 \<or> idle_wait E w7 = Some w'"
    using assms by (auto simp: worker_turn_def reading_def p [unfolded w1_def] q r i t u Let_def split: if_splits)
  then show ?thesis using e7 settles_then idle_wait_evolves by blast
qed

lemma worker_run_evolves: "worker_run E n w = Some w' \<Longrightarrow> evolves E w w'"
proof (induction n arbitrary: w)
  case (Suc n)
  then show ?case by (auto simp: bind_eq_Some_conv dest!: worker_turn_evolves intro: settles_then)
qed (simp add: evolve)

end
