(* ===== verification/Worker_Properties.thy ===== *)
theory Worker_Properties
  imports Worker_Refinement
begin

text \<open>
  What the execution worker guarantees from its start on, whatever the clients answer, whatever arrives on its channels and
  whenever it is asked to stop.
\<close>

subsection \<open>The start\<close>

lemmas spawn_defs = spawn_execution_worker_def with_rate_budget_def worker_new_def

lemma spawn_invariants:
  "worker_wf (spawn_execution_worker cfg clients routed b start)"
  "intake_exact (spawn_execution_worker cfg clients routed b start)"
  "hand (w_log (spawn_execution_worker cfg clients routed b start)) c = 0"
  "placed_within E (spawn_execution_worker cfg clients routed b start)"
  "open_orders_bounded (spawn_execution_worker cfg clients routed b start)"
  by (simp_all add: worker_wf_def intake_exact_def placed_within_def reconciled_finite_def open_orders_bounded_def
      tracked_of_def spawn_defs)

text \<open>Every run from the start is a run of the machine, and leaves no envelope in hand.\<close>

lemma spawned_run:
  assumes "worker_run E n (spawn_execution_worker cfg clients routed b start) = Some w"
  shows "worker_steps E (spawn_execution_worker cfg clients routed b start) w" "hand (w_log w) c = 0"
  using worker_run_evolves [OF assms] by (simp_all add: settles_def spawn_invariants(3))

lemma spawned_clients:
  assumes "worker_run E n (spawn_execution_worker cfg clients routed b start) = Some w"
  shows "w_clients w = clients"
  using steps_bindings [OF spawned_run(1) [OF assms]] by (simp add: same_bindings_def spawn_defs)

lemma continued_run:
  assumes "worker_run E m (spawn_execution_worker cfg clients routed b start) = Some w" and "worker_run E n w = Some w'"
  shows "worker_steps E w w'"
  using worker_run_evolves [OF assms(2)] spawned_run(2) [OF assms(1)] by (simp add: settles_def)

lemma log_without_risk:
  assumes "l' = l @ new" and "filter opens_risk l' = filter opens_risk l" and "a \<in> set new"
  shows "\<not> opens_risk a"
  using assms by (auto simp: filter_empty_conv)

subsection \<open>The evidence of a recovery\<close>

lemma local_order_matched:
  assumes "local_order_matches w exs oid" and "w_tracked_orders w oid = Some order"
  shows "\<exists>ex \<in> set exs. names_order oid ex \<and> oo_remaining_quantity ex = tr_remaining_quantity order"
proof -
  from assms obtain ex where "List.find (names_order oid) exs = Some ex" "oo_remaining_quantity ex = tr_remaining_quantity order"
    by (auto simp: local_order_matches_def is_some_and_def split: option.splits)
  then show ?thesis by (auto simp: find_Some_iff)
qed

lemma evidence_of_client:
  assumes "recovery_evidence E w" and "iteration_order (we_orders E)" and "finite (dom (w_tracked_orders w))" and "k < length (w_clients w)"
  shows "\<exists>t exs. ca_open_orders (we_client E t (of_nat k)) = Ok exs \<and> ca_cancellable_orders (we_client E t (of_nat k)) = Ok [] \<and>
    length exs = card {oid \<in> dom (w_tracked_orders w). w_order_to_client w oid = Some (of_nat k)} \<and>
    (\<forall>oid order. w_tracked_orders w oid = Some order \<longrightarrow> w_order_to_client w oid = Some (of_nat k) \<longrightarrow>
      (\<exists>ex \<in> set exs. names_order oid ex \<and> oo_remaining_quantity ex = tr_remaining_quantity order))"
proof -
  let ?i = "of_nat k :: usize"
  from assms(1) obtain snap where snap: "map cs_client_index snap = map of_nat [0..<length (w_clients w)]"
    "list_all (answered E) snap" "recovery_snapshot_matches E w snap"
    by (auto simp: recovery_evidence_def)
  from snap(1) have "length snap = length (w_clients w)" by (metis length_map length_upt minus_nat.diff_0)
  then have k: "k < length snap" using assms(4) by simp
  then have mem: "snap ! k \<in> set snap" by simp
  have "map cs_client_index snap ! k = map of_nat [0..<length (w_clients w)] ! k" using snap(1) by simp
  with k assms(4) have idx: "cs_client_index (snap ! k) = ?i" by simp
  from mem have "client_matches E w (snap ! k)" "answered E (snap ! k)"
    using snap(2,3) by (auto simp: recovery_snapshot_matches_def list_all_iff)
  then obtain exs t where exs: "cs_open_orders (snap ! k) = Ok exs" "cs_cancellable_orders (snap ! k) = Ok []"
      "length (local_orders_of E w ?i) = length exs" "list_all (local_order_matches w exs) (local_orders_of E w ?i)"
    and t: "ca_open_orders (we_client E t ?i) = Ok exs" "ca_cancellable_orders (we_client E t ?i) = Ok []"
    by (auto simp: client_matches_def answered_def idx split: sum.splits list.splits)
  have ks: "set (we_orders E (dom (w_tracked_orders w))) = dom (w_tracked_orders w)" "distinct (we_orders E (dom (w_tracked_orders w)))"
    using iteration_orderD [OF assms(2,3)] by simp_all
  then have "set (local_orders_of E w ?i) = {oid \<in> dom (w_tracked_orders w). w_order_to_client w oid = Some ?i}"
    "distinct (local_orders_of E w ?i)"
    by (auto simp: local_orders_of_def)
  with exs(3,4) t show ?thesis
    by (intro exI [of _ t] exI [of _ exs])
      (auto simp: list_all_iff intro!: local_order_matched simp flip: distinct_card)
qed

subsection \<open>A turn returns\<close>

text \<open>Two operations of a turn can panic: the sum of a balance and the subtraction of a fill.\<close>

definition sums_defined :: "dec_ops \<Rightarrow> bool" where
  "sums_defined D \<longleftrightarrow> (\<forall>a b. d_add D a b \<noteq> None \<and> d_sub D a b \<noteq> None)"

definition returns :: "'a option \<Rightarrow> bool" where
  "returns m \<longleftrightarrow> m \<noteq> None"

named_theorems return_rules \<open>an operation that is composed of ones that return\<close>

lemma returns_basic [return_rules]:
  "returns (Some x)"
  "returns m1 \<Longrightarrow> (\<And>x. returns (f1 x)) \<Longrightarrow> returns (m1 \<bind> f1)"
  "(c \<Longrightarrow> returns m2) \<Longrightarrow> (\<not> c \<Longrightarrow> returns m3) \<Longrightarrow> returns (if c then m2 else m3)"
  "returns (f2 y) \<Longrightarrow> returns (Let y f2)"
  "returns m4 \<Longrightarrow> returns (map_option f3 m4)"
  by (auto simp: returns_def)

lemma returns_case [return_rules]:
  "(\<And>a b. returns (g a b)) \<Longrightarrow> returns (case p of (a, b) \<Rightarrow> g a b)"
  "returns n \<Longrightarrow> (\<And>x. returns (g' x)) \<Longrightarrow> returns (case o' of None \<Rightarrow> n | Some x \<Rightarrow> g' x)"
  "(\<And>x. returns (h x)) \<Longrightarrow> (\<And>y. returns (k y)) \<Longrightarrow> returns (case s of Inl x \<Rightarrow> h x | Inr y \<Rightarrow> k y)"
  by (auto simp: returns_def split: prod.splits option.splits sum.splits)

lemma returns_then [return_rules]:
  "returns m \<Longrightarrow> (\<And>w x. returns (f w x)) \<Longrightarrow> returns (step_then m f)"
  "returns m' \<Longrightarrow> (\<And>x. returns (f' x)) \<Longrightarrow> returns (try_then m' f')"
  by (auto simp: returns_def step_then_def try_then_def split: option.splits sum.splits)

lemma returns_sums [return_rules]: "sums_defined D \<Longrightarrow> returns (d_add D a b)" "sums_defined D \<Longrightarrow> returns (d_sub D a b)"
  by (simp_all add: sums_defined_def returns_def)

lemma balances_return [return_rules]: "sums_defined D \<Longrightarrow> returns (any_balance_malformed D bs)"
  by (induction bs) (auto simp: balance_malformed_def intro!: return_rules)

lemma admission_returns [return_rules]: "sums_defined (we_dec E) \<Longrightarrow> returns (validate_account_admission E w acc intent i now)"
  unfolding validate_account_admission_def by (intro return_rules)

lemma choose_client_returns [return_rules]: "sums_defined (we_dec E) \<Longrightarrow> returns (choose_client E intent acc sim w)"
  unfolding choose_client_def by (intro return_rules)

lemma confirm_binding_returns [return_rules]: "sums_defined (we_dec E) \<Longrightarrow> returns (confirm_binding E intent acc i validated w)"
  unfolding confirm_binding_def by (intro return_rules)

lemma admit_envelope_returns [return_rules]: "sums_defined (we_dec E) \<Longrightarrow> returns (admit_envelope E e w)"
  unfolding admit_envelope_def by (intro return_rules)

lemma execution_tracking_returns [return_rules]: "sums_defined (we_dec E) \<Longrightarrow> returns (update_execution_tracking E ev w)"
  by (cases "(E, ev, w)" rule: update_execution_tracking.cases) (auto simp: track_fill_def intro!: return_rules)

lemma stream_event_returns [return_rules]: "sums_defined (we_dec E) \<Longrightarrow> returns (handle_stream_event E i ev w)"
  unfolding handle_stream_event_def by (intro return_rules)

lemma stream_item_returns [return_rules]: "sums_defined (we_dec E) \<Longrightarrow> returns (handle_execution_stream_item E item w)"
  by (cases "(E, item, w)" rule: handle_execution_stream_item.cases) (auto intro!: return_rules)

lemma poll_items_returns [return_rules]: "sums_defined (we_dec E) \<Longrightarrow> returns (poll_items E limit items n w)"
proof (induction items arbitrary: n w)
  case (Cons item items)
  then show ?case by (cases item) (auto intro!: return_rules split: sum.splits)
qed (simp add: return_rules)

lemma drain_round_returns [return_rules]: "sums_defined (we_dec E) \<Longrightarrow> returns (drain_round E a w)"
  unfolding drain_round_def poll_execution_events_def by (intro return_rules)

lemma drain_rounds_returns [return_rules]: "sums_defined (we_dec E) \<Longrightarrow> returns (drain_rounds E rounds w)"
  by (induction rounds arbitrary: w) (auto intro!: return_rules)

lemma process_envelopes_returns [return_rules]: "sums_defined (we_dec E) \<Longrightarrow> returns (process_envelopes E es w)"
  by (induction es arbitrary: w)
    (auto simp: process_envelope_def drain_private_events_before_submission_def intro!: return_rules)

lemma turn_returns: "sums_defined (we_dec E) \<Longrightarrow> returns (worker_turn E w)"
  unfolding worker_turn_def intake_turn_def idle_wait_def process_order_intents_def poll_execution_events_def
  by (intro return_rules)

subsection \<open>Counting outcomes\<close>

fun received_as :: "string \<Rightarrow> worker_action \<Rightarrow> bool" where
  "received_as c (Received e) = (env_client_order_id e = c)"
| "received_as c _ = False"

fun crossed_as :: "string \<Rightarrow> worker_action \<Rightarrow> bool" where
  "crossed_as c (Placed i e r) = (env_client_order_id e = c \<and> \<not> not_attempted r)"
| "crossed_as c _ = False"

fun rejected_as :: "string \<Rightarrow> worker_action \<Rightarrow> bool" where
  "rejected_as c (RejectedUnsent c' reason ts) = (c' = c)"
| "rejected_as c _ = False"

lemma weight_as: "weight c a = (if received_as c a then 1 else 0) - (if crossed_as c a then 1 else 0) - (if rejected_as c a then 1 else 0)"
  by (cases a) auto

lemma hand_as:
  "hand l c = int (length (filter (received_as c) l)) - int (length (filter (crossed_as c) l)) - int (length (filter (rejected_as c) l))"
  by (induction l) (auto simp: weight_as)

subsection \<open>A sample run\<close>

definition sample_execution_client :: execution_client where
  "sample_execution_client = \<lparr>xc_is_simulated_execution = False, xc_asset_inventory_capability = UnsupportedInventory,
     xc_price_protection = VenueQuote, xc_stream_may_complete = False, xc_supports_recent_fills = False\<rparr>"

definition sample_readback :: account_external_readback where
  "sample_readback = \<lparr>xr_state = ReadbackEnabled,
     xr_balances = [\<lparr>bal_asset = ''USDT'', bal_available = 100, bal_frozen = 0, bal_total = 100, bal_usd_value = Some 100\<rparr>],
     xr_capability = default_account_capability, xr_regional_compliance_attestation_id = ''c'', xr_receipt_id = ''r'',
     xr_evidence_digest = ''d'', xr_validated_at = 1, xr_valid_until = 10\<rparr>"

definition sample_account_admission :: account_execution_admission where
  "sample_account_admission = \<lparr>xa_account_id = AccountId ''a'', xa_venue = BINANCE, xa_product_type = Spot, xa_environment = EnvLive,
     xa_credential_reference = ''k'', xa_readback = sample_readback, xa_max_order_notional = 50, xa_max_open_orders = 1,
     xa_kill_switch_active = False, xa_ready = True\<rparr>"

definition sample_bindings :: worker_bindings where
  "sample_bindings = \<lparr>wb_venue_to_client = [BINANCE \<mapsto> 0], wb_strategy_to_client = None,
     wb_account_to_client = Some [AccountId ''a'' \<mapsto> 0], wb_account_admissions = Some [AccountId ''a'' \<mapsto> sample_account_admission],
     wb_account_environments = Some [AccountId ''a'' \<mapsto> EnvLive], wb_binance_usdm_client_indices = {},
     wb_rate_budget = sample_budget, wb_account_egress = [AccountId ''a'' \<mapsto> ''e'']\<rparr>"

definition sample_worker_order :: order_intent_envelope where
  "sample_worker_order = \<lparr>env_intent = intent_crypto_spot (Symbol ''BTC'') Buy 2 Limit (Some 20) GTC ''s'' (Some BINANCE),
     env_lifecycle = lifecycle_new 1 9, env_client_order_id = ''c1'', env_account_id = Some (AccountId ''a''),
     env_price_reference = None, env_source_book_identity = None\<rparr>"

definition sample_answers :: client_answers where
  "sample_answers = \<lparr>ca_open_orders = Ok [], ca_cancellable_orders = Ok [], ca_balance = Ok [], ca_positions = Ok [],
     ca_recent_fills = Ok [], ca_inventory_from = (\<lambda>_. Ok [])\<rparr>"

text \<open>An environment in which every answer is a good one; commands and envelopes arrive as given.\<close>

definition sample_worker_env :: "(nat \<Rightarrow> control_command list) \<Rightarrow> order_intent_envelope list \<Rightarrow> worker_env" where
  "sample_worker_env cmds es = \<lparr>
     we_dec = exact_dec, we_fx = (\<lambda>_. 0), we_text = (\<lambda>_. []), we_reason = (\<lambda>_. Msg []),
     we_orders = sorted_list_of_set, we_venues = (\<lambda>_. [BINANCE]), we_accounts = (\<lambda>_. [AccountId ''a'']),
     we_now_micros = (\<lambda>_. 5), we_instant = (\<lambda>_. 5), we_market = (\<lambda>_. None), we_router = (\<lambda>_ _ _. None),
     we_place = (\<lambda>_ _ _. \<lparr>sa_outcome = Ok (OrderId ''v1''), sa_write_started = None, sa_write_returned = None, sa_response_received = None\<rparr>),
     we_cancel = (\<lambda>_ _ _. Ok ()), we_modify = (\<lambda>_ _ oid _ _. Ok oid), we_connected = (\<lambda>_ _. True),
     we_client = (\<lambda>_ _. sample_answers), we_turn = (\<lambda>t. \<lparr>ar_commands = cmds t, ar_items = []\<rparr>), we_rounds = (\<lambda>_. []),
     we_idle = (\<lambda>_. None), we_envelopes = (\<lambda>_. es), we_queued = (\<lambda>_. []), we_has_pending_intents = (\<lambda>_. False),
     we_applied_streams = (\<lambda>_. [])\<rparr>"

definition sample_worker :: worker where
  "sample_worker = spawn_execution_worker (default_worker_config\<lparr>wc_ack_timeout_ms := 0, wc_reconcile_interval_ms := 0\<rparr>)
     [sample_execution_client] False sample_bindings 0"

text \<open>The definitions that evaluate a turn of the sample.\<close>

lemmas worker_eval = worker_turn_def reading_def sample_worker_env_def handle_commands_def poll_execution_events_def
  latch_emergency_def worker_dispatch_cancellations_def include_worker_tracked_orders_def sample_worker_def spawn_defs
  sample_bindings_def no_cancellations_def act_def poll_applied_execution_streams_def retry_stream_recovery_if_due_def
  stream_recovery_ready_for_reconcile_def intake_turn_def execution_event_batch_limit_def default_worker_config_def
  receive_batch_def process_order_intents_def count_processed_def count_stats_def process_envelope_def
  drain_private_events_before_submission_def drain_round_def no_arrivals_def admit_envelope_def step_then_def
  validate_pre_execution_def sample_worker_order_def lifecycle_validate_def lifecycle_new_def default_lifecycle_def is_expired_at_def
  validate_order_limits_def reject_intent_def reject_unsent_def periodic_reconcile_def List.map_filter_def

lemmas placing_eval = collect_reconcile_snapshot_def client_snapshot_def sample_execution_client_def sample_answers_def
  update_reconciled_open_orders_def snapshot_is_complete_def bound_account_def venue_for_client_def
  simulated_identity_def canonical_account_def choose_client_def live_client_def client_of_def vec_get_def
  validate_account_admission_def admission_evidence_def sample_account_admission_def sample_readback_def default_account_capability_def
  balance_malformed_def exact_dec_def admission_limits_def open_order_count_def intent_crypto_spot_def
  validate_client_product_scope_def confirm_binding_def market_gate_def validate_execution_market_reference_def source_sequence_def
  admit_new_order_rate_budget_def sample_budget_def admit_at_def request_keys_def keys_of_request_def sample_request_def
  sample_bucket_def refill_def submit_envelope_def submission_succeeded_def latch_duplicate_order_id_def order_known_def
  set_timeline_def track_order_def report_new_def report_event_def one_failed_def unwrap_or_def

lemma blank_sample: "blank ''a'' = False" "blank ''USDT'' = False" "blank ''c'' = False" "blank ''r'' = False" "blank ''d'' = False" "blank ''k'' = False"
  by code_simp+

lemma venue_sample: "BINANCE \<noteq> BINANCE_FUTURES" by (simp add: BINANCE_def BINANCE_FUTURES_def)

abbreviation emergency_env :: worker_env where
  "emergency_env \<equiv> sample_worker_env (\<lambda>t. if t = 0 then [EnterEmergency []] else []) [sample_worker_order]"

abbreviation placing_env :: worker_env where
  "placing_env \<equiv> sample_worker_env (\<lambda>t. if t = 0 then [ReconcileAccounts False False False] else []) [sample_worker_order]"

lemma sample_emergency:
  "\<exists>w w'. worker_run emergency_env 1 sample_worker = Some w \<and> w_emergency_latched w \<and> worker_run emergency_env 1 w = Some w'"
  by (simp add: worker_eval)

lemma sample_placed:
  "\<exists>w. worker_run placing_env 1 sample_worker = Some w \<and> Placed 0 sample_worker_order (Ok (OrderId ''v1'')) \<in> set (w_log w) \<and>
     w_account_to_client w (AccountId ''a'') = Some 0 \<and> w_account_admissions w (AccountId ''a'') = Some sample_account_admission"
  by (simp add: worker_eval placing_eval Let_def blank_sample venue_sample)

text \<open>
  The pause of an operator is acknowledged while the worker still holds a batch: the intents of that batch are refused, but
  only after the acknowledgement.
\<close>

lemma pause_acknowledged_before_batch_is_rejected:
  "\<exists>w. worker_run (placing_env\<lparr>we_rounds := (\<lambda>_. [\<lparr>ar_commands = [SetIntake False], ar_items = []\<rparr>])\<rparr>) 1 sample_worker = Some w \<and>
     (\<exists>l. w_log w = l @ [Received sample_worker_order, Replied (ResultReply (Ok ())), RejectedUnsent ''c1'' [] 5])"
  by (simp add: worker_eval placing_eval Let_def worker_set_intake_def reject_queued_intents_for_disabled_intake_def)

subsection \<open>Properties\<close>

text \<open>
  C16. Once the emergency latch of the execution worker is set, it stays set and intake stays closed for the rest of its
  life: whatever commands, events, reconciliations and envelopes follow, no order is placed and no order is modified at
  any client.
\<close>

theorem worker_emergency_fail_closed:
  assumes "worker_run E m (spawn_execution_worker cfg clients routed b start) = Some w"
    and "w_emergency_latched w" and "worker_run E n w = Some w'"
  shows "w_emergency_latched w' \<and> \<not> w_accepting_intents w' \<and>
    (\<exists>new. w_log w' = w_log w @ new \<and> (\<forall>i e r. Placed i e r \<notin> set new) \<and> (\<forall>i oid nq np. ModifySent i oid nq np \<notin> set new))"
proof -
  have "intake_exact w" using steps_intake_exact [OF spawned_run(1) [OF assms(1)]] spawn_invariants(2) by blast
  note same = steps_emergency [OF continued_run [OF assms(1,3)] this assms(2)]
  obtain new where new: "w_log w' = w_log w @ new" using steps_log [OF continued_run [OF assms(1,3)]] by blast
  have "\<not> opens_risk a" if "a \<in> set new" for a using log_without_risk [OF new _ that] same by blast
  with new have "w_log w' = w_log w @ new \<and> (\<forall>i e r. Placed i e r \<notin> set new) \<and> (\<forall>i oid nq np. ModifySent i oid nq np \<notin> set new)"
    by force
  with same show ?thesis by (auto simp: intake_exact_def)
qed

theorem worker_emergency_fail_closed_witness:
  "\<exists>w w' new. worker_run emergency_env 1 sample_worker = Some w \<and> worker_run emergency_env 1 w = Some w' \<and>
     w_log w' = w_log w @ new \<and> w_emergency_latched w' \<and> (\<forall>i e r. Placed i e r \<notin> set new)"
proof -
  obtain w w' where run: "worker_run emergency_env 1 sample_worker = Some w" "w_emergency_latched w" "worker_run emergency_env 1 w = Some w'"
    using sample_emergency by blast
  from worker_emergency_fail_closed [OF run(1) [unfolded sample_worker_def] run(2,3)] run(1,3) show ?thesis by blast
qed

text \<open>
  C21. The state of the execution worker is well formed after every turn: each of the four vectors has one entry per client,
  every tracked order belongs to exactly one client, whose index is in range, and an order waits for an acknowledgement
  only while it is tracked. Intake is open exactly when the operator allows it and neither the emergency latch nor the
  stream recovery latch is set, so automatic recovery never overrides a pause and nothing leaves intake closed without a
  reason.
\<close>

theorem worker_state_well_formed:
  assumes "worker_run E n (spawn_execution_worker cfg clients routed b start) = Some w"
  shows "w_clients w = clients \<and>
    length (w_client_connected w) = length clients \<and> length (w_client_stream_barriers w) = length clients \<and>
    length (w_client_latest_stream_id w) = length clients \<and> length (w_client_engine_ack_pending w) = length clients \<and>
    dom (w_order_to_client w) = dom (w_tracked_orders w) \<and> dom (w_pending_acks w) \<subseteq> dom (w_tracked_orders w) \<and>
    finite (dom (w_tracked_orders w)) \<and> (\<forall>oid i. w_order_to_client w oid = Some i \<longrightarrow> unat i < length clients) \<and>
    (w_accepting_intents w \<longleftrightarrow> w_operator_intake_enabled w \<and> \<not> w_emergency_latched w \<and> \<not> w_stream_recovery_pending w)"
  using spawned_clients [OF assms] steps_wf [OF spawned_run(1) [OF assms] spawn_invariants(1)]
    steps_intake_exact [OF spawned_run(1) [OF assms] spawn_invariants(2)]
  by (simp add: worker_wf_def intake_exact_def)

theorem worker_state_well_formed_witness:
  "\<exists>w. worker_run placing_env 1 sample_worker = Some w \<and> length (w_client_connected w) = 1 \<and>
     dom (w_order_to_client w) = dom (w_tracked_orders w)"
proof -
  obtain w where run: "worker_run placing_env 1 sample_worker = Some w" using sample_placed by blast
  from worker_state_well_formed [OF run [unfolded sample_worker_def]] run show ?thesis by auto
qed

text \<open>
  C17. No envelope is lost or sent twice: over any number of turns, for every client order id, the envelopes taken from the
  intent queue are as many as the submissions that crossed to a venue client and the rejections reported as unsent
  together.
\<close>

theorem envelopes_settled_once:
  assumes "worker_run E n (spawn_execution_worker cfg clients routed b start) = Some w"
  shows "length (filter (received_as c) (w_log w)) =
    length (filter (crossed_as c) (w_log w)) + length (filter (rejected_as c) (w_log w))"
  using spawned_run(2) [OF assms, of c] unfolding hand_as by linarith

theorem envelopes_settled_once_witness:
  "\<exists>w. worker_run placing_env 1 sample_worker = Some w \<and>
     length (filter (received_as ''c1'') (w_log w)) =
       length (filter (crossed_as ''c1'') (w_log w)) + length (filter (rejected_as ''c1'') (w_log w))"
proof -
  obtain w where run: "worker_run placing_env 1 sample_worker = Some w" using sample_placed by blast
  from envelopes_settled_once [OF run [unfolded sample_worker_def], of "''c1''"] run show ?thesis by blast
qed

text \<open>
  C18. Every order placed at a client that is not simulated was within the admission of its account: the account of the
  envelope is bound to that very client, its admission names the account, the venue of the client, the bound environment
  and the product, was ready, without kill switch and with an enabled readback that was valid at a reading of the clock,
  and the notional of the order is within the limit of the account.
\<close>

theorem placed_orders_admitted:
  assumes "worker_run E n (spawn_execution_worker cfg clients routed b start) = Some w"
    and "Placed i e r \<in> set (w_log w)" and "unat i < length clients" and "\<not> xc_is_simulated_execution (clients ! unat i)"
  shows "\<exists>acc adm t p notional. env_account_id e = Some acc \<and> w_account_to_client w acc = Some i \<and>
    w_account_admissions w acc = Some adm \<and> xa_account_id adm = acc \<and> venue_for_client E w i = Some (xa_venue adm) \<and>
    w_account_environments w acc = Some (xa_environment adm) \<and> xa_product_type adm = in_product_type (env_intent e) \<and>
    xa_ready adm \<and> \<not> xa_kill_switch_active adm \<and> xr_state (xa_readback adm) = ReadbackEnabled \<and>
    xr_validated_at (xa_readback adm) \<le> we_now_micros E t \<and> we_now_micros E t \<le> xr_valid_until (xa_readback adm) \<and>
    in_price (env_intent e) = Some p \<and> d_mul (we_dec E) p (in_quantity (env_intent e)) = Some notional \<and>
    notional \<le> xa_max_order_notional adm"
proof -
  from spawned_clients [OF assms(1)] assms(3,4) have "live_client w i" by (simp add: live_client_def client_of_def vec_get_def)
  with steps_placed_within [OF spawned_run(1) [OF assms(1)] spawn_invariants(4)] assms(2)
  show ?thesis unfolding placed_within_def within_admission_def by blast
qed

theorem placed_orders_admitted_witness:
  "\<exists>w adm p notional. worker_run placing_env 1 sample_worker = Some w \<and> Placed 0 sample_worker_order (Ok (OrderId ''v1'')) \<in> set (w_log w) \<and>
     w_account_admissions w (AccountId ''a'') = Some adm \<and> xa_ready adm \<and>
     in_price (env_intent sample_worker_order) = Some p \<and>
     d_mul (we_dec placing_env) p (in_quantity (env_intent sample_worker_order)) = Some notional \<and> notional \<le> xa_max_order_notional adm"
proof -
  obtain w where run: "worker_run placing_env 1 sample_worker = Some w" "Placed 0 sample_worker_order (Ok (OrderId ''v1'')) \<in> set (w_log w)"
    using sample_placed by blast
  have acc: "env_account_id sample_worker_order = Some (AccountId ''a'')" by (simp add: sample_worker_order_def)
  from placed_orders_admitted [OF run(1) [unfolded sample_worker_def] run(2)] run acc show ?thesis
    by (fastforce simp: sample_execution_client_def)
qed



text \<open>
  C20. When a reconciliation of the execution worker opens intake again, the operator allows it and no emergency is latched,
  every client is connected, no stream waits for its barrier or for the engine, and for every client the open orders it
  returned are as many as the orders tracked for it, each tracked order among them with the same remaining quantity, and
  it has no conditional orders.
\<close>

theorem recovery_reopens_only_when_exact:
  assumes "worker_reconcile_open_orders E w = (w', fin)" and "\<not> w_accepting_intents w" and "w_accepting_intents w'"
    and "iteration_order (we_orders E)" and "finite (dom (w_tracked_orders w))"
  shows "w_operator_intake_enabled w \<and> \<not> w_emergency_latched w \<and> w_stream_recovery_pending w \<and>
    list_all id (w_client_connected w) \<and> list_all Option.is_none (w_client_stream_barriers w) \<and>
    list_all Option.is_none (w_client_engine_ack_pending w) \<and>
    (\<forall>k < length (w_clients w). \<exists>t exs.
       ca_open_orders (we_client E t (of_nat k)) = Ok exs \<and> ca_cancellable_orders (we_client E t (of_nat k)) = Ok [] \<and>
       length exs = card {oid \<in> dom (w_tracked_orders w). w_order_to_client w oid = Some (of_nat k)} \<and>
       (\<forall>oid order. w_tracked_orders w oid = Some order \<longrightarrow> w_order_to_client w oid = Some (of_nat k) \<longrightarrow>
          (\<exists>ex \<in> set exs. names_order oid ex \<and> oo_remaining_quantity ex = tr_remaining_quantity order)))"
  using assms(1)
proof (cases rule: worker_reconcile_stages)
  case (unchanged w1)
  then show ?thesis using assms(2,3) by (simp add: same_orders_def same_latches_def)
next
  case (recovered w1)
  have ev: "recovery_evidence E w" using recovered(2,4) recovery_evidence_cong by blast
  have matched: "\<exists>t exs. ca_open_orders (we_client E t (of_nat k)) = Ok exs \<and> ca_cancellable_orders (we_client E t (of_nat k)) = Ok [] \<and>
       length exs = card {oid \<in> dom (w_tracked_orders w). w_order_to_client w oid = Some (of_nat k)} \<and>
       (\<forall>oid order. w_tracked_orders w oid = Some order \<longrightarrow> w_order_to_client w oid = Some (of_nat k) \<longrightarrow>
          (\<exists>ex \<in> set exs. names_order oid ex \<and> oo_remaining_quantity ex = tr_remaining_quantity order))"
    if "k < length (w_clients w)" for k
    by (rule evidence_of_client [OF ev assms(4,5) that])
  show ?thesis
    using matched ev recovered assms(2,3)
    by (auto simp: recovery_evidence_def streams_settled_def same_orders_def same_latches_def finish_recovery_def
        dest: health_tick split: prod.splits if_splits)
qed

lemma sample_recovery:
  "\<exists>w'. worker_reconcile_open_orders (sample_worker_env (\<lambda>_. []) []) (latch_stream_recovery sample_worker) = (w', True) \<and> w_accepting_intents w'"
  by (simp add: worker_reconcile_open_orders_def worker_eval placing_eval Let_def latch_stream_recovery_def
      execution_clients_currently_healthy_def streams_settled_def recovery_snapshot_matches_def client_matches_def local_orders_of_def
      reject_one_queued_intent_batch_for_recovery_def reject_batch_def finish_recovery_def)

theorem recovery_reopens_only_when_exact_witness:
  "\<exists>w'. worker_reconcile_open_orders (sample_worker_env (\<lambda>_. []) []) (latch_stream_recovery sample_worker) = (w', True) \<and>
     w_accepting_intents w' \<and>
     (\<exists>t. ca_cancellable_orders (we_client (sample_worker_env (\<lambda>_. []) []) t 0) = Ok [])"
proof -
  obtain w' where rec: "worker_reconcile_open_orders (sample_worker_env (\<lambda>_. []) []) (latch_stream_recovery sample_worker) = (w', True)"
    "w_accepting_intents w'"
    using sample_recovery by blast
  have "\<not> w_accepting_intents (latch_stream_recovery sample_worker)" "iteration_order (we_orders (sample_worker_env (\<lambda>_. []) []))"
    "finite (dom (w_tracked_orders (latch_stream_recovery sample_worker)))" "length (w_clients (latch_stream_recovery sample_worker)) = 1"
    by (simp_all add: latch_stream_recovery_def iteration_order_def sample_worker_env_def sample_worker_def spawn_defs)
  with recovery_reopens_only_when_exact [OF rec(1) _ rec(2)] rec show ?thesis by fastforce
qed



end
