(* ===== verification/Spec2Isabelle.thy ===== *)
theory Spec2Isabelle
  imports OMS_Properties OMS_Recovery Admission_View Portfolio_Properties Rate_Budget Ring_Interleaving
    Execution_Queues Depth_Replay Engine_Halt Intake_Exposure Sentinel Worker_Properties
begin

text \<open>
  A verification of the trading core of a high-frequency trading platform (the Rust workspace \<open>src/rust_hft\<close>; the
  paths below are relative to it).

  \<^bold>\<open>The program.\<close> Market data adapters feed an \<^emph>\<open>engine\<close>, which keeps a view of the books, calls strategies, and
  takes the order intents they emit through a stack of risk managers. An accepted intent is valued in the risk
  reservations and sent on a single-producer single-consumer queue to an execution worker, which talks to the venue
  clients and returns execution reports on a second queue. The engine applies every report to the two owners of the
  canonical state, the order manager (\<open>risk-control/oms-core\<close>) and the portfolio (\<open>risk-control/portfolio-core\<close>),
  and releases the reservations. A control plane compares both owners with the venues, halts and resumes trading; a
  sentinel watches latency, drawdown and data gaps and can stop everything. Beside the engine, \<open>apps/binance-md\<close> runs
  a depth lane: parser, snapshot and diff bridge, book, features, signal, recording and replay.

  \<^bold>\<open>Conventions\<close> (theory \<open>Prelude\<close>). A struct is a record, an enum a datatype, a fallible function returns
  \<open>'e + 'a\<close> with \<open>Err\<close> and \<open>Ok\<close>, \<open>u64\<close> and \<open>usize\<close> are words of 64 bits that wrap as the release profile has
  them. The release profile also aborts on panic, so an operation that can panic has an outer option whose \<open>None\<close> is
  the abort. A method with \<open>&mut self\<close> returns the new state. Maps of the code are maps; where the code iterates over
  a hash map, the order is an argument, constrained only to enumerate the domain, so that the results hold for every
  order. Clock readings, the answers of venues, the decimal package (\<open>dec_ops\<close>, with its documented rounding and its
  failures), the hash over a checkpoint and what other tasks do while one waits are arguments too. Logging and
  metrics are left out.

  \<^bold>\<open>Theories and sources.\<close>
  \<^item> \<open>Core_Types\<close>, \<open>Key_Order\<close>: \<open>market-core/core/src/types.rs\<close> and \<open>error.rs\<close>: identifiers, venues, sides, the
    error type, the derived order of the identifiers.
  \<^item> \<open>Order_Intents\<close>, \<open>Ports\<close>: \<open>market-core/ports/src/events.rs\<close> and \<open>traits.rs\<close>: order intents with their lifecycle
    gates, execution events, order records, account views and admissions.
  \<^item> \<open>OMS\<close>, with \<open>OMS_Invariant\<close>, \<open>OMS_Properties\<close>, \<open>OMS_Recovery\<close>: \<open>risk-control/oms-core/src/lib.rs\<close>, the order
    manager: \<open>OmsCore\<close> is the record \<open>oms_core\<close>, its methods have the names of the code. Shown: the invariant of all
    reachable states, fills counted once and within the contract, final statuses, refused events, checkpoints that
    round trip or change nothing, reconciliation against the orders of a venue.
  \<^item> \<open>Risk_Reservations\<close>, with \<open>Reservation_Properties\<close>, \<open>Admission_View\<close>: \<open>engine/src/risk_reservations.rs\<close>. Shown:
    unique identities, release only on evidence, an admission view that counts everything reserved, replacements that
    never raise the exposure.
  \<^item> \<open>Portfolio\<close>, with \<open>Portfolio_Invariant\<close>, \<open>Portfolio_Properties\<close>: \<open>risk-control/portfolio-core/src/lib.rs\<close>.
    Shown: the equity identity, exact positions, restart from a checkpoint.
  \<^item> \<open>Rate_Budget\<close>: \<open>engine/src/rate_budget.rs\<close>. Shown: what is admitted in any window is bounded.
  \<^item> \<open>Ring_Buffer\<close>, \<open>Ring_Interleaving\<close>: \<open>engine/src/dataflow/ring_buffer.rs\<close>, as a sequential structure and as
    interleaved atomic steps of a producer and a consumer. Shown: a queue, without loss, reordering or data race.
  \<^item> \<open>Execution_Queues\<close>: \<open>engine/src/execution_queues.rs\<close> and the market view of \<open>aggregation.rs\<close> its last gate reads.
    Shown: nothing lost, reliable reports delivered, gates that use the current market.
  \<^item> \<open>Engine\<close>, with \<open>Engine_Properties\<close>, \<open>Engine_Halt\<close>: the part of \<open>engine/src/lib.rs\<close> that owns the canonical
    state: the report handler, its checkpoints and rollbacks, trading modes, restore and readback. Shown: a report
    reaches both owners or neither, the recursion on completions ends, the halt is fail-closed.
  \<^item> \<open>Default_Risk\<close>, \<open>Risk_Rate\<close>: \<open>risk-control/risk/src/default_risk_manager.rs\<close>, the base risk manager and its
    order rate. \<open>Exposure_Projection\<close>, \<open>Risk_Stack\<close>, \<open>Risk_Orders\<close>, \<open>Risk_Exposure\<close>: the layers of
    \<open>runtime/src/risk_manager_factory.rs\<close>, \<open>exposure_projection.rs\<close> and \<open>portfolio_manager.rs\<close>. Shown: the stack only
    returns orders it was given, and never one that takes the gross exposure over the caps.
  \<^item> \<open>Engine_Admission\<close>, \<open>Engine_Intake\<close>, \<open>Intake_Exposure\<close>: the intake of \<open>engine/src/lib.rs\<close>. Shown: queued exactly
    when reserved, for one submission and for what strategies emit, within the ceilings and the caps of the batch.
  \<^item> \<open>Account_Reconciliation\<close>, \<open>Reconciliation_Exact\<close>, \<open>Execution_Control\<close>, \<open>Control_Properties\<close>:
    \<open>engine/src/execution_control.rs\<close>, the comparison with the venues and the control handle. Shown: what a healthy
    comparison vouches for, and that a guarded reconciliation leaves the engine trading only after one.
  \<^item> \<open>Sentinel\<close>: \<open>risk-control/risk/src/sentinel.rs\<close> and \<open>apps/live/src/helpers/sentinel.rs\<close>. Shown: what an emergency
    turn does, action by action.
  \<^item> \<open>Fixed_Parser\<close>, \<open>Depth_Book\<close>, \<open>Book_Sync\<close>, \<open>Market_Features\<close>, \<open>Depth_Lane\<close>, \<open>Depth_Replay\<close>: the crate
    \<open>market-core/binance-depth\<close> and the depth loops of \<open>apps/binance-md/src/main.rs\<close>. Shown: an exact parser, no gap
    between snapshot and diffs, an in-place book equal to the sorted reference, a replay equal to the capture.

  \<^bold>\<open>Interfaces.\<close> What one component relies on in another is a locale, interpreted on the model of the provider:
  \<open>bounded_queue\<close> (the ring buffer for the execution queues, \<open>rq\<close>), \<open>event_consumer\<close> (order manager \<open>oms\<close> and portfolio
  \<open>pf\<close> for the engine), \<open>order_readback\<close> (order manager for the reservations, \<open>om\<close>), \<open>risk_reviewer\<close> and its extension
  \<open>capped_reviewer\<close> (risk stack for the intake, \<open>rv\<close> and \<open>cr\<close>), \<open>waiting_tasks\<close> (engine operations for the control plane
  that waits, \<open>wt\<close>).

  \<^bold>\<open>Bounds and fuel.\<close> Loops over data are recursions on it. The report handler calls itself on the completion event it
  creates for a full fill; it is written with a depth, and \<open>report_recursion_ends\<close> shows that two levels give the result
  of every larger depth. No other fuel is used. Lengths of lists that the code indexes with \<open>usize\<close> are below \<open>2 ^ 64\<close>
  where that matters, as a hypothesis.

  \<^bold>\<open>Not modelled.\<close> The enhanced risk manager and the paper trading summary (floating point); market data adapters,
  venue clients, storage, metrics and messaging services (input and output around third-party libraries); wiring,
  configuration files and command lines of the runtime and the applications; the choice of strategies to call, bars,
  joins, arbitrage detection and clock pulses of the engine; the bootstrap of a pristine Polymarket account; the
  research and collection systems \<open>prediction-markets\<close>, \<open>alpha-harness\<close> and \<open>tools\<close>; generated and vendored code.
\<close>

end
